(* ===== verification/Prelude.thy ===== *)
theory Prelude imports Main "HOL-Library.Word" "HOL-Library.Sublist" begin

text \<open>
  The vocabulary every other theory shares.

  \<^item> Python values: \<open>pystr\<close> is a \<^verbatim>\<open>str\<close> as the list of its code points (so that
    \<open>length\<close> counts what \<^verbatim>\<open>len\<close> counts), \<open>bytes\<close> is a list of 8-bit words, \<open>lit\<close> writes an
    ASCII literal of the source as a \<open>pystr\<close>.
  \<^item> Exceptions: a fallible pure function returns \<open>'e + 'a\<close>; a method that also changes state is an
    \<open>act\<close>, a function from the state to a result and the state it leaves behind, also when it
    raises.
  \<^item> The parts of the Python library whose tables are not in the repository (SHA-256, the
    Unicode case tables) are the fields of the record \<open>pylib\<close>, an argument of every definition
    that uses them; \<open>pylib_ok\<close> states what their documentation promises.
\<close>

section \<open>Python strings and bytes\<close>

type_synonym pystr = "nat list"
type_synonym byte = "8 word"
type_synonym bytes = "byte list"

definition lit :: "string \<Rightarrow> pystr" where
  "lit s = map of_char s"

lemma lit_Nil [simp]: "lit [] = []"
  by (simp add: lit_def)

lemma lit_Cons [simp]: "lit (c # s) = of_char c # lit s"
  by (simp add: lit_def)

text \<open>ASCII lower case: what \<^verbatim>\<open>str.lower\<close> and \<^verbatim>\<open>str.casefold\<close> do below code point 128.\<close>

definition ascii_lower_char :: "nat \<Rightarrow> nat" where
  "ascii_lower_char c = (if 65 \<le> c \<and> c \<le> 90 then c + 32 else c)"

definition ascii_lower :: "pystr \<Rightarrow> pystr" where
  "ascii_lower s = map ascii_lower_char s"

definition is_ascii :: "pystr \<Rightarrow> bool" where
  "is_ascii s \<longleftrightarrow> list_all (\<lambda>c. c < 128) s"

definition is_lower_hex :: "nat \<Rightarrow> bool" where
  "is_lower_hex c \<longleftrightarrow> 48 \<le> c \<and> c \<le> 57 \<or> 97 \<le> c \<and> c \<le> 102"

lemma ascii_lower_Nil [simp]: "ascii_lower [] = []"
  by (simp add: ascii_lower_def)

lemma ascii_lower_Cons [simp]: "ascii_lower (c # s) = ascii_lower_char c # ascii_lower s"
  by (simp add: ascii_lower_def)

lemma ascii_lower_append [simp]: "ascii_lower (s @ t) = ascii_lower s @ ascii_lower t"
  by (simp add: ascii_lower_def)

lemma ascii_lower_hex [simp]: "list_all is_lower_hex s \<Longrightarrow> ascii_lower s = s"
  by (induction s) (auto simp: is_lower_hex_def ascii_lower_char_def)

lemma is_ascii_hex: "list_all is_lower_hex s \<Longrightarrow> is_ascii s"
  by (auto simp: is_ascii_def is_lower_hex_def list_all_iff)

section \<open>The library tables the code relies on\<close>

record pylib =
  hexdigest :: "bytes \<Rightarrow> pystr"
  str_lower :: "pystr \<Rightarrow> pystr"
  casefold :: "pystr \<Rightarrow> pystr"

text \<open>
  Documented behaviour only: a SHA-256 hex digest is 64 lower-case hexadecimal digits, and both
  case operations act on ASCII text as the ASCII table does. Nothing is said about collisions.
\<close>

definition pylib_ok :: "pylib \<Rightarrow> bool" where
  "pylib_ok L \<longleftrightarrow>
     (\<forall>d. length (hexdigest L d) = 64 \<and> list_all is_lower_hex (hexdigest L d)) \<and>
     (\<forall>s. is_ascii s \<longrightarrow> str_lower L s = ascii_lower s) \<and>
     (\<forall>s. is_ascii s \<longrightarrow> casefold L s = ascii_lower s)"

text \<open>
  A concrete library for the closed witnesses: its digest spells the length and the first
  bytes of the data in hexadecimal, padded to 64 digits.
\<close>

definition hex_char :: "nat \<Rightarrow> nat" where
  "hex_char n = (if n < 10 then 48 + n else 87 + n)"

definition demo_digest :: "bytes \<Rightarrow> pystr" where
  "demo_digest d =
     take 64 (concat (map (\<lambda>b. [hex_char (unat b div 16 mod 16), hex_char (unat b mod 16)])
                       (of_nat (length d) # d)) @ replicate 64 48)"

definition demo_lib :: pylib where
  "demo_lib = \<lparr>hexdigest = demo_digest, str_lower = ascii_lower, casefold = ascii_lower\<rparr>"

lemma is_lower_hex_hex_char: "n < 16 \<Longrightarrow> is_lower_hex (hex_char n)"
  by (auto simp: is_lower_hex_def hex_char_def)

lemma list_all_take: "list_all P xs \<Longrightarrow> list_all P (take n xs)"
  by (auto simp: list_all_iff dest: in_set_takeD)

lemma length_take_padded: "length (take n (xs @ replicate n c)) = n"
  by simp

lemma demo_digest_hex: "list_all is_lower_hex (demo_digest d)"
proof -
  have "list_all is_lower_hex (concat (map (\<lambda>b. [hex_char (unat b div 16 mod 16), hex_char (unat b mod 16)]) bs))"
    for bs :: bytes
    by (induction bs) (simp_all add: is_lower_hex_hex_char)
  moreover have "list_all is_lower_hex (replicate 64 48)"
    by (simp add: list_all_iff is_lower_hex_def)
  ultimately have "list_all is_lower_hex
      (concat (map (\<lambda>b. [hex_char (unat b div 16 mod 16), hex_char (unat b mod 16)])
        (of_nat (length d) # d)) @ replicate 64 48)"
    by (simp only: list_all_append)
  then show ?thesis
    unfolding demo_digest_def by (rule list_all_take)
qed

lemma length_demo_digest: "length (demo_digest d) = 64"
  unfolding demo_digest_def by (rule length_take_padded)

lemma demo_lib_ok [simp]: "pylib_ok demo_lib"
  by (simp add: pylib_ok_def demo_lib_def demo_digest_hex length_demo_digest)

section \<open>Results and stateful actions\<close>

definition rbind :: "'e + 'a \<Rightarrow> ('a \<Rightarrow> 'e + 'b) \<Rightarrow> 'e + 'b" where
  "rbind r f = (case r of Inl e \<Rightarrow> Inl e | Inr x \<Rightarrow> f x)"

lemma rbind_simps [simp]: "rbind (Inl e) f = Inl e" "rbind (Inr x) f = f x"
  by (simp_all add: rbind_def)

lemma rbind_eq_Inr: "rbind r f = Inr y \<longleftrightarrow> (\<exists>x. r = Inr x \<and> f x = Inr y)"
  by (cases r) auto

lemma sum_case_Cons:
  "(case x of Inr r \<Rightarrow> f r | Inl e \<Rightarrow> []) = y # ys \<Longrightarrow>
     x = Inr (case x of Inr r \<Rightarrow> r | Inl e \<Rightarrow> d) \<and> f (case x of Inr r \<Rightarrow> r | Inl e \<Rightarrow> d) = y # ys"
  by (cases x) auto

text \<open>\<open>check b e\<close>: raise \<open>e\<close> unless the condition holds.\<close>

definition check :: "bool \<Rightarrow> 'e \<Rightarrow> 'e + unit" where
  "check b e = (if b then Inr () else Inl e)"

lemma check_simps [simp]:
  "check True e = Inr ()" "check False e = Inl e" "check b e = Inr u \<longleftrightarrow> b"
  by (auto simp: check_def)

fun rmap :: "('a \<Rightarrow> 'e + 'b) \<Rightarrow> 'a list \<Rightarrow> 'e + 'b list" where
  "rmap f [] = Inr []"
| "rmap f (x # xs) = rbind (f x) (\<lambda>y. rbind (rmap f xs) (\<lambda>ys. Inr (y # ys)))"

type_synonym ('s, 'e, 'a) act = "'s \<Rightarrow> ('e + 'a) \<times> 's"

definition ret :: "'a \<Rightarrow> ('s, 'e, 'a) act" where
  "ret x = (\<lambda>s. (Inr x, s))"

definition raise :: "'e \<Rightarrow> ('s, 'e, 'a) act" where
  "raise e = (\<lambda>s. (Inl e, s))"

definition lift :: "'e + 'a \<Rightarrow> ('s, 'e, 'a) act" where
  "lift r = (\<lambda>s. (r, s))"

definition seq :: "('s, 'e, 'a) act \<Rightarrow> ('a \<Rightarrow> ('s, 'e, 'b) act) \<Rightarrow> ('s, 'e, 'b) act" where
  "seq m f = (\<lambda>s. case m s of (Inl e, s') \<Rightarrow> (Inl e, s') | (Inr x, s') \<Rightarrow> f x s')"

text \<open>\<open>try m h\<close> is \<^verbatim>\<open>try: m except e: h e\<close>; the state keeps what \<open>m\<close> did before it raised.\<close>

definition try_except :: "('s, 'e, 'a) act \<Rightarrow> ('e \<Rightarrow> ('s, 'f, 'a) act) \<Rightarrow> ('s, 'f, 'a) act" where
  "try_except m h = (\<lambda>s. case m s of (Inl e, s') \<Rightarrow> h e s' | (Inr x, s') \<Rightarrow> (Inr x, s'))"

text \<open>\<open>try_else m h k\<close> is \<^verbatim>\<open>try: x = m except e: h e else: k x\<close>.\<close>

definition try_else ::
  "('s, 'e, 'a) act \<Rightarrow> ('e \<Rightarrow> ('s, 'f, 'b) act) \<Rightarrow> ('a \<Rightarrow> ('s, 'f, 'b) act) \<Rightarrow> ('s, 'f, 'b) act" where
  "try_else m h k = (\<lambda>s. case m s of (Inl e, s') \<Rightarrow> h e s' | (Inr x, s') \<Rightarrow> k x s')"

definition unless_act :: "bool \<Rightarrow> 'e \<Rightarrow> ('s, 'e, unit) act" where
  "unless_act b e = lift (check b e)"

named_theorems act_simps \<open>unfolding of the exception and state plumbing\<close>

lemma ret_apply [act_simps]: "ret x s = (Inr x, s)"
  by (simp add: ret_def)

lemma raise_apply [act_simps]: "raise e s = (Inl e, s)"
  by (simp add: raise_def)

lemma lift_apply [act_simps]: "lift r s = (r, s)"
  by (simp add: lift_def)

lemma unless_act_apply [act_simps]: "unless_act b e s = (check b e, s)"
  by (simp add: unless_act_def lift_def)

lemma seq_Inl [act_simps]: "m s = (Inl e, s') \<Longrightarrow> seq m f s = (Inl e, s')"
  by (simp add: seq_def)

lemma seq_Inr [act_simps]: "m s = (Inr x, s') \<Longrightarrow> seq m f s = f x s'"
  by (simp add: seq_def)

lemma seq_ret [simp]: "seq (ret x) f = f x"
  by (simp add: seq_def ret_def raise_def fun_eq_iff)

lemma seq_raise [simp]: "seq (raise e) f = raise e"
  by (simp add: seq_def ret_def raise_def fun_eq_iff)

text \<open>
  The laws that bring the next primitive step to the front: with them every operation reads as a
  decision tree over its system calls.
\<close>

named_theorems act_norm \<open>sequencing pushed into the branches\<close>

lemma seq_seq [act_norm]: "seq (seq m f) g = seq m (\<lambda>x. seq (f x) g)"
  by (auto simp: seq_def fun_eq_iff split: prod.splits sum.splits)

lemma seq_if [act_norm]: "seq (if b then m else n) f = (if b then seq m f else seq n f)"
  by simp

lemma seq_try_else [act_norm]:
  "seq (try_else m h c) f = try_else m (\<lambda>e. seq (h e) f) (\<lambda>x. seq (c x) f)"
  by (auto simp: seq_def try_else_def fun_eq_iff split: prod.splits sum.splits)

lemma seq_try_except [act_norm]:
  "seq (try_except m h) f = try_else m (\<lambda>e. seq (h e) f) f"
  by (auto simp: seq_def try_else_def try_except_def fun_eq_iff split: prod.splits sum.splits)

lemma seq_lift [act_norm]:
  "seq (lift (Inr x)) f = f x" "seq (lift (Inl e)) f = raise e"
  by (auto simp: seq_def lift_def raise_def fun_eq_iff)

lemma seq_unless [act_norm]: "seq (unless_act b e) f = (if b then f () else raise e)"
  by (auto simp: seq_def unless_act_def lift_def check_def raise_def fun_eq_iff)

declare seq_ret [act_norm] seq_raise [act_norm]

lemma seq_eq_Inr:
  "seq m f s = (Inr y, s'') \<longleftrightarrow> (\<exists>x s'. m s = (Inr x, s') \<and> f x s' = (Inr y, s''))"
  by (auto simp: seq_def split: prod.splits sum.splits)

lemma seq_eq_Inl:
  "seq m f s = (Inl e, s'') \<longleftrightarrow>
     m s = (Inl e, s'') \<or> (\<exists>x s'. m s = (Inr x, s') \<and> f x s' = (Inl e, s''))"
  by (auto simp: seq_def split: prod.splits sum.splits)

lemma seq_InrE [elim!]:
  assumes "seq m f s = (Inr y, s'')"
  obtains x s' where "m s = (Inr x, s')" and "f x s' = (Inr y, s'')"
  using assms by (auto simp: seq_eq_Inr)

lemma try_except_Inr [act_simps]: "m s = (Inr x, s') \<Longrightarrow> try_except m h s = (Inr x, s')"
  by (simp add: try_except_def)

lemma try_except_Inl [act_simps]: "m s = (Inl e, s') \<Longrightarrow> try_except m h s = h e s'"
  by (simp add: try_except_def)

text \<open>
  An action keeps a state property when every state it leaves, also on an exception, has it.
  Sequencing and handling preserve this, so a frame property of an operation follows from its
  primitive steps.
\<close>

definition keeps :: "('s \<Rightarrow> bool) \<Rightarrow> ('s, 'e, 'a) act \<Rightarrow> bool" where
  "keeps P m \<longleftrightarrow> (\<forall>s. P s \<longrightarrow> P (snd (m s)))"

lemma keepsD: "keeps P m \<Longrightarrow> P s \<Longrightarrow> m s = (r, s') \<Longrightarrow> P s'"
  by (metis keeps_def snd_conv)

lemma keeps_ret [simp, intro]: "keeps P (ret x)"
  and keeps_raise [simp, intro]: "keeps P (raise e)"
  and keeps_lift [simp, intro]: "keeps P (lift r)"
  and keeps_unless [simp, intro]: "keeps P (unless_act b e)"
  by (simp_all add: keeps_def ret_def raise_def lift_def unless_act_def)

lemma keeps_seq [intro]: "keeps P m \<Longrightarrow> (\<And>x. keeps P (f x)) \<Longrightarrow> keeps P (seq m f)"
  by (simp add: keeps_def seq_def split: prod.splits sum.splits) (metis snd_conv)

lemma keeps_try [intro]: "keeps P m \<Longrightarrow> (\<And>e. keeps P (h e)) \<Longrightarrow> keeps P (try_except m h)"
  by (simp add: keeps_def try_except_def split: prod.splits sum.splits) (metis snd_conv)

lemma try_else_Inl [act_simps]: "m s = (Inl e, s') \<Longrightarrow> try_else m h k s = h e s'"
  by (simp add: try_else_def)

lemma try_else_Inr [act_simps]: "m s = (Inr x, s') \<Longrightarrow> try_else m h k s = k x s'"
  by (simp add: try_else_def)

lemma keeps_try_else [intro]:
  "keeps P m \<Longrightarrow> (\<And>e. keeps P (h e)) \<Longrightarrow> (\<And>x. keeps P (k x)) \<Longrightarrow> keeps P (try_else m h k)"
  by (simp add: keeps_def try_else_def split: prod.splits sum.splits) (metis snd_conv)

lemma keeps_if [intro]: "keeps P m \<Longrightarrow> keeps P n \<Longrightarrow> keeps P (if b then m else n)"
  by simp

text \<open>\<^verbatim>\<open>try: m finally: c\<close>, for a \<open>c\<close> that does not raise.\<close>

definition finally_do :: "('s, 'e, 'a) act \<Rightarrow> ('s, 'e, unit) act \<Rightarrow> ('s, 'e, 'a) act" where
  "finally_do m c = try_else m (\<lambda>e. seq c (\<lambda>_. raise e)) (\<lambda>x. seq c (\<lambda>_. ret x))"

text \<open>
  Pre- and postconditions: from a state with \<open>P\<close>, a normal result \<open>x\<close> leaves \<open>Q x\<close> and an exception
  \<open>e\<close> leaves \<open>E e\<close>. Used where other processes interfere, so that a run is not determined.
\<close>

definition hoare ::
  "('s \<Rightarrow> bool) \<Rightarrow> ('s, 'e, 'a) act \<Rightarrow> ('a \<Rightarrow> 's \<Rightarrow> bool) \<Rightarrow> ('e \<Rightarrow> 's \<Rightarrow> bool) \<Rightarrow> bool" where
  "hoare P m Q E \<longleftrightarrow>
     (\<forall>s. P s \<longrightarrow> (case m s of (Inl e, s') \<Rightarrow> E e s' | (Inr x, s') \<Rightarrow> Q x s'))"

named_theorems hoare_rules \<open>rules for pre- and postconditions of actions\<close>

lemma hoareD_Inr: "hoare P m Q E \<Longrightarrow> P s \<Longrightarrow> m s = (Inr x, s') \<Longrightarrow> Q x s'"
  and hoareD_Inl: "hoare P m Q E \<Longrightarrow> P s \<Longrightarrow> m s = (Inl e, s') \<Longrightarrow> E e s'"
  by (fastforce simp: hoare_def)+

lemma hoareI:
  "(\<And>s x s'. P s \<Longrightarrow> m s = (Inr x, s') \<Longrightarrow> Q x s') \<Longrightarrow>
   (\<And>s e s'. P s \<Longrightarrow> m s = (Inl e, s') \<Longrightarrow> E e s') \<Longrightarrow> hoare P m Q E"
  by (simp add: hoare_def split: prod.splits sum.splits)

lemma hoare_weaken:
  "hoare P' m Q' E' \<Longrightarrow> (\<And>s. P s \<Longrightarrow> P' s) \<Longrightarrow> (\<And>x s. Q' x s \<Longrightarrow> Q x s) \<Longrightarrow>
     (\<And>e s. E' e s \<Longrightarrow> E e s) \<Longrightarrow> hoare P m Q E"
  by (rule hoareI) (meson hoareD_Inr hoareD_Inl)+

lemma hoare_pre: "hoare P' m Q E \<Longrightarrow> (\<And>s. P s \<Longrightarrow> P' s) \<Longrightarrow> hoare P m Q E"
  by (rule hoare_weaken)

lemma hoare_seq:
  "hoare P m R E \<Longrightarrow> (\<And>x. hoare (R x) (f x) Q E) \<Longrightarrow> hoare P (seq m f) Q E"
  by (rule hoareI) (auto simp: seq_eq_Inr seq_eq_Inl dest: hoareD_Inr hoareD_Inl)

lemma hoare_else:
  "hoare P m R F \<Longrightarrow> (\<And>e. hoare (F e) (h e) Q E) \<Longrightarrow> (\<And>x. hoare (R x) (c x) Q E) \<Longrightarrow>
     hoare P (try_else m h c) Q E"
  by (rule hoareI; clarsimp simp: try_else_def split: prod.splits sum.splits)
    (meson hoareD_Inr hoareD_Inl)+

lemma hoare_try:
  "hoare P m Q F \<Longrightarrow> (\<And>e. hoare (F e) (h e) Q E) \<Longrightarrow> hoare P (try_except m h) Q E"
  by (rule hoareI)
    (auto simp: try_except_def split: prod.splits sum.splits dest: hoareD_Inr hoareD_Inl)

lemma hoare_ret: "(\<And>s. P s \<Longrightarrow> Q x s) \<Longrightarrow> hoare P (ret x) Q E"
  and hoare_raise: "(\<And>s. P s \<Longrightarrow> E e s) \<Longrightarrow> hoare P (raise e) Q E"
  by (simp_all add: hoare_def act_simps)

lemma hoare_lift: "(\<And>s x. P s \<Longrightarrow> r = Inr x \<Longrightarrow> Q x s) \<Longrightarrow> (\<And>s e. P s \<Longrightarrow> r = Inl e \<Longrightarrow> E e s) \<Longrightarrow>
    hoare P (lift r) Q E"
  by (simp add: hoare_def act_simps split: sum.split)

lemma hoare_if:
  "(b \<Longrightarrow> hoare P m Q E) \<Longrightarrow> (\<not> b \<Longrightarrow> hoare P n Q E) \<Longrightarrow> hoare P (if b then m else n) Q E"
  by simp

lemma hoare_known: "(R \<Longrightarrow> hoare P m Q E) \<Longrightarrow> hoare (\<lambda>s. R \<and> P s) m Q E"
  by (auto simp: hoare_def)

lemma hoare_finally:
  "hoare P m R F \<Longrightarrow> (\<And>e. hoare (F e) c (\<lambda>_. E e) E) \<Longrightarrow> (\<And>x. hoare (R x) c (\<lambda>_. Q x) E) \<Longrightarrow>
     hoare P (finally_do m c) Q E"
  unfolding finally_do_def
  by (rule hoare_else, assumption; rule hoare_seq) (auto intro!: hoare_ret hoare_raise)

lemma hoare_keeps: "keeps P m \<longleftrightarrow> hoare P m (\<lambda>_. P) (\<lambda>_. P)"
  by (auto simp: keeps_def hoare_def case_prod_beta split: sum.split)

lemma keeps_finally [intro]: "keeps P m \<Longrightarrow> keeps P c \<Longrightarrow> keeps P (finally_do m c)"
  unfolding finally_do_def by (intro keeps_try_else keeps_seq keeps_ret keeps_raise)

end
