(* ===== verification/PyText.thy ===== *)
theory PyText imports Prelude begin

text \<open>
  The \<^verbatim>\<open>str\<close> methods the source calls, on code points: prefix and suffix tests,
  \<^verbatim>\<open>split\<close>/\<^verbatim>\<open>join\<close> on a one-character separator, \<^verbatim>\<open>find\<close>, \<^verbatim>\<open>strip\<close>,
  \<^verbatim>\<open>splitlines(keepends=True)\<close> with Python's line boundaries, and strict UTF-8.
  Python's \<^verbatim>\<open>find\<close> returns -1 for a miss; here it is \<open>None\<close>.
\<close>

section \<open>Prefixes, suffixes, searching\<close>

definition starts_with :: "pystr \<Rightarrow> pystr \<Rightarrow> bool" where
  "starts_with s p \<longleftrightarrow> take (length p) s = p"

definition ends_with :: "pystr \<Rightarrow> pystr \<Rightarrow> bool" where
  "ends_with s p \<longleftrightarrow> length p \<le> length s \<and> drop (length s - length p) s = p"

lemma starts_with_append: "starts_with s p \<longleftrightarrow> (\<exists>t. s = p @ t)"
  by (metis append_eq_conv_conj append_take_drop_id starts_with_def)

lemma starts_with_length: "starts_with s p \<Longrightarrow> length p \<le> length s"
  by (metis length_take min.cobounded2 min_def nat_le_linear starts_with_def take_all)

lemma starts_with_refl_append [simp]: "starts_with (p @ t) p"
  by (simp add: starts_with_def)

text \<open>\<^verbatim>\<open>s[i:j]\<close> for natural bounds.\<close>

definition slice :: "'a list \<Rightarrow> nat \<Rightarrow> nat \<Rightarrow> 'a list" where
  "slice s i j = take (j - i) (drop i s)"

lemma slice_full [simp]: "slice s 0 (length s) = s"
  by (simp add: slice_def)

lemma slice_append_slice: "i \<le> j \<Longrightarrow> j \<le> k \<Longrightarrow> slice s i j @ slice s j k = slice s i k"
proof -
  assume "i \<le> j" "j \<le> k"
  then obtain a b where "j = i + a" "k = i + a + b"
    by (metis le_Suc_ex)
  then show ?thesis
    by (simp add: slice_def take_add add.commute)
qed

lemma length_slice: "j \<le> length s \<Longrightarrow> i \<le> j \<Longrightarrow> length (slice s i j) = j - i"
  by (simp add: slice_def)

text \<open>\<^verbatim>\<open>s.find(p, i)\<close>: the least start at or after \<open>i\<close>.\<close>

fun find_from :: "pystr \<Rightarrow> pystr \<Rightarrow> nat \<Rightarrow> nat option" where
  "find_from p [] i = (if p = [] then Some i else None)"
| "find_from p (c # s) i = (if starts_with (c # s) p then Some i else find_from p s (Suc i))"

definition find_sub :: "pystr \<Rightarrow> pystr \<Rightarrow> nat \<Rightarrow> nat option" where
  "find_sub s p i = (if i \<le> length s then find_from p (drop i s) i else None)"

lemma find_from_Some:
  "find_from p s i = Some j \<Longrightarrow> i \<le> j \<and> j - i + length p \<le> length s \<and> starts_with (drop (j - i) s) p"
proof (induction p s i rule: find_from.induct)
  case (1 p i)
  then show ?case by (auto simp: starts_with_def split: if_splits)
next
  case (2 p c s i)
  show ?case
  proof (cases "starts_with (c # s) p")
    case True
    with "2.prems" show ?thesis
      by (auto dest: starts_with_length)
  next
    case False
    with "2.prems" have "find_from p s (Suc i) = Some j" by simp
    from "2.IH" [OF False this] have IH: "Suc i \<le> j" "j - Suc i + length p \<le> length s"
      "starts_with (drop (j - Suc i) s) p" by auto
    then have "j - i = Suc (j - Suc i)" by simp
    with IH show ?thesis by simp
  qed
qed

lemma find_sub_Some:
  assumes "find_sub s p i = Some j"
  shows "i \<le> j" and "j + length p \<le> length s" and "starts_with (drop j s) p"
proof -
  from assms have le: "i \<le> length s" and f: "find_from p (drop i s) i = Some j"
    by (simp_all add: find_sub_def split: if_splits)
  from find_from_Some [OF f] have *: "i \<le> j" "j - i + length p \<le> length s - i"
    "starts_with (drop (j - i) (drop i s)) p" by auto
  show "i \<le> j" by (fact *(1))
  show "j + length p \<le> length s" using * le by linarith
  show "starts_with (drop j s) p" using * by simp
qed

section \<open>Splitting and joining\<close>

fun split_on :: "nat \<Rightarrow> pystr \<Rightarrow> pystr list" where
  "split_on sep [] = [[]]"
| "split_on sep (c # s) =
     (if c = sep then [] # split_on sep s
      else (case split_on sep s of [] \<Rightarrow> [[c]] | w # ws \<Rightarrow> (c # w) # ws))"

fun join_with :: "nat \<Rightarrow> pystr list \<Rightarrow> pystr" where
  "join_with sep [] = []"
| "join_with sep [w] = w"
| "join_with sep (w # v # ws) = w @ sep # join_with sep (v # ws)"

lemma split_on_nonempty [simp]: "split_on sep s \<noteq> []"
  by (induction s) (auto split: list.splits)

lemma join_split [simp]: "join_with sep (split_on sep s) = s"
proof (induction s)
  case (Cons c s)
  obtain w ws where w: "split_on sep s = w # ws"
    by (cases "split_on sep s") auto
  with Cons.IH show ?case
    by (cases ws) auto
qed simp

lemma split_on_no_sep: "w \<in> set (split_on sep s) \<Longrightarrow> sep \<notin> set w"
proof (induction s arbitrary: w)
  case (Cons c s)
  then show ?case
    by (cases "split_on sep s") (auto split: if_splits)
qed simp

lemma split_on_word: "sep \<notin> set w \<Longrightarrow> split_on sep w = [w]"
  by (induction w) auto

lemma split_on_append_sep: "sep \<notin> set w \<Longrightarrow> split_on sep (w @ sep # s) = w # split_on sep s"
  by (induction w) auto

lemma split_join: "ws \<noteq> [] \<Longrightarrow> (\<And>w. w \<in> set ws \<Longrightarrow> sep \<notin> set w) \<Longrightarrow> split_on sep (join_with sep ws) = ws"
  by (induction sep ws rule: join_with.induct) (auto simp: split_on_word split_on_append_sep)

lemma join_with_snoc: "ws \<noteq> [] \<Longrightarrow> join_with sep (ws @ [w]) = join_with sep ws @ sep # w"
  by (induction sep ws rule: join_with.induct) auto

lemma join_with_Cons: "ws \<noteq> [] \<Longrightarrow> join_with sep (w # ws) = w @ sep # join_with sep ws"
  by (cases ws) auto

lemma set_split_on: "w \<in> set (split_on sep s) \<Longrightarrow> set w \<subseteq> set s"
proof (induction s arbitrary: w)
  case (Cons c s)
  then show ?case
    by (cases "split_on sep s") (fastforce split: if_splits)+
qed simp

lemma hd_split_on: "s \<noteq> [] \<Longrightarrow> hd s \<noteq> sep \<Longrightarrow> \<exists>w ws. split_on sep s = (hd s # w) # ws"
  by (cases s) (auto split: list.splits)

section \<open>White space and line boundaries\<close>

text \<open>\<^verbatim>\<open>str.isspace\<close> of one character.\<close>

definition is_space :: "nat \<Rightarrow> bool" where
  "is_space c \<longleftrightarrow> 9 \<le> c \<and> c \<le> 13 \<or> 28 \<le> c \<and> c \<le> 32 \<or> c = 133 \<or> c = 160 \<or> c = 5760 \<or>
     8192 \<le> c \<and> c \<le> 8202 \<or> c = 8232 \<or> c = 8233 \<or> c = 8239 \<or> c = 8287 \<or> c = 12288"

definition rstrip_if :: "(nat \<Rightarrow> bool) \<Rightarrow> pystr \<Rightarrow> pystr" where
  "rstrip_if P s = rev (dropWhile P (rev s))"

definition lstrip_if :: "(nat \<Rightarrow> bool) \<Rightarrow> pystr \<Rightarrow> pystr" where
  "lstrip_if P s = dropWhile P s"

definition strip_if :: "(nat \<Rightarrow> bool) \<Rightarrow> pystr \<Rightarrow> pystr" where
  "strip_if P s = rstrip_if P (lstrip_if P s)"

abbreviation strip :: "pystr \<Rightarrow> pystr" where
  "strip \<equiv> strip_if is_space"

lemma rstrip_if_prefix: "\<exists>t. s = rstrip_if P s @ t \<and> list_all P t"
proof -
  have "rev s = takeWhile P (rev s) @ dropWhile P (rev s)"
    by simp
  then have "s = rstrip_if P s @ rev (takeWhile P (rev s))"
    unfolding rstrip_if_def by (metis rev_append rev_rev_ident)
  moreover have "list_all P (rev (takeWhile P (rev s)))"
    by (auto simp: list_all_iff dest: set_takeWhileD)
  ultimately show ?thesis by blast
qed

lemma set_strip_if: "set (strip_if P s) \<subseteq> set s"
  unfolding strip_if_def rstrip_if_def lstrip_if_def
  by (metis set_dropWhileD set_rev subsetI)

lemma strip_if_empty: "strip_if P s = [] \<longleftrightarrow> list_all P s"
proof -
  have "list_all P (dropWhile P s) \<longleftrightarrow> list_all P s"
    by (induction s) auto
  then show ?thesis
    by (simp add: strip_if_def rstrip_if_def lstrip_if_def list_all_iff)
qed

text \<open>The line boundaries of \<^verbatim>\<open>str.splitlines\<close>; CR LF is one boundary.\<close>

definition is_linebreak :: "nat \<Rightarrow> bool" where
  "is_linebreak c \<longleftrightarrow> 10 \<le> c \<and> c \<le> 13 \<or> 28 \<le> c \<and> c \<le> 30 \<or> c = 133 \<or> c = 8232 \<or> c = 8233"

fun splitlines_keep :: "pystr \<Rightarrow> pystr list" where
  "splitlines_keep [] = []"
| "splitlines_keep (c # s) =
     (if c = 13 \<and> s \<noteq> [] \<and> hd s = 10 then [13, 10] # splitlines_keep (tl s)
      else if is_linebreak c then [c] # splitlines_keep s
      else (case splitlines_keep s of [] \<Rightarrow> [[c]] | l # ls \<Rightarrow> (c # l) # ls))"

lemma concat_splitlines [simp]: "concat (splitlines_keep s) = s"
proof (induction s rule: splitlines_keep.induct)
  case (2 c s)
  show ?case
  proof (cases "c = 13 \<and> s \<noteq> [] \<and> hd s = 10")
    case True
    then obtain t where "s = 10 # t" by (cases s) auto
    with True 2 show ?thesis by auto
  next
    case False
    show ?thesis
    proof (cases "is_linebreak c")
      case True
      with False 2 show ?thesis by auto
    next
      case nb: False
      with False 2(3) have IH: "concat (splitlines_keep s) = s" by blast
      show ?thesis
      proof (cases "splitlines_keep s")
        case Nil
        with IH have "s = []" by simp
        with nb show ?thesis by auto
      next
        case (Cons l ls)
        with IH nb False show ?thesis by auto
      qed
    qed
  qed
qed simp

lemma splitlines_nonempty_line: "l \<in> set (splitlines_keep s) \<Longrightarrow> l \<noteq> []"
proof (induction s arbitrary: l rule: splitlines_keep.induct)
  case (2 c s)
  show ?case
  proof (cases "c = 13 \<and> s \<noteq> [] \<and> hd s = 10")
    case True
    with 2 show ?thesis by auto
  next
    case False
    have IH: "\<forall>l \<in> set (splitlines_keep s). l \<noteq> []"
      using 2(2,3) False by blast
    have "l \<in> set (if is_linebreak c then [c] # splitlines_keep s
        else (case splitlines_keep s of [] \<Rightarrow> [[c]] | l # ls \<Rightarrow> (c # l) # ls))"
      using 2(4) False by (simp only: splitlines_keep.simps if_False)
    with IH show ?thesis
      by (cases "splitlines_keep s") (auto split: if_splits)
  qed
qed simp

lemma splitlines_eq_Nil [simp]: "splitlines_keep s = [] \<longleftrightarrow> s = []"
proof
  assume "splitlines_keep s = []"
  then have "concat (splitlines_keep s) = []" by (simp only: concat.simps)
  then show "s = []" by (simp only: concat_splitlines)
next
  assume "s = []"
  then show "splitlines_keep s = []" by (simp only: splitlines_keep.simps)
qed

section \<open>Numbers\<close>

text \<open>\<^verbatim>\<open>str(n)\<close> for a natural number.\<close>

fun digits_of :: "nat \<Rightarrow> pystr" where
  "digits_of n = (if n < 10 then [48 + n] else digits_of (n div 10) @ [48 + n mod 10])"

declare digits_of.simps [simp del]

lemma digits_of_last: "digits_of n = (if n < 10 then [] else digits_of (n div 10)) @ [48 + n mod 10]"
  by (subst digits_of.simps) simp

lemma digits_of_digits: "list_all (\<lambda>c. 48 \<le> c \<and> c \<le> 57) (digits_of n)"
proof (induction n rule: digits_of.induct)
  case (1 n)
  have "48 + n mod 10 \<le> 57" using mod_less_divisor [of 10 n] by linarith
  with 1 show ?case by (simp add: digits_of_last [of n])
qed

lemma digits_of_not_Nil [simp]: "digits_of n \<noteq> []" "[] \<noteq> digits_of n"
  by (simp_all add: digits_of_last [of n])

lemma digits_of_inject: "digits_of m = digits_of n \<Longrightarrow> m = n"
proof (induction m arbitrary: n rule: digits_of.induct)
  case (1 m)
  from "1.prems" have eq: "m mod 10 = n mod 10"
      "(if m < 10 then [] else digits_of (m div 10)) = (if n < 10 then [] else digits_of (n div 10))"
    by (simp_all add: digits_of_last [of m] digits_of_last [of n])
  show ?case
  proof (cases "m < 10")
    case True
    with eq show ?thesis by (auto split: if_splits)
  next
    case False
    with eq(2) have "digits_of (m div 10) = digits_of (n div 10)" "\<not> n < 10" by (auto split: if_splits)
    with "1.IH" False have "m div 10 = n div 10" by blast
    with eq(1) show ?thesis by (metis div_mult_mod_eq)
  qed
qed

end
