(* ===== verification/Utf8.thy ===== *)
theory Utf8 imports PyText begin

text \<open>
  Strict UTF-8, the codec behind \<^verbatim>\<open>str.encode("utf-8")\<close> and \<^verbatim>\<open>bytes.decode("utf-8")\<close>.
  Encoding a surrogate code point and decoding an overlong, truncated or out-of-range sequence
  raise in Python; here they are \<open>None\<close>. The two round trips say that a note that decodes is
  encoded back to the very same bytes.
\<close>

definition utf8_enc_char :: "nat \<Rightarrow> nat list option" where
  "utf8_enc_char c =
     (if c < 128 then Some [c]
      else if c < 2048 then Some [192 + c div 64, 128 + c mod 64]
      else if 55296 \<le> c \<and> c < 57344 then None
      else if c < 65536 then Some [224 + c div 4096, 128 + c div 64 mod 64, 128 + c mod 64]
      else if c < 1114112 then
        Some [240 + c div 262144, 128 + c div 4096 mod 64, 128 + c div 64 mod 64, 128 + c mod 64]
      else None)"

fun utf8_enc :: "pystr \<Rightarrow> nat list option" where
  "utf8_enc [] = Some []"
| "utf8_enc (c # s) =
     (case utf8_enc_char c of
        None \<Rightarrow> None
      | Some bs \<Rightarrow> map_option (\<lambda>r. bs @ r) (utf8_enc s))"

definition is_cont :: "nat \<Rightarrow> bool" where
  "is_cont b \<longleftrightarrow> 128 \<le> b \<and> b < 192"

fun utf8_dec :: "nat list \<Rightarrow> pystr option" where
  "utf8_dec [] = Some []"
| "utf8_dec (a # r) =
     (if a < 128 then map_option ((#) a) (utf8_dec r)
      else if 194 \<le> a \<and> a < 224 then
        (case r of
           b # r' \<Rightarrow>
             if is_cont b then map_option ((#) ((a - 192) * 64 + (b - 128))) (utf8_dec r')
             else None
         | _ \<Rightarrow> None)
      else if 224 \<le> a \<and> a < 240 then
        (case r of
           b # d # r' \<Rightarrow>
             let c = (a - 224) * 4096 + (b - 128) * 64 + (d - 128)
             in if is_cont b \<and> is_cont d \<and> 2048 \<le> c \<and> \<not> (55296 \<le> c \<and> c < 57344)
                then map_option ((#) c) (utf8_dec r')
                else None
         | _ \<Rightarrow> None)
      else if 240 \<le> a \<and> a < 245 then
        (case r of
           b # d # e # r' \<Rightarrow>
             let c = (a - 240) * 262144 + (b - 128) * 4096 + (d - 128) * 64 + (e - 128)
             in if is_cont b \<and> is_cont d \<and> is_cont e \<and> 65536 \<le> c \<and> c < 1114112
                then map_option ((#) c) (utf8_dec r')
                else None
         | _ \<Rightarrow> None)
      else None)"

definition utf8_encode :: "pystr \<Rightarrow> bytes option" where
  "utf8_encode s = map_option (map of_nat) (utf8_enc s)"

definition utf8_decode :: "bytes \<Rightarrow> pystr option" where
  "utf8_decode bs = utf8_dec (map unat bs)"

text \<open>\<^verbatim>\<open>len(s.encode("utf-8"))\<close>; \<open>None\<close> where \<^verbatim>\<open>encode\<close> raises.\<close>

definition utf8_len :: "pystr \<Rightarrow> nat option" where
  "utf8_len s = map_option length (utf8_enc s)"

section \<open>Round trips\<close>

lemma digit_div_mod:
  fixes x k r :: nat
  assumes "r < k"
  shows "(x * k + r) div k = x" and "(x * k + r) mod k = r"
  using assms by simp_all

lemma digits3: "(c::nat) div 4096 * 4096 + c div 64 mod 64 * 64 + c mod 64 = c"
proof -
  have "c mod 4096 = 64 * (c div 64 mod 64) + c mod 64"
    using mod_mult2_eq [of c 64 64] by simp
  moreover have "c div 4096 * 4096 + c mod 4096 = c" by (rule div_mult_mod_eq)
  ultimately show ?thesis by linarith
qed

lemma digits4:
  "(c::nat) div 262144 * 262144 + c div 4096 mod 64 * 4096 + c div 64 mod 64 * 64 + c mod 64 = c"
proof -
  have "c mod 262144 = 4096 * (c div 4096 mod 64) + c mod 4096"
    using mod_mult2_eq [of c 4096 64] by simp
  moreover have "c mod 4096 = 64 * (c div 64 mod 64) + c mod 64"
    using mod_mult2_eq [of c 64 64] by simp
  moreover have "c div 262144 * 262144 + c mod 262144 = c" by (rule div_mult_mod_eq)
  ultimately show ?thesis by linarith
qed

lemma utf8_dec_enc_char:
  assumes "utf8_enc_char c = Some bs"
  shows "utf8_dec (bs @ r) = map_option ((#) c) (utf8_dec r)"
proof -
  consider (one) "c < 128" | (two) "128 \<le> c" "c < 2048"
    | (three) "2048 \<le> c" "c < 65536" "\<not> (55296 \<le> c \<and> c < 57344)"
    | (four) "65536 \<le> c" "c < 1114112"
    using assms unfolding utf8_enc_char_def by (metis linorder_not_less option.distinct(1))
  then show ?thesis
  proof cases
    case one
    with assms show ?thesis by (auto simp: utf8_enc_char_def)
  next
    case two
    then have bs: "bs = [192 + c div 64, 128 + c mod 64]"
      using assms by (auto simp: utf8_enc_char_def)
    have "2 \<le> c div 64" "c div 64 < 32" using two by auto
    moreover have "(192 + c div 64 - 192) * 64 + (128 + c mod 64 - 128) = c" by simp
    ultimately show ?thesis unfolding bs by (simp add: is_cont_def del: diff_add_inverse)
  next
    case three
    then have bs: "bs = [224 + c div 4096, 128 + c div 64 mod 64, 128 + c mod 64]"
      using assms by (auto simp: utf8_enc_char_def split: if_splits)
    have d: "c div 4096 < 16" using three by auto
    from bs d three show ?thesis by (auto simp: is_cont_def Let_def digits3)
  next
    case four
    then have bs: "bs = [240 + c div 262144, 128 + c div 4096 mod 64, 128 + c div 64 mod 64, 128 + c mod 64]"
      using assms by (auto simp: utf8_enc_char_def split: if_splits)
    have d: "c div 262144 < 5" using four by auto
    from bs d four show ?thesis by (auto simp: is_cont_def Let_def digits4)
  qed
qed

lemma utf8_dec_enc: "utf8_enc s = Some bs \<Longrightarrow> utf8_dec bs = Some s"
proof (induction s arbitrary: bs)
  case (Cons c s)
  then obtain cs r where "utf8_enc_char c = Some cs" "utf8_enc s = Some r" "bs = cs @ r"
    by (auto split: option.splits)
  with Cons.IH show ?case by (simp add: utf8_dec_enc_char)
qed simp

lemma utf8_enc_char_bytes: "utf8_enc_char c = Some bs \<Longrightarrow> list_all (\<lambda>b. b < 256) bs"
  by (auto simp: utf8_enc_char_def split: if_splits)

lemma utf8_enc_bytes: "utf8_enc s = Some bs \<Longrightarrow> list_all (\<lambda>b. b < 256) bs"
  by (induction s arbitrary: bs) (auto split: option.splits dest: utf8_enc_char_bytes)

lemma unat_of_nat_byte: "n < 256 \<Longrightarrow> unat (of_nat n :: byte) = n"
  by (simp add: unat_of_nat take_bit_nat_eq_self)

lemma map_unat_of_nat: "list_all (\<lambda>b. b < 256) bs \<Longrightarrow> map unat (map of_nat bs :: bytes) = bs"
  by (induction bs) (auto simp: unat_of_nat_byte)

lemma utf8_decode_encode [simp]: "utf8_encode s = Some b \<Longrightarrow> utf8_decode b = Some s"
  unfolding utf8_encode_def utf8_decode_def
  by (auto simp: map_unat_of_nat [OF utf8_enc_bytes] utf8_dec_enc simp del: map_map)

lemma utf8_enc_char_dec2:
  assumes "194 \<le> a" "a < 224" "is_cont b"
  shows "utf8_enc_char ((a - 192) * 64 + (b - 128)) = Some [a, b]"
proof -
  obtain x y where a: "a = 192 + x" and b: "b = 128 + y" and "2 \<le> x" "x < 32" "y < 64"
    using assms by (auto simp: is_cont_def intro: that [of "a - 192" "b - 128"])
  then show ?thesis by (auto simp: utf8_enc_char_def)
qed

lemma utf8_enc_char_dec3:
  assumes "224 \<le> a" "a < 240" "is_cont b" "is_cont d"
    and c: "c = (a - 224) * 4096 + (b - 128) * 64 + (d - 128)" "2048 \<le> c" "\<not> (55296 \<le> c \<and> c < 57344)"
  shows "utf8_enc_char c = Some [a, b, d]"
proof -
  obtain x y z where eq: "a = 224 + x" "b = 128 + y" "d = 128 + z"
    using assms(1,3,4) unfolding is_cont_def by (metis le_Suc_ex)
  then have l: "x < 16" "y < 64" "z < 64"
    using assms(2,3,4) by (auto simp: is_cont_def)
  have cv: "c = x * 4096 + y * 64 + z" using c(1) eq by simp
  have c1: "c = x * 4096 + (y * 64 + z)" and c2: "c = (x * 64 + y) * 64 + z"
    using cv by simp_all
  have "c div 4096 = x" using digit_div_mod(1) [of "y * 64 + z" 4096 x] l unfolding c1 by simp
  moreover have "c div 64 = x * 64 + y" "c mod 64 = z"
    using digit_div_mod [of z 64 "x * 64 + y"] l unfolding c2 by simp_all
  moreover have "(x * 64 + y) mod 64 = y" using l by simp
  moreover have "c < 65536" using cv l by linarith
  ultimately show ?thesis using c(2,3) eq by (auto simp: utf8_enc_char_def)
qed

lemma utf8_enc_char_dec4:
  assumes "240 \<le> a" "a < 245" "is_cont b" "is_cont d" "is_cont e"
    and c: "c = (a - 240) * 262144 + (b - 128) * 4096 + (d - 128) * 64 + (e - 128)"
      "65536 \<le> c" "c < 1114112"
  shows "utf8_enc_char c = Some [a, b, d, e]"
proof -
  obtain x y z u where eq: "a = 240 + x" "b = 128 + y" "d = 128 + z" "e = 128 + u"
    using assms(1,3,4,5) unfolding is_cont_def by (metis le_Suc_ex)
  then have l: "x < 5" "y < 64" "z < 64" "u < 64"
    using assms(2,3,4,5) by (auto simp: is_cont_def)
  have cv: "c = x * 262144 + y * 4096 + z * 64 + u" using c(1) eq by simp
  have c1: "c = x * 262144 + (y * 4096 + z * 64 + u)"
    and c2: "c = (x * 64 + y) * 4096 + (z * 64 + u)"
    and c3: "c = (x * 4096 + y * 64 + z) * 64 + u"
    using cv by simp_all
  have "c div 262144 = x"
    using digit_div_mod(1) [of "y * 4096 + z * 64 + u" 262144 x] l unfolding c1 by simp
  moreover have "c div 4096 = x * 64 + y"
    using digit_div_mod(1) [of "z * 64 + u" 4096 "x * 64 + y"] l unfolding c2 by simp
  moreover have "c div 64 = x * 4096 + y * 64 + z" "c mod 64 = u"
    using digit_div_mod [of u 64 "x * 4096 + y * 64 + z"] l unfolding c3 by simp_all
  moreover have "(x * 64 + y) mod 64 = y" using l by simp
  moreover have "(x * 4096 + y * 64 + z) mod 64 = z"
    using digit_div_mod(2) [of z 64 "x * 64 + y"] l by (simp add: algebra_simps)
  ultimately show ?thesis using c(2,3) eq by (auto simp: utf8_enc_char_def)
qed

lemma utf8_enc_dec: "utf8_dec bs = Some s \<Longrightarrow> utf8_enc s = Some bs"
proof (induction bs arbitrary: s rule: utf8_dec.induct)
  case (2 a r)
  consider "a < 128" | "194 \<le> a" "a < 224" | "224 \<le> a" "a < 240" | "240 \<le> a" "a < 245"
    using "2.prems" by (fastforce split: if_splits)
  then show ?case
  proof cases
    case 1
    with 2 show ?thesis by (auto simp: utf8_enc_char_def)
  next
    case 2
    then show ?thesis using "2.prems" "2.IH"(2)
      by (auto split: list.splits if_splits simp: utf8_enc_char_dec2)
  next
    case 3
    then show ?thesis using "2.prems" "2.IH"(3)
      by (auto split: list.splits if_splits simp: Let_def utf8_enc_char_dec3)
  next
    case 4
    then show ?thesis using "2.prems" "2.IH"(4)
      by (auto split: list.splits if_splits simp: Let_def utf8_enc_char_dec4)
  qed
qed simp

lemma utf8_encode_decode: "utf8_decode b = Some s \<Longrightarrow> utf8_encode s = Some b"
  unfolding utf8_encode_def utf8_decode_def
  by (drule utf8_enc_dec) (simp add: o_def)

section \<open>Lengths\<close>

lemma utf8_enc_append: "utf8_enc (s @ t) = (case utf8_enc s of None \<Rightarrow> None
    | Some a \<Rightarrow> map_option (\<lambda>b. a @ b) (utf8_enc t))"
  by (cases "utf8_enc t"; induction s) (auto split: option.splits)

lemma utf8_enc_ascii: "is_ascii s \<Longrightarrow> utf8_enc s = Some s"
  by (induction s) (auto simp: is_ascii_def utf8_enc_char_def)

lemma utf8_len_ascii: "is_ascii s \<Longrightarrow> utf8_len s = Some (length s)"
  by (simp add: utf8_len_def utf8_enc_ascii)

lemma utf8_len_append:
  "utf8_len s = Some m \<Longrightarrow> utf8_len t = Some n \<Longrightarrow> utf8_len (s @ t) = Some (m + n)"
  by (auto simp: utf8_len_def utf8_enc_append)

lemma utf8_len_prefix: "utf8_len (s @ t) = Some n \<Longrightarrow> \<exists>m \<le> n. utf8_len s = Some m"
  by (auto simp: utf8_len_def utf8_enc_append split: option.splits)

end
