(* ===== verification/VaultErrors.thy ===== *)
theory VaultErrors imports Prelude begin

text \<open>
  The vault's error vocabulary (\<^verbatim>\<open>server/vault/errors.py\<close>): the wire codes, the exception
  classes with the code each carries, and an exception as a class with the root-relative path it
  names. The fixed message texts are left out; no decision of the code depends on them.
\<close>

datatype vault_error_code =
    VAULT_NOT_CONFIGURED | VAULT_UNAVAILABLE | PATH_TRAVERSAL | SYMLINK_ESCAPE | NOT_FOUND
  | ALREADY_EXISTS | FILE_CONFLICT | EXPECTED_HASH_REQUIRED | INVALID_REQUEST | FILE_TOO_LARGE
  | NOT_A_FILE | NOT_A_DIRECTORY | ATOMIC_WRITE_FAILED | WATCHER_UNAVAILABLE | INDEX_UNAVAILABLE
  | INTERNAL_ERROR

datatype vault_exc =
    VaultNotConfigured | VaultUnavailable | PathTraversalError | SymlinkEscapeError | PathNotFound
  | AlreadyExists | FileConflict | ExpectedHashRequired | InvalidOperation | FileTooLarge
  | NotAFile | NotADirectory | AtomicWriteError | WatcherError | InvalidRequest

fun exc_code :: "vault_exc \<Rightarrow> vault_error_code" where
  "exc_code VaultNotConfigured = VAULT_NOT_CONFIGURED"
| "exc_code VaultUnavailable = VAULT_UNAVAILABLE"
| "exc_code PathTraversalError = PATH_TRAVERSAL"
| "exc_code SymlinkEscapeError = SYMLINK_ESCAPE"
| "exc_code PathNotFound = NOT_FOUND"
| "exc_code AlreadyExists = ALREADY_EXISTS"
| "exc_code FileConflict = FILE_CONFLICT"
| "exc_code ExpectedHashRequired = EXPECTED_HASH_REQUIRED"
| "exc_code InvalidOperation = INVALID_REQUEST"
| "exc_code FileTooLarge = FILE_TOO_LARGE"
| "exc_code NotAFile = NOT_A_FILE"
| "exc_code NotADirectory = NOT_A_DIRECTORY"
| "exc_code AtomicWriteError = ATOMIC_WRITE_FAILED"
| "exc_code WatcherError = WATCHER_UNAVAILABLE"
| "exc_code InvalidRequest = INVALID_REQUEST"

text \<open>
  An exception in flight: one of the classes above with the path it names, or an \<^verbatim>\<open>OSError\<close> no
  handler translated.
\<close>

datatype vault_error = VaultError vault_exc "pystr option" | UncaughtOSError

fun error_is :: "vault_error \<Rightarrow> vault_exc \<Rightarrow> bool" where
  "error_is (VaultError c p) d \<longleftrightarrow> c = d"
| "error_is UncaughtOSError d \<longleftrightarrow> False"

lemma exc_code_not_found [simp]: "exc_code c = NOT_FOUND \<longleftrightarrow> c = PathNotFound"
  by (cases c) simp_all

end
