(* ===== verification/PathLexical.thy ===== *)
theory PathLexical imports Utf8 VaultErrors begin

text \<open>
  Lexical validation of API paths: \<^verbatim>\<open>normalize_relative_path\<close> and \<^verbatim>\<open>normalize_sha256\<close>
  of \<^verbatim>\<open>server/vault/schemas.py\<close>, \<^verbatim>\<open>validate_relative_path\<close> and the small path
  predicates of \<^verbatim>\<open>server/vault/path_safety.py\<close>, and \<^verbatim>\<open>normalize_target_directory\<close> of
  \<^verbatim>\<open>server/vault/attachments.py\<close>. \<open>safe_path\<close> is the declarative specification the chain of
  checks is proved equivalent to.
\<close>

text \<open>The argument is any Python object; only strings are accepted.\<close>

datatype pyobj = Str pystr | NotStr

abbreviation SLASH :: nat where "SLASH \<equiv> 47"
abbreviation BACKSLASH :: nat where "BACKSLASH \<equiv> 92"
abbreviation DOT :: nat where "DOT \<equiv> 46"
abbreviation COLON :: nat where "COLON \<equiv> 58"
abbreviation QUESTION :: nat where "QUESTION \<equiv> 63"

definition MAX_RELATIVE_PATH_BYTES :: nat where "MAX_RELATIVE_PATH_BYTES = 4096"
definition MAX_SEGMENT_BYTES :: nat where "MAX_SEGMENT_BYTES = 255"

section \<open>normalize_relative_path\<close>

text \<open>
  One constructor per message of the \<^verbatim>\<open>ValueError\<close>s, \<open>EncodeError\<close> for the
  \<^verbatim>\<open>UnicodeEncodeError\<close> (a \<^verbatim>\<open>ValueError\<close> too) of a lone surrogate.
\<close>

datatype path_value_error =
    MustBeString | EmptyPath | ContainsNul | PosixSeparators | RootRelative | PathTooLong
  | EmptySegment | UnsafeSegment | SegmentTooLong | DrivePrefix | UncPrefix | EncodeError

definition utf8_len_at_most :: "pystr \<Rightarrow> nat \<Rightarrow> path_value_error \<Rightarrow> path_value_error + unit" where
  "utf8_len_at_most s n e =
     (case utf8_len s of None \<Rightarrow> Inl EncodeError | Some k \<Rightarrow> check (k \<le> n) e)"

fun check_segments :: "pystr list \<Rightarrow> path_value_error + unit" where
  "check_segments [] = Inr ()"
| "check_segments (w # ws) =
     (if w = lit ''.'' \<or> w = lit ''..'' then Inl UnsafeSegment
      else rbind (utf8_len_at_most w MAX_SEGMENT_BYTES SegmentTooLong) (\<lambda>_. check_segments ws))"

definition normalize_relative_path :: "pyobj \<Rightarrow> path_value_error + pystr" where
  "normalize_relative_path value =
     (case value of
        NotStr \<Rightarrow> Inl MustBeString
      | Str s \<Rightarrow>
          rbind (check (s \<noteq> []) EmptyPath) (\<lambda>_.
          rbind (check (0 \<notin> set s) ContainsNul) (\<lambda>_.
          rbind (check (BACKSLASH \<notin> set s) PosixSeparators) (\<lambda>_.
          rbind (check (\<not> starts_with s (lit ''/'')) RootRelative) (\<lambda>_.
          rbind (utf8_len_at_most s MAX_RELATIVE_PATH_BYTES PathTooLong) (\<lambda>_.
          let segments = split_on SLASH s; first = hd segments in
          rbind (check ([] \<notin> set segments) EmptySegment) (\<lambda>_.
          rbind (check_segments segments) (\<lambda>_.
          rbind (check (\<not> (2 \<le> length first \<and> first ! 1 = COLON)) DrivePrefix) (\<lambda>_.
          rbind (check (\<not> (starts_with s (lit ''?'') \<or> starts_with s [BACKSLASH])) UncPrefix) (\<lambda>_.
          Inr (join_with SLASH segments)))))))))))"


section \<open>validate_relative_path and the path predicates\<close>

fun path_error_class :: "path_value_error \<Rightarrow> vault_exc" where
  "path_error_class UnsafeSegment = PathTraversalError"
| "path_error_class RootRelative = PathTraversalError"
| "path_error_class DrivePrefix = PathTraversalError"
| "path_error_class UncPrefix = PathTraversalError"
| "path_error_class _ = InvalidRequest"

definition is_ascii_letter :: "nat \<Rightarrow> bool" where
  "is_ascii_letter c \<longleftrightarrow> 65 \<le> c \<and> c \<le> 90 \<or> 97 \<le> c \<and> c \<le> 122"

text \<open>\<^verbatim>\<open>_DRIVE_PREFIX_RE\<close>: \<^verbatim>\<open>^[A-Za-z]:\<close>.\<close>

definition has_drive_prefix :: "pystr \<Rightarrow> bool" where
  "has_drive_prefix s \<longleftrightarrow> 2 \<le> length s \<and> is_ascii_letter (s ! 0) \<and> s ! 1 = COLON"

definition validate_relative_path :: "pyobj \<Rightarrow> bool \<Rightarrow> vault_error + pystr" where
  "validate_relative_path value allow_root =
     (if allow_root \<and> (value = Str [] \<or> value = Str (lit ''.'')) then Inr (lit ''.'')
      else case value of
        NotStr \<Rightarrow> Inl (VaultError InvalidRequest None)
      | Str s \<Rightarrow>
          rbind (check (s \<noteq> []) (VaultError InvalidRequest None)) (\<lambda>_.
          rbind (check (0 \<notin> set s) (VaultError InvalidRequest None)) (\<lambda>_.
          rbind (check (BACKSLASH \<notin> set s) (VaultError PathTraversalError None)) (\<lambda>_.
          rbind (check (\<not> starts_with s (lit ''/'')) (VaultError PathTraversalError None)) (\<lambda>_.
          rbind (check (\<not> has_drive_prefix s) (VaultError PathTraversalError None)) (\<lambda>_.
          rbind (check (\<not> starts_with s (lit ''?'')) (VaultError PathTraversalError None)) (\<lambda>_.
          (case normalize_relative_path value of
             Inr t \<Rightarrow> Inr t
           | Inl e \<Rightarrow> Inl (VaultError (path_error_class e) None)))))))))"

definition relative_parts :: "pystr \<Rightarrow> pystr list" where
  "relative_parts p = (if p = lit ''.'' then [] else split_on SLASH p)"

definition relative_display :: "pystr list \<Rightarrow> pystr" where
  "relative_display parts = (if parts = [] then lit ''.'' else join_with SLASH parts)"

definition is_hidden_name :: "pystr \<Rightarrow> bool" where
  "is_hidden_name n \<longleftrightarrow> starts_with n (lit ''.'')"

definition is_reserved_derived_path :: "pystr \<Rightarrow> bool" where
  "is_reserved_derived_path p \<longleftrightarrow>
     p = lit ''.localnote'' \<or> starts_with p (lit ''.localnote/'')"

section \<open>normalize_target_directory and normalize_sha256\<close>

definition normalize_target_directory :: "pyobj \<Rightarrow> vault_error + pystr" where
  "normalize_target_directory target =
     (case target of
        NotStr \<Rightarrow> Inl (VaultError InvalidRequest None)
      | Str s \<Rightarrow>
          if s = [] \<or> s = lit ''.'' then Inr []
          else rbind (validate_relative_path target False) (\<lambda>relative.
               if is_reserved_derived_path relative
               then Inl (VaultError InvalidRequest (Some relative))
               else if list_ex is_hidden_name (split_on SLASH relative)
               then Inl (VaultError InvalidRequest (Some relative))
               else Inr relative))"

definition is_hex_digit :: "nat \<Rightarrow> bool" where
  "is_hex_digit c \<longleftrightarrow> 48 \<le> c \<and> c \<le> 57 \<or> 65 \<le> c \<and> c \<le> 70 \<or> 97 \<le> c \<and> c \<le> 102"

definition remove_prefix :: "pystr \<Rightarrow> pystr \<Rightarrow> pystr" where
  "remove_prefix p s = (if starts_with s p then drop (length p) s else s)"

text \<open>\<^verbatim>\<open>_SHA256_RE\<close>: an optional \<^verbatim>\<open>sha256:\<close> and exactly 64 hexadecimal digits.\<close>

definition sha256_re_matches :: "pystr \<Rightarrow> bool" where
  "sha256_re_matches s \<longleftrightarrow>
     length s = 64 \<and> list_all is_hex_digit s \<or>
     starts_with s (lit ''sha256:'') \<and> length s = 71 \<and> list_all is_hex_digit (drop 7 s)"

text \<open>The digest is all ASCII once the pattern has matched, so \<^verbatim>\<open>lower\<close> is the ASCII one.\<close>

definition normalize_sha256 :: "pyobj \<Rightarrow> unit + pystr" where
  "normalize_sha256 value =
     (case value of
        NotStr \<Rightarrow> Inl ()
      | Str s \<Rightarrow>
          if sha256_re_matches s
          then Inr (lit ''sha256:'' @ ascii_lower (remove_prefix (lit ''sha256:'') s))
          else Inl ())"

section \<open>The specification of an accepted path\<close>

definition utf8_fits :: "pystr \<Rightarrow> nat \<Rightarrow> bool" where
  "utf8_fits s n \<longleftrightarrow> (case utf8_len s of None \<Rightarrow> False | Some k \<Rightarrow> k \<le> n)"

definition safe_segment :: "pystr \<Rightarrow> bool" where
  "safe_segment w \<longleftrightarrow> w \<noteq> [] \<and> w \<noteq> lit ''.'' \<and> w \<noteq> lit ''..'' \<and> utf8_fits w MAX_SEGMENT_BYTES"

definition safe_path :: "pystr \<Rightarrow> bool" where
  "safe_path s \<longleftrightarrow>
     0 \<notin> set s \<and> BACKSLASH \<notin> set s \<and> utf8_fits s MAX_RELATIVE_PATH_BYTES \<and>
     list_all safe_segment (split_on SLASH s) \<and>
     \<not> (2 \<le> length (hd (split_on SLASH s)) \<and> hd (split_on SLASH s) ! 1 = COLON) \<and>
     \<not> starts_with s (lit ''?'')"

lemma utf8_len_at_most_Inr [simp]: "utf8_len_at_most s n e = Inr u \<longleftrightarrow> utf8_fits s n"
  by (auto simp: utf8_len_at_most_def utf8_fits_def split: option.splits)

lemma check_segments_Inr:
  "check_segments ws = Inr u \<longleftrightarrow>
     list_all (\<lambda>w. w \<noteq> lit ''.'' \<and> w \<noteq> lit ''..'' \<and> utf8_fits w MAX_SEGMENT_BYTES) ws"
  by (induction ws) (auto simp: rbind_eq_Inr)

lemma split_leading_slash: "starts_with s (lit ''/'') \<Longrightarrow> [] \<in> set (split_on SLASH s)"
  by (cases s) (auto simp: starts_with_def)

lemma safe_path_nonempty: "safe_path s \<Longrightarrow> s \<noteq> []"
  by (auto simp: safe_path_def safe_segment_def)

lemma safe_path_no_lead: "safe_path s \<Longrightarrow> \<not> starts_with s (lit ''/'')"
  using split_leading_slash by (auto simp: safe_path_def safe_segment_def list_all_iff)

lemma normalize_relative_path_Inr:
  "normalize_relative_path (Str s) = Inr t \<longleftrightarrow> t = s \<and> safe_path s"
proof
  assume "normalize_relative_path (Str s) = Inr t"
  then show "t = s \<and> safe_path s"
    by (auto simp: normalize_relative_path_def rbind_eq_Inr Let_def check_segments_Inr
        safe_path_def safe_segment_def list_all_iff)
next
  assume *: "t = s \<and> safe_path s"
  then have "s \<noteq> []" "\<not> starts_with s (lit ''/'')" "\<not> starts_with s [BACKSLASH]"
    using safe_path_nonempty safe_path_no_lead
    by (auto simp: safe_path_def starts_with_append)
  with * show "normalize_relative_path (Str s) = Inr t"
    by (auto simp: normalize_relative_path_def rbind_eq_Inr Let_def check_segments_Inr
        safe_path_def safe_segment_def list_all_iff)
qed

lemma has_drive_prefix_first:
  assumes "has_drive_prefix s"
  shows "2 \<le> length (hd (split_on SLASH s)) \<and> hd (split_on SLASH s) ! 1 = COLON"
proof -
  obtain a b t where s: "s = a # b # t" "is_ascii_letter a" "b = COLON"
    using assms by (auto simp: has_drive_prefix_def numeral_2_eq_2 Suc_le_length_iff)
  then have "a \<noteq> SLASH" by (auto simp: is_ascii_letter_def)
  with s show ?thesis by (cases "split_on SLASH t") auto
qed

lemma validate_relative_path_Inr:
  "validate_relative_path (Str s) False = Inr t \<longleftrightarrow> t = s \<and> safe_path s"
proof
  assume "validate_relative_path (Str s) False = Inr t"
  then show "t = s \<and> safe_path s"
    by (auto simp: validate_relative_path_def rbind_eq_Inr normalize_relative_path_Inr
        split: sum.splits)
next
  assume *: "t = s \<and> safe_path s"
  then have "s \<noteq> []" "\<not> starts_with s (lit ''/'')" "\<not> has_drive_prefix s"
    using safe_path_nonempty safe_path_no_lead has_drive_prefix_first
    by (auto simp: safe_path_def)
  moreover have "normalize_relative_path (Str s) = Inr t"
    using * by (simp add: normalize_relative_path_Inr)
  ultimately show "validate_relative_path (Str s) False = Inr t"
    using * by (auto simp: validate_relative_path_def safe_path_def)
qed

lemma validate_relative_path_root:
  "validate_relative_path (Str s) True = Inr t \<longleftrightarrow>
     (if s = [] \<or> s = lit ''.'' then t = lit ''.'' else t = s \<and> safe_path s)"
  using validate_relative_path_Inr [of s t]
  by (auto simp: validate_relative_path_def)

lemma not_safe_dot [simp]: "\<not> safe_path (lit ''.'')"
  by (simp add: safe_path_def safe_segment_def)

lemma safe_path_parts:
  assumes "safe_path s"
  shows "relative_parts s = split_on SLASH s" and "relative_display (relative_parts s) = s"
    and "list_all safe_segment (relative_parts s)"
proof -
  have "s \<noteq> lit ''.''" using assms not_safe_dot by metis
  then show *: "relative_parts s = split_on SLASH s"
    by (simp add: relative_parts_def)
  then show "relative_display (relative_parts s) = s"
    by (simp add: relative_display_def)
  show "list_all safe_segment (relative_parts s)"
    using assms * by (simp add: safe_path_def)
qed

lemma relative_display_parts [simp]: "relative_display (relative_parts s) = s"
  by (simp add: relative_display_def relative_parts_def)

lemma relative_parts_inj: "relative_parts s = relative_parts t \<Longrightarrow> s = t"
  by (metis relative_display_parts)

text \<open>The directory of an accepted path is an accepted path, or the root.\<close>

lemma utf8_fits_prefix: "utf8_fits (s @ t) n \<Longrightarrow> utf8_fits s n"
  using utf8_len_prefix by (fastforce simp: utf8_fits_def split: option.splits)

lemma safe_path_parent:
  assumes s: "safe_path s" and parts: "relative_parts s = ps @ [c]" "ps \<noteq> []"
  shows "safe_path (join_with SLASH ps)" and "relative_parts (join_with SLASH ps) = ps"
proof -
  have split: "split_on SLASH s = ps @ [c]"
    using safe_path_parts(1) [OF s] parts by simp
  have s_eq: "s = join_with SLASH ps @ SLASH # c"
    by (metis join_split join_with_snoc parts(2) split)
  have ps: "split_on SLASH (join_with SLASH ps) = ps"
    by (rule split_join [OF parts(2)]) (metis in_set_conv_decomp append_Cons append_is_Nil_conv
        split split_on_no_sep Un_iff set_append)
  have "list_all safe_segment ps" "hd (split_on SLASH s) = hd ps"
    using s split parts(2) by (auto simp: safe_path_def hd_append)
  moreover have "utf8_fits (join_with SLASH ps) MAX_RELATIVE_PATH_BYTES"
    using s s_eq utf8_fits_prefix unfolding safe_path_def by metis
  moreover have "\<not> starts_with (join_with SLASH ps) (lit ''?'')"
    using s s_eq by (auto simp: safe_path_def starts_with_append)
  ultimately show *: "safe_path (join_with SLASH ps)"
    using s s_eq ps by (auto simp: safe_path_def)
  show "relative_parts (join_with SLASH ps) = ps"
    using safe_path_parts(1) [OF *] ps by simp
qed

lemma safe_path_parts_nonempty: "safe_path s \<Longrightarrow> relative_parts s \<noteq> []"
  using safe_path_parts(1) by simp

lemma validate_root_dot [simp]: "validate_relative_path (Str (lit ''.'')) True = Inr (lit ''.'')"
  by (simp add: validate_relative_path_def)

lemma relative_parts_dot [simp]: "relative_parts (lit ''.'') = []"
  by (simp add: relative_parts_def)

lemma validate_safe: "safe_path s \<Longrightarrow> validate_relative_path (Str s) ar = Inr s"
  using validate_relative_path_root [of s s] validate_relative_path_Inr [of s s] not_safe_dot
    safe_path_nonempty by (cases ar) auto

end
