(* ===== verification/OsModel.thy ===== *)
theory OsModel imports PathLexical begin

text \<open>
  The operating system below the vault: absolute paths as component lists, a tree of files,
  directories and symbolic links, POSIX path resolution, and the system calls the code makes.

  A \<open>world\<close> carries, beside the tree, what the rest of the machine does: the list \<open>w_env\<close> has one
  entry per coming system call, a change other processes make to the tree just before that call
  takes effect, and an error injected into the call (a full disk, a permission, a failed fsync).
  An exhausted list means nobody interferes any more. \<open>w_trace\<close> records every call with the tree
  it left, newest first: it is how a theorem speaks about the intermediate states another process,
  or a crash, can observe.
\<close>

type_synonym name = pystr
type_synonym fpath = "name list"

datatype node = FileN bytes | DirN | LinkN fpath | OtherN

type_synonym tree = "fpath \<Rightarrow> node option"

datatype os_error = ENOENT | ENOTDIR | EEXIST | EISDIR | ELOOP | EXDEV | EIO | ENOSPC
  | EINVAL | ENOTSUP | EBADF | EACCES

section \<open>Path resolution\<close>

definition MAX_LINKS :: nat where "MAX_LINKS = 40"

text \<open>
  \<open>walk\<close> resolves every component but the last (what \<^verbatim>\<open>lstat\<close>, \<^verbatim>\<open>link\<close>,
  \<^verbatim>\<open>unlink\<close> and \<^verbatim>\<open>rename\<close> do), \<open>follow\<close> the last one too (what \<^verbatim>\<open>open\<close> does),
  \<open>realp\<close> is \<^verbatim>\<open>Path.resolve(strict=False)\<close>: links are followed, missing components are kept.
  Link targets are absolute; after \<open>MAX_LINKS\<close> links the kernel gives up.
\<close>

fun walk :: "nat \<Rightarrow> tree \<Rightarrow> fpath \<Rightarrow> name list \<Rightarrow> os_error + fpath" where
  "walk k t cur [] = Inr cur"
| "walk k t cur [c] = Inr (cur @ [c])"
| "walk k t cur (c # d # cs) =
     (case t (cur @ [c]) of
        None \<Rightarrow> Inl ENOENT
      | Some (LinkN target) \<Rightarrow>
          (case k of 0 \<Rightarrow> Inl ELOOP | Suc k' \<Rightarrow> walk k' t [] (target @ d # cs))
      | Some DirN \<Rightarrow> walk k t (cur @ [c]) (d # cs)
      | Some _ \<Rightarrow> Inl ENOTDIR)"

fun follow :: "nat \<Rightarrow> tree \<Rightarrow> fpath \<Rightarrow> name list \<Rightarrow> os_error + fpath" where
  "follow k t cur [] = Inr cur"
| "follow k t cur (c # cs) =
     (case t (cur @ [c]) of
        None \<Rightarrow> Inl ENOENT
      | Some (LinkN target) \<Rightarrow>
          (case k of 0 \<Rightarrow> Inl ELOOP | Suc k' \<Rightarrow> follow k' t [] (target @ cs))
      | Some DirN \<Rightarrow> follow k t (cur @ [c]) cs
      | Some _ \<Rightarrow> if cs = [] then Inr (cur @ [c]) else Inl ENOTDIR)"

fun realp :: "nat \<Rightarrow> tree \<Rightarrow> fpath \<Rightarrow> name list \<Rightarrow> os_error + fpath" where
  "realp k t cur [] = Inr cur"
| "realp k t cur (c # cs) =
     (case t (cur @ [c]) of
        Some (LinkN target) \<Rightarrow>
          (case k of 0 \<Rightarrow> Inl ELOOP | Suc k' \<Rightarrow> realp k' t [] (target @ cs))
      | _ \<Rightarrow> realp k t (cur @ [c]) cs)"

text \<open>The root directory always exists.\<close>

definition node_at :: "tree \<Rightarrow> fpath \<Rightarrow> node option" where
  "node_at t p = (if p = [] then Some DirN else t p)"

lemma node_at_snoc [simp]: "node_at t (p @ [c]) = t (p @ [c])"
  by (simp add: node_at_def)

definition resolve_parents :: "tree \<Rightarrow> fpath \<Rightarrow> os_error + fpath" where
  "resolve_parents t p = walk MAX_LINKS t [] p"

section \<open>The world and its system calls\<close>

datatype sysop =
    Lstat fpath | Realpath fpath | Stat fpath | Read fpath | OpenExcl fpath | WriteFd fpath
  | FsyncFd fpath | Replace fpath fpath | Link fpath fpath | Unlink fpath | Mkdir fpath
  | Scandir fpath | Rename fpath fpath | FsyncDir fpath | External fpath

record world =
  w_tree :: tree
  w_env :: "((tree \<Rightarrow> tree) \<times> os_error option) list"
  w_trace :: "(sysop \<times> bool \<times> tree) list"
  w_token :: "nat \<Rightarrow> pystr"

definition tick :: "world \<Rightarrow> os_error option \<times> world" where
  "tick w = (case w_env w of
       [] \<Rightarrow> (None, w)
     | (change, fault) # es \<Rightarrow> (fault, w\<lparr>w_tree := change (w_tree w), w_env := es\<rparr>))"

definition record_call :: "sysop \<Rightarrow> bool \<Rightarrow> world \<Rightarrow> world" where
  "record_call c ok w = w\<lparr>w_trace := (c, ok, w_tree w) # w_trace w\<rparr>"

definition syscall :: "sysop \<Rightarrow> (tree \<Rightarrow> (os_error + 'a) \<times> tree) \<Rightarrow> (world, os_error, 'a) act" where
  "syscall c f = (\<lambda>w. case tick w of
       (Some e, w1) \<Rightarrow> (Inl e, record_call c False w1)
     | (None, w1) \<Rightarrow>
         (case f (w_tree w1) of
            (Inl e, t) \<Rightarrow> (Inl e, record_call c False (w1\<lparr>w_tree := t\<rparr>))
          | (Inr x, t) \<Rightarrow> (Inr x, record_call c True (w1\<lparr>w_tree := t\<rparr>))))"

text \<open>A query: the tree is only read.\<close>

definition query :: "(tree \<Rightarrow> os_error + 'a) \<Rightarrow> tree \<Rightarrow> (os_error + 'a) \<times> tree" where
  "query f t = (f t, t)"

definition lstat_tree :: "fpath \<Rightarrow> tree \<Rightarrow> os_error + node" where
  "lstat_tree p t =
     rbind (resolve_parents t p) (\<lambda>q. case node_at t q of None \<Rightarrow> Inl ENOENT | Some n \<Rightarrow> Inr n)"

definition os_lstat :: "fpath \<Rightarrow> (world, os_error, node) act" where
  "os_lstat p = syscall (Lstat p) (query (lstat_tree p))"

definition os_realpath :: "fpath \<Rightarrow> (world, os_error, fpath) act" where
  "os_realpath p = syscall (Realpath p) (query (\<lambda>t. realp MAX_LINKS t [] p))"

definition read_tree :: "fpath \<Rightarrow> tree \<Rightarrow> os_error + bytes" where
  "read_tree p t =
     rbind (follow MAX_LINKS t [] p) (\<lambda>q.
       case node_at t q of
         Some (FileN d) \<Rightarrow> Inr d
       | Some DirN \<Rightarrow> Inl EISDIR
       | _ \<Rightarrow> Inl EIO)"

text \<open>\<^verbatim>\<open>path.stat().st_size\<close>: a directory has some size too, here 0; a device is an error.\<close>

definition size_tree :: "fpath \<Rightarrow> tree \<Rightarrow> os_error + nat" where
  "size_tree p t =
     rbind (follow MAX_LINKS t [] p) (\<lambda>q.
       case node_at t q of Some (FileN d) \<Rightarrow> Inr (length d) | _ \<Rightarrow> Inr 0)"

definition os_stat_size :: "fpath \<Rightarrow> (world, os_error, nat) act" where
  "os_stat_size p = syscall (Stat p) (query (size_tree p))"

definition os_read :: "fpath \<Rightarrow> (world, os_error, bytes) act" where
  "os_read p = syscall (Read p) (query (read_tree p))"

text \<open>
  Calls that change one directory entry: the parent is resolved, it must be a directory, and then
  \<open>edit\<close> decides from the entry.
\<close>

definition parent_is_dir :: "tree \<Rightarrow> fpath \<Rightarrow> bool" where
  "parent_is_dir t q \<longleftrightarrow> q \<noteq> [] \<and> node_at t (butlast q) = Some DirN"

definition at_entry ::
  "fpath \<Rightarrow> (tree \<Rightarrow> fpath \<Rightarrow> (os_error + 'a) \<times> tree) \<Rightarrow> tree \<Rightarrow> (os_error + 'a) \<times> tree" where
  "at_entry p edit t =
     (case resolve_parents t p of
        Inl e \<Rightarrow> (Inl e, t)
      | Inr q \<Rightarrow> if parent_is_dir t q then edit t q else (Inl ENOENT, t))"

text \<open>\<^verbatim>\<open>open(O_WRONLY | O_CREAT | O_EXCL | O_NOFOLLOW)\<close> creates an empty file or fails.\<close>

definition os_open_excl :: "fpath \<Rightarrow> (world, os_error, unit) act" where
  "os_open_excl p = syscall (OpenExcl p) (at_entry p (\<lambda>t q.
     if t q = None then (Inr (), t(q \<mapsto> FileN [])) else (Inl EEXIST, t)))"

text \<open>\<^verbatim>\<open>stream.write\<close> through the descriptor: appends to the file opened above.\<close>

definition os_write_fd :: "fpath \<Rightarrow> bytes \<Rightarrow> (world, os_error, unit) act" where
  "os_write_fd p d = syscall (WriteFd p) (at_entry p (\<lambda>t q.
     case t q of Some (FileN old) \<Rightarrow> (Inr (), t(q \<mapsto> FileN (old @ d))) | _ \<Rightarrow> (Inl EIO, t)))"

definition os_fsync_fd :: "fpath \<Rightarrow> (world, os_error, unit) act" where
  "os_fsync_fd p = syscall (FsyncFd p) (\<lambda>t. (Inr (), t))"

text \<open>\<^verbatim>\<open>os.open(directory, O_DIRECTORY)\<close> followed by \<^verbatim>\<open>os.fsync\<close>.\<close>

definition open_dir_tree :: "fpath \<Rightarrow> tree \<Rightarrow> os_error + unit" where
  "open_dir_tree p t =
     rbind (follow MAX_LINKS t [] p) (\<lambda>q. check (node_at t q = Some DirN) ENOTDIR)"

definition os_fsync_dir :: "fpath \<Rightarrow> (world, os_error, unit) act" where
  "os_fsync_dir p = syscall (FsyncDir p) (query (open_dir_tree p))"

text \<open>\<^verbatim>\<open>os.replace\<close> of a file inside one directory: the target entry is exchanged at once.\<close>

definition os_replace :: "fpath \<Rightarrow> fpath \<Rightarrow> (world, os_error, unit) act" where
  "os_replace p p' = syscall (Replace p p') (at_entry p (\<lambda>t q.
     at_entry p' (\<lambda>t q'.
       case t q of
         None \<Rightarrow> (Inl ENOENT, t)
       | Some n \<Rightarrow> if t q' = Some DirN then (Inl EISDIR, t)
                   else (Inr (), (t(q := None))(q' \<mapsto> n))) t))"

text \<open>\<^verbatim>\<open>os.link(follow_symlinks=False)\<close>: a second name, never over an existing one.\<close>

definition os_link :: "fpath \<Rightarrow> fpath \<Rightarrow> (world, os_error, unit) act" where
  "os_link p p' = syscall (Link p p') (at_entry p (\<lambda>t q.
     at_entry p' (\<lambda>t q'.
       case t q of
         None \<Rightarrow> (Inl ENOENT, t)
       | Some n \<Rightarrow> if t q' \<noteq> None then (Inl EEXIST, t)
                   else if n = DirN then (Inl EIO, t)
                   else (Inr (), t(q' \<mapsto> n))) t))"

definition os_unlink :: "fpath \<Rightarrow> (world, os_error, unit) act" where
  "os_unlink p = syscall (Unlink p) (at_entry p (\<lambda>t q.
     case t q of
       None \<Rightarrow> (Inl ENOENT, t)
     | Some DirN \<Rightarrow> (Inl EISDIR, t)
     | Some _ \<Rightarrow> (Inr (), t(q := None))))"

definition os_mkdir :: "fpath \<Rightarrow> (world, os_error, unit) act" where
  "os_mkdir p = syscall (Mkdir p) (at_entry p (\<lambda>t q.
     if t q = None then (Inr (), t(q \<mapsto> DirN)) else (Inl EEXIST, t)))"

text \<open>
  The process id and the random hexadecimal digits of a service-generated name: \<open>w_token\<close> is the
  stream of what the generator is going to return.
\<close>

definition new_token :: "(world, 'e, pystr) act" where
  "new_token = (\<lambda>w. (Inr (w_token w 0), w\<lparr>w_token := \<lambda>i. w_token w (Suc i)\<rparr>))"

section \<open>Resolution without links\<close>

text \<open>
  \<open>clean t p\<close>: every proper ancestor of \<open>p\<close> is a directory. In a clean path resolution is the
  identity, so the call acts on the path as written.
\<close>

definition clean :: "tree \<Rightarrow> fpath \<Rightarrow> bool" where
  "clean t p \<longleftrightarrow> (\<forall>q. strict_prefix q p \<longrightarrow> node_at t q = Some DirN)"

lemma strict_prefix_snoc_iff: "strict_prefix q (p @ [c]) \<longleftrightarrow> prefix q p"
  by (metis prefix_order.dual_order.strict_iff_order prefix_snoc same_prefix_nil
      prefix_order.dual_order.refl strict_prefixI' prefix_order.dual_order.strict_trans1
      prefix_order.less_irrefl)

lemma clean_snoc: "clean t (p @ [c]) \<longleftrightarrow> clean t p \<and> node_at t p = Some DirN"
  by (simp only: clean_def strict_prefix_snoc_iff) (metis prefix_order.le_less)

lemma clean_Nil [simp]: "clean t []"
  by (simp add: clean_def)

lemma clean_prefix: "clean t p \<Longrightarrow> prefix q p \<Longrightarrow> clean t q"
  by (meson clean_def prefix_order.less_le_trans)

lemma clean_node: "clean t p \<Longrightarrow> strict_prefix q p \<Longrightarrow> node_at t q = Some DirN"
  by (simp add: clean_def)

lemma walk_clean: "clean t (cur @ cs) \<Longrightarrow> walk k t cur cs = Inr (cur @ cs)"
proof (induction k t cur cs rule: walk.induct)
  case (3 k t cur c d cs)
  then have "t (cur @ [c]) = Some DirN"
    using clean_node [of t "cur @ c # d # cs" "cur @ [c]"] by (simp add: strict_prefix_def)
  with 3 show ?case by simp
qed simp_all

lemma resolve_parents_clean [simp]: "clean t p \<Longrightarrow> resolve_parents t p = Inr p"
  by (simp add: resolve_parents_def walk_clean)

lemma follow_clean:
  "clean t (cur @ cs) \<Longrightarrow> node_at t (cur @ cs) = Some n \<Longrightarrow> \<forall>target. n \<noteq> LinkN target \<Longrightarrow>
     follow k t cur cs = Inr (cur @ cs)"
proof (induction k t cur cs rule: follow.induct)
  case (2 k t cur c cs)
  show ?case
  proof (cases "cs = []")
    case True
    with 2 show ?thesis by (cases n) auto
  next
    case False
    then have "t (cur @ [c]) = Some DirN"
      using clean_node [of t "cur @ c # cs" "cur @ [c]"] 2 by (simp add: strict_prefix_def)
    with 2 show ?thesis by simp
  qed
qed simp

definition no_links :: "tree \<Rightarrow> fpath \<Rightarrow> bool" where
  "no_links t p \<longleftrightarrow> (\<forall>q target. prefix q p \<longrightarrow> node_at t q \<noteq> Some (LinkN target))"

lemma realp_no_links: "no_links t (cur @ cs) \<Longrightarrow> realp k t cur cs = Inr (cur @ cs)"
proof (induction k t cur cs rule: realp.induct)
  case (2 k t cur c cs)
  then have "\<forall>target. node_at t (cur @ [c]) \<noteq> Some (LinkN target)"
    unfolding no_links_def by (metis append.assoc append_Cons append_Nil prefixI)
  with 2 show ?case by (auto split: option.split node.split)
qed simp

lemma no_links_clean:
  "clean t p \<Longrightarrow> \<forall>target. node_at t p \<noteq> Some (LinkN target) \<Longrightarrow> no_links t p"
  unfolding no_links_def by (metis clean_node node.distinct(7) option.inject prefix_order.le_less)

text \<open>Walking through directories only changes the starting point.\<close>

lemma walk_dirs:
  "clean t p \<Longrightarrow> node_at t p = Some DirN \<Longrightarrow> rest \<noteq> [] \<Longrightarrow> walk k t [] (p @ rest) = walk k t p rest"
proof (induction p arbitrary: rest rule: rev_induct)
  case (snoc c p)
  then have "walk k t [] (p @ c # rest) = walk k t p (c # rest)"
    by (simp add: clean_snoc)
  moreover have "walk k t p (c # rest) = walk k t (p @ [c]) rest"
    using snoc.prems by (cases rest) simp_all
  ultimately show ?case by simp
qed simp

text \<open>
  A tree is well formed when an entry only exists inside a directory. The root of the vault is
  reached through directories (it was resolved when the service was built).
\<close>

definition wf_tree :: "tree \<Rightarrow> bool" where
  "wf_tree t \<longleftrightarrow> (\<forall>p c. t (p @ [c]) \<noteq> None \<longrightarrow> node_at t p = Some DirN)"

definition good_root :: "tree \<Rightarrow> fpath \<Rightarrow> bool" where
  "good_root t root \<longleftrightarrow> wf_tree t \<and> node_at t root = Some DirN"

lemma wf_tree_clean: "wf_tree t \<Longrightarrow> node_at t p \<noteq> None \<Longrightarrow> clean t p"
proof (induction p rule: rev_induct)
  case (snoc c p)
  then have "node_at t p = Some DirN" unfolding wf_tree_def by (metis node_at_snoc)
  with snoc show ?case by (simp add: clean_snoc)
qed simp

lemma wf_tree_missing: "wf_tree t \<Longrightarrow> node_at t p = None \<Longrightarrow> node_at t (p @ q) = None"
proof (induction q rule: rev_induct)
  case (snoc c q)
  then show ?case
    unfolding wf_tree_def by (metis append.assoc node_at_snoc option.distinct(1))
qed simp

lemma lstat_clean: "clean t p \<Longrightarrow> lstat_tree p t = (case node_at t p of None \<Rightarrow> Inl ENOENT | Some n \<Rightarrow> Inr n)"
  by (simp add: lstat_tree_def)

lemma at_entry_clean:
  "clean t (p @ [c]) \<Longrightarrow> at_entry (p @ [c]) edit t = edit t (p @ [c])"
  by (simp add: at_entry_def parent_is_dir_def clean_snoc)

section \<open>Runs nobody interferes with\<close>

text \<open>
  \<open>runs m t k r t' k'\<close>: from the tree \<open>t\<close> and the token stream \<open>k\<close>, with nobody interfering, the
  action \<open>m\<close> ends with the result \<open>r\<close>, the tree \<open>t'\<close> and the stream \<open>k'\<close>. The rules below make a
  run of an operation the composition of the runs of its steps.
\<close>

definition quiet :: "world \<Rightarrow> bool" where
  "quiet w \<longleftrightarrow> w_env w = []"

definition runs ::
  "(world, 'e, 'a) act \<Rightarrow> tree \<Rightarrow> (nat \<Rightarrow> pystr) \<Rightarrow> 'e + 'a \<Rightarrow> tree \<Rightarrow> (nat \<Rightarrow> pystr) \<Rightarrow> bool" where
  "runs m t k r t' k' \<longleftrightarrow>
     (\<forall>w. w_env w = [] \<and> w_tree w = t \<and> w_token w = k \<longrightarrow>
        (\<exists>w'. m w = (r, w') \<and> w_env w' = [] \<and> w_tree w' = t' \<and> w_token w' = k'))"

named_theorems run_intros \<open>runs of actions in a world nobody interferes with\<close>

lemma runsD:
  assumes "runs m t k r t' k'" "quiet w" "w_tree w = t" "w_token w = k"
  obtains w' where "m w = (r, w')" "quiet w'" "w_tree w' = t'" "w_token w' = k'"
  using assms by (auto simp: runs_def quiet_def)

lemma runs_ret [run_intros]: "runs (ret x) t k (Inr x) t k"
  and runs_raise [run_intros]: "runs (raise e) t k (Inl e) t k"
  and runs_lift [run_intros]: "runs (lift r) t k r t k"
  and runs_unless [run_intros]: "runs (unless_act b e) t k (check b e) t k"
  by (simp_all add: runs_def act_simps)

lemma runs_chain:
  assumes "runs m t k q t1 k1" and "runs g t1 k1 r t2 k2"
    and "\<And>w w1. m w = (q, w1) \<Longrightarrow> n w = g w1"
  shows "runs n t k r t2 k2"
  unfolding runs_def
proof (intro allI impI)
  fix w :: world
  assume "w_env w = [] \<and> w_tree w = t \<and> w_token w = k"
  with assms(1) obtain w1 where
    w1: "m w = (q, w1)" "w_env w1 = []" "w_tree w1 = t1" "w_token w1 = k1"
    unfolding runs_def by blast
  with assms(2) have "\<exists>w'. g w1 = (r, w') \<and> w_env w' = [] \<and> w_tree w' = t2 \<and> w_token w' = k2"
    unfolding runs_def by blast
  with assms(3) [OF w1(1)]
  show "\<exists>w'. n w = (r, w') \<and> w_env w' = [] \<and> w_tree w' = t2 \<and> w_token w' = k2"
    by simp
qed

lemma runs_seq:
  "runs m t k (Inr x) t1 k1 \<Longrightarrow> runs (f x) t1 k1 r t2 k2 \<Longrightarrow> runs (seq m f) t k r t2 k2"
  by (erule (1) runs_chain) (simp add: seq_Inr)

lemma runs_seq_Inl: "runs m t k (Inl e) t1 k1 \<Longrightarrow> runs (seq m f) t k (Inl e) t1 k1"
  by (erule runs_chain, rule runs_raise) (simp add: seq_Inl raise_apply)

lemma runs_try_Inr: "runs m t k (Inr x) t1 k1 \<Longrightarrow> runs (try_except m h) t k (Inr x) t1 k1"
  by (erule runs_chain, rule runs_ret) (simp add: try_except_Inr ret_apply)

lemma runs_try_Inl:
  "runs m t k (Inl e) t1 k1 \<Longrightarrow> runs (h e) t1 k1 r t2 k2 \<Longrightarrow> runs (try_except m h) t k r t2 k2"
  by (erule (1) runs_chain) (simp add: try_except_Inl)

lemma runs_else_Inr:
  "runs m t k (Inr x) t1 k1 \<Longrightarrow> runs (c x) t1 k1 r t2 k2 \<Longrightarrow> runs (try_else m h c) t k r t2 k2"
  by (erule (1) runs_chain) (simp add: try_else_Inr)

lemma runs_else_Inl:
  "runs m t k (Inl e) t1 k1 \<Longrightarrow> runs (h e) t1 k1 r t2 k2 \<Longrightarrow> runs (try_else m h c) t k r t2 k2"
  by (erule (1) runs_chain) (simp add: try_else_Inl)

text \<open>The same rules with the result of the first step left open, for symbolic execution.\<close>

lemma runs_seqI:
  assumes "runs m t k q t1 k1"
    and "case q of Inl e \<Rightarrow> r = Inl e \<and> t2 = t1 \<and> k2 = k1 | Inr x \<Rightarrow> runs (f x) t1 k1 r t2 k2"
  shows "runs (seq m f) t k r t2 k2"
  using assms by (cases q) (auto intro: runs_seq runs_seq_Inl)

lemma runs_elseI:
  assumes "runs m t k q t1 k1"
    and "case q of Inl e \<Rightarrow> runs (h e) t1 k1 r t2 k2 | Inr x \<Rightarrow> runs (c x) t1 k1 r t2 k2"
  shows "runs (try_else m h c) t k r t2 k2"
  using assms by (cases q) (auto intro: runs_else_Inr runs_else_Inl)

lemma runs_tryI:
  assumes "runs m t k q t1 k1"
    and "case q of Inl e \<Rightarrow> runs (h e) t1 k1 r t2 k2 | Inr x \<Rightarrow> r = Inr x \<and> t2 = t1 \<and> k2 = k1"
  shows "runs (try_except m h) t k r t2 k2"
  using assms by (cases q) (auto intro: runs_try_Inr runs_try_Inl)

lemma runs_syscall [run_intros]:
  "f t = (r, t') \<Longrightarrow> runs (syscall c f) t k r t' k"
  by (cases r) (auto simp: runs_def syscall_def tick_def record_call_def)

lemma runs_query [run_intros]: "runs (syscall c (query f)) t k (f t) t k"
  by (rule runs_syscall) (simp add: query_def)

lemma runs_new_token [run_intros]: "runs new_token t k (Inr (k 0)) t (\<lambda>i. k (Suc i))"
  by (simp add: runs_def new_token_def)

lemma runs_det: "runs m t k r t1 k1 \<Longrightarrow> runs m t k r' t2 k2 \<Longrightarrow> r = r' \<and> t1 = t2 \<and> k1 = k2"
  unfolding runs_def
  by (drule spec [of _ "\<lparr>w_tree = t, w_env = [], w_trace = [], w_token = k\<rparr>"])+ auto

section \<open>Single calls in a clean place\<close>

lemma node_at_upd: "q \<noteq> [] \<Longrightarrow> node_at (t(q := x)) p = (if p = q then x else node_at t p)"
  by (simp add: node_at_def)

lemma clean_upd: "\<not> strict_prefix q p \<Longrightarrow> q \<noteq> [] \<Longrightarrow> clean (t(q := x)) p \<longleftrightarrow> clean t p"
  unfolding clean_def using node_at_upd by metis

lemma clean_upd_sibling [simp]: "clean (t(p @ [c] := x)) (p @ [d]) \<longleftrightarrow> clean t (p @ [d])"
  by (rule clean_upd) (auto simp: strict_prefix_snoc_iff dest: prefix_length_le)

text \<open>The entry \<open>p @ [c]\<close> in the directory \<open>p\<close>, reached through directories only.\<close>

definition in_dir :: "tree \<Rightarrow> fpath \<Rightarrow> bool" where
  "in_dir t p \<longleftrightarrow> clean t p \<and> node_at t p = Some DirN"

lemma in_dir_snoc: "in_dir t p \<longleftrightarrow> clean t (p @ [c])"
  by (simp add: in_dir_def clean_snoc)

lemma in_dir_upd [simp]: "in_dir (t(p @ [c] := x)) p \<longleftrightarrow> in_dir t p"
  by (metis clean_upd_sibling in_dir_snoc)

lemma at_entry_in_dir: "in_dir t p \<Longrightarrow> at_entry (p @ [c]) edit t = edit t (p @ [c])"
  by (simp add: in_dir_def at_entry_clean clean_snoc)

lemma open_excl_runs:
  "in_dir t p \<Longrightarrow> t (p @ [c]) = None \<Longrightarrow>
     runs (os_open_excl (p @ [c])) t k (Inr ()) (t(p @ [c] \<mapsto> FileN [])) k"
  unfolding os_open_excl_def by (rule runs_syscall) (simp add: at_entry_in_dir)

lemma write_fd_runs:
  "in_dir t p \<Longrightarrow> t (p @ [c]) = Some (FileN d) \<Longrightarrow>
     runs (os_write_fd (p @ [c]) b) t k (Inr ()) (t(p @ [c] \<mapsto> FileN (d @ b))) k"
  unfolding os_write_fd_def by (rule runs_syscall) (simp add: at_entry_in_dir)

lemma fsync_fd_runs: "runs (os_fsync_fd p) t k (Inr ()) t k"
  unfolding os_fsync_fd_def by (rule runs_syscall) simp

lemma unlink_runs:
  "in_dir t p \<Longrightarrow> t (p @ [c]) = Some n \<Longrightarrow> n \<noteq> DirN \<Longrightarrow>
     runs (os_unlink (p @ [c])) t k (Inr ()) (t(p @ [c] := None)) k"
  unfolding os_unlink_def by (rule runs_syscall) (auto simp: at_entry_in_dir split: node.split)

lemma unlink_missing_runs:
  "in_dir t p \<Longrightarrow> t (p @ [c]) = None \<Longrightarrow> runs (os_unlink (p @ [c])) t k (Inl ENOENT) t k"
  unfolding os_unlink_def by (rule runs_syscall) (simp add: at_entry_in_dir)

lemma replace_runs:
  "in_dir t p \<Longrightarrow> in_dir t q \<Longrightarrow> t (p @ [c]) = Some n \<Longrightarrow> t (q @ [d]) \<noteq> Some DirN \<Longrightarrow>
     runs (os_replace (p @ [c]) (q @ [d])) t k (Inr ()) ((t(p @ [c] := None))(q @ [d] \<mapsto> n)) k"
  unfolding os_replace_def by (rule runs_syscall) (simp add: at_entry_in_dir)

lemma link_runs:
  "in_dir t p \<Longrightarrow> in_dir t q \<Longrightarrow> t (p @ [c]) = Some n \<Longrightarrow> n \<noteq> DirN \<Longrightarrow> t (q @ [d]) = None \<Longrightarrow>
     runs (os_link (p @ [c]) (q @ [d])) t k (Inr ()) (t(q @ [d] \<mapsto> n)) k"
  unfolding os_link_def by (rule runs_syscall) (simp add: at_entry_in_dir)

lemma link_exists_runs:
  "in_dir t p \<Longrightarrow> in_dir t q \<Longrightarrow> t (p @ [c]) = Some n \<Longrightarrow> t (q @ [d]) \<noteq> None \<Longrightarrow>
     runs (os_link (p @ [c]) (q @ [d])) t k (Inl EEXIST) t k"
  unfolding os_link_def by (rule runs_syscall) (simp add: at_entry_in_dir)

lemma mkdir_runs:
  "in_dir t p \<Longrightarrow> t (p @ [c]) = None \<Longrightarrow> runs (os_mkdir (p @ [c])) t k (Inr ()) (t(p @ [c] \<mapsto> DirN)) k"
  unfolding os_mkdir_def by (rule runs_syscall) (simp add: at_entry_in_dir)

lemma fsync_dir_runs: "in_dir t p \<Longrightarrow> runs (os_fsync_dir p) t k (Inr ()) t k"
  unfolding os_fsync_dir_def using runs_query [of _ "open_dir_tree p" t k]
    follow_clean [of t "[]" p DirN MAX_LINKS]
  by (simp add: open_dir_tree_def in_dir_def)

lemma stat_size_runs:
  "in_dir t p \<Longrightarrow> t (p @ [c]) = Some (FileN d) \<Longrightarrow> runs (os_stat_size (p @ [c])) t k (Inr (length d)) t k"
  unfolding os_stat_size_def using runs_query [of _ "size_tree (p @ [c])" t k]
    follow_clean [of t "[]" "p @ [c]" "FileN d" MAX_LINKS]
  by (simp add: size_tree_def in_dir_def clean_snoc)

lemma read_runs:
  "in_dir t p \<Longrightarrow> t (p @ [c]) = Some (FileN d) \<Longrightarrow> runs (os_read (p @ [c])) t k (Inr d) t k"
  unfolding os_read_def using runs_query [of _ "read_tree (p @ [c])" t k]
    follow_clean [of t "[]" "p @ [c]" "FileN d" MAX_LINKS]
  by (simp add: read_tree_def in_dir_def clean_snoc)

section \<open>Interference that stays elsewhere\<close>

text \<open>
  \<open>spares S es\<close>: none of the coming changes by other processes touches an entry in \<open>S\<close>; the
  injected faults are unconstrained.
\<close>

definition spares :: "fpath set \<Rightarrow> ((tree \<Rightarrow> tree) \<times> os_error option) list \<Rightarrow> bool" where
  "spares S es \<longleftrightarrow> (\<forall>e \<in> set es. \<forall>t. \<forall>q \<in> S. fst e t q = t q)"

lemma spares_Nil [simp]: "spares S []"
  by (simp add: spares_def)

lemma spares_Cons [simp]: "spares S (e # es) \<longleftrightarrow> (\<forall>t. \<forall>q \<in> S. fst e t q = t q) \<and> spares S es"
  by (simp add: spares_def)

text \<open>
  \<open>stays S B R w\<close>: the coming interference spares \<open>S\<close>, the present tree satisfies \<open>B\<close> and \<open>R\<close>, and
  every tree seen after a recorded call satisfied \<open>B\<close>. \<open>B\<close> is what must hold at every moment,
  \<open>R\<close> what holds at this point of the program.
\<close>

definition stays :: "fpath set \<Rightarrow> (tree \<Rightarrow> bool) \<Rightarrow> (tree \<Rightarrow> bool) \<Rightarrow> world \<Rightarrow> bool" where
  "stays S B R w \<longleftrightarrow>
     spares S (w_env w) \<and> B (w_tree w) \<and> R (w_tree w) \<and> (\<forall>e \<in> set (w_trace w). B (snd (snd e)))"

definition local_to :: "fpath set \<Rightarrow> (tree \<Rightarrow> bool) \<Rightarrow> bool" where
  "local_to S B \<longleftrightarrow> (\<forall>t t'. (\<forall>q \<in> S. t' q = t q) \<longrightarrow> B t \<longrightarrow> B t')"

lemma stays_tick:
  assumes "local_to S B" "local_to S R" "stays S B R w"
  shows "stays S B R (snd (tick w))"
proof (cases "w_env w")
  case Nil
  with assms(3) show ?thesis by (simp add: tick_def)
next
  case (Cons e es)
  then have same: "\<forall>q \<in> S. fst e (w_tree w) q = w_tree w q" and "spares S es"
    using assms(3) by (auto simp: stays_def)
  moreover have "B (fst e (w_tree w))" "R (fst e (w_tree w))"
    using assms same unfolding local_to_def stays_def by blast+
  ultimately show ?thesis
    using Cons assms(3) by (cases e) (simp add: tick_def stays_def)
qed

lemma hoare_syscall_stays:
  assumes local: "local_to S B" "local_to S R"
    and ok: "\<And>t x t'. B t \<Longrightarrow> R t \<Longrightarrow> f t = (Inr x, t') \<Longrightarrow> B t' \<and> Q x t'"
    and err: "\<And>t e t'. B t \<Longrightarrow> R t \<Longrightarrow> f t = (Inl e, t') \<Longrightarrow> B t' \<and> R t'"
  shows "hoare (stays S B R) (syscall c f) (\<lambda>x. stays S B (Q x)) (\<lambda>_. stays S B R)"
proof (rule hoareI)
  fix w x w' assume w: "stays S B R w" and run: "syscall c f w = (Inr x, w')"
  then obtain w1 t' where "tick w = (None, w1)" "f (w_tree w1) = (Inr x, t')"
      "w' = record_call c True (w1\<lparr>w_tree := t'\<rparr>)"
    by (auto simp: syscall_def split: prod.splits option.splits sum.splits)
  with stays_tick [OF local w] ok [of "w_tree w1" x t'] show "stays S B (Q x) w'"
    by (simp add: stays_def record_call_def)
next
  fix w e w' assume w: "stays S B R w" and run: "syscall c f w = (Inl e, w')"
  then consider w1 where "tick w = (Some e, w1)" "w' = record_call c False w1"
    | w1 t' where "tick w = (None, w1)" "f (w_tree w1) = (Inl e, t')"
        "w' = record_call c False (w1\<lparr>w_tree := t'\<rparr>)"
    by (auto simp: syscall_def split: prod.splits option.splits sum.splits)
  then show "stays S B R w'"
  proof cases
    case 1
    with stays_tick [OF local w] show ?thesis by (simp add: stays_def record_call_def)
  next
    case 2
    with stays_tick [OF local w] err [of "w_tree w1" e t'] show ?thesis
      by (simp add: stays_def record_call_def)
  qed
qed

lemma keeps_query_stays [intro]:
  assumes "local_to S B" "local_to S R"
  shows "keeps (stays S B R) (syscall c (query f))"
  unfolding hoare_keeps by (rule hoare_syscall_stays [OF assms]) (auto simp: query_def)

lemma keeps_new_token_stays [intro]: "keeps (stays S B R) new_token"
  by (simp add: keeps_def new_token_def stays_def)

lemma stays_mono: "stays S B R w \<Longrightarrow> (\<And>t. B t \<Longrightarrow> R t \<Longrightarrow> R' t) \<Longrightarrow> stays S B R' w"
  by (auto simp: stays_def)

lemma local_to_True [simp, intro]: "local_to S (\<lambda>t. True)"
  by (simp add: local_to_def)

lemma local_to_entry [simp, intro]: "q \<in> S \<Longrightarrow> local_to S (\<lambda>t. P (t q))"
  unfolding local_to_def by metis

lemma local_to_conj [intro]: "local_to S P \<Longrightarrow> local_to S Q \<Longrightarrow> local_to S (\<lambda>t. P t \<and> Q t)"
  unfolding local_to_def by blast

lemma local_to_in_dir [intro]:
  assumes "\<And>q. prefix q p \<Longrightarrow> q \<in> S"
  shows "local_to S (\<lambda>t. in_dir t p)"
proof -
  have "node_at t' q = node_at t q" if "\<forall>q \<in> S. t' q = t q" "prefix q p" for t t' q
    using that assms by (simp add: node_at_def)
  then show ?thesis
    unfolding local_to_def in_dir_def clean_def
    by (metis prefix_order.less_imp_le prefix_order.order_refl)
qed

end
