(* ===== verification/PathSafety.thy ===== *)
theory PathSafety imports OsModel begin

text \<open>
  \<^verbatim>\<open>server/vault/path_safety.py\<close>, the part that looks at the filesystem: the chain of
  \<^verbatim>\<open>lstat\<close> checks, the containment check on the resolved path, and the methods of
  \<^verbatim>\<open>PathSafety\<close> over the root stored in \<open>root_real\<close>. \<open>path_status\<close> is the specification: what a
  path is in a tree; the last section proves that, with nobody interfering, every check returns
  exactly what the status of the path calls for.
\<close>

type_synonym 'a vault_act = "(world, vault_error, 'a) act"

definition is_symlink :: "node \<Rightarrow> bool" where
  "is_symlink n = (case n of LinkN _ \<Rightarrow> True | _ \<Rightarrow> False)"

definition is_regular :: "node \<Rightarrow> bool" where
  "is_regular n = (case n of FileN _ \<Rightarrow> True | _ \<Rightarrow> False)"

definition verr :: "vault_exc \<Rightarrow> pystr option \<Rightarrow> ('s, vault_error, 'a) act" where
  "verr c p = raise (VaultError c p)"

lemma runs_verr [run_intros]: "runs (verr c p) t k (Inl (VaultError c p)) t k"
  unfolding verr_def by (rule runs_raise)

lemma seq_verr [simp, act_norm]: "seq (verr c p) f = verr c p"
  by (simp add: verr_def)

definition relative_to :: "fpath \<Rightarrow> fpath \<Rightarrow> fpath option" where
  "relative_to root p = (if prefix root p then Some (drop (length root) p) else None)"

text \<open>Only called on paths the service joined to the root, for which \<open>relative_to\<close> is defined.\<close>

definition display_path :: "fpath \<Rightarrow> fpath \<Rightarrow> pystr" where
  "display_path root p = relative_display (the (relative_to root p))"

section \<open>The checks\<close>

definition safe_lstat :: "fpath \<Rightarrow> pystr option \<Rightarrow> node vault_act" where
  "safe_lstat p rel =
     try_except (os_lstat p)
       (\<lambda>e. if e = ENOENT then verr PathNotFound rel else verr VaultUnavailable rel)"

definition check_containment :: "fpath \<Rightarrow> fpath \<Rightarrow> pystr option \<Rightarrow> unit vault_act" where
  "check_containment root p rel =
     unless_act (relative_to root p \<noteq> None) (VaultError PathTraversalError rel)"

fun chain_loop :: "fpath \<Rightarrow> pystr list \<Rightarrow> pystr option \<Rightarrow> bool \<Rightarrow> unit vault_act" where
  "chain_loop current [] rel allow_missing_leaf = ret ()"
| "chain_loop current (part # parts) rel allow_missing_leaf =
     try_else (os_lstat (current @ [part]))
       (\<lambda>e. if e = ENOENT then
               (if allow_missing_leaf then ret () else verr PathNotFound rel)
             else if e = ENOTDIR then verr NotADirectory rel
             else verr VaultUnavailable rel)
       (\<lambda>info. if is_symlink info then verr SymlinkEscapeError rel
               else chain_loop (current @ [part]) parts rel allow_missing_leaf)"

definition check_existing_chain :: "fpath \<Rightarrow> fpath \<Rightarrow> pystr option \<Rightarrow> bool \<Rightarrow> unit vault_act" where
  "check_existing_chain root candidate rel allow_missing_leaf =
     (case relative_to root candidate of
        None \<Rightarrow> verr PathTraversalError rel
      | Some parts \<Rightarrow> chain_loop root parts rel allow_missing_leaf)"

definition ensure_no_symlink :: "fpath \<Rightarrow> pystr option \<Rightarrow> node vault_act" where
  "ensure_no_symlink p rel =
     seq (safe_lstat p rel) (\<lambda>info.
     if is_symlink info then verr SymlinkEscapeError rel else ret info)"

definition assert_root_available :: "fpath \<Rightarrow> unit vault_act" where
  "assert_root_available root =
     try_else (os_lstat root)
       (\<lambda>e. verr VaultUnavailable None)
       (\<lambda>info. if is_symlink info \<or> info \<noteq> DirN then verr VaultUnavailable None else ret ())"

text \<open>\<^verbatim>\<open>candidate.resolve(strict=False)\<close> followed by the containment check.\<close>

definition check_resolved :: "fpath \<Rightarrow> fpath \<Rightarrow> pystr option \<Rightarrow> unit vault_act" where
  "check_resolved root p rel =
     try_else (os_realpath p)
       (\<lambda>e. verr VaultUnavailable rel)
       (\<lambda>real. check_containment root real rel)"

definition resolve ::
  "fpath \<Rightarrow> pyobj \<Rightarrow> bool \<Rightarrow> bool \<Rightarrow> bool \<Rightarrow> bool \<Rightarrow> fpath vault_act" where
  "resolve root value allow_root allow_missing require_directory require_file =
     seq (assert_root_available root) (\<lambda>_.
     seq (lift (validate_relative_path value allow_root)) (\<lambda>relative.
     let candidate = root @ relative_parts relative; rel = Some relative in
     seq (check_existing_chain root candidate rel allow_missing) (\<lambda>_.
     seq (try_else (os_lstat candidate)
            (\<lambda>e. if e = ENOENT then
                    (if \<not> allow_missing then verr PathNotFound rel else ret ())
                  else if e = ENOTDIR then verr NotADirectory rel
                  else verr VaultUnavailable rel)
            (\<lambda>info. if is_symlink info then verr SymlinkEscapeError rel
                    else if require_directory \<and> info \<noteq> DirN then verr NotADirectory rel
                    else if require_file \<and> \<not> is_regular info then verr NotAFile rel
                    else ret ())) (\<lambda>_.
     seq (check_resolved root candidate rel) (\<lambda>_.
     seq (check_existing_chain root candidate rel allow_missing) (\<lambda>_.
     seq (check_resolved root candidate rel) (\<lambda>_.
     ret candidate)))))))"

definition resolve_existing_file :: "fpath \<Rightarrow> pyobj \<Rightarrow> fpath vault_act" where
  "resolve_existing_file root value = resolve root value False False False True"

definition resolve_existing_directory :: "fpath \<Rightarrow> pyobj \<Rightarrow> bool \<Rightarrow> fpath vault_act" where
  "resolve_existing_directory root value allow_root = resolve root value allow_root False True False"

definition resolve_parent :: "fpath \<Rightarrow> pyobj \<Rightarrow> (pystr \<times> fpath \<times> fpath) vault_act" where
  "resolve_parent root value =
     seq (lift (validate_relative_path value False)) (\<lambda>relative.
     let parts = relative_parts relative;
         parent = (if 1 < length parts then root @ butlast parts else root);
         target = root @ parts;
         parent_relative = (if 1 < length parts then join_with SLASH (butlast parts) else lit ''.'')
     in
     seq (resolve root (Str parent_relative) True False True False) (\<lambda>_.
     seq (resolve root (Str relative) False True False False) (\<lambda>_.
     ret (relative, parent, target))))"

definition assert_safe_existing :: "fpath \<Rightarrow> fpath \<Rightarrow> pystr option \<Rightarrow> node vault_act" where
  "assert_safe_existing root p rel =
     seq (assert_root_available root) (\<lambda>_.
     seq (check_existing_chain root p rel False) (\<lambda>_.
     seq (check_resolved root p rel) (\<lambda>_.
     ensure_no_symlink p rel)))"

section \<open>What the checks decide\<close>

datatype standing = Present node | Missing | Blocked | Linked

text \<open>
  The status of the path \<open>cur @ cs\<close> below the directory \<open>cur\<close>: the first component that is not a
  directory decides it.
\<close>

fun path_status :: "tree \<Rightarrow> fpath \<Rightarrow> name list \<Rightarrow> standing" where
  "path_status t cur [] = Present DirN"
| "path_status t cur (c # cs) =
     (case t (cur @ [c]) of
        None \<Rightarrow> Missing
      | Some (LinkN _) \<Rightarrow> Linked
      | Some DirN \<Rightarrow> path_status t (cur @ [c]) cs
      | Some n \<Rightarrow> if cs = [] then Present n else Blocked)"

fun chain_outcome :: "standing \<Rightarrow> pystr option \<Rightarrow> bool \<Rightarrow> vault_error + unit" where
  "chain_outcome (Present n) rel am = Inr ()"
| "chain_outcome Missing rel am = (if am then Inr () else Inl (VaultError PathNotFound rel))"
| "chain_outcome Blocked rel am = Inl (VaultError NotADirectory rel)"
| "chain_outcome Linked rel am = Inl (VaultError SymlinkEscapeError rel)"

lemma runs_lstat [run_intros]: "runs (os_lstat p) t k (lstat_tree p t) t k"
  unfolding os_lstat_def by (rule runs_query)

lemma runs_lstat_clean:
  "clean t p \<Longrightarrow> runs (os_lstat p) t k (case node_at t p of None \<Rightarrow> Inl ENOENT | Some n \<Rightarrow> Inr n) t k"
  by (metis lstat_clean runs_lstat)

lemma lstat_blocked:
  assumes "clean t cur" "node_at t cur = Some DirN" "t (cur @ [c]) = Some n"
    and "n \<noteq> DirN" "\<not> is_symlink n"
  shows "lstat_tree (cur @ [c, d]) t = Inl ENOTDIR"
proof -
  have "walk MAX_LINKS t [] (cur @ [c, d]) = walk MAX_LINKS t cur [c, d]"
    using assms by (intro walk_dirs) simp_all
  also have "\<dots> = Inl ENOTDIR"
    using assms by (cases n) (simp_all add: is_symlink_def)
  finally show ?thesis
    by (simp add: lstat_tree_def resolve_parents_def)
qed

lemma chain_loop_runs:
  "clean t cur \<Longrightarrow> node_at t cur = Some DirN \<Longrightarrow>
     runs (chain_loop cur cs rel am) t k (chain_outcome (path_status t cur cs) rel am) t k"
proof (induction cs arbitrary: cur)
  case Nil
  show ?case by (simp add: runs_ret)
next
  case (Cons c cs)
  have clean: "clean t (cur @ [c])"
    using Cons.prems by (simp add: clean_snoc)
  note lstat = runs_lstat_clean [OF clean]
  show ?case
  proof (cases "t (cur @ [c])")
    case None
    with lstat show ?thesis
      by (auto simp: verr_def intro!: runs_else_Inl run_intros)
  next
    case (Some n)
    with lstat have step: "runs (os_lstat (cur @ [c])) t k (Inr n) t k" for k
      by (metis (no_types, lifting) clean node_at_snoc option.simps(5) runs_lstat_clean)
    consider "is_symlink n" | "n = DirN" | "n \<noteq> DirN" "\<not> is_symlink n" by blast
    then show ?thesis
    proof cases
      case 1
      with Some step show ?thesis
        by (cases n) (auto simp: is_symlink_def verr_def intro!: runs_else_Inr run_intros)
    next
      case 2
      with Some step Cons.IH [OF clean] show ?thesis
        by (auto simp: is_symlink_def intro!: runs_else_Inr)
    next
      case 3
      have out: "chain_outcome (path_status t cur (c # cs)) rel am =
          (if cs = [] then Inr () else Inl (VaultError NotADirectory rel))"
        using Some 3 by (cases n) (simp_all add: is_symlink_def)
      have rest: "runs (chain_loop (cur @ [c]) cs rel am) t k
          (if cs = [] then Inr () else Inl (VaultError NotADirectory rel)) t k"
      proof (cases cs)
        case (Cons d ds)
        have "runs (os_lstat ((cur @ [c]) @ [d])) t k (Inl ENOTDIR) t k"
          using runs_lstat [of "cur @ [c, d]" t k]
          by (simp add: lstat_blocked [OF Cons.prems Some 3])
        then show ?thesis
          using Cons by (auto simp: verr_def intro!: runs_else_Inl run_intros)
      qed (simp add: runs_ret)
      show ?thesis
        using step 3 rest unfolding out by (auto intro!: runs_else_Inr)
    qed
  qed
qed

lemma path_status_Present:
  "clean t cur \<Longrightarrow> node_at t cur = Some DirN \<Longrightarrow> path_status t cur cs = Present n \<Longrightarrow>
     clean t (cur @ cs) \<and> node_at t (cur @ cs) = Some n \<and> \<not> is_symlink n"
proof (induction cs arbitrary: cur)
  case (Cons c cs)
  have clean: "clean t (cur @ [c])"
    using Cons.prems by (simp add: clean_snoc)
  then show ?case
    using Cons.prems Cons.IH [OF clean]
    by (auto simp: is_symlink_def split: option.splits node.splits if_splits)
qed (simp add: is_symlink_def)

lemma path_status_Missing:
  "clean t cur \<Longrightarrow> node_at t cur = Some DirN \<Longrightarrow> path_status t cur cs = Missing \<Longrightarrow>
     \<exists>q c r. cs = q @ c # r \<and> clean t (cur @ q) \<and> node_at t (cur @ q) = Some DirN \<and>
             t (cur @ q @ [c]) = None"
proof (induction cs arbitrary: cur)
  case (Cons c cs)
  have clean: "clean t (cur @ [c])"
    using Cons.prems by (simp add: clean_snoc)
  consider "t (cur @ [c]) = None" | "t (cur @ [c]) = Some DirN" "path_status t (cur @ [c]) cs = Missing"
    using Cons.prems by (auto split: option.splits node.splits if_splits)
  then show ?case
  proof cases
    case 1
    then have "c # cs = [] @ c # cs \<and> clean t (cur @ []) \<and> node_at t (cur @ []) = Some DirN \<and>
        t (cur @ [] @ [c]) = None"
      using Cons.prems by simp
    then show ?thesis by blast
  next
    case 2
    with Cons.IH [OF clean] obtain q d r where
      "cs = q @ d # r" "clean t (cur @ c # q)" "node_at t (cur @ c # q) = Some DirN"
      "t (cur @ (c # q) @ [d]) = None"
      by auto
    then have "c # cs = (c # q) @ d # r \<and> clean t (cur @ c # q) \<and>
        node_at t (cur @ c # q) = Some DirN \<and> t (cur @ (c # q) @ [d]) = None"
      by simp
    then show ?thesis by blast
  qed
qed simp

lemma missing_facts:
  assumes "good_root t root" and "path_status t root cs = Missing"
  shows "lstat_tree (root @ cs) t = Inl ENOENT" and "no_links t (root @ cs)"
proof -
  have "clean t root"
    using assms(1) by (simp add: good_root_def wf_tree_clean)
  then obtain q c r where q: "cs = q @ c # r" "clean t (root @ q)"
      "node_at t (root @ q) = Some DirN" "t (root @ q @ [c]) = None"
    using assms path_status_Missing by (metis good_root_def)
  have "walk MAX_LINKS t [] ((root @ q) @ c # r) = walk MAX_LINKS t (root @ q) (c # r)"
    using q by (intro walk_dirs) simp_all
  then show "lstat_tree (root @ cs) t = Inl ENOENT"
    using q by (cases r) (simp_all add: lstat_tree_def resolve_parents_def node_at_def)
  show "no_links t (root @ cs)"
    unfolding no_links_def
  proof (intro allI impI)
    fix p target assume p: "prefix p (root @ cs)"
    then consider "prefix p (root @ q)" | r' where "p = (root @ q @ [c]) @ r'"
      using q(1) by (auto simp: prefix_append prefix_Cons)
    then show "node_at t p \<noteq> Some (LinkN target)"
    proof cases
      case 1
      with q show ?thesis by (metis clean_node node.distinct(7) option.inject prefix_order.le_less)
    next
      case 2
      then show ?thesis
        using wf_tree_missing [of t "root @ q @ [c]" r'] q assms(1)
        by (simp add: good_root_def node_at_def)
    qed
  qed
qed

fun resolve_outcome ::
  "standing \<Rightarrow> fpath \<Rightarrow> pystr option \<Rightarrow> bool \<Rightarrow> bool \<Rightarrow> bool \<Rightarrow> vault_error + fpath" where
  "resolve_outcome (Present n) p rel am require_directory require_file =
     (if require_directory \<and> n \<noteq> DirN then Inl (VaultError NotADirectory rel)
      else if require_file \<and> \<not> is_regular n then Inl (VaultError NotAFile rel)
      else Inr p)"
| "resolve_outcome Missing p rel am require_directory require_file =
     (if am then Inr p else Inl (VaultError PathNotFound rel))"
| "resolve_outcome Blocked p rel am require_directory require_file = Inl (VaultError NotADirectory rel)"
| "resolve_outcome Linked p rel am require_directory require_file = Inl (VaultError SymlinkEscapeError rel)"

lemma relative_to_append [simp]: "relative_to root (root @ cs) = Some cs"
  by (simp add: relative_to_def)

lemma root_available_runs:
  "good_root t root \<Longrightarrow> runs (assert_root_available root) t k (Inr ()) t k"
  unfolding assert_root_available_def
  by (rule runs_else_Inr [where x = DirN])
    (use runs_lstat_clean [of t root k] wf_tree_clean [of t root] in
      \<open>auto simp: good_root_def is_symlink_def intro: run_intros\<close>)

lemma check_chain_runs:
  "good_root t root \<Longrightarrow>
     runs (check_existing_chain root (root @ cs) rel am) t k
       (chain_outcome (path_status t root cs) rel am) t k"
  unfolding check_existing_chain_def
  by (simp add: chain_loop_runs good_root_def wf_tree_clean)

lemma check_resolved_runs:
  assumes "no_links t (root @ cs)"
  shows "runs (check_resolved root (root @ cs) rel) t k (Inr ()) t k"
  unfolding check_resolved_def
proof (rule runs_else_Inr)
  show "runs (os_realpath (root @ cs)) t k (Inr (root @ cs)) t k"
    unfolding os_realpath_def using runs_query [of _ "\<lambda>t. realp MAX_LINKS t [] (root @ cs)" t k]
      realp_no_links [of t "[]" "root @ cs" MAX_LINKS] assms by simp
  show "runs (check_containment root (root @ cs) rel) t k (Inr ()) t k"
    unfolding check_containment_def using runs_unless [of True] by simp
qed

lemma resolve_runs:
  assumes root: "good_root t root" and valid: "validate_relative_path value ar = Inr rel"
  shows "runs (resolve root value ar am rd rf) t k
           (resolve_outcome (path_status t root (relative_parts rel)) (root @ relative_parts rel)
             (Some rel) am rd rf) t k"
proof -
  let ?cs = "relative_parts rel"
  note avail = root_available_runs [OF root, of k]
  note chain = check_chain_runs [OF root, of ?cs "Some rel"]
  have lift: "runs (lift (validate_relative_path value ar)) t k (Inr rel) t k"
    using runs_lift [of "validate_relative_path value ar"] valid by simp
  note start = runs_seqI [OF avail] runs_seqI [OF lift] runs_seqI [OF chain]
  show ?thesis
  proof (cases "path_status t root ?cs")
    case (Present n)
    then have n: "clean t (root @ ?cs)" "node_at t (root @ ?cs) = Some n" "\<not> is_symlink n"
      using path_status_Present root by (metis good_root_def option.distinct(1) wf_tree_clean)+
    then have "no_links t (root @ ?cs)"
      by (intro no_links_clean) (auto simp: is_symlink_def)
    note real = check_resolved_runs [OF this, of "Some rel" k]
    have lstat: "runs (os_lstat (root @ ?cs)) t k (Inr n) t k"
      using runs_lstat_clean [OF n(1), of k] n(2) by simp
    show ?thesis
      unfolding resolve_def Let_def using Present n(3)
      by (auto simp: act_norm intro!: start runs_elseI [OF lstat] runs_seqI [OF real] run_intros)
  next
    case Missing
    note facts = missing_facts [OF root Missing]
    note real = check_resolved_runs [OF facts(2), of "Some rel" k]
    have lstat: "runs (os_lstat (root @ ?cs)) t k (Inl ENOENT) t k"
      using runs_lstat [of "root @ ?cs" t k] facts(1) by simp
    show ?thesis
      unfolding resolve_def Let_def using Missing
      by (auto simp: act_norm intro!: start runs_elseI [OF lstat] runs_seqI [OF real] run_intros)
  qed (auto simp: resolve_def Let_def intro!: start)
qed

lemma resolve_invalid_runs:
  assumes "good_root t root" and "validate_relative_path value ar = Inl e"
  shows "runs (resolve root value ar am rd rf) t k (Inl e) t k"
  unfolding resolve_def
  using root_available_runs [OF assms(1), of k] runs_lift [of "validate_relative_path value ar" t k]
  by (auto simp: assms(2) intro!: runs_seqI)

fun existing_outcome :: "standing \<Rightarrow> pystr option \<Rightarrow> vault_error + node" where
  "existing_outcome (Present n) rel = Inr n"
| "existing_outcome Missing rel = Inl (VaultError PathNotFound rel)"
| "existing_outcome Blocked rel = Inl (VaultError NotADirectory rel)"
| "existing_outcome Linked rel = Inl (VaultError SymlinkEscapeError rel)"

lemma safe_existing_runs:
  assumes root: "good_root t root"
  shows "runs (assert_safe_existing root (root @ cs) rel) t k
           (existing_outcome (path_status t root cs) rel) t k"
proof -
  note avail = root_available_runs [OF root, of k]
  note chain = check_chain_runs [OF root, of cs rel False k]
  show ?thesis
  proof (cases "path_status t root cs")
    case (Present n)
    then have n: "clean t (root @ cs)" "node_at t (root @ cs) = Some n" "\<not> is_symlink n"
      using path_status_Present root by (metis good_root_def option.distinct(1) wf_tree_clean)+
    then have "no_links t (root @ cs)"
      by (intro no_links_clean) (auto simp: is_symlink_def)
    note real = check_resolved_runs [OF this, of rel k]
    have "runs (os_lstat (root @ cs)) t k (Inr n) t k"
      using runs_lstat_clean [OF n(1), of k] n(2) by simp
    then have "runs (ensure_no_symlink (root @ cs) rel) t k (Inr n) t k"
      unfolding ensure_no_symlink_def safe_lstat_def using n(3)
      by (auto intro!: runs_seq runs_try_Inr run_intros)
    moreover have "runs (check_existing_chain root (root @ cs) rel False) t k (Inr ()) t k"
      using chain Present by simp
    ultimately show ?thesis
      unfolding assert_safe_existing_def using Present
      by (auto intro!: runs_seqI [OF avail] runs_seqI [OF chain] runs_seqI [OF real])
  qed (use chain in \<open>auto simp: assert_safe_existing_def intro!: runs_seqI [OF avail] runs_seqI [OF chain]\<close>)
qed

lemma path_status_append:
  "path_status t cur ps = Present DirN \<Longrightarrow> path_status t cur (ps @ cs) = path_status t (cur @ ps) cs"
  by (induction t cur ps rule: path_status.induct)
    (auto split: option.splits node.splits if_splits)

lemma path_status_parent:
  "path_status t cur (ps @ [c]) = Present n \<Longrightarrow> path_status t cur ps = Present DirN"
  by (induction t cur ps rule: path_status.induct)
    (auto split: option.splits node.splits if_splits)

text \<open>
  \<open>resolve_parent\<close> succeeds exactly when the parent is a directory reached without links and the
  leaf is not a link; its result names the parent and the target below the root.
\<close>

definition parent_outcome :: "tree \<Rightarrow> fpath \<Rightarrow> pystr \<Rightarrow> vault_error + (pystr \<times> fpath \<times> fpath)" where
  "parent_outcome t root rel =
     (let cs = relative_parts rel; up = butlast cs in
      rbind (resolve_outcome (path_status t root up) (root @ up) (Some (relative_display up))
               False True False) (\<lambda>_.
      rbind (resolve_outcome (path_status t root cs) (root @ cs) (Some rel) True False False) (\<lambda>_.
      Inr (rel, root @ up, root @ cs))))"

lemma relative_display_Nil [simp]: "relative_display [] = lit ''.''"
  by (simp add: relative_display_def)

lemma resolve_parent_runs:
  assumes root: "good_root t root" and safe: "safe_path rel"
  shows "runs (resolve_parent root (Str rel)) t k (parent_outcome t root rel) t k"
proof -
  let ?cs = "relative_parts rel"
  define up where "up = butlast ?cs"
  obtain c where cs: "?cs = up @ [c]"
    using safe_path_parts_nonempty [OF safe] up_def by (metis append_butlast_last_id)
  have parent: "(if 1 < length ?cs then root @ butlast ?cs else root) = root @ up"
    using cs by (cases up) simp_all
  have shown: "(if 1 < length ?cs then join_with SLASH (butlast ?cs) else lit ''.'') = relative_display up"
    using cs by (cases up) (simp_all add: relative_display_def)
  have up: "validate_relative_path (Str (relative_display up)) True = Inr (relative_display up)"
    and parts: "relative_parts (relative_display up) = up"
  proof -
    have "(up = [] \<and> relative_display up = lit ''.'') \<or>
        (up \<noteq> [] \<and> relative_display up = join_with SLASH up)"
      by (simp only: relative_display_def) argo
    then show "validate_relative_path (Str (relative_display up)) True = Inr (relative_display up)"
      and "relative_parts (relative_display up) = up"
      using safe_path_parent [OF safe cs] validate_safe validate_root_dot relative_parts_dot by metis+
  qed
  have valid: "runs (lift (validate_relative_path (Str rel) False)) t k (Inr rel) t k"
    using runs_lift [of "validate_relative_path (Str rel) False"] validate_safe [OF safe] by simp
  define fst_out where "fst_out = resolve_outcome (path_status t root up) (root @ up)
    (Some (relative_display up)) False True False"
  define snd_out where "snd_out = resolve_outcome (path_status t root ?cs) (root @ ?cs)
    (Some rel) True False False"
  have first: "runs (resolve root (Str (relative_display up)) True False True False) t k fst_out t k"
    using resolve_runs [OF root up, of False True False k] by (simp only: parts fst_out_def)
  have second: "runs (resolve root (Str rel) False True False False) t k snd_out t k"
    using resolve_runs [OF root validate_safe [OF safe], of False True False False k]
    by (simp only: snd_out_def)
  have out: "parent_outcome t root rel =
      rbind fst_out (\<lambda>_. rbind snd_out (\<lambda>_. Inr (rel, root @ up, root @ ?cs)))"
    by (simp add: parent_outcome_def fst_out_def snd_out_def up_def Let_def)
  show ?thesis
    unfolding resolve_parent_def out
    apply (rule runs_seqI [OF valid])
    apply (simp only: Let_def sum.case)
    apply (simp only: parent shown)
    by (cases fst_out; cases snd_out)
      (auto intro!: runs_seqI [OF first] runs_seqI [OF second] run_intros)
qed

section \<open>Changing one entry\<close>

lemma path_status_upd:
  "\<not> prefix q (cur @ cs) \<Longrightarrow> path_status (t(q := x)) cur cs = path_status t cur cs"
proof (induction cs arbitrary: cur)
  case (Cons c cs)
  then have "q \<noteq> cur @ [c]" "\<not> prefix q ((cur @ [c]) @ cs)"
    by (auto simp: prefix_def)
  with Cons.IH [of "cur @ [c]"] show ?case
    by (auto split: option.split node.split)
qed simp

lemma good_root_upd:
  assumes "good_root t root" "in_dir t p" "t (p @ [c]) \<noteq> Some DirN"
  shows "good_root (t(p @ [c] := x)) root"
proof -
  have "node_at (t(p @ [c] := x)) q = Some DirN" if "(t(p @ [c] := x)) (q @ [d]) \<noteq> None" for q d
  proof (cases "q @ [d] = p @ [c]")
    case True
    then show ?thesis using assms(2) by (simp add: in_dir_def node_at_upd)
  next
    case False
    with that have "t (q @ [d]) \<noteq> None" by (simp split: if_splits)
    then have "node_at t q = Some DirN"
      using assms(1) unfolding good_root_def wf_tree_def by blast
    then show ?thesis using assms(3) by (auto simp: node_at_upd)
  qed
  moreover have "node_at (t(p @ [c] := x)) root = Some DirN"
    using assms(1,3) by (auto simp: good_root_def node_at_upd)
  ultimately show ?thesis by (simp add: good_root_def wf_tree_def)
qed

lemma path_status_dir:
  assumes "good_root t root" "path_status t root cs = Present DirN"
  shows "in_dir t (root @ cs)"
  using assms path_status_Present [of t root cs DirN]
  by (auto simp: in_dir_def good_root_def wf_tree_clean)

lemma path_status_snoc:
  "path_status t root up = Present DirN \<Longrightarrow>
     path_status t root (up @ [c]) =
       (case t (root @ up @ [c]) of None \<Rightarrow> Missing | Some (LinkN _) \<Rightarrow> Linked | Some n \<Rightarrow> Present n)"
  by (auto simp: path_status_append split: option.split node.split)

section \<open>The checks only look\<close>

text \<open>
  Every check is built from \<^verbatim>\<open>lstat\<close> and path resolution, so a property of the world that
  those two keep is kept by all of them, whatever the others do in between.
\<close>

definition looks :: "(world \<Rightarrow> bool) \<Rightarrow> bool" where
  "looks P \<longleftrightarrow> (\<forall>p. keeps P (os_lstat p)) \<and> (\<forall>p. keeps P (os_realpath p))"

lemma looks_lstat [intro]: "looks P \<Longrightarrow> keeps P (os_lstat p)"
  and looks_realpath [intro]: "looks P \<Longrightarrow> keeps P (os_realpath p)"
  by (simp_all add: looks_def)

lemma keeps_verr [intro]: "keeps P (verr c p)"
  unfolding verr_def by (rule keeps_raise)

lemma looks_chain_loop [intro]: "looks P \<Longrightarrow> keeps P (chain_loop cur cs rel am)"
  by (induction cur cs rel am rule: chain_loop.induct) (auto intro!: keeps_try_else)

lemma looks_chain [intro]: "looks P \<Longrightarrow> keeps P (check_existing_chain root p rel am)"
  unfolding check_existing_chain_def by (auto split: option.split)

lemma looks_resolved [intro]: "looks P \<Longrightarrow> keeps P (check_resolved root p rel)"
  unfolding check_resolved_def check_containment_def by (auto intro!: keeps_try_else)

lemma looks_available [intro]: "looks P \<Longrightarrow> keeps P (assert_root_available root)"
  unfolding assert_root_available_def by (auto intro!: keeps_try_else)

lemma looks_no_symlink [intro]: "looks P \<Longrightarrow> keeps P (ensure_no_symlink p rel)"
  unfolding ensure_no_symlink_def safe_lstat_def by (auto intro!: keeps_seq keeps_try)

lemma looks_safe_existing [intro]: "looks P \<Longrightarrow> keeps P (assert_safe_existing root p rel)"
  unfolding assert_safe_existing_def by (auto intro!: keeps_seq)

lemma looks_resolve [intro]: "looks P \<Longrightarrow> keeps P (resolve root value ar am rd rf)"
  unfolding resolve_def Let_def by (auto intro!: keeps_seq keeps_try_else)

lemma looks_resolve_parent [intro]: "looks P \<Longrightarrow> keeps P (resolve_parent root value)"
  unfolding resolve_parent_def Let_def by (auto intro!: keeps_seq)

text \<open>Whatever happens, a normal result of \<open>resolve\<close> is the lexical path below the root.\<close>

lemma resolve_result:
  assumes "resolve root (Str s) False am rd rf w = (Inr p, w')"
  shows "safe_path s \<and> p = root @ relative_parts s"
  using assms
  by (auto simp: resolve_def Let_def seq_eq_Inr act_simps validate_relative_path_Inr)

end
