(* ===== verification/AtomicWrite.thy ===== *)
theory AtomicWrite imports PathSafety begin

text \<open>
  \<^verbatim>\<open>server/vault/atomic_write.py\<close>: a write goes to a fresh temporary file in the target's own
  directory, is synced, and is then moved over the target (\<^verbatim>\<open>os.replace\<close>) or given the
  target's name (\<^verbatim>\<open>os.link\<close>, which never overwrites). The descriptor of the temporary file is
  identified with its name, which no other process knows.

  The lemmas follow every intermediate tree of a write, under injected errors and under interference
  elsewhere in the tree: the target only ever holds the old or the complete new content.
\<close>

definition fsync_tolerated :: "os_error \<Rightarrow> bool" where
  "fsync_tolerated e \<longleftrightarrow> e \<in> {EINVAL, ENOTSUP, EBADF, EACCES}"

definition fsync_directory :: "fpath \<Rightarrow> unit vault_act" where
  "fsync_directory directory =
     try_except (os_fsync_dir directory)
       (\<lambda>e. if fsync_tolerated e then ret () else verr AtomicWriteError None)"

definition temp_name :: "pystr \<Rightarrow> name" where
  "temp_name token = lit ''.localnote-tmp-'' @ token"

definition new_temp_path :: "fpath \<Rightarrow> (world, 'e, fpath) act" where
  "new_temp_path parent = seq new_token (\<lambda>token. ret (parent @ [temp_name token]))"

definition discard_temp :: "fpath \<Rightarrow> (world, 'e, unit) act" where
  "discard_temp temp = try_except (os_unlink temp) (\<lambda>e. ret ())"

definition write_temp :: "fpath \<Rightarrow> bytes \<Rightarrow> fpath vault_act" where
  "write_temp parent data =
     seq (new_temp_path parent) (\<lambda>temp.
     try_except
       (seq (os_open_excl temp) (\<lambda>_.
        seq (os_write_fd temp data) (\<lambda>_.
        seq (os_fsync_fd temp) (\<lambda>_.
        ret temp))))
       (\<lambda>e. seq (discard_temp temp) (\<lambda>_. verr AtomicWriteError None)))"

text \<open>The \<^verbatim>\<open>finally\<close> that removes the temporary file unless it was given away.\<close>

definition cleanup_on_error :: "fpath \<Rightarrow> 'a vault_act \<Rightarrow> 'a vault_act" where
  "cleanup_on_error temp m = try_except m (\<lambda>e. seq (discard_temp temp) (\<lambda>_. raise e))"

definition link_new :: "fpath \<Rightarrow> fpath \<Rightarrow> unit vault_act" where
  "link_new temp target =
     try_except (os_link temp target)
       (\<lambda>e. if e = EEXIST then verr AlreadyExists None else verr AtomicWriteError None)"

definition atomic_write_bytes ::
  "fpath \<Rightarrow> bytes \<Rightarrow> bool \<Rightarrow> unit vault_act \<Rightarrow> bool \<Rightarrow> unit vault_act" where
  "atomic_write_bytes target data replace before_replace sync_parent =
     (let parent = butlast target in
      seq (write_temp parent data) (\<lambda>temp.
      seq (cleanup_on_error temp
             (seq before_replace (\<lambda>_.
              if replace
              then try_except (os_replace temp target) (\<lambda>e. verr AtomicWriteError None)
              else finally_do (link_new temp target) (discard_temp temp)))) (\<lambda>_.
      if sync_parent then fsync_directory parent else ret ())))"

definition atomic_create_bytes :: "fpath \<Rightarrow> bytes \<Rightarrow> unit vault_act" where
  "atomic_create_bytes target data = atomic_write_bytes target data False (ret ()) True"

definition atomic_replace_bytes :: "fpath \<Rightarrow> bytes \<Rightarrow> unit vault_act \<Rightarrow> unit vault_act" where
  "atomic_replace_bytes target data before_replace =
     atomic_write_bytes target data True before_replace True"

section \<open>Streams\<close>

text \<open>
  What a source of chunks yields: a chunk, something that is not bytes, or an exception (a client
  that disconnects, or a budget exceeded in a wrapper below). The end of the list is the end of the
  stream.
\<close>

datatype chunk = Chunk bytes | NotBytes | StreamFails vault_error

fun stream_chunks :: "fpath \<Rightarrow> chunk list \<Rightarrow> nat \<Rightarrow> bytes \<Rightarrow> bytes vault_act" where
  "stream_chunks temp [] max_bytes seen = ret seen"
| "stream_chunks temp (NotBytes # cs) max_bytes seen = verr AtomicWriteError None"
| "stream_chunks temp (StreamFails e # cs) max_bytes seen = raise e"
| "stream_chunks temp (Chunk b # cs) max_bytes seen =
     (if b = [] then stream_chunks temp cs max_bytes seen
      else if max_bytes < length seen + length b then verr FileTooLarge None
      else seq (try_except (os_write_fd temp b) (\<lambda>e. verr VaultUnavailable None)) (\<lambda>_.
           stream_chunks temp cs max_bytes (seen @ b)))"

text \<open>The running SHA-256 and the running total are those of the bytes seen so far.\<close>

definition atomic_create_stream ::
  "pylib \<Rightarrow> fpath \<Rightarrow> chunk list \<Rightarrow> nat \<Rightarrow> bool \<Rightarrow> (pystr \<times> nat) vault_act" where
  "atomic_create_stream L target chunks max_bytes sync_parent =
     (let parent = butlast target in
      seq (new_temp_path parent) (\<lambda>temp.
      seq (cleanup_on_error temp
             (seq (try_except (os_open_excl temp) (\<lambda>e. verr VaultUnavailable None)) (\<lambda>_.
              seq (stream_chunks temp chunks max_bytes []) (\<lambda>seen.
              seq (try_except (os_fsync_fd temp) (\<lambda>e. verr VaultUnavailable None)) (\<lambda>_.
              ret seen))))) (\<lambda>seen.
      seq (finally_do
             (seq (link_new temp target) (\<lambda>_.
              if sync_parent then fsync_directory parent else ret ()))
             (discard_temp temp)) (\<lambda>_.
      ret (lit ''sha256:'' @ hexdigest L seen, length seen)))))"

text \<open>\<^verbatim>\<open>iter_chunks\<close> over a bytes object, and over a reader given as its successive reads.\<close>

function chunks_of :: "nat \<Rightarrow> bytes \<Rightarrow> bytes list" where
  "chunks_of n d = (if d = [] \<or> n = 0 then [] else take n d # chunks_of n (drop n d))"
  by auto
termination by (relation "measure (\<lambda>(n, d). length d)") auto

declare chunks_of.simps [simp del]

fun read_until_empty :: "bytes list \<Rightarrow> bytes list" where
  "read_until_empty [] = []"
| "read_until_empty (c # cs) = (if c = [] then [] else c # read_until_empty cs)"

datatype stream = Reader "bytes list" | BytesObj bytes | Iterable "bytes list"

fun iter_chunks :: "stream \<Rightarrow> nat \<Rightarrow> chunk list" where
  "iter_chunks (Reader reads) chunk_size = map Chunk (read_until_empty reads)"
| "iter_chunks (BytesObj d) chunk_size = map Chunk (chunks_of chunk_size d)"
| "iter_chunks (Iterable cs) chunk_size = map Chunk (filter (\<lambda>c. c \<noteq> []) cs)"

section \<open>ReplayableStream\<close>

record replayable =
  r_reads :: "chunk list"
  r_whole :: "bytes option"
  r_max_bytes :: nat
  r_cache :: "bytes list"
  r_total :: nat
  r_exhausted :: bool

text \<open>
  The loop over the reader: each successive read is a chunk, a value that is not bytes or an
  exception; an empty read ends the stream.
\<close>

fun read_loop :: "chunk list \<Rightarrow> replayable \<Rightarrow> chunk list \<times> replayable" where
  "read_loop [] r = ([], r\<lparr>r_reads := [], r_exhausted := True\<rparr>)"
| "read_loop (NotBytes # cs) r = ([NotBytes], r\<lparr>r_reads := cs\<rparr>)"
| "read_loop (StreamFails e # cs) r = ([StreamFails e], r\<lparr>r_reads := cs\<rparr>)"
| "read_loop (Chunk c # cs) r =
     (if c = [] then ([], r\<lparr>r_reads := cs, r_exhausted := True\<rparr>)
      else let total = r_total r + length c in
           if r_max_bytes r < total
           then ([StreamFails (VaultError FileTooLarge None)], r\<lparr>r_reads := cs, r_total := total\<rparr>)
           else (case read_loop cs (r\<lparr>r_total := total, r_cache := r_cache r @ [c]\<rparr>) of
                   (out, r') \<Rightarrow> (Chunk c # out, r')))"

definition replay_iter :: "replayable \<Rightarrow> chunk list \<times> replayable" where
  "replay_iter r =
     (let cached = map Chunk (r_cache r) in
      if r_exhausted r then (cached, r)
      else case r_whole r of
        Some d \<Rightarrow>
          let total = r_total r + length d in
          if r_max_bytes r < total
          then (cached @ [StreamFails (VaultError FileTooLarge None)], r\<lparr>r_total := total\<rparr>)
          else (cached @ [Chunk d],
                r\<lparr>r_total := total, r_cache := r_cache r @ [d], r_exhausted := True\<rparr>)
      | None \<Rightarrow> (case read_loop (r_reads r) r of (out, r') \<Rightarrow> (cached @ out, r')))"

section \<open>Runs nobody interferes with\<close>

lemma in_dir_shape: "in_dir t p \<Longrightarrow> t (p @ [c]) = x \<Longrightarrow> t(p @ [c] := x) = t"
  by auto

lemma new_temp_runs [run_intros]:
  "runs (new_temp_path p) t k (Inr (p @ [temp_name (k 0)])) t (\<lambda>i. k (Suc i))"
  unfolding new_temp_path_def by (rule runs_seq [OF runs_new_token]) (rule runs_ret)

lemma write_temp_runs:
  assumes "in_dir t p" and "t (p @ [temp_name (k 0)]) = None"
  shows "runs (write_temp p data) t k (Inr (p @ [temp_name (k 0)]))
           (t(p @ [temp_name (k 0)] \<mapsto> FileN data)) (\<lambda>i. k (Suc i))"
proof -
  let ?t1 = "t(p @ [temp_name (k 0)] \<mapsto> FileN [])"
  have "runs (os_write_fd (p @ [temp_name (k 0)]) data) ?t1 k' (Inr ())
          (t(p @ [temp_name (k 0)] \<mapsto> FileN data)) k'" for k'
    using write_fd_runs [of ?t1 p "temp_name (k 0)" "[]" data k'] assms(1) by simp
  then show ?thesis
    unfolding write_temp_def
    by (intro runs_seq [OF new_temp_runs] runs_try_Inr runs_seq [OF open_excl_runs [OF assms]]
        runs_seq [OF fsync_fd_runs] runs_ret) (rule runs_seq, assumption,
        intro runs_seq [OF fsync_fd_runs] runs_ret)
qed

lemma discard_temp_runs:
  assumes "in_dir t p" and "t (p @ [c]) \<noteq> Some DirN"
  shows "runs (discard_temp (p @ [c])) t k (Inr ()) (t(p @ [c] := None)) k"
proof (cases "t (p @ [c])")
  case None
  then have "t(p @ [c] := None) = t" by auto
  with None show ?thesis
    unfolding discard_temp_def
    using runs_try_Inl [OF unlink_missing_runs [OF assms(1) None] runs_ret] by simp
next
  case (Some n)
  with assms show ?thesis
    unfolding discard_temp_def by (auto intro!: runs_try_Inr unlink_runs)
qed

lemma fsync_directory_runs: "in_dir t p \<Longrightarrow> runs (fsync_directory p) t k (Inr ()) t k"
  unfolding fsync_directory_def by (rule runs_try_Inr) (rule fsync_dir_runs)

lemma replace_write_runs:
  assumes dir: "in_dir t p" and fresh: "t (p @ [temp_name (k 0)]) = None" "temp_name (k 0) \<noteq> c"
    and target: "t (p @ [c]) \<noteq> Some DirN"
    and hook: "runs before (t(p @ [temp_name (k 0)] \<mapsto> FileN data)) (\<lambda>i. k (Suc i)) (Inr ())
                 (t(p @ [temp_name (k 0)] \<mapsto> FileN data)) (\<lambda>i. k (Suc i))"
  shows "runs (atomic_write_bytes (p @ [c]) data True before sync) t k (Inr ())
           (t(p @ [c] \<mapsto> FileN data)) (\<lambda>i. k (Suc i))"
proof -
  let ?temp = "p @ [temp_name (k 0)]"
  let ?t1 = "t(?temp \<mapsto> FileN data)"
  have "?t1(?temp := None) = t" using fresh by auto
  then have "runs (os_replace ?temp (p @ [c])) ?t1 k' (Inr ()) (t(p @ [c] \<mapsto> FileN data)) k'" for k'
    using replace_runs [of ?t1 p p "temp_name (k 0)" "FileN data" c k'] assms by simp
  then show ?thesis
    unfolding atomic_write_bytes_def cleanup_on_error_def Let_def
    using dir
    by (auto intro!: runs_seq [OF write_temp_runs] fresh runs_seq [OF runs_try_Inr]
        runs_seq [OF hook] runs_try_Inr fsync_directory_runs runs_ret)
qed

lemma replace_refused_runs:
  assumes dir: "in_dir t p" and fresh: "t (p @ [temp_name (k 0)]) = None"
    and hook: "runs before (t(p @ [temp_name (k 0)] \<mapsto> FileN data)) (\<lambda>i. k (Suc i)) (Inl e)
                 (t(p @ [temp_name (k 0)] \<mapsto> FileN data)) (\<lambda>i. k (Suc i))"
  shows "runs (atomic_write_bytes (p @ [c]) data True before sync) t k (Inl e) t (\<lambda>i. k (Suc i))"
proof -
  let ?temp = "p @ [temp_name (k 0)]"
  let ?t1 = "t(?temp \<mapsto> FileN data)"
  have "?t1(?temp := None) = t" using fresh by auto
  then have "runs (discard_temp ?temp :: unit vault_act) ?t1 k' (Inr ()) t k'" for k'
    using discard_temp_runs [of ?t1 p "temp_name (k 0)" k'] dir by simp
  then have "runs (cleanup_on_error ?temp (seq before f)) ?t1 (\<lambda>i. k (Suc i)) (Inl e) t
      (\<lambda>i. k (Suc i))" for f :: "unit \<Rightarrow> unit vault_act"
    unfolding cleanup_on_error_def
    by (intro runs_try_Inl [OF runs_seq_Inl [OF hook]] runs_seq [OF _ runs_raise])
  then show ?thesis
    unfolding atomic_write_bytes_def Let_def butlast_snoc
    by (intro runs_seq [OF write_temp_runs [where k = k, OF dir fresh]] runs_seq_Inl)
qed

lemma link_new_runs:
  assumes "in_dir t p" and "t (p @ [n]) = Some (FileN data)"
  shows "runs (link_new (p @ [n]) (p @ [c])) t k
           (check (t (p @ [c]) = None) (VaultError AlreadyExists None))
           (if t (p @ [c]) = None then t(p @ [c] \<mapsto> FileN data) else t) k"
  unfolding link_new_def using assms
  by (auto simp: check_def intro!: runs_try_Inr link_runs runs_try_Inl [OF link_exists_runs] run_intros)

lemma create_write_runs:
  assumes dir: "in_dir t p" and fresh: "t (p @ [temp_name (k 0)]) = None" "temp_name (k 0) \<noteq> c"
  shows "runs (atomic_write_bytes (p @ [c]) data False (ret ()) sync) t k
           (check (t (p @ [c]) = None) (VaultError AlreadyExists None))
           (if t (p @ [c]) = None then t(p @ [c] \<mapsto> FileN data) else t) (\<lambda>i. k (Suc i))"
proof -
  let ?temp = "p @ [temp_name (k 0)]"
  let ?t1 = "t(?temp \<mapsto> FileN data)"
  let ?t2 = "if t (p @ [c]) = None then ?t1(p @ [c] \<mapsto> FileN data) else ?t1"
  let ?t3 = "if t (p @ [c]) = None then t(p @ [c] \<mapsto> FileN data) else t"
  have link: "runs (link_new ?temp (p @ [c])) ?t1 k'
      (check (t (p @ [c]) = None) (VaultError AlreadyExists None)) ?t2 k'" for k'
    using link_new_runs [of ?t1 p "temp_name (k 0)" data c k'] assms by simp
  have "?t2(?temp := None) = ?t3" "?t3(?temp := None) = ?t3"
    using fresh by (auto simp: fun_eq_iff)
  then have discard: "runs (discard_temp ?temp :: unit vault_act) ?t2 k' (Inr ()) ?t3 k'"
      "runs (discard_temp ?temp :: unit vault_act) ?t3 k' (Inr ()) ?t3 k'" for k'
    using discard_temp_runs [of ?t2 p "temp_name (k 0)" k']
      discard_temp_runs [of ?t3 p "temp_name (k 0)" k'] dir fresh by auto
  define out where "out = (check (t (p @ [c]) = None) (VaultError AlreadyExists None) :: vault_error + unit)"
  have final: "runs (finally_do (link_new ?temp (p @ [c])) (discard_temp ?temp)) ?t1 k' out ?t3 k'" for k'
    unfolding finally_do_def
    by (rule runs_elseI [OF link [folded out_def]])
      (cases out; simp only: sum.case; rule runs_seq [OF discard(1)]; rule runs_raise runs_ret)
  have "runs (cleanup_on_error ?temp (finally_do (link_new ?temp (p @ [c])) (discard_temp ?temp)))
      ?t1 k' out ?t3 k'" for k'
    unfolding cleanup_on_error_def using final
    by (rule runs_tryI)
      (cases out; simp only: sum.case; (rule runs_seq [OF discard(2)], rule runs_raise | blast))
  note inner = this
  show ?thesis
    unfolding atomic_write_bytes_def Let_def butlast_snoc seq_ret if_False out_def [symmetric]
    by (rule runs_seq [OF write_temp_runs [where k = k, OF dir fresh(1)]], rule runs_seqI [OF inner])
      (auto simp: dir intro: fsync_directory_runs runs_ret split: sum.split)
qed

section \<open>Every moment of a write\<close>

text \<open>
  \<open>untorn p c old data\<close>: the directory \<open>p\<close> is in place and its entry \<open>c\<close> is what it was or a file
  with all of \<open>data\<close>. \<open>write_zone\<close> is the part of the tree the other processes are assumed to leave
  alone during the call: the way to the target, the target, and the temporary name.
\<close>

definition untorn :: "fpath \<Rightarrow> name \<Rightarrow> node option \<Rightarrow> bytes \<Rightarrow> tree \<Rightarrow> bool" where
  "untorn p c old data t \<longleftrightarrow> in_dir t p \<and> t (p @ [c]) \<in> {old, Some (FileN data)}"

definition write_zone :: "fpath \<Rightarrow> name \<Rightarrow> pystr \<Rightarrow> fpath set" where
  "write_zone p c token = {q. prefix q (p @ [c])} \<union> {p @ [temp_name token]}"

lemma local_untorn [intro]: "local_to (write_zone p c token) (untorn p c old data)"
  unfolding untorn_def
  by (intro local_to_conj local_to_in_dir local_to_entry) (auto simp: write_zone_def)

lemma local_temp [intro]: "local_to (write_zone p c token) (\<lambda>t. P (t (p @ [temp_name token])))"
  by (intro local_to_entry) (simp add: write_zone_def)

lemma local_target [intro]: "local_to (write_zone p c token) (\<lambda>t. P (t (p @ [c])))"
  by (intro local_to_entry) (simp add: write_zone_def)

abbreviation steady ::
  "fpath \<Rightarrow> name \<Rightarrow> pystr \<Rightarrow> node option \<Rightarrow> bytes \<Rightarrow> (tree \<Rightarrow> bool) \<Rightarrow> world \<Rightarrow> bool" where
  "steady p c token old data \<equiv> stays (write_zone p c token) (untorn p c old data)"

abbreviation temp_at :: "fpath \<Rightarrow> pystr \<Rightarrow> fpath" where
  "temp_at p token \<equiv> p @ [temp_name token]"

lemma untorn_temp [simp]:
  "temp_name token \<noteq> c \<Longrightarrow> untorn p c old data (t(temp_at p token := x)) \<longleftrightarrow> untorn p c old data t"
  by (simp add: untorn_def)

lemma at_temp: "untorn p c old data t \<Longrightarrow> at_entry (temp_at p token) edit t = edit t (temp_at p token)"
  by (simp add: untorn_def at_entry_in_dir)

lemma unlink_temp_keeps:
  assumes "temp_name token \<noteq> c"
  shows "hoare (steady p c token old data (\<lambda>_. True)) (os_unlink (temp_at p token))
     (\<lambda>_. steady p c token old data (\<lambda>_. True)) (\<lambda>_. steady p c token old data (\<lambda>_. True))"
  unfolding os_unlink_def using assms
  by (intro hoare_syscall_stays local_untorn local_to_True)
    (auto simp: at_temp split: option.splits node.splits)

lemma discard_temp_stays:
  assumes "temp_name token \<noteq> c"
  shows "hoare (steady p c token old data R) (discard_temp (temp_at p token))
     (\<lambda>_. steady p c token old data (\<lambda>_. True)) (\<lambda>_. steady p c token old data (\<lambda>_. True))"
  unfolding discard_temp_def
  by (rule hoare_pre [OF hoare_try [OF unlink_temp_keeps [OF assms] hoare_ret]])
    (auto simp: stays_def)

lemma open_temp_stays:
  assumes "temp_name token \<noteq> c"
  shows "hoare (steady p c token old data (\<lambda>_. True)) (os_open_excl (temp_at p token))
     (\<lambda>_. steady p c token old data (\<lambda>t. t (temp_at p token) = Some (FileN [])))
     (\<lambda>_. steady p c token old data (\<lambda>_. True))"
  unfolding os_open_excl_def using assms
  by (intro hoare_syscall_stays local_untorn local_to_True) (auto simp: at_temp split: if_splits)

lemma write_fd_stays:
  assumes "temp_name token \<noteq> c"
  shows "hoare (steady p c token old data (\<lambda>t. t (temp_at p token) = Some (FileN [])))
     (os_write_fd (temp_at p token) data)
     (\<lambda>_. steady p c token old data (\<lambda>t. t (temp_at p token) = Some (FileN data)))
     (\<lambda>_. steady p c token old data (\<lambda>_. True))"
  unfolding os_write_fd_def using assms
  by (intro hoare_weaken [OF hoare_syscall_stays [where R = "\<lambda>t. t (temp_at p token) = Some (FileN [])"]]
      local_untorn local_temp)
    (auto simp: at_temp elim: stays_mono)

lemma fsync_fd_stays:
  "hoare (steady p c token old data (\<lambda>t. t (temp_at p token) = Some (FileN data)))
     (os_fsync_fd (temp_at p token))
     (\<lambda>_. steady p c token old data (\<lambda>t. t (temp_at p token) = Some (FileN data)))
     (\<lambda>_. steady p c token old data (\<lambda>_. True))"
  unfolding os_fsync_fd_def
  by (intro hoare_weaken [OF hoare_syscall_stays [where R = "\<lambda>t. t (temp_at p token) = Some (FileN data)"]]
      local_untorn local_temp)
    (auto elim: stays_mono)

lemma write_temp_stays:
  assumes neq: "temp_name token \<noteq> c"
  shows "hoare (\<lambda>w. steady p c token old data (\<lambda>_. True) w \<and> w_token w 0 = token) (write_temp p data)
     (\<lambda>x w. x = temp_at p token \<and> steady p c token old data (\<lambda>t. t (temp_at p token) = Some (FileN data)) w)
     (\<lambda>_. steady p c token old data (\<lambda>_. True))"
proof -
  let ?body = "\<lambda>x :: fpath. try_except
     (seq (os_open_excl x) (\<lambda>_. seq (os_write_fd x data) (\<lambda>_. seq (os_fsync_fd x) (\<lambda>_. ret x))))
     (\<lambda>e. seq (discard_temp x) (\<lambda>_. verr AtomicWriteError None))"
  let ?post = "\<lambda>x w. x = temp_at p token \<and>
     steady p c token old data (\<lambda>t. t (temp_at p token) = Some (FileN data)) w"
  have new: "hoare (\<lambda>w. steady p c token old data (\<lambda>_. True) w \<and> w_token w 0 = token) (new_temp_path p)
      (\<lambda>x w. x = temp_at p token \<and> steady p c token old data (\<lambda>_. True) w)
      (\<lambda>_. steady p c token old data (\<lambda>_. True))"
    by (rule hoareI) (auto simp: new_temp_path_def new_token_def seq_def ret_def stays_def)
  have handled: "hoare (steady p c token old data (\<lambda>_. True)) (?body (temp_at p token)) ?post
      (\<lambda>_. steady p c token old data (\<lambda>_. True))"
    unfolding verr_def
    by (rule hoare_try [where F = "\<lambda>_. steady p c token old data (\<lambda>_. True)"];
        intro hoare_seq [OF open_temp_stays [OF neq]] hoare_seq [OF write_fd_stays [OF neq]]
        hoare_seq [OF fsync_fd_stays] hoare_seq [OF discard_temp_stays [OF neq]] hoare_ret hoare_raise)
      simp_all
  have "hoare (\<lambda>w. x = temp_at p token \<and> steady p c token old data (\<lambda>_. True) w) (?body x) ?post
      (\<lambda>_. steady p c token old data (\<lambda>_. True))" for x
    using handled by (cases "x = temp_at p token") (auto simp: hoare_def)
  then show ?thesis
    unfolding write_temp_def by (rule hoare_seq [OF new])
qed

text \<open>
  The replacing write: whatever fails, and whatever the others do elsewhere, every recorded tree
  has the old or the new content at the target, and a normal return has the new one.
\<close>

lemma at_target: "untorn p c old data t \<Longrightarrow> at_entry (p @ [c]) edit t = edit t (p @ [c])"
  by (simp add: untorn_def at_entry_in_dir)

lemma untorn_target [simp]:
  "untorn p c old data t \<Longrightarrow> untorn p c old data (t(p @ [c] \<mapsto> FileN data))"
  by (simp add: untorn_def)

lemma replace_stays:
  assumes neq: "temp_name token \<noteq> c"
  shows "hoare (steady p c token old data (\<lambda>t. t (temp_at p token) = Some (FileN data)))
     (os_replace (temp_at p token) (p @ [c]))
     (\<lambda>_. steady p c token old data (\<lambda>t. t (p @ [c]) = Some (FileN data)))
     (\<lambda>_. steady p c token old data (\<lambda>_. True))"
  unfolding os_replace_def using neq
  by (intro hoare_weaken [OF hoare_syscall_stays [where R = "\<lambda>t. t (temp_at p token) = Some (FileN data)"]]
        local_untorn local_temp)
      (auto simp: at_temp at_target split: if_splits elim: stays_mono)

lemma fsync_dir_stays:
  assumes "local_to (write_zone p c token) R"
  shows "hoare (steady p c token old data R) (fsync_directory p)
     (\<lambda>_. steady p c token old data R) (\<lambda>_. steady p c token old data R)"
  unfolding fsync_directory_def os_fsync_dir_def verr_def
  using keeps_query_stays [OF local_untorn assms, unfolded hoare_keeps]
  by (intro hoare_try hoare_if hoare_ret hoare_raise) auto

lemma replace_write_stays:
  assumes neq: "temp_name token \<noteq> c"
    and before: "keeps (steady p c token old data (\<lambda>t. t (temp_at p token) = Some (FileN data))) before"
  shows "hoare (\<lambda>w. steady p c token old data (\<lambda>_. True) w \<and> w_token w 0 = token)
     (atomic_write_bytes (p @ [c]) data True before sync)
     (\<lambda>_. steady p c token old data (\<lambda>t. t (p @ [c]) = Some (FileN data)))
     (\<lambda>_. steady p c token old data (\<lambda>_. True))"
proof -
  let ?any = "\<lambda>_. steady p c token old data (\<lambda>_. True)"
  let ?new = "\<lambda>_. steady p c token old data (\<lambda>t. t (p @ [c]) = Some (FileN data))"
  let ?temp = "temp_at p token"
  let ?inner = "\<lambda>x. cleanup_on_error x (seq before (\<lambda>_.
     try_except (os_replace x (p @ [c])) (\<lambda>e. verr AtomicWriteError None)))"
  have before': "hoare (steady p c token old data (\<lambda>t. t ?temp = Some (FileN data))) before
      (\<lambda>_. steady p c token old data (\<lambda>t. t ?temp = Some (FileN data))) ?any"
    using before unfolding hoare_keeps by (rule hoare_weaken) (auto elim: stays_mono)
  have "hoare (steady p c token old data (\<lambda>t. t ?temp = Some (FileN data))) (?inner ?temp) ?new ?any"
    unfolding cleanup_on_error_def verr_def
    by (rule hoare_try [where F = ?any];
        intro hoare_seq [OF before'] hoare_try [OF replace_stays [OF neq]]
          hoare_seq [OF discard_temp_stays [OF neq]] hoare_raise)
  then have "hoare (\<lambda>w. x = ?temp \<and> steady p c token old data (\<lambda>t. t ?temp = Some (FileN data)) w)
      (?inner x) ?new ?any" for x
    by (cases "x = ?temp") (auto simp: hoare_def)
  moreover have "hoare (?new u) (if sync then fsync_directory p else ret ()) ?new ?any" for u :: unit
    by (intro hoare_if hoare_ret hoare_weaken [OF fsync_dir_stays
        [OF local_target [of p c token "\<lambda>n. n = Some (FileN data)"]]])
      (auto elim: stays_mono)
  ultimately show ?thesis
    unfolding atomic_write_bytes_def Let_def butlast_snoc if_True
    by (intro hoare_seq [OF write_temp_stays [OF neq]] hoare_seq)
qed

end
