(* ===== verification/VaultService.thy ===== *)
theory VaultService imports AtomicWrite begin

text \<open>
  \<^verbatim>\<open>server/vault/service.py\<close>: the operations of \<^verbatim>\<open>VaultService\<close> on one file. The
  configuration is the resolved root, the size limit and the injected \<^verbatim>\<open>before_replace_hook\<close>;
  the mutation lock makes the operations of one process sequential, and what other processes do
  between two system calls is the environment of the world.

  The second part gives, for an undisturbed run, the exact result and tree of every operation on
  every branch; the third keeps the compare-and-swap promise of an update under interference.
\<close>

record vault_cfg =
  root_real :: fpath
  max_file_bytes :: nat
  before_replace_hook :: "(fpath \<Rightarrow> unit vault_act) option"

datatype file_operation = OpCreated | OpUpdated | OpDeleted | OpMoved

record file_response =
  resp_path :: pystr
  resp_sha256 :: "pystr option"
  resp_byte_length :: "nat option"
  resp_operation :: file_operation

section \<open>The operations\<close>

definition sha256_bytes :: "pylib \<Rightarrow> bytes \<Rightarrow> pystr" where
  "sha256_bytes L data = lit ''sha256:'' @ hexdigest L data"

definition os_to_vault :: "os_error \<Rightarrow> 'a vault_act" where
  "os_to_vault e = (if e = ENOENT then verr PathNotFound None else verr VaultUnavailable None)"

definition read_limited :: "fpath \<Rightarrow> nat \<Rightarrow> bytes vault_act" where
  "read_limited path max_bytes =
     seq (try_except (os_stat_size path) os_to_vault) (\<lambda>size.
     if max_bytes < size then verr FileTooLarge None
     else seq (try_except (os_read path) os_to_vault) (\<lambda>data.
          if max_bytes < length data then verr FileTooLarge None else ret data))"

definition validate_public_path :: "pystr \<Rightarrow> vault_error + pystr" where
  "validate_public_path value =
     rbind (validate_relative_path (Str value) False) (\<lambda>relative.
     if is_reserved_derived_path relative then Inl (VaultError InvalidOperation None)
     else Inr relative)"

definition resolve_existing :: "vault_cfg \<Rightarrow> pystr \<Rightarrow> (pystr \<times> fpath) vault_act" where
  "resolve_existing V value =
     seq (lift (validate_public_path value)) (\<lambda>relative.
     seq (resolve_existing_file (root_real V) (Str relative)) (\<lambda>path.
     seq (assert_safe_existing (root_real V) path (Some relative)) (\<lambda>_.
     ret (relative, path))))"

definition assert_parent :: "vault_cfg \<Rightarrow> fpath \<Rightarrow> node vault_act" where
  "assert_parent V parent =
     assert_safe_existing (root_real V) parent (Some (display_path (root_real V) parent))"

definition resolve_parent_and_target :: "vault_cfg \<Rightarrow> pystr \<Rightarrow> (pystr \<times> fpath \<times> fpath) vault_act" where
  "resolve_parent_and_target V value =
     seq (lift (validate_public_path value)) (\<lambda>relative.
     seq (resolve_parent (root_real V) (Str relative)) (\<lambda>(_, parent, target).
     seq (assert_parent V parent) (\<lambda>_.
     ret (relative, parent, target))))"

definition snapshot :: "pylib \<Rightarrow> vault_cfg \<Rightarrow> pystr \<Rightarrow> fpath \<Rightarrow> (bytes \<times> pystr) vault_act" where
  "snapshot L V relative path =
     seq (assert_safe_existing (root_real V) path (Some relative)) (\<lambda>_.
     seq (read_limited path (max_file_bytes V)) (\<lambda>data.
     seq (assert_safe_existing (root_real V) path (Some relative)) (\<lambda>_.
     ret (data, sha256_bytes L data))))"

definition read_bytes :: "pylib \<Rightarrow> vault_cfg \<Rightarrow> pystr \<Rightarrow> (bytes \<times> pystr) vault_act" where
  "read_bytes L V relative_path =
     seq (resolve_existing V relative_path) (\<lambda>(relative, path).
     seq (assert_safe_existing (root_real V) path (Some relative)) (\<lambda>_.
     seq (read_limited path (max_file_bytes V)) (\<lambda>data.
     seq (assert_safe_existing (root_real V) path (Some relative)) (\<lambda>_.
     ret (data, sha256_bytes L data)))))"

text \<open>\<^verbatim>\<open>_canonical_digest\<close> and \<^verbatim>\<open>_require_expected_hash\<close>; \<open>None\<close> is Python's \<^verbatim>\<open>None\<close>.\<close>

definition canonical_digest :: "pylib \<Rightarrow> pystr \<Rightarrow> pystr" where
  "canonical_digest L value =
     (let text = str_lower L value in
      if starts_with text (lit ''sha256:'') then text else lit ''sha256:'' @ text)"

definition require_expected_hash :: "pylib \<Rightarrow> pystr \<Rightarrow> pystr option \<Rightarrow> vault_error + pystr" where
  "require_expected_hash L relative expected =
     (case expected of
        None \<Rightarrow> Inl (VaultError ExpectedHashRequired (Some relative))
      | Some e \<Rightarrow> if e = [] then Inl (VaultError ExpectedHashRequired (Some relative))
                  else Inr (canonical_digest L e))"

text \<open>The check that the target is absent: an \<^verbatim>\<open>lstat\<close> that must fail with \<^verbatim>\<open>FileNotFoundError\<close>.\<close>

definition require_absent :: "fpath \<Rightarrow> pystr \<Rightarrow> unit vault_act" where
  "require_absent target relative =
     try_else (os_lstat target)
       (\<lambda>e. if e = ENOENT then ret () else verr VaultUnavailable (Some relative))
       (\<lambda>info. if is_symlink info then verr SymlinkEscapeError (Some relative)
               else verr AlreadyExists (Some relative))"

definition create_bytes :: "pylib \<Rightarrow> vault_cfg \<Rightarrow> pystr \<Rightarrow> bytes \<Rightarrow> file_response vault_act" where
  "create_bytes L V relative_path data =
     (if max_file_bytes V < length data then verr FileTooLarge (Some relative_path)
      else
        seq (resolve_parent_and_target V relative_path) (\<lambda>(relative, parent, target).
        seq (assert_parent V parent) (\<lambda>_.
        seq (require_absent target relative) (\<lambda>_.
        seq (try_except (atomic_create_bytes target data)
               (\<lambda>e. if error_is e AlreadyExists then verr AlreadyExists (Some relative) else raise e)) (\<lambda>_.
        seq (assert_safe_existing (root_real V) target (Some relative)) (\<lambda>_.
        ret \<lparr>resp_path = relative, resp_sha256 = Some (sha256_bytes L data),
             resp_byte_length = Some (length data), resp_operation = OpCreated\<rparr>))))))"

text \<open>The callback that runs after the temporary file is ready, just before it replaces the target.\<close>

definition recheck_before_replace :: "pylib \<Rightarrow> vault_cfg \<Rightarrow> pystr \<Rightarrow> fpath \<Rightarrow> pystr \<Rightarrow> unit vault_act" where
  "recheck_before_replace L V relative path snapshot_a =
     seq (assert_safe_existing (root_real V) path (Some relative)) (\<lambda>_.
     seq (snapshot L V relative path) (\<lambda>(_, snapshot_b).
     if snapshot_b \<noteq> snapshot_a then verr FileConflict (Some relative)
     else
       seq (case before_replace_hook V of None \<Rightarrow> ret () | Some hook \<Rightarrow> hook path) (\<lambda>_.
       seq (assert_safe_existing (root_real V) path (Some relative)) (\<lambda>_.
       seq (snapshot L V relative path) (\<lambda>(_, snapshot_c).
       if snapshot_c \<noteq> snapshot_a then verr FileConflict (Some relative) else ret ())))))"

definition write_bytes ::
  "pylib \<Rightarrow> vault_cfg \<Rightarrow> pystr \<Rightarrow> bytes \<Rightarrow> pystr option \<Rightarrow> file_response vault_act" where
  "write_bytes L V relative_path data expected_sha256 =
     (if max_file_bytes V < length data then verr FileTooLarge (Some relative_path)
      else
        seq (resolve_existing V relative_path) (\<lambda>(relative, path).
        seq (snapshot L V relative path) (\<lambda>(_, snapshot_a).
        seq (lift (require_expected_hash L relative expected_sha256)) (\<lambda>expected.
        if expected \<noteq> snapshot_a then verr FileConflict (Some relative)
        else
          seq (atomic_replace_bytes path data
                 (recheck_before_replace L V relative path snapshot_a)) (\<lambda>_.
          seq (assert_safe_existing (root_real V) path (Some relative)) (\<lambda>_.
          seq (read_limited path (max_file_bytes V)) (\<lambda>final_data.
          ret \<lparr>resp_path = relative, resp_sha256 = Some (sha256_bytes L final_data),
               resp_byte_length = Some (length final_data), resp_operation = OpUpdated\<rparr>)))))))"

definition create_directory :: "vault_cfg \<Rightarrow> pystr \<Rightarrow> file_response vault_act" where
  "create_directory V relative_path =
     seq (resolve_parent_and_target V relative_path) (\<lambda>(relative, parent, target).
     seq (assert_parent V parent) (\<lambda>_.
     seq (require_absent target relative) (\<lambda>_.
     seq (assert_parent V parent) (\<lambda>_.
     seq (try_except (os_mkdir target)
            (\<lambda>e. if e = EEXIST then verr AlreadyExists (Some relative)
                 else verr AtomicWriteError None)) (\<lambda>_.
     seq (assert_safe_existing (root_real V) target (Some relative)) (\<lambda>_.
     ret \<lparr>resp_path = relative, resp_sha256 = None, resp_byte_length = None,
          resp_operation = OpCreated\<rparr>))))))"

definition delete_file :: "pylib \<Rightarrow> vault_cfg \<Rightarrow> pystr \<Rightarrow> pystr option \<Rightarrow> file_response vault_act" where
  "delete_file L V relative_path expected_sha256 =
     seq (resolve_existing V relative_path) (\<lambda>(relative, path).
     seq (snapshot L V relative path) (\<lambda>(_, actual).
     seq (lift (require_expected_hash L relative expected_sha256)) (\<lambda>expected.
     if expected \<noteq> actual then verr FileConflict (Some relative)
     else
       seq (assert_safe_existing (root_real V) path (Some relative)) (\<lambda>_.
       seq (snapshot L V relative path) (\<lambda>(_, actual_again).
       if actual_again \<noteq> actual then verr FileConflict (Some relative)
       else
         seq (try_except (os_unlink path)
                (\<lambda>e. if e = ENOENT then verr FileConflict (Some relative)
                     else verr AtomicWriteError None)) (\<lambda>_.
         ret \<lparr>resp_path = relative, resp_sha256 = None, resp_byte_length = None,
              resp_operation = OpDeleted\<rparr>))))))"

definition move_file ::
  "pylib \<Rightarrow> vault_cfg \<Rightarrow> pystr \<Rightarrow> pystr \<Rightarrow> pystr option \<Rightarrow> file_response vault_act" where
  "move_file L V source_path destination_path expected_sha256 =
     seq (resolve_existing V source_path) (\<lambda>(source_relative, source).
     seq (resolve_parent_and_target V destination_path) (\<lambda>(destination_relative, parent, destination).
     if source_relative = destination_relative then verr InvalidOperation (Some source_relative)
     else
       seq (snapshot L V source_relative source) (\<lambda>(_, actual).
       seq (lift (require_expected_hash L source_relative expected_sha256)) (\<lambda>expected.
       if expected \<noteq> actual then verr FileConflict (Some source_relative)
       else
         seq (assert_parent V parent) (\<lambda>_.
         seq (require_absent destination destination_relative) (\<lambda>_.
         seq (assert_safe_existing (root_real V) source (Some source_relative)) (\<lambda>_.
         seq (assert_parent V parent) (\<lambda>_.
         seq (try_except (os_link source destination)
                (\<lambda>e. if e = EEXIST then verr AlreadyExists (Some destination_relative)
                     else verr AtomicWriteError None)) (\<lambda>_.
         seq (try_except
                (seq (assert_safe_existing (root_real V) destination (Some destination_relative)) (\<lambda>_.
                 seq (snapshot L V destination_relative destination) (\<lambda>(_, destination_hash).
                 if destination_hash \<noteq> actual then verr FileConflict (Some source_relative)
                 else
                   seq (snapshot L V source_relative source) (\<lambda>(_, source_hash).
                   if source_hash \<noteq> actual then verr FileConflict (Some source_relative)
                   else try_except (os_unlink source) (\<lambda>e. raise UncaughtOSError)))))
                (\<lambda>e. seq (discard_temp destination) (\<lambda>_. raise e))) (\<lambda>_.
         seq (read_limited destination (max_file_bytes V)) (\<lambda>data.
         ret \<lparr>resp_path = destination_relative, resp_sha256 = Some actual,
              resp_byte_length = Some (length data), resp_operation = OpMoved\<rparr>)))))))))))"

section \<open>Undisturbed runs\<close>

definition public_path :: "pystr \<Rightarrow> bool" where
  "public_path s \<longleftrightarrow> safe_path s \<and> \<not> is_reserved_derived_path s"

lemma validate_public_Inr: "validate_public_path s = Inr r \<longleftrightarrow> r = s \<and> public_path s"
  by (auto simp: validate_public_path_def public_path_def rbind_eq_Inr validate_relative_path_Inr)

abbreviation status_at :: "vault_cfg \<Rightarrow> tree \<Rightarrow> pystr \<Rightarrow> standing" where
  "status_at V t s \<equiv> path_status t (root_real V) (relative_parts s)"

abbreviation full_path :: "vault_cfg \<Rightarrow> pystr \<Rightarrow> fpath" where
  "full_path V s \<equiv> root_real V @ relative_parts s"

text \<open>What a lookup finds, and what reading it answers.\<close>

definition lookup_file :: "vault_cfg \<Rightarrow> tree \<Rightarrow> pystr \<Rightarrow> vault_error + bytes" where
  "lookup_file V t s =
     (case status_at V t s of
        Present (FileN d) \<Rightarrow> Inr d
      | Present _ \<Rightarrow> Inl (VaultError NotAFile (Some s))
      | Missing \<Rightarrow> Inl (VaultError PathNotFound (Some s))
      | Blocked \<Rightarrow> Inl (VaultError NotADirectory (Some s))
      | Linked \<Rightarrow> Inl (VaultError SymlinkEscapeError (Some s)))"

definition read_outcome :: "pylib \<Rightarrow> vault_cfg \<Rightarrow> tree \<Rightarrow> pystr \<Rightarrow> vault_error + (bytes \<times> pystr)" where
  "read_outcome L V t s =
     rbind (validate_public_path s) (\<lambda>_.
     rbind (lookup_file V t s) (\<lambda>d.
     if max_file_bytes V < length d then Inl (VaultError FileTooLarge None)
     else Inr (d, sha256_bytes L d)))"

lemma lookup_file_Inr: "lookup_file V t s = Inr d \<longleftrightarrow> status_at V t s = Present (FileN d)"
  by (auto simp: lookup_file_def split: standing.splits node.splits)

lemma present_file_place:
  assumes "good_root t root" "path_status t root cs = Present n" "cs \<noteq> []"
  obtains up c where "cs = up @ [c]" "in_dir t (root @ up)" "t ((root @ up) @ [c]) = Some n"
proof -
  obtain up c where cs: "cs = up @ [c]"
    using assms(3) rev_exhaust by blast
  have "clean t root" using assms(1) by (simp add: good_root_def wf_tree_clean)
  then have "clean t (root @ cs)" "node_at t (root @ cs) = Some n"
    using path_status_Present [of t root cs n] assms by (auto simp: good_root_def)
  with cs that show thesis
    by (metis append.assoc in_dir_snoc node_at_snoc)
qed

lemma safe_present_runs:
  "good_root t root \<Longrightarrow> path_status t root cs = Present n \<Longrightarrow>
     runs (assert_safe_existing root (root @ cs) rel) t k (Inr n) t k"
  using safe_existing_runs [of t root cs rel k] by simp

lemma read_limited_runs:
  assumes "good_root t root" "path_status t root cs = Present (FileN d)" "cs \<noteq> []"
  shows "runs (read_limited (root @ cs) m) t k
           (if m < length d then Inl (VaultError FileTooLarge None) else Inr d) t k"
proof -
  obtain up c where place: "cs = up @ [c]" "in_dir t (root @ up)" "t ((root @ up) @ [c]) = Some (FileN d)"
    using assms by (rule present_file_place)
  have size: "runs (os_stat_size (root @ cs)) t k (Inr (length d)) t k"
    and read: "runs (os_read (root @ cs)) t k (Inr d) t k"
    using stat_size_runs [OF place(2,3), of k] read_runs [OF place(2,3), of k] place(1) by simp_all
  show ?thesis
    unfolding read_limited_def
    by (auto intro!: runs_seq [OF runs_try_Inr [OF size]] runs_seq [OF runs_try_Inr [OF read]] run_intros)
qed

lemma snapshot_runs:
  assumes "good_root t (root_real V)" "path_status t (root_real V) cs = Present (FileN d)" "cs \<noteq> []"
  shows "runs (snapshot L V rel (root_real V @ cs)) t k
           (if max_file_bytes V < length d then Inl (VaultError FileTooLarge None)
            else Inr (d, sha256_bytes L d)) t k"
  unfolding snapshot_def
  using read_limited_runs [OF assms, of "max_file_bytes V" k]
  by (auto intro!: runs_seq [OF safe_present_runs [OF assms(1,2)]] run_intros
      intro: runs_seq runs_seq_Inl split: if_splits)

lemma resolve_existing_runs:
  assumes "good_root t (root_real V)"
  shows "runs (resolve_existing V s) t k
     (rbind (validate_public_path s) (\<lambda>_. rbind (lookup_file V t s) (\<lambda>_. Inr (s, full_path V s)))) t k"
proof (cases "validate_public_path s")
  case (Inl e)
  then show ?thesis by (auto simp: resolve_existing_def act_norm intro!: runs_raise)
next
  case (Inr r)
  then have r: "r = s" "safe_path s" by (auto simp: validate_public_Inr public_path_def)
  have lookup: "resolve_outcome (status_at V t s) (full_path V s) (Some s) False False True =
      rbind (lookup_file V t s) (\<lambda>_. Inr (full_path V s))"
    by (auto simp: lookup_file_def is_regular_def split: standing.split node.split)
  have resolved: "runs (resolve_existing_file (root_real V) (Str s)) t k
      (rbind (lookup_file V t s) (\<lambda>_. Inr (full_path V s))) t k"
    using resolve_runs [OF assms validate_safe [OF r(2)], of False False False True k]
    by (simp only: resolve_existing_file_def lookup)
  show ?thesis
  proof (cases "lookup_file V t s")
    case (Inl e)
    with resolved Inr r show ?thesis
      by (auto simp: resolve_existing_def act_norm intro!: runs_seq_Inl)
  next
    case (Inr d)
    then have "status_at V t s = Present (FileN d)" by (simp add: lookup_file_Inr)
    from safe_present_runs [OF assms this] Inr resolved \<open>validate_public_path s = Inr r\<close> r
    show ?thesis
      by (auto simp: resolve_existing_def act_norm intro!: runs_seq run_intros)
  qed
qed

lemma read_bytes_runs:
  assumes "good_root t (root_real V)"
  shows "runs (read_bytes L V s) t k (read_outcome L V t s) t k"
proof (cases "rbind (validate_public_path s) (\<lambda>_. lookup_file V t s)")
  case (Inl e)
  then have "read_outcome L V t s = Inl e"
    and "rbind (validate_public_path s) (\<lambda>_. rbind (lookup_file V t s) (\<lambda>_. Inr (s, full_path V s))) = Inl e"
    by (auto simp: read_outcome_def rbind_def split: sum.splits)
  then show ?thesis
    using resolve_existing_runs [OF assms, of s k] by (simp add: read_bytes_def runs_seq_Inl)
next
  case (Inr d)
  then obtain r where "validate_public_path s = Inr r" "lookup_file V t s = Inr d"
    by (auto simp: rbind_eq_Inr)
  then have public: "public_path s" and status: "status_at V t s = Present (FileN d)"
    and valid: "validate_public_path s = Inr s"
    by (auto simp: validate_public_Inr lookup_file_Inr)
  have ne: "relative_parts s \<noteq> []"
    using public by (simp add: public_path_def safe_path_parts_nonempty)
  have "runs (resolve_existing V s) t k (Inr (s, full_path V s)) t k"
    using resolve_existing_runs [OF assms, of s k] valid status by (simp add: lookup_file_def)
  moreover have "read_outcome L V t s =
      (if max_file_bytes V < length d then Inl (VaultError FileTooLarge None) else Inr (d, sha256_bytes L d))"
    using valid status by (simp add: read_outcome_def lookup_file_def)
  ultimately show ?thesis
    unfolding read_bytes_def
    using read_limited_runs [OF assms status ne, of "max_file_bytes V" k]
    by (auto intro!: runs_seq [OF safe_present_runs [OF assms status]] run_intros
        intro: runs_seq runs_seq_Inl split: if_splits)
qed

text \<open>The two ways a lookup can end, with everything an operation needs of each.\<close>

definition find_file :: "vault_cfg \<Rightarrow> tree \<Rightarrow> pystr \<Rightarrow> vault_error + bytes" where
  "find_file V t s = rbind (validate_public_path s) (\<lambda>_. lookup_file V t s)"

lemma find_file_Inr: "find_file V t s = Inr d \<longleftrightarrow> public_path s \<and> status_at V t s = Present (FileN d)"
  unfolding find_file_def rbind_eq_Inr validate_public_Inr lookup_file_Inr by blast

lemma find_file_Inl:
  assumes "find_file V t s = Inl e"
  shows "read_outcome L V t s = Inl e"
    and "good_root t (root_real V) \<Longrightarrow> runs (resolve_existing V s) t k (Inl e) t k"
  using assms resolve_existing_runs [of t V s k]
  by (auto simp: read_outcome_def find_file_def rbind_def split: sum.splits)

definition found_at :: "vault_cfg \<Rightarrow> tree \<Rightarrow> pystr \<Rightarrow> bytes \<Rightarrow> fpath \<Rightarrow> name \<Rightarrow> bool" where
  "found_at V t s d up c \<longleftrightarrow>
     public_path s \<and> relative_parts s = up @ [c] \<and>
     path_status t (root_real V) up = Present DirN \<and>
     path_status t (root_real V) (up @ [c]) = Present (FileN d) \<and>
     in_dir t (root_real V @ up) \<and> t ((root_real V @ up) @ [c]) = Some (FileN d)"

lemma find_file_found:
  assumes root: "good_root t (root_real V)" and found: "find_file V t s = Inr d"
  shows "\<exists>up c. found_at V t s d up c"
proof -
  from found have public: "public_path s" and status: "status_at V t s = Present (FileN d)"
    by (simp_all add: find_file_Inr)
  have ne: "relative_parts s \<noteq> []"
    using public by (simp add: public_path_def safe_path_parts_nonempty)
  obtain up c where place: "relative_parts s = up @ [c]" "in_dir t (root_real V @ up)"
      "t ((root_real V @ up) @ [c]) = Some (FileN d)"
    using root status ne by (rule present_file_place)
  moreover have "path_status t (root_real V) up = Present DirN"
    using status place(1) path_status_parent by metis
  ultimately show ?thesis
    using public status unfolding found_at_def by metis
qed

lemma found_resolve_runs:
  assumes "good_root t (root_real V)" "found_at V t s d up c"
  shows "runs (resolve_existing V s) t k (Inr (s, (root_real V @ up) @ [c])) t k"
proof -
  have "validate_public_path s = Inr s" "lookup_file V t s = Inr d"
    using assms(2) by (simp_all add: found_at_def validate_public_Inr lookup_file_Inr)
  then show ?thesis
    using resolve_existing_runs [OF assms(1), of s k] assms(2) by (simp add: found_at_def)
qed

lemma found_read_outcome:
  assumes "found_at V t s d up c"
  shows "read_outcome L V t s = (if max_file_bytes V < length d
           then Inl (VaultError FileTooLarge None) else Inr (d, sha256_bytes L d))"
proof -
  have "validate_public_path s = Inr s" "lookup_file V t s = Inr d"
    using assms by (simp_all add: found_at_def validate_public_Inr lookup_file_Inr)
  then show ?thesis by (simp add: read_outcome_def)
qed

lemma found_snapshot_runs:
  assumes "good_root t (root_real V)" "found_at V t s d up c"
  shows "runs (snapshot L V s ((root_real V @ up) @ [c])) t k (if max_file_bytes V < length d
           then Inl (VaultError FileTooLarge None) else Inr (d, sha256_bytes L d)) t k"
  using snapshot_runs [OF assms(1), of "up @ [c]" d L s k] assms(2) by (simp add: found_at_def)

lemma found_safe_runs:
  assumes "good_root t (root_real V)" "found_at V t s d up c"
  shows "runs (assert_safe_existing (root_real V) ((root_real V @ up) @ [c]) (Some s)) t k
           (Inr (FileN d)) t k"
  using safe_present_runs [OF assms(1), of "up @ [c]" "FileN d" "Some s" k] assms(2)
  by (simp add: found_at_def)

lemma found_read_runs:
  assumes "good_root t (root_real V)" "found_at V t s d up c"
  shows "runs (read_limited ((root_real V @ up) @ [c]) m) t k
           (if m < length d then Inl (VaultError FileTooLarge None) else Inr d) t k"
  using read_limited_runs [OF assms(1), of "up @ [c]" d m k] assms(2) by (simp add: found_at_def)

text \<open>Entries elsewhere do not disturb what was found.\<close>

lemma found_at_upd:
  assumes "found_at V t s d up c" "\<not> prefix q (full_path V s)" "q \<noteq> []"
  shows "found_at V (t(q := x)) s d up c"
proof -
  have q: "\<not> prefix q (root_real V @ up @ [c])"
    using assms by (simp add: found_at_def)
  then have "\<not> prefix q (root_real V @ up)" by (metis append.assoc prefix_prefix)
  with q assms(1,3) show ?thesis
    unfolding found_at_def
    by (simp add: path_status_upd in_dir_snoc [of _ _ c] clean_upd)
       (metis prefix_order.less_imp_le prefix_order.refl)
qed

lemma found_at_new:
  assumes "found_at V t s d up c"
  shows "found_at V (t((root_real V @ up) @ [c] \<mapsto> FileN d')) s d' up c"
proof -
  have "path_status (t((root_real V @ up) @ [c] \<mapsto> FileN d')) (root_real V) up = Present DirN"
    using assms by (subst path_status_upd) (auto simp: found_at_def dest: prefix_length_le)
  with assms show ?thesis
    by (simp add: found_at_def path_status_snoc del: append_assoc)
qed

text \<open>
  The name the next temporary file is going to get is free. The random digits make it so; the
  theorems name it where it matters.
\<close>

definition temp_free :: "vault_cfg \<Rightarrow> tree \<Rightarrow> (nat \<Rightarrow> pystr) \<Rightarrow> pystr \<Rightarrow> bool" where
  "temp_free V t k s \<longleftrightarrow>
     t (butlast (full_path V s) @ [temp_name (k 0)]) = None \<and>
     last (full_path V s) \<noteq> temp_name (k 0)"

definition write_outcome ::
  "pylib \<Rightarrow> vault_cfg \<Rightarrow> tree \<Rightarrow> pystr \<Rightarrow> bytes \<Rightarrow> pystr option \<Rightarrow> vault_error + file_response" where
  "write_outcome L V t s data expected =
     (if max_file_bytes V < length data then Inl (VaultError FileTooLarge (Some s))
      else
        rbind (read_outcome L V t s) (\<lambda>(d, h).
        rbind (require_expected_hash L s expected) (\<lambda>e.
        if e \<noteq> h then Inl (VaultError FileConflict (Some s))
        else Inr \<lparr>resp_path = s, resp_sha256 = Some (sha256_bytes L data),
                  resp_byte_length = Some (length data), resp_operation = OpUpdated\<rparr>)))"

definition after_ok :: "'e + 'a \<Rightarrow> 'b \<Rightarrow> 'b \<Rightarrow> 'b" where
  "after_ok r x y = (case r of Inl _ \<Rightarrow> y | Inr _ \<Rightarrow> x)"

lemma after_ok_simps [simp]: "after_ok (Inl e) x y = y" "after_ok (Inr a) x y = x"
  by (simp_all add: after_ok_def)

lemma recheck_runs:
  assumes "good_root t (root_real V)" "found_at V t s d up c"
    and "length d \<le> max_file_bytes V" "before_replace_hook V = None"
  shows "runs (recheck_before_replace L V s ((root_real V @ up) @ [c]) (sha256_bytes L d)) t k
           (Inr ()) t k"
proof -
  have snap: "runs (snapshot L V s ((root_real V @ up) @ [c])) t k (Inr (d, sha256_bytes L d)) t k"
    using found_snapshot_runs [OF assms(1,2), of L k] assms(3) by simp
  show ?thesis
    unfolding recheck_before_replace_def using assms(4)
    by (auto simp del: append_assoc intro!: runs_seq [OF found_safe_runs [OF assms(1,2)]]
        runs_seq [OF snap] runs_seq [OF runs_ret] runs_ret)
qed

lemma write_bytes_runs:
  assumes root: "good_root t (root_real V)" and hook: "before_replace_hook V = None"
    and temp: "temp_free V t k s"
  shows "runs (write_bytes L V s data expected) t k (write_outcome L V t s data expected)
           (after_ok (write_outcome L V t s data expected) (t(full_path V s \<mapsto> FileN data)) t)
           (after_ok (write_outcome L V t s data expected) (\<lambda>i. k (Suc i)) k)"
proof (cases "max_file_bytes V < length data")
  case True
  then show ?thesis by (simp add: write_bytes_def write_outcome_def runs_verr)
next
  case small: False
  show ?thesis
  proof (cases "find_file V t s")
    case (Inl e)
    with find_file_Inl [of V t s e] root small show ?thesis
      by (simp add: write_bytes_def write_outcome_def runs_seq_Inl)
  next
    case (Inr d)
    then obtain up c where found: "found_at V t s d up c"
      using find_file_found [OF root] by blast
    note resolved = found_resolve_runs [OF root found, of k]
      and snap = found_snapshot_runs [OF root found, of L k]
      and read = found_read_outcome [OF found, of L]
    have place: "relative_parts s = up @ [c]" "in_dir t (root_real V @ up)"
        "t ((root_real V @ up) @ [c]) = Some (FileN d)"
      using found by (simp_all add: found_at_def)
    have not_dir: "t ((root_real V @ up) @ [c]) \<noteq> Some DirN"
      using place(3) by simp
    let ?p = "root_real V @ up"
    let ?t1 = "t(?p @ [temp_name (k 0)] \<mapsto> FileN data)"
    let ?t2 = "t(?p @ [c] \<mapsto> FileN data)"
    have path: "full_path V s = ?p @ [c]" using place by simp
    have free: "t (?p @ [temp_name (k 0)]) = None" "temp_name (k 0) \<noteq> c"
      using temp path by (auto simp: temp_free_def butlast_append)
    show ?thesis
    proof (cases "max_file_bytes V < length d \<or> (\<exists>e. require_expected_hash L s expected = Inl e)
        \<or> require_expected_hash L s expected \<noteq> Inr (sha256_bytes L d)")
      case True
      then show ?thesis
        using small read
        by (cases "require_expected_hash L s expected")
          (auto simp: write_bytes_def write_outcome_def act_norm intro!: runs_seq [OF resolved]
            runs_seqI [OF snap] run_intros)
    next
      case False
      then have fits: "length d \<le> max_file_bytes V"
        and expected: "require_expected_hash L s expected = Inr (sha256_bytes L d)"
        by (auto simp: not_less)
      have found1: "found_at V ?t1 s d up c"
        using free path by (intro found_at_upd [OF found]) auto
      have root1: "good_root ?t1 (root_real V)"
        using free by (intro good_root_upd [OF root place(2)]) simp
      have hook': "runs (recheck_before_replace L V s (?p @ [c]) (sha256_bytes L d)) ?t1 k' (Inr ()) ?t1 k'" for k'
        using recheck_runs [OF root1 found1 fits hook, of L k'] by simp
      have replaced: "runs (atomic_replace_bytes (?p @ [c]) data
          (recheck_before_replace L V s (?p @ [c]) (sha256_bytes L d))) t k (Inr ()) ?t2 (\<lambda>i. k (Suc i))"
        unfolding atomic_replace_bytes_def
        by (rule replace_write_runs [where k = k, OF place(2) free not_dir hook'])
      have root2: "good_root ?t2 (root_real V)"
        by (rule good_root_upd [OF root place(2) not_dir])
      note found2 = found_at_new [OF found, of data]
      note safe = found_safe_runs [OF root2 found2]
      have final: "runs (read_limited (?p @ [c]) (max_file_bytes V)) ?t2 k' (Inr data) ?t2 k'" for k'
        using found_read_runs [OF root2 found2, of "max_file_bytes V" k'] small by simp
      have snap': "runs (snapshot L V s (?p @ [c])) t k (Inr (d, sha256_bytes L d)) t k"
        using snap fits by simp
      have "write_outcome L V t s data expected =
          Inr \<lparr>resp_path = s, resp_sha256 = Some (sha256_bytes L data),
               resp_byte_length = Some (length data), resp_operation = OpUpdated\<rparr>"
        using small read fits expected by (simp add: write_outcome_def)
      then show ?thesis
        unfolding write_bytes_def path using small expected
        by (auto simp: act_norm simp del: append_assoc intro!: runs_seq [OF resolved] runs_seq [OF snap']
            runs_seq [OF replaced] runs_seq [OF safe] runs_seq [OF final] runs_ret)
    qed
  qed
qed

definition delete_outcome ::
  "pylib \<Rightarrow> vault_cfg \<Rightarrow> tree \<Rightarrow> pystr \<Rightarrow> pystr option \<Rightarrow> vault_error + file_response" where
  "delete_outcome L V t s expected =
     rbind (read_outcome L V t s) (\<lambda>(d, h).
     rbind (require_expected_hash L s expected) (\<lambda>e.
     if e \<noteq> h then Inl (VaultError FileConflict (Some s))
     else Inr \<lparr>resp_path = s, resp_sha256 = None, resp_byte_length = None,
               resp_operation = OpDeleted\<rparr>))"

lemma delete_file_runs:
  assumes root: "good_root t (root_real V)"
  shows "runs (delete_file L V s expected) t k (delete_outcome L V t s expected)
           (after_ok (delete_outcome L V t s expected) (t(full_path V s := None)) t) k"
proof (cases "find_file V t s")
  case (Inl e)
  with find_file_Inl [of V t s e] root show ?thesis
    by (simp add: delete_file_def delete_outcome_def runs_seq_Inl)
next
  case (Inr d)
  then obtain up c where found: "found_at V t s d up c"
    using find_file_found [OF root] by blast
  note resolved = found_resolve_runs [OF root found, of k]
    and snap = found_snapshot_runs [OF root found, of L k]
    and read = found_read_outcome [OF found, of L]
    and safe = found_safe_runs [OF root found, of k]
  have path: "full_path V s = (root_real V @ up) @ [c]"
    and place: "in_dir t (root_real V @ up)" "t ((root_real V @ up) @ [c]) = Some (FileN d)"
    using found by (simp_all add: found_at_def)
  have gone: "runs (os_unlink ((root_real V @ up) @ [c])) t k (Inr ())
      (t((root_real V @ up) @ [c] := None)) k"
    using unlink_runs [OF place] by simp
  show ?thesis
    unfolding delete_file_def delete_outcome_def read path
    by (cases "require_expected_hash L s expected")
      (auto simp: act_norm simp del: append_assoc intro!: runs_seq [OF resolved] runs_seqI [OF snap]
        runs_seq [OF safe] runs_elseI [OF gone] run_intros)
qed

text \<open>A place for a new entry: the parent is a directory and the leaf is missing.\<close>

definition find_place :: "vault_cfg \<Rightarrow> tree \<Rightarrow> pystr \<Rightarrow> vault_error + unit" where
  "find_place V t s =
     rbind (validate_public_path s) (\<lambda>_.
     rbind (parent_outcome t (root_real V) s) (\<lambda>_.
     check (status_at V t s = Missing) (VaultError AlreadyExists (Some s))))"

definition place_at :: "vault_cfg \<Rightarrow> tree \<Rightarrow> pystr \<Rightarrow> fpath \<Rightarrow> name \<Rightarrow> bool" where
  "place_at V t s up c \<longleftrightarrow>
     public_path s \<and> relative_parts s = up @ [c] \<and>
     path_status t (root_real V) up = Present DirN \<and> in_dir t (root_real V @ up)"

lemma parent_outcome_Inr:
  assumes root: "good_root t (root_real V)" and public: "public_path s"
    and ok: "parent_outcome t (root_real V) s = Inr r"
  shows "\<exists>up c. place_at V t s up c \<and> r = (s, root_real V @ up, (root_real V @ up) @ [c]) \<and>
           (\<forall>target. t ((root_real V @ up) @ [c]) \<noteq> Some (LinkN target))"
proof -
  have "relative_parts s \<noteq> []"
    using public by (simp add: public_path_def safe_path_parts_nonempty)
  then obtain up c where cs: "relative_parts s = up @ [c]"
    using rev_exhaust by blast
  obtain p p' where outs: "resolve_outcome (path_status t (root_real V) up) (root_real V @ up)
        (Some (relative_display up)) False True False = Inr p"
      "resolve_outcome (status_at V t s) (full_path V s) (Some s) True False False = Inr p'"
      and r: "r = (s, root_real V @ up, (root_real V @ up) @ [c])"
    using ok cs by (auto simp: parent_outcome_def rbind_eq_Inr Let_def)
  then have up: "path_status t (root_real V) up = Present DirN"
    by (cases "path_status t (root_real V) up") (auto split: if_splits)
  moreover have "in_dir t (root_real V @ up)"
    using path_status_dir [OF root up] .
  moreover have "t ((root_real V @ up) @ [c]) \<noteq> Some (LinkN target)" for target
    using outs(2) cs by (auto simp: path_status_snoc [OF up] split: option.splits)
  ultimately show ?thesis
    using cs public r unfolding place_at_def by blast
qed

lemma resolve_place_runs:
  assumes root: "good_root t (root_real V)"
  shows "runs (resolve_parent_and_target V s) t k
     (rbind (validate_public_path s) (\<lambda>_. parent_outcome t (root_real V) s)) t k"
proof (cases "validate_public_path s")
  case (Inl e)
  then show ?thesis by (auto simp: resolve_parent_and_target_def act_norm intro!: runs_raise)
next
  case (Inr r)
  then have public: "r = s" "public_path s" by (auto simp: validate_public_Inr)
  note parent = resolve_parent_runs [OF root, of s k]
  show ?thesis
  proof (cases "parent_outcome t (root_real V) s")
    case (Inl e)
    with parent public Inr show ?thesis
      by (simp add: resolve_parent_and_target_def act_norm public_path_def runs_seq_Inl)
  next
    case out: (Inr out)
    then obtain up c where place: "place_at V t s up c"
        "out = (s, root_real V @ up, (root_real V @ up) @ [c])"
      using parent_outcome_Inr [OF root public(2)] by blast
    then have "runs (assert_parent V (root_real V @ up)) t k (Inr DirN) t k"
      unfolding assert_parent_def place_at_def
      using safe_present_runs [OF root, of up DirN] by simp
    with place parent public Inr out show ?thesis
      by (auto simp: resolve_parent_and_target_def act_norm public_path_def
          intro!: runs_seq run_intros)
  qed
qed

lemma place_parent_runs:
  "good_root t (root_real V) \<Longrightarrow> place_at V t s up c \<Longrightarrow>
     runs (assert_parent V (root_real V @ up)) t k (Inr DirN) t k"
  unfolding assert_parent_def place_at_def
  using safe_present_runs [of t "root_real V" up DirN] by simp

lemma place_status:
  "place_at V t s up c \<Longrightarrow> status_at V t s = (case t ((root_real V @ up) @ [c]) of
     None \<Rightarrow> Missing | Some (LinkN _) \<Rightarrow> Linked | Some n \<Rightarrow> Present n)"
  by (simp add: place_at_def path_status_snoc)

lemma require_absent_runs:
  assumes "place_at V t s up c" "\<forall>target. t ((root_real V @ up) @ [c]) \<noteq> Some (LinkN target)"
  shows "runs (require_absent ((root_real V @ up) @ [c]) s) t k
           (check (status_at V t s = Missing) (VaultError AlreadyExists (Some s))) t k"
proof -
  have clean: "clean t ((root_real V @ up) @ [c])"
    using assms(1) in_dir_snoc unfolding place_at_def by blast
  show ?thesis
    unfolding require_absent_def using assms
    by (auto simp: place_status check_def is_symlink_def simp del: append_assoc
        intro!: runs_elseI [OF runs_lstat_clean [OF clean]] run_intros
        split: option.split node.split)
qed

lemma place_filled:
  assumes "place_at V t s up c"
  shows "path_status (t((root_real V @ up) @ [c] := x)) (root_real V) up = Present DirN"
  using assms by (subst path_status_upd) (auto simp: place_at_def dest: prefix_length_le)

lemma place_found:
  assumes "place_at V t s up c"
  shows "found_at V (t((root_real V @ up) @ [c] \<mapsto> FileN d)) s d up c"
  using place_filled [OF assms] assms
  by (simp add: found_at_def place_at_def path_status_snoc del: append_assoc)

lemma find_place_cases:
  assumes root: "good_root t (root_real V)"
  obtains (refused) e where "rbind (validate_public_path s) (\<lambda>_. parent_outcome t (root_real V) s) = Inl e"
      "find_place V t s = Inl e"
  | (place) up c where "place_at V t s up c"
      "rbind (validate_public_path s) (\<lambda>_. parent_outcome t (root_real V) s) =
         Inr (s, root_real V @ up, (root_real V @ up) @ [c])"
      "\<forall>target. t ((root_real V @ up) @ [c]) \<noteq> Some (LinkN target)"
      "find_place V t s =
         check (t ((root_real V @ up) @ [c]) = None) (VaultError AlreadyExists (Some s))"
proof (cases "rbind (validate_public_path s) (\<lambda>_. parent_outcome t (root_real V) s)")
  case (Inl e)
  then show thesis
    by (intro refused) (auto simp: find_place_def rbind_def split: sum.splits)
next
  case (Inr r)
  then have public: "public_path s" and "parent_outcome t (root_real V) s = Inr r"
    by (auto simp: rbind_eq_Inr validate_public_Inr)
  then obtain up c where p: "place_at V t s up c" "r = (s, root_real V @ up, (root_real V @ up) @ [c])"
      "\<forall>target. t ((root_real V @ up) @ [c]) \<noteq> Some (LinkN target)"
    using parent_outcome_Inr [OF root] by blast
  show thesis
  proof (rule place [OF p(1) _ p(3)])
    show "find_place V t s =
         check (t ((root_real V @ up) @ [c]) = None) (VaultError AlreadyExists (Some s))"
      using Inr p(3) place_status [OF p(1)]
      by (auto simp: find_place_def rbind_eq_Inr check_def simp del: append_assoc
          split: option.splits node.splits)
  qed (use Inr p(2) in simp)
qed

definition create_outcome ::
  "pylib \<Rightarrow> vault_cfg \<Rightarrow> tree \<Rightarrow> pystr \<Rightarrow> bytes \<Rightarrow> vault_error + file_response" where
  "create_outcome L V t s data =
     (if max_file_bytes V < length data then Inl (VaultError FileTooLarge (Some s))
      else rbind (find_place V t s) (\<lambda>_.
        Inr \<lparr>resp_path = s, resp_sha256 = Some (sha256_bytes L data),
             resp_byte_length = Some (length data), resp_operation = OpCreated\<rparr>))"

lemma create_bytes_runs:
  assumes root: "good_root t (root_real V)" and temp: "temp_free V t k s"
  shows "runs (create_bytes L V s data) t k (create_outcome L V t s data)
           (after_ok (create_outcome L V t s data) (t(full_path V s \<mapsto> FileN data)) t)
           (after_ok (create_outcome L V t s data) (\<lambda>i. k (Suc i)) k)"
proof (cases "max_file_bytes V < length data")
  case True
  then show ?thesis by (simp add: create_bytes_def create_outcome_def runs_verr)
next
  case small: False
  note resolved = resolve_place_runs [OF root, of s k]
  from root show ?thesis
  proof (cases rule: find_place_cases [where s = s])
    case (refused e)
    with resolved small show ?thesis
      by (simp add: create_bytes_def create_outcome_def runs_seq_Inl)
  next
    case (place up c)
    let ?p = "root_real V @ up"
    let ?t' = "t(?p @ [c] \<mapsto> FileN data)"
    have path: "full_path V s = ?p @ [c]" and dir: "in_dir t ?p"
      using place(1) by (simp_all add: place_at_def)
    note resolved' = resolved [unfolded place(2)]
      and parent = place_parent_runs [OF root place(1), of k]
      and absent = require_absent_runs [OF place(1,3), of k]
    show ?thesis
    proof (cases "t (?p @ [c])")
      case (Some n)
      then have "find_place V t s = Inl (VaultError AlreadyExists (Some s))"
        and "status_at V t s \<noteq> Missing"
        using place(3) by (auto simp: place(4) place_status [OF place(1)] simp del: append_assoc
            split: node.split)
      moreover from this absent have "runs (require_absent (?p @ [c]) s) t k
          (Inl (VaultError AlreadyExists (Some s))) t k"
        by simp
      ultimately show ?thesis
        unfolding create_bytes_def create_outcome_def using small
        by (auto simp del: append_assoc intro!: runs_seq [OF resolved'] runs_seq [OF parent]
            intro: runs_seq_Inl)
    next
      case None
      have free: "t (?p @ [temp_name (k 0)]) = None" "temp_name (k 0) \<noteq> c"
        using temp path by (auto simp: temp_free_def butlast_append)
      have ok: "find_place V t s = Inr ()" and "status_at V t s = Missing"
        using None by (simp_all add: place(4) place_status [OF place(1)] del: append_assoc)
      then have absent': "runs (require_absent (?p @ [c]) s) t k (Inr ()) t k"
        using absent by simp
      have created: "runs (atomic_create_bytes (?p @ [c]) data) t k (Inr ()) ?t' (\<lambda>i. k (Suc i))"
        using create_write_runs [where k = k, OF dir free, of data True] None
        by (simp add: atomic_create_bytes_def del: append_assoc)
      have root': "good_root ?t' (root_real V)"
        using None by (intro good_root_upd [OF root dir]) simp
      note safe = found_safe_runs [OF root' place_found [OF place(1)]]
      show ?thesis
        unfolding create_bytes_def create_outcome_def path using small ok
        by (auto simp del: append_assoc intro!: runs_seq [OF resolved'] runs_seq [OF parent]
            runs_seq [OF absent'] runs_seq [OF runs_try_Inr [OF created]] runs_seq [OF safe] runs_ret)
    qed
  qed
qed

definition mkdir_outcome :: "vault_cfg \<Rightarrow> tree \<Rightarrow> pystr \<Rightarrow> vault_error + file_response" where
  "mkdir_outcome V t s =
     rbind (find_place V t s) (\<lambda>_.
       Inr \<lparr>resp_path = s, resp_sha256 = None, resp_byte_length = None, resp_operation = OpCreated\<rparr>)"

lemma create_directory_runs:
  assumes root: "good_root t (root_real V)"
  shows "runs (create_directory V s) t k (mkdir_outcome V t s)
           (after_ok (mkdir_outcome V t s) (t(full_path V s \<mapsto> DirN)) t) k"
proof -
  note resolved = resolve_place_runs [OF root, of s k]
  from root show ?thesis
  proof (cases rule: find_place_cases [where s = s])
    case (refused e)
    with resolved show ?thesis
      by (simp add: create_directory_def mkdir_outcome_def runs_seq_Inl)
  next
    case (place up c)
    let ?p = "root_real V @ up"
    let ?t' = "t(?p @ [c] \<mapsto> DirN)"
    have path: "full_path V s = ?p @ [c]" and dir: "in_dir t ?p"
      using place(1) by (simp_all add: place_at_def)
    note resolved' = resolved [unfolded place(2)]
      and parent = place_parent_runs [OF root place(1), of k]
      and absent = require_absent_runs [OF place(1,3), of k]
    show ?thesis
    proof (cases "t (?p @ [c])")
      case (Some n)
      then have "find_place V t s = Inl (VaultError AlreadyExists (Some s))"
        and "status_at V t s \<noteq> Missing"
        using place(3) by (auto simp: place(4) place_status [OF place(1)] simp del: append_assoc
            split: node.split)
      moreover from this absent have "runs (require_absent (?p @ [c]) s) t k
          (Inl (VaultError AlreadyExists (Some s))) t k"
        by simp
      ultimately show ?thesis
        unfolding create_directory_def mkdir_outcome_def
        by (auto simp del: append_assoc intro!: runs_seq [OF resolved'] runs_seq [OF parent]
            intro: runs_seq_Inl)
    next
      case None
      have ok: "find_place V t s = Inr ()" and "status_at V t s = Missing"
        using None by (simp_all add: place(4) place_status [OF place(1)] del: append_assoc)
      then have absent': "runs (require_absent (?p @ [c]) s) t k (Inr ()) t k"
        using absent by simp
      note made = mkdir_runs [OF dir None, of k]
      have root': "good_root ?t' (root_real V)"
        using None by (intro good_root_upd [OF root dir]) simp
      have "path_status ?t' (root_real V) (up @ [c]) = Present DirN"
        using place_filled [OF place(1)] by (simp add: path_status_snoc del: append_assoc)
      then have safe: "runs (assert_safe_existing (root_real V) (?p @ [c]) (Some s)) ?t' k (Inr DirN) ?t' k"
        using safe_present_runs [OF root', of "up @ [c]" DirN "Some s" k] by simp
      show ?thesis
        unfolding create_directory_def mkdir_outcome_def path using ok
        by (auto simp del: append_assoc intro!: runs_seq [OF resolved'] runs_seq [OF parent]
            runs_seq [OF absent'] runs_seq [OF runs_try_Inr [OF made]] runs_seq [OF safe] runs_ret)
    qed
  qed
qed

definition move_outcome ::
  "pylib \<Rightarrow> vault_cfg \<Rightarrow> tree \<Rightarrow> pystr \<Rightarrow> pystr \<Rightarrow> pystr option \<Rightarrow> vault_error + file_response" where
  "move_outcome L V t src dst expected =
     rbind (find_file V t src) (\<lambda>d.
     rbind (rbind (validate_public_path dst) (\<lambda>_. parent_outcome t (root_real V) dst)) (\<lambda>_.
     if src = dst then Inl (VaultError InvalidOperation (Some src))
     else if max_file_bytes V < length d then Inl (VaultError FileTooLarge None)
     else rbind (require_expected_hash L src expected) (\<lambda>e.
       if e \<noteq> sha256_bytes L d then Inl (VaultError FileConflict (Some src))
       else rbind (find_place V t dst) (\<lambda>_.
         Inr \<lparr>resp_path = dst, resp_sha256 = Some (sha256_bytes L d),
              resp_byte_length = Some (length d), resp_operation = OpMoved\<rparr>))))"

lemma found_not_below_file:
  assumes "found_at V t s d up c" "q \<noteq> []" "t q \<noteq> Some DirN" "q \<noteq> full_path V s"
  shows "\<not> prefix q (full_path V s)"
proof
  assume "prefix q (full_path V s)"
  then have "strict_prefix q ((root_real V @ up) @ [c])"
    using assms by (simp add: found_at_def strict_prefix_def)
  moreover have "clean t ((root_real V @ up) @ [c])"
    using assms(1) in_dir_snoc unfolding found_at_def by blast
  ultimately show False
    using assms(2,3) clean_node by (metis node_at_def)
qed

lemma move_file_runs:
  assumes root: "good_root t (root_real V)"
  shows "runs (move_file L V src dst expected) t k (move_outcome L V t src dst expected)
           (after_ok (move_outcome L V t src dst expected)
              ((t(full_path V dst := t (full_path V src)))(full_path V src := None)) t) k"
proof (cases "find_file V t src")
  case (Inl e)
  with find_file_Inl [of V t src e] root show ?thesis
    by (simp add: move_file_def move_outcome_def runs_seq_Inl)
next
  case (Inr d)
  then obtain up c where found: "found_at V t src d up c"
    using find_file_found [OF root] by blast
  let ?s = "(root_real V @ up) @ [c]"
  note resolved = found_resolve_runs [OF root found, of k]
    and snap = found_snapshot_runs [OF root found, of L k]
    and safe = found_safe_runs [OF root found, of k]
  have spath: "full_path V src = ?s" and sdir: "in_dir t (root_real V @ up)"
    and snode: "t ?s = Some (FileN d)"
    using found by (simp_all add: found_at_def)
  note place = resolve_place_runs [OF root, of dst k]
  from root show ?thesis
  proof (cases rule: find_place_cases [where s = dst])
    case (refused e)
    with place Inr show ?thesis
      unfolding move_file_def move_outcome_def
      by (auto simp del: append_assoc intro!: runs_seq [OF resolved] intro: runs_seq_Inl)
  next
    case (place dup dc)
    let ?d = "(root_real V @ dup) @ [dc]"
    have dpath: "full_path V dst = ?d" and ddir: "in_dir t (root_real V @ dup)"
      using place(1) by (simp_all add: place_at_def)
    note placed = resolve_place_runs [OF root, of dst k, unfolded place(2)]
      and parent = place_parent_runs [OF root place(1), of k]
      and absent = require_absent_runs [OF place(1,3), of k]
    let ?resp = "\<lparr>resp_path = dst, resp_sha256 = Some (sha256_bytes L d),
              resp_byte_length = Some (length d), resp_operation = OpMoved\<rparr>"
    show ?thesis
    proof (cases "src = dst \<or> max_file_bytes V < length d \<or>
        require_expected_hash L src expected \<noteq> Inr (sha256_bytes L d)")
      case True
      show ?thesis
      proof (cases "src = dst")
        case True
        have out: "move_outcome L V t src dst expected = Inl (VaultError InvalidOperation (Some src))"
          using True Inr place(2) by (simp add: move_outcome_def)
        show ?thesis
          unfolding move_file_def out
          by (rule runs_seq [OF resolved], simp only: prod.case, rule runs_seq [OF placed])
            (simp only: prod.case if_P [OF True] after_ok_simps runs_verr)
      next
        case False
        with \<open>src = dst \<or> _\<close> show ?thesis
          unfolding move_file_def move_outcome_def Inr place(2)
          by (cases "require_expected_hash L src expected")
            (auto simp: act_norm simp del: append_assoc intro!: runs_seq [OF resolved]
              runs_seq [OF placed] runs_seqI [OF snap] run_intros)
      qed
    next
      case False
      then have neq: "src \<noteq> dst" and fits: "length d \<le> max_file_bytes V"
        and expected: "require_expected_hash L src expected = Inr (sha256_bytes L d)"
        by (auto simp: not_less)
      have snap': "runs (snapshot L V src ?s) t k (Inr (d, sha256_bytes L d)) t k"
        using snap fits by simp
      show ?thesis
      proof (cases "t ?d")
        case (Some n)
        then have refuse: "find_place V t dst = Inl (VaultError AlreadyExists (Some dst))"
          and "status_at V t dst \<noteq> Missing"
          using place(3) by (auto simp: place(4) place_status [OF place(1)] simp del: append_assoc
              split: node.split)
        then have taken: "runs (require_absent ?d dst) t k (Inl (VaultError AlreadyExists (Some dst))) t k"
          using absent by simp
        show ?thesis
          unfolding move_file_def move_outcome_def Inr place(2)
          using neq fits expected refuse
          by (auto simp: seq_lift simp del: append_assoc intro!: runs_seq [OF resolved]
              runs_seq [OF placed] runs_seq [OF snap'] runs_seq [OF parent] runs_seq_Inl [OF taken])
      next
        case None
        have ok: "find_place V t dst = Inr ()" and "status_at V t dst = Missing"
          using None by (simp_all add: place(4) place_status [OF place(1)] del: append_assoc)
        then have absent': "runs (require_absent ?d dst) t k (Inr ()) t k"
          using absent by simp
        let ?t1 = "t(?d \<mapsto> FileN d)"
        let ?t2 = "?t1(?s := None)"
        have sd: "?s \<noteq> ?d" using None snode by auto
        have root1: "good_root ?t1 (root_real V)"
          using None by (intro good_root_upd [OF root ddir]) simp
        have found1: "found_at V ?t1 src d up c"
          using found_not_below_file [OF found, of ?d] None sd spath
          by (intro found_at_upd [OF found]) (auto simp del: append_assoc)
        note placed1 = place_found [OF place(1), of d]
        have sdir1: "in_dir ?t1 (root_real V @ up)" and snode1: "?t1 ?s = Some (FileN d)"
          using found1 by (simp_all add: found_at_def)
        have root2: "good_root ?t2 (root_real V)"
          using snode1 by (intro good_root_upd [OF root1 sdir1]) simp
        have placed2: "found_at V ?t2 dst d dup dc"
          using found_not_below_file [OF placed1, of ?s] snode1 sd dpath
          by (intro found_at_upd [OF placed1]) (auto simp del: append_assoc)
        have linked: "runs (os_link ?s ?d) t k (Inr ()) ?t1 k"
          using link_runs [OF sdir ddir snode _ None] by simp
        have unlinked: "runs (os_unlink ?s) ?t1 k (Inr ()) ?t2 k"
          by (rule unlink_runs [OF sdir1 snode1]) simp
        have dsnap: "runs (snapshot L V dst ?d) ?t1 k (Inr (d, sha256_bytes L d)) ?t1 k"
          and ssnap: "runs (snapshot L V src ?s) ?t1 k (Inr (d, sha256_bytes L d)) ?t1 k"
          using found_snapshot_runs [OF root1 placed1, of L k] found_snapshot_runs [OF root1 found1, of L k]
            fits by simp_all
        have final: "runs (read_limited ?d (max_file_bytes V)) ?t2 k (Inr d) ?t2 k"
          using found_read_runs [OF root2 placed2, of "max_file_bytes V" k] fits by simp
        have verified: "runs (try_except
              (seq (assert_safe_existing (root_real V) ?d (Some dst)) (\<lambda>_.
               seq (snapshot L V dst ?d) (\<lambda>(_, destination_hash).
               if destination_hash \<noteq> sha256_bytes L d then verr FileConflict (Some src)
               else
                 seq (snapshot L V src ?s) (\<lambda>(_, source_hash).
                 if source_hash \<noteq> sha256_bytes L d then verr FileConflict (Some src)
                 else try_except (os_unlink ?s) (\<lambda>e. raise UncaughtOSError)))))
              (\<lambda>e. seq (discard_temp ?d) (\<lambda>_. raise e))) ?t1 k (Inr ()) ?t2 k"
          by (rule runs_try_Inr)
            (auto simp del: append_assoc intro!: runs_seq [OF found_safe_runs [OF root1 placed1]]
              runs_seq [OF dsnap] runs_seq [OF ssnap] runs_try_Inr [OF unlinked])
        have "t (full_path V src) = Some (FileN d)" using snode spath by simp
        then have tree: "(t(full_path V dst := t (full_path V src)))(full_path V src := None) = ?t2"
          by (simp only: spath dpath)
        show ?thesis
          unfolding tree move_file_def move_outcome_def Inr place(2)
          using neq fits expected ok
          by (auto simp: seq_lift simp del: append_assoc intro!: runs_seq [OF resolved]
              runs_seq [OF placed] runs_seq [OF snap'] runs_seq [OF parent] runs_seq [OF absent']
              runs_seq [OF safe] runs_seq [OF runs_try_Inr [OF linked]] runs_seq [OF verified]
              runs_seq [OF final] runs_ret)
      qed
    qed
  qed
qed

section \<open>Compare and swap under interference\<close>

text \<open>
  \<open>guarded path G tr\<close>, over a trace with the newest call first: whenever a \<^verbatim>\<open>replace\<close> of
  \<open>path\<close> succeeded, the last successful read of \<open>path\<close> before it had seen content satisfying \<open>G\<close>.
\<close>

definition last_read_ok :: "fpath \<Rightarrow> (bytes \<Rightarrow> bool) \<Rightarrow> (sysop \<times> bool \<times> tree) list \<Rightarrow> bool" where
  "last_read_ok path G tr =
     (case find (\<lambda>(c, ok, _). c = Read path \<and> ok) tr of
        None \<Rightarrow> False
      | Some (_, _, t) \<Rightarrow> (case read_tree path t of Inr d \<Rightarrow> G d | Inl _ \<Rightarrow> False))"

fun guarded :: "fpath \<Rightarrow> (bytes \<Rightarrow> bool) \<Rightarrow> (sysop \<times> bool \<times> tree) list \<Rightarrow> bool" where
  "guarded path G [] \<longleftrightarrow> True"
| "guarded path G ((Replace p q, ok, t) # tr) \<longleftrightarrow> (ok \<longrightarrow> last_read_ok path G tr) \<and> guarded path G tr"
| "guarded path G (e # tr) \<longleftrightarrow> guarded path G tr"

definition swaps :: "fpath \<Rightarrow> (bytes \<Rightarrow> bool) \<Rightarrow> world \<Rightarrow> bool" where
  "swaps path G w \<longleftrightarrow> guarded path G (w_trace w)"

definition seen :: "fpath \<Rightarrow> (bytes \<Rightarrow> bool) \<Rightarrow> (bytes \<Rightarrow> bool) \<Rightarrow> world \<Rightarrow> bool" where
  "seen path G H w \<longleftrightarrow> guarded path G (w_trace w) \<and> last_read_ok path H (w_trace w)"

text \<open>A call that is neither a read nor a replace changes neither.\<close>

definition bystander :: "sysop \<Rightarrow> bool" where
  "bystander c \<longleftrightarrow> (case c of Read _ \<Rightarrow> False | Replace _ _ \<Rightarrow> False | _ \<Rightarrow> True)"

lemma tick_trace: "tick w = (f, w1) \<Longrightarrow> w_trace w1 = w_trace w"
  by (auto simp: tick_def split: list.splits)

lemma syscall_trace:
  "syscall c f w = (r, w') \<Longrightarrow> \<exists>t. w_trace w' = (c, \<not> isl r, t) # w_trace w \<and> w_tree w' = t"
  by (auto simp: syscall_def record_call_def split: prod.splits option.splits sum.splits dest: tick_trace)

lemma bystander_guarded [simp]: "bystander c \<Longrightarrow> guarded path G ((c, e) # tr) \<longleftrightarrow> guarded path G tr"
  by (cases c; cases e) (simp_all add: bystander_def)

lemma bystander_last_read [simp]: "bystander c \<Longrightarrow> last_read_ok path G ((c, e) # tr) \<longleftrightarrow> last_read_ok path G tr"
  by (cases c; cases e) (simp_all add: bystander_def last_read_ok_def)

lemma bystander_keeps_swaps [intro]: "bystander c \<Longrightarrow> keeps (swaps path G) (syscall c f)"
  unfolding keeps_def swaps_def by (metis bystander_guarded prod.collapse syscall_trace)

lemma bystander_keeps_seen [intro]: "bystander c \<Longrightarrow> keeps (seen path G H) (syscall c f)"
  unfolding keeps_def seen_def
  by (metis bystander_guarded bystander_last_read prod.collapse syscall_trace)

lemma looks_swaps [intro]: "looks (swaps path G)"
  unfolding looks_def os_lstat_def os_realpath_def
  by (auto simp: bystander_def intro!: bystander_keeps_swaps)

lemma looks_seen [intro]: "looks (seen path G H)"
  unfolding looks_def os_lstat_def os_realpath_def
  by (auto simp: bystander_def intro!: bystander_keeps_seen)

lemma read_seen:
  "hoare (swaps path G) (os_read path) (\<lambda>d. seen path G (\<lambda>x. x = d)) (\<lambda>_. swaps path G)"
proof (rule hoareI)
  fix w d w' assume w: "swaps path G w" and run: "os_read path w = (Inr d, w')"
  then obtain w1 where "tick w = (None, w1)" "read_tree path (w_tree w1) = Inr d"
      "w_trace w' = (Read path, True, w_tree w1) # w_trace w1"
    by (auto simp: os_read_def syscall_def query_def record_call_def
        split: prod.splits option.splits sum.splits)
  with tick_trace [of w None w1] w show "seen path G (\<lambda>x. x = d) w'"
    by (simp add: seen_def swaps_def last_read_ok_def)
next
  fix w e w' assume w: "swaps path G w" and run: "os_read path w = (Inl e, w')"
  then show "swaps path G w'"
    unfolding os_read_def swaps_def by (auto dest!: syscall_trace)
qed

lemma seen_swaps: "seen path G H w \<Longrightarrow> swaps path G w"
  by (simp add: seen_def swaps_def)

lemma keeps_hoare: "keeps P m \<Longrightarrow> (\<And>s. P s \<Longrightarrow> E s) \<Longrightarrow> hoare P m (\<lambda>_. P) (\<lambda>_. E)"
  unfolding hoare_keeps by (erule hoare_weaken) auto

lemma os_to_vault_keeps [intro]: "keeps P (os_to_vault e)"
  unfolding os_to_vault_def by auto

lemma read_limited_seen:
  "hoare (swaps path G) (read_limited path m) (\<lambda>d. seen path G (\<lambda>x. x = d)) (\<lambda>_. swaps path G)"
proof -
  have size: "keeps (swaps path G) (try_except (os_stat_size path) os_to_vault)"
    unfolding os_stat_size_def by (auto simp: bystander_def intro!: keeps_try)
  have read: "hoare (swaps path G) (try_except (os_read path) os_to_vault)
      (\<lambda>d. seen path G (\<lambda>x. x = d)) (\<lambda>_. swaps path G)"
    by (rule hoare_try [OF read_seen]) (auto simp: os_to_vault_def verr_def intro!: hoare_raise)
  show ?thesis
    unfolding read_limited_def verr_def
    by (rule hoare_seq [OF keeps_hoare [OF size]], assumption)
      (auto intro!: hoare_raise hoare_seq [OF read] hoare_ret dest: seen_swaps)
qed

lemma snapshot_seen:
  "hoare (swaps path G) (snapshot L V rel path)
     (\<lambda>(d, h) w. h = sha256_bytes L d \<and> seen path G (\<lambda>x. x = d) w) (\<lambda>_. swaps path G)"
proof -
  have before: "keeps (swaps path G) (assert_safe_existing (root_real V) path (Some rel))"
    and after: "keeps (seen path G (\<lambda>x. x = d)) (assert_safe_existing (root_real V) path (Some rel))" for d
    by auto
  show ?thesis
    unfolding snapshot_def
    by (rule hoare_seq [OF keeps_hoare [OF before]], assumption)
      (auto intro!: hoare_seq [OF read_limited_seen] hoare_seq [OF keeps_hoare [OF after]] hoare_ret
        dest: seen_swaps)
qed

lemma new_temp_swaps [intro]: "keeps (swaps path G) (new_temp_path p)"
  unfolding new_temp_path_def
  by (rule keeps_seq) (auto simp: keeps_def new_token_def swaps_def ret_def)

lemma discard_swaps [intro]: "keeps (swaps path G) (discard_temp temp)"
  unfolding discard_temp_def os_unlink_def by (auto simp: bystander_def intro!: keeps_try)

lemma write_temp_swaps [intro]: "keeps (swaps path G) (write_temp p data)"
  unfolding write_temp_def os_open_excl_def os_write_fd_def os_fsync_fd_def
  by (auto simp: bystander_def intro!: keeps_try keeps_seq)

lemma fsync_dir_swaps [intro]: "keeps (swaps path G) (fsync_directory p)"
  unfolding fsync_directory_def os_fsync_dir_def by (auto simp: bystander_def intro!: keeps_try)

lemma replace_swaps: "hoare (seen path G G) (os_replace p q) (\<lambda>_. swaps path G) (\<lambda>_. swaps path G)"
  by (rule hoareI) (auto simp: os_replace_def seen_def swaps_def dest!: syscall_trace)

lemma atomic_replace_swaps:
  assumes before: "hoare (swaps path G) before (\<lambda>_. seen path G G) (\<lambda>_. swaps path G)"
  shows "keeps (swaps path G) (atomic_replace_bytes target data before)"
proof -
  have "keeps (swaps path G) (cleanup_on_error temp (seq before (\<lambda>_.
      try_except (os_replace temp target) (\<lambda>e. verr AtomicWriteError None))))" for temp
    unfolding cleanup_on_error_def verr_def hoare_keeps
    by (rule hoare_try [where F = "\<lambda>_. swaps path G"];
        intro hoare_seq [OF before] hoare_try [OF replace_swaps] hoare_raise
          hoare_seq [OF keeps_hoare [OF discard_swaps]])
  then show ?thesis
    unfolding atomic_replace_bytes_def atomic_write_bytes_def Let_def by (auto intro!: keeps_seq)
qed

lemma last_read_mono: "last_read_ok path H tr \<Longrightarrow> (\<And>d. H d \<Longrightarrow> G d) \<Longrightarrow> last_read_ok path G tr"
  by (auto simp: last_read_ok_def split: option.splits sum.splits)

lemma recheck_seen:
  assumes hook: "\<And>h p. before_replace_hook V = Some h \<Longrightarrow> keeps (swaps path G) (h p)"
    and G: "\<And>d. sha256_bytes L d = snapshot_a \<Longrightarrow> G d"
  shows "hoare (swaps path G) (recheck_before_replace L V rel path snapshot_a)
           (\<lambda>_. seen path G G) (\<lambda>_. swaps path G)"
proof -
  have safe: "keeps (swaps path G) (assert_safe_existing (root_real V) path (Some rel))"
    by auto
  have hooked: "keeps (swaps path G) (case before_replace_hook V of None \<Rightarrow> ret () | Some h \<Rightarrow> h path)"
    using hook by (auto split: option.split)
  have last: "hoare (\<lambda>w. h = sha256_bytes L d \<and> seen path G (\<lambda>x. x = d) w)
      (if h \<noteq> snapshot_a then verr FileConflict (Some rel) else ret ())
      (\<lambda>_. seen path G G) (\<lambda>_. swaps path G)" for h d
    unfolding verr_def
    by (rule hoare_if, rule hoare_raise, simp add: swaps_def seen_def, rule hoare_ret)
      (auto simp: seen_def intro: G elim!: last_read_mono)
  have third: "hoare (swaps path G) (seq (snapshot L V rel path) (\<lambda>(_, snapshot_c).
       if snapshot_c \<noteq> snapshot_a then verr FileConflict (Some rel) else ret ()))
      (\<lambda>_. seen path G G) (\<lambda>_. swaps path G)"
    by (rule hoare_seq [OF snapshot_seen]) (auto intro: last)
  have rest: "hoare (swaps path G)
     (seq (case before_replace_hook V of None \<Rightarrow> ret () | Some h \<Rightarrow> h path) (\<lambda>_.
      seq (assert_safe_existing (root_real V) path (Some rel)) (\<lambda>_.
      seq (snapshot L V rel path) (\<lambda>(_, snapshot_c).
       if snapshot_c \<noteq> snapshot_a then verr FileConflict (Some rel) else ret ()))))
      (\<lambda>_. seen path G G) (\<lambda>_. swaps path G)"
    by (rule hoare_seq [OF keeps_hoare [OF hooked]], assumption,
        rule hoare_seq [OF keeps_hoare [OF safe]], assumption, rule third)
  have second: "hoare (\<lambda>w. h = sha256_bytes L d \<and> seen path G (\<lambda>x. x = d) w)
     (if h \<noteq> snapshot_a then verr FileConflict (Some rel) else
      seq (case before_replace_hook V of None \<Rightarrow> ret () | Some h \<Rightarrow> h path) (\<lambda>_.
      seq (assert_safe_existing (root_real V) path (Some rel)) (\<lambda>_.
      seq (snapshot L V rel path) (\<lambda>(_, snapshot_c).
       if snapshot_c \<noteq> snapshot_a then verr FileConflict (Some rel) else ret ()))))
      (\<lambda>_. seen path G G) (\<lambda>_. swaps path G)" for h d
    unfolding verr_def
    by (rule hoare_if, rule hoare_raise, fastforce dest: seen_swaps,
        rule hoare_pre [OF rest [unfolded verr_def]]) (auto dest: seen_swaps)
  show ?thesis
    unfolding recheck_before_replace_def
    by (rule hoare_seq [OF keeps_hoare [OF safe]], assumption, rule hoare_seq [OF snapshot_seen])
      (auto intro: second)
qed

lemma resolve_existing_result:
  "hoare P (resolve_existing V s) (\<lambda>(r, p) w. r = s \<and> p = full_path V s) (\<lambda>_ _. True)"
  by (rule hoareI)
    (auto simp: resolve_existing_def seq_eq_Inr act_simps validate_public_Inr
      resolve_existing_file_def dest!: resolve_result)

lemma looks_resolve_existing [intro]: "looks P \<Longrightarrow> keeps P (resolve_existing V s)"
  unfolding resolve_existing_def resolve_existing_file_def by (auto intro!: keeps_seq)

lemma hoare_conj:
  "hoare P m Q E \<Longrightarrow> hoare P m Q' E' \<Longrightarrow> hoare P m (\<lambda>x s. Q x s \<and> Q' x s) E"
  by (rule hoareI) (auto dest: hoareD_Inr hoareD_Inl)

lemma write_bytes_swaps:
  assumes hook: "\<And>h p. before_replace_hook V = Some h \<Longrightarrow> keeps (swaps (full_path V s) G) (h p)"
    and G: "\<And>d. require_expected_hash L s expected = Inr (sha256_bytes L d) \<Longrightarrow> G d"
  shows "keeps (swaps (full_path V s) G) (write_bytes L V s data expected)"
proof -
  let ?P = "swaps (full_path V s) G"
  have resolved: "hoare ?P (resolve_existing V s) (\<lambda>x w. ?P w \<and> x = (s, full_path V s)) (\<lambda>_. ?P)"
    by (rule hoare_weaken [OF hoare_conj [OF keeps_hoare [of ?P _ ?P]
          resolve_existing_result [of ?P V s]]]) auto
  have tail: "keeps ?P (seq (assert_safe_existing (root_real V) (full_path V s) (Some s)) (\<lambda>_.
          seq (read_limited (full_path V s) (max_file_bytes V)) (\<lambda>final_data.
          ret (R final_data))))" for R :: "bytes \<Rightarrow> file_response"
    unfolding hoare_keeps
    by (rule hoare_seq [OF keeps_hoare], blast, assumption)
      (auto intro!: hoare_seq [OF read_limited_seen] hoare_ret dest: seen_swaps)
  have swap: "keeps ?P (atomic_replace_bytes (full_path V s) data
      (recheck_before_replace L V s (full_path V s) h))"
    if "require_expected_hash L s expected = Inr h" for h
    using that by (intro atomic_replace_swaps recheck_seen hook G) auto
  have snap: "hoare ?P (snapshot L V s (full_path V s)) (\<lambda>_. ?P) (\<lambda>_. ?P)"
    by (rule hoare_weaken [OF snapshot_seen]) (auto dest: seen_swaps)
  have "hoare ?P (seq (lift (require_expected_hash L s expected)) (\<lambda>e.
        if e \<noteq> h then verr FileConflict (Some s)
        else
          seq (atomic_replace_bytes (full_path V s) data
                 (recheck_before_replace L V s (full_path V s) h)) (\<lambda>_.
          seq (assert_safe_existing (root_real V) (full_path V s) (Some s)) (\<lambda>_.
          seq (read_limited (full_path V s) (max_file_bytes V)) (\<lambda>final_data.
          ret (R final_data)))))) (\<lambda>_. ?P) (\<lambda>_. ?P)" for h and R :: "bytes \<Rightarrow> file_response"
    unfolding hoare_keeps [symmetric]
    using keeps_seq [OF swap tail [of R]]
    by (cases "require_expected_hash L s expected") (auto simp: act_norm)
  note swapped = this
  let ?body = "\<lambda>relative path.
        seq (snapshot L V relative path) (\<lambda>(_, snapshot_a).
        seq (lift (require_expected_hash L relative expected)) (\<lambda>expected.
        if expected \<noteq> snapshot_a then verr FileConflict (Some relative)
        else
          seq (atomic_replace_bytes path data
                 (recheck_before_replace L V relative path snapshot_a)) (\<lambda>_.
          seq (assert_safe_existing (root_real V) path (Some relative)) (\<lambda>_.
          seq (read_limited path (max_file_bytes V)) (\<lambda>final_data.
          ret \<lparr>resp_path = relative, resp_sha256 = Some (sha256_bytes L final_data),
               resp_byte_length = Some (length final_data), resp_operation = OpUpdated\<rparr>)))))"
  have body: "hoare ?P (?body s (full_path V s)) (\<lambda>_. ?P) (\<lambda>_. ?P)"
    by (rule hoare_seq [OF snap]) (simp only: split_beta swapped)
  have "hoare (\<lambda>w. ?P w \<and> x = (s, full_path V s)) (case x of (relative, path) \<Rightarrow> ?body relative path)
     (\<lambda>_. ?P) (\<lambda>_. ?P)" for x
  proof (cases "x = (s, full_path V s)")
    case True
    show ?thesis
      unfolding True prod.case by (rule hoare_pre [OF body]) simp
  qed (simp add: hoare_def)
  then show ?thesis
    unfolding write_bytes_def hoare_keeps verr_def [of FileTooLarge]
    by (intro hoare_if hoare_raise hoare_seq [OF resolved])
qed

section \<open>Every moment of an update\<close>

lemma token_keeps: "keeps (\<lambda>w. w_token w = k) (syscall c f)"
  by (auto simp: keeps_def syscall_def tick_def record_call_def
      split: prod.splits option.splits sum.splits list.splits)

lemma keeps_conj: "keeps P m \<Longrightarrow> keeps Q m \<Longrightarrow> keeps (\<lambda>w. P w \<and> Q w) m"
  by (simp add: keeps_def)

abbreviation ready ::
  "fpath \<Rightarrow> name \<Rightarrow> pystr \<Rightarrow> node option \<Rightarrow> bytes \<Rightarrow> world \<Rightarrow> bool" where
  "ready p c token old data \<equiv> (\<lambda>w. steady p c token old data (\<lambda>_. True) w \<and> w_token w 0 = token)"

lemma query_ready: "keeps (ready p c token old data) (syscall op (query f))"
proof -
  have "keeps (\<lambda>w. w_token w 0 = token) (syscall op (query f))"
    using token_keeps unfolding keeps_def by metis
  then show ?thesis
    by (intro keeps_conj keeps_query_stays local_untorn local_to_True)
qed

lemma query_steady:
  "local_to (write_zone p c token) R \<Longrightarrow> keeps (steady p c token old data R) (syscall op (query f))"
  by (intro keeps_query_stays local_untorn)

definition queries_keep :: "(world \<Rightarrow> bool) \<Rightarrow> bool" where
  "queries_keep P \<longleftrightarrow> looks P \<and> (\<forall>p. keeps P (os_read p)) \<and> (\<forall>p. keeps P (os_stat_size p))"

lemma queries_ready: "queries_keep (ready p c token old data)"
  unfolding queries_keep_def looks_def os_lstat_def os_realpath_def os_read_def os_stat_size_def
  by (simp add: query_ready)

lemma queries_steady:
  "local_to (write_zone p c token) R \<Longrightarrow> queries_keep (steady p c token old data R)"
  unfolding queries_keep_def looks_def os_lstat_def os_realpath_def os_read_def os_stat_size_def
  by (simp add: query_steady)

lemma queries_read_limited: "queries_keep P \<Longrightarrow> keeps P (read_limited path m)"
  unfolding queries_keep_def read_limited_def by (auto intro!: keeps_seq keeps_try)

lemma queries_snapshot: "queries_keep P \<Longrightarrow> keeps P (snapshot L V rel path)"
  unfolding snapshot_def using queries_read_limited
  by (auto intro!: keeps_seq simp: queries_keep_def)

lemma queries_recheck:
  "queries_keep P \<Longrightarrow> before_replace_hook V = None \<Longrightarrow> keeps P (recheck_before_replace L V rel path h)"
proof -
  assume P: "queries_keep P" and hook: "before_replace_hook V = None"
  have "looks P" using P by (simp add: queries_keep_def)
  note keep = queries_snapshot [OF P] looks_safe_existing [OF this]
  show ?thesis
    unfolding recheck_before_replace_def hook split_beta
    by (auto intro!: keeps_seq keep keeps_verr)
qed

lemma write_bytes_stays:
  assumes neq: "temp_name token \<noteq> c" and path: "full_path V s = p @ [c]"
    and hook: "before_replace_hook V = None"
  shows "hoare (ready p c token old data) (write_bytes L V s data expected)
     (\<lambda>_. steady p c token old data (\<lambda>t. t (p @ [c]) = Some (FileN data)))
     (\<lambda>_. steady p c token old data (\<lambda>_. True))"
proof -
  let ?P = "ready p c token old data"
  let ?any = "\<lambda>_. steady p c token old data (\<lambda>_. True)"
  let ?new = "\<lambda>_. steady p c token old data (\<lambda>t. t (p @ [c]) = Some (FileN data))"
  have looks: "looks ?P" using queries_ready by (simp add: queries_keep_def)
  have resolved: "hoare ?P (resolve_existing V s) (\<lambda>x w. ?P w \<and> x = (s, p @ [c])) ?any"
    by (rule hoare_weaken [OF hoare_conj [OF keeps_hoare [OF looks_resolve_existing [OF looks], of "steady p c token old data (\<lambda>_. True)"]
          resolve_existing_result]]) (auto simp: path)
  have snap: "hoare ?P (snapshot L V s (p @ [c])) (\<lambda>_. ?P) ?any"
    by (rule keeps_hoare [OF queries_snapshot [OF queries_ready]]) simp
  have swap: "hoare ?P (atomic_replace_bytes (p @ [c]) data (recheck_before_replace L V s (p @ [c]) h))
      ?new ?any" for h
    unfolding atomic_replace_bytes_def
    by (intro replace_write_stays neq queries_recheck queries_steady local_temp hook)
  have new: "queries_keep (?new ())"
    by (intro queries_steady local_target)
  then have "looks (?new ())" by (simp add: queries_keep_def)
  then have safe: "hoare (?new ()) (assert_safe_existing (root_real V) (p @ [c]) (Some s)) ?new ?any"
    by (intro keeps_hoare looks_safe_existing) (auto elim: stays_mono)
  have final: "hoare (?new ()) (read_limited (p @ [c]) (max_file_bytes V)) ?new ?any"
    by (rule keeps_hoare [OF queries_read_limited [OF new]]) (auto elim: stays_mono)
  let ?body = "\<lambda>relative path.
        seq (snapshot L V relative path) (\<lambda>(_, snapshot_a).
        seq (lift (require_expected_hash L relative expected)) (\<lambda>expected.
        if expected \<noteq> snapshot_a then verr FileConflict (Some relative)
        else
          seq (atomic_replace_bytes path data
                 (recheck_before_replace L V relative path snapshot_a)) (\<lambda>_.
          seq (assert_safe_existing (root_real V) path (Some relative)) (\<lambda>_.
          seq (read_limited path (max_file_bytes V)) (\<lambda>final_data.
          ret \<lparr>resp_path = relative, resp_sha256 = Some (sha256_bytes L final_data),
               resp_byte_length = Some (length final_data), resp_operation = OpUpdated\<rparr>)))))"
  have body: "hoare ?P (?body s (p @ [c])) ?new ?any"
    unfolding split_beta verr_def
    by (intro hoare_seq [OF snap] hoare_seq [where R = "\<lambda>_. ?P"] hoare_lift hoare_if hoare_raise
        hoare_seq [OF swap] hoare_seq [OF safe] hoare_seq [OF final] hoare_ret) simp_all
  have "hoare (\<lambda>w. ?P w \<and> x = (s, p @ [c])) (case x of (relative, path) \<Rightarrow> ?body relative path)
     ?new ?any" for x
  proof (cases "x = (s, p @ [c])")
    case True
    show ?thesis
      unfolding True prod.case by (rule hoare_pre [OF body]) simp
  qed (simp add: hoare_def)
  then show ?thesis
    unfolding write_bytes_def verr_def [of FileTooLarge]
    by (intro hoare_if hoare_raise hoare_seq [OF resolved]) simp
qed

end
