(* ===== verification/VaultProperties.thy ===== *)
theory VaultProperties imports VaultService begin

text \<open>
  What the file service promises: the paths it accepts, the exact behaviour of every operation in an
  undisturbed run, and the two promises of an update that hold whatever the rest of the machine
  does: the target is never torn, and nothing is replaced that was not just read with the expected
  digest. The closed witnesses run on a small vault.
\<close>

section \<open>A small vault\<close>

definition demo_root :: fpath where
  "demo_root = [lit ''v'']"

definition demo_tree :: tree where
  "demo_tree = map_of
     [([lit ''v''], DirN),
      ([lit ''v'', lit ''n.md''], FileN [104, 105]),
      ([lit ''v'', lit ''d''], DirN),
      ([lit ''v'', lit ''l''], LinkN [lit ''etc''])]"

definition demo_world :: world where
  "demo_world = \<lparr>w_tree = demo_tree, w_env = [], w_trace = [], w_token = \<lambda>i. lit ''7-ab''\<rparr>"

definition demo_vault :: vault_cfg where
  "demo_vault = \<lparr>root_real = demo_root, max_file_bytes = 100, before_replace_hook = None\<rparr>"

lemma demo_simps [simp]:
  "root_real demo_vault = demo_root" "before_replace_hook demo_vault = None"
  "max_file_bytes demo_vault = 100" "w_tree demo_world = demo_tree" "w_env demo_world = []"
  "w_token demo_world = (\<lambda>i. lit ''7-ab'')" "w_trace demo_world = []"
  by (simp_all add: demo_vault_def demo_world_def)

lemma demo_quiet [simp]: "quiet demo_world"
  by (simp add: quiet_def)

lemma demo_tree_Some: "demo_tree p = Some n \<Longrightarrow>
    p \<in> {[lit ''v''], [lit ''v'', lit ''n.md''], [lit ''v'', lit ''d''], [lit ''v'', lit ''l'']}"
  unfolding demo_tree_def by (simp split: if_splits)

lemma demo_good_root [simp]: "good_root demo_tree demo_root"
proof -
  have "node_at demo_tree p = Some DirN" if some: "demo_tree (p @ [c]) = Some n" for p c n
  proof -
    have "p = [] \<or> p = [lit ''v'']"
      using demo_tree_Some [OF some] by (cases p rule: rev_cases) (auto simp: Cons_eq_append_conv)
    then show ?thesis by (auto simp: node_at_def demo_tree_def)
  qed
  then show ?thesis
    by (auto simp: good_root_def wf_tree_def demo_root_def node_at_def demo_tree_def)
qed

lemma demo_safe_paths [simp]:
  "safe_path (lit ''n.md'')" "safe_path (lit ''new.md'')" "safe_path (lit ''d/x.md'')" "safe_path (lit ''l'')"
  by (code_simp)+

lemma runs_world:
  "runs m t k r t' k' \<Longrightarrow> quiet w \<Longrightarrow> w_tree w = t \<Longrightarrow> w_token w = k \<Longrightarrow>
     \<exists>w'. m w = (r, w') \<and> w_tree w' = t'"
  by (metis runsD)


lemma demo_paths [simp]:
  "demo_root @ relative_parts (lit ''n.md'') = [lit ''v'', lit ''n.md'']"
  "demo_root @ relative_parts (lit ''new.md'') = [lit ''v'', lit ''new.md'']"
  "demo_root @ relative_parts (lit ''d/x.md'') = [lit ''v'', lit ''d'', lit ''x.md'']"
  by (code_simp)+

lemma demo_temp_free [simp]:
  "temp_free demo_vault demo_tree (\<lambda>i. lit ''7-ab'') (lit ''n.md'')"
  "temp_free demo_vault demo_tree (\<lambda>i. lit ''7-ab'') (lit ''new.md'')"
  by (code_simp)+

definition demo_hash :: pystr where
  "demo_hash = sha256_bytes demo_lib [104, 105]"

section \<open>Paths\<close>

text \<open>
  C1. The path checks accept exactly the safe paths. A string is accepted, unchanged, if and only
  if it is a non-empty slash-separated list of segments, none of them empty, dot, dot-dot or longer
  than 255 bytes, without NUL or backslash, without drive or device prefix, and at most 4096 bytes;
  then joining its parts gives it back.
\<close>

theorem validate_relative_path_accepts:
  "validate_relative_path (Str s) False = Inr t \<longleftrightarrow>
     (t = s \<and> safe_path s \<and> list_all safe_segment (relative_parts s) \<and>
      relative_display (relative_parts s) = s)"
  using validate_relative_path_Inr [of s t] safe_path_parts [of s] by blast

text \<open>
  C10. Resolution of an accepted path, with nobody interfering, is decided by the first component
  that is not a directory: a link anywhere on the way, also as the last component, is refused as a
  symlink escape, a file in the middle as not a directory, a missing component as not found unless
  missing is allowed; otherwise the answer is the lexical path below the root, after the required
  kind has been checked. The tree is never changed.
\<close>

theorem resolve_decides:
  assumes "good_root (w_tree w) root" and "quiet w" and "validate_relative_path value ar = Inr rel"
  shows "\<exists>w'. resolve root value ar am rd rf w =
      (resolve_outcome (path_status (w_tree w) root (relative_parts rel)) (root @ relative_parts rel)
         (Some rel) am rd rf, w') \<and> w_tree w' = w_tree w"
  by (rule runs_world [OF resolve_runs [OF assms(1,3)] assms(2)]) simp_all

theorem resolve_decides_witness:
  "\<exists>w'. resolve demo_root (Str (lit ''l'')) False True False False demo_world =
     (Inl (VaultError SymlinkEscapeError (Some (lit ''l''))), w') \<and> w_tree w' = demo_tree"
proof -
  have "path_status demo_tree demo_root (relative_parts (lit ''l'')) = Linked"
    by (simp add: demo_tree_def demo_root_def relative_parts_def)
  then show ?thesis
    using resolve_decides [of demo_world demo_root "Str (lit ''l'')" False "lit ''l''" True False False]
    by (simp add: validate_safe del: lit_Cons)
qed

section \<open>Undisturbed operations\<close>

text \<open>
  Reading a file: the public path check, the lookup, the size limit, then the bytes with their
  digest; on every branch the answer is \<open>read_outcome\<close> and the tree is unchanged.
\<close>

theorem read_bytes_exact:
  assumes "good_root (w_tree w) (root_real V)" and "quiet w"
  shows "\<exists>w'. read_bytes L V s w = (read_outcome L V (w_tree w) s, w') \<and> w_tree w' = w_tree w"
  by (rule runs_world [OF read_bytes_runs [OF assms(1)] assms(2)]) simp_all

theorem read_bytes_exact_witness:
  "\<exists>w'. read_bytes demo_lib demo_vault (lit ''n.md'') demo_world = (Inr ([104, 105], demo_hash), w') \<and>
     w_tree w' = demo_tree"
proof -
  have "read_outcome demo_lib demo_vault demo_tree (lit ''n.md'') = Inr ([104, 105], demo_hash)"
    by code_simp
  then show ?thesis
    using read_bytes_exact [of demo_world demo_vault demo_lib "lit ''n.md''"] by (simp del: lit_Cons)
qed

text \<open>
  Creating a file: refused when the data is too large, the path not public, the parent not a
  directory reached without links, or anything exists at the path; otherwise exactly that entry
  appears, with the data. No temporary file remains on any branch.
\<close>

theorem create_bytes_exact:
  assumes "good_root (w_tree w) (root_real V)" and "quiet w" and "temp_free V (w_tree w) (w_token w) s"
  shows "\<exists>w'. create_bytes L V s data w = (create_outcome L V (w_tree w) s data, w') \<and>
     w_tree w' = after_ok (create_outcome L V (w_tree w) s data)
                   ((w_tree w)(full_path V s \<mapsto> FileN data)) (w_tree w)"
  by (rule runs_world [OF create_bytes_runs [OF assms(1,3)] assms(2)]) simp_all

theorem create_bytes_exact_witness:
  "\<exists>w'. create_bytes demo_lib demo_vault (lit ''new.md'') [7] demo_world =
       (Inr \<lparr>resp_path = lit ''new.md'', resp_sha256 = Some (sha256_bytes demo_lib [7]),
             resp_byte_length = Some 1, resp_operation = OpCreated\<rparr>, w') \<and>
     w_tree w' = demo_tree([lit ''v'', lit ''new.md''] \<mapsto> FileN [7])"
proof -
  have "create_outcome demo_lib demo_vault demo_tree (lit ''new.md'') [7] =
      Inr \<lparr>resp_path = lit ''new.md'', resp_sha256 = Some (sha256_bytes demo_lib [7]),
           resp_byte_length = Some 1, resp_operation = OpCreated\<rparr>"
    by code_simp
  then show ?thesis
    using create_bytes_exact [of demo_world demo_vault "lit ''new.md''" demo_lib "[7]"]
    by (simp del: lit_Cons)
qed

text \<open>
  C5. Updating a file: it succeeds exactly when the file is there, is within the limit, and the
  caller's expected digest is the digest of its present content; then the content is the new data
  and nothing else has changed. In every other case the tree is untouched, and the error says why
  (missing digest before conflict).
\<close>

theorem write_bytes_exact:
  assumes "good_root (w_tree w) (root_real V)" and "quiet w" and "before_replace_hook V = None"
    and "temp_free V (w_tree w) (w_token w) s"
  shows "\<exists>w'. write_bytes L V s data expected w = (write_outcome L V (w_tree w) s data expected, w') \<and>
     w_tree w' = after_ok (write_outcome L V (w_tree w) s data expected)
                   ((w_tree w)(full_path V s \<mapsto> FileN data)) (w_tree w)"
  by (rule runs_world [OF write_bytes_runs [OF assms(1,3,4)] assms(2)]) simp_all

theorem write_bytes_exact_witness:
  "\<exists>w'. write_bytes demo_lib demo_vault (lit ''n.md'') [7] (Some demo_hash) demo_world =
       (Inr \<lparr>resp_path = lit ''n.md'', resp_sha256 = Some (sha256_bytes demo_lib [7]),
             resp_byte_length = Some 1, resp_operation = OpUpdated\<rparr>, w') \<and>
     w_tree w' = demo_tree([lit ''v'', lit ''n.md''] \<mapsto> FileN [7])"
proof -
  have "write_outcome demo_lib demo_vault demo_tree (lit ''n.md'') [7] (Some demo_hash) =
      Inr \<lparr>resp_path = lit ''n.md'', resp_sha256 = Some (sha256_bytes demo_lib [7]),
           resp_byte_length = Some 1, resp_operation = OpUpdated\<rparr>"
    by code_simp
  then show ?thesis
    using write_bytes_exact [of demo_world demo_vault "lit ''n.md''" demo_lib "[7]" "Some demo_hash"]
    by (simp del: lit_Cons)
qed

text \<open>
  Deleting a file: only with the digest of its present content, and then exactly that entry
  disappears.
\<close>

theorem delete_file_exact:
  assumes "good_root (w_tree w) (root_real V)" and "quiet w"
  shows "\<exists>w'. delete_file L V s expected w = (delete_outcome L V (w_tree w) s expected, w') \<and>
     w_tree w' = after_ok (delete_outcome L V (w_tree w) s expected)
                   ((w_tree w)(full_path V s := None)) (w_tree w)"
  by (rule runs_world [OF delete_file_runs [OF assms(1)] assms(2)]) simp_all

theorem delete_file_exact_witness:
  "\<exists>w'. delete_file demo_lib demo_vault (lit ''n.md'') (Some (lit ''0'')) demo_world =
       (Inl (VaultError FileConflict (Some (lit ''n.md''))), w') \<and> w_tree w' = demo_tree"
proof -
  have "delete_outcome demo_lib demo_vault demo_tree (lit ''n.md'') (Some (lit ''0'')) =
      Inl (VaultError FileConflict (Some (lit ''n.md'')))"
    by code_simp
  then show ?thesis
    using delete_file_exact [of demo_world demo_vault demo_lib "lit ''n.md''" "Some (lit ''0'')"]
    by (simp del: lit_Cons)
qed

text \<open>
  C4. Moving a file: it needs a public source file with the expected digest, a different public
  destination with an existing parent and nothing at it; then the destination holds the source's
  content, the source is gone, and nothing else has changed. Otherwise the tree is untouched.
\<close>

theorem move_file_exact:
  assumes "good_root (w_tree w) (root_real V)" and "quiet w"
  shows "\<exists>w'. move_file L V src dst expected w = (move_outcome L V (w_tree w) src dst expected, w') \<and>
     w_tree w' = after_ok (move_outcome L V (w_tree w) src dst expected)
       ((w_tree w)(full_path V dst := w_tree w (full_path V src), full_path V src := None)) (w_tree w)"
  by (rule runs_world [OF move_file_runs [OF assms(1)] assms(2)]) simp_all

theorem move_file_exact_witness:
  "\<exists>w'. move_file demo_lib demo_vault (lit ''n.md'') (lit ''d/x.md'') (Some demo_hash) demo_world =
       (Inr \<lparr>resp_path = lit ''d/x.md'', resp_sha256 = Some demo_hash,
             resp_byte_length = Some 2, resp_operation = OpMoved\<rparr>, w') \<and>
     w_tree w' [lit ''v'', lit ''d'', lit ''x.md''] = Some (FileN [104, 105]) \<and>
     w_tree w' [lit ''v'', lit ''n.md''] = None"
proof -
  have "move_outcome demo_lib demo_vault demo_tree (lit ''n.md'') (lit ''d/x.md'') (Some demo_hash) =
      Inr \<lparr>resp_path = lit ''d/x.md'', resp_sha256 = Some demo_hash,
           resp_byte_length = Some 2, resp_operation = OpMoved\<rparr>"
    and "demo_tree [lit ''v'', lit ''n.md''] = Some (FileN [104, 105])"
    and "[lit ''v'', lit ''d'', lit ''x.md''] \<noteq> [lit ''v'', lit ''n.md'']"
    by code_simp+
  then show ?thesis
    using move_file_exact [of demo_world demo_vault demo_lib "lit ''n.md''" "lit ''d/x.md''" "Some demo_hash"]
    by (auto simp del: lit_Cons)
qed

text \<open>
  C8. Creating a directory: under the same conditions as a file, and then exactly that directory
  appears; an existing directory is a conflict like an existing file.
\<close>

theorem create_directory_exact:
  assumes "good_root (w_tree w) (root_real V)" and "quiet w"
  shows "\<exists>w'. create_directory V s w = (mkdir_outcome V (w_tree w) s, w') \<and>
     w_tree w' = after_ok (mkdir_outcome V (w_tree w) s)
                   ((w_tree w)(full_path V s \<mapsto> DirN)) (w_tree w)"
  by (rule runs_world [OF create_directory_runs [OF assms(1)] assms(2)]) simp_all

theorem create_directory_exact_witness:
  "\<exists>w'. create_directory demo_vault (lit ''d'') demo_world =
       (Inl (VaultError AlreadyExists (Some (lit ''d''))), w') \<and> w_tree w' = demo_tree"
proof -
  have "mkdir_outcome demo_vault demo_tree (lit ''d'') = Inl (VaultError AlreadyExists (Some (lit ''d'')))"
    by code_simp
  then show ?thesis
    using create_directory_exact [of demo_world demo_vault "lit ''d''"] by (simp del: lit_Cons)
qed

section \<open>Updates under interference\<close>

text \<open>The same vault with another process creating a file and a full disk at the temporary write.\<close>

definition demo_busy :: world where
  "demo_busy = \<lparr>w_tree = demo_tree,
     w_env = (\<lambda>t. t([lit ''v'', lit ''d'', lit ''y''] \<mapsto> FileN [1]), None) # replicate 30 (id, None) @
       [(id, Some ENOSPC)],
     w_trace = [], w_token = \<lambda>i. lit ''7-ab''\<rparr>"

text \<open>
  C3. An update is atomic at every moment: other processes may do anything except touch the way to
  the target, the target and the temporary name, and any system call may fail; still, every tree
  seen during the call has the old content or the complete new content at the target, and when the
  call returns normally it has the new one.
\<close>

theorem write_bytes_never_torn:
  assumes "full_path V s = p @ [c]" and "in_dir (w_tree w) p" and "w_trace w = []"
    and "spares (write_zone p c (w_token w 0)) (w_env w)" and "temp_name (w_token w 0) \<noteq> c"
    and "before_replace_hook V = None" and "write_bytes L V s data expected w = (r, w')"
  shows "(\<forall>(_, _, t) \<in> set (w_trace w'). t (p @ [c]) \<in> {w_tree w (p @ [c]), Some (FileN data)}) \<and>
     w_tree w' (p @ [c]) \<in> {w_tree w (p @ [c]), Some (FileN data)} \<and>
     (\<forall>x. r = Inr x \<longrightarrow> w_tree w' (p @ [c]) = Some (FileN data))"
proof -
  have ready: "ready p c (w_token w 0) (w_tree w (p @ [c])) data w"
    using assms by (simp add: stays_def untorn_def)
  note post = write_bytes_stays [OF assms(5,1,6), of "w_tree w (p @ [c])" data L expected]
  show ?thesis
  proof (cases r)
    case (Inl e)
    with hoareD_Inl [OF post ready] assms(7) show ?thesis
      by (auto simp: stays_def untorn_def)
  next
    case (Inr x)
    with hoareD_Inr [OF post ready] assms(7) show ?thesis
      by (auto simp: stays_def untorn_def)
  qed
qed

theorem write_bytes_never_torn_witness:
  "w_tree (snd (write_bytes demo_lib demo_vault (lit ''n.md'') [7] (Some demo_hash) demo_busy))
     [lit ''v'', lit ''n.md''] \<in> {Some (FileN [104, 105]), Some (FileN [7])}"
proof -
  have zone: "spares (write_zone demo_root (lit ''n.md'') (lit ''7-ab'')) (w_env demo_busy)"
    by (auto simp: spares_def demo_busy_def write_zone_def demo_root_def temp_name_def prefix_def
        Cons_eq_append_conv)
  have place: "full_path demo_vault (lit ''n.md'') = demo_root @ [lit ''n.md'']"
    "in_dir (w_tree demo_busy) demo_root" "temp_name (lit ''7-ab'') \<noteq> lit ''n.md''"
    "w_tree demo_busy (demo_root @ [lit ''n.md'']) = Some (FileN [104, 105])"
    by (auto simp: in_dir_def demo_busy_def demo_root_def demo_tree_def node_at_def clean_def
        strict_prefix_def prefix_def Cons_eq_append_conv temp_name_def relative_parts_def)
  show ?thesis
    using write_bytes_never_torn [where V = demo_vault and L = demo_lib and
      s = "lit ''n.md''" and data = "[7]" and expected = "Some demo_hash" and w = demo_busy,
      OF place(1,2) _ _ _ _ surjective_pairing]
      zone place(3,4) by (simp add: demo_busy_def demo_root_def del: lit_Cons)
qed

text \<open>
  C2. Compare and swap: whatever the other processes do between any two system calls, if the
  target was replaced then the last read of it before the replacement saw content whose digest is
  the one the caller expected; without a valid expected digest nothing is ever replaced.
\<close>

theorem write_bytes_swaps_only_expected:
  assumes "before_replace_hook V = None" and "w_trace w = []"
    and "write_bytes L V s data expected w = (r, w')"
  shows "guarded (full_path V s)
           (\<lambda>d. require_expected_hash L s expected = Inr (sha256_bytes L d)) (w_trace w')"
proof -
  let ?G = "\<lambda>d. require_expected_hash L s expected = Inr (sha256_bytes L d)"
  have "keeps (swaps (full_path V s) ?G) (write_bytes L V s data expected)"
    using assms(1) by (intro write_bytes_swaps) simp_all
  moreover have "swaps (full_path V s) ?G w"
    using assms(2) by (simp add: swaps_def)
  ultimately show ?thesis
    using keepsD [of "swaps (full_path V s) ?G"] assms(3) unfolding swaps_def by blast
qed

theorem write_bytes_swaps_only_expected_witness:
  "guarded [lit ''v'', lit ''n.md'']
     (\<lambda>d. require_expected_hash demo_lib (lit ''n.md'') (Some demo_hash) = Inr (sha256_bytes demo_lib d))
     (w_trace (snd (write_bytes demo_lib demo_vault (lit ''n.md'') [7] (Some demo_hash) demo_busy)))"
  using write_bytes_swaps_only_expected [where V = demo_vault and L = demo_lib and
      s = "lit ''n.md''" and data = "[7]" and expected = "Some demo_hash" and w = demo_busy,
      OF _ _ surjective_pairing]
  by (simp add: demo_busy_def del: lit_Cons)

end
