(* ===== verification/Actions.thy ===== *)
theory Actions imports PathLexical "HOL-Library.Product_Lexorder" begin

text \<open>
  \<^verbatim>\<open>server/actions/schemas.py\<close>: the action types, the permission levels, one action as the
  model sends it, the field validators that build it, and the semantic checks on an action and on
  an action set. Standard base64 (\<^verbatim>\<open>b64decode(validate=True)\<close>) is written out, since the size
  limit on new notes is on the decoded bytes.
\<close>

datatype action_type = ADD_TAGS | REMOVE_TAGS | ADD_LINK | CREATE_NOTE | PATCH_NOTE | MOVE_NOTE

datatype permission_level = READ_ONLY | SUGGEST | LOW_RISK_AUTO

fun level_value :: "permission_level \<Rightarrow> int" where
  "level_value READ_ONLY = 0"
| "level_value SUGGEST = 1"
| "level_value LOW_RISK_AUTO = 2"

lemma level_value_inj [simp]: "level_value l = level_value m \<longleftrightarrow> l = m"
  by (cases l; cases m) simp_all

text \<open>\<^verbatim>\<open>IntEnum\<close>: the levels compare as their values.\<close>

instantiation permission_level :: linorder
begin

definition less_eq_permission_level :: "permission_level \<Rightarrow> permission_level \<Rightarrow> bool" where
  "l \<le> m \<longleftrightarrow> level_value l \<le> level_value m"

definition less_permission_level :: "permission_level \<Rightarrow> permission_level \<Rightarrow> bool" where
  "l < m \<longleftrightarrow> level_value l < level_value m"

instance
  by standard (auto simp: less_eq_permission_level_def less_permission_level_def)

end

section \<open>Base64\<close>

abbreviation EQUALS :: nat where "EQUALS \<equiv> 61"

definition b64_alphabet :: pystr where
  "b64_alphabet = lit ''ABCDEFGHIJKLMNOPQRSTUVWXYZabcdefghijklmnopqrstuvwxyz0123456789+/''"

fun index_of :: "nat \<Rightarrow> pystr \<Rightarrow> nat \<Rightarrow> nat option" where
  "index_of c [] i = None"
| "index_of c (d # s) i = (if c = d then Some i else index_of c s (Suc i))"

definition b64_value :: "nat \<Rightarrow> nat option" where
  "b64_value c = index_of c b64_alphabet 0"

definition to_byte :: "nat \<Rightarrow> byte" where
  "to_byte n = of_nat n"

fun b64_decode :: "pystr \<Rightarrow> bytes option" where
  "b64_decode [] = Some []"
| "b64_decode (a # b # c # d # r) =
     (case (b64_value a, b64_value b) of
        (Some va, Some vb) \<Rightarrow>
          let x = to_byte (va * 4 + vb div 16) in
          if d = EQUALS then
            if r \<noteq> [] then None
            else if c = EQUALS then Some [x]
            else (case b64_value c of
                    Some vc \<Rightarrow> Some [x, to_byte (vb mod 16 * 16 + vc div 4)]
                  | None \<Rightarrow> None)
          else
            (case (b64_value c, b64_value d) of
               (Some vc, Some vd) \<Rightarrow>
                 map_option (\<lambda>rest. x # to_byte (vb mod 16 * 16 + vc div 4) # to_byte (vc mod 4 * 64 + vd) # rest)
                   (b64_decode r)
             | _ \<Rightarrow> None)
      | _ \<Rightarrow> None)"
| "b64_decode _ = None"

definition b64_char :: "nat \<Rightarrow> nat" where
  "b64_char v = b64_alphabet ! v"

fun b64_encode :: "bytes \<Rightarrow> pystr" where
  "b64_encode [] = []"
| "b64_encode [x] =
     (let a = unat x in [b64_char (a div 4), b64_char (a mod 4 * 16), EQUALS, EQUALS])"
| "b64_encode [x, y] =
     (let a = unat x; b = unat y in
      [b64_char (a div 4), b64_char (a mod 4 * 16 + b div 16), b64_char (b mod 16 * 4), EQUALS])"
| "b64_encode (x # y # z # r) =
     (let a = unat x; b = unat y; c = unat z in
      b64_char (a div 4) # b64_char (a mod 4 * 16 + b div 16) #
      b64_char (b mod 16 * 4 + c div 64) # b64_char (c mod 64) # b64_encode r)"

section \<open>Actions\<close>

text \<open>A UUID is its canonical text: \<open>act_id a\<close> is \<^verbatim>\<open>str(action.action_id)\<close>.\<close>

record patch_hunk =
  h_start :: int
  h_old_text :: pystr
  h_new_text :: pystr
  h_old_sha256 :: "pystr option"

record action =
  act_id :: pystr
  act_kind :: action_type
  act_level :: int
  act_file :: pystr
  act_target_file :: "pystr option"
  act_tags :: "pystr list"
  act_link_target :: "pystr option"
  act_patch :: "patch_hunk list"
  act_content_base64 :: "pystr option"
  act_reason :: pystr
  act_expected_sha256 :: "pystr option"

text \<open>
  A bad path raises the vault's own exception, which pydantic does not translate; every other bad
  field is a \<open>ValidationError\<close>. \<open>SemanticError\<close> is \<^verbatim>\<open>ActionValidationError\<close>.
\<close>

datatype action_error = PathError vault_error | ValidationError | SemanticError

definition normalize_digest :: "pystr option \<Rightarrow> action_error + pystr option" where
  "normalize_digest value =
     (case value of
        None \<Rightarrow> Inr None
      | Some v \<Rightarrow> if sha256_re_matches v then Inr (Some (ascii_lower v)) else Inl ValidationError)"

definition normalize_tag :: "pystr \<Rightarrow> action_error + pystr" where
  "normalize_tag value =
     (let tag = strip (lstrip_if (\<lambda>c. c = 35) (strip value)) in
      if tag = [] then Inl ValidationError
      else if 100 < length tag then Inl ValidationError
      else if list_ex (\<lambda>c. c = 13 \<or> c = 10 \<or> c = 44) tag then Inl ValidationError
      else Inr tag)"

definition validate_tags :: "pylib \<Rightarrow> pystr list \<Rightarrow> action_error + pystr list" where
  "validate_tags L values =
     rbind (check (length values \<le> 10) ValidationError) (\<lambda>_.
     rbind (rmap normalize_tag values) (\<lambda>normalized.
     rbind (check (distinct (map (casefold L) normalized)) ValidationError) (\<lambda>_.
     Inr normalized)))"

definition validate_hunk :: "patch_hunk \<Rightarrow> action_error + patch_hunk" where
  "validate_hunk h =
     rbind (check (0 \<le> h_start h \<and> length (h_old_text h) \<le> 10000 \<and> length (h_new_text h) \<le> 10000)
              ValidationError) (\<lambda>_.
     rbind (normalize_digest (h_old_sha256 h)) (\<lambda>d. Inr (h\<lparr>h_old_sha256 := d\<rparr>)))"

definition validate_content :: "pystr option \<Rightarrow> action_error + pystr option" where
  "validate_content value =
     (case value of
        None \<Rightarrow> Inr None
      | Some v \<Rightarrow>
          (case b64_decode v of
             None \<Rightarrow> Inl ValidationError
           | Some payload \<Rightarrow>
               if 1000000 < length payload then Inl ValidationError else Inr (Some v)))"

definition validate_path_field :: "pystr \<Rightarrow> action_error + pystr" where
  "validate_path_field v =
     (case validate_relative_path (Str v) False of Inl e \<Rightarrow> Inl (PathError e) | Inr r \<Rightarrow> Inr r)"

fun validate_optional :: "('a \<Rightarrow> 'e + 'a) \<Rightarrow> 'a option \<Rightarrow> 'e + 'a option" where
  "validate_optional f None = Inr None"
| "validate_optional f (Some v) = rbind (f v) (\<lambda>r. Inr (Some r))"

definition parse_action :: "pylib \<Rightarrow> action \<Rightarrow> action_error + action" where
  "parse_action L a =
     rbind (validate_path_field (act_file a)) (\<lambda>file.
     rbind (validate_optional validate_path_field (act_target_file a)) (\<lambda>target_file.
     rbind (validate_optional validate_path_field (act_link_target a)) (\<lambda>link_target.
     rbind (check (act_level a \<in> {0, 1, 2}) ValidationError) (\<lambda>_.
     rbind (validate_tags L (act_tags a)) (\<lambda>tags.
     rbind (check (length (act_patch a) \<le> 20) ValidationError) (\<lambda>_.
     rbind (rmap validate_hunk (act_patch a)) (\<lambda>patch.
     rbind (validate_content (act_content_base64 a)) (\<lambda>content.
     rbind (check (1 \<le> length (act_reason a) \<and> length (act_reason a) \<le> 500) ValidationError) (\<lambda>_.
     rbind (normalize_digest (act_expected_sha256 a)) (\<lambda>expected.
     Inr (a\<lparr>act_file := file, act_target_file := target_file, act_tags := tags,
            act_link_target := link_target, act_patch := patch, act_content_base64 := content,
            act_expected_sha256 := expected\<rparr>)))))))))))"

definition some_nonempty :: "pystr option \<Rightarrow> bool" where
  "some_nonempty v = (case v of None \<Rightarrow> False | Some s \<Rightarrow> s \<noteq> [])"

definition validate_action :: "action \<Rightarrow> action_error + action" where
  "validate_action a =
     (let kind = act_kind a in
      if kind \<in> {ADD_TAGS, REMOVE_TAGS} \<and> act_tags a = [] then Inl SemanticError
      else if kind = ADD_LINK \<and> \<not> some_nonempty (act_link_target a) then Inl SemanticError
      else if kind = CREATE_NOTE \<and> act_content_base64 a = None then Inl SemanticError
      else if kind = CREATE_NOTE \<and> act_expected_sha256 a \<noteq> None then Inl SemanticError
      else if kind = PATCH_NOTE \<and> act_patch a = [] then Inl SemanticError
      else if kind = PATCH_NOTE \<and> act_content_base64 a \<noteq> None then Inl SemanticError
      else if kind = MOVE_NOTE \<and> \<not> some_nonempty (act_target_file a) then Inl SemanticError
      else if kind \<noteq> PATCH_NOTE \<and> act_patch a \<noteq> [] then Inl SemanticError
      else if kind \<noteq> CREATE_NOTE \<and> act_content_base64 a \<noteq> None then Inl SemanticError
      else Inr a)"

text \<open>\<^verbatim>\<open>ActionSet\<close>: at most 20 actions; the other fields do not enter any check here.\<close>

definition validate_action_set :: "action list \<Rightarrow> action_error + action list" where
  "validate_action_set actions =
     (if actions = [] then Inl SemanticError
      else if \<not> distinct (map act_id actions) then Inl SemanticError
      else rmap validate_action actions)"

section \<open>What an accepted action satisfies\<close>

definition tag_ok :: "pystr \<Rightarrow> bool" where
  "tag_ok t \<longleftrightarrow> t \<noteq> [] \<and> length t \<le> 100 \<and> list_all (\<lambda>c. c \<notin> {10, 13, 44}) t"

lemma normalize_tag_Inr: "normalize_tag v = Inr t \<Longrightarrow> tag_ok t"
  by (auto simp: normalize_tag_def tag_ok_def Let_def list_ex_iff list_all_iff split: if_splits)

lemma rmap_Inr_list_all:
  "rmap f xs = Inr ys \<Longrightarrow> (\<And>x y. f x = Inr y \<Longrightarrow> P y) \<Longrightarrow> list_all P ys"
  by (induction xs arbitrary: ys) (auto simp: rbind_eq_Inr)

lemma rmap_Inr_length: "rmap f xs = Inr ys \<Longrightarrow> length ys = length xs"
  by (induction xs arbitrary: ys) (auto simp: rbind_eq_Inr)

definition content_ok :: "pystr \<Rightarrow> bool" where
  "content_ok v \<longleftrightarrow> (case b64_decode v of None \<Rightarrow> False | Some d \<Rightarrow> length d \<le> 1000000)"

definition action_wf :: "pylib \<Rightarrow> action \<Rightarrow> bool" where
  "action_wf L a \<longleftrightarrow>
     safe_path (act_file a) \<and> pred_option safe_path (act_target_file a) \<and>
     pred_option safe_path (act_link_target a) \<and>
     act_level a \<in> {0, 1, 2} \<and>
     list_all tag_ok (act_tags a) \<and> length (act_tags a) \<le> 10 \<and>
     distinct (map (casefold L) (act_tags a)) \<and>
     list_all (\<lambda>h. 0 \<le> h_start h) (act_patch a) \<and> length (act_patch a) \<le> 20 \<and>
     pred_option content_ok (act_content_base64 a) \<and>
     1 \<le> length (act_reason a) \<and> length (act_reason a) \<le> 500"

lemma validate_path_field_Inr [simp]: "validate_path_field v = Inr r \<longleftrightarrow> r = v \<and> safe_path v"
  using validate_relative_path_Inr [of v r] by (auto simp: validate_path_field_def split: sum.splits)

lemma validate_optional_path [simp]:
  "validate_optional validate_path_field v = Inr r \<longleftrightarrow> r = v \<and> pred_option safe_path v"
  by (cases v) (auto simp: rbind_eq_Inr)

lemma validate_hunk_start: "validate_hunk h = Inr h' \<Longrightarrow> 0 \<le> h_start h'"
  by (auto simp: validate_hunk_def rbind_eq_Inr)

lemma validate_content_Inr: "validate_content v = Inr r \<Longrightarrow> r = v \<and> pred_option content_ok v"
  by (cases v) (auto simp: validate_content_def content_ok_def split: option.splits if_splits)

lemma parse_action_wf:
  assumes "parse_action L a = Inr b"
  shows "action_wf L b"
proof -
  obtain tags patch content expected where steps:
    "safe_path (act_file a)" "pred_option safe_path (act_target_file a)"
    "pred_option safe_path (act_link_target a)" "act_level a \<in> {0, 1, 2}"
    "validate_tags L (act_tags a) = Inr tags" "length (act_patch a) \<le> 20"
    "rmap validate_hunk (act_patch a) = Inr patch"
    "validate_content (act_content_base64 a) = Inr content"
    "1 \<le> length (act_reason a)" "length (act_reason a) \<le> 500"
    "b = a\<lparr>act_tags := tags, act_patch := patch, act_content_base64 := content,
            act_expected_sha256 := expected\<rparr>"
    using assms unfolding parse_action_def rbind_eq_Inr by auto
  have "list_all tag_ok tags" "length tags \<le> 10" "distinct (map (casefold L) tags)"
    using steps(5) rmap_Inr_list_all [of normalize_tag "act_tags a" tags tag_ok] normalize_tag_Inr
      rmap_Inr_length [of normalize_tag "act_tags a" tags]
    by (auto simp: validate_tags_def rbind_eq_Inr)
  moreover have "list_all (\<lambda>h. 0 \<le> h_start h) patch" "length patch \<le> 20"
    using steps(6,7) rmap_Inr_list_all [OF _ validate_hunk_start] rmap_Inr_length by fastforce+
  moreover have "pred_option content_ok content"
    using steps(8) validate_content_Inr by metis
  ultimately show ?thesis
    using steps by (simp add: action_wf_def)
qed

lemma validate_action_Inr: "validate_action a = Inr b \<Longrightarrow> b = a"
  by (auto simp: validate_action_def Let_def split: if_splits)

lemma rmap_identity: "(\<And>x y. f x = Inr y \<Longrightarrow> y = x) \<Longrightarrow> rmap f xs = Inr ys \<Longrightarrow> ys = xs"
  by (induction xs arbitrary: ys) (auto simp: rbind_eq_Inr)

section \<open>Base64 round trip\<close>

lemma b64_value_char: "v < 64 \<Longrightarrow> b64_value (b64_char v) = Some v"
proof -
  have "list_all (\<lambda>v. b64_value (b64_char v) = Some v) [0..<64]"
    by code_simp
  then show "v < 64 \<Longrightarrow> b64_value (b64_char v) = Some v"
    by (simp add: list_all_iff)
qed

lemma b64_char_not_equals: "v < 64 \<Longrightarrow> b64_char v \<noteq> EQUALS"
proof -
  have "list_all (\<lambda>v. b64_char v \<noteq> EQUALS) [0..<64]"
    by code_simp
  then show "v < 64 \<Longrightarrow> b64_char v \<noteq> EQUALS"
    by (simp add: list_all_iff)
qed

lemma byte_bound: "unat (x :: byte) < 256"
proof -
  have "unat x < 2 ^ LENGTH(8)" by (rule unsigned_less)
  then show ?thesis by simp
qed

lemma byte_digits:
  "(a::nat) < 256 \<Longrightarrow> a div 4 < 64" "(a::nat) mod 4 * 16 < 64"
  "(b::nat) < 256 \<Longrightarrow> a mod 4 * 16 + b div 16 < 64" "(b::nat) mod 16 * 4 < 64"
  "(c::nat) < 256 \<Longrightarrow> b mod 16 * 4 + c div 64 < 64" "(c::nat) mod 64 < 64"
  by linarith+

lemma byte_norm [simp]:
  fixes n :: nat
  assumes "n < 256"
  shows "n div 16 div 16 = 0" "n div 16 mod 16 = n div 16" "n div 64 div 4 = 0" "n div 64 mod 4 = n div 64"
  using assms by (simp_all add: div_mult2_eq [symmetric])

lemma to_byte_unat [simp]: "to_byte (unat x) = x"
  by (simp add: to_byte_def)

lemma b64_decode_encode: "b64_decode (b64_encode d) = Some d"
  by (induction d rule: b64_encode.induct)
    (simp_all add: Let_def b64_value_char b64_char_not_equals byte_digits byte_bound)

end
