(* ===== verification/Patches.thy ===== *)
theory Patches imports Actions begin

text \<open>
  \<^verbatim>\<open>server/actions/patches.py\<close>: the format-preserving edits of a note. The regular
  expressions are written out as the line predicates they are; Python's \<^verbatim>\<open>splitlines\<close> is
  the one of \<^theory_text>\<open>PyText\<close>. The lemmas say what each edit can do to a note: \<open>add_tags\<close> only
  inserts, \<open>remove_tags\<close> only deletes, hunks replace exactly what they name.
\<close>

abbreviation CR :: nat where "CR \<equiv> 13"
abbreviation LF :: nat where "LF \<equiv> 10"
abbreviation BOM :: nat where "BOM \<equiv> 65279"

datatype patch_error = UnsupportedPatch | PatchDecodeError | PatchEncodeError

definition is_blank :: "nat \<Rightarrow> bool" where
  "is_blank c \<longleftrightarrow> c = 32 \<or> c = 9"

definition is_crlf :: "nat \<Rightarrow> bool" where
  "is_crlf c \<longleftrightarrow> c = CR \<or> c = LF"

definition strip_bom :: "pystr \<Rightarrow> pystr \<times> nat" where
  "strip_bom text = (if starts_with text [BOM] then (tl text, 1) else (text, 0))"

definition bom_prefix :: "nat \<Rightarrow> pystr" where
  "bom_prefix bom = (if bom \<noteq> 0 then [BOM] else [])"

section \<open>The frontmatter and its tags block\<close>

definition frontmatter_span :: "pystr \<Rightarrow> (nat \<times> nat) option" where
  "frontmatter_span text =
     (let cleaned = fst (strip_bom text) in
      if \<not> starts_with cleaned (lit ''---'') then None
      else case find_sub cleaned [LF] 0 of
        None \<Rightarrow> None
      | Some first_end \<Rightarrow>
          if strip (take first_end cleaned) \<noteq> lit ''---'' then None
          else (case find_sub cleaned (LF # lit ''---'') (first_end + 1) of
                  None \<Rightarrow> None
                | Some marker \<Rightarrow> Some (first_end + 1, marker + 1)))"

text \<open>\<^verbatim>\<open>_TAG_HEADER_RE\<close>: \<^verbatim>\<open>tags:\<close>, blanks, and nothing or a comment.\<close>

definition is_tag_header :: "pystr \<Rightarrow> bool" where
  "is_tag_header line \<longleftrightarrow>
     starts_with line (lit ''tags:'') \<and>
     (let rest = dropWhile is_blank (drop 5 line) in
      rest = [] \<or> hd rest = 35 \<and> list_all (\<lambda>c. \<not> is_crlf c) rest)"

text \<open>
  \<^verbatim>\<open>_TAG_ITEM_RE\<close>: up to four blanks, a dash or star, at least one blank, then the item
  without its trailing blanks.
\<close>

definition tag_item :: "pystr \<Rightarrow> pystr option" where
  "tag_item line =
     (let body = dropWhile is_blank line; lead = length (takeWhile is_blank line) in
      if lead \<le> 4 \<and> body \<noteq> [] \<and> (hd body = 45 \<or> hd body = 42) \<and>
         tl body \<noteq> [] \<and> is_blank (hd (tl body)) \<and> list_all (\<lambda>c. \<not> is_crlf c) line
      then Some (rstrip_if is_blank (dropWhile is_blank (tl body)))
      else None)"

type_synonym span_line = "pystr \<times> nat \<times> nat"

text \<open>The loop once the header is found: items are collected, blank lines skipped, anything else ends the block.\<close>

fun tag_items :: "pystr list \<Rightarrow> nat \<Rightarrow> span_line list \<times> nat option" where
  "tag_items [] pos = ([], None)"
| "tag_items (raw # lines) pos =
     (let line = rstrip_if is_crlf raw; next_pos = pos + length raw in
      if tag_item line \<noteq> None then
        (case tag_items lines next_pos of (items, e) \<Rightarrow> ((raw, pos, next_pos) # items, e))
      else if strip line = [] then tag_items lines next_pos
      else ([], Some pos))"

fun tag_block_from :: "pystr list \<Rightarrow> nat \<Rightarrow> (span_line list \<times> nat option) option" where
  "tag_block_from [] pos = None"
| "tag_block_from (raw # lines) pos =
     (let next_pos = pos + length raw in
      if is_tag_header (rstrip_if is_crlf raw) then
        (case tag_items lines next_pos of (items, e) \<Rightarrow> Some ((raw, pos, next_pos) # items, e))
      else tag_block_from lines next_pos)"

definition tag_block_lines :: "pystr \<Rightarrow> nat \<Rightarrow> (span_line list \<times> nat) option" where
  "tag_block_lines frontmatter base =
     (case tag_block_from (splitlines_keep frontmatter) base of
        None \<Rightarrow> None
      | Some (lines, None) \<Rightarrow> Some (lines, base + length frontmatter)
      | Some (lines, Some e) \<Rightarrow> Some (lines, e))"

definition tag_block_abs :: "pystr \<Rightarrow> nat \<Rightarrow> (nat \<times> nat) option" where
  "tag_block_abs frontmatter base =
     (case tag_block_lines frontmatter base of
        None \<Rightarrow> None
      | Some (lines, e) \<Rightarrow> Some (fst (snd (hd lines)), e))"

definition has_tags_block :: "pystr \<Rightarrow> bool" where
  "has_tags_block source =
     (case frontmatter_span source of
        None \<Rightarrow> False
      | Some (s, e) \<Rightarrow> tag_block_abs (slice source s e) s \<noteq> None)"

section \<open>Adding and removing tags\<close>

definition newline_of :: "pystr \<Rightarrow> pystr" where
  "newline_of text = (if find_sub text [CR, LF] 0 \<noteq> None then [CR, LF] else [LF])"

definition tag_lines :: "pystr \<Rightarrow> pystr list \<Rightarrow> pystr" where
  "tag_lines newline tags = concat (map (\<lambda>tag. lit ''  - '' @ tag @ newline) tags)"

text \<open>\<^verbatim>\<open>(?m)^(?:tags|'tags'|"tags")[ \t]*:\<close> anywhere in the frontmatter.\<close>

definition is_tags_key :: "pystr \<Rightarrow> bool" where
  "is_tags_key line \<longleftrightarrow>
     list_ex (\<lambda>k. starts_with line k \<and>
                  starts_with (dropWhile is_blank (drop (length k) line)) (lit '':''))
       [lit ''tags'', 39 # lit ''tags'' @ [39], 34 # lit ''tags'' @ [34]]"

definition add_tags :: "pystr \<Rightarrow> pystr list \<Rightarrow> patch_error + pystr" where
  "add_tags source tags =
     (case strip_bom source of
        (text, bom) \<Rightarrow>
          let newline = newline_of text;
              addition = tag_lines newline tags;
              prefix = bom_prefix bom in
          (case frontmatter_span text of
             None \<Rightarrow> Inr (prefix @ lit ''---'' @ newline @ lit ''tags:'' @ newline @ addition
                         @ lit ''---'' @ newline @ text)
           | Some (s, e) \<Rightarrow>
               (case tag_block_abs (slice text s e) s of
                  Some (_, block_end) \<Rightarrow>
                    Inr (prefix @ take block_end text @ addition @ drop block_end text)
                | None \<Rightarrow>
                    if list_ex is_tags_key (split_on LF (slice text s e)) then Inl UnsupportedPatch
                    else Inr (prefix @ take e text @ lit ''tags:'' @ newline @ addition @ drop e text))))"

definition remove_tags :: "pylib \<Rightarrow> pystr \<Rightarrow> pystr list \<Rightarrow> patch_error + pystr" where
  "remove_tags L source tags =
     (case strip_bom source of
        (text, bom) \<Rightarrow>
          (case frontmatter_span text of
             None \<Rightarrow> Inl UnsupportedPatch
           | Some (s, e) \<Rightarrow>
               (case tag_block_lines (slice text s e) s of
                  None \<Rightarrow> Inl UnsupportedPatch
                | Some (lines, _) \<Rightarrow>
                    let wanted = map (casefold L) tags;
                        item = (\<lambda>(raw, _, _). tag_item (rstrip_if is_crlf raw));
                        hit = (\<lambda>l. case item l of None \<Rightarrow> False
                                    | Some i \<Rightarrow> casefold L (strip i) \<in> set wanted);
                        kept = filter (\<lambda>l. \<not> hit l) lines;
                        surviving = filter (\<lambda>l. item l \<noteq> None) kept;
                        block_start = fst (snd (hd lines));
                        block_end = snd (snd (last lines)) in
                    if filter hit lines = [] then Inl UnsupportedPatch
                    else if surviving = [] then
                      Inr (bom_prefix bom @ take block_start text @ drop block_end text)
                    else
                      Inr (bom_prefix bom @ take block_start text @ concat (map fst kept)
                           @ drop block_end text))))"

section \<open>Links and hunks\<close>

text \<open>The number of lines that start, after blanks, with a code fence.\<close>

definition fence_count :: "pystr \<Rightarrow> nat" where
  "fence_count source =
     length (filter (\<lambda>l. starts_with (dropWhile is_blank l) [96, 96, 96]) (split_on LF source))"

definition inside_fence_at_end :: "pystr \<Rightarrow> bool" where
  "inside_fence_at_end source \<longleftrightarrow> fence_count source mod 2 = 1"

definition add_link :: "pystr \<Rightarrow> pystr \<Rightarrow> patch_error + pystr" where
  "add_link source target =
     (if inside_fence_at_end source then Inl UnsupportedPatch
      else
        let body = rstrip_if (\<lambda>c. c = CR) (rstrip_if (\<lambda>c. c = LF) source) in
        Inr (body @ [LF, LF] @ lit ''[['' @ target @ lit '']]'' @ [LF]))"

fun apply_sorted :: "patch_hunk list \<Rightarrow> int \<Rightarrow> pystr \<Rightarrow> patch_error + pystr" where
  "apply_sorted [] offset text = Inr text"
| "apply_sorted (h # hs) offset text =
     (let start = h_start h + offset; old = h_old_text h; new = h_new_text h in
      if start < 0 \<or> int (length text) < start + int (length old) then Inl UnsupportedPatch
      else
        let i = nat start in
        if slice text i (i + length old) \<noteq> old then Inl UnsupportedPatch
        else apply_sorted hs (offset + int (length new) - int (length old))
               (take i text @ new @ drop (i + length old) text))"

definition apply_hunks :: "bytes \<Rightarrow> patch_hunk list \<Rightarrow> nat \<Rightarrow> patch_error + bytes" where
  "apply_hunks data hunks max_output_bytes =
     (case utf8_decode data of
        None \<Rightarrow> Inl PatchDecodeError
      | Some text \<Rightarrow>
          rbind (apply_sorted (sort_key h_start hunks) 0 text) (\<lambda>text'.
          case utf8_encode text' of
            None \<Rightarrow> Inl PatchEncodeError
          | Some result \<Rightarrow>
              if max_output_bytes < length result then Inl UnsupportedPatch else Inr result))"

definition strip_tags_block :: "pystr \<Rightarrow> pystr" where
  "strip_tags_block text =
     (case strip_bom text of
        (cleaned, bom) \<Rightarrow>
          (case frontmatter_span cleaned of
             None \<Rightarrow> text
           | Some (s, e) \<Rightarrow>
               (case tag_block_abs (slice cleaned s e) s of
                  None \<Rightarrow> text
                | Some (block_start, block_end) \<Rightarrow>
                    bom_prefix bom @ take block_start cleaned @ drop block_end cleaned)))"

definition tags_only_change :: "pystr \<Rightarrow> pystr \<Rightarrow> bool" where
  "tags_only_change before after \<longleftrightarrow> strip_tags_block before = strip_tags_block after"

section \<open>What the edits can do to a note\<close>

lemma strip_bom_prefix: "strip_bom source = (text, bom) \<Longrightarrow> source = bom_prefix bom @ text"
  by (cases source) (auto simp: strip_bom_def bom_prefix_def starts_with_def split: if_splits)

text \<open>Adding tags only inserts, and the insertion is the tag lines with at most a header around them.\<close>

definition tags_insertion :: "pystr \<Rightarrow> pystr list \<Rightarrow> pystr list" where
  "tags_insertion newline tags =
     [tag_lines newline tags,
      lit ''tags:'' @ newline @ tag_lines newline tags,
      lit ''---'' @ newline @ lit ''tags:'' @ newline @ tag_lines newline tags @ lit ''---'' @ newline]"

lemma tags_insertion_mem:
  "tag_lines newline tags \<in> set (tags_insertion newline tags)"
  "lit ''tags:'' @ newline @ tag_lines newline tags \<in> set (tags_insertion newline tags)"
  by (simp_all add: tags_insertion_def)

lemma add_tags_inserts:
  assumes "add_tags source tags = Inr r"
  shows "\<exists>a b ins. source = a @ b \<and> r = a @ ins @ b \<and>
           ins \<in> set (tags_insertion (newline_of (fst (strip_bom source))) tags)"
proof -
  obtain cl bom where st: "strip_bom source = (cl, bom)"
    by (cases "strip_bom source")
  have src: "source = bom_prefix bom @ cl"
    using strip_bom_prefix [OF st] .
  show ?thesis
  proof (cases "frontmatter_span cl")
    case None
    then have "r = bom_prefix bom @ tags_insertion (newline_of cl) tags ! 2 @ cl"
      using assms by (simp add: add_tags_def st Let_def tags_insertion_def)
    moreover have "tags_insertion (newline_of cl) tags ! 2 \<in> set (tags_insertion (newline_of cl) tags)"
      by (simp add: tags_insertion_def)
    ultimately show ?thesis using src st by auto
  next
    case (Some se)
    obtain s e where se: "se = (s, e)" by (cases se)
    have "\<exists>n ins. r = bom_prefix bom @ take n cl @ ins @ drop n cl \<and>
        ins \<in> set (tags_insertion (newline_of cl) tags)"
    proof (cases "tag_block_abs (slice cl s e) s")
      case None
      then have "r = bom_prefix bom @ take e cl @ (lit ''tags:'' @ newline_of cl @
          tag_lines (newline_of cl) tags) @ drop e cl"
        using assms Some se by (simp add: add_tags_def st Let_def split: if_splits)
      then show ?thesis using tags_insertion_mem(2) by blast
    next
      case block: (Some be)
      then have "r = bom_prefix bom @ take (snd be) cl @ tag_lines (newline_of cl) tags @ drop (snd be) cl"
        using assms Some se by (cases be) (simp add: add_tags_def st Let_def)
      then show ?thesis using tags_insertion_mem(1) by blast
    qed
    then obtain n ins where "r = bom_prefix bom @ take n cl @ ins @ drop n cl"
        "ins \<in> set (tags_insertion (newline_of cl) tags)"
      by blast
    moreover have "source = (bom_prefix bom @ take n cl) @ drop n cl"
      using src by simp
    ultimately show ?thesis
      using st by (metis append.assoc fst_conv)
  qed
qed

text \<open>The lines of a block are a subsequence of the text between its first and its last line.\<close>

lemma tag_items_spans:
  "tag_items lines pos = (items, e) \<Longrightarrow> items \<noteq> [] \<Longrightarrow>
     \<exists>mid post. concat lines = mid @ post \<and> snd (snd (last items)) = pos + length mid \<and>
       subseq (concat (map fst items)) mid"
proof (induction lines pos arbitrary: items e rule: tag_items.induct)
  case (2 raw lines pos)
  let ?line = "rstrip_if is_crlf raw"
  obtain items' e' where rec: "tag_items lines (pos + length raw) = (items', e')"
    by (cases "tag_items lines (pos + length raw)")
  consider (item) "tag_item ?line \<noteq> None" | (blank) "tag_item ?line = None" "strip ?line = []"
    | (other) "tag_item ?line = None" "strip ?line \<noteq> []" by blast
  then show ?case
  proof cases
    case item
    then have items: "items = (raw, pos, pos + length raw) # items'"
      using "2.prems"(1) rec by (auto simp: Let_def)
    show ?thesis
    proof (cases "items' = []")
      case True
      then show ?thesis using items by (intro exI [of _ raw] exI [of _ "concat lines"]) simp
    next
      case False
      with "2.IH"(1) [OF refl refl item rec] obtain mid post where
        "concat lines = mid @ post" "snd (snd (last items')) = pos + length raw + length mid"
        "subseq (concat (map fst items')) mid" by blast
      then show ?thesis
        using items False
        by (intro exI [of _ "raw @ mid"] exI [of _ post] conjI) (simp_all add: subseq_append')
    qed
  next
    case blank
    then have "tag_items lines (pos + length raw) = (items, e)"
      using "2.prems"(1) by (simp add: Let_def)
    with "2.IH"(2) [OF refl refl _ _ this "2.prems"(2)] blank obtain mid post where
      "concat lines = mid @ post" "snd (snd (last items)) = pos + length raw + length mid"
      "subseq (concat (map fst items)) mid" by auto
    then show ?thesis
      by (intro exI [of _ "raw @ mid"] exI [of _ post] conjI) (simp_all add: subseq_drop_many)
  next
    case other
    with 2 show ?thesis by (simp add: Let_def)
  qed
qed simp

lemma tag_block_spans:
  "tag_block_from lines pos = Some (items, e) \<Longrightarrow>
     items \<noteq> [] \<and> (\<exists>pre mid post. concat lines = pre @ mid @ post \<and>
       fst (snd (hd items)) = pos + length pre \<and>
       snd (snd (last items)) = pos + length pre + length mid \<and>
       subseq (concat (map fst items)) mid)"
proof (induction lines pos arbitrary: items e rule: tag_block_from.induct)
  case (2 raw lines pos)
  show ?case
  proof (cases "is_tag_header (rstrip_if is_crlf raw)")
    case True
    obtain rest e' where rec: "tag_items lines (pos + length raw) = (rest, e')"
      by (cases "tag_items lines (pos + length raw)")
    with True "2.prems" have items: "items = (raw, pos, pos + length raw) # rest"
      by (simp add: Let_def)
    show ?thesis
    proof (cases "rest = []")
      case True
      then have "concat (raw # lines) = [] @ raw @ concat lines \<and> fst (snd (hd items)) = pos + length [] \<and>
          snd (snd (last items)) = pos + length [] + length raw \<and> subseq (concat (map fst items)) raw"
        using items by simp
      then show ?thesis using items by blast
    next
      case False
      with tag_items_spans [OF rec] obtain mid post where m:
        "concat lines = mid @ post" "snd (snd (last rest)) = pos + length raw + length mid"
        "subseq (concat (map fst rest)) mid" by blast
      then have "concat (raw # lines) = [] @ (raw @ mid) @ post \<and> fst (snd (hd items)) = pos + length [] \<and>
          snd (snd (last items)) = pos + length [] + length (raw @ mid) \<and>
          subseq (concat (map fst items)) (raw @ mid)"
        using items False by (simp add: subseq_append')
      then show ?thesis using items by blast
    qed
  next
    case False
    then have "tag_block_from lines (pos + length raw) = Some (items, e)"
      using "2.prems" by (simp add: Let_def)
    with "2.IH" [OF refl False this] obtain pre mid post where ne: "items \<noteq> []"
      and "concat lines = pre @ mid @ post" "fst (snd (hd items)) = pos + length raw + length pre"
        "snd (snd (last items)) = pos + length raw + length pre + length mid"
        "subseq (concat (map fst items)) mid"
      by blast
    then have "concat (raw # lines) = (raw @ pre) @ mid @ post \<and>
        fst (snd (hd items)) = pos + length (raw @ pre) \<and>
        snd (snd (last items)) = pos + length (raw @ pre) + length mid \<and>
        subseq (concat (map fst items)) mid"
      by simp
    with ne show ?thesis by blast
  qed
qed simp

lemma frontmatter_span_bounds:
  assumes "frontmatter_span note = Some (s, e)"
  shows "s \<le> e \<and> e \<le> length note"
proof -
  obtain first_end marker where f: "find_sub (fst (strip_bom note)) (LF # lit ''---'') (first_end + 1) = Some marker"
      "s = first_end + 1" "e = marker + 1"
    using assms by (auto simp: frontmatter_span_def Let_def split: option.splits if_splits)
  then have "first_end + 1 \<le> marker" "marker + 4 \<le> length (fst (strip_bom note))"
    using find_sub_Some [OF f(1)] by simp_all
  moreover have "length (fst (strip_bom note)) \<le> length note"
    by (simp add: strip_bom_def)
  ultimately show ?thesis using f by linarith
qed

lemma filter_concat_subseq: "subseq (concat (map f (filter P xs))) (concat (map f xs))"
  by (induction xs) (auto simp: subseq_append' subseq_drop_many)

lemma remove_tags_deletes:
  assumes "remove_tags L source tags = Inr r"
  shows "subseq r source"
proof -
  obtain nt bom where st: "strip_bom source = (nt, bom)"
    by (cases "strip_bom source")
  obtain s e where span: "frontmatter_span nt = Some (s, e)"
    using assms st by (cases "frontmatter_span nt") (auto simp: remove_tags_def)
  obtain lines x where block: "tag_block_lines (slice nt s e) s = Some (lines, x)"
    using assms st span by (cases "tag_block_lines (slice nt s e) s") (auto simp: remove_tags_def)
  then obtain y where blockf: "tag_block_from (splitlines_keep (slice nt s e)) s = Some (lines, y)"
    by (auto simp: tag_block_lines_def split: option.splits prod.splits)
  then obtain pre mid post where parts: "slice nt s e = pre @ mid @ post"
      "fst (snd (hd lines)) = s + length pre" "snd (snd (last lines)) = s + length pre + length mid"
      "subseq (concat (map fst lines)) mid"
    using tag_block_spans [OF blockf] by auto
  have bounds: "s \<le> e" "e \<le> length nt"
    using frontmatter_span_bounds [OF span] by simp_all
  define a where "a = take s nt @ pre"
  define b where "b = post @ drop e nt"
  have note_eq: "nt = a @ mid @ b"
  proof -
    have "nt = slice nt 0 s @ slice nt s e @ slice nt e (length nt)"
      using bounds by (simp add: slice_append_slice)
    then show ?thesis
      using parts(1) bounds by (simp add: a_def b_def slice_def)
  qed
  have la: "length a = s + length pre"
    using bounds by (simp add: a_def)
  have cut: "take (fst (snd (hd lines))) nt = a" "drop (snd (snd (last lines))) nt = b"
    using note_eq la parts(2,3) by simp_all
  have "\<exists>w. r = bom_prefix bom @ a @ w @ b \<and> subseq w (concat (map fst lines))"
  proof -
    define hit where "hit = (\<lambda>(raw, _ :: nat, _ :: nat). case tag_item (rstrip_if is_crlf raw) of None \<Rightarrow> False
        | Some i \<Rightarrow> casefold L (strip i) \<in> set (map (casefold L) tags))"
    have "r = bom_prefix bom @ a @ b \<or>
        r = bom_prefix bom @ a @ concat (map fst (filter (\<lambda>l. \<not> hit l) lines)) @ b"
      using assms st span block cut
      by (auto simp: remove_tags_def Let_def hit_def split_beta split: if_splits)
    then show ?thesis
      using filter_concat_subseq [of fst "\<lambda>l. \<not> hit l" lines] by fastforce
  qed
  then obtain w where w: "r = bom_prefix bom @ a @ w @ b" "subseq w (concat (map fst lines))"
    by blast
  then have "subseq w mid"
    using parts(4) subseq_order.order_trans by blast
  then have "subseq (a @ w @ b) nt"
    unfolding note_eq by (simp add: subseq_append')
  then show ?thesis
    unfolding w(1) strip_bom_prefix [OF st] by (simp only: subseq_append')
qed

section \<open>Hunks against their reference\<close>

text \<open>
  The reference: the hunks, in ascending order, replace disjoint spans of the original text, and
  every context is compared with the original text. The code edits a running text with a running
  offset instead; for hunks that do not overlap both are the same.
\<close>

fun disjoint_from :: "nat \<Rightarrow> nat \<Rightarrow> patch_hunk list \<Rightarrow> bool" where
  "disjoint_from n pos [] \<longleftrightarrow> pos \<le> n"
| "disjoint_from n pos (h # hs) \<longleftrightarrow>
     int pos \<le> h_start h \<and> disjoint_from n (nat (h_start h) + length (h_old_text h)) hs"

definition context_matches :: "pystr \<Rightarrow> patch_hunk \<Rightarrow> bool" where
  "context_matches original h \<longleftrightarrow>
     slice original (nat (h_start h)) (nat (h_start h) + length (h_old_text h)) = h_old_text h"

fun splice :: "pystr \<Rightarrow> nat \<Rightarrow> patch_hunk list \<Rightarrow> pystr" where
  "splice original pos [] = drop pos original"
| "splice original pos (h # hs) =
     slice original pos (nat (h_start h)) @ h_new_text h @
     splice original (nat (h_start h) + length (h_old_text h)) hs"

lemma disjoint_from_le: "disjoint_from n pos hs \<Longrightarrow> pos \<le> n"
  by (induction n pos hs rule: disjoint_from.induct) auto

lemma apply_sorted_splice:
  "disjoint_from (length original) pos hs \<Longrightarrow>
     apply_sorted hs (int (length out) - int pos) (out @ drop pos original) =
       (if list_all (context_matches original) hs then Inr (out @ splice original pos hs)
        else Inl UnsupportedPatch)"
proof (induction original pos hs arbitrary: out rule: splice.induct)
  case (2 original pos h hs)
  define i where "i = nat (h_start h)"
  define old where "old = h_old_text h"
  define off where "off = int (length out) - int pos"
  have i: "h_start h = int i" "pos \<le> i" and rest: "disjoint_from (length original) (i + length old) hs"
    using "2.prems" by (auto simp: i_def old_def)
  have le: "i + length old \<le> length original"
    using disjoint_from_le [OF rest] .
  have start: "h_start h + off = int (length out + (i - pos))"
    using i by (simp add: off_def)
  define at where "at = length out + (i - pos)"
  have running: "slice (out @ drop pos original) at (at + length old) = slice original i (i + length old)"
    using i le by (simp add: slice_def at_def)
  have head: "take at (out @ drop pos original) = out @ slice original pos i"
    using i by (simp add: at_def slice_def)
  have tail: "drop (at + length old) (out @ drop pos original) = drop (i + length old) original"
    using i by (simp add: at_def)
  have bound: "at + length old \<le> length (out @ drop pos original)"
    using i le by (simp add: at_def)
  define out' where "out' = out @ slice original pos i @ h_new_text h"
  have lo: "length out' = at + length (h_new_text h)"
    using i le by (simp add: out'_def at_def slice_def)
  have off': "off + int (length (h_new_text h)) - int (length old) =
      int (length out') - int (i + length old)"
    using i by (simp add: lo off_def at_def)
  have step: "apply_sorted (h # hs) off (out @ drop pos original) =
      (if context_matches original h
       then apply_sorted hs (int (length out') - int (i + length old)) (out' @ drop (i + length old) original)
       else Inl UnsupportedPatch)"
    using start bound running head tail
    unfolding off' [symmetric]
    by (simp add: Let_def context_matches_def i_def [symmetric] old_def [symmetric] at_def [symmetric] out'_def)
  show ?case
    using "2.IH" [of out'] rest unfolding off_def [symmetric] step
    by (simp add: i_def old_def out'_def)
qed simp

end
