(* ===== verification/Policy.thy ===== *)
theory Policy imports Actions begin

text \<open>
  \<^verbatim>\<open>server/policies/rules.py\<close> and \<^verbatim>\<open>server/policies/engine.py\<close>: the hard ceilings, the
  engine with its clamped budgets, the deny rules in the order the code tries them, the Level 2
  gate, and the evaluation of a whole action set. Every rule has one fixed reason text, so a result
  lists the rules; the reason texts and the echoed budgets are left out.
\<close>

section \<open>Rules and facts\<close>

definition AUTO_ACTIONS :: "action_type set" where "AUTO_ACTIONS = {ADD_TAGS, REMOVE_TAGS}"
definition MAX_ACTIONS :: int where "MAX_ACTIONS = 20"
definition MAX_FILES :: int where "MAX_FILES = 10"
definition MAX_LEVEL1_MODIFIED_CHARS :: int where "MAX_LEVEL1_MODIFIED_CHARS = 20000"
definition MAX_LEVEL2_MODIFIED_CHARS :: int where "MAX_LEVEL2_MODIFIED_CHARS = 2000"
definition LEVEL2_MAX_FILES :: int where "LEVEL2_MAX_FILES = 1"

definition DEFAULT_PROTECTED_PREFIXES :: "pystr list" where
  "DEFAULT_PROTECTED_PREFIXES = [lit ''.localnote'']"

definition min_level_by_action :: "action_type \<Rightarrow> int" where
  "min_level_by_action a = 1"

datatype policy_decision = ALLOW | DENY | CONFIRM

datatype policy_rule =
    InvalidLevel | LevelTooLow | ProtectedPath | RecursiveOperation | MultiFileScope
  | FileCountBudget | AttachmentWrite | MarkdownRequired | TargetNotAllowlisted | OverwriteDenied
  | MissingFile | CreateExisting | MissingTarget | MoveOverwrite | ExpectedHashMissing
  | BrokenLinkTarget | UnknownTagRemove | DuplicateTagAdd | CharacterBudget | Level2BodyChange
  | ReadonlyMutation | Level1RequiresConfirmation | Level2DisallowedAction | Level2FileBudget
  | Level2Allow | ActionBudget | ConflictingActions | DenyPrecedence | AllActionsAllowed

record action_facts =
  f_existing :: bool
  f_protected :: bool
  f_overwrite :: bool
  f_file_count :: int
  f_modified_chars :: int
  f_single_file :: bool
  f_target_exists :: bool
  f_attachment :: bool
  f_markdown :: bool
  f_recursive :: bool
  f_allowlisted_target :: bool
  f_body_change :: bool
  f_duplicate_tags :: bool
  f_tags_present :: bool
  f_link_target_exists :: bool

text \<open>The dataclass defaults; \<open>f_single_file\<close> is \<^verbatim>\<open>scope == "single-file"\<close>.\<close>

definition default_facts :: action_facts where
  "default_facts = \<lparr>f_existing = True, f_protected = False, f_overwrite = False, f_file_count = 1,
     f_modified_chars = 0, f_single_file = True, f_target_exists = False, f_attachment = False,
     f_markdown = True, f_recursive = False, f_allowlisted_target = True, f_body_change = False,
     f_duplicate_tags = False, f_tags_present = True, f_link_target_exists = True\<rparr>"

record policy_result =
  p_decision :: policy_decision
  p_level :: int
  p_action :: "action_type option"
  p_rules :: "policy_rule list"

record policy_set_result =
  ps_decision :: policy_decision
  ps_results :: "policy_result list"
  ps_rules :: "policy_rule list"

record engine =
  max_actions :: int
  max_files :: int
  max_modified_chars :: int
  max_level2_modified_chars :: int
  level2_max_files :: int
  level2_auto_actions :: "action_type set"
  protected_prefixes :: "pystr list"

definition make_engine ::
  "int \<Rightarrow> int \<Rightarrow> int \<Rightarrow> int \<Rightarrow> int \<Rightarrow> action_type set \<Rightarrow> pystr list \<Rightarrow> engine" where
  "make_engine actions files chars chars2 files2 auto prots =
     (let mf = max 1 (min files MAX_FILES) in
      \<lparr>max_actions = max 1 (min actions MAX_ACTIONS),
       max_files = mf,
       max_modified_chars = max 0 (min chars MAX_LEVEL1_MODIFIED_CHARS),
       max_level2_modified_chars = max 0 (min chars2 MAX_LEVEL2_MODIFIED_CHARS),
       level2_max_files = max 1 (min files2 mf),
       level2_auto_actions = auto \<inter> AUTO_ACTIONS,
       protected_prefixes = (if prots = [] then DEFAULT_PROTECTED_PREFIXES else prots)\<rparr>)"

definition default_engine :: engine where
  "default_engine = make_engine MAX_ACTIONS MAX_FILES MAX_LEVEL1_MODIFIED_CHARS
     MAX_LEVEL2_MODIFIED_CHARS LEVEL2_MAX_FILES {} DEFAULT_PROTECTED_PREFIXES"

section \<open>One action\<close>

definition deny :: "policy_rule \<Rightarrow> policy_result \<Rightarrow> policy_result" where
  "deny rule r =
     r\<lparr>p_rules := (if rule \<in> set (p_rules r) then p_rules r else p_rules r @ [rule]),
       p_decision := DENY\<rparr>"

definition deny_if :: "bool \<Rightarrow> policy_rule \<Rightarrow> policy_result \<Rightarrow> policy_result" where
  "deny_if b rule r = (if b then deny rule r else r)"

definition is_protected :: "pylib \<Rightarrow> engine \<Rightarrow> pystr \<Rightarrow> bool" where
  "is_protected L E path =
     (let lowered = casefold L path in
      list_ex (\<lambda>prefix. lowered = prefix \<or> starts_with lowered (prefix @ [SLASH])) (protected_prefixes E))"

definition level_is :: "int \<Rightarrow> permission_level \<Rightarrow> bool" where
  "level_is level l \<longleftrightarrow> level = level_value l"

definition char_budget :: "engine \<Rightarrow> int \<Rightarrow> int" where
  "char_budget E level =
     (if level_is level LOW_RISK_AUTO then max_level2_modified_chars E else max_modified_chars E)"

text \<open>
  The conditions of \<^verbatim>\<open>_evaluate_deny_rules\<close> in order, each with its rule. The check that the
  action is a wire action is not there: every action type has a minimum level.
\<close>

definition deny_conditions ::
  "pylib \<Rightarrow> engine \<Rightarrow> action \<Rightarrow> action_facts \<Rightarrow> int \<Rightarrow> (bool \<times> policy_rule) list" where
  "deny_conditions L E a f level =
     (let kind = act_kind a;
          mutating_existing = kind \<in> {ADD_TAGS, REMOVE_TAGS, ADD_LINK, PATCH_NOTE, MOVE_NOTE} in
      [(level \<notin> {0, 1, 2}, InvalidLevel),
       (level < min_level_by_action kind, LevelTooLow),
       (f_protected f \<or> is_protected L E (act_file a) \<or>
          (some_nonempty (act_target_file a) \<and> is_protected L E (the (act_target_file a))), ProtectedPath),
       (f_recursive f, RecursiveOperation),
       (\<not> f_single_file f, MultiFileScope),
       (max_files E < f_file_count f, FileCountBudget),
       (f_attachment f, AttachmentWrite),
       (\<not> f_markdown f, MarkdownRequired),
       (\<not> f_allowlisted_target f, TargetNotAllowlisted),
       (f_overwrite f, OverwriteDenied),
       (mutating_existing \<and> \<not> f_existing f, MissingFile),
       (kind = CREATE_NOTE \<and> f_existing f, CreateExisting),
       (kind = MOVE_NOTE \<and> \<not> some_nonempty (act_target_file a), MissingTarget),
       (kind = MOVE_NOTE \<and> f_target_exists f, MoveOverwrite),
       (kind \<in> {PATCH_NOTE, MOVE_NOTE} \<and> \<not> some_nonempty (act_expected_sha256 a), ExpectedHashMissing),
       (kind = ADD_LINK \<and> \<not> f_link_target_exists f, BrokenLinkTarget),
       (kind = REMOVE_TAGS \<and> \<not> f_tags_present f, UnknownTagRemove),
       (kind = ADD_TAGS \<and> f_duplicate_tags f, DuplicateTagAdd),
       (char_budget E level < f_modified_chars f, CharacterBudget),
       (level_is level LOW_RISK_AUTO \<and> f_body_change f, Level2BodyChange)])"

definition evaluate_deny_rules ::
  "pylib \<Rightarrow> engine \<Rightarrow> action \<Rightarrow> action_facts \<Rightarrow> int \<Rightarrow> policy_result \<Rightarrow> policy_result" where
  "evaluate_deny_rules L E a f level r =
     foldl (\<lambda>r (b, rule). deny_if b rule r) r (deny_conditions L E a f level)"

definition evaluate_level2 :: "engine \<Rightarrow> action \<Rightarrow> action_facts \<Rightarrow> policy_result \<Rightarrow> policy_result" where
  "evaluate_level2 E a f r =
     (if act_kind a \<notin> level2_auto_actions E then deny Level2DisallowedAction r
      else if \<not> f_existing f \<or> f_overwrite f \<or> f_protected f then r
      else if level2_max_files E < f_file_count f \<or> \<not> f_single_file f then deny Level2FileBudget r
      else if f_body_change f \<or> max_level2_modified_chars E < f_modified_chars f then r
      else r\<lparr>p_decision := ALLOW, p_rules := [Level2Allow]\<rparr>)"

definition evaluate :: "pylib \<Rightarrow> engine \<Rightarrow> action \<Rightarrow> action_facts \<Rightarrow> int option \<Rightarrow> policy_result" where
  "evaluate L E a f level =
     (let effective_level = (case level of None \<Rightarrow> act_level a | Some l \<Rightarrow> l);
          r0 = \<lparr>p_decision = CONFIRM, p_level = effective_level, p_action = Some (act_kind a), p_rules = []\<rparr>;
          r = evaluate_deny_rules L E a f effective_level r0 in
      if p_decision r = DENY then r
      else if level_is effective_level READ_ONLY then deny ReadonlyMutation r
      else if level_is effective_level SUGGEST then
        r\<lparr>p_rules := p_rules r @ [Level1RequiresConfirmation]\<rparr>
      else evaluate_level2 E a f r)"

section \<open>Action sets\<close>

text \<open>The set of paths an action mutates, each once.\<close>

definition mutated_paths :: "action \<Rightarrow> pystr list" where
  "mutated_paths a =
     (if act_kind a = MOVE_NOTE \<and> some_nonempty (act_target_file a) \<and> the (act_target_file a) \<noteq> act_file a
      then [act_file a, the (act_target_file a)] else [act_file a])"

definition conflicting_paths :: "action list \<Rightarrow> pystr list" where
  "conflicting_paths actions =
     (let all = concat (map mutated_paths actions) in
      filter (\<lambda>p. 1 < count_list all p) (remdups all))"

definition set_denied ::
  "int option \<Rightarrow> policy_rule \<Rightarrow> policy_result list \<Rightarrow> policy_set_result" where
  "set_denied level rule results =
     \<lparr>ps_decision = DENY,
      ps_results = results @ [\<lparr>p_decision = DENY,
        p_level = (case level of None \<Rightarrow> 1 | Some l \<Rightarrow> if l = 0 then 1 else l),
        p_action = None, p_rules = [rule]\<rparr>],
      ps_rules = [rule]\<rparr>"

text \<open>\<open>matched.extend(rule for rule in item.matched_rules if rule not in matched)\<close>, item by item.\<close>

definition extend_new :: "'a list \<Rightarrow> 'a list \<Rightarrow> 'a list" where
  "extend_new xs ys = foldl (\<lambda>acc y. if y \<in> set acc then acc else acc @ [y]) xs ys"

definition evaluate_set ::
  "pylib \<Rightarrow> engine \<Rightarrow> action list \<Rightarrow> action_facts list \<Rightarrow> int option \<Rightarrow> policy_set_result" where
  "evaluate_set L E actions facts level =
     (if actions = [] \<or> max_actions E < int (length actions)
      then \<lparr>ps_decision = DENY, ps_results = [], ps_rules = [ActionBudget]\<rparr>
      else
        let fact_list = (if length facts = length actions then facts
              else take (length actions) (facts @ replicate (length actions) default_facts)) in
        if conflicting_paths actions \<noteq> [] then set_denied level ConflictingActions []
        else
          let results = map (\<lambda>(a, f). evaluate L E a f level) (zip actions fact_list) in
          if max_modified_chars E < sum_list (map f_modified_chars fact_list)
          then set_denied level CharacterBudget results
          else
            let (decision, first_rule) =
                  (if list_ex (\<lambda>r. p_decision r = DENY) results then (DENY, DenyPrecedence)
                   else if list_ex (\<lambda>r. p_decision r = CONFIRM) results
                   then (CONFIRM, Level1RequiresConfirmation)
                   else (ALLOW, AllActionsAllowed)) in
            \<lparr>ps_decision = decision, ps_results = results,
             ps_rules = foldl (\<lambda>acc r. extend_new acc (p_rules r)) [first_rule] results\<rparr>)"

text \<open>For evaluation: the results of a set, one action after the other.\<close>

fun evaluate_each ::
  "pylib \<Rightarrow> engine \<Rightarrow> int option \<Rightarrow> action list \<Rightarrow> action_facts list \<Rightarrow> policy_result list" where
  "evaluate_each L E level (a # as) (f # fs) = evaluate L E a f level # evaluate_each L E level as fs"
| "evaluate_each L E level _ _ = []"

lemma evaluate_each_eq: "map (\<lambda>(a, f). evaluate L E a f level) (zip as fs) = evaluate_each L E level as fs"
  by (induction L E level as fs rule: evaluate_each.induct) auto

lemmas evaluate_set_code [code] = evaluate_set_def [unfolded evaluate_each_eq]

section \<open>What the decisions mean\<close>

lemma deny_decision [simp]: "p_decision (deny rule r) = DENY"
  by (simp add: deny_def)

lemma deny_fold_decision:
  "p_decision (foldl (\<lambda>r (b, rule). deny_if b rule r) r cs) =
     (if list_ex fst cs then DENY else p_decision r)"
  by (induction cs arbitrary: r) (auto simp: deny_if_def)

lemma deny_fold_clear: "\<not> list_ex fst cs \<Longrightarrow> foldl (\<lambda>r (b, rule). deny_if b rule r) r cs = r"
  by (induction cs arbitrary: r) (auto simp: deny_if_def)

definition denied :: "pylib \<Rightarrow> engine \<Rightarrow> action \<Rightarrow> action_facts \<Rightarrow> int \<Rightarrow> bool" where
  "denied L E a f level \<longleftrightarrow> list_ex fst (deny_conditions L E a f level)"

lemma denied_unfold:
  "denied L E a f level \<longleftrightarrow> list_ex (\<lambda>b. b) (map fst (deny_conditions L E a f level))"
  by (simp add: denied_def list_ex_iff)

definition effective :: "action \<Rightarrow> int option \<Rightarrow> int" where
  "effective a level = (case level of None \<Rightarrow> act_level a | Some l \<Rightarrow> l)"

lemma not_denied_facts:
  assumes "\<not> denied L E a f l"
  shows "l \<in> {0, 1, 2}" "1 \<le> l" "\<not> f_protected f" "f_single_file f" "\<not> f_overwrite f"
    "f_file_count f \<le> max_files E" "f_markdown f" "\<not> f_attachment f"
    "\<not> is_protected L E (act_file a)"
    "f_modified_chars f \<le> char_budget E l" "act_kind a \<noteq> CREATE_NOTE \<longrightarrow> f_existing f"
    "act_kind a = CREATE_NOTE \<longrightarrow> \<not> f_existing f" "l = 2 \<longrightarrow> \<not> f_body_change f"
  using assms
  by (cases "act_kind a"; simp add: denied_unfold deny_conditions_def Let_def min_level_by_action_def level_is_def)+

lemma evaluate_eq:
  "evaluate L E a f level =
     (let l = effective a level;
          r0 = \<lparr>p_decision = CONFIRM, p_level = l, p_action = Some (act_kind a), p_rules = []\<rparr> in
      if denied L E a f l then evaluate_deny_rules L E a f l r0
      else if l = 1 then r0\<lparr>p_rules := [Level1RequiresConfirmation]\<rparr>
      else evaluate_level2 E a f r0)"
proof -
  define l where "l = effective a level"
  have unfolded: "evaluate L E a f level =
     (let r0 = \<lparr>p_decision = CONFIRM, p_level = l, p_action = Some (act_kind a), p_rules = []\<rparr>;
          r = evaluate_deny_rules L E a f l r0 in
      if p_decision r = DENY then r
      else if level_is l READ_ONLY then deny ReadonlyMutation r
      else if level_is l SUGGEST then r\<lparr>p_rules := p_rules r @ [Level1RequiresConfirmation]\<rparr>
      else evaluate_level2 E a f r)"
    by (simp only: evaluate_def Let_def l_def effective_def)
  show ?thesis
  proof (cases "denied L E a f l")
    case True
    then show ?thesis
      unfolding unfolded l_def [symmetric]
      by (simp add: Let_def evaluate_deny_rules_def deny_fold_decision denied_def)
  next
    case False
    then have fold: "evaluate_deny_rules L E a f l r = r" for r
      by (simp add: evaluate_deny_rules_def deny_fold_clear denied_def)
    show ?thesis
      using False not_denied_facts(2) [OF False]
      unfolding unfolded l_def [symmetric] by (simp add: Let_def fold level_is_def)
  qed
qed

text \<open>What the constructor guarantees whatever the configuration asks for.\<close>

definition engine_wf :: "engine \<Rightarrow> bool" where
  "engine_wf E \<longleftrightarrow>
     1 \<le> max_actions E \<and> max_actions E \<le> MAX_ACTIONS \<and>
     1 \<le> level2_max_files E \<and> level2_max_files E \<le> max_files E \<and> max_files E \<le> MAX_FILES \<and>
     0 \<le> max_modified_chars E \<and> max_modified_chars E \<le> MAX_LEVEL1_MODIFIED_CHARS \<and>
     0 \<le> max_level2_modified_chars E \<and> max_level2_modified_chars E \<le> MAX_LEVEL2_MODIFIED_CHARS \<and>
     level2_auto_actions E \<subseteq> AUTO_ACTIONS \<and> protected_prefixes E \<noteq> []"

lemma make_engine_wf: "engine_wf (make_engine actions files chars chars2 files2 auto prots)"
  by (auto simp: engine_wf_def make_engine_def Let_def MAX_ACTIONS_def MAX_FILES_def
      MAX_LEVEL1_MODIFIED_CHARS_def MAX_LEVEL2_MODIFIED_CHARS_def DEFAULT_PROTECTED_PREFIXES_def)

lemma evaluate_decision:
  assumes wf: "engine_wf E"
  shows "p_decision (evaluate L E a f level) =
     (let l = effective a level in
      if denied L E a f l then DENY
      else if l = 1 then CONFIRM
      else if act_kind a \<in> level2_auto_actions E \<and> f_file_count f \<le> level2_max_files E then ALLOW
      else DENY)"
proof (cases "denied L E a f (effective a level)")
  case True
  then show ?thesis
    by (simp add: evaluate_eq Let_def evaluate_deny_rules_def deny_fold_decision denied_def)
next
  case False
  note facts = not_denied_facts [OF False]
  show ?thesis
  proof (cases "effective a level = 1")
    case True
    with False show ?thesis by (simp add: evaluate_eq Let_def)
  next
    case level2: False
    then have two: "effective a level = 2"
      using facts(1,2) by auto
    show ?thesis
    proof (cases "act_kind a \<in> level2_auto_actions E")
      case True
      then have "act_kind a \<noteq> CREATE_NOTE"
        using wf by (auto simp: engine_wf_def AUTO_ACTIONS_def)
      then have "f_existing f" using facts(11) by blast
      then show ?thesis
        using False two facts True
        by (auto simp: evaluate_eq Let_def evaluate_level2_def char_budget_def level_is_def)
    next
      case other: False
      then show ?thesis
        using False two by (simp add: evaluate_eq Let_def evaluate_level2_def)
    qed
  qed
qed

text \<open>A whole set is allowed only when every action is.\<close>

lemma evaluate_set_allow:
  assumes "ps_decision (evaluate_set L E actions facts level) = ALLOW"
  shows "actions \<noteq> [] \<and> int (length actions) \<le> max_actions E \<and> conflicting_paths actions = [] \<and>
    (\<exists>fs. length fs = length actions \<and> (length facts = length actions \<longrightarrow> fs = facts) \<and>
       sum_list (map f_modified_chars fs) \<le> max_modified_chars E \<and>
       list_all (\<lambda>(a, f). p_decision (evaluate L E a f level) = ALLOW) (zip actions fs))"
proof -
  define fs where "fs = (if length facts = length actions then facts
      else take (length actions) (facts @ replicate (length actions) default_facts))"
  define results where "results = map (\<lambda>(a, f). evaluate L E a f level) (zip actions fs)"
  have len: "length fs = length actions" by (auto simp: fs_def min_def)
  have ne: "actions \<noteq> [] \<and> int (length actions) \<le> max_actions E"
    using assms by (auto simp: evaluate_set_def split: if_splits)
  have nc: "conflicting_paths actions = []"
    using assms ne by (auto simp: evaluate_set_def Let_def set_denied_def split: if_splits)
  have eq: "evaluate_set L E actions facts level =
     (if max_modified_chars E < sum_list (map f_modified_chars fs) then set_denied level CharacterBudget results
      else let (decision, first_rule) =
                  (if list_ex (\<lambda>r. p_decision r = DENY) results then (DENY, DenyPrecedence)
                   else if list_ex (\<lambda>r. p_decision r = CONFIRM) results
                   then (CONFIRM, Level1RequiresConfirmation)
                   else (ALLOW, AllActionsAllowed)) in
            \<lparr>ps_decision = decision, ps_results = results,
             ps_rules = foldl (\<lambda>acc r. extend_new acc (p_rules r)) [first_rule] results\<rparr>)"
    using ne nc unfolding evaluate_set_def Let_def results_def fs_def by auto
  have budget: "sum_list (map f_modified_chars fs) \<le> max_modified_chars E"
    using assms unfolding eq by (auto simp: set_denied_def split: if_splits)
  have "\<not> list_ex (\<lambda>r. p_decision r = DENY) results \<and> \<not> list_ex (\<lambda>r. p_decision r = CONFIRM) results"
    using assms budget unfolding eq by (auto split: if_splits)
  then have "list_all (\<lambda>r. p_decision r = ALLOW) results"
    unfolding list_all_iff list_ex_iff using policy_decision.exhaust by metis
  then have "list_all (\<lambda>(a, f). p_decision (evaluate L E a f level) = ALLOW) (zip actions fs)"
    by (auto simp: results_def list_all_iff)
  with ne nc budget len show ?thesis
    by (intro conjI exI [of _ fs]) (auto simp: fs_def)
qed

lemma count_list_distinct: "(\<And>p. count_list xs p \<le> 1) \<Longrightarrow> distinct xs"
proof (induction xs)
  case (Cons x xs)
  have "count_list xs x = 0" using Cons.prems [of x] by simp
  moreover have "count_list xs p \<le> 1" for p using Cons.prems [of p] by (simp split: if_splits)
  ultimately show ?case using Cons.IH by (simp add: count_list_0_iff)
qed simp

lemma no_conflict_distinct:
  assumes "conflicting_paths actions = []"
  shows "distinct (concat (map mutated_paths actions))"
proof -
  let ?all = "concat (map mutated_paths actions)"
  have "count_list ?all p \<le> 1" for p
  proof (cases "p \<in> set ?all")
    case True
    then show ?thesis
      using assms by (auto simp: conflicting_paths_def Let_def filter_empty_conv not_less)
  next
    case False
    then show ?thesis by (simp add: count_list_0_iff)
  qed
  then show ?thesis by (rule count_list_distinct)
qed

end
