(* ===== verification/ActionProperties.thy ===== *)
theory ActionProperties imports Patches Policy "HOL-Library.Code_Target_Nat" begin

text \<open>
  The promises around model-written actions: what parsing lets through, what the policy engine can
  ever allow, and what the note edits can do to a note.
\<close>

definition demo_action :: action where
  "demo_action = \<lparr>act_id = lit ''1'', act_kind = ADD_TAGS, act_level = 2, act_file = lit ''d/n.md'',
     act_target_file = None, act_tags = [lit ''red'', lit ''blue''], act_link_target = None,
     act_patch = [], act_content_base64 = None, act_reason = lit ''r'', act_expected_sha256 = None\<rparr>"

definition demo_engine :: engine where
  "demo_engine = make_engine 20 10 20000 2000 1 {ADD_TAGS, MOVE_NOTE} []"

section \<open>Parsing\<close>

text \<open>
  C6. Whatever the model sends, an action that parses is well formed: its paths are safe, its level
  is 0, 1 or 2, it has at most ten tags, each non-empty, at most 100 characters, free of commas and
  line ends, pairwise different up to case; at most 20 hunks with non-negative starts; content that
  is base64 of at most a million bytes; and a reason of 1 to 500 characters.
\<close>

theorem parse_action_sound:
  assumes "parse_action L a = Inr b"
  shows "action_wf L b"
  using assms by (rule parse_action_wf)

theorem parse_action_sound_witness:
  "action_wf demo_lib demo_action"
proof -
  have "parse_action demo_lib (demo_action\<lparr>act_tags := [lit '' #red '', lit ''blue'']\<rparr>) = Inr demo_action"
    by code_simp
  then show ?thesis by (rule parse_action_sound)
qed

text \<open>
  C12. Content round trip: the bytes of a note survive being sent as base64, so a created note has
  exactly the bytes the client encoded.
\<close>

theorem base64_roundtrip: "b64_decode (b64_encode d) = Some d"
  by (rule b64_decode_encode)

section \<open>Policy\<close>

text \<open>
  The decision on one action is determined by three questions: does any deny rule match; is the
  level 1; is the action in the configured automatic set and within the one-file budget. In
  particular Level 2 never asks for confirmation and Level 0 is always denied.
\<close>

theorem evaluate_decides:
  "p_decision (evaluate L (make_engine n files chars chars2 files2 auto prots) a f level) =
     (let E = make_engine n files chars chars2 files2 auto prots; l = effective a level in
      if denied L E a f l then DENY
      else if l = 1 then CONFIRM
      else if act_kind a \<in> level2_auto_actions E \<and> f_file_count f \<le> level2_max_files E then ALLOW
      else DENY)"
  unfolding Let_def using evaluate_decision [OF make_engine_wf] by (simp add: Let_def)

text \<open>
  C7. Whatever the deployment configures and whatever facts are supplied, a set that is allowed
  without confirmation consists of at most twenty tag edits at Level 2 on distinct, unprotected,
  existing Markdown files, in the configured automatic set, without body changes, each within the
  Level 2 budget.
\<close>

definition auto_safe :: "pylib \<Rightarrow> engine \<Rightarrow> int option \<Rightarrow> action \<Rightarrow> action_facts \<Rightarrow> bool" where
  "auto_safe L E level a f \<longleftrightarrow>
     act_kind a \<in> {ADD_TAGS, REMOVE_TAGS} \<and> act_kind a \<in> level2_auto_actions E \<and>
     effective a level = 2 \<and> f_existing f \<and> f_markdown f \<and> \<not> f_protected f \<and>
     \<not> is_protected L E (act_file a) \<and> \<not> f_body_change f \<and>
     f_modified_chars f \<le> max_level2_modified_chars E"

theorem allowed_sets_are_tag_edits:
  assumes "E = make_engine n files chars chars2 files2 auto prots"
    and "ps_decision (evaluate_set L E actions facts level) = ALLOW"
    and "length facts = length actions"
  shows "int (length actions) \<le> 20 \<and> distinct (map act_file actions) \<and>
    list_all (\<lambda>(a, f). auto_safe L E level a f) (zip actions facts)"
proof -
  have wf: "engine_wf E" by (simp add: assms(1) make_engine_wf)
  from evaluate_set_allow [OF assms(2)] assms(3)
  have len: "int (length actions) \<le> max_actions E" and nc: "conflicting_paths actions = []"
    and all: "list_all (\<lambda>(a, f). p_decision (evaluate L E a f level) = ALLOW) (zip actions facts)"
    by auto
  have safe: "auto_safe L E level a f" if "p_decision (evaluate L E a f level) = ALLOW" for a f
  proof -
    from that evaluate_decision [OF wf, of L a f level]
    have nd: "\<not> denied L E a f (effective a level)" and l: "effective a level \<noteq> 1"
      and auto: "act_kind a \<in> level2_auto_actions E"
      by (auto simp: Let_def split: if_splits)
    note facts = not_denied_facts [OF nd]
    have two: "effective a level = 2" using facts(1,2) l by auto
    have kind: "act_kind a \<in> {ADD_TAGS, REMOVE_TAGS}"
      using auto wf by (auto simp: engine_wf_def AUTO_ACTIONS_def)
    then have "f_existing f" using facts(11) by auto
    then show ?thesis
      using facts two kind auto by (auto simp: auto_safe_def char_budget_def level_is_def)
  qed
  have kinds: "act_kind a \<noteq> MOVE_NOTE" if "a \<in> set actions" for a
  proof -
    from that assms(3) obtain f where "(a, f) \<in> set (zip actions facts)"
      by (metis in_set_impl_in_set_zip1)
    then have "auto_safe L E level a f" using all safe by (auto simp: list_all_iff)
    then show ?thesis by (auto simp: auto_safe_def)
  qed
  have "map mutated_paths actions = map (\<lambda>a. [act_file a]) actions"
    using kinds by (auto simp: mutated_paths_def)
  then have "concat (map mutated_paths actions) = map act_file actions"
    by (simp only: concat_map_singleton)
  then have "distinct (map act_file actions)"
    using no_conflict_distinct [OF nc] by simp
  moreover have "int (length actions) \<le> 20"
    using len wf by (simp add: engine_wf_def MAX_ACTIONS_def)
  ultimately show ?thesis
    using all safe by (auto simp: list_all_iff)
qed

theorem allowed_sets_are_tag_edits_witness:
  "auto_safe demo_lib demo_engine None demo_action default_facts"
proof -
  have "effective demo_action None = 2" "\<not> denied demo_lib demo_engine demo_action default_facts 2"
    by (simp_all add: effective_def demo_action_def denied_def deny_conditions_def Let_def
        default_facts_def demo_engine_def make_engine_def min_level_by_action_def is_protected_def
        char_budget_def level_is_def some_nonempty_def DEFAULT_PROTECTED_PREFIXES_def demo_lib_def
        starts_with_def MAX_FILES_def MAX_LEVEL2_MODIFIED_CHARS_def ascii_lower_char_def)
  then have "p_decision (evaluate demo_lib demo_engine demo_action default_facts None) = ALLOW"
    using evaluate_decision [of demo_engine demo_lib demo_action default_facts None]
    by (simp add: demo_engine_def make_engine_wf)
      (simp add: Let_def make_engine_def AUTO_ACTIONS_def demo_action_def default_facts_def MAX_FILES_def)
  then have "ps_decision (evaluate_set demo_lib demo_engine [demo_action] [default_facts] None) = ALLOW"
    by (simp add: evaluate_set_def Let_def conflicting_paths_def mutated_paths_def)
      (simp add: demo_engine_def make_engine_def Let_def demo_action_def default_facts_def
        MAX_ACTIONS_def MAX_LEVEL1_MODIFIED_CHARS_def)
  from allowed_sets_are_tag_edits [OF demo_engine_def this] show ?thesis by simp
qed

text \<open>
  C15. Automatic execution is closed by default: with the default engine nothing is ever allowed
  without confirmation.
\<close>

theorem default_engine_never_allows:
  "ps_decision (evaluate_set L default_engine actions facts level) \<noteq> ALLOW"
proof
  assume allow: "ps_decision (evaluate_set L default_engine actions facts level) = ALLOW"
  have wf: "engine_wf default_engine" and none: "level2_auto_actions default_engine = {}"
    by (simp_all add: default_engine_def make_engine_wf) (simp add: make_engine_def Let_def)
  from evaluate_set_allow [OF allow] obtain fs where "actions \<noteq> []" "length fs = length actions"
      "list_all (\<lambda>(a, f). p_decision (evaluate L default_engine a f level) = ALLOW) (zip actions fs)"
    by auto
  then have "p_decision (evaluate L default_engine (hd actions) (hd fs) level) = ALLOW"
    by (cases actions; cases fs) auto
  then show False
    using evaluate_decision [OF wf, of L "hd actions" "hd fs" level] none
    by (auto simp: Let_def split: if_splits)
qed

section \<open>Edits of a note\<close>


definition demo_note :: pystr where
  "demo_note = concat (map (\<lambda>l. l @ [LF])
     [lit ''---'', lit ''tags:'', lit ''  - red'', lit ''id: 7'', lit ''---'', lit ''body''])"


text \<open>
  C17. Removing tags only deletes: the result is the note with some characters taken out and nothing
  added or reordered.
\<close>

theorem remove_tags_only_deletes:
  assumes "remove_tags L source tags = Inr r"
  shows "subseq r source"
  using assms by (rule remove_tags_deletes)

theorem remove_tags_only_deletes_witness:
  "subseq (concat (map (\<lambda>l. l @ [LF]) [lit ''---'', lit ''id: 7'', lit ''---'', lit ''body''])) demo_note"
proof -
  have "remove_tags demo_lib demo_note [lit ''RED''] = Inr (concat (map (\<lambda>l. l @ [LF])
      [lit ''---'', lit ''id: 7'', lit ''---'', lit ''body'']))"
    by code_simp
  then show ?thesis by (rule remove_tags_only_deletes)
qed

text \<open>
  C9. Hunks that name disjoint spans do what the client sees: each context is compared with the
  original text, a mismatch refuses the whole patch, and otherwise the result is the original with
  those spans replaced, although the code edits a running text with a running offset.
\<close>

theorem apply_hunks_is_splice:
  assumes "utf8_decode data = Some original" and "disjoint_from (length original) 0 (sort_key h_start hunks)"
  shows "apply_hunks data hunks limit =
     (if list_all (context_matches original) hunks then
        (case utf8_encode (splice original 0 (sort_key h_start hunks)) of
           None \<Rightarrow> Inl PatchEncodeError
         | Some result \<Rightarrow> if limit < length result then Inl UnsupportedPatch else Inr result)
      else Inl UnsupportedPatch)"
proof -
  have "list_all (context_matches original) (sort_key h_start hunks) = list_all (context_matches original) hunks"
    by (simp add: list_all_iff)
  then show ?thesis
    using apply_sorted_splice [OF assms(2), of "[]"] assms(1) by (simp add: apply_hunks_def)
qed

theorem apply_hunks_is_splice_witness:
  "apply_hunks [97, 98, 99, 100]
     [\<lparr>h_start = 3, h_old_text = lit ''d'', h_new_text = lit ''DD'', h_old_sha256 = None\<rparr>,
      \<lparr>h_start = 0, h_old_text = lit ''ab'', h_new_text = [], h_old_sha256 = None\<rparr>] 10 = Inr [99, 68, 68]"
proof -
  let ?hs = "[\<lparr>h_start = 3, h_old_text = lit ''d'', h_new_text = lit ''DD'', h_old_sha256 = None\<rparr>,
      \<lparr>h_start = 0, h_old_text = lit ''ab'', h_new_text = [], h_old_sha256 = None\<rparr>]"
  have "utf8_decode [97, 98, 99, 100] = Some (lit ''abcd'')"
    "disjoint_from (length (lit ''abcd'')) 0 (sort_key h_start ?hs)"
    by code_simp+
  note step = apply_hunks_is_splice [OF this, of 10]
  show ?thesis unfolding step by code_simp
qed

end
