(* ===== verification/VaultContract.thy ===== *)
theory VaultContract imports VaultService begin

text \<open>
  What the rest of the program relies on when it holds a \<^verbatim>\<open>VaultService\<close>: the five methods the
  recovery code calls, as a record of actions on any state, and their contract as the locale
  \<open>vault_store\<close>. The contract speaks of the abstract content of the vault only: what a read answers,
  which entries an operation may change, that a failed operation changes nothing, and that every
  mutation has an inverse which the vault accepts as long as nobody else touched it. The interpretation
  at the end discharges the contract for the model of \<^verbatim>\<open>server/vault/service.py\<close>.
\<close>

record 'w vault_ops =
  vop_read :: "pystr \<Rightarrow> ('w, vault_error, bytes \<times> pystr) act"
  vop_create :: "pystr \<Rightarrow> bytes \<Rightarrow> ('w, vault_error, file_response) act"
  vop_write :: "pystr \<Rightarrow> bytes \<Rightarrow> pystr option \<Rightarrow> ('w, vault_error, file_response) act"
  vop_delete :: "pystr \<Rightarrow> pystr option \<Rightarrow> ('w, vault_error, file_response) act"
  vop_move :: "pystr \<Rightarrow> pystr \<Rightarrow> pystr option \<Rightarrow> ('w, vault_error, file_response) act"

definition vault_ops_of :: "pylib \<Rightarrow> vault_cfg \<Rightarrow> world vault_ops" where
  "vault_ops_of L V = \<lparr>vop_read = read_bytes L V, vop_create = create_bytes L V,
     vop_write = write_bytes L V, vop_delete = delete_file L V, vop_move = move_file L V\<rparr>"

lemma vault_ops_of_simps [simp]:
  "vop_read (vault_ops_of L V) = read_bytes L V" "vop_create (vault_ops_of L V) = create_bytes L V"
  "vop_write (vault_ops_of L V) = write_bytes L V" "vop_delete (vault_ops_of L V) = delete_file L V"
  "vop_move (vault_ops_of L V) = move_file L V"
  by (simp_all add: vault_ops_of_def)

text \<open>\<^verbatim>\<open>getattr(exc, "code", None)\<close> compared with \<^verbatim>\<open>"not_found"\<close>.\<close>

definition code_not_found :: "vault_error \<Rightarrow> bool" where
  "code_not_found e = (case e of VaultError c p \<Rightarrow> exc_code c = NOT_FOUND | UncaughtOSError \<Rightarrow> False)"

definition missing :: "vault_error + 'a \<Rightarrow> bool" where
  "missing r = (case r of Inl e \<Rightarrow> code_not_found e | Inr x \<Rightarrow> False)"

lemma missing_simps [simp]: "missing (Inl e) = code_not_found e" "\<not> missing (Inr x)"
  by (simp_all add: missing_def)

lemma code_not_found_simps [simp]:
  "code_not_found (VaultError c p) \<longleftrightarrow> c = PathNotFound" "\<not> code_not_found UncaughtOSError"
  by (simp_all add: code_not_found_def)

lemma missingE: "missing r \<Longrightarrow> (\<And>e. r = Inl e \<Longrightarrow> code_not_found e \<Longrightarrow> P) \<Longrightarrow> P"
  by (cases r) auto

text \<open>The readable content is the same at every path outside \<open>S\<close>.\<close>

definition same_but :: "pystr set \<Rightarrow> (pystr \<Rightarrow> vault_error + bytes) \<Rightarrow> (pystr \<Rightarrow> vault_error + bytes) \<Rightarrow> bool" where
  "same_but S l l' \<longleftrightarrow> (\<forall>s b. s \<notin> S \<longrightarrow> (l' s = Inr b \<longleftrightarrow> l s = Inr b))"

lemma same_butD: "same_but S l l' \<Longrightarrow> s \<notin> S \<Longrightarrow> l' s = Inr b \<longleftrightarrow> l s = Inr b"
  by (simp add: same_but_def)

lemma same_but_trans: "same_but S l l' \<Longrightarrow> same_but T l' l'' \<Longrightarrow> same_but (S \<union> T) l l''"
  by (simp add: same_but_def)

lemma same_but_refl [simp]: "same_but S l l"
  by (simp add: same_but_def)

lemma same_but_mono: "same_but S l l' \<Longrightarrow> S \<subseteq> T \<Longrightarrow> same_but T l l'"
  by (auto simp: same_but_def)

section \<open>The contract\<close>

locale vault_store =
  fixes V :: "'w vault_ops"
    and ok :: "'w \<Rightarrow> bool"
    and abs :: "'w \<Rightarrow> 'a"
    and look :: "'a \<Rightarrow> pystr \<Rightarrow> vault_error + bytes"
    and digest :: "bytes \<Rightarrow> pystr"
    and usable :: "pystr \<Rightarrow> bool"
  assumes read_law: "ok w \<Longrightarrow>
      \<exists>w'. vop_read V s w = (rbind (look (abs w) s) (\<lambda>d. Inr (d, digest d)), w') \<and> ok w' \<and> abs w' = abs w"
    and create_keeps: "ok w \<Longrightarrow> usable s \<Longrightarrow> ok (snd (vop_create V s d w))"
    and write_keeps: "ok w \<Longrightarrow> usable s \<Longrightarrow> ok (snd (vop_write V s d h w))"
    and move_keeps: "ok w \<Longrightarrow> usable s \<Longrightarrow> usable s' \<Longrightarrow> ok (snd (vop_move V s s' h w))"
    and create_fails: "ok w \<Longrightarrow> usable s \<Longrightarrow> vop_create V s d w = (Inl e, w') \<Longrightarrow> abs w' = abs w"
    and write_fails: "ok w \<Longrightarrow> usable s \<Longrightarrow> vop_write V s d h w = (Inl e, w') \<Longrightarrow> abs w' = abs w"
    and move_fails: "ok w \<Longrightarrow> usable s \<Longrightarrow> usable s' \<Longrightarrow> vop_move V s s' h w = (Inl e, w') \<Longrightarrow> abs w' = abs w"
    and create_works: "ok w \<Longrightarrow> usable s \<Longrightarrow> vop_create V s d w = (Inr x, w') \<Longrightarrow>
      resp_sha256 x = Some (digest d) \<and> missing (look (abs w) s) \<and> look (abs w') s = Inr d \<and>
      same_but {s} (look (abs w)) (look (abs w'))"
    and write_works: "ok w \<Longrightarrow> usable s \<Longrightarrow> vop_write V s d h w = (Inr x, w') \<Longrightarrow>
      resp_sha256 x = Some (digest d) \<and>
      (\<exists>old. look (abs w) s = Inr old \<and> (\<forall>b. h = Some (digest b) \<longrightarrow> digest old = digest b)) \<and>
      look (abs w') s = Inr d \<and> same_but {s} (look (abs w)) (look (abs w'))"
    and move_works: "ok w \<Longrightarrow> usable s \<Longrightarrow> usable s' \<Longrightarrow> vop_move V s s' h w = (Inr x, w') \<Longrightarrow>
      (\<exists>old. look (abs w) s = Inr old \<and> (\<forall>b. h = Some (digest b) \<longrightarrow> digest old = digest b) \<and>
         resp_sha256 x = Some (digest old) \<and> look (abs w') s' = Inr old) \<and>
      missing (look (abs w) s') \<and> same_but {s, s'} (look (abs w)) (look (abs w'))"
    and create_undo: "ok w \<Longrightarrow> usable s \<Longrightarrow> vop_create V s d w = (Inr x, w1) \<Longrightarrow>
      ok w2 \<Longrightarrow> abs w2 = abs w1 \<Longrightarrow>
      \<exists>y w3. vop_delete V s (Some (digest d)) w2 = (Inr y, w3) \<and> ok w3 \<and> abs w3 = abs w"
    and write_undo: "ok w \<Longrightarrow> usable s \<Longrightarrow> vop_write V s d h w = (Inr x, w1) \<Longrightarrow>
      look (abs w) s = Inr old \<Longrightarrow> ok w2 \<Longrightarrow> abs w2 = abs w1 \<Longrightarrow>
      \<exists>y w3. vop_write V s old (Some (digest d)) w2 = (Inr y, w3) \<and> ok w3 \<and> abs w3 = abs w \<and>
        resp_sha256 y = Some (digest old)"
    and move_undo: "ok w \<Longrightarrow> usable s \<Longrightarrow> usable s' \<Longrightarrow> vop_move V s s' h w = (Inr x, w1) \<Longrightarrow>
      look (abs w) s = Inr old \<Longrightarrow> ok w2 \<Longrightarrow> abs w2 = abs w1 \<Longrightarrow>
      \<exists>y w3. vop_move V s' s (Some (digest old)) w2 = (Inr y, w3) \<and> ok w3 \<and> abs w3 = abs w \<and>
        resp_sha256 y = Some (digest old)"
    and write_same: "ok w \<Longrightarrow> usable s \<Longrightarrow> look (abs w) s = Inr d \<Longrightarrow>
      \<exists>y w'. vop_write V s d (Some (digest d)) w = (Inr y, w') \<and> ok w' \<and> abs w' = abs w \<and>
        resp_sha256 y = Some (digest d)"
    and digest_nonempty: "digest d \<noteq> []"
begin

lemma store_read_runs:
  assumes "ok w"
  obtains w' where "vop_read V s w = (rbind (look (abs w) s) (\<lambda>d. Inr (d, digest d)), w')"
    "ok w'" "abs w' = abs w"
  using read_law [OF assms] by blast

end

section \<open>The contract holds of the model\<close>

definition vault_look :: "pylib \<Rightarrow> vault_cfg \<Rightarrow> tree \<Rightarrow> pystr \<Rightarrow> vault_error + bytes" where
  "vault_look L V t s = rbind (read_outcome L V t s) (\<lambda>(d, h). Inr d)"

text \<open>No entry has the name a coming temporary file will get, and no user path looks like one.\<close>

definition temps_free :: "tree \<Rightarrow> (nat \<Rightarrow> pystr) \<Rightarrow> bool" where
  "temps_free t k \<longleftrightarrow> (\<forall>p i. t (p @ [temp_name (k i)]) = None)"

definition usable_path :: "pystr \<Rightarrow> bool" where
  "usable_path s \<longleftrightarrow> relative_parts s \<noteq> [] \<and>
     list_all (\<lambda>c. \<not> prefix (temp_name []) c) (relative_parts s)"

definition vault_ok :: "pylib \<Rightarrow> vault_cfg \<Rightarrow> world \<Rightarrow> bool" where
  "vault_ok L V w \<longleftrightarrow> pylib_ok L \<and> before_replace_hook V = None \<and> quiet w \<and>
     good_root (w_tree w) (root_real V) \<and> temps_free (w_tree w) (w_token w)"

lemma usable_last:
  assumes "usable_path s"
  shows "full_path V s = butlast (full_path V s) @ [last (full_path V s)]"
    and "last (full_path V s) \<noteq> temp_name k"
proof -
  have ne: "relative_parts s \<noteq> []" using assms by (simp add: usable_path_def)
  then show "full_path V s = butlast (full_path V s) @ [last (full_path V s)]"
    by (metis append_butlast_last_id append_is_Nil_conv)
  have "last (relative_parts s) \<in> set (relative_parts s)" using ne by simp
  then have "\<not> prefix (temp_name []) (last (relative_parts s))"
    using assms by (auto simp: usable_path_def list_all_iff)
  moreover have "prefix (temp_name []) (temp_name k)" by (simp add: temp_name_def)
  ultimately show "last (full_path V s) \<noteq> temp_name k" using ne by auto
qed

lemma usable_temp_free: "usable_path s \<Longrightarrow> temps_free t k \<Longrightarrow> temp_free V t k s"
  unfolding temp_free_def temps_free_def using usable_last(2) [of s V] by blast

lemma temps_free_upd:
  assumes "temps_free t k" "usable_path s"
  shows "temps_free (t(full_path V s := x)) k"
  unfolding temps_free_def
proof (intro allI)
  fix p i
  have "p @ [temp_name (k i)] \<noteq> full_path V s"
    using usable_last [OF assms(2), of V] by (metis last_snoc)
  then show "(t(full_path V s := x)) (p @ [temp_name (k i)]) = None"
    using assms(1) by (simp add: temps_free_def)
qed

lemma temps_free_Suc: "temps_free t k \<Longrightarrow> temps_free t (\<lambda>i. k (Suc i))"
  by (simp add: temps_free_def)

lemma full_path_inj: "full_path V s = full_path V s' \<longleftrightarrow> s = s'"
  using relative_parts_inj by auto

lemma digest_not_nil [simp]: "sha256_bytes L d \<noteq> []"
  by (simp add: sha256_bytes_def)

lemma canonical_sha256:
  assumes "pylib_ok L"
  shows "canonical_digest L (sha256_bytes L d) = sha256_bytes L d"
proof -
  have hex: "list_all is_lower_hex (hexdigest L d)" using assms by (simp add: pylib_ok_def)
  have "is_ascii (sha256_bytes L d)"
    using is_ascii_hex [OF hex] by (simp add: sha256_bytes_def is_ascii_def)
  then have "str_lower L (sha256_bytes L d) = sha256_bytes L d"
    using assms hex by (simp add: pylib_ok_def) (simp add: sha256_bytes_def ascii_lower_char_def)
  then show ?thesis by (simp add: canonical_digest_def sha256_bytes_def Let_def starts_with_def)
qed

lemma require_sha256 [simp]:
  "pylib_ok L \<Longrightarrow> require_expected_hash L s (Some (sha256_bytes L d)) = Inr (sha256_bytes L d)"
  by (simp add: require_expected_hash_def canonical_sha256)

lemma vault_look_Inr:
  assumes "good_root t (root_real V)"
  shows "vault_look L V t s = Inr d \<longleftrightarrow> length d \<le> max_file_bytes V \<and> (\<exists>up c. found_at V t s d up c)"
proof
  assume "vault_look L V t s = Inr d"
  then have r: "read_outcome L V t s = Inr (d, sha256_bytes L d)"
    by (auto simp: vault_look_def rbind_eq_Inr read_outcome_def split: if_splits)
  then have "find_file V t s = Inr d" "length d \<le> max_file_bytes V"
    by (auto simp: read_outcome_def find_file_def rbind_eq_Inr split: if_splits)
  with find_file_found [OF assms]
  show "length d \<le> max_file_bytes V \<and> (\<exists>up c. found_at V t s d up c)" by blast
next
  assume "length d \<le> max_file_bytes V \<and> (\<exists>up c. found_at V t s d up c)"
  then show "vault_look L V t s = Inr d"
    by (auto simp: vault_look_def found_read_outcome)
qed

lemma look_upd_one:
  assumes "good_root t (root_real V)" "good_root (t(q := x)) (root_real V)"
    and "t q \<noteq> Some DirN" "q \<noteq> []" "q \<noteq> full_path V s" "vault_look L V t s = Inr b"
  shows "vault_look L V (t(q := x)) s = Inr b"
proof -
  obtain up c where found: "found_at V t s b up c" and fits: "length b \<le> max_file_bytes V"
    using assms(6) by (auto simp: vault_look_Inr [OF assms(1)])
  have "\<not> prefix q (full_path V s)"
    using found_not_below_file [OF found assms(4,3,5)] .
  then have "found_at V (t(q := x)) s b up c"
    using found_at_upd [OF found _ assms(4)] by simp
  with fits show ?thesis by (auto simp: vault_look_Inr [OF assms(2)])
qed

lemma look_upd_other:
  assumes "good_root t (root_real V)" "good_root (t(full_path V s0 := x)) (root_real V)"
    and "t (full_path V s0) \<noteq> Some DirN" "x \<noteq> Some DirN" "usable_path s0" "s \<noteq> s0"
  shows "vault_look L V (t(full_path V s0 := x)) s = Inr b \<longleftrightarrow> vault_look L V t s = Inr b"
proof -
  let ?q = "full_path V s0"
  have q: "?q \<noteq> []" "?q \<noteq> full_path V s"
    using assms(5,6) by (auto simp: usable_path_def dest: relative_parts_inj)
  have undone: "(t(?q := x))(?q := t ?q) = t" by simp
  show ?thesis
    using look_upd_one [OF assms(1,2,3) q, of L b]
      look_upd_one [of "t(?q := x)" V ?q "t ?q" s L b] assms(1,2,4) q
    by (auto simp only: undone fun_upd_same)
qed

lemma same_but_upd:
  assumes "good_root t (root_real V)" "good_root (t(full_path V s0 := x)) (root_real V)"
    and "t (full_path V s0) \<noteq> Some DirN" "x \<noteq> Some DirN" "usable_path s0"
  shows "same_but {s0} (vault_look L V t) (vault_look L V (t(full_path V s0 := x)))"
  unfolding same_but_def using look_upd_other [OF assms] by blast

lemma runs_result:
  assumes "runs m t k r t' k'" "quiet w" "w_tree w = t" "w_token w = k" "m w = (r0, w')"
  shows "r0 = r \<and> w_tree w' = t' \<and> w_token w' = k' \<and> quiet w'"
  using assms(5) by (rule_tac runsD [OF assms(1-4)]) auto

text \<open>The outcomes of the four mutations on a vault that satisfies \<open>vault_ok\<close>.\<close>

lemma vault_ok_parts:
  assumes "vault_ok L V w"
  shows "pylib_ok L" "before_replace_hook V = None" "quiet w" "good_root (w_tree w) (root_real V)"
    "temps_free (w_tree w) (w_token w)"
  using assms by (simp_all add: vault_ok_def)

lemma vault_okI:
  "vault_ok L V w \<Longrightarrow> quiet w' \<and> temps_free (w_tree w') (w_token w') \<Longrightarrow> w_tree w' = t \<Longrightarrow>
     good_root t (root_real V) \<Longrightarrow> vault_ok L V w'"
  by (simp add: vault_ok_def)

lemma create_ok_cases:
  assumes ok: "vault_ok L V w" and s: "usable_path s" and run: "create_bytes L V s d w = (r, w')"
  shows "create_outcome L V (w_tree w) s d = r \<and>
    w_tree w' = after_ok r ((w_tree w)(full_path V s \<mapsto> FileN d)) (w_tree w) \<and> quiet w' \<and>
    temps_free (w_tree w') (w_token w')"
proof -
  note parts = vault_ok_parts [OF ok]
  note res = runs_result [OF create_bytes_runs [OF parts(4) usable_temp_free [OF s parts(5)]] parts(3)
      refl refl run]
  have "temps_free (w_tree w') (w_token w')"
    using parts(5) temps_free_upd [OF parts(5) s, of V "Some (FileN d)"] conjunct1 [OF res, symmetric]
      conjunct1 [OF conjunct2 [OF res]] conjunct1 [OF conjunct2 [OF conjunct2 [OF res]]]
    by (cases r) (simp_all add: temps_free_Suc)
  with res show ?thesis by auto
qed

lemma write_ok_cases:
  assumes ok: "vault_ok L V w" and s: "usable_path s" and run: "write_bytes L V s d h w = (r, w')"
  shows "write_outcome L V (w_tree w) s d h = r \<and>
    w_tree w' = after_ok r ((w_tree w)(full_path V s \<mapsto> FileN d)) (w_tree w) \<and> quiet w' \<and>
    temps_free (w_tree w') (w_token w')"
proof -
  note parts = vault_ok_parts [OF ok]
  note res = runs_result [OF write_bytes_runs [OF parts(4,2) usable_temp_free [OF s parts(5)]] parts(3)
      refl refl run]
  have "temps_free (w_tree w') (w_token w')"
    using parts(5) temps_free_upd [OF parts(5) s, of V "Some (FileN d)"] conjunct1 [OF res, symmetric]
      conjunct1 [OF conjunct2 [OF res]] conjunct1 [OF conjunct2 [OF conjunct2 [OF res]]]
    by (cases r) (simp_all add: temps_free_Suc)
  with res show ?thesis by auto
qed

lemma delete_ok_cases:
  assumes ok: "vault_ok L V w" and s: "usable_path s" and run: "delete_file L V s h w = (r, w')"
  shows "delete_outcome L V (w_tree w) s h = r \<and>
    w_tree w' = after_ok r ((w_tree w)(full_path V s := None)) (w_tree w) \<and> quiet w' \<and>
    temps_free (w_tree w') (w_token w')"
proof -
  note parts = vault_ok_parts [OF ok]
  note res = runs_result [OF delete_file_runs [OF parts(4)] parts(3) refl refl run]
  have "temps_free (w_tree w') (w_token w')"
    using parts(5) temps_free_upd [OF parts(5) s, of V None] conjunct1 [OF res, symmetric]
      conjunct1 [OF conjunct2 [OF res]] conjunct1 [OF conjunct2 [OF conjunct2 [OF res]]]
    by (cases r) simp_all
  with res show ?thesis by auto
qed

lemma move_ok_cases:
  assumes ok: "vault_ok L V w" and s: "usable_path s" "usable_path s'"
    and run: "move_file L V s s' h w = (r, w')"
  shows "move_outcome L V (w_tree w) s s' h = r \<and>
    w_tree w' = after_ok r ((w_tree w)(full_path V s' := w_tree w (full_path V s), full_path V s := None))
                  (w_tree w) \<and> quiet w' \<and>
    temps_free (w_tree w') (w_token w')"
proof -
  note parts = vault_ok_parts [OF ok]
  note res = runs_result [OF move_file_runs [OF parts(4)] parts(3) refl refl run]
  have "temps_free (w_tree w') (w_token w')"
    using parts(5) conjunct1 [OF res, symmetric]
      temps_free_upd [OF temps_free_upd [OF parts(5) s(2), of V "w_tree w (full_path V s)"] s(1), of V None]
      conjunct1 [OF conjunct2 [OF res]] conjunct1 [OF conjunct2 [OF conjunct2 [OF res]]]
    by (cases r) simp_all
  with res show ?thesis by auto
qed

text \<open>A free place, and what it looks like once it is filled.\<close>

lemma find_place_free:
  assumes root: "good_root t (root_real V)" and place: "find_place V t s = Inr ()"
  shows "t (full_path V s) = None" and "missing (vault_look L V t s)"
    and "good_root (t(full_path V s \<mapsto> FileN d)) (root_real V)"
    and "length d \<le> max_file_bytes V \<Longrightarrow> vault_look L V (t(full_path V s \<mapsto> FileN d)) s = Inr d"
proof -
  have free: "t (full_path V s) = None \<and> missing (vault_look L V t s) \<and>
    good_root (t(full_path V s \<mapsto> FileN d)) (root_real V) \<and>
    (length d \<le> max_file_bytes V \<longrightarrow> vault_look L V (t(full_path V s \<mapsto> FileN d)) s = Inr d)"
    using root
  proof (cases rule: find_place_cases [where s = s])
    case (refused e)
    with place show ?thesis by simp
  next
    case p: (place up c)
    let ?q = "(root_real V @ up) @ [c]"
    have q: "full_path V s = ?q" and dir: "in_dir t (root_real V @ up)" and public: "public_path s"
      using p(1) by (simp_all add: place_at_def)
    have none: "t ?q = None"
      using place unfolding p(4) by simp
    have "status_at V t s = Missing"
      using place_status [OF p(1)] none by simp
    then have look: "missing (vault_look L V t s)"
      using public by (simp add: vault_look_def read_outcome_def lookup_file_def validate_public_Inr [of s s, THEN iffD2])
    have root': "good_root (t(?q \<mapsto> FileN d)) (root_real V)"
      using none by (intro good_root_upd [OF root dir]) simp
    show ?thesis
      unfolding q using none look root' place_found [OF p(1), of d]
      by (auto simp: vault_look_Inr [OF root'] simp del: append_assoc)
  qed
  then show "t (full_path V s) = None" "missing (vault_look L V t s)"
    "good_root (t(full_path V s \<mapsto> FileN d)) (root_real V)"
    "length d \<le> max_file_bytes V \<Longrightarrow> vault_look L V (t(full_path V s \<mapsto> FileN d)) s = Inr d"
    by blast+
qed

text \<open>A file that can be read, and what replacing or removing it does.\<close>

lemma look_found:
  assumes root: "good_root t (root_real V)" and look: "vault_look L V t s = Inr d"
  shows "t (full_path V s) = Some (FileN d)" and "length d \<le> max_file_bytes V"
    and "read_outcome L V t s = Inr (d, sha256_bytes L d)" and "find_file V t s = Inr d"
    and "good_root (t(full_path V s := x)) (root_real V)"
    and "vault_look L V (t(full_path V s \<mapsto> FileN d')) s =
      (if length d' \<le> max_file_bytes V then Inr d' else Inl (VaultError FileTooLarge None))"
proof -
  obtain up c where found: "found_at V t s d up c" and fits: "length d \<le> max_file_bytes V"
    using look by (auto simp: vault_look_Inr [OF root])
  let ?q = "(root_real V @ up) @ [c]"
  have q: "full_path V s = ?q" and dir: "in_dir t (root_real V @ up)" and node: "t ?q = Some (FileN d)"
    and public: "public_path s" and status: "status_at V t s = Present (FileN d)"
    using found by (simp_all add: found_at_def)
  show "t (full_path V s) = Some (FileN d)" using node q by simp
  show "length d \<le> max_file_bytes V" by (rule fits)
  show "read_outcome L V t s = Inr (d, sha256_bytes L d)"
    using found_read_outcome [OF found, of L] fits by simp
  show "find_file V t s = Inr d" using public status by (simp add: find_file_Inr)
  show "good_root (t(full_path V s := x)) (root_real V)"
    unfolding q using node by (intro good_root_upd [OF root dir]) simp
  show "vault_look L V (t(full_path V s \<mapsto> FileN d')) s =
      (if length d' \<le> max_file_bytes V then Inr d' else Inl (VaultError FileTooLarge None))"
    unfolding q using found_read_outcome [OF found_at_new [OF found, of d'], of L]
    by (simp add: vault_look_def)
qed

lemma read_outcome_look:
  "read_outcome L V t s = rbind (vault_look L V t s) (\<lambda>d. Inr (d, sha256_bytes L d))"
  unfolding vault_look_def read_outcome_def rbind_def
  by (auto split: sum.splits)

section \<open>The laws\<close>

lemma model_create_works:
  assumes "vault_ok L V w" "usable_path s" "create_bytes L V s d w = (Inr x, w')"
  shows "resp_sha256 x = Some (sha256_bytes L d) \<and> missing (vault_look L V (w_tree w) s) \<and>
    vault_look L V (w_tree w') s = Inr d \<and> w_tree w (full_path V s) = None \<and> length d \<le> max_file_bytes V \<and>
    w_tree w' = (w_tree w)(full_path V s \<mapsto> FileN d) \<and> vault_ok L V w' \<and>
    same_but {s} (vault_look L V (w_tree w)) (vault_look L V (w_tree w'))"
proof -
  note parts = vault_ok_parts [OF assms(1)] and run = create_ok_cases [OF assms]
  have place: "find_place V (w_tree w) s = Inr ()" and fits: "length d \<le> max_file_bytes V"
    and x: "resp_sha256 x = Some (sha256_bytes L d)"
    and tree: "w_tree w' = (w_tree w)(full_path V s \<mapsto> FileN d)"
    using run by (auto simp: create_outcome_def rbind_eq_Inr split: if_splits)
  note free = find_place_free [OF parts(4) place]
  have ok': "vault_ok L V w'"
    using run by (intro vault_okI [OF assms(1) _ tree free(3)]) blast
  have "same_but {s} (vault_look L V (w_tree w)) (vault_look L V (w_tree w'))"
    unfolding tree using free(1,3) by (intro same_but_upd [OF parts(4) _ _ _ assms(2)]) simp_all
  with ok' free fits x tree show ?thesis by simp
qed

lemma model_write_works:
  assumes "vault_ok L V w" "usable_path s" "write_bytes L V s d h w = (Inr x, w')"
  shows "resp_sha256 x = Some (sha256_bytes L d) \<and> length d \<le> max_file_bytes V \<and>
    (\<exists>old. vault_look L V (w_tree w) s = Inr old \<and> require_expected_hash L s h = Inr (sha256_bytes L old)) \<and>
    vault_look L V (w_tree w') s = Inr d \<and>
    w_tree w' = (w_tree w)(full_path V s \<mapsto> FileN d) \<and> vault_ok L V w' \<and>
    same_but {s} (vault_look L V (w_tree w)) (vault_look L V (w_tree w'))"
proof -
  note parts = vault_ok_parts [OF assms(1)] and run = write_ok_cases [OF assms]
  obtain old where fits: "length d \<le> max_file_bytes V" and look: "vault_look L V (w_tree w) s = Inr old"
    and x: "resp_sha256 x = Some (sha256_bytes L d)"
    and hash: "require_expected_hash L s h = Inr (sha256_bytes L old)"
    using run by (auto simp: write_outcome_def read_outcome_look rbind_eq_Inr split: if_splits)
  have tree: "w_tree w' = (w_tree w)(full_path V s \<mapsto> FileN d)" using run by simp
  note found = look_found [OF parts(4) look]
  have "vault_ok L V w'"
    using run by (intro vault_okI [OF assms(1) _ tree found(5)]) blast
  moreover have "same_but {s} (vault_look L V (w_tree w)) (vault_look L V (w_tree w'))"
    unfolding tree using found(1,5) by (intro same_but_upd [OF parts(4) _ _ _ assms(2)]) simp_all
  ultimately show ?thesis
    using look hash fits x tree found(6) [of d] by simp
qed

lemma model_move_works:
  assumes "vault_ok L V w" "usable_path s" "usable_path s'" "move_file L V s s' h w = (Inr x, w')"
  shows "\<exists>old. vault_look L V (w_tree w) s = Inr old \<and>
      require_expected_hash L s h = Inr (sha256_bytes L old) \<and>
      resp_sha256 x = Some (sha256_bytes L old) \<and> vault_look L V (w_tree w') s' = Inr old \<and>
      w_tree w (full_path V s) = Some (FileN old) \<and> w_tree w (full_path V s') = None \<and>
      w_tree w' = (w_tree w)(full_path V s' \<mapsto> FileN old, full_path V s := None) \<and>
      missing (vault_look L V (w_tree w) s') \<and> vault_ok L V w' \<and> s \<noteq> s' \<and>
      same_but {s, s'} (vault_look L V (w_tree w)) (vault_look L V (w_tree w'))"
proof -
  note parts = vault_ok_parts [OF assms(1)] and run = move_ok_cases [OF assms]
  obtain old where located: "find_file V (w_tree w) s = Inr old" and neq: "s \<noteq> s'"
    and fits: "length old \<le> max_file_bytes V"
    and hash: "require_expected_hash L s h = Inr (sha256_bytes L old)"
    and place: "find_place V (w_tree w) s' = Inr ()"
    and x: "resp_sha256 x = Some (sha256_bytes L old)"
    using run by (auto simp: move_outcome_def rbind_eq_Inr split: if_splits)
  have look: "vault_look L V (w_tree w) s = Inr old"
    using find_file_found [OF parts(4) located] fits by (simp add: vault_look_Inr [OF parts(4)])
  note found = look_found [OF parts(4) look] and free = find_place_free(1-2) [OF parts(4) place]
    find_place_free(3-4) [OF parts(4) place, of old]
  let ?t1 = "(w_tree w)(full_path V s' \<mapsto> FileN old)"
  have tree: "w_tree w' = ?t1(full_path V s := None)"
    using run found(1) by simp
  have first: "same_but {s'} (vault_look L V (w_tree w)) (vault_look L V ?t1)"
    using free(1,3) by (intro same_but_upd [OF parts(4) _ _ _ assms(3)]) simp_all
  have look1: "vault_look L V ?t1 s = Inr old"
    using same_butD [OF first, of s old] look neq by simp
  note found1 = look_found [OF free(3) look1]
  have second: "same_but {s} (vault_look L V ?t1) (vault_look L V (?t1(full_path V s := None)))"
    using found1(1,5) by (intro same_but_upd [OF free(3) _ _ _ assms(2)]) simp_all
  have "vault_look L V (w_tree w') s' = Inr old"
    unfolding tree using same_butD [OF second, of s' old] neq free(4) fits by simp
  moreover have "same_but {s, s'} (vault_look L V (w_tree w)) (vault_look L V (w_tree w'))"
    unfolding tree using same_but_trans [OF first second] by (simp add: insert_commute)
  moreover have "vault_ok L V w'"
    using run by (intro vault_okI [OF assms(1) _ tree found1(5)]) blast
  ultimately show ?thesis
    using look hash x found(1) free(1,2) tree neq by blast
qed

text \<open>Mutations with the digest of what is there succeed.\<close>

lemma model_write_succeeds:
  assumes ok: "vault_ok L V w" and s: "usable_path s" and look: "vault_look L V (w_tree w) s = Inr old"
    and fits: "length d \<le> max_file_bytes V"
  shows "\<exists>y w'. write_bytes L V s d (Some (sha256_bytes L old)) w = (Inr y, w') \<and> vault_ok L V w' \<and>
    resp_sha256 y = Some (sha256_bytes L d) \<and> w_tree w' = (w_tree w)(full_path V s \<mapsto> FileN d)"
proof -
  obtain r w' where run: "write_bytes L V s d (Some (sha256_bytes L old)) w = (r, w')" by fastforce
  have "r = Inr \<lparr>resp_path = s, resp_sha256 = Some (sha256_bytes L d),
                  resp_byte_length = Some (length d), resp_operation = OpUpdated\<rparr>"
    using write_ok_cases [OF ok s run] vault_ok_parts(1) [OF ok] fits look
    by (auto simp: write_outcome_def read_outcome_look)
  with model_write_works [OF ok s, of d "Some (sha256_bytes L old)"] run show ?thesis by blast
qed

lemma model_delete_succeeds:
  assumes ok: "vault_ok L V w" and s: "usable_path s" and look: "vault_look L V (w_tree w) s = Inr old"
  shows "\<exists>y w'. delete_file L V s (Some (sha256_bytes L old)) w = (Inr y, w') \<and> vault_ok L V w' \<and>
    w_tree w' = (w_tree w)(full_path V s := None)"
proof -
  obtain r w' where run: "delete_file L V s (Some (sha256_bytes L old)) w = (r, w')" by fastforce
  note parts = vault_ok_parts [OF ok]
  have r: "r = Inr \<lparr>resp_path = s, resp_sha256 = None, resp_byte_length = None,
               resp_operation = OpDeleted\<rparr>"
    using delete_ok_cases [OF ok s run] parts(1) look
    by (auto simp: delete_outcome_def read_outcome_look)
  have tree: "w_tree w' = (w_tree w)(full_path V s := None)"
    using delete_ok_cases [OF ok s run] r by simp
  have "vault_ok L V w'"
    using delete_ok_cases [OF ok s run]
    by (intro vault_okI [OF ok _ tree look_found(5) [OF parts(4) look]]) blast
  with tree run r show ?thesis by blast
qed

lemma file_place:
  assumes root: "good_root t (root_real V)" and look: "vault_look L V t s = Inr d"
  shows "find_place V (t(full_path V s := None)) s = Inr ()"
proof -
  obtain up c where found: "found_at V t s d up c"
    using look by (auto simp: vault_look_Inr [OF root])
  let ?p = "root_real V @ up"
  let ?t = "t(?p @ [c] := None)"
  have q: "full_path V s = ?p @ [c]" and public: "public_path s"
    and parts: "relative_parts s = up @ [c]" and up: "path_status t (root_real V) up = Present DirN"
    using found by (simp_all add: found_at_def)
  have up': "path_status ?t (root_real V) up = Present DirN"
    using up by (subst path_status_upd) (auto dest: prefix_length_le)
  then have leaf: "path_status ?t (root_real V) (up @ [c]) = Missing"
    by (simp add: path_status_snoc)
  have "parent_outcome ?t (root_real V) s = Inr (s, ?p, ?p @ [c])"
    using parts up' leaf by (simp add: parent_outcome_def Let_def)
  then show ?thesis
    unfolding q find_place_def using public leaf parts
    by (simp add: validate_public_Inr [of s s, THEN iffD2])
qed

lemma model_create_undo:
  assumes "vault_ok L V w" "usable_path s" "create_bytes L V s d w = (Inr x, w1)"
    and "vault_ok L V w2" "w_tree w2 = w_tree w1"
  shows "\<exists>y w3. delete_file L V s (Some (sha256_bytes L d)) w2 = (Inr y, w3) \<and> vault_ok L V w3 \<and>
    w_tree w3 = w_tree w"
proof -
  have made: "vault_look L V (w_tree w1) s = Inr d" "w_tree w (full_path V s) = None"
    "w_tree w1 = (w_tree w)(full_path V s \<mapsto> FileN d)"
    using model_create_works [OF assms(1-3)] by blast+
  have "(w_tree w1)(full_path V s := None) = w_tree w"
    using made(2,3) by (simp add: fun_upd_idem)
  then show ?thesis
    using model_delete_succeeds [OF assms(4,2), of d] made(1) assms(5) by metis
qed

lemma model_write_undo:
  assumes "vault_ok L V w" "usable_path s" "write_bytes L V s d h w = (Inr x, w1)"
    and "vault_look L V (w_tree w) s = Inr old" "vault_ok L V w2" "w_tree w2 = w_tree w1"
  shows "\<exists>y w3. write_bytes L V s old (Some (sha256_bytes L d)) w2 = (Inr y, w3) \<and> vault_ok L V w3 \<and>
    w_tree w3 = w_tree w \<and> resp_sha256 y = Some (sha256_bytes L old)"
proof -
  note found = look_found(1,2) [OF vault_ok_parts(4) [OF assms(1)] assms(4)]
  have made: "vault_look L V (w_tree w1) s = Inr d"
    "w_tree w1 = (w_tree w)(full_path V s \<mapsto> FileN d)"
    using model_write_works [OF assms(1-3)] by blast+
  have "(w_tree w1)(full_path V s \<mapsto> FileN old) = w_tree w"
    using made(2) found(1) by (simp add: fun_upd_idem)
  then show ?thesis
    using model_write_succeeds [OF assms(5,2) _ found(2), of d] made(1) assms(6) by metis
qed

lemma model_write_same:
  assumes "vault_ok L V w" "usable_path s" "vault_look L V (w_tree w) s = Inr d"
  shows "\<exists>y w'. write_bytes L V s d (Some (sha256_bytes L d)) w = (Inr y, w') \<and> vault_ok L V w' \<and>
    w_tree w' = w_tree w \<and> resp_sha256 y = Some (sha256_bytes L d)"
proof -
  note found = look_found(1,2) [OF vault_ok_parts(4) [OF assms(1)] assms(3)]
  have "(w_tree w)(full_path V s \<mapsto> FileN d) = w_tree w"
    using found(1) by (simp add: fun_upd_idem)
  then show ?thesis
    using model_write_succeeds [OF assms found(2)] by metis
qed

lemma model_move_undo:
  assumes "vault_ok L V w" "usable_path s" "usable_path s'" "move_file L V s s' h w = (Inr x, w1)"
    and "vault_look L V (w_tree w) s = Inr old" "vault_ok L V w2" "w_tree w2 = w_tree w1"
  shows "\<exists>y w3. move_file L V s' s (Some (sha256_bytes L old)) w2 = (Inr y, w3) \<and> vault_ok L V w3 \<and>
    w_tree w3 = w_tree w \<and> resp_sha256 y = Some (sha256_bytes L old)"
proof -
  let ?q = "full_path V s" and ?q' = "full_path V s'"
  note root = vault_ok_parts(4) [OF assms(1)]
  have made: "vault_look L V (w_tree w1) s' = Inr old" "w_tree w ?q = Some (FileN old)" "w_tree w ?q' = None"
    "w_tree w1 = (w_tree w)(?q' \<mapsto> FileN old, ?q := None)" "s \<noteq> s'"
    "same_but {s'} (vault_look L V (w_tree w)) (vault_look L V ((w_tree w)(?q' \<mapsto> FileN old)))"
    "good_root ((w_tree w)(?q' \<mapsto> FileN old)) (root_real V)"
  proof -
    obtain old' where m: "vault_look L V (w_tree w) s = Inr old'" "vault_look L V (w_tree w1) s' = Inr old'"
        "w_tree w ?q = Some (FileN old')" "w_tree w ?q' = None"
        "w_tree w1 = (w_tree w)(?q' \<mapsto> FileN old', ?q := None)" "s \<noteq> s'"
      using model_move_works [OF assms(1-4)] by blast
    have "find_place V (w_tree w) s' = Inr ()"
      using move_ok_cases [OF assms(1-4)] by (auto simp: move_outcome_def rbind_eq_Inr split: if_splits)
    note free = find_place_free(3) [OF root this, of old]
    have "same_but {s'} (vault_look L V (w_tree w)) (vault_look L V ((w_tree w)(?q' \<mapsto> FileN old)))"
      using free m(4) by (intro same_but_upd [OF root _ _ _ assms(3)]) simp_all
    with m free assms(5)
    show "vault_look L V (w_tree w1) s' = Inr old" "w_tree w ?q = Some (FileN old)" "w_tree w ?q' = None"
      "w_tree w1 = (w_tree w)(?q' \<mapsto> FileN old, ?q := None)" "s \<noteq> s'"
      "same_but {s'} (vault_look L V (w_tree w)) (vault_look L V ((w_tree w)(?q' \<mapsto> FileN old)))"
      "good_root ((w_tree w)(?q' \<mapsto> FileN old)) (root_real V)"
      by simp_all
  qed
  have neq: "?q \<noteq> ?q'" using made(5) relative_parts_inj by auto
  let ?t1 = "(w_tree w)(?q' \<mapsto> FileN old)"
  have look2: "vault_look L V (w_tree w2) s' = Inr old" using made(1) assms(7) by simp
  have look1: "vault_look L V ?t1 s = Inr old"
    using same_butD [OF made(6), of s old] made(5) assms(5) by simp
  have place: "find_place V (w_tree w2) s = Inr ()"
    using file_place [OF made(7) look1] made(4) assms(7) by simp
  note parts2 = vault_ok_parts [OF assms(6)]
  note found2 = look_found [OF parts2(4) look2]
  obtain r w3 where run: "move_file L V s' s (Some (sha256_bytes L old)) w2 = (r, w3)" by fastforce
  obtain out where out: "rbind (validate_public_path s) (\<lambda>_. parent_outcome (w_tree w2) (root_real V) s) = Inr out"
    using place by (auto simp: find_place_def rbind_eq_Inr)
  have r: "r = Inr \<lparr>resp_path = s, resp_sha256 = Some (sha256_bytes L old),
              resp_byte_length = Some (length old), resp_operation = OpMoved\<rparr>"
    using move_ok_cases [OF assms(6,3,2) run] found2(2,4) place out made(5) parts2(1)
    by (auto simp: move_outcome_def)
  have "w_tree w3 = (w_tree w2)(?q \<mapsto> FileN old, ?q' := None)"
    using move_ok_cases [OF assms(6,3,2) run] r found2(1) by simp
  also have "\<dots> = w_tree w"
    unfolding assms(7) made(4) using made(2,3) neq by (auto simp: fun_eq_iff)
  finally have tree: "w_tree w3 = w_tree w" .
  then have "vault_ok L V w3"
    using move_ok_cases [OF assms(6,3,2) run] by (intro vault_okI [OF assms(6) _ tree root]) blast
  with run r tree show ?thesis by simp
qed

text \<open>Failures change nothing, and the conditions survive.\<close>

lemma model_fails:
  assumes "vault_ok L V w" "usable_path s" "usable_path s'"
  shows "create_bytes L V s d w = (Inl e, w') \<Longrightarrow> w_tree w' = w_tree w \<and> vault_ok L V w'"
    and "write_bytes L V s d h w = (Inl e, w') \<Longrightarrow> w_tree w' = w_tree w \<and> vault_ok L V w'"
    and "move_file L V s s' h w = (Inl e, w') \<Longrightarrow> w_tree w' = w_tree w \<and> vault_ok L V w'"
proof -
  have still: "w_tree w' = w_tree w \<and> quiet w' \<and> temps_free (w_tree w') (w_token w') \<Longrightarrow>
      w_tree w' = w_tree w \<and> vault_ok L V w'"
    using vault_okI [OF assms(1) _ _ vault_ok_parts(4) [OF assms(1)]] by blast
  show "create_bytes L V s d w = (Inl e, w') \<Longrightarrow> w_tree w' = w_tree w \<and> vault_ok L V w'"
    using create_ok_cases [OF assms(1,2), of d "Inl e" w'] still by auto
  show "write_bytes L V s d h w = (Inl e, w') \<Longrightarrow> w_tree w' = w_tree w \<and> vault_ok L V w'"
    using write_ok_cases [OF assms(1,2), of d h "Inl e" w'] still by auto
  show "move_file L V s s' h w = (Inl e, w') \<Longrightarrow> w_tree w' = w_tree w \<and> vault_ok L V w'"
    using move_ok_cases [OF assms(1-3), of h "Inl e" w'] still by auto
qed

lemma keeps_by_cases:
  assumes "\<And>x w'. m w = (Inr x, w') \<Longrightarrow> P w'" "\<And>e w'. m w = (Inl e, w') \<Longrightarrow> P w'"
  shows "P (snd (m w))"
  using assms by (cases "m w"; cases "fst (m w)") auto

lemma model_keeps:
  assumes "vault_ok L V w" "usable_path s" "usable_path s'"
  shows "vault_ok L V (snd (create_bytes L V s d w))" "vault_ok L V (snd (write_bytes L V s d h w))"
    "vault_ok L V (snd (move_file L V s s' h w))"
proof -
  show "vault_ok L V (snd (create_bytes L V s d w))"
    by (rule keeps_by_cases) (use model_create_works [OF assms(1,2)] model_fails(1) [OF assms] in blast)+
  show "vault_ok L V (snd (write_bytes L V s d h w))"
    by (rule keeps_by_cases) (use model_write_works [OF assms(1,2)] model_fails(2) [OF assms] in blast)+
  show "vault_ok L V (snd (move_file L V s s' h w))"
    by (rule keeps_by_cases) (use model_move_works [OF assms] model_fails(3) [OF assms] in blast)+
qed

lemma model_read:
  assumes "vault_ok L V w"
  shows "\<exists>w'. read_bytes L V s w =
      (rbind (vault_look L V (w_tree w) s) (\<lambda>d. Inr (d, sha256_bytes L d)), w') \<and>
      vault_ok L V w' \<and> w_tree w' = w_tree w"
proof -
  note parts = vault_ok_parts [OF assms]
  obtain w' where "read_bytes L V s w = (read_outcome L V (w_tree w) s, w')" "quiet w'"
      "w_tree w' = w_tree w" "w_token w' = w_token w"
    using runsD [OF read_bytes_runs [OF parts(4)] parts(3) refl refl] by metis
  with parts show ?thesis by (simp add: read_outcome_look vault_ok_def)
qed

lemma model_require: "pylib_ok L \<Longrightarrow> require_expected_hash L s h = Inr (sha256_bytes L old) \<Longrightarrow>
    h = Some (sha256_bytes L b) \<Longrightarrow> sha256_bytes L old = sha256_bytes L b"
  by simp

interpretation file_vault: vault_store "vault_ops_of L V" "vault_ok L V" w_tree "vault_look L V"
  "sha256_bytes L" usable_path for L V
proof (unfold_locales, goal_cases)
  case (1 w s)
  then show ?case using model_read by simp
next
  case (2 w s d)
  then show ?case using model_keeps(1) by simp
next
  case (3 w s d h)
  then show ?case using model_keeps(2) by simp
next
  case (4 w s s' h)
  then show ?case using model_keeps(3) by simp
next
  case (5 w s d e w')
  then show ?case using model_fails(1) [of L V w s s] by simp
next
  case (6 w s d h e w')
  then show ?case using model_fails(2) [of L V w s s] by simp
next
  case (7 w s s' h e w')
  then show ?case using model_fails(3) by simp
next
  case (8 w s d x w')
  then show ?case unfolding vault_ops_of_simps using model_create_works [of L V w s d x w'] by blast
next
  case (9 w s d h x w')
  then show ?case
    unfolding vault_ops_of_simps
    using model_write_works [of L V w s d h x w'] model_require [OF vault_ok_parts(1)] by blast
next
  case (10 w s s' h x w')
  then show ?case
    unfolding vault_ops_of_simps
    using model_move_works [of L V w s s' h x w'] model_require [OF vault_ok_parts(1)] by blast
next
  case (11 w s d x w1 w2)
  then show ?case using model_create_undo [of L V w s d x w1 w2] by simp
next
  case (12 w s d h x w1 old w2)
  then show ?case using model_write_undo [of L V w s d h x w1 old w2] by simp
next
  case (13 w s s' h x w1 old w2)
  then show ?case using model_move_undo [of L V w s s' h x w1 old w2] by simp
next
  case (14 w s d)
  then show ?case using model_write_same [of L V w s d] by simp
qed simp

end
