(* ===== verification/History.thy ===== *)
theory History imports Actions "HOL-Library.List_Lexorder" begin

text \<open>
  \<^verbatim>\<open>server/history/\<close>: job records, the transaction journal and the scheduler runs. The
  repository is a database with three tables; a \<^verbatim>\<open>transaction()\<close> applies its change completely
  or, on an exception, not at all. The list \<open>db_faults\<close> says which of the coming database accesses
  fail (a locked or full database); theorems hold for every such list. The service is the repository
  when there is one, and a mirror in memory.

  JSON columns are stored as the values they encode. Text compares by code points, in SQLite as in
  Python. Rows of equal sort keys stay in insertion order where the query leaves it open.
\<close>

section \<open>Records\<close>

datatype job_status = PLANNED | PREFLIGHTED | CAPTURED | AWAITING_CONFIRMATION | EXECUTING
  | VALIDATING | COMMITTED | REJECTED | ROLLED_BACK | FAILED | CONFLICT | UNDONE
  | UNDO_UNAVAILABLE | ROLLBACK_FAILED | RECOVERY_REQUIRED

fun status_value :: "job_status \<Rightarrow> pystr" where
  "status_value PLANNED = lit ''planned''"
| "status_value PREFLIGHTED = lit ''preflighted''"
| "status_value CAPTURED = lit ''captured''"
| "status_value AWAITING_CONFIRMATION = lit ''awaiting_confirmation''"
| "status_value EXECUTING = lit ''executing''"
| "status_value VALIDATING = lit ''validating''"
| "status_value COMMITTED = lit ''committed''"
| "status_value REJECTED = lit ''rejected''"
| "status_value ROLLED_BACK = lit ''rolled_back''"
| "status_value FAILED = lit ''failed''"
| "status_value CONFLICT = lit ''conflict''"
| "status_value UNDONE = lit ''undone''"
| "status_value UNDO_UNAVAILABLE = lit ''undo_unavailable''"
| "status_value ROLLBACK_FAILED = lit ''rollback_failed''"
| "status_value RECOVERY_REQUIRED = lit ''recovery_required''"

lemma status_value_inj [simp]: "status_value s = status_value t \<longleftrightarrow> s = t"
  by (cases s; cases t) simp_all

declare status_value.simps [simp del]

datatype json = JNull | JBool bool | JInt int | JStr pystr | JArr "json list" | JObj "(pystr \<times> json) list"

record history_record =
  hr_job_id :: pystr
  hr_task_type :: pystr
  hr_model :: "pystr option"
  hr_prompt_version :: "pystr option"
  hr_permission_level :: int
  hr_start_time :: pystr
  hr_end_time :: "pystr option"
  hr_status :: pystr
  hr_error :: "(pystr \<times> pystr) option"
  hr_files_read :: "pystr list"
  hr_proposed_actions :: "json list"
  hr_executed_actions :: "json list"
  hr_diff :: "json list"
  hr_before_hash :: "(pystr \<times> pystr option) list"
  hr_after_hash :: "(pystr \<times> pystr option) list"
  hr_created_at :: pystr

datatype journal_operation = OpCreate | OpUpdate | OpMove | OpUndo

datatype journal_state = JPending | JApplied | JRolledBack

text \<open>The \<^verbatim>\<open>inverse\<close> dict: its \<^verbatim>\<open>kind\<close> and, for a move, its \<^verbatim>\<open>source\<close>.\<close>

record inverse_info =
  inv_kind :: "pystr option"
  inv_source :: "pystr option"

record journal_entry =
  je_job_id :: pystr
  je_seq :: nat
  je_operation :: journal_operation
  je_path :: pystr
  je_before_exists :: bool
  je_before_base64 :: "pystr option"
  je_before_hash :: "pystr option"
  je_after_exists :: bool
  je_after_hash :: "pystr option"
  je_inverse :: inverse_info
  je_state :: journal_state

record run_row =
  rr_run_id :: pystr
  rr_task :: pystr
  rr_trigger :: pystr
  rr_status :: pystr
  rr_idempotency_key :: pystr
  rr_agent_job_id :: "pystr option"
  rr_scheduled_for :: "pystr option"
  rr_started_at :: pystr
  rr_finished_at :: "pystr option"
  rr_error_code :: "pystr option"
  rr_message :: "pystr option"
  rr_created_at :: "pystr option"

section \<open>The database\<close>

record tables =
  t_jobs :: "history_record list"
  t_journal :: "journal_entry list"
  t_runs :: "run_row list"

record history_db =
  db_tables :: tables
  db_faults :: "bool list"

datatype history_error = StorageError | IntegrityError

text \<open>
  One access to the database: \<^verbatim>\<open>BEGIN IMMEDIATE\<close>, the statements, \<^verbatim>\<open>COMMIT\<close>, or
  \<^verbatim>\<open>ROLLBACK\<close> on an exception.
\<close>

definition transaction :: "(tables \<Rightarrow> history_error + 'a \<times> tables) \<Rightarrow> (history_db, history_error, 'a) act" where
  "transaction f = (\<lambda>db.
     let db1 = db\<lparr>db_faults := tl (db_faults db)\<rparr> in
     if db_faults db \<noteq> [] \<and> hd (db_faults db) then (Inl StorageError, db1)
     else (case f (db_tables db) of
             Inl e \<Rightarrow> (Inl e, db1)
           | Inr (x, t) \<Rightarrow> (Inr x, db1\<lparr>db_tables := t\<rparr>)))"

definition fetch :: "(tables \<Rightarrow> 'a) \<Rightarrow> (history_db, history_error, 'a) act" where
  "fetch f = transaction (\<lambda>t. Inr (f t, t))"

text \<open>\<^verbatim>\<open>INSERT .. ON CONFLICT(key) DO UPDATE\<close> and \<^verbatim>\<open>INSERT OR REPLACE\<close>.\<close>

fun upsert :: "('a \<Rightarrow> 'k) \<Rightarrow> 'a \<Rightarrow> 'a list \<Rightarrow> 'a list" where
  "upsert key x [] = [x]"
| "upsert key x (y # ys) = (if key y = key x then x # ys else y # upsert key x ys)"

definition insert_or_replace :: "('a \<Rightarrow> 'k) \<Rightarrow> 'a \<Rightarrow> 'a list \<Rightarrow> 'a list" where
  "insert_or_replace key x rows = filter (\<lambda>y. key y \<noteq> key x) rows @ [x]"

definition journal_key :: "journal_entry \<Rightarrow> pystr \<times> nat" where
  "journal_key e = (je_job_id e, je_seq e)"

definition lookup_row :: "('a \<Rightarrow> 'k) \<Rightarrow> 'k \<Rightarrow> 'a list \<Rightarrow> 'a option" where
  "lookup_row key k rows = find (\<lambda>r. key r = k) rows"

text \<open>\<^verbatim>\<open>LIMIT\<close> and \<^verbatim>\<open>OFFSET\<close>, and Python's slice, of a non-negative range.\<close>

definition window :: "int \<Rightarrow> int \<Rightarrow> 'a list \<Rightarrow> 'a list" where
  "window limit offset xs = take (nat limit) (drop (nat offset) xs)"

definition safe_limit :: "int \<Rightarrow> int" where "safe_limit limit = max 1 (min limit 100)"

definition safe_offset :: "int \<Rightarrow> int" where "safe_offset offset = max 0 offset"

section \<open>The repository\<close>

definition repo_save :: "history_record \<Rightarrow> (history_db, history_error, unit) act" where
  "repo_save record =
     transaction (\<lambda>t. Inr ((), t\<lparr>t_jobs := upsert hr_job_id record (t_jobs t)\<rparr>))"

definition repo_get :: "pystr \<Rightarrow> (history_db, history_error, history_record option) act" where
  "repo_get job_id = fetch (\<lambda>t. lookup_row hr_job_id job_id (t_jobs t))"

definition newest_first :: "history_record list \<Rightarrow> history_record list" where
  "newest_first rs = rev (sort_key (\<lambda>r. (hr_start_time r, hr_job_id r)) rs)"

definition with_status :: "pystr option \<Rightarrow> history_record list \<Rightarrow> history_record list" where
  "with_status status rs =
     (if some_nonempty status then filter (\<lambda>r. Some (hr_status r) = status) rs else rs)"

definition repo_page ::
  "int \<Rightarrow> int \<Rightarrow> pystr option \<Rightarrow> (history_db, history_error, history_record list \<times> nat) act" where
  "repo_page limit offset status =
     seq (fetch (\<lambda>t. length (with_status status (t_jobs t)))) (\<lambda>total.
     seq (fetch (\<lambda>t. window (safe_limit limit) (safe_offset offset)
                       (newest_first (with_status status (t_jobs t))))) (\<lambda>rows.
     ret (rows, total)))"

text \<open>Deleting a job deletes its journal rows (\<^verbatim>\<open>ON DELETE CASCADE\<close>).\<close>

definition delete_job :: "pystr \<Rightarrow> tables \<Rightarrow> tables" where
  "delete_job job_id t =
     t\<lparr>t_jobs := filter (\<lambda>r. hr_job_id r \<noteq> job_id) (t_jobs t),
       t_journal := filter (\<lambda>e. je_job_id e \<noteq> job_id) (t_journal t)\<rparr>"

definition job_count :: "pystr \<Rightarrow> tables \<Rightarrow> nat" where
  "job_count job_id t = length (filter (\<lambda>r. hr_job_id r = job_id) (t_jobs t))"

definition repo_delete :: "pystr \<Rightarrow> (history_db, history_error, bool) act" where
  "repo_delete job_id = transaction (\<lambda>t. Inr (0 < job_count job_id t, delete_job job_id t))"

text \<open>The journal's foreign key: a row needs its job.\<close>

definition repo_add_journal :: "journal_entry \<Rightarrow> (history_db, history_error, unit) act" where
  "repo_add_journal entry =
     transaction (\<lambda>t.
       if je_job_id entry \<in> set (map hr_job_id (t_jobs t))
       then Inr ((), t\<lparr>t_journal := insert_or_replace journal_key entry (t_journal t)\<rparr>)
       else Inl IntegrityError)"

definition journal_of :: "pystr \<Rightarrow> journal_entry list \<Rightarrow> journal_entry list" where
  "journal_of job_id rows = sort_key je_seq (filter (\<lambda>e. je_job_id e = job_id) rows)"

definition repo_journal :: "pystr \<Rightarrow> (history_db, history_error, journal_entry list) act" where
  "repo_journal job_id = fetch (\<lambda>t. journal_of job_id (t_journal t))"

definition set_state_of :: "pystr \<Rightarrow> journal_state \<Rightarrow> journal_entry list \<Rightarrow> journal_entry list" where
  "set_state_of job_id state rows =
     map (\<lambda>e. if je_job_id e = job_id then e\<lparr>je_state := state\<rparr> else e) rows"

definition repo_set_journal_state :: "pystr \<Rightarrow> journal_state \<Rightarrow> (history_db, history_error, unit) act" where
  "repo_set_journal_state job_id state =
     transaction (\<lambda>t. Inr ((), t\<lparr>t_journal := set_state_of job_id state (t_journal t)\<rparr>))"

text \<open>\<^verbatim>\<open>created_at\<close> is the one column of a run row that may be missing and must not be null.\<close>

definition repo_save_run :: "run_row \<Rightarrow> (history_db, history_error, unit) act" where
  "repo_save_run row =
     transaction (\<lambda>t.
       if rr_created_at row = None then Inl IntegrityError
       else Inr ((), t\<lparr>t_runs := upsert rr_run_id row (t_runs t)\<rparr>))"

definition repo_get_run :: "pystr \<Rightarrow> (history_db, history_error, run_row option) act" where
  "repo_get_run run_id = fetch (\<lambda>t. lookup_row rr_run_id run_id (t_runs t))"

definition runs_newest_first :: "run_row list \<Rightarrow> run_row list" where
  "runs_newest_first rs = rev (sort_key (\<lambda>r. (rr_started_at r, rr_run_id r)) rs)"

definition with_task :: "pystr option \<Rightarrow> run_row list \<Rightarrow> run_row list" where
  "with_task task rs = (if some_nonempty task then filter (\<lambda>r. Some (rr_task r) = task) rs else rs)"

definition repo_page_runs ::
  "int \<Rightarrow> int \<Rightarrow> pystr option \<Rightarrow> (history_db, history_error, run_row list \<times> nat) act" where
  "repo_page_runs limit offset task =
     seq (fetch (\<lambda>t. length (with_task task (t_runs t)))) (\<lambda>total.
     seq (fetch (\<lambda>t. window (safe_limit limit) (safe_offset offset)
                       (runs_newest_first (with_task task (t_runs t))))) (\<lambda>rows.
     ret (rows, total)))"

definition runs_in_status :: "pystr list \<Rightarrow> run_row list \<Rightarrow> run_row list" where
  "runs_in_status statuses rs = sort_key rr_started_at (filter (\<lambda>r. rr_status r \<in> set statuses) rs)"

definition repo_runs_with_status :: "pystr list \<Rightarrow> (history_db, history_error, run_row list) act" where
  "repo_runs_with_status statuses =
     (if statuses = [] then ret [] else fetch (\<lambda>t. runs_in_status statuses (t_runs t)))"

definition jobs_in_status :: "pystr list \<Rightarrow> history_record list \<Rightarrow> history_record list" where
  "jobs_in_status statuses rs = sort_key hr_start_time (filter (\<lambda>r. hr_status r \<in> set statuses) rs)"

text \<open>A projected job row: id, status and end time.\<close>

type_synonym job_row = "pystr \<times> pystr \<times> pystr option"

definition job_row :: "history_record \<Rightarrow> job_row" where
  "job_row r = (hr_job_id r, hr_status r, hr_end_time r)"

definition repo_job_ids_with_statuses :: "pystr list \<Rightarrow> (history_db, history_error, job_row list) act" where
  "repo_job_ids_with_statuses statuses =
     (if statuses = [] then ret [] else fetch (\<lambda>t. map job_row (jobs_in_status statuses (t_jobs t))))"

fun delete_each_job :: "pystr list \<Rightarrow> nat \<Rightarrow> tables \<Rightarrow> nat \<times> tables" where
  "delete_each_job [] deleted t = (deleted, t)"
| "delete_each_job (j # js) deleted t = delete_each_job js (deleted + job_count j t) (delete_job j t)"

definition repo_delete_jobs :: "pystr list \<Rightarrow> (history_db, history_error, nat) act" where
  "repo_delete_jobs job_ids =
     (if job_ids = [] then ret 0 else transaction (\<lambda>t. Inr (delete_each_job job_ids 0 t)))"

fun delete_each_run :: "pystr list \<Rightarrow> nat \<Rightarrow> run_row list \<Rightarrow> nat \<times> run_row list" where
  "delete_each_run [] deleted rs = (deleted, rs)"
| "delete_each_run (i # is) deleted rs =
     delete_each_run is (deleted + length (filter (\<lambda>r. rr_run_id r = i) rs))
       (filter (\<lambda>r. rr_run_id r \<noteq> i) rs)"

definition repo_delete_runs :: "pystr list \<Rightarrow> (history_db, history_error, nat) act" where
  "repo_delete_runs run_ids =
     (if run_ids = [] then ret 0
      else transaction (\<lambda>t. let (n, rs) = delete_each_run run_ids 0 (t_runs t) in Inr (n, t\<lparr>t_runs := rs\<rparr>)))"

definition repo_run_count :: "(history_db, history_error, nat) act" where
  "repo_run_count = fetch (\<lambda>t. length (t_runs t))"

text \<open>\<^verbatim>\<open>COALESCE(end_time, start_time) < cutoff\<close>: only a null falls back.\<close>

definition job_bound :: "history_record \<Rightarrow> pystr" where
  "job_bound r = (case hr_end_time r of None \<Rightarrow> hr_start_time r | Some e \<Rightarrow> e)"

definition run_bound :: "run_row \<Rightarrow> pystr" where
  "run_bound r = (case rr_finished_at r of None \<Rightarrow> rr_started_at r | Some e \<Rightarrow> e)"

definition repo_terminal_job_rows :: "pystr list \<Rightarrow> pystr \<Rightarrow> (history_db, history_error, history_record list) act" where
  "repo_terminal_job_rows statuses cutoff =
     fetch (\<lambda>t. filter (\<lambda>r. job_bound r < cutoff) (jobs_in_status statuses (t_jobs t)))"

definition repo_terminal_run_rows :: "pystr list \<Rightarrow> pystr \<Rightarrow> (history_db, history_error, run_row list) act" where
  "repo_terminal_run_rows statuses cutoff =
     fetch (\<lambda>t. filter (\<lambda>r. run_bound r < cutoff) (runs_in_status statuses (t_runs t)))"

definition repo_oldest_terminal_runs :: "pystr list \<Rightarrow> int \<Rightarrow> (history_db, history_error, run_row list) act" where
  "repo_oldest_terminal_runs statuses n =
     fetch (\<lambda>t. take (nat n) (runs_in_status statuses (t_runs t)))"

definition repo_all_runs_sorted :: "(history_db, history_error, run_row list) act" where
  "repo_all_runs_sorted = fetch (\<lambda>t. rev (sort_key rr_started_at (rev (t_runs t))))"

end
