(* ===== verification/HistoryService.thy ===== *)
theory HistoryService imports History begin

text \<open>
  \<^verbatim>\<open>server/history/service.py\<close>: the facade the recovery, agent and scheduler code calls. With
  a repository every operation goes through the database and, for records and runs, also refreshes
  the mirror; without one the mirror is all there is. Python's dicts keep insertion order, so the
  mirror of records and runs is a list with distinct keys.
\<close>

record history =
  hs_repository :: "history_db option"
  hs_records :: "history_record list"
  hs_journal :: "pystr \<Rightarrow> journal_entry list"
  hs_runs :: "run_row list"

type_synonym 'a hist_act = "(history, history_error, 'a) act"

definition available :: "history \<Rightarrow> bool" where
  "available h \<longleftrightarrow> hs_repository h \<noteq> None"

text \<open>\<open>with_repo m f\<close>: run \<open>m\<close> on the repository if there is one, else \<open>f\<close>.\<close>

definition with_repo :: "(history_db, history_error, 'a) act \<Rightarrow> 'a hist_act \<Rightarrow> 'a hist_act" where
  "with_repo m f = (\<lambda>h. case hs_repository h of
       None \<Rightarrow> f h
     | Some db \<Rightarrow> (case m db of (r, db') \<Rightarrow> (r, h\<lparr>hs_repository := Some db'\<rparr>)))"

definition mirror :: "(history \<Rightarrow> 'a \<times> history) \<Rightarrow> 'a hist_act" where
  "mirror f = (\<lambda>h. case f h of (x, h') \<Rightarrow> (Inr x, h'))"

section \<open>Records\<close>

definition h_save :: "history_record \<Rightarrow> history_record hist_act" where
  "h_save record =
     seq (with_repo (repo_save record) (ret ())) (\<lambda>_.
     mirror (\<lambda>h. (record, h\<lparr>hs_records := upsert hr_job_id record (hs_records h)\<rparr>)))"

definition h_get :: "pystr \<Rightarrow> history_record option hist_act" where
  "h_get job_id =
     with_repo (repo_get job_id) (mirror (\<lambda>h. (lookup_row hr_job_id job_id (hs_records h), h)))"

record history_page =
  pg_items :: "history_record list"
  pg_total :: nat
  pg_limit :: int
  pg_offset :: int

definition h_page :: "int \<Rightarrow> int \<Rightarrow> pystr option \<Rightarrow> history_page hist_act" where
  "h_page limit offset status =
     seq (with_repo (repo_page (safe_limit limit) (safe_offset offset) status)
       (mirror (\<lambda>h. let items = newest_first (with_status status (hs_records h)) in
          ((window (safe_limit limit) (safe_offset offset) items, length items), h)))) (\<lambda>(items, total).
     ret \<lparr>pg_items = items, pg_total = total, pg_limit = safe_limit limit, pg_offset = safe_offset offset\<rparr>)"

text \<open>\<open>now\<close> is the value of \<^verbatim>\<open>_now_iso()\<close>.\<close>

definition h_finish ::
  "pystr \<Rightarrow> history_record \<Rightarrow> pystr \<Rightarrow> (pystr \<times> pystr) option \<Rightarrow> history_record hist_act" where
  "h_finish now record status error =
     h_save (record\<lparr>hr_status := status, hr_error := error, hr_end_time := Some now\<rparr>)"

section \<open>Journal\<close>

definition h_append_journal :: "journal_entry \<Rightarrow> unit hist_act" where
  "h_append_journal entry =
     with_repo (repo_add_journal entry)
       (mirror (\<lambda>h. ((), h\<lparr>hs_journal := (hs_journal h)
          (je_job_id entry := sort_key je_seq (hs_journal h (je_job_id entry) @ [entry]))\<rparr>)))"

definition h_journal :: "pystr \<Rightarrow> journal_entry list hist_act" where
  "h_journal job_id = with_repo (repo_journal job_id) (mirror (\<lambda>h. (hs_journal h job_id, h)))"

definition h_set_journal_state :: "pystr \<Rightarrow> journal_state \<Rightarrow> unit hist_act" where
  "h_set_journal_state job_id state =
     with_repo (repo_set_journal_state job_id state)
       (mirror (\<lambda>h. ((), h\<lparr>hs_journal := (hs_journal h)
          (job_id := map (\<lambda>e. e\<lparr>je_state := state\<rparr>) (hs_journal h job_id))\<rparr>)))"

section \<open>Scheduler runs\<close>

definition h_save_run :: "run_row \<Rightarrow> run_row hist_act" where
  "h_save_run row =
     seq (with_repo (repo_save_run row) (ret ())) (\<lambda>_.
     mirror (\<lambda>h. (row, h\<lparr>hs_runs := upsert rr_run_id row (hs_runs h)\<rparr>)))"

definition h_get_run :: "pystr \<Rightarrow> run_row option hist_act" where
  "h_get_run run_id =
     with_repo (repo_get_run run_id) (mirror (\<lambda>h. (lookup_row rr_run_id run_id (hs_runs h), h)))"

definition h_page_runs :: "int \<Rightarrow> int \<Rightarrow> pystr option \<Rightarrow> (run_row list \<times> nat \<times> int \<times> int) hist_act" where
  "h_page_runs limit offset task =
     seq (with_repo (repo_page_runs (safe_limit limit) (safe_offset offset) task)
       (mirror (\<lambda>h. let items = runs_newest_first (with_task task (hs_runs h)) in
          ((window (safe_limit limit) (safe_offset offset) items, length items), h)))) (\<lambda>(items, total).
     ret (items, total, safe_limit limit, safe_offset offset))"

definition h_runs_with_status :: "pystr list \<Rightarrow> run_row list hist_act" where
  "h_runs_with_status statuses =
     with_repo (repo_runs_with_status statuses) (mirror (\<lambda>h. (runs_in_status statuses (hs_runs h), h)))"

section \<open>Diagnostics\<close>

datatype run_status = RQueued | RRunning | RPreviewed | RCommitted | RSkippedDuplicate | RFailed
  | RTimedOut | RRecoveryRequired

fun run_status_value :: "run_status \<Rightarrow> pystr" where
  "run_status_value RQueued = lit ''queued''"
| "run_status_value RRunning = lit ''running''"
| "run_status_value RPreviewed = lit ''previewed''"
| "run_status_value RCommitted = lit ''committed''"
| "run_status_value RSkippedDuplicate = lit ''skipped_duplicate''"
| "run_status_value RFailed = lit ''failed''"
| "run_status_value RTimedOut = lit ''timed_out''"
| "run_status_value RRecoveryRequired = lit ''recovery_required''"

lemma run_status_value_inj [simp]: "run_status_value s = run_status_value t \<longleftrightarrow> s = t"
  by (cases s; cases t) simp_all

declare run_status_value.simps [simp del]

definition run_finished :: "run_status \<Rightarrow> bool" where
  "run_finished s \<longleftrightarrow> s \<in> {RPreviewed, RCommitted, RSkippedDuplicate, RFailed, RTimedOut}"

definition run_active :: "run_status \<Rightarrow> bool" where
  "run_active s \<longleftrightarrow> s \<in> {RQueued, RRunning}"

text \<open>The non-terminal execution states, and the terminal ones retention may delete.\<close>

definition unfinished_states :: "job_status list" where
  "unfinished_states = [PLANNED, PREFLIGHTED, CAPTURED, EXECUTING, VALIDATING]"

definition terminal_states :: "job_status list" where
  "terminal_states = [COMMITTED, REJECTED, ROLLED_BACK, FAILED, CONFLICT, UNDONE, UNDO_UNAVAILABLE,
     ROLLBACK_FAILED]"

definition terminal_runs :: "run_status list" where
  "terminal_runs = [RPreviewed, RCommitted, RSkippedDuplicate, RFailed, RTimedOut]"

definition h_unfinished_job_rows :: "job_row list hist_act" where
  "h_unfinished_job_rows =
     (let states = map status_value unfinished_states in
      with_repo (repo_job_ids_with_statuses states)
        (mirror (\<lambda>h. (map job_row (filter (\<lambda>r. hr_status r \<in> set states) (hs_records h)), h))))"

definition h_recovery_required_count :: "nat hist_act" where
  "h_recovery_required_count =
     (let flagged_job = status_value RECOVERY_REQUIRED in
      seq (h_runs_with_status [run_status_value RRecoveryRequired]) (\<lambda>runs.
      let flagged_run_job_ids = set (map (\<lambda>r. the (rr_agent_job_id r))
            (filter (\<lambda>r. some_nonempty (rr_agent_job_id r)) runs)) in
      seq (with_repo (repo_job_ids_with_statuses [flagged_job])
        (mirror (\<lambda>h. (map job_row (filter (\<lambda>r. hr_status r = flagged_job) (hs_records h)), h)))) (\<lambda>jobs.
      ret (length runs + length (filter (\<lambda>row. fst row \<notin> flagged_run_job_ids) jobs)))))"

section \<open>Retention\<close>

text \<open>
  \<open>subtract_days\<close> stands for \<^verbatim>\<open>datetime\<close>: the ISO text of \<^verbatim>\<open>now - days\<close> in UTC, or \<open>None\<close>
  when it raises, in which case the code falls back to \<^verbatim>\<open>now\<close> itself.
\<close>

definition retention_bound :: "(pystr \<Rightarrow> int \<Rightarrow> pystr option) \<Rightarrow> pystr \<Rightarrow> int \<Rightarrow> pystr" where
  "retention_bound subtract_days now days = (case subtract_days now days of None \<Rightarrow> now | Some b \<Rightarrow> b)"

text \<open>\<open>newest_per_task.setdefault(task, run_id)\<close> over the rows, newest first.\<close>

fun newest_per_task :: "run_row list \<Rightarrow> (pystr \<times> pystr) list \<Rightarrow> (pystr \<times> pystr) list" where
  "newest_per_task [] m = m"
| "newest_per_task (r # rs) m =
     newest_per_task rs (if map_of m (rr_task r) = None then m @ [(rr_task r, rr_run_id r)] else m)"

definition truthy_or :: "pystr option \<Rightarrow> pystr \<Rightarrow> pystr" where
  "truthy_or a b = (if some_nonempty a then the a else b)"

fun pop_expired_runs :: "pystr set \<Rightarrow> pystr \<Rightarrow> pystr set \<Rightarrow> run_row list \<Rightarrow> run_row list \<Rightarrow> run_row list" where
  "pop_expired_runs terminal cutoff keep [] store = store"
| "pop_expired_runs terminal cutoff keep (r # rs) store =
     pop_expired_runs terminal cutoff keep rs
       (if rr_status r \<in> terminal \<and> truthy_or (rr_finished_at r) (rr_started_at r) < cutoff \<and>
           rr_run_id r \<notin> keep
        then filter (\<lambda>x. rr_run_id x \<noteq> rr_run_id r) store else store)"

fun pop_terminal_runs :: "pystr set \<Rightarrow> run_row list \<Rightarrow> run_row list \<Rightarrow> run_row list" where
  "pop_terminal_runs terminal [] store = store"
| "pop_terminal_runs terminal (r # rs) store =
     pop_terminal_runs terminal rs
       (if rr_status r \<in> terminal then filter (\<lambda>x. rr_run_id x \<noteq> rr_run_id r) store else store)"

definition cleanup_memory :: "pystr \<Rightarrow> pystr set \<Rightarrow> pystr set \<Rightarrow> int \<Rightarrow> history \<Rightarrow> history" where
  "cleanup_memory cutoff job_terminal run_terminal max_scheduler_runs h =
     (let expired = map hr_job_id (filter (\<lambda>r. hr_status r \<in> job_terminal \<and>
            truthy_or (hr_end_time r) (hr_start_time r) < cutoff) (hs_records h));
          runs = sort_key rr_started_at (hs_runs h);
          newest = newest_per_task (rev runs) [];
          store = pop_expired_runs run_terminal cutoff (set (map snd newest)) runs (hs_runs h);
          remaining = sort_key rr_started_at store;
          excess = int (length remaining) - max_scheduler_runs;
          store' = (if 0 < excess then pop_terminal_runs run_terminal (take (nat excess) remaining) store
                    else store) in
      h\<lparr>hs_records := filter (\<lambda>r. hr_job_id r \<notin> set expired) (hs_records h),
        hs_journal := (\<lambda>j. if j \<in> set expired then [] else hs_journal h j),
        hs_runs := store'\<rparr>)"

record cleanup_result =
  cl_deleted_jobs :: nat
  cl_deleted_runs :: nat
  cl_kept_active_runs :: nat
  cl_retention_days :: int

definition repo_cleanup :: "pystr \<Rightarrow> int \<Rightarrow> int \<Rightarrow> (history_db, history_error, cleanup_result) act" where
  "repo_cleanup bound retention_days max_scheduler_runs =
     (let job_terminal = map status_value terminal_states; run_terminal = map run_status_value terminal_runs in
      seq (repo_terminal_job_rows job_terminal bound) (\<lambda>job_rows.
      seq (repo_delete_jobs (map hr_job_id job_rows)) (\<lambda>deleted_jobs.
      seq (repo_terminal_run_rows run_terminal bound) (\<lambda>run_rows.
      seq repo_all_runs_sorted (\<lambda>all_runs.
      let run_ids = map rr_run_id run_rows;
          keep_ids = set (map snd (newest_per_task all_runs []));
          deletable = filter (\<lambda>i. i \<notin> keep_ids) run_ids in
      seq (repo_delete_runs deletable) (\<lambda>deleted_runs.
      seq repo_run_count (\<lambda>total_runs.
      let excess = max 0 (int total_runs - max_scheduler_runs) in
      seq (if excess \<noteq> 0
           then seq (repo_oldest_terminal_runs run_terminal excess) (\<lambda>oldest.
                if oldest \<noteq> [] then repo_delete_runs (map rr_run_id oldest) else ret 0)
           else ret 0) (\<lambda>more.
      ret \<lparr>cl_deleted_jobs = deleted_jobs, cl_deleted_runs = deleted_runs + more,
           cl_kept_active_runs = length run_ids - length deletable,
           cl_retention_days = retention_days\<rparr>))))))))"

definition h_cleanup_retention ::
  "(pystr \<Rightarrow> int \<Rightarrow> pystr option) \<Rightarrow> pystr \<Rightarrow> int \<Rightarrow> int \<Rightarrow> cleanup_result hist_act" where
  "h_cleanup_retention subtract_days now retention_days max_scheduler_runs =
     (let bound = retention_bound subtract_days now retention_days in
      with_repo (repo_cleanup bound retention_days max_scheduler_runs)
        (mirror (\<lambda>h. (\<lparr>cl_deleted_jobs = 0, cl_deleted_runs = 0, cl_kept_active_runs = 0,
             cl_retention_days = retention_days\<rparr>,
           cleanup_memory bound (set (map status_value terminal_states))
             (set (map run_status_value terminal_runs)) max_scheduler_runs h))))"

section \<open>Projections for the API\<close>

record job_summary =
  js_job_id :: pystr
  js_task_type :: pystr
  js_status :: pystr
  js_start_time :: pystr
  js_end_time :: "pystr option"
  js_model :: "pystr option"
  js_action_count :: nat

definition summary_dto :: "history_record \<Rightarrow> job_summary" where
  "summary_dto r = \<lparr>js_job_id = hr_job_id r, js_task_type = hr_task_type r, js_status = hr_status r,
     js_start_time = hr_start_time r, js_end_time = hr_end_time r, js_model = hr_model r,
     js_action_count = length (hr_proposed_actions r)\<rparr>"

record job_detail =
  dt_job_id :: pystr
  dt_task_type :: pystr
  dt_status :: pystr
  dt_start_time :: pystr
  dt_end_time :: "pystr option"
  dt_model :: "pystr option"
  dt_prompt_version :: "pystr option"
  dt_permission_level :: int
  dt_files_read :: "pystr list"
  dt_proposed_actions :: "json list"
  dt_executed_actions :: "json list"
  dt_diff :: "json list"
  dt_before_hash :: "(pystr \<times> pystr option) list"
  dt_after_hash :: "(pystr \<times> pystr option) list"
  dt_error :: "(pystr \<times> pystr) option"

definition detail_dto :: "history_record \<Rightarrow> job_detail" where
  "detail_dto r = \<lparr>dt_job_id = hr_job_id r, dt_task_type = hr_task_type r, dt_status = hr_status r,
     dt_start_time = hr_start_time r, dt_end_time = hr_end_time r, dt_model = hr_model r,
     dt_prompt_version = hr_prompt_version r, dt_permission_level = hr_permission_level r,
     dt_files_read = hr_files_read r, dt_proposed_actions = hr_proposed_actions r,
     dt_executed_actions = hr_executed_actions r, dt_diff = hr_diff r, dt_before_hash = hr_before_hash r,
     dt_after_hash = hr_after_hash r, dt_error = hr_error r\<rparr>"

section \<open>Rows with distinct keys\<close>

lemma keys_upsert: "map key (upsert key x xs) =
    (if key x \<in> set (map key xs) then map key xs else map key xs @ [key x])"
  by (induction xs) auto

lemma distinct_upsert: "distinct (map key xs) \<Longrightarrow> distinct (map key (upsert key x xs))"
  by (simp only: keys_upsert) auto

lemma set_upsert: "distinct (map key xs) \<Longrightarrow>
    set (upsert key x xs) = insert x {y \<in> set xs. key y \<noteq> key x}"
  by (induction xs) (auto simp: image_iff)

lemma lookup_upsert: "lookup_row key k (upsert key x xs) = (if k = key x then Some x else lookup_row key k xs)"
  by (induction xs) (auto simp: lookup_row_def)

lemma lookup_row_key: "lookup_row key k xs = Some x \<Longrightarrow> key x = k \<and> x \<in> set xs"
  by (auto simp: lookup_row_def find_Some_iff)

lemma set_insert_or_replace:
  "set (insert_or_replace key x xs) = insert x {y \<in> set xs. key y \<noteq> key x}"
  by (auto simp: insert_or_replace_def)

lemma distinct_insert_or_replace:
  "distinct (map key xs) \<Longrightarrow> distinct (map key (insert_or_replace key x xs))"
  by (auto simp: insert_or_replace_def distinct_map_filter)

section \<open>Well-formed tables\<close>

text \<open>Primary keys are unique and the journal's foreign key holds.\<close>

definition db_wf :: "tables \<Rightarrow> bool" where
  "db_wf t \<longleftrightarrow> distinct (map hr_job_id (t_jobs t)) \<and> distinct (map journal_key (t_journal t)) \<and>
     distinct (map rr_run_id (t_runs t)) \<and>
     (\<forall>e \<in> set (t_journal t). je_job_id e \<in> hr_job_id ` set (t_jobs t))"

definition mirror_wf :: "history \<Rightarrow> bool" where
  "mirror_wf h \<longleftrightarrow> distinct (map hr_job_id (hs_records h)) \<and> distinct (map rr_run_id (hs_runs h)) \<and>
     (\<forall>j. sorted (map je_seq (hs_journal h j)) \<and> (\<forall>e \<in> set (hs_journal h j). je_job_id e = j))"

definition history_wf :: "history \<Rightarrow> bool" where
  "history_wf h \<longleftrightarrow> pred_option (\<lambda>db. db_wf (db_tables db)) (hs_repository h) \<and> mirror_wf h"

named_theorems history_keeps \<open>operations that preserve the invariants\<close>

lemma keeps_transaction:
  assumes "\<And>t x t'. P t \<Longrightarrow> f t = Inr (x, t') \<Longrightarrow> P t'"
  shows "keeps (\<lambda>db. P (db_tables db)) (transaction f)"
  unfolding keeps_def transaction_def using assms
  by (auto simp: Let_def split: sum.splits)

lemma keeps_fetch [history_keeps]: "keeps (\<lambda>db. P (db_tables db)) (fetch f)"
  unfolding fetch_def by (rule keeps_transaction) auto

lemma key_image_upsert: "key ` set (upsert key x xs) = insert (key x) (key ` set xs)"
  by (induction xs) auto

lemma key_image_filter: "key ` set (filter (\<lambda>r. key r \<noteq> k) xs) = key ` set xs - {k}"
  by auto

lemma db_wf_save: "db_wf t \<Longrightarrow> db_wf (t\<lparr>t_jobs := upsert hr_job_id r (t_jobs t)\<rparr>)"
  using distinct_upsert [of hr_job_id "t_jobs t" r] by (simp add: db_wf_def key_image_upsert)

lemma db_wf_delete_job:
  assumes "db_wf t"
  shows "db_wf (delete_job j t)"
proof -
  have "hr_job_id ` set (t_jobs (delete_job j t)) = hr_job_id ` set (t_jobs t) - {j}"
    using key_image_filter [of hr_job_id j "t_jobs t"] by (simp add: delete_job_def)
  then show ?thesis
    using assms by (auto simp: db_wf_def distinct_map_filter) (auto simp: delete_job_def distinct_map_filter)
qed

lemma db_wf_delete_each: "db_wf t \<Longrightarrow> db_wf (snd (delete_each_job js n t))"
proof (induction js arbitrary: n t)
  case (Cons j js)
  then show ?case using db_wf_delete_job by simp
qed simp

lemma delete_each_run_filter:
  "snd (delete_each_run ids n rs) = filter (\<lambda>r. rr_run_id r \<notin> set ids) rs"
proof (induction ids arbitrary: n rs)
  case (Cons i ids)
  then show ?case by (simp add: conj_commute)
qed simp

lemma journal_key_set_state [simp]: "map journal_key (set_state_of j st rows) = map journal_key rows"
  by (simp add: set_state_of_def journal_key_def)

lemma job_id_set_state [simp]: "map je_job_id (set_state_of j st rows) = map je_job_id rows"
  by (simp add: set_state_of_def)

lemma ball_job_id: "(\<forall>e \<in> set rows. je_job_id e \<in> S) \<longleftrightarrow> set (map je_job_id rows) \<subseteq> S"
  by auto

lemma repo_keeps [history_keeps]:
  "keeps (\<lambda>db. db_wf (db_tables db)) (repo_save r)"
  "keeps (\<lambda>db. db_wf (db_tables db)) (repo_delete j)"
  "keeps (\<lambda>db. db_wf (db_tables db)) (repo_add_journal e)"
  "keeps (\<lambda>db. db_wf (db_tables db)) (repo_set_journal_state j st)"
  "keeps (\<lambda>db. db_wf (db_tables db)) (repo_save_run run)"
  "keeps (\<lambda>db. db_wf (db_tables db)) (repo_delete_jobs js)"
  "keeps (\<lambda>db. db_wf (db_tables db)) (repo_delete_runs ids)"
proof -
  show "keeps (\<lambda>db. db_wf (db_tables db)) (repo_save r)"
    unfolding repo_save_def by (rule keeps_transaction) (auto simp: db_wf_save)
  show "keeps (\<lambda>db. db_wf (db_tables db)) (repo_delete j)"
    unfolding repo_delete_def by (rule keeps_transaction) (auto simp: db_wf_delete_job)
  show "keeps (\<lambda>db. db_wf (db_tables db)) (repo_add_journal e)"
    unfolding repo_add_journal_def
    by (rule keeps_transaction)
      (auto simp: db_wf_def distinct_insert_or_replace set_insert_or_replace simp del: image_iff split: if_splits)
  show "keeps (\<lambda>db. db_wf (db_tables db)) (repo_set_journal_state j st)"
    unfolding repo_set_journal_state_def by (rule keeps_transaction) (auto simp: db_wf_def ball_job_id simp del: set_map)
  show "keeps (\<lambda>db. db_wf (db_tables db)) (repo_save_run run)"
    unfolding repo_save_run_def
    by (rule keeps_transaction) (auto simp: db_wf_def distinct_upsert split: if_splits)
  show "keeps (\<lambda>db. db_wf (db_tables db)) (repo_delete_jobs js)"
    unfolding repo_delete_jobs_def
    by (intro keeps_if keeps_ret keeps_transaction) (metis Inr_inject db_wf_delete_each snd_conv)
  show "keeps (\<lambda>db. db_wf (db_tables db)) (repo_delete_runs ids)"
    unfolding repo_delete_runs_def
  proof (intro keeps_if keeps_ret keeps_transaction)
    fix t x t'
    assume "db_wf t"
      and "(let (n, rs) = delete_each_run ids 0 (t_runs t) in Inr (n, t\<lparr>t_runs := rs\<rparr>)) = Inr (x, t')"
    then show "db_wf t'"
      by (auto simp: db_wf_def distinct_map_filter delete_each_run_filter split_beta Let_def)
  qed
qed

section \<open>Reachable states\<close>

text \<open>One call of the service, whether it returns or raises.\<close>

inductive h_step :: "history \<Rightarrow> history \<Rightarrow> bool" where
  save: "h_save r h = (x, h') \<Longrightarrow> h_step h h'"
| get: "h_get j h = (y, h') \<Longrightarrow> h_step h h'"
| page: "h_page l off st h = (pg, h') \<Longrightarrow> h_step h h'"
| append: "h_append_journal e h = (u, h') \<Longrightarrow> h_step h h'"
| journal: "h_journal j h = (es, h') \<Longrightarrow> h_step h h'"
| set_state: "h_set_journal_state j js h = (u, h') \<Longrightarrow> h_step h h'"
| save_run: "h_save_run run h = (z, h') \<Longrightarrow> h_step h h'"
| cleanup: "h_cleanup_retention sub now days maxr h = (c, h') \<Longrightarrow> h_step h h'"

text \<open>An empty service, with a repository that will fail as \<open>faults\<close> says, or with none.\<close>

definition fresh_history :: "bool list option \<Rightarrow> history" where
  "fresh_history faults = \<lparr>hs_repository = map_option (\<lambda>fs.
       \<lparr>db_tables = \<lparr>t_jobs = [], t_journal = [], t_runs = []\<rparr>, db_faults = fs\<rparr>) faults,
     hs_records = [], hs_journal = (\<lambda>j. []), hs_runs = []\<rparr>"

lemma fresh_history_wf [simp]: "history_wf (fresh_history faults)"
  by (cases faults) (auto simp: fresh_history_def history_wf_def mirror_wf_def db_wf_def)

lemma keeps_with_repo:
  assumes "keeps (\<lambda>db. db_wf (db_tables db)) m" "keeps history_wf f"
  shows "keeps history_wf (with_repo m f)"
  unfolding keeps_def
proof (intro allI impI)
  fix h
  assume wf: "history_wf h"
  show "history_wf (snd (with_repo m f h))"
  proof (cases "hs_repository h")
    case None
    then show ?thesis using assms(2) wf by (simp add: with_repo_def keeps_def)
  next
    case (Some db)
    obtain r db' where run: "m db = (r, db')" by fastforce
    then have "db_wf (db_tables db')"
      using keepsD [OF assms(1) _ run] wf Some by (simp add: history_wf_def)
    with Some run wf show ?thesis
      by (simp add: with_repo_def history_wf_def mirror_wf_def)
  qed
qed

lemma keeps_mirror: "(\<And>h. history_wf h \<Longrightarrow> history_wf (snd (f h))) \<Longrightarrow> keeps history_wf (mirror f)"
  by (simp add: keeps_def mirror_def split: prod.split) (metis snd_conv)

lemma distinct_pop_expired:
  "distinct (map rr_run_id store) \<Longrightarrow> distinct (map rr_run_id (pop_expired_runs T c K rs store))"
  by (induction T c K rs store rule: pop_expired_runs.induct) (simp_all add: distinct_map_filter)

lemma distinct_pop_terminal:
  "distinct (map rr_run_id store) \<Longrightarrow> distinct (map rr_run_id (pop_terminal_runs T rs store))"
  by (induction T rs store rule: pop_terminal_runs.induct) (simp_all add: distinct_map_filter)

lemma mirror_wf_cleanup: "mirror_wf h \<Longrightarrow> mirror_wf (cleanup_memory c JT RT m h)"
  by (simp add: mirror_wf_def cleanup_memory_def Let_def distinct_map_filter distinct_pop_expired
      distinct_pop_terminal)

lemma repo_read_keeps [history_keeps]:
  "keeps (\<lambda>db. db_wf (db_tables db)) (repo_get j)"
  "keeps (\<lambda>db. db_wf (db_tables db)) (repo_page l off st)"
  "keeps (\<lambda>db. db_wf (db_tables db)) (repo_journal j)"
  "keeps (\<lambda>db. db_wf (db_tables db)) (repo_terminal_job_rows ss c)"
  "keeps (\<lambda>db. db_wf (db_tables db)) (repo_terminal_run_rows ss c)"
  "keeps (\<lambda>db. db_wf (db_tables db)) repo_all_runs_sorted"
  "keeps (\<lambda>db. db_wf (db_tables db)) repo_run_count"
  "keeps (\<lambda>db. db_wf (db_tables db)) (repo_oldest_terminal_runs ss n)"
  by (auto simp: repo_get_def repo_page_def repo_journal_def repo_terminal_job_rows_def
      repo_terminal_run_rows_def repo_all_runs_sorted_def repo_run_count_def
      repo_oldest_terminal_runs_def intro!: keeps_fetch [where P = db_wf])

lemma repo_cleanup_keeps [history_keeps]: "keeps (\<lambda>db. db_wf (db_tables db)) (repo_cleanup b d m)"
  unfolding repo_cleanup_def Let_def
  by (intro keeps_seq keeps_if keeps_ret history_keeps)

lemma service_keeps [history_keeps]:
  "keeps history_wf (h_save r)"
  "keeps history_wf (h_get j)"
  "keeps history_wf (h_page l off st)"
  "keeps history_wf (h_append_journal e)"
  "keeps history_wf (h_journal j)"
  "keeps history_wf (h_set_journal_state j js)"
  "keeps history_wf (h_save_run run)"
  "keeps history_wf (h_cleanup_retention sub now days maxr)"
proof -
  show "keeps history_wf (h_save r)"
    unfolding h_save_def
    by (intro keeps_seq keeps_with_repo keeps_ret history_keeps keeps_mirror)
      (simp add: history_wf_def mirror_wf_def distinct_upsert)
  show "keeps history_wf (h_get j)"
    unfolding h_get_def by (intro keeps_with_repo history_keeps keeps_mirror) simp
  show "keeps history_wf (h_page l off st)"
    unfolding h_page_def Let_def
    by (intro keeps_seq keeps_with_repo history_keeps keeps_mirror) (auto split: prod.split)
  show "keeps history_wf (h_append_journal e)"
    unfolding h_append_journal_def
    by (intro keeps_with_repo history_keeps keeps_mirror) (auto simp: history_wf_def mirror_wf_def)
  show "keeps history_wf (h_journal j)"
    unfolding h_journal_def by (intro keeps_with_repo history_keeps keeps_mirror) simp
  show "keeps history_wf (h_set_journal_state j js)"
    unfolding h_set_journal_state_def
    by (intro keeps_with_repo history_keeps keeps_mirror)
      (auto simp: history_wf_def mirror_wf_def comp_def)
  show "keeps history_wf (h_save_run run)"
    unfolding h_save_run_def
    by (intro keeps_seq keeps_with_repo keeps_ret history_keeps keeps_mirror)
      (simp add: history_wf_def mirror_wf_def distinct_upsert)
  show "keeps history_wf (h_cleanup_retention sub now days maxr)"
    unfolding h_cleanup_retention_def Let_def
    by (intro keeps_with_repo history_keeps keeps_mirror)
      (auto simp: history_wf_def mirror_wf_cleanup, simp add: cleanup_memory_def Let_def)
qed

lemma h_step_wf: "h_step h h' \<Longrightarrow> history_wf h \<Longrightarrow> history_wf h'"
  by (induction rule: h_step.induct) (rule keepsD, rule history_keeps, assumption, assumption)+

lemma reachable_wf: "h_step\<^sup>*\<^sup>* (fresh_history faults) h \<Longrightarrow> history_wf h"
  by (induction rule: rtranclp_induct) (simp_all add: h_step_wf)

end
