(* ===== verification/Recovery.thy ===== *)
theory Recovery imports VaultContract HistoryService begin

text \<open>
  \<^verbatim>\<open>server/recovery/\<close>: the transaction journal, the executor that runs a list of operations
  and rolls back on failure, undo of a committed job, diagnosis and explicit recovery of an
  interrupted one, and the startup scanner. All of it acts on a \<open>rstate\<close>: the vault (any state the
  vault's methods act on), the history service if one is attached, and the journal object of the
  execution in progress.
\<close>

section \<open>Data\<close>

record transaction_operation =
  op_operation :: journal_operation
  op_path :: pystr
  op_before_exists :: bool
  op_before_bytes :: "bytes option"
  op_before_hash :: "pystr option"
  op_after_bytes :: "bytes option"
  op_after_hash :: "pystr option"
  op_target_path :: "pystr option"
  op_source :: "pystr option"

text \<open>Exceptions: the vault's, the history's, and those the recovery code raises itself.\<close>

datatype exc = VaultExc vault_error | HistoryExc history_error | HistoryLimitExceeded
  | ValueErr | RuntimeErr | ConflictExc pystr

text \<open>The error line of a result, with the exception it quotes.\<close>

datatype recovery_error = ConflictBeforeWrite exc | RollbackFailedOn pystr exc | TransactionFailed exc
  | NoJournal | AlreadyUndone | ChangedExternally | HistoryMissing | JobMissing | NotUncertain
  | NothingToRestore | RecoveryComplete

record recovery_result =
  rec_job_id :: pystr
  rec_status :: job_status
  rec_restored :: "pystr list"
  rec_conflict_paths :: "pystr list"
  rec_error :: "recovery_error option"

definition result_of :: "pystr \<Rightarrow> job_status \<Rightarrow> recovery_result" where
  "result_of job_id status = \<lparr>rec_job_id = job_id, rec_status = status, rec_restored = [],
     rec_conflict_paths = [], rec_error = None\<rparr>"

definition inverse_kind :: "transaction_operation \<Rightarrow> pystr" where
  "inverse_kind op =
     (case op_operation op of
        OpCreate \<Rightarrow> lit ''delete_after''
      | OpMove \<Rightarrow> lit ''move_back''
      | _ \<Rightarrow> lit ''write_before'')"

section \<open>The journal\<close>

definition encode :: "bytes option \<Rightarrow> pystr option" where
  "encode data = map_option b64_encode data"

text \<open>The column only ever holds what \<open>encode\<close> wrote; anything else is an error here.\<close>

definition decode :: "pystr option \<Rightarrow> exc + bytes" where
  "decode value =
     (if some_nonempty value
      then (case b64_decode (the value) of Some d \<Rightarrow> Inr d | None \<Rightarrow> Inl ValueErr)
      else Inr [])"

definition MAX_JOURNAL_BYTES :: nat where "MAX_JOURNAL_BYTES = 10000000"
definition MAX_JOURNAL_BASE64 :: nat where "MAX_JOURNAL_BASE64 = 14000000"

text \<open>The field constraints of \<^verbatim>\<open>JournalEntry\<close>.\<close>

definition validate_entry :: "journal_entry \<Rightarrow> exc + journal_entry" where
  "validate_entry e =
     (if 1 \<le> length (je_job_id e) \<and> length (je_job_id e) \<le> 128 \<and> length (je_path e) \<le> 4096 \<and>
         (case je_before_base64 e of None \<Rightarrow> True | Some v \<Rightarrow> length v \<le> MAX_JOURNAL_BASE64)
      then Inr e else Inl ValueErr)"

definition entry_of :: "pylib \<Rightarrow> pystr \<Rightarrow> nat \<Rightarrow> transaction_operation \<Rightarrow> journal_entry" where
  "entry_of L job_id n op =
     \<lparr>je_job_id = job_id,
      je_seq = n,
      je_operation = op_operation op,
      je_path = (if some_nonempty (op_target_path op) then the (op_target_path op) else op_path op),
      je_before_exists = op_before_exists op,
      je_before_base64 = encode (op_before_bytes op),
      je_before_hash = op_before_hash op,
      je_after_exists = True,
      je_after_hash = (if some_nonempty (op_after_hash op) then op_after_hash op
                       else map_option (sha256_bytes L) (op_after_bytes op)),
      je_inverse = \<lparr>inv_kind = Some (inverse_kind op),
        inv_source = (if op_operation op = OpMove
                      then Some (case op_source op of None \<Rightarrow> [] | Some s \<Rightarrow> s) else None)\<rparr>,
      je_state = JPending\<rparr>"

definition make_entry :: "pylib \<Rightarrow> pystr \<Rightarrow> nat \<Rightarrow> transaction_operation \<Rightarrow> exc + journal_entry" where
  "make_entry L job_id n op = validate_entry (entry_of L job_id n op)"

record rjournal =
  rj_job_id :: pystr
  rj_max_bytes :: nat
  rj_pending :: "journal_entry list"
  rj_bytes :: nat

record 'w rstate =
  rs_vault :: 'w
  rs_history :: "history option"
  rs_journal :: rjournal

type_synonym ('w, 'a) rec_act = "('w rstate, exc, 'a) act"

definition on_vault :: "('w, vault_error, 'a) act \<Rightarrow> ('w, 'a) rec_act" where
  "on_vault m = (\<lambda>s. case m (rs_vault s) of
       (Inl e, w) \<Rightarrow> (Inl (VaultExc e), s\<lparr>rs_vault := w\<rparr>)
     | (Inr x, w) \<Rightarrow> (Inr x, s\<lparr>rs_vault := w\<rparr>))"

text \<open>\<open>on_history m d\<close>: call the history service; without one the answer is \<open>d\<close>.\<close>

definition on_history :: "'a hist_act \<Rightarrow> 'a \<Rightarrow> ('w, 'a) rec_act" where
  "on_history m d = (\<lambda>s. case rs_history s of
       None \<Rightarrow> (Inr d, s)
     | Some h \<Rightarrow> (case m h of
         (Inl e, h') \<Rightarrow> (Inl (HistoryExc e), s\<lparr>rs_history := Some h'\<rparr>)
       | (Inr x, h') \<Rightarrow> (Inr x, s\<lparr>rs_history := Some h'\<rparr>)))"

definition modify :: "('s \<Rightarrow> 's) \<Rightarrow> ('s, 'e, unit) act" where
  "modify f = (\<lambda>s. (Inr (), f s))"

definition reading :: "('s \<Rightarrow> 'a) \<Rightarrow> ('s, 'e, 'a) act" where
  "reading f = (\<lambda>s. (Inr (f s), s))"

definition add_bytes :: "nat \<Rightarrow> 'w rstate \<Rightarrow> 'w rstate" where
  "add_bytes n s = s\<lparr>rs_journal := (rs_journal s)\<lparr>rj_bytes := rj_bytes (rs_journal s) + n\<rparr>\<rparr>"

definition add_pending :: "journal_entry \<Rightarrow> 'w rstate \<Rightarrow> 'w rstate" where
  "add_pending e s = s\<lparr>rs_journal := (rs_journal s)\<lparr>rj_pending := rj_pending (rs_journal s) @ [e]\<rparr>\<rparr>"

definition record_entry :: "journal_entry \<Rightarrow> ('w, journal_entry) rec_act" where
  "record_entry entry =
     seq (reading (\<lambda>s. rj_job_id (rs_journal s))) (\<lambda>job_id.
     if job_id \<noteq> [] \<and> je_job_id entry \<noteq> job_id then raise ValueErr
     else
       seq (modify (add_bytes (case je_before_base64 entry of None \<Rightarrow> 0 | Some v \<Rightarrow> length v))) (\<lambda>_.
       seq (reading (\<lambda>s. rj_max_bytes (rs_journal s) < rj_bytes (rs_journal s))) (\<lambda>over.
       if over then raise HistoryLimitExceeded
       else
         seq (on_history (h_append_journal entry) ()) (\<lambda>_.
         seq (modify (add_pending entry)) (\<lambda>_.
         ret entry)))))"

definition record_operation :: "pylib \<Rightarrow> nat \<Rightarrow> transaction_operation \<Rightarrow> ('w, journal_entry) rec_act" where
  "record_operation L n op =
     seq (reading (\<lambda>s. rj_job_id (rs_journal s))) (\<lambda>job_id.
     seq (lift (make_entry L job_id n op)) record_entry)"

definition mark :: "journal_state \<Rightarrow> ('w, unit) rec_act" where
  "mark state =
     seq (reading (\<lambda>s. rj_job_id (rs_journal s))) (\<lambda>job_id.
     if job_id = [] then ret () else on_history (h_set_journal_state job_id state) ())"

section \<open>The executor\<close>

definition apply_operation :: "'w vault_ops \<Rightarrow> transaction_operation \<Rightarrow> ('w, file_response) rec_act" where
  "apply_operation V op =
     (case op_operation op of
        OpCreate \<Rightarrow>
          (case op_after_bytes op of
             None \<Rightarrow> raise ValueErr
           | Some data \<Rightarrow> on_vault (vop_create V (op_path op) data))
      | OpUpdate \<Rightarrow>
          (case op_after_bytes op of
             None \<Rightarrow> raise ValueErr
           | Some data \<Rightarrow> on_vault (vop_write V (op_path op) data (op_before_hash op)))
      | OpMove \<Rightarrow>
          (if some_nonempty (op_source op)
           then on_vault (vop_move V (the (op_source op)) (op_path op) (op_before_hash op))
           else raise ValueErr)
      | OpUndo \<Rightarrow> raise ValueErr)"

definition after_hash_of :: "pylib \<Rightarrow> transaction_operation \<Rightarrow> file_response \<Rightarrow> exc + pystr" where
  "after_hash_of L op result =
     (if some_nonempty (resp_sha256 result) then Inr (the (resp_sha256 result))
      else (case op_after_bytes op of
              Some data \<Rightarrow> Inr (sha256_bytes L data)
            | None \<Rightarrow> Inl RuntimeErr))"

text \<open>
  \<^verbatim>\<open>_assert_absent\<close>; \<open>still\<close> is what is raised when the file is there: a \<^verbatim>\<open>RuntimeError\<close> in
  the executor and the recovery service, a conflict in undo.
\<close>

definition assert_absent :: "'w vault_ops \<Rightarrow> exc \<Rightarrow> pystr \<Rightarrow> ('w, unit) rec_act" where
  "assert_absent V still path =
     try_else (on_vault (vop_read V path))
       (\<lambda>e. case e of
              VaultExc v \<Rightarrow> if code_not_found v then ret () else raise e
            | _ \<Rightarrow> raise e)
       (\<lambda>_. raise still)"

definition undo_one :: "'w vault_ops \<Rightarrow> transaction_operation \<Rightarrow> pystr \<Rightarrow> ('w, unit) rec_act" where
  "undo_one V op after_hash =
     (case op_operation op of
        OpCreate \<Rightarrow>
          seq (on_vault (vop_delete V (op_path op) (Some after_hash))) (\<lambda>_.
          assert_absent V RuntimeErr (op_path op))
      | OpUpdate \<Rightarrow>
          (case op_before_bytes op of
             None \<Rightarrow> raise ValueErr
           | Some before \<Rightarrow>
               seq (on_vault (vop_write V (op_path op) before (Some after_hash))) (\<lambda>result.
               if resp_sha256 result \<noteq> op_before_hash op then raise RuntimeErr else ret ()))
      | OpMove \<Rightarrow>
          (if some_nonempty (op_source op)
           then
             seq (on_vault (vop_move V (op_path op) (the (op_source op)) (Some after_hash))) (\<lambda>result.
             if some_nonempty (op_before_hash op) \<and> resp_sha256 result \<noteq> op_before_hash op
             then raise RuntimeErr else ret ())
           else raise ValueErr)
      | OpUndo \<Rightarrow> raise ValueErr)"

text \<open>The loop of \<^verbatim>\<open>execute\<close>: the operations done with their hashes, and what stopped it.\<close>

fun run_operations ::
  "pylib \<Rightarrow> 'w vault_ops \<Rightarrow> transaction_operation list \<Rightarrow> nat \<Rightarrow> (transaction_operation \<times> pystr) list \<Rightarrow>
   ('w, (transaction_operation \<times> pystr) list \<times> exc option) rec_act" where
  "run_operations L V [] n executed = ret (executed, None)"
| "run_operations L V (op # ops) n executed =
     try_else
       (seq (record_operation L n op) (\<lambda>_.
        seq (apply_operation V op) (\<lambda>result.
        lift (after_hash_of L op result))))
       (\<lambda>e. ret (executed, Some e))
       (\<lambda>h. run_operations L V ops (Suc n) (executed @ [(op, h)]))"

fun rollback_loop ::
  "'w vault_ops \<Rightarrow> (transaction_operation \<times> pystr) list \<Rightarrow> pystr list \<Rightarrow>
   ('w, pystr list \<times> (transaction_operation \<times> exc) option) rec_act" where
  "rollback_loop V [] restored = ret (restored, None)"
| "rollback_loop V ((op, h) # rest) restored =
     try_else (undo_one V op h)
       (\<lambda>e. ret (restored, Some (op, e)))
       (\<lambda>_. let restored1 = restored @ [op_path op] in
         rollback_loop V rest
           (if op_operation op = OpMove \<and> some_nonempty (op_source op) \<and> the (op_source op) \<notin> set restored1
            then restored1 @ [the (op_source op)] else restored1))"

definition rollback ::
  "'w vault_ops \<Rightarrow> pystr \<Rightarrow> (transaction_operation \<times> pystr) list \<Rightarrow> exc \<Rightarrow> ('w, recovery_result) rec_act" where
  "rollback V job_id executed cause =
     seq (rollback_loop V (rev executed) []) (\<lambda>(restored, failure).
     seq (mark JRolledBack) (\<lambda>_.
     case failure of
       Some (op, e) \<Rightarrow>
         ret \<lparr>rec_job_id = job_id, rec_status = ROLLBACK_FAILED, rec_restored = restored,
              rec_conflict_paths = [op_path op], rec_error = Some (RollbackFailedOn (op_path op) e)\<rparr>
     | None \<Rightarrow>
         ret \<lparr>rec_job_id = job_id, rec_status = ROLLED_BACK, rec_restored = restored,
              rec_conflict_paths = [], rec_error = Some (TransactionFailed cause)\<rparr>))"

definition start_journal :: "pystr \<Rightarrow> nat \<Rightarrow> 'w rstate \<Rightarrow> 'w rstate" where
  "start_journal job_id max_bytes s =
     s\<lparr>rs_journal := \<lparr>rj_job_id = job_id, rj_max_bytes = max_bytes, rj_pending = [], rj_bytes = 0\<rparr>\<rparr>"

definition execute ::
  "pylib \<Rightarrow> 'w vault_ops \<Rightarrow> nat \<Rightarrow> pystr \<Rightarrow> transaction_operation list \<Rightarrow> ('w, recovery_result) rec_act" where
  "execute L V max_journal_bytes job_id operations =
     seq (modify (start_journal job_id max_journal_bytes)) (\<lambda>_.
     seq (run_operations L V operations 0 []) (\<lambda>(executed, failure).
     case failure of
       Some e \<Rightarrow>
         if executed = []
         then seq (mark JPending) (\<lambda>_.
              ret ((result_of job_id CONFLICT)\<lparr>rec_error := Some (ConflictBeforeWrite e)\<rparr>))
         else rollback V job_id executed e
     | None \<Rightarrow>
         seq (mark JApplied) (\<lambda>_. ret (result_of job_id COMMITTED))))"

section \<open>Undo of a committed job\<close>

definition require_current :: "'w vault_ops \<Rightarrow> pystr \<Rightarrow> pystr option \<Rightarrow> ('w, unit) rec_act" where
  "require_current V path expected =
     try_else (on_vault (vop_read V path))
       (\<lambda>e. raise (ConflictExc path))
       (\<lambda>(data, current). if Some current \<noteq> expected then raise (ConflictExc path) else ret ())"

definition audit_entry :: "pystr \<Rightarrow> nat \<Rightarrow> pystr \<Rightarrow> pystr option \<Rightarrow> journal_entry" where
  "audit_entry job_id n path restored_hash =
     \<lparr>je_job_id = job_id, je_seq = n, je_operation = OpUndo, je_path = path, je_before_exists = False,
      je_before_base64 = None, je_before_hash = restored_hash, je_after_exists = False,
      je_after_hash = None, je_inverse = \<lparr>inv_kind = None, inv_source = None\<rparr>, je_state = JApplied\<rparr>"

definition append_audit :: "pystr \<Rightarrow> nat \<Rightarrow> pystr \<Rightarrow> pystr option \<Rightarrow> ('w, unit) rec_act" where
  "append_audit job_id n path restored_hash =
     seq (reading (\<lambda>s. rs_history s = None)) (\<lambda>none.
     if none then ret ()
     else
       seq (lift (validate_entry (audit_entry job_id n path restored_hash))) (\<lambda>entry.
       on_history (h_append_journal entry) ()))"

definition restore_one :: "'w vault_ops \<Rightarrow> pystr \<Rightarrow> nat \<Rightarrow> journal_entry \<Rightarrow> ('w, unit) rec_act" where
  "restore_one V job_id n entry =
     (case je_operation entry of
        OpMove \<Rightarrow>
          (if some_nonempty (inv_source (je_inverse entry))
           then
             let source = the (inv_source (je_inverse entry)) in
             seq (require_current V (je_path entry) (je_after_hash entry)) (\<lambda>_.
             seq (on_vault (vop_move V (je_path entry) source (je_after_hash entry))) (\<lambda>result.
             if some_nonempty (je_before_hash entry) \<and> resp_sha256 result \<noteq> je_before_hash entry
             then raise (ConflictExc (je_path entry))
             else append_audit job_id n source (je_before_hash entry)))
           else raise (ConflictExc (je_path entry)))
      | OpCreate \<Rightarrow>
          seq (require_current V (je_path entry) (je_after_hash entry)) (\<lambda>_.
          seq (on_vault (vop_delete V (je_path entry) (je_after_hash entry))) (\<lambda>_.
          seq (assert_absent V (ConflictExc (je_path entry)) (je_path entry)) (\<lambda>_.
          append_audit job_id n (je_path entry) None)))
      | _ \<Rightarrow>
          seq (require_current V (je_path entry) (je_after_hash entry)) (\<lambda>_.
          seq (lift (decode (je_before_base64 entry))) (\<lambda>before.
          seq (on_vault (vop_write V (je_path entry) before (je_after_hash entry))) (\<lambda>result.
          if resp_sha256 result \<noteq> je_before_hash entry then raise (ConflictExc (je_path entry))
          else append_audit job_id n (je_path entry) (je_before_hash entry)))))"

definition executable_entry :: "journal_entry \<Rightarrow> bool" where
  "executable_entry e \<longleftrightarrow> je_operation e \<in> {OpCreate, OpUpdate, OpMove}"

definition next_seq :: "journal_entry list \<Rightarrow> nat" where
  "next_seq entries = (if entries = [] then 0 else Suc (foldr max (map je_seq entries) 0))"

fun undo_loop ::
  "'w vault_ops \<Rightarrow> pystr \<Rightarrow> journal_entry list \<Rightarrow> pystr list \<Rightarrow> nat \<Rightarrow>
   ('w, pystr list \<times> pystr option) rec_act" where
  "undo_loop V job_id [] restored n = ret (restored, None)"
| "undo_loop V job_id (e # es) restored n =
     try_else (restore_one V job_id n e)
       (\<lambda>x. case x of ConflictExc path \<Rightarrow> ret (restored, Some path) | _ \<Rightarrow> raise x)
       (\<lambda>_. undo_loop V job_id es (restored @ [je_path e]) (Suc n))"

definition undo :: "'w vault_ops \<Rightarrow> pystr \<Rightarrow> ('w, recovery_result) rec_act" where
  "undo V job_id =
     seq (on_history (h_journal job_id) []) (\<lambda>entries.
     if entries = [] then ret ((result_of job_id UNDO_UNAVAILABLE)\<lparr>rec_error := Some NoJournal\<rparr>)
     else if list_ex (\<lambda>e. je_operation e = OpUndo) entries
     then ret ((result_of job_id UNDO_UNAVAILABLE)\<lparr>rec_error := Some AlreadyUndone\<rparr>)
     else
       seq (undo_loop V job_id (rev (filter executable_entry entries)) [] (next_seq entries))
         (\<lambda>(restored, conflict).
       case conflict of
         Some path \<Rightarrow>
           ret \<lparr>rec_job_id = job_id, rec_status = CONFLICT, rec_restored = restored,
                rec_conflict_paths = [path], rec_error = Some ChangedExternally\<rparr>
       | None \<Rightarrow> ret ((result_of job_id UNDONE)\<lparr>rec_restored := restored\<rparr>)))"

section \<open>Diagnosis and explicit recovery\<close>

definition current_hash :: "'w vault_ops \<Rightarrow> pystr \<Rightarrow> ('w, pystr option) rec_act" where
  "current_hash V path =
     try_else (on_vault (vop_read V path))
       (\<lambda>e. case e of
              VaultExc v \<Rightarrow> if code_not_found v then ret None else raise e
            | _ \<Rightarrow> raise e)
       (\<lambda>(data, digest). ret (Some digest))"

record journal_diagnosis =
  jd_seq :: nat
  jd_operation :: journal_operation
  jd_path :: pystr
  jd_state :: journal_state
  jd_before_hash :: "pystr option"
  jd_after_hash :: "pystr option"
  jd_current_matches_after :: bool

record job_diagnosis =
  dg_job_id :: pystr
  dg_status :: pystr
  dg_task_type :: pystr
  dg_steps :: "journal_diagnosis list"
  dg_uncertain :: bool

fun diagnose_steps :: "'w vault_ops \<Rightarrow> journal_entry list \<Rightarrow> ('w, journal_diagnosis list) rec_act" where
  "diagnose_steps V [] = ret []"
| "diagnose_steps V (e # es) =
     seq (current_hash V (je_path e)) (\<lambda>current.
     seq (diagnose_steps V es) (\<lambda>rest.
     ret (\<lparr>jd_seq = je_seq e, jd_operation = je_operation e, jd_path = je_path e, jd_state = je_state e,
           jd_before_hash = je_before_hash e, jd_after_hash = je_after_hash e,
           jd_current_matches_after = (je_after_hash e \<noteq> None \<and> current = je_after_hash e)\<rparr> # rest)))"

definition diagnose :: "'w vault_ops \<Rightarrow> pystr \<Rightarrow> ('w, job_diagnosis) rec_act" where
  "diagnose V job_id =
     seq (on_history (h_get job_id) None) (\<lambda>record.
     seq (on_history (h_journal job_id) []) (\<lambda>entries.
     seq (diagnose_steps V entries) (\<lambda>steps.
     ret \<lparr>dg_job_id = job_id,
          dg_status = (case record of None \<Rightarrow> lit ''missing'' | Some r \<Rightarrow> hr_status r),
          dg_task_type = (case record of None \<Rightarrow> [] | Some r \<Rightarrow> hr_task_type r),
          dg_steps = steps,
          dg_uncertain = list_ex (\<lambda>d. jd_state d \<in> {JPending, JApplied} \<and>
            jd_operation d \<in> {OpCreate, OpUpdate, OpMove}) steps\<rparr>)))"

definition finish_recovery_record ::
  "pystr \<Rightarrow> job_status \<Rightarrow> pystr \<Rightarrow> pystr \<Rightarrow> ('w, unit) rec_act" where
  "finish_recovery_record job_id status code message =
     seq (on_history (h_get job_id) None) (\<lambda>record.
     case record of
       None \<Rightarrow> ret ()
     | Some r \<Rightarrow>
         seq (on_history (h_save (r\<lparr>hr_status := status_value status, hr_error := Some (code, message)\<rparr>)) r)
           (\<lambda>_. ret ()))"

definition restore_entry :: "'w vault_ops \<Rightarrow> journal_entry \<Rightarrow> pystr \<Rightarrow> ('w, unit) rec_act" where
  "restore_entry V entry after_hash =
     (case je_operation entry of
        OpUpdate \<Rightarrow>
          seq (lift (decode (je_before_base64 entry))) (\<lambda>before.
          seq (on_vault (vop_write V (je_path entry) before (Some after_hash))) (\<lambda>result.
          if some_nonempty (je_before_hash entry) \<and> resp_sha256 result \<noteq> je_before_hash entry
          then raise RuntimeErr else ret ()))
      | OpCreate \<Rightarrow>
          seq (on_vault (vop_delete V (je_path entry) (Some after_hash))) (\<lambda>_.
          assert_absent V RuntimeErr (je_path entry))
      | OpMove \<Rightarrow>
          (if some_nonempty (inv_source (je_inverse entry))
           then
             seq (on_vault (vop_move V (je_path entry) (the (inv_source (je_inverse entry))) (Some after_hash)))
               (\<lambda>result.
             if some_nonempty (je_before_hash entry) \<and> resp_sha256 result \<noteq> je_before_hash entry
             then raise RuntimeErr else ret ())
           else raise RuntimeErr)
      | OpUndo \<Rightarrow> raise RuntimeErr)"

text \<open>Pass 1: which steps were applied by us, and which paths somebody else changed.\<close>

fun classify ::
  "'w vault_ops \<Rightarrow> journal_entry list \<Rightarrow> (journal_entry \<times> pystr) list \<Rightarrow> pystr list \<Rightarrow>
   ('w, (journal_entry \<times> pystr) list \<times> pystr list) rec_act" where
  "classify V [] applied conflicts = ret (applied, conflicts)"
| "classify V (e # es) applied conflicts =
     try_else (current_hash V (je_path e))
       (\<lambda>x. classify V es applied (conflicts @ [je_path e]))
       (\<lambda>current.
         if je_after_hash e \<noteq> None \<and> current = je_after_hash e
         then classify V es (applied @ [(e, the (je_after_hash e))]) conflicts
         else if current = None \<or> current = je_before_hash e then classify V es applied conflicts
         else classify V es applied (conflicts @ [je_path e]))"

text \<open>Pass 2: restore in reverse order; the audit row is written outside the handler.\<close>

fun restore_loop ::
  "'w vault_ops \<Rightarrow> pystr \<Rightarrow> (journal_entry \<times> pystr) list \<Rightarrow> pystr list \<Rightarrow> nat \<Rightarrow>
   ('w, pystr list \<times> (journal_entry \<times> exc) option) rec_act" where
  "restore_loop V job_id [] restored n = ret (restored, None)"
| "restore_loop V job_id ((e, h) # es) restored n =
     try_else (restore_entry V e h)
       (\<lambda>x. ret (restored, Some (e, x)))
       (\<lambda>_. let restored1 = restored @ [je_path e];
                source = inv_source (je_inverse e);
                restored2 = (if je_operation e = OpMove \<and> some_nonempty source \<and> the source \<notin> set restored1
                             then restored1 @ [the source] else restored1) in
         seq (append_audit job_id n (je_path e) (je_before_hash e)) (\<lambda>_.
         restore_loop V job_id es restored2 (Suc n)))"

definition flagged_states :: "job_status list" where
  "flagged_states = [RECOVERY_REQUIRED, EXECUTING, VALIDATING, CAPTURED, PREFLIGHTED, PLANNED]"

definition rollback_entries ::
  "'w vault_ops \<Rightarrow> pystr \<Rightarrow> journal_entry list \<Rightarrow> ('w, recovery_result) rec_act" where
  "rollback_entries V job_id entries =
     (let executable = filter (\<lambda>e. executable_entry e \<and> je_state e \<in> {JPending, JApplied}) entries in
      if executable = []
      then
        seq (finish_recovery_record job_id FAILED (lit ''recovery_nothing_applied'')
               (lit ''no journaled steps were applied'')) (\<lambda>_.
        ret ((result_of job_id ROLLED_BACK)\<lparr>rec_error := Some NothingToRestore\<rparr>))
      else
        seq (classify V executable [] []) (\<lambda>(applied, conflict_paths).
        if conflict_paths \<noteq> []
        then ret ((result_of job_id CONFLICT)\<lparr>rec_conflict_paths := conflict_paths,
               rec_error := Some ChangedExternally\<rparr>)
        else
          seq (restore_loop V job_id (rev applied) [] (next_seq entries)) (\<lambda>(restored, failure).
          seq (on_history (h_set_journal_state job_id JRolledBack) ()) (\<lambda>_.
          case failure of
            Some (e, x) \<Rightarrow>
              ret \<lparr>rec_job_id = job_id, rec_status = ROLLBACK_FAILED, rec_restored = restored,
                   rec_conflict_paths = [je_path e], rec_error = Some (RollbackFailedOn (je_path e) x)\<rparr>
          | None \<Rightarrow>
              seq (finish_recovery_record job_id ROLLED_BACK (lit ''recovery_rolled_back'')
                     (lit ''explicit recovery rollback complete'')) (\<lambda>_.
              ret ((result_of job_id ROLLED_BACK)\<lparr>rec_restored := restored,
                     rec_error := Some RecoveryComplete\<rparr>))))))"

definition rollback_if_safe :: "'w vault_ops \<Rightarrow> pystr \<Rightarrow> ('w, recovery_result) rec_act" where
  "rollback_if_safe V job_id =
     seq (reading (\<lambda>s. rs_history s = None)) (\<lambda>none.
     if none then ret ((result_of job_id UNDO_UNAVAILABLE)\<lparr>rec_error := Some HistoryMissing\<rparr>)
     else
       seq (on_history (h_get job_id) None) (\<lambda>record.
       case record of
         None \<Rightarrow> ret ((result_of job_id UNDO_UNAVAILABLE)\<lparr>rec_error := Some JobMissing\<rparr>)
       | Some r \<Rightarrow>
           if hr_status r \<notin> set (map status_value flagged_states)
           then ret ((result_of job_id UNDO_UNAVAILABLE)\<lparr>rec_error := Some NotUncertain\<rparr>)
           else seq (on_history (h_journal job_id) []) (rollback_entries V job_id)))"

section \<open>The startup scanner\<close>

definition uncertain_run_statuses :: "pystr list" where
  "uncertain_run_statuses = [run_status_value RQueued, run_status_value RRunning]"

definition journal_uncertain :: "pystr \<Rightarrow> (history, history_error, bool) act" where
  "journal_uncertain job_id =
     try_else (h_journal job_id)
       (\<lambda>e. ret False)
       (\<lambda>entries. ret (list_ex (\<lambda>e. je_state e \<in> {JPending, JApplied}) entries))"

record flagged_job =
  fj_job_id :: pystr
  fj_status :: pystr
  fj_uncertain :: bool

record scan_result =
  sc_jobs :: "flagged_job list"
  sc_runs :: "run_row list"
  sc_total :: nat
  sc_scanned :: bool

fun scan_jobs :: "job_row list \<Rightarrow> (history, history_error, flagged_job list) act" where
  "scan_jobs [] = ret []"
| "scan_jobs ((job_id, status, end_time) # rows) =
     seq (journal_uncertain job_id) (\<lambda>uncertain.
     seq (scan_jobs rows) (\<lambda>rest.
     ret (\<lparr>fj_job_id = job_id, fj_status = status, fj_uncertain = uncertain\<rparr> # rest)))"

definition scan :: "(history, history_error, scan_result) act" where
  "scan =
     seq (reading available) (\<lambda>is_available.
     if \<not> is_available then ret \<lparr>sc_jobs = [], sc_runs = [], sc_total = 0, sc_scanned = False\<rparr>
     else
       seq h_unfinished_job_rows (\<lambda>rows.
       seq (scan_jobs rows) (\<lambda>jobs.
       seq (h_runs_with_status uncertain_run_statuses) (\<lambda>runs.
       ret \<lparr>sc_jobs = jobs, sc_runs = runs, sc_total = length jobs + length runs, sc_scanned = True\<rparr>))))"

fun mark_jobs :: "job_row list \<Rightarrow> nat \<Rightarrow> (history, history_error, nat) act" where
  "mark_jobs [] marked = ret marked"
| "mark_jobs ((job_id, status, end_time) # rows) marked =
     seq (h_get job_id) (\<lambda>record.
     case record of
       None \<Rightarrow> mark_jobs rows marked
     | Some r \<Rightarrow>
         seq (h_save (r\<lparr>hr_status := status_value RECOVERY_REQUIRED,
                hr_error := Some (lit ''process_interrupted'',
                  lit ''process interrupted; explicit recovery required'')\<rparr>)) (\<lambda>_.
         mark_jobs rows (Suc marked)))"

fun mark_runs :: "pystr \<Rightarrow> run_row list \<Rightarrow> nat \<Rightarrow> (history, history_error, nat) act" where
  "mark_runs now [] marked = ret marked"
| "mark_runs now (r # rs) marked =
     seq (h_save_run (r\<lparr>rr_status := run_status_value RRecoveryRequired,
            rr_error_code := Some (lit ''process_interrupted''),
            rr_message := Some (lit ''process interrupted; explicit diagnosis required''),
            rr_finished_at := Some (truthy_or (rr_finished_at r) now)\<rparr>)) (\<lambda>_.
     mark_runs now rs (Suc marked))"

definition mark_recovery_required :: "pystr \<Rightarrow> (history, history_error, nat \<times> nat) act" where
  "mark_recovery_required now =
     seq (reading available) (\<lambda>is_available.
     if \<not> is_available then ret (0, 0)
     else
       seq h_unfinished_job_rows (\<lambda>rows.
       seq (mark_jobs rows 0) (\<lambda>marked_jobs.
       seq (h_runs_with_status uncertain_run_statuses) (\<lambda>runs.
       seq (mark_runs now runs 0) (\<lambda>marked_runs.
       ret (marked_jobs, marked_runs))))))"

end
