(* ===== verification/HistoryLaws.thy ===== *)
theory HistoryLaws imports HistoryService "HOL-Library.Multiset" begin

text \<open>
  The laws of the history service: what each call does to the rows a reader sees, what retention can
  have removed, and the simulation between the repository and the in-memory mirror. The contract
  \<open>journal_store\<close> is what the recovery code needs of a journal.
\<close>

section \<open>Reading the tables of a service\<close>

definition job_rows :: "history \<Rightarrow> history_record list" where
  "job_rows h = (case hs_repository h of None \<Rightarrow> hs_records h | Some db \<Rightarrow> t_jobs (db_tables db))"

definition journal_rows :: "history \<Rightarrow> pystr \<Rightarrow> journal_entry list" where
  "journal_rows h j =
     (case hs_repository h of None \<Rightarrow> hs_journal h j | Some db \<Rightarrow> journal_of j (t_journal (db_tables db)))"

definition run_rows :: "history \<Rightarrow> run_row list" where
  "run_rows h = (case hs_repository h of None \<Rightarrow> hs_runs h | Some db \<Rightarrow> t_runs (db_tables db))"

lemma transaction_cases:
  assumes "transaction f db = (r, db')"
  obtains (fault) e where "r = Inl e" "db_tables db' = db_tables db"
  | (commit) x t where "r = Inr x" "f (db_tables db) = Inr (x, t)" "db_tables db' = t"
  using assms by (auto simp: transaction_def Let_def split: if_splits sum.splits)

lemma with_repo_Some:
  assumes "hs_repository h = Some db" "with_repo m f h = (r, h')"
  obtains db' where "m db = (r, db')" "h' = h\<lparr>hs_repository := Some db'\<rparr>"
  using assms by (auto simp: with_repo_def split: prod.splits)

lemma with_repo_None: "hs_repository h = None \<Longrightarrow> with_repo m f h = f h"
  by (simp add: with_repo_def)

section \<open>Saving\<close>

lemma save_cases:
  assumes run: "h_save r h = (res, h')" and wf: "history_wf h"
  shows "(\<forall>j. journal_rows h' j = journal_rows h j) \<and> run_rows h' = run_rows h \<and>
    (case res of Inl e \<Rightarrow> job_rows h' = job_rows h
     | Inr x \<Rightarrow> x = r \<and> job_rows h' = upsert hr_job_id r (job_rows h))"
proof (cases "hs_repository h")
  case None
  then have "res = Inr r" "h' = h\<lparr>hs_records := upsert hr_job_id r (hs_records h)\<rparr>"
    using run by (simp_all add: h_save_def seq_def with_repo_def ret_def mirror_def)
  with None show ?thesis by (simp add: journal_rows_def job_rows_def run_rows_def)
next
  case (Some db)
  obtain q db' where saved: "repo_save r db = (q, db')" by fastforce
  from saved have "case q of Inl e \<Rightarrow> db_tables db' = db_tables db
      | Inr u \<Rightarrow> db_tables db' = (db_tables db)\<lparr>t_jobs := upsert hr_job_id r (t_jobs (db_tables db))\<rparr>"
    unfolding repo_save_def by (cases rule: transaction_cases) auto
  with run saved Some show ?thesis
    by (cases q) (auto simp: h_save_def seq_def with_repo_def mirror_def journal_rows_def job_rows_def
        run_rows_def)
qed

section \<open>Pages\<close>

lemma newest_first_perm: "mset (newest_first rs) = mset rs"
  by (simp add: newest_first_def)

lemma newest_first_sorted:
  "sorted_wrt (\<lambda>a b. (hr_start_time b, hr_job_id b) \<le> (hr_start_time a, hr_job_id a)) (newest_first rs)"
  using sorted_sort_key [of "\<lambda>r. (hr_start_time r, hr_job_id r)" rs]
  by (simp add: newest_first_def sorted_wrt_rev sorted_map)

lemma page_rows:
  assumes run: "h_page limit offset status h = (Inr pg, h')"
  shows "pg_items pg = window (safe_limit limit) (safe_offset offset) (newest_first (with_status status (job_rows h))) \<and>
    pg_total pg = length (with_status status (job_rows h)) \<and>
    pg_limit pg = safe_limit limit \<and> pg_offset pg = safe_offset offset"
proof (cases "hs_repository h")
  case None
  with run show ?thesis
    by (auto simp: h_page_def seq_def with_repo_def ret_def mirror_def Let_def job_rows_def newest_first_def)
next
  case (Some db)
  have idem: "safe_limit (safe_limit limit) = safe_limit limit" "safe_offset (safe_offset offset) = safe_offset offset"
    by (simp_all add: safe_limit_def safe_offset_def)
  from run Some obtain q db' where page: "repo_page (safe_limit limit) (safe_offset offset) status db = (Inr q, db')"
    and pg: "pg = \<lparr>pg_items = fst q, pg_total = snd q, pg_limit = safe_limit limit, pg_offset = safe_offset offset\<rparr>"
    by (auto simp: h_page_def seq_def with_repo_def ret_def split: prod.splits sum.splits)
  from page obtain n rows db1 where
    "fetch (\<lambda>t. length (with_status status (t_jobs t))) db = (Inr n, db1)"
    "fetch (\<lambda>t. window (safe_limit limit) (safe_offset offset) (newest_first (with_status status (t_jobs t)))) db1 =
      (Inr rows, db')" "q = (rows, n)"
    unfolding repo_page_def idem by (auto simp: ret_def)
  then have "n = length (with_status status (t_jobs (db_tables db)))"
    "rows = window (safe_limit limit) (safe_offset offset) (newest_first (with_status status (t_jobs (db_tables db))))"
    unfolding fetch_def transaction_def by (auto simp: Let_def split: if_splits)
  with pg Some \<open>q = (rows, n)\<close> show ?thesis by (simp add: job_rows_def)
qed

section \<open>Retention\<close>

lemma delete_each_job_tables:
  "snd (delete_each_job js n t) =
     t\<lparr>t_jobs := filter (\<lambda>r. hr_job_id r \<notin> set js) (t_jobs t),
       t_journal := filter (\<lambda>e. je_job_id e \<notin> set js) (t_journal t)\<rparr>"
proof (induction js arbitrary: n t)
  case (Cons j js)
  then show ?case by (simp add: delete_job_def conj_commute)
qed simp

text \<open>
  \<open>pruned bound t0 t\<close>: the tables \<open>t\<close> are \<open>t0\<close> without the jobs in a set \<open>J\<close> of expired terminal
  jobs, with their journals, and without the runs in a set \<open>R\<close> of terminal runs.
\<close>

definition pruned :: "pystr \<Rightarrow> tables \<Rightarrow> tables \<Rightarrow> bool" where
  "pruned bound t0 t \<longleftrightarrow> (\<exists>J R.
     t_jobs t = filter (\<lambda>r. hr_job_id r \<notin> J) (t_jobs t0) \<and>
     t_journal t = filter (\<lambda>e. je_job_id e \<notin> J) (t_journal t0) \<and>
     t_runs t = filter (\<lambda>r. rr_run_id r \<notin> R) (t_runs t0) \<and>
     (\<forall>r \<in> set (t_jobs t0). hr_job_id r \<in> J \<longrightarrow>
        hr_status r \<in> status_value ` set terminal_states \<and> job_bound r < bound) \<and>
     (\<forall>r \<in> set (t_runs t0). rr_run_id r \<in> R \<longrightarrow> rr_status r \<in> run_status_value ` set terminal_runs))"

lemma pruned_refl: "pruned bound t t"
  unfolding pruned_def by (intro exI [of _ "{}"]) simp

lemma pruned_jobs:
  assumes p: "pruned bound t0 t" and wf: "distinct (map hr_job_id (t_jobs t0))"
    and rows: "\<forall>r \<in> set rs. r \<in> set (t_jobs t) \<and> hr_status r \<in> status_value ` set terminal_states \<and> job_bound r < bound"
  shows "pruned bound t0 (snd (delete_each_job (map hr_job_id rs) n t))"
proof -
  obtain J R where JR: "t_jobs t = filter (\<lambda>r. hr_job_id r \<notin> J) (t_jobs t0)"
     "t_journal t = filter (\<lambda>e. je_job_id e \<notin> J) (t_journal t0)"
     "t_runs t = filter (\<lambda>r. rr_run_id r \<notin> R) (t_runs t0)"
     "\<forall>r \<in> set (t_jobs t0). hr_job_id r \<in> J \<longrightarrow>
        hr_status r \<in> status_value ` set terminal_states \<and> job_bound r < bound"
     "\<forall>r \<in> set (t_runs t0). rr_run_id r \<in> R \<longrightarrow> rr_status r \<in> run_status_value ` set terminal_runs"
    using p unfolding pruned_def by blast
  have "hr_status r \<in> status_value ` set terminal_states \<and> job_bound r < bound"
    if r: "r \<in> set (t_jobs t0)" "hr_job_id r \<in> J \<union> hr_job_id ` set rs" for r
  proof (cases "hr_job_id r \<in> J")
    case False
    then obtain q where q: "q \<in> set rs" "hr_job_id q = hr_job_id r" using r(2) by auto
    then have "q \<in> set (t_jobs t0)" using rows JR(1) by auto
    then have "q = r" using q(2) r(1) wf by (metis distinct_map inj_onD)
    then show ?thesis using rows q(1) by blast
  qed (use r(1) JR(4) in blast)
  then show ?thesis
    unfolding pruned_def delete_each_job_tables using JR(1-3,5)
    by (intro exI [of _ "J \<union> hr_job_id ` set rs"] exI [of _ R]) (auto intro: filter_cong)
qed

lemma pruned_runs:
  assumes p: "pruned bound t0 t" and wf: "distinct (map rr_run_id (t_runs t0))"
    and rows: "\<forall>i \<in> set ids. \<exists>r \<in> set (t_runs t). rr_run_id r = i \<and> rr_status r \<in> run_status_value ` set terminal_runs"
  shows "pruned bound t0 (t\<lparr>t_runs := snd (delete_each_run ids n (t_runs t))\<rparr>)"
proof -
  obtain J R where JR: "t_jobs t = filter (\<lambda>r. hr_job_id r \<notin> J) (t_jobs t0)"
     "t_journal t = filter (\<lambda>e. je_job_id e \<notin> J) (t_journal t0)"
     "t_runs t = filter (\<lambda>r. rr_run_id r \<notin> R) (t_runs t0)"
     "\<forall>r \<in> set (t_jobs t0). hr_job_id r \<in> J \<longrightarrow>
        hr_status r \<in> status_value ` set terminal_states \<and> job_bound r < bound"
     "\<forall>r \<in> set (t_runs t0). rr_run_id r \<in> R \<longrightarrow> rr_status r \<in> run_status_value ` set terminal_runs"
    using p unfolding pruned_def by blast
  have "rr_status r \<in> run_status_value ` set terminal_runs"
    if r: "r \<in> set (t_runs t0)" "rr_run_id r \<in> R \<union> set ids" for r
  proof (cases "rr_run_id r \<in> R")
    case False
    then obtain q where q: "q \<in> set (t_runs t)" "rr_run_id q = rr_run_id r"
        "rr_status q \<in> run_status_value ` set terminal_runs"
      using r(2) rows by auto
    then have "q = r" using r(1) wf JR(3) by (metis distinct_map filter_is_subset inj_onD subsetD)
    then show ?thesis using q(3) by blast
  qed (use r(1) JR(5) in blast)
  then show ?thesis
    unfolding pruned_def delete_each_run_filter using JR(1-4)
    by (intro exI [of _ J] exI [of _ "R \<union> set ids"]) (auto intro: filter_cong)
qed

lemma hoare_fetch:
  "hoare (\<lambda>db. P (db_tables db)) (fetch f) (\<lambda>x db. P (db_tables db) \<and> x = f (db_tables db))
     (\<lambda>_ db. P (db_tables db))"
  unfolding fetch_def by (rule hoareI) (auto elim!: transaction_cases)

lemma hoare_transaction:
  "(\<And>t x t'. P t \<Longrightarrow> f t = Inr (x, t') \<Longrightarrow> Q t') \<Longrightarrow> (\<And>t. P t \<Longrightarrow> Q t) \<Longrightarrow>
     hoare (\<lambda>db. P (db_tables db)) (transaction f) (\<lambda>x db. Q (db_tables db)) (\<lambda>_ db. Q (db_tables db))"
  by (rule hoareI) (auto elim!: transaction_cases)

definition runs_known :: "tables \<Rightarrow> pystr list \<Rightarrow> bool" where
  "runs_known t ids \<longleftrightarrow>
     (\<forall>i \<in> set ids. \<exists>r \<in> set (t_runs t). rr_run_id r = i \<and> rr_status r \<in> run_status_value ` set terminal_runs)"

lemma hoare_delete_runs:
  assumes "distinct (map rr_run_id (t_runs t0))"
  shows "hoare (\<lambda>db. pruned b t0 (db_tables db) \<and> runs_known (db_tables db) ids) (repo_delete_runs ids)
    (\<lambda>_ db. pruned b t0 (db_tables db)) (\<lambda>_ db. pruned b t0 (db_tables db))"
  unfolding repo_delete_runs_def
proof (intro hoare_if hoare_ret hoare_transaction [where P = "\<lambda>t. pruned b t0 t \<and> runs_known t ids"])
  fix t x t'
  assume "pruned b t0 t \<and> runs_known t ids"
    and "(let (n, rs) = delete_each_run ids 0 (t_runs t) in Inr (n, t\<lparr>t_runs := rs\<rparr>)) = Inr (x, t')"
  then show "pruned b t0 t'"
    using pruned_runs [OF _ assms, of b t ids 0] by (auto simp: runs_known_def Let_def split_beta)
qed auto

lemma hoare_delete_jobs:
  assumes "distinct (map hr_job_id (t_jobs t0))"
  shows "hoare (\<lambda>db. pruned b t0 (db_tables db) \<and>
       rs = filter (\<lambda>r. job_bound r < b) (jobs_in_status (map status_value terminal_states) (t_jobs (db_tables db))))
    (repo_delete_jobs (map hr_job_id rs))
    (\<lambda>_ db. pruned b t0 (db_tables db)) (\<lambda>_ db. pruned b t0 (db_tables db))"
  unfolding repo_delete_jobs_def
  by (intro hoare_if hoare_ret hoare_transaction [where P = "\<lambda>t. pruned b t0 t \<and>
       rs = filter (\<lambda>r. job_bound r < b) (jobs_in_status (map status_value terminal_states) (t_jobs t))"])
    (use pruned_jobs [OF _ assms, of b _ rs 0] in \<open>auto simp: jobs_in_status_def\<close>, metis snd_conv)

lemma hoare_cleanup:
  assumes jobs: "distinct (map hr_job_id (t_jobs t0))" and runs: "distinct (map rr_run_id (t_runs t0))"
  shows "hoare (\<lambda>db. pruned b t0 (db_tables db)) (repo_cleanup b days m)
    (\<lambda>_ db. pruned b t0 (db_tables db)) (\<lambda>_ db. pruned b t0 (db_tables db))"
proof -
  let ?P = "pruned b t0" and ?E = "\<lambda>_ db. pruned b t0 (db_tables db)"
  have rows: "hoare (\<lambda>db. ?P (db_tables db)) (repo_terminal_run_rows (map run_status_value terminal_runs) b)
      (\<lambda>rs db. ?P (db_tables db) \<and> runs_known (db_tables db) (map rr_run_id rs)) ?E"
    unfolding repo_terminal_run_rows_def
    by (rule hoare_weaken [OF hoare_fetch [where P = ?P]])
      (auto simp: runs_known_def runs_in_status_def)
  have oldest: "hoare (\<lambda>db. ?P (db_tables db)) (repo_oldest_terminal_runs (map run_status_value terminal_runs) n)
      (\<lambda>rs db. ?P (db_tables db) \<and> runs_known (db_tables db) (map rr_run_id rs)) ?E" for n
    unfolding repo_oldest_terminal_runs_def
    by (rule hoare_weaken [OF hoare_fetch [where P = ?P]])
      (auto simp: runs_known_def runs_in_status_def dest!: in_set_takeD)
  have all: "hoare (\<lambda>db. ?P (db_tables db) \<and> runs_known (db_tables db) ids) repo_all_runs_sorted
      (\<lambda>_ db. ?P (db_tables db) \<and> runs_known (db_tables db) ids) ?E" for ids
    unfolding repo_all_runs_sorted_def
    by (rule hoare_weaken [OF hoare_fetch [where P = "\<lambda>t. ?P t \<and> runs_known t ids"]]) auto
  have count: "hoare (\<lambda>db. ?P (db_tables db)) repo_run_count (\<lambda>_ db. ?P (db_tables db)) ?E"
    unfolding repo_run_count_def by (rule hoare_weaken [OF hoare_fetch [where P = ?P]]) auto
  have terminal: "hoare (\<lambda>db. ?P (db_tables db)) (repo_terminal_job_rows (map status_value terminal_states) b)
      (\<lambda>rs db. ?P (db_tables db) \<and> rs = filter (\<lambda>r. job_bound r < b)
         (jobs_in_status (map status_value terminal_states) (t_jobs (db_tables db)))) ?E"
    unfolding repo_terminal_job_rows_def by (rule hoare_fetch [where P = ?P])
  have some: "hoare (\<lambda>db. ?P (db_tables db) \<and> runs_known (db_tables db) (map rr_run_id rs))
      (repo_delete_runs (filter (\<lambda>i. i \<notin> K) (map rr_run_id rs))) (\<lambda>_ db. ?P (db_tables db)) ?E" for rs K
    by (rule hoare_pre [OF hoare_delete_runs [OF runs]]) (auto simp: runs_known_def)
  have rest: "hoare (\<lambda>db. ?P (db_tables db) \<and> runs_known (db_tables db) (map rr_run_id rs))
      (if rs \<noteq> [] then repo_delete_runs (map rr_run_id rs) else ret 0) (\<lambda>_ db. ?P (db_tables db)) ?E" for rs
    by (intro hoare_if hoare_delete_runs [OF runs] hoare_ret) simp
  show ?thesis
    unfolding repo_cleanup_def Let_def
    by (rule hoare_seq [OF terminal], rule hoare_seq [OF hoare_delete_jobs [OF jobs]],
        rule hoare_seq [OF rows], rule hoare_seq [OF all], rule hoare_seq [OF some],
        rule hoare_seq [OF count], rule hoare_seq, rule hoare_if, rule hoare_seq [OF oldest], rule rest,
        rule hoare_ret, assumption, rule hoare_ret)
qed

section \<open>The mirror\<close>

lemma sort_key_absorb: "sort_key f (sort_key f xs @ ys) = sort_key f (xs @ ys)"
proof (rule properties_for_sort_key)
  show "mset (sort_key f (xs @ ys)) = mset (sort_key f xs @ ys)" by simp
next
  fix k
  have "filter (\<lambda>x. f k = f x) (sort_key f zs) = filter (\<lambda>x. f k = f x) zs" for zs :: "'a list"
    using sort_key_stable [of f "f k" zs] by (simp add: eq_commute [of "f k"])
  then show "filter (\<lambda>x. f k = f x) (sort_key f (xs @ ys)) = filter (\<lambda>x. f k = f x) (sort_key f xs @ ys)"
    by simp
next
  show "sorted (map f (sort_key f (xs @ ys)))" by simp
qed

lemma journal_of_snoc:
  "journal_of j (rows @ [e]) =
     (if je_job_id e = j then sort_key je_seq (journal_of j rows @ [e]) else journal_of j rows)"
  by (simp add: journal_of_def sort_key_absorb)

lemma insort_key_map: "insort_key f (g x) (map g xs) = map g (insort_key (f \<circ> g) x xs)"
  by (induction xs) simp_all

lemma sort_key_map_inside: "sort_key f (map g xs) = map g (sort_key (f \<circ> g) xs)"
  by (induction xs) (simp_all add: insort_key_map comp_def)

lemma journal_of_set_state:
  "journal_of j (set_state_of i st rows) =
     (if j = i then map (\<lambda>e. e\<lparr>je_state := st\<rparr>) (journal_of j rows) else journal_of j rows)"
proof -
  let ?own = "filter (\<lambda>e. je_job_id e = j) rows"
  let ?g = "\<lambda>e. if je_job_id e = i then e\<lparr>je_state := st\<rparr> else e"
  have keys: "je_job_id (?g e) = je_job_id e" "je_seq (?g e) = je_seq e" for e by simp_all
  have "journal_of j (set_state_of i st rows) = sort_key je_seq (map ?g ?own)"
    unfolding journal_of_def set_state_of_def filter_map comp_def keys ..
  also have "\<dots> = map ?g (journal_of j rows)"
    unfolding sort_key_map_inside comp_def keys journal_of_def ..
  also have "\<dots> = (if j = i then map (\<lambda>e. e\<lparr>je_state := st\<rparr>) (journal_of j rows) else journal_of j rows)"
    by (auto simp: journal_of_def intro!: map_cong map_idI)
  finally show ?thesis .
qed

lemma set_journal_of: "set (journal_of j rows) = {e \<in> set rows. je_job_id e = j}"
  by (auto simp: journal_of_def)

lemma insert_fresh:
  assumes "\<forall>e' \<in> set (journal_of (je_job_id e) rows). je_seq e' \<noteq> je_seq e"
  shows "insert_or_replace journal_key e rows = rows @ [e]"
  using assms by (auto simp: insert_or_replace_def journal_key_def set_journal_of intro!: filter_True)

text \<open>A service without repository, and one whose repository never fails, holding the same data.\<close>

definition mirrors :: "history \<Rightarrow> history \<Rightarrow> bool" where
  "mirrors m h \<longleftrightarrow> hs_repository m = None \<and> (\<exists>db. hs_repository h = Some db \<and> db_faults db = [] \<and>
     t_jobs (db_tables db) = hs_records m \<and> t_runs (db_tables db) = hs_runs m \<and>
     (\<forall>j. journal_of j (t_journal (db_tables db)) = hs_journal m j))"

datatype hist_call = CSave history_record | CGet pystr | CPage int int "pystr option"
  | CAppend journal_entry | CJournal pystr | CSetState pystr journal_state | CSaveRun run_row
  | CGetRun pystr | CPageRuns int int "pystr option" | CRunsWith "pystr list"

datatype hist_answer = ADone | AJob "history_record option" | APage history_page
  | AJournal "journal_entry list" | ARun "run_row option" | ARuns "run_row list" nat

fun exec_call :: "hist_call \<Rightarrow> hist_answer hist_act" where
  "exec_call (CSave r) = seq (h_save r) (\<lambda>_. ret ADone)"
| "exec_call (CGet j) = seq (h_get j) (\<lambda>r. ret (AJob r))"
| "exec_call (CPage l off st) = seq (h_page l off st) (\<lambda>p. ret (APage p))"
| "exec_call (CAppend e) = seq (h_append_journal e) (\<lambda>_. ret ADone)"
| "exec_call (CJournal j) = seq (h_journal j) (\<lambda>es. ret (AJournal es))"
| "exec_call (CSetState j st) = seq (h_set_journal_state j st) (\<lambda>_. ret ADone)"
| "exec_call (CSaveRun r) = seq (h_save_run r) (\<lambda>_. ret ADone)"
| "exec_call (CGetRun i) = seq (h_get_run i) (\<lambda>r. ret (ARun r))"
| "exec_call (CPageRuns l off t) = seq (h_page_runs l off t) (\<lambda>(rs, n, _, _). ret (ARuns rs n))"
| "exec_call (CRunsWith ss) = seq (h_runs_with_status ss) (\<lambda>rs. ret (ARuns rs (length rs)))"

text \<open>
  Where the two differ: the mirror accepts a journal row of an unknown job and keeps two rows with
  one number, and a run row without \<^verbatim>\<open>created_at\<close>.
\<close>

fun call_ok :: "history \<Rightarrow> hist_call \<Rightarrow> bool" where
  "call_ok m (CAppend e) \<longleftrightarrow> je_job_id e \<in> hr_job_id ` set (hs_records m) \<and>
     (\<forall>e' \<in> set (hs_journal m (je_job_id e)). je_seq e' \<noteq> je_seq e)"
| "call_ok m (CSaveRun r) \<longleftrightarrow> rr_created_at r \<noteq> None"
| "call_ok m c \<longleftrightarrow> True"

fun exec_calls :: "hist_call list \<Rightarrow> history \<Rightarrow> (history_error + hist_answer) list \<times> history" where
  "exec_calls [] h = ([], h)"
| "exec_calls (c # cs) h =
     (case exec_call c h of (a, h1) \<Rightarrow> case exec_calls cs h1 of (as, h2) \<Rightarrow> (a # as, h2))"

fun calls_ok :: "history \<Rightarrow> hist_call list \<Rightarrow> bool" where
  "calls_ok m [] \<longleftrightarrow> True"
| "calls_ok m (c # cs) \<longleftrightarrow> call_ok m c \<and> calls_ok (snd (exec_call c m)) cs"

lemmas plumbing = seq_def with_repo_def ret_def mirror_def transaction_def fetch_def

lemma call_agrees:
  assumes sim: "mirrors m h" and ok: "call_ok m c"
  shows "\<exists>a m' h'. exec_call c m = (a, m') \<and> exec_call c h = (a, h') \<and> mirrors m' h'"
proof -
  obtain db where db: "hs_repository m = None" "hs_repository h = Some db" "db_faults db = []"
     "t_jobs (db_tables db) = hs_records m" "t_runs (db_tables db) = hs_runs m"
     "\<forall>j. journal_of j (t_journal (db_tables db)) = hs_journal m j"
    using sim unfolding mirrors_def by blast
  have idem: "safe_limit (safe_limit l) = safe_limit l" "safe_offset (safe_offset off) = safe_offset off" for l off
    by (simp_all add: safe_limit_def safe_offset_def)
  show ?thesis
  proof (cases c)
    case (CAppend e)
    have fresh: "insert_or_replace journal_key e (t_journal (db_tables db)) = t_journal (db_tables db) @ [e]"
      using ok CAppend db(6) by (intro insert_fresh) simp
    show ?thesis
      using db ok by (simp add: CAppend mirrors_def h_append_journal_def repo_add_journal_def plumbing
          fresh journal_of_snoc)
  next
    case (CSetState j st)
    show ?thesis
      using db by (simp add: CSetState mirrors_def h_set_journal_state_def repo_set_journal_state_def
          plumbing journal_of_set_state)
  next
    case (CSaveRun r)
    show ?thesis
      using db ok by (simp add: CSaveRun mirrors_def h_save_run_def repo_save_run_def plumbing)
  next
    case (CRunsWith ss)
    show ?thesis
      using db by (cases ss)
        (simp_all add: CRunsWith mirrors_def h_runs_with_status_def repo_runs_with_status_def
          runs_in_status_def plumbing)
  next
    case (CPage l off st)
    show ?thesis
      using db by (simp add: CPage mirrors_def h_page_def repo_page_def plumbing idem Let_def newest_first_def)
  next
    case (CPageRuns l off t)
    show ?thesis
      using db by (simp add: CPageRuns mirrors_def h_page_runs_def repo_page_runs_def plumbing idem
          Let_def runs_newest_first_def)
  qed (use db in \<open>simp_all add: mirrors_def h_save_def repo_save_def h_get_def repo_get_def
      h_journal_def repo_journal_def h_get_run_def repo_get_run_def plumbing\<close>)
qed

lemma calls_agree:
  "mirrors m h \<Longrightarrow> calls_ok m cs \<Longrightarrow> fst (exec_calls cs m) = fst (exec_calls cs h)"
proof (induction cs arbitrary: m h)
  case (Cons c cs)
  obtain a m' h' where step: "exec_call c m = (a, m')" "exec_call c h = (a, h')" "mirrors m' h'"
    using call_agrees [OF Cons.prems(1), of c] Cons.prems(2) by (meson calls_ok.simps(2))
  with Cons.IH [OF step(3)] Cons.prems(2) show ?case
    by (simp split: prod.split) (metis fst_conv)
qed simp

section \<open>The journal contract\<close>

locale journal_store =
  fixes append :: "journal_entry \<Rightarrow> ('h, 'e, unit) act"
    and rows :: "'h \<Rightarrow> pystr \<Rightarrow> journal_entry list"
    and inv :: "'h \<Rightarrow> bool"
  assumes append_last: "inv h \<Longrightarrow> append e h = (Inr u, h') \<Longrightarrow>
      \<forall>e' \<in> set (rows h (je_job_id e)). je_seq e' < je_seq e \<Longrightarrow>
      rows h' = (rows h)(je_job_id e := rows h (je_job_id e) @ [e])"
    and append_inv: "inv h \<Longrightarrow> append e h = (r, h') \<Longrightarrow> inv h'"
begin

text \<open>Numbering rows from 0 in order of arrival keeps them in that order.\<close>

lemma append_next:
  assumes "inv h" "append e h = (Inr u, h')" "map je_seq (rows h (je_job_id e)) = [0..<je_seq e]"
  shows "rows h' (je_job_id e) = rows h (je_job_id e) @ [e]"
    and "map je_seq (rows h' (je_job_id e)) = [0..<Suc (je_seq e)]"
proof -
  have "set (map je_seq (rows h (je_job_id e))) = {0..<je_seq e}"
    unfolding assms(3) by simp
  then have "\<forall>e' \<in> set (rows h (je_job_id e)). je_seq e' < je_seq e" by auto
  from append_last [OF assms(1,2) this]
  show "rows h' (je_job_id e) = rows h (je_job_id e) @ [e]" by simp
  with assms(3) show "map je_seq (rows h' (je_job_id e)) = [0..<Suc (je_seq e)]" by simp
qed

end

lemma sort_key_snoc_last:
  "sorted (map f xs) \<Longrightarrow> \<forall>x \<in> set xs. f x < f y \<Longrightarrow> sort_key f (xs @ [y]) = xs @ [y]"
  by (rule sort_key_id_if_sorted) (auto simp: sorted_append less_imp_le)

lemma repo_append_last:
  assumes "repo_add_journal e db = (Inr u, db')"
    and "\<forall>e' \<in> set (journal_of (je_job_id e) (t_journal (db_tables db))). je_seq e' < je_seq e"
  shows "journal_of j (t_journal (db_tables db')) = (if j = je_job_id e
    then journal_of j (t_journal (db_tables db)) @ [e] else journal_of j (t_journal (db_tables db)))"
proof -
  have tables: "t_journal (db_tables db') = insert_or_replace journal_key e (t_journal (db_tables db))"
    using assms(1) by (auto simp: repo_add_journal_def transaction_def Let_def split: if_splits)
  have fresh: "insert_or_replace journal_key e (t_journal (db_tables db)) = t_journal (db_tables db) @ [e]"
    using assms(2) by (intro insert_fresh) auto
  have "sorted (map je_seq (journal_of j (t_journal (db_tables db))))"
    by (simp add: journal_of_def)
  with assms(2) show ?thesis
    unfolding tables fresh journal_of_snoc by (auto intro!: sort_key_snoc_last)
qed

interpretation repository_journal: journal_store repo_add_journal
  "\<lambda>db j. journal_of j (t_journal (db_tables db))" "\<lambda>db. db_wf (db_tables db)"
proof (unfold_locales, goal_cases)
  case (1 h e u h')
  show ?case using repo_append_last [OF 1(2,3)] by (simp add: fun_eq_iff)
next
  case (2 h e r h')
  then show ?case using keepsD [OF repo_keeps(3)] by blast
qed

lemma service_append_last:
  assumes wf: "history_wf h" and run: "h_append_journal e h = (Inr u, h')"
    and last: "\<forall>e' \<in> set (journal_rows h (je_job_id e)). je_seq e' < je_seq e"
  shows "journal_rows h' = (journal_rows h)(je_job_id e := journal_rows h (je_job_id e) @ [e])"
proof (cases "hs_repository h")
  case None
  have "sorted (map je_seq (hs_journal h (je_job_id e)))"
    using wf by (simp add: history_wf_def mirror_wf_def)
  with None run last show ?thesis
    by (auto simp: h_append_journal_def with_repo_def mirror_def journal_rows_def fun_eq_iff
        intro!: sort_key_snoc_last)
next
  case (Some db)
  from run obtain db' where db': "repo_add_journal e db = (Inr u, db')" "h' = h\<lparr>hs_repository := Some db'\<rparr>"
    unfolding h_append_journal_def by (rule with_repo_Some [OF Some])
  have "\<forall>e' \<in> set (journal_of (je_job_id e) (t_journal (db_tables db))). je_seq e' < je_seq e"
    using last Some by (simp add: journal_rows_def)
  from repo_append_last [OF db'(1) this] Some db'(2) show ?thesis
    by (simp add: journal_rows_def fun_eq_iff)
qed

interpretation service_journal: journal_store h_append_journal journal_rows history_wf
proof (unfold_locales, goal_cases)
  case (1 h e u h')
  then show ?case by (rule service_append_last)
next
  case (2 h e r h')
  then show ?case using keepsD [OF service_keeps(4)] by blast
qed

section \<open>A repository that works\<close>

text \<open>No access fails any more, and the job is known.\<close>

definition calm :: "pystr \<Rightarrow> history \<Rightarrow> bool" where
  "calm job_id h \<longleftrightarrow> (\<exists>db. hs_repository h = Some db \<and> db_faults db = [] \<and>
     job_id \<in> hr_job_id ` set (t_jobs (db_tables db)))"

lemma calm_append:
  assumes "calm j h" "je_job_id e = j"
  shows "\<exists>h'. h_append_journal e h = (Inr (), h') \<and> calm j h' \<and> job_rows h' = job_rows h"
  using assms by (auto simp: calm_def h_append_journal_def repo_add_journal_def plumbing job_rows_def Let_def)

lemma calm_journal: "calm j h \<Longrightarrow> h_journal i h = (Inr (journal_rows h i), h)"
  by (auto simp: calm_def h_journal_def repo_journal_def plumbing journal_rows_def Let_def)

lemma calm_get: "calm j h \<Longrightarrow> h_get i h = (Inr (lookup_row hr_job_id i (job_rows h)), h)"
  by (auto simp: calm_def h_get_def repo_get_def plumbing job_rows_def Let_def)

lemma calm_set_state:
  assumes "calm j h"
  shows "\<exists>h'. h_set_journal_state i st h = (Inr (), h') \<and> calm j h' \<and> job_rows h' = job_rows h \<and>
    journal_rows h' i = map (\<lambda>e. e\<lparr>je_state := st\<rparr>) (journal_rows h i)"
  using assms by (auto simp: calm_def h_set_journal_state_def repo_set_journal_state_def plumbing
      journal_rows_def job_rows_def journal_of_set_state Let_def)

lemma calm_save:
  assumes "calm j h"
  shows "\<exists>h'. h_save r h = (Inr r, h') \<and> calm j h' \<and> job_rows h' = upsert hr_job_id r (job_rows h)"
  using assms by (auto simp: calm_def h_save_def repo_save_def plumbing job_rows_def Let_def key_image_upsert)

end
