(* ===== verification/RecoveryProofs.thy ===== *)
theory RecoveryProofs imports Recovery HistoryLaws begin

text \<open>
  The recovery code against the contract \<open>vault_store\<close>, proved once inside it: a successful step has
  an inverse, a chain of steps is undone by the inverses in reverse order, whichever of the three
  pieces of code applies them (the executor's rollback, undo, explicit recovery). The journal's side
  is a second, small contract, \<open>journal_store\<close>.
\<close>

section \<open>Planned operations\<close>

text \<open>
  The shapes of operation the planner makes. A create has no before state; an update and a move carry
  the captured bytes and their digest; no operation names a different journal path.
\<close>

definition planned :: "(bytes \<Rightarrow> pystr) \<Rightarrow> (pystr \<Rightarrow> bool) \<Rightarrow> transaction_operation \<Rightarrow> bool" where
  "planned digest usable op \<longleftrightarrow> op_target_path op = None \<and> usable (op_path op) \<and>
     (case op_operation op of
        OpCreate \<Rightarrow> op_before_bytes op = None \<and> op_before_hash op = None \<and> op_after_bytes op \<noteq> None \<and>
          op_after_hash op = None
      | OpUpdate \<Rightarrow> op_before_bytes op \<noteq> None \<and>
          op_before_hash op = map_option digest (op_before_bytes op) \<and>
          op_after_bytes op \<noteq> None \<and> op_after_hash op = None
      | OpMove \<Rightarrow> op_before_bytes op \<noteq> None \<and>
          op_before_hash op = map_option digest (op_before_bytes op) \<and>
          op_after_bytes op = op_before_bytes op \<and> op_after_hash op = op_before_hash op \<and>
          some_nonempty (op_source op) \<and> usable (the (op_source op)) \<and> length (the (op_source op)) \<le> 4096
      | OpUndo \<Rightarrow> False)"

abbreviation op_new :: "transaction_operation \<Rightarrow> bytes" where "op_new op \<equiv> the (op_after_bytes op)"
abbreviation op_old :: "transaction_operation \<Rightarrow> bytes" where "op_old op \<equiv> the (op_before_bytes op)"
abbreviation op_from :: "transaction_operation \<Rightarrow> pystr" where "op_from op \<equiv> the (op_source op)"

definition op_origin :: "transaction_operation \<Rightarrow> pystr" where
  "op_origin op = (if op_operation op = OpMove then op_from op else op_path op)"

definition op_paths :: "transaction_operation \<Rightarrow> pystr list" where
  "op_paths op = (if op_operation op = OpMove then [op_path op, op_from op] else [op_path op])"

text \<open>
  The digest did its work on the file an operation starts from: content with the captured digest is
  the captured content. (Nothing is assumed about other content.)
\<close>

definition captured :: "(bytes \<Rightarrow> pystr) \<Rightarrow> (pystr \<Rightarrow> vault_error + bytes) \<Rightarrow> transaction_operation \<Rightarrow> bool" where
  "captured digest look op \<longleftrightarrow> op_operation op = OpCreate \<or>
     (case look (op_origin op) of
        Inl e \<Rightarrow> True
      | Inr d \<Rightarrow> digest d = digest (op_old op) \<longrightarrow> d = op_old op)"

lemma planned_cases [consumes 1, case_names create update move]:
  assumes "planned digest usable op"
  obtains
    (create) d where "op_operation op = OpCreate" "usable (op_path op)" "op_after_bytes op = Some d"
      "op_before_bytes op = None" "op_before_hash op = None" "op_after_hash op = None" "op_target_path op = None"
  | (update) b d where "op_operation op = OpUpdate" "usable (op_path op)" "op_after_bytes op = Some d"
      "op_before_bytes op = Some b" "op_before_hash op = Some (digest b)" "op_after_hash op = None"
      "op_target_path op = None"
  | (move) b src where "op_operation op = OpMove" "usable (op_path op)" "op_source op = Some src" "src \<noteq> []"
      "usable src" "length src \<le> 4096" "op_after_bytes op = Some b" "op_before_bytes op = Some b"
      "op_before_hash op = Some (digest b)" "op_after_hash op = Some (digest b)" "op_target_path op = None"
  using assms
  by (cases "op_operation op") (auto simp: planned_def some_nonempty_def split: option.splits)

lemma some_nonempty_simps [simp]: "some_nonempty (Some s) \<longleftrightarrow> s \<noteq> []" "\<not> some_nonempty None"
  by (simp_all add: some_nonempty_def)

section \<open>Lifting\<close>

lemma on_vault_Inr: "m (rs_vault s) = (Inr x, w) \<Longrightarrow> on_vault m s = (Inr x, s\<lparr>rs_vault := w\<rparr>)"
  and on_vault_Inl: "m (rs_vault s) = (Inl e, w) \<Longrightarrow> on_vault m s = (Inl (VaultExc e), s\<lparr>rs_vault := w\<rparr>)"
  by (simp_all add: on_vault_def)

lemma on_vault_eq_Inr: "on_vault m s = (Inr x, s') \<longleftrightarrow>
    (\<exists>w. m (rs_vault s) = (Inr x, w) \<and> s' = s\<lparr>rs_vault := w\<rparr>)"
  by (auto simp: on_vault_def split: prod.splits sum.splits)

lemma on_vault_eq_Inl: "on_vault m s = (Inl e, s') \<longleftrightarrow>
    (\<exists>v w. m (rs_vault s) = (Inl v, w) \<and> e = VaultExc v \<and> s' = s\<lparr>rs_vault := w\<rparr>)"
  by (auto simp: on_vault_def split: prod.splits sum.splits)

lemma keeps_vault_history: "keeps (\<lambda>s. rs_vault s = w) (on_history m d)"
  by (auto simp: keeps_def on_history_def split: option.splits prod.splits sum.splits)

lemma keeps_modify: "(\<And>s. P s \<Longrightarrow> P (f s)) \<Longrightarrow> keeps P (modify f)"
  by (simp add: keeps_def modify_def)

lemma keeps_reading [simp, intro]: "keeps P (reading f)"
  by (simp add: keeps_def reading_def)

text \<open>The journal never touches the vault.\<close>

lemma record_keeps_vault: "keeps (\<lambda>s. rs_vault s = w) (record_operation L n op)"
  unfolding record_operation_def record_entry_def
  by (intro keeps_seq keeps_if keeps_reading keeps_raise keeps_modify keeps_vault_history keeps_ret keeps_lift)
    (auto simp: add_bytes_def add_pending_def)

lemma mark_keeps_vault: "keeps (\<lambda>s. rs_vault s = w) (mark st)"
  unfolding mark_def by (intro keeps_seq keeps_if keeps_reading keeps_vault_history keeps_ret)

lemma audit_keeps_vault: "keeps (\<lambda>s. rs_vault s = w) (append_audit j n p h)"
  unfolding append_audit_def
  by (intro keeps_seq keeps_if keeps_reading keeps_vault_history keeps_ret keeps_lift)

section \<open>Steps and their inverses\<close>

locale transaction_vault = vault_store V ok abs look "sha256_bytes L" usable
  for V :: "'w vault_ops" and ok :: "'w \<Rightarrow> bool" and abs :: "'w \<Rightarrow> 'a"
    and look :: "'a \<Rightarrow> pystr \<Rightarrow> vault_error + bytes" and usable :: "pystr \<Rightarrow> bool" and L :: pylib
begin

abbreviation digest :: "bytes \<Rightarrow> pystr" where "digest \<equiv> sha256_bytes L"

text \<open>\<open>stepped op a a'\<close>: \<open>op\<close> took the vault from \<open>a\<close> to \<open>a'\<close>, and can be taken back.\<close>

definition inverted :: "transaction_operation \<Rightarrow> 'a \<Rightarrow> 'a \<Rightarrow> bool" where
  "inverted op a a' \<longleftrightarrow> (\<forall>w. ok w \<and> abs w = a' \<longrightarrow> (\<exists>y w'.
     (case op_operation op of
        OpCreate \<Rightarrow> vop_delete V (op_path op) (Some (digest (op_new op))) w = (Inr y, w')
      | OpUpdate \<Rightarrow> vop_write V (op_path op) (op_old op) (Some (digest (op_new op))) w = (Inr y, w') \<and>
          resp_sha256 y = op_before_hash op
      | OpMove \<Rightarrow> vop_move V (op_path op) (op_from op) (Some (digest (op_new op))) w = (Inr y, w') \<and>
          resp_sha256 y = op_before_hash op
      | OpUndo \<Rightarrow> False) \<and> ok w' \<and> abs w' = a))"

definition stepped :: "transaction_operation \<Rightarrow> 'a \<Rightarrow> 'a \<Rightarrow> bool" where
  "stepped op a a' \<longleftrightarrow> inverted op a a' \<and> look a' (op_path op) = Inr (op_new op) \<and>
     same_but (set (op_paths op)) (look a) (look a') \<and>
     (case op_operation op of
        OpUpdate \<Rightarrow> look a (op_path op) = Inr (op_old op)
      | OpMove \<Rightarrow> look a (op_from op) = Inr (op_old op) \<and> missing (look a (op_path op))
      | _ \<Rightarrow> missing (look a (op_path op)))"

primrec steps :: "transaction_operation list \<Rightarrow> 'a \<Rightarrow> 'a \<Rightarrow> bool" where
  "steps [] a a' \<longleftrightarrow> a' = a"
| "steps (op # ops) a a' \<longleftrightarrow> (\<exists>a1. stepped op a a1 \<and> steps ops a1 a')"

lemma steps_append: "steps (ops @ ops') a a' \<longleftrightarrow> (\<exists>a1. steps ops a a1 \<and> steps ops' a1 a')"
  by (induction ops arbitrary: a) auto

lemma captured_old:
  "captured digest l op \<Longrightarrow> op_operation op \<noteq> OpCreate \<Longrightarrow> l (op_origin op) = Inr d \<Longrightarrow>
     digest d = digest (op_old op) \<Longrightarrow> d = op_old op"
  by (simp add: captured_def)

text \<open>One operation of the executor: nothing happens, or a step that its inverse takes back.\<close>

lemma apply_step:
  assumes planned: "planned digest usable op" and ok: "ok (rs_vault s)"
    and captured: "captured digest (look (abs (rs_vault s))) op"
    and run: "apply_operation V op s = (r, s')"
  shows "ok (rs_vault s') \<and> rs_history s' = rs_history s \<and> rs_journal s' = rs_journal s \<and>
    (case r of Inl e \<Rightarrow> abs (rs_vault s') = abs (rs_vault s)
     | Inr x \<Rightarrow> stepped op (abs (rs_vault s)) (abs (rs_vault s')) \<and> resp_sha256 x = Some (digest (op_new op)))"
  using planned
proof (cases rule: planned_cases)
  case (create d)
  have op: "apply_operation V op s = on_vault (vop_create V (op_path op) d) s"
    using create by (simp add: apply_operation_def)
  obtain q w where q: "vop_create V (op_path op) d (rs_vault s) = (q, w)" by fastforce
  have keep: "ok w" using create_keeps [OF ok create(2), of d] q by simp
  show ?thesis
  proof (cases q)
    case (Inl e)
    with run op q keep create_fails [OF ok create(2), of d e w] show ?thesis by (auto simp: on_vault_def)
  next
    case (Inr x)
    note works = create_works [OF ok create(2) q [unfolded Inr]]
    have "inverted op (abs (rs_vault s)) (abs w)"
      unfolding inverted_def using create_undo [OF ok create(2) q [unfolded Inr]] create(1,3) by simp
    with run op q keep works Inr create show ?thesis
      by (auto simp: on_vault_def stepped_def op_paths_def)
  qed
next
  case (update b d)
  have op: "apply_operation V op s = on_vault (vop_write V (op_path op) d (Some (digest b))) s"
    using update by (simp add: apply_operation_def)
  obtain q w where q: "vop_write V (op_path op) d (Some (digest b)) (rs_vault s) = (q, w)" by fastforce
  have keep: "ok w" using write_keeps [OF ok update(2), of d "Some (digest b)"] q by simp
  show ?thesis
  proof (cases q)
    case (Inl e)
    with run op q keep write_fails [OF ok update(2), of d _ e w] show ?thesis by (auto simp: on_vault_def)
  next
    case (Inr x)
    note works = write_works [OF ok update(2) q [unfolded Inr]]
    then obtain old where old: "look (abs (rs_vault s)) (op_path op) = Inr old" "digest old = digest b" by blast
    then have "old = b" using captured_old [OF captured, of old] update by (simp add: op_origin_def)
    with old(1) have look: "look (abs (rs_vault s)) (op_path op) = Inr b" by simp
    have "inverted op (abs (rs_vault s)) (abs w)"
      unfolding inverted_def
      using write_undo [OF ok update(2) q [unfolded Inr] look] update(1,3-5) by (simp add: conj_ac)
    with run op q keep works Inr update look show ?thesis
      by (auto simp: on_vault_def stepped_def op_paths_def)
  qed
next
  case (move b src)
  have op: "apply_operation V op s = on_vault (vop_move V src (op_path op) (Some (digest b))) s"
    using move by (simp add: apply_operation_def)
  obtain q w where q: "vop_move V src (op_path op) (Some (digest b)) (rs_vault s) = (q, w)" by fastforce
  have keep: "ok w" using move_keeps [OF ok move(5,2), of "Some (digest b)"] q by simp
  show ?thesis
  proof (cases q)
    case (Inl e)
    with run op q keep move_fails [OF ok move(5,2), of _ e w] show ?thesis by (auto simp: on_vault_def)
  next
    case (Inr x)
    note works = move_works [OF ok move(5,2) q [unfolded Inr]]
    then obtain old where old: "look (abs (rs_vault s)) src = Inr old" "digest old = digest b"
        "resp_sha256 x = Some (digest old)" "look (abs w) (op_path op) = Inr old" by blast
    then have "old = b" using captured_old [OF captured, of old] move by (simp add: op_origin_def)
    with old have look: "look (abs (rs_vault s)) src = Inr b" "look (abs w) (op_path op) = Inr b"
        "resp_sha256 x = Some (digest b)" by simp_all
    have "inverted op (abs (rs_vault s)) (abs w)"
      unfolding inverted_def
      using move_undo [OF ok move(5,2) q [unfolded Inr] look(1)] move(1,3,7-9) by (simp add: conj_ac)
    with run op q keep works Inr move look show ?thesis
      by (auto simp: on_vault_def stepped_def op_paths_def insert_commute)
  qed
qed

text \<open>After the inverse delete the file is gone.\<close>

lemma assert_absent_runs:
  assumes "ok (rs_vault s)" "missing (look (abs (rs_vault s)) p)"
  shows "\<exists>s'. assert_absent V e p s = (Inr (), s') \<and> ok (rs_vault s') \<and> abs (rs_vault s') = abs (rs_vault s) \<and>
    rs_history s' = rs_history s \<and> rs_journal s' = rs_journal s"
proof -
  obtain w' where read: "vop_read V p (rs_vault s) = (rbind (look (abs (rs_vault s)) p) (\<lambda>d. Inr (d, digest d)), w')"
      "ok w'" "abs w' = abs (rs_vault s)"
    using store_read_runs [OF assms(1)] by blast
  from assms(2) obtain v where v: "look (abs (rs_vault s)) p = Inl v" "code_not_found v"
    by (rule missingE)
  with read show ?thesis
    by (auto simp: assert_absent_def act_simps on_vault_def try_else_def)
qed

lemma undo_one_inverts:
  assumes planned: "planned digest usable op" and step: "stepped op a (abs (rs_vault s))" and ok: "ok (rs_vault s)"
  shows "\<exists>s'. undo_one V op (digest (op_new op)) s = (Inr (), s') \<and> ok (rs_vault s') \<and> abs (rs_vault s') = a \<and>
    rs_history s' = rs_history s \<and> rs_journal s' = rs_journal s"
proof -
  obtain y w' where inv: "case op_operation op of
        OpCreate \<Rightarrow> vop_delete V (op_path op) (Some (digest (op_new op))) (rs_vault s) = (Inr y, w')
      | OpUpdate \<Rightarrow> vop_write V (op_path op) (op_old op) (Some (digest (op_new op))) (rs_vault s) = (Inr y, w') \<and>
          resp_sha256 y = op_before_hash op
      | OpMove \<Rightarrow> vop_move V (op_path op) (op_from op) (Some (digest (op_new op))) (rs_vault s) = (Inr y, w') \<and>
          resp_sha256 y = op_before_hash op
      | OpUndo \<Rightarrow> False" and w': "ok w'" "abs w' = a"
    using step ok unfolding stepped_def inverted_def by blast
  from planned show ?thesis
  proof (cases rule: planned_cases)
    case (create d)
    have "missing (look a (op_path op))" using step create by (simp add: stepped_def)
    then obtain s' where "assert_absent V RuntimeErr (op_path op) (s\<lparr>rs_vault := w'\<rparr>) = (Inr (), s')"
        "ok (rs_vault s')" "abs (rs_vault s') = a" "rs_history s' = rs_history s" "rs_journal s' = rs_journal s"
      using assert_absent_runs [of "s\<lparr>rs_vault := w'\<rparr>" "op_path op" RuntimeErr] w' by auto
    with inv create show ?thesis
      by (simp add: undo_one_def act_simps on_vault_def seq_def)
  qed (use inv w' in \<open>simp_all add: undo_one_def seq_def on_vault_def ret_def\<close>)
qed

lemma rollback_undoes:
  assumes "steps ops a (abs (rs_vault s))" "ok (rs_vault s)" "list_all (planned digest usable) ops"
  shows "\<exists>restored' s'. rollback_loop V (rev (map (\<lambda>op. (op, digest (op_new op))) ops)) restored s =
      (Inr (restored', None), s') \<and> ok (rs_vault s') \<and> abs (rs_vault s') = a"
  using assms
proof (induction ops arbitrary: s restored rule: rev_induct)
  case Nil
  then show ?case by (simp add: ret_def)
next
  case (snoc op ops)
  obtain a1 where steps: "steps ops a a1" and last: "stepped op a1 (abs (rs_vault s))"
    using snoc.prems(1) by (auto simp: steps_append)
  have planned: "planned digest usable op" "list_all (planned digest usable) ops"
    using snoc.prems(3) by simp_all
  obtain s1 where undo: "undo_one V op (digest (op_new op)) s = (Inr (), s1)" "ok (rs_vault s1)"
      "abs (rs_vault s1) = a1"
    using undo_one_inverts [OF planned(1) last snoc.prems(2)] by blast
  then show ?case
    using snoc.IH [of s1] steps planned(2) by (simp add: try_else_def Let_def)
qed

text \<open>Steps at other paths leave what a later operation captured alone.\<close>

lemma captured_frame:
  assumes "same_but S l l'" "op_origin op \<notin> S" "captured digest l op"
  shows "captured digest l' op"
proof (cases "l' (op_origin op)")
  case (Inr d)
  then have "l (op_origin op) = Inr d" using same_butD [OF assms(1,2)] by simp
  with assms(3) Inr show ?thesis by (simp add: captured_def)
qed (simp add: captured_def)

lemma origin_in_paths: "op_origin op \<in> set (op_paths op)"
  by (simp add: op_origin_def op_paths_def)

lemma path_in_paths: "op_path op \<in> set (op_paths op)"
  by (simp add: op_paths_def)

text \<open>The executor's loop: a chain of steps, complete exactly when nothing was raised.\<close>

lemma run_operations_steps:
  assumes "list_all (planned digest usable) ops" "distinct (concat (map op_paths ops))"
    and "list_all (captured digest (look (abs (rs_vault s)))) ops" "ok (rs_vault s)"
    and "run_operations L V ops n ex s = (r, s')"
  shows "\<exists>applied rest f. ops = applied @ rest \<and>
    r = Inr (ex @ map (\<lambda>op. (op, digest (op_new op))) applied, f) \<and> ok (rs_vault s') \<and>
    steps applied (abs (rs_vault s)) (abs (rs_vault s')) \<and> (f = None \<longleftrightarrow> rest = [])"
  using assms
proof (induction ops arbitrary: n ex s)
  case Nil
  then show ?case by (auto simp: ret_def)
next
  case (Cons op ops)
  obtain q1 s1 where rec: "record_operation L n op s = (q1, s1)" by fastforce
  have v1: "rs_vault s1 = rs_vault s" by (rule keepsD [OF record_keeps_vault refl rec])
  have stop: ?case if "r = Inr (ex, Some e)" "ok (rs_vault s')" "abs (rs_vault s') = abs (rs_vault s)" for e
    using that by (intro exI [of _ "[]"] exI [of _ "op # ops"] exI [of _ "Some e"]) simp
  show ?case
  proof (cases q1)
    case (Inl e)
    with Cons.prems(4,5) rec v1 show ?thesis
      by (intro stop [of e]) (auto simp: try_else_def seq_def ret_def)
  next
    case r1: (Inr entry)
    obtain q2 s2 where app: "apply_operation V op s1 = (q2, s2)" by fastforce
    have step: "ok (rs_vault s2) \<and>
      (case q2 of Inl e \<Rightarrow> abs (rs_vault s2) = abs (rs_vault s)
       | Inr x \<Rightarrow> stepped op (abs (rs_vault s)) (abs (rs_vault s2)) \<and> resp_sha256 x = Some (digest (op_new op)))"
      using apply_step [OF _ _ _ app, unfolded v1] Cons.prems(1,3,4) by simp
    show ?thesis
    proof (cases q2)
      case (Inl e)
      with Cons.prems(5) rec r1 app step show ?thesis
        by (intro stop [of e]) (auto simp: try_else_def seq_def ret_def)
    next
      case (Inr x)
      have stepped: "stepped op (abs (rs_vault s)) (abs (rs_vault s2))" and ok2: "ok (rs_vault s2)"
        and hash: "after_hash_of L op x = Inr (digest (op_new op))"
        using step Inr by (auto simp: after_hash_of_def digest_nonempty)
      have rest: "run_operations L V ops (Suc n) (ex @ [(op, digest (op_new op))]) s2 = (r, s')"
        using Cons.prems(5) rec r1 app Inr hash by (simp add: try_else_def seq_def lift_def)
      have frame: "same_but (set (op_paths op)) (look (abs (rs_vault s))) (look (abs (rs_vault s2)))"
        using stepped by (simp add: stepped_def)
      have "captured digest (look (abs (rs_vault s2))) op'" if "op' \<in> set ops" for op'
      proof (rule captured_frame [OF frame])
        show "op_origin op' \<notin> set (op_paths op)"
          using Cons.prems(2) that origin_in_paths [of op'] by auto
        show "captured digest (look (abs (rs_vault s))) op'"
          using Cons.prems(3) that by (simp add: list_all_iff)
      qed
      then have "\<exists>applied rest f. ops = applied @ rest \<and>
        r = Inr ((ex @ [(op, digest (op_new op))]) @ map (\<lambda>op. (op, digest (op_new op))) applied, f) \<and>
        ok (rs_vault s') \<and> steps applied (abs (rs_vault s2)) (abs (rs_vault s')) \<and> (f = None \<longleftrightarrow> rest = [])"
        using Cons.prems(1,2) ok2 rest by (intro Cons.IH) (simp_all add: list_all_iff)
      then obtain applied rest f where "ops = applied @ rest"
        "r = Inr (ex @ map (\<lambda>op. (op, digest (op_new op))) (op # applied), f)"
        "ok (rs_vault s')" "steps applied (abs (rs_vault s2)) (abs (rs_vault s'))" "f = None \<longleftrightarrow> rest = []"
        by auto
      with stepped show ?thesis
        by (intro exI [of _ "op # applied"] exI [of _ rest] exI [of _ f]) auto
    qed
  qed
qed

text \<open>What each file holds after a chain of steps on distinct paths.\<close>

lemma steps_frame: "steps ops a a' \<Longrightarrow> same_but (set (concat (map op_paths ops))) (look a) (look a')"
proof (induction ops arbitrary: a)
  case (Cons op ops)
  then obtain a1 where "same_but (set (op_paths op)) (look a) (look a1)"
      "same_but (set (concat (map op_paths ops))) (look a1) (look a')"
    by (auto simp: stepped_def)
  from same_but_trans [OF this] show ?case by simp
qed simp

lemma steps_look:
  assumes "steps ops a a'" "distinct (concat (map op_paths ops))" "op \<in> set ops"
  shows "look a' (op_path op) = Inr (op_new op)"
  using assms
proof (induction ops arbitrary: a)
  case (Cons o1 ops)
  then obtain a1 where a1: "stepped o1 a a1" "steps ops a1 a'" by auto
  show ?case
  proof (cases "op \<in> set ops")
    case True
    with Cons.IH [OF a1(2)] Cons.prems(2) show ?thesis by simp
  next
    case False
    then have "op = o1" using Cons.prems(3) by simp
    moreover have "op_path o1 \<notin> set (concat (map op_paths ops))"
      using Cons.prems(2) path_in_paths [of o1] by auto
    ultimately show ?thesis
      using same_butD [OF steps_frame [OF a1(2)]] a1(1) by (simp add: stepped_def)
  qed
qed simp

text \<open>
  All or nothing, for every history and every failure of it: either every operation was applied,
  or the vault is what it was. A rollback never fails.
\<close>

lemma mark_ends:
  assumes "seq (mark st) (\<lambda>_. ret x) s = (r, s')"
  shows "rs_vault s' = rs_vault s \<and> (\<forall>y. r = Inr y \<longrightarrow> y = x)"
  using assms keepsD [OF mark_keeps_vault [where w = "rs_vault s" and st = st] refl]
  by (auto simp: seq_def ret_def split: prod.splits sum.splits)

lemma execute_all_or_nothing:
  assumes plan: "list_all (planned digest usable) ops" and paths: "distinct (concat (map op_paths ops))"
    and capt: "list_all (captured digest (look (abs (rs_vault s)))) ops" and ok: "ok (rs_vault s)"
    and run: "execute L V m j ops s = (r, s')"
  shows "ok (rs_vault s') \<and>
    (steps ops (abs (rs_vault s)) (abs (rs_vault s')) \<and> (\<forall>x. r = Inr x \<longrightarrow> rec_status x = COMMITTED) \<or>
     abs (rs_vault s') = abs (rs_vault s) \<and> (\<forall>x. r = Inr x \<longrightarrow> rec_status x \<in> {CONFLICT, ROLLED_BACK}))"
proof -
  let ?s0 = "start_journal j m s"
  have v0: "rs_vault ?s0 = rs_vault s" by (simp add: start_journal_def)
  obtain q s1 where loop: "run_operations L V ops 0 [] ?s0 = (q, s1)" by fastforce
  obtain applied rest f where ran: "ops = applied @ rest"
      "q = Inr (map (\<lambda>op. (op, digest (op_new op))) applied, f)" "ok (rs_vault s1)"
      "steps applied (abs (rs_vault s)) (abs (rs_vault s1))" "f = None \<longleftrightarrow> rest = []"
    using run_operations_steps [OF plan paths _ _ loop] capt ok v0 by auto
  show ?thesis
  proof (cases f)
    case None
    then have "seq (mark JApplied) (\<lambda>_. ret (result_of j COMMITTED)) s1 = (r, s')"
      using run loop ran(2) by (simp add: execute_def seq_def modify_def)
    from mark_ends [OF this] ran None show ?thesis by (auto simp: result_of_def)
  next
    case (Some e)
    show ?thesis
    proof (cases applied)
      case Nil
      then have "seq (mark JPending) (\<lambda>_. ret ((result_of j CONFLICT)\<lparr>rec_error := Some (ConflictBeforeWrite e)\<rparr>)) s1 = (r, s')"
        using run loop ran(2) Some by (simp add: execute_def seq_def modify_def)
      from mark_ends [OF this] ran Nil show ?thesis by (auto simp: result_of_def)
    next
      case (Cons op0 ops0)
      then have roll: "rollback V j (map (\<lambda>op. (op, digest (op_new op))) applied) e s1 = (r, s')"
        using run loop ran(2) Some by (simp add: execute_def seq_def modify_def)
      have "list_all (planned digest usable) applied" using plan ran(1) by simp
      from rollback_undoes [OF ran(4,3) this, of "[]"] obtain restored s2 where
        s2: "rollback_loop V (rev (map (\<lambda>op. (op, digest (op_new op))) applied)) [] s1 = (Inr (restored, None), s2)"
          "ok (rs_vault s2)" "abs (rs_vault s2) = abs (rs_vault s)"
        by blast
      have "seq (mark JRolledBack) (\<lambda>_. ret \<lparr>rec_job_id = j, rec_status = ROLLED_BACK, rec_restored = restored,
              rec_conflict_paths = [], rec_error = Some (TransactionFailed e)\<rparr>) s2 = (r, s')"
        using roll by (simp only: rollback_def seq_Inr [where m = "rollback_loop V _ []", OF s2(1)] prod.case option.case)
      from mark_ends [OF this] s2 show ?thesis by auto
    qed
  qed
qed

end

end
