(* ===== verification/RecoveryUndo.thy ===== *)
theory RecoveryUndo imports RecoveryProofs begin

text \<open>
  The durable side of recovery: what the executor leaves in the journal, and that undo and explicit
  recovery, which only see that journal and the vault, restore the vault from it.
\<close>

section \<open>Journal rows of planned operations\<close>

lemma decode_encode: "decode (map_option b64_encode (Some b)) = Inr b"
proof (cases b)
  case (Cons x xs)
  then have "b64_encode b \<noteq> []" by (cases xs; cases "tl xs") (auto simp: Let_def)
  then show ?thesis by (simp add: decode_def b64_decode_encode)
qed (simp add: decode_def)

text \<open>\<open>e\<close> is a journal row of \<open>op\<close>, in whatever state, and it passed validation.\<close>

definition entry_for :: "pylib \<Rightarrow> pystr \<Rightarrow> transaction_operation \<Rightarrow> journal_entry \<Rightarrow> bool" where
  "entry_for L j op e \<longleftrightarrow> (\<exists>n st. e = (entry_of L j n op)\<lparr>je_state := st\<rparr> \<and>
     validate_entry (entry_of L j n op) = Inr (entry_of L j n op))"

lemma validate_entry_Inr: "validate_entry e = Inr e' \<longleftrightarrow> e' = e \<and>
    1 \<le> length (je_job_id e) \<and> length (je_job_id e) \<le> 128 \<and> length (je_path e) \<le> 4096 \<and>
    (case je_before_base64 e of None \<Rightarrow> True | Some v \<Rightarrow> length v \<le> MAX_JOURNAL_BASE64)"
  by (auto simp: validate_entry_def)

lemma entry_for_fields:
  assumes "entry_for L j op e" "planned (sha256_bytes L) usable op"
  shows "je_job_id e = j" "je_path e = op_path op" "je_operation e = op_operation op"
    "je_after_hash e = Some (sha256_bytes L (op_new op))" "je_before_hash e = op_before_hash op"
    "je_before_base64 e = map_option b64_encode (op_before_bytes op)"
    "inv_source (je_inverse e) = (if op_operation op = OpMove then op_source op else None)"
    "1 \<le> length j" "length j \<le> 128" "length (op_path op) \<le> 4096"
    "executable_entry e"
  using assms(2,1)
  by (cases rule: planned_cases;
      auto simp: entry_for_def entry_of_def encode_def validate_entry_Inr executable_entry_def)+

text \<open>The rows for a list of operations, numbered from \<open>n\<close>.\<close>

fun entries_from :: "pylib \<Rightarrow> pystr \<Rightarrow> nat \<Rightarrow> transaction_operation list \<Rightarrow> journal_entry list" where
  "entries_from L j n [] = []"
| "entries_from L j n (op # ops) = entry_of L j n op # entries_from L j (Suc n) ops"

lemma length_entries_from [simp]: "length (entries_from L j n ops) = length ops"
  by (induction ops arbitrary: n) simp_all

section \<open>What the executor writes to the journal\<close>

text \<open>
  A job in progress: its history works, its rows are numbered from 0 and the journal object belongs
  to it.
\<close>

definition recording :: "pystr \<Rightarrow> history_record list \<Rightarrow> journal_entry list \<Rightarrow> 'w rstate \<Rightarrow> bool" where
  "recording j jobs rows s \<longleftrightarrow> rj_job_id (rs_journal s) = j \<and>
     (\<exists>h. rs_history s = Some h \<and> calm j h \<and> history_wf h \<and> job_rows h = jobs \<and>
        journal_rows h j = rows \<and> map je_seq rows = [0..<length rows])"

lemma record_operation_rows:
  assumes rec: "recording j jobs rows s" and run: "record_operation L (length rows) op s = (Inr e, s')"
  shows "e = entry_of L j (length rows) op \<and> validate_entry e = Inr e \<and> recording j jobs (rows @ [e]) s'"
proof -
  obtain h where h: "rj_job_id (rs_journal s) = j" "rs_history s = Some h" "calm j h" "history_wf h"
      "job_rows h = jobs" "journal_rows h j = rows" "map je_seq rows = [0..<length rows]"
    using rec unfolding recording_def by blast
  let ?e = "entry_of L j (length rows) op"
  have fields: "je_job_id ?e = j" "je_seq ?e = length rows" by (simp_all add: entry_of_def)
  obtain h1 where app: "h_append_journal ?e h = (Inr (), h1)" "calm j h1" "job_rows h1 = job_rows h"
    using calm_append [OF h(3) fields(1)] by blast
  have next_row: "journal_rows h1 j = rows @ [?e]"
    using service_journal.append_next(1) [OF h(4) app(1)] h(6,7) fields by simp
  have wf1: "history_wf h1" using service_journal.append_inv [OF h(4) app(1)] .
  have valid: "validate_entry ?e = Inr ?e"
    using run h(1) by (auto simp: record_operation_def make_entry_def validate_entry_Inr seq_def
        reading_def lift_def split: sum.splits)
  from run h(1,2) valid app(1) have out: "e = ?e \<and> rs_history s' = Some h1 \<and> rj_job_id (rs_journal s') = j"
    by (auto simp: record_operation_def record_entry_def make_entry_def seq_def reading_def lift_def
        modify_def raise_def ret_def on_history_def add_bytes_def add_pending_def split: if_splits)
  with valid app wf1 next_row h(5,7) fields show ?thesis
    unfolding recording_def by auto
qed

lemma recording_vault [simp]: "recording j jobs rows (s\<lparr>rs_vault := w\<rparr>) = recording j jobs rows s"
  by (simp add: recording_def)

lemma apply_keeps_recording: "keeps (recording j jobs rows) (apply_operation V op)"
proof -
  have "keeps (recording j jobs rows) (on_vault m)" for m :: "('a, vault_error, 'b) act"
    by (auto simp: keeps_def on_vault_def split: prod.splits sum.splits)
  then show ?thesis
    unfolding apply_operation_def by (auto split: journal_operation.split option.split)
qed

lemma run_operations_rows:
  assumes "recording j jobs rows s" and "run_operations L V ops (length rows) ex s = (Inr (ex', None), s')"
  shows "recording j jobs (rows @ entries_from L j (length rows) ops) s' \<and>
    list_all (\<lambda>e. validate_entry e = Inr e) (entries_from L j (length rows) ops)"
  using assms
proof (induction ops arbitrary: rows ex s)
  case Nil
  then show ?case by (simp add: ret_def)
next
  case (Cons op ops)
  from Cons.prems(2) obtain e s1 x s2 h where
    rec: "record_operation L (length rows) op s = (Inr e, s1)" and
    app: "apply_operation V op s1 = (Inr x, s2)" and
    rest: "run_operations L V ops (Suc (length rows)) (ex @ [(op, h)]) s2 = (Inr (ex', None), s')"
    by (auto simp: try_else_def seq_def lift_def ret_def split: prod.splits sum.splits)
  note row = record_operation_rows [OF Cons.prems(1) rec]
  have "recording j jobs (rows @ [e]) s2"
    using keepsD [OF apply_keeps_recording _ app] row by blast
  from Cons.IH [OF this, of "ex @ [(op, h)]"] rest row show ?case by auto
qed

lemma entries_for:
  assumes "list_all (\<lambda>e. validate_entry e = Inr e) (entries_from L j n ops)"
  shows "list_all2 (entry_for L j) ops (map (\<lambda>e. e\<lparr>je_state := st\<rparr>) (entries_from L j n ops))"
  using assms by (induction ops arbitrary: n) (auto simp: entry_for_def)

section \<open>Restoring from the journal\<close>

text \<open>The history works and its jobs are the given ones.\<close>

definition served :: "pystr \<Rightarrow> history_record list \<Rightarrow> 'w rstate \<Rightarrow> bool" where
  "served j jobs s \<longleftrightarrow> (\<exists>h. rs_history s = Some h \<and> calm j h \<and> job_rows h = jobs)"

lemma served_vault [simp]: "served j jobs (s\<lparr>rs_vault := w\<rparr>) = served j jobs s"
  by (simp add: served_def)

lemma append_audit_runs:
  assumes "served j jobs s" "1 \<le> length j" "length j \<le> 128" "length p \<le> 4096"
  shows "\<exists>s1. append_audit j n p x s = (Inr (), s1) \<and> served j jobs s1 \<and> rs_vault s1 = rs_vault s"
proof -
  obtain h where h: "rs_history s = Some h" "calm j h" "job_rows h = jobs"
    using assms(1) unfolding served_def by blast
  let ?e = "audit_entry j n p x"
  have "je_job_id ?e = j" by (simp add: audit_entry_def)
  from calm_append [OF h(2) this] obtain h1 where
    "h_append_journal ?e h = (Inr (), h1)" "calm j h1" "job_rows h1 = job_rows h" by blast
  moreover have "validate_entry ?e = Inr ?e"
    using assms(2-4) by (simp add: validate_entry_Inr audit_entry_def)
  ultimately show ?thesis
    using h by (simp add: append_audit_def seq_def reading_def lift_def on_history_def served_def)
qed

context transaction_vault
begin

lemma read_present:
  assumes "ok (rs_vault s)" "look (abs (rs_vault s)) p = Inr d"
  shows "\<exists>w. on_vault (vop_read V p) s = (Inr (d, digest d), s\<lparr>rs_vault := w\<rparr>) \<and> ok w \<and>
    abs w = abs (rs_vault s)"
proof -
  obtain w where "vop_read V p (rs_vault s) = (rbind (look (abs (rs_vault s)) p) (\<lambda>d. Inr (d, digest d)), w)"
      "ok w" "abs w = abs (rs_vault s)"
    using store_read_runs [OF assms(1)] by blast
  with assms(2) show ?thesis by (intro exI [of _ w]) (simp add: on_vault_def)
qed

lemma require_current_runs:
  assumes "ok (rs_vault s)" "look (abs (rs_vault s)) p = Inr d"
  shows "\<exists>w. require_current V p (Some (digest d)) s = (Inr (), s\<lparr>rs_vault := w\<rparr>) \<and> ok w \<and>
    abs w = abs (rs_vault s)"
  using read_present [OF assms] by (auto simp: require_current_def try_else_def ret_def)

lemma restore_one_inverts:
  assumes planned: "planned digest usable op" and step: "stepped op a (abs (rs_vault s))"
    and ok: "ok (rs_vault s)" and e: "entry_for L j op e" and served: "served j jobs s"
  shows "\<exists>s1. restore_one V j n e s = (Inr (), s1) \<and> ok (rs_vault s1) \<and> abs (rs_vault s1) = a \<and>
    served j jobs s1"
proof -
  note f = entry_for_fields [OF e planned]
  have "look (abs (rs_vault s)) (op_path op) = Inr (op_new op)"
    using step by (simp add: stepped_def)
  from require_current_runs [OF ok this] obtain w where
    w: "require_current V (op_path op) (Some (digest (op_new op))) s = (Inr (), s\<lparr>rs_vault := w\<rparr>)"
      "ok w" "abs w = abs (rs_vault s)" by blast
  obtain y w' where inv: "case op_operation op of
        OpCreate \<Rightarrow> vop_delete V (op_path op) (Some (digest (op_new op))) w = (Inr y, w')
      | OpUpdate \<Rightarrow> vop_write V (op_path op) (op_old op) (Some (digest (op_new op))) w = (Inr y, w') \<and>
          resp_sha256 y = op_before_hash op
      | OpMove \<Rightarrow> vop_move V (op_path op) (op_from op) (Some (digest (op_new op))) w = (Inr y, w') \<and>
          resp_sha256 y = op_before_hash op
      | OpUndo \<Rightarrow> False" and w': "ok w'" "abs w' = a"
    using step w unfolding stepped_def inverted_def by metis
  have audit: "\<exists>s1. append_audit j n p x s0 = (Inr (), s1) \<and> served j jobs s1 \<and> rs_vault s1 = w'"
    if "served j jobs s0" "rs_vault s0 = w'" "length p \<le> 4096" for p x s0
    using append_audit_runs [OF that(1) f(8,9) that(3)] that(2) by blast
  from planned show ?thesis
  proof (cases rule: planned_cases)
    case (create d)
    have "missing (look a (op_path op))" using step create by (simp add: stepped_def)
    then obtain s2 where s2: "assert_absent V (ConflictExc (op_path op)) (op_path op) (s\<lparr>rs_vault := w'\<rparr>) = (Inr (), s2)"
        "ok (rs_vault s2)" "abs (rs_vault s2) = a" "rs_history s2 = rs_history s"
      using assert_absent_runs [of "s\<lparr>rs_vault := w'\<rparr>" "op_path op" "ConflictExc (op_path op)"] w' by auto
    have "served j jobs s2" using served s2(4) by (simp add: served_def)
    then obtain s3 where "append_audit j n (op_path op) None s2 = (Inr (), s3)" "served j jobs s3"
        "rs_vault s3 = rs_vault s2"
      using append_audit_runs [OF _ f(8-10)] by blast
    with s2 inv w(1) create f show ?thesis
      by (simp add: restore_one_def seq_def on_vault_def)
  next
    case (update b d)
    from audit [of "s\<lparr>rs_vault := w'\<rparr>" "op_path op" "op_before_hash op"] served f(10) obtain s3 where
      "append_audit j n (op_path op) (op_before_hash op) (s\<lparr>rs_vault := w'\<rparr>) = (Inr (), s3)"
      "served j jobs s3" "rs_vault s3 = w'" by auto
    moreover have "decode (je_before_base64 e) = Inr b" using f(6) update decode_encode by simp
    ultimately show ?thesis
      using inv w(1) w' update f by (simp add: restore_one_def seq_def on_vault_def lift_def)
  next
    case (move b src)
    from audit [of "s\<lparr>rs_vault := w'\<rparr>" src "op_before_hash op"] served move(6) obtain s3 where
      "append_audit j n src (op_before_hash op) (s\<lparr>rs_vault := w'\<rparr>) = (Inr (), s3)"
      "served j jobs s3" "rs_vault s3 = w'" by auto
    then show ?thesis
      using inv w(1) w' move f by (simp add: restore_one_def seq_def on_vault_def Let_def)
  qed
qed

lemma undo_loop_undoes:
  assumes "list_all2 (entry_for L j) ops es" "steps ops a (abs (rs_vault s))" "ok (rs_vault s)"
    and "list_all (planned digest usable) ops" "served j jobs s"
  shows "\<exists>restored' s'. undo_loop V j (rev es) restored n s = (Inr (restored', None), s') \<and>
    ok (rs_vault s') \<and> abs (rs_vault s') = a \<and> served j jobs s'"
  using assms
proof (induction ops arbitrary: es s restored n rule: rev_induct)
  case Nil
  then show ?case by (simp add: ret_def)
next
  case (snoc op ops)
  obtain es1 e where es: "es = es1 @ [e]" "list_all2 (entry_for L j) ops es1" "entry_for L j op e"
    using snoc.prems(1) by (auto simp: list_all2_append1 list_all2_Cons1)
  obtain a1 where steps: "steps ops a a1" and last: "stepped op a1 (abs (rs_vault s))"
    using snoc.prems(2) by (auto simp: steps_append)
  have planned: "planned digest usable op" "list_all (planned digest usable) ops"
    using snoc.prems(4) by simp_all
  obtain s1 where "restore_one V j n e s = (Inr (), s1)" "ok (rs_vault s1)"
      "abs (rs_vault s1) = a1" "served j jobs s1"
    using restore_one_inverts [OF planned(1) last snoc.prems(3) es(3) snoc.prems(5)] by blast
  then show ?case
    using snoc.IH [OF es(2), of s1] steps planned(2) es(1) by (simp add: try_else_def)
qed

lemma execute_committed:
  assumes "execute L V m j ops s = (Inr res, s')" and "rec_status res = COMMITTED"
  obtains ex s1 where "run_operations L V ops 0 [] (start_journal j m s) = (Inr (ex, None), s1)"
    and "mark JApplied s1 = (Inr (), s')"
proof -
  obtain q s1 where loop: "run_operations L V ops 0 [] (start_journal j m s) = (q, s1)" by fastforce
  from assms(1) loop obtain ex f where q: "q = Inr (ex, f)"
    by (cases q) (auto simp: execute_def seq_def modify_def)
  have rolled: "rec_status x \<noteq> COMMITTED" if "rollback V j ex e s1 = (Inr x, s'')" for e x s''
    using that by (auto simp: rollback_def seq_eq_Inr ret_def split: option.splits)
  show thesis
  proof (cases f)
    case None
    with assms(1) loop q that show thesis by (auto simp: execute_def seq_eq_Inr modify_def ret_def)
  next
    case (Some e)
    with assms loop q rolled show thesis
      by (auto simp: execute_def seq_eq_Inr modify_def ret_def result_of_def split: if_splits)
  qed
qed

lemma mark_rows:
  assumes "recording j jobs rows s" "j \<noteq> []"
  shows "\<exists>s' h'. mark st s = (Inr (), s') \<and> rs_vault s' = rs_vault s \<and> rs_history s' = Some h' \<and>
    calm j h' \<and> job_rows h' = jobs \<and> journal_rows h' j = map (\<lambda>e. e\<lparr>je_state := st\<rparr>) rows"
proof -
  obtain h where h: "rj_job_id (rs_journal s) = j" "rs_history s = Some h" "calm j h" "job_rows h = jobs"
      "journal_rows h j = rows"
    using assms(1) unfolding recording_def by blast
  from calm_set_state [OF h(3), of j st] obtain h' where
    "h_set_journal_state j st h = (Inr (), h')" "calm j h'" "job_rows h' = job_rows h"
    "journal_rows h' j = map (\<lambda>e. e\<lparr>je_state := st\<rparr>) (journal_rows h j)" by blast
  with h assms(2) show ?thesis by (simp add: mark_def seq_def reading_def on_history_def)
qed

lemma entries_executable:
  "list_all2 (entry_for L j) ops es \<Longrightarrow> list_all (planned digest usable) ops \<Longrightarrow> list_all executable_entry es"
  by (induction rule: list_all2_induct) (auto dest: entry_for_fields(11))

lemma executable_not_undo: "list_all executable_entry es \<Longrightarrow>
    filter executable_entry es = es \<and> \<not> list_ex (\<lambda>e. je_operation e = OpUndo) es"
  by (induction es) (auto simp: executable_entry_def)

lemma undo_from_journal:
  assumes h: "rs_history s = Some h" "calm j h" "journal_rows h j = es"
    and es: "list_all2 (entry_for L j) ops es" "ops \<noteq> []" "list_all (planned digest usable) ops"
    and vault: "steps ops a (abs (rs_vault s))" "ok (rs_vault s)"
  shows "\<exists>res s'. undo V j s = (Inr res, s') \<and> rec_status res = UNDONE \<and> ok (rs_vault s') \<and>
    abs (rs_vault s') = a"
proof -
  have ne: "es \<noteq> []" using es(1,2) by auto
  note run = executable_not_undo [OF entries_executable [OF es(1,3)]]
  have "served j (job_rows h) s" using h by (simp add: served_def)
  from undo_loop_undoes [OF es(1) vault es(3) this, of "[]" "next_seq es"] obtain restored s' where
    "undo_loop V j (rev es) [] (next_seq es) s = (Inr (restored, None), s')"
    "ok (rs_vault s')" "abs (rs_vault s') = a" by blast
  moreover have "on_history (h_journal j) [] s = (Inr es, s)"
    using h calm_journal [OF h(2), of j] by (simp add: on_history_def)
  ultimately show ?thesis
    using ne run by (simp add: undo_def seq_def ret_def result_of_def)
qed

lemma execute_then_undo:
  assumes plan: "list_all (planned digest usable) ops" "ops \<noteq> []" and paths: "distinct (concat (map op_paths ops))"
    and capt: "list_all (captured digest (look (abs (rs_vault s)))) ops" and ok: "ok (rs_vault s)"
    and h: "rs_history s = Some h" "calm j h" "history_wf h" "journal_rows h j = []"
    and run: "execute L V m j ops s = (Inr res, s1)" "rec_status res = COMMITTED"
    and later: "ok (rs_vault s2)" "abs (rs_vault s2) = abs (rs_vault s1)" "rs_history s2 = rs_history s1"
  shows "\<exists>res' s3. undo V j s2 = (Inr res', s3) \<and> rec_status res' = UNDONE \<and> ok (rs_vault s3) \<and>
    abs (rs_vault s3) = abs (rs_vault s)"
proof -
  let ?s0 = "start_journal j m s"
  have v0: "rs_vault ?s0 = rs_vault s" by (simp add: start_journal_def)
  have rec0: "recording j (job_rows h) [] ?s0"
    using h by (simp add: recording_def start_journal_def)
  obtain ex s' where loop: "run_operations L V ops 0 [] ?s0 = (Inr (ex, None), s')"
      and mark: "mark JApplied s' = (Inr (), s1)"
    using execute_committed [OF run] by blast
  have rows: "recording j (job_rows h) (entries_from L j 0 ops) s'"
      and valid: "list_all (\<lambda>e. validate_entry e = Inr e) (entries_from L j 0 ops)"
    using run_operations_rows [OF rec0, of L V ops "[]" ex s'] loop by simp_all
  have steps: "steps ops (abs (rs_vault s)) (abs (rs_vault s'))"
    using run_operations_steps [OF plan(1) paths _ _ loop] capt ok v0 by auto
  have "j \<noteq> []"
    using valid plan(2) by (cases ops) (auto simp: validate_entry_Inr entry_of_def)
  from mark_rows [OF rows this, of JApplied] mark obtain h1 where
    h1: "rs_vault s1 = rs_vault s'" "rs_history s1 = Some h1" "calm j h1"
      "journal_rows h1 j = map (\<lambda>e. e\<lparr>je_state := JApplied\<rparr>) (entries_from L j 0 ops)"
    by auto
  show ?thesis
    using undo_from_journal [OF _ h1(3,4) entries_for [OF valid] plan(2,1), of s2 "abs (rs_vault s)"]
      h1(1,2) later steps by simp
qed

end

end
