(* ===== verification/RecoveryCrash.thy ===== *)
theory RecoveryCrash imports RecoveryUndo begin

text \<open>
  Explicit recovery after a crash. The process died somewhere between two vault operations: the
  journal has one row per applied operation, perhaps one more for an operation that never ran.
  \<open>rollback_if_safe\<close>, from the durable rows alone, takes the vault back to where the job started.
\<close>

text \<open>An operation that did not run: its files are as the planner saw them.\<close>

definition untouched :: "(pystr \<Rightarrow> vault_error + bytes) \<Rightarrow> transaction_operation \<Rightarrow> bool" where
  "untouched look op \<longleftrightarrow>
     (if op_operation op = OpUpdate then look (op_path op) = Inr (op_old op)
      else missing (look (op_path op)))"

context transaction_vault
begin

lemma current_hash_runs:
  assumes "ok (rs_vault s)"
  shows "\<exists>w. ok w \<and> abs w = abs (rs_vault s) \<and>
    (\<forall>d. look (abs (rs_vault s)) p = Inr d \<longrightarrow>
       current_hash V p s = (Inr (Some (digest d)), s\<lparr>rs_vault := w\<rparr>)) \<and>
    (missing (look (abs (rs_vault s)) p) \<longrightarrow> current_hash V p s = (Inr None, s\<lparr>rs_vault := w\<rparr>)) \<and>
    (\<forall>e. look (abs (rs_vault s)) p = Inl e \<and> \<not> code_not_found e \<longrightarrow>
       current_hash V p s = (Inl (VaultExc e), s\<lparr>rs_vault := w\<rparr>))"
proof -
  obtain w where w: "vop_read V p (rs_vault s) = (rbind (look (abs (rs_vault s)) p) (\<lambda>d. Inr (d, digest d)), w)"
      "ok w" "abs w = abs (rs_vault s)"
    using store_read_runs [OF assms] by blast
  then show ?thesis
    by (intro exI [of _ w])
      (cases "look (abs (rs_vault s)) p"; simp add: current_hash_def try_else_def on_vault_def ret_def raise_def)
qed

text \<open>Pass 1 finds every applied operation.\<close>

lemma classify_applied:
  assumes "list_all2 (entry_for L j) ops es" "list_all (planned digest usable) ops" "ok (rs_vault s)"
    and "\<forall>op \<in> set ops. look (abs (rs_vault s)) (op_path op) = Inr (op_new op)"
  shows "\<exists>w. ok w \<and> abs w = abs (rs_vault s) \<and>
    classify V (es @ rest) ap cf s =
      classify V rest (ap @ map (\<lambda>e. (e, the (je_after_hash e))) es) cf (s\<lparr>rs_vault := w\<rparr>)"
  using assms
proof (induction ops arbitrary: es ap s)
  case Nil
  then show ?case by (intro exI [of _ "rs_vault s"]) simp
next
  case (Cons op ops)
  obtain e es1 where es: "es = e # es1" "entry_for L j op e" "list_all2 (entry_for L j) ops es1"
    using Cons.prems(1) by (auto simp: list_all2_Cons1)
  note f = entry_for_fields [OF es(2), of usable]
  have planned: "planned digest usable op" using Cons.prems(2) by simp
  obtain w where w: "ok w" "abs w = abs (rs_vault s)"
      "current_hash V (op_path op) s = (Inr (Some (digest (op_new op))), s\<lparr>rs_vault := w\<rparr>)"
    using current_hash_runs [OF Cons.prems(3), of "op_path op"] Cons.prems(4) by auto
  obtain w' where "ok w'" "abs w' = abs w" "classify V (es1 @ rest) (ap @ [(e, digest (op_new op))]) cf (s\<lparr>rs_vault := w\<rparr>) =
      classify V rest ((ap @ [(e, digest (op_new op))]) @ map (\<lambda>e. (e, the (je_after_hash e))) es1) cf (s\<lparr>rs_vault := w'\<rparr>)"
    using Cons.IH [where s = "s\<lparr>rs_vault := w\<rparr>" and ap = "ap @ [(e, digest (op_new op))]", OF es(3)]
      Cons.prems(2,4) w by auto
  with w f(2,4) [OF planned] es(1) show ?case
    by (intro exI [of _ w']) (simp add: try_else_def)
qed

lemma restore_entry_inverts:
  assumes planned: "planned digest usable op" and step: "stepped op a (abs (rs_vault s))"
    and ok: "ok (rs_vault s)" and e: "entry_for L j op e"
  shows "\<exists>s1. restore_entry V e (digest (op_new op)) s = (Inr (), s1) \<and> ok (rs_vault s1) \<and>
    abs (rs_vault s1) = a \<and> rs_history s1 = rs_history s"
proof -
  note f = entry_for_fields [OF e planned]
  obtain y w' where inv: "case op_operation op of
        OpCreate \<Rightarrow> vop_delete V (op_path op) (Some (digest (op_new op))) (rs_vault s) = (Inr y, w')
      | OpUpdate \<Rightarrow> vop_write V (op_path op) (op_old op) (Some (digest (op_new op))) (rs_vault s) = (Inr y, w') \<and>
          resp_sha256 y = op_before_hash op
      | OpMove \<Rightarrow> vop_move V (op_path op) (op_from op) (Some (digest (op_new op))) (rs_vault s) = (Inr y, w') \<and>
          resp_sha256 y = op_before_hash op
      | OpUndo \<Rightarrow> False" and w': "ok w'" "abs w' = a"
    using step ok unfolding stepped_def inverted_def by blast
  from planned show ?thesis
  proof (cases rule: planned_cases)
    case (create d)
    have "missing (look a (op_path op))" using step create by (simp add: stepped_def)
    then obtain s2 where "assert_absent V RuntimeErr (op_path op) (s\<lparr>rs_vault := w'\<rparr>) = (Inr (), s2)"
        "ok (rs_vault s2)" "abs (rs_vault s2) = a" "rs_history s2 = rs_history s"
      using assert_absent_runs [of "s\<lparr>rs_vault := w'\<rparr>" "op_path op" RuntimeErr] w' by auto
    with inv create f show ?thesis by (simp add: restore_entry_def seq_def on_vault_def)
  next
    case (update b d)
    have "decode (je_before_base64 e) = Inr b" using f(6) update decode_encode by simp
    with inv w' update f show ?thesis
      by (simp add: restore_entry_def seq_def on_vault_def lift_def ret_def)
  next
    case (move b src)
    with inv w' f show ?thesis
      by (simp add: restore_entry_def seq_def on_vault_def ret_def)
  qed
qed

lemma restore_loop_undoes:
  assumes "list_all2 (entry_for L j) ops es" "steps ops a (abs (rs_vault s))" "ok (rs_vault s)"
    and "list_all (planned digest usable) ops" "served j jobs s"
  shows "\<exists>restored' s'. restore_loop V j (rev (map (\<lambda>e. (e, the (je_after_hash e))) es)) restored n s =
      (Inr (restored', None), s') \<and> ok (rs_vault s') \<and> abs (rs_vault s') = a \<and> served j jobs s'"
  using assms
proof (induction ops arbitrary: es s restored n rule: rev_induct)
  case Nil
  then show ?case by (simp add: ret_def)
next
  case (snoc op ops)
  obtain es1 e where es: "es = es1 @ [e]" "list_all2 (entry_for L j) ops es1" "entry_for L j op e"
    using snoc.prems(1) by (auto simp: list_all2_append1 list_all2_Cons1)
  obtain a1 where steps: "steps ops a a1" and last: "stepped op a1 (abs (rs_vault s))"
    using snoc.prems(2) by (auto simp: steps_append)
  have planned: "planned digest usable op" "list_all (planned digest usable) ops"
    using snoc.prems(4) by simp_all
  note f = entry_for_fields [OF es(3) planned(1)]
  obtain s1 where s1: "restore_entry V e (digest (op_new op)) s = (Inr (), s1)" "ok (rs_vault s1)"
      "abs (rs_vault s1) = a1" "rs_history s1 = rs_history s"
    using restore_entry_inverts [OF planned(1) last snoc.prems(3) es(3)] by blast
  have "served j jobs s1" using snoc.prems(5) s1(4) by (simp add: served_def)
  from append_audit_runs [OF this f(8-10), of n "op_before_hash op"] obtain s2 where
    s2: "append_audit j n (op_path op) (op_before_hash op) s1 = (Inr (), s2)" "served j jobs s2"
      "rs_vault s2 = rs_vault s1" by blast
  with snoc.IH [OF es(2), of s2] steps s1 planned(2) es(1) f show ?case
    by (simp add: try_else_def seq_def Let_def)
qed

text \<open>A pending row is skipped, or rewrites the bytes that are there.\<close>

lemma pending_restore:
  assumes planned: "planned digest usable op" and e: "entry_for L j op e" and ok: "ok (rs_vault s)"
    and untouched: "untouched (look (abs (rs_vault s))) op" and served: "served j jobs s"
  shows "(\<exists>w. classify V [e] ap cf s = (Inr (ap, cf), s\<lparr>rs_vault := w\<rparr>) \<and> ok w \<and> abs w = abs (rs_vault s)) \<or>
    (\<exists>w. classify V [e] ap cf s = (Inr (ap @ [(e, the (je_after_hash e))], cf), s\<lparr>rs_vault := w\<rparr>) \<and> ok w \<and>
      abs w = abs (rs_vault s) \<and>
      (\<forall>s'. ok (rs_vault s') \<and> abs (rs_vault s') = abs (rs_vault s) \<and> served j jobs s' \<longrightarrow>
        (\<exists>s1 restored1. restore_loop V j ((e, the (je_after_hash e)) # es) restored n s' =
             restore_loop V j es restored1 (Suc n) s1 \<and>
           ok (rs_vault s1) \<and> abs (rs_vault s1) = abs (rs_vault s) \<and> served j jobs s1)))"
proof -
  note f = entry_for_fields [OF e planned]
  obtain w where w: "ok w" "abs w = abs (rs_vault s)"
    and found: "\<And>d. look (abs (rs_vault s)) (op_path op) = Inr d \<Longrightarrow>
       current_hash V (op_path op) s = (Inr (Some (digest d)), s\<lparr>rs_vault := w\<rparr>)"
    and none: "missing (look (abs (rs_vault s)) (op_path op)) \<Longrightarrow>
       current_hash V (op_path op) s = (Inr None, s\<lparr>rs_vault := w\<rparr>)"
    using current_hash_runs [OF ok, of "op_path op"] by blast
  show ?thesis
  proof (cases "op_operation op = OpUpdate")
    case False
    then have "current_hash V (op_path op) s = (Inr None, s\<lparr>rs_vault := w\<rparr>)"
      using untouched none by (simp add: untouched_def)
    with w f show ?thesis
      by (intro disjI1 exI [of _ w]) (simp add: try_else_def ret_def)
  next
    case True
    with planned obtain b d where op: "op_operation op = OpUpdate" "usable (op_path op)" "op_after_bytes op = Some d"
        "op_before_bytes op = Some b" "op_before_hash op = Some (digest b)"
      by (cases rule: planned_cases) auto
    have look: "look (abs (rs_vault s)) (op_path op) = Inr b"
      using untouched op by (simp add: untouched_def)
    show ?thesis
    proof (cases "digest b = digest d")
      case False
      with found [OF look] w f op show ?thesis
        by (intro disjI1 exI [of _ w]) (simp add: try_else_def ret_def)
    next
      case same: True
      have base: "decode (je_before_base64 e) = Inr b" using f(6) op(4) decode_encode by simp
      have again: "\<exists>s1 restored1. restore_loop V j ((e, digest d) # es) restored n s' =
             restore_loop V j es restored1 (Suc n) s1 \<and>
           ok (rs_vault s1) \<and> abs (rs_vault s1) = abs (rs_vault s) \<and> served j jobs s1"
        if s': "ok (rs_vault s')" "abs (rs_vault s') = abs (rs_vault s)" "served j jobs s'" for s'
      proof -
        obtain y w1 where y: "vop_write V (op_path op) b (Some (digest d)) (rs_vault s') = (Inr y, w1)" "ok w1"
            "abs w1 = abs (rs_vault s')" "resp_sha256 y = Some (digest b)"
          using write_same [OF s'(1) op(2), of b] look s'(2) same by auto
        have "restore_entry V e (digest d) s' = (Inr (), s'\<lparr>rs_vault := w1\<rparr>)"
          using y base f op by (simp add: restore_entry_def seq_def lift_def on_vault_def ret_def)
        moreover obtain s2 where "append_audit j n (op_path op) (op_before_hash op) (s'\<lparr>rs_vault := w1\<rparr>) = (Inr (), s2)"
            "served j jobs s2" "rs_vault s2 = w1"
          using append_audit_runs [of j jobs "s'\<lparr>rs_vault := w1\<rparr>", OF _ f(8-10)] s'(3) by auto
        ultimately show ?thesis
          using y s' f op by (auto simp: try_else_def seq_def Let_def)
      qed
      from found [OF look] w f op same again show ?thesis
        by (intro disjI2 exI [of _ w]) (simp add: try_else_def ret_def)
    qed
  qed
qed

text \<open>Both passes together, with or without a pending row.\<close>

lemma passes:
  assumes es: "list_all2 (entry_for L j) ops es" and planned: "list_all (planned digest usable) ops"
    and paths: "distinct (concat (map op_paths ops))"
    and steps: "steps ops a (abs (rs_vault s))" and ok: "ok (rs_vault s)" and served: "served j jobs s"
    and pend: "pe = [] \<or> (\<exists>op e. pe = [e] \<and> planned digest usable op \<and> entry_for L j op e \<and>
      untouched (look (abs (rs_vault s))) op)"
  shows "\<exists>ap w. classify V (es @ pe) [] [] s = (Inr (ap, []), s\<lparr>rs_vault := w\<rparr>) \<and> ok w \<and>
    abs w = abs (rs_vault s) \<and>
    (\<forall>s'. ok (rs_vault s') \<and> abs (rs_vault s') = abs (rs_vault s) \<and> served j jobs s' \<longrightarrow>
       (\<exists>restored s''. restore_loop V j (rev ap) [] n s' = (Inr (restored, None), s'') \<and>
          ok (rs_vault s'') \<and> abs (rs_vault s'') = a \<and> served j jobs s''))"
proof -
  let ?ap = "map (\<lambda>e. (e, the (je_after_hash e))) es"
  obtain w where w: "ok w" "abs w = abs (rs_vault s)"
      "classify V (es @ pe) [] [] s = classify V pe ?ap [] (s\<lparr>rs_vault := w\<rparr>)"
    using classify_applied [OF es planned ok, of pe "[]" "[]"] steps_look [OF steps paths] by auto
  have restore: "\<exists>restored s''. restore_loop V j (rev ?ap) r0 n0 s' = (Inr (restored, None), s'') \<and>
          ok (rs_vault s'') \<and> abs (rs_vault s'') = a \<and> served j jobs s''"
    if "ok (rs_vault s')" "abs (rs_vault s') = abs (rs_vault s)" "served j jobs s'" for s' r0 n0
    using restore_loop_undoes [OF es _ that(1) planned that(3), of a r0 n0] steps that(2) by auto
  from pend show ?thesis
  proof (elim disjE exE conjE)
    assume "pe = []"
    with w restore show ?thesis by (intro exI [of _ ?ap] exI [of _ w]) (auto simp: ret_def)
  next
    fix op e
    assume e: "pe = [e]" "planned digest usable op" "entry_for L j op e"
      and u: "untouched (look (abs (rs_vault s))) op"
    let ?s = "s\<lparr>rs_vault := w\<rparr>"
    have ok': "ok (rs_vault ?s)" and u': "untouched (look (abs (rs_vault ?s))) op" and served': "served j jobs ?s"
      using w u served by simp_all
    from pending_restore [OF e(2,3) ok' u' served', where ap = ?ap and cf = "[]" and es = "rev ?ap" and
        restored = "[]" and n = n]
    show ?thesis
    proof (elim disjE exE conjE)
      fix w1
      assume "classify V [e] ?ap [] ?s = (Inr (?ap, []), ?s\<lparr>rs_vault := w1\<rparr>)" "ok w1"
        "abs w1 = abs (rs_vault ?s)"
      with w restore e(1) show ?thesis by (intro exI [of _ ?ap] exI [of _ w1]) auto
    next
      fix w1
      assume c: "classify V [e] ?ap [] ?s = (Inr (?ap @ [(e, the (je_after_hash e))], []), ?s\<lparr>rs_vault := w1\<rparr>)"
        "ok w1" "abs w1 = abs (rs_vault ?s)"
        and again: "\<forall>s'. ok (rs_vault s') \<and> abs (rs_vault s') = abs (rs_vault ?s) \<and> served j jobs s' \<longrightarrow>
        (\<exists>s1 restored1. restore_loop V j ((e, the (je_after_hash e)) # rev ?ap) [] n s' =
             restore_loop V j (rev ?ap) restored1 (Suc n) s1 \<and>
           ok (rs_vault s1) \<and> abs (rs_vault s1) = abs (rs_vault ?s) \<and> served j jobs s1)"
      have "\<exists>restored s''. restore_loop V j (rev (?ap @ [(e, the (je_after_hash e))])) [] n s' = (Inr (restored, None), s'') \<and>
          ok (rs_vault s'') \<and> abs (rs_vault s'') = a \<and> served j jobs s''"
        if s': "ok (rs_vault s')" "abs (rs_vault s') = abs (rs_vault s)" "served j jobs s'" for s'
      proof -
        obtain s1 restored1 where s1: "restore_loop V j ((e, the (je_after_hash e)) # rev ?ap) [] n s' =
             restore_loop V j (rev ?ap) restored1 (Suc n) s1"
           "ok (rs_vault s1)" "abs (rs_vault s1) = abs (rs_vault s)" "served j jobs s1"
          using again s' w(2) by auto
        from restore [OF s1(2-4), of restored1 "Suc n"] s1(1) show ?thesis by simp
      qed
      with c w e(1) show ?thesis
        by (intro exI [of _ "?ap @ [(e, the (je_after_hash e))]"] exI [of _ w1]) auto
    qed
  qed
qed

lemma set_state_runs:
  assumes "served j jobs s"
  shows "\<exists>s'. on_history (h_set_journal_state j st) () s = (Inr (), s') \<and> served j jobs s' \<and>
    rs_vault s' = rs_vault s"
proof -
  obtain h where h: "rs_history s = Some h" "calm j h" "job_rows h = jobs"
    using assms unfolding served_def by blast
  from calm_set_state [OF h(2), of j st] obtain h' where
    "h_set_journal_state j st h = (Inr (), h')" "calm j h'" "job_rows h' = job_rows h" by blast
  with h show ?thesis by (simp add: on_history_def served_def)
qed

lemma finish_runs:
  assumes "served j jobs s" "lookup_row hr_job_id j jobs = Some r"
  shows "\<exists>s' h' r'. finish_recovery_record j st code msg s = (Inr (), s') \<and> rs_vault s' = rs_vault s \<and>
    rs_history s' = Some h' \<and> lookup_row hr_job_id j (job_rows h') = Some r' \<and> hr_status r' = status_value st"
proof -
  obtain h where h: "rs_history s = Some h" "calm j h" "job_rows h = jobs"
    using assms(1) unfolding served_def by blast
  have key: "hr_job_id r = j" using lookup_row_key [OF assms(2)] by simp
  let ?r = "r\<lparr>hr_status := status_value st, hr_error := Some (code, msg)\<rparr>"
  from calm_save [OF h(2), of ?r] obtain h' where
    "h_save ?r h = (Inr ?r, h')" "job_rows h' = upsert hr_job_id ?r (job_rows h)" by blast
  with h assms(2) key calm_get [OF h(2), of j] show ?thesis
    by (simp add: finish_recovery_record_def seq_def on_history_def ret_def lookup_upsert)
qed

lemma rollback_restores:
  assumes es: "list_all2 (entry_for L j) ops es" and planned: "list_all (planned digest usable) ops"
    and paths: "distinct (concat (map op_paths ops))"
    and vault: "steps ops a (abs (rs_vault s))" "ok (rs_vault s)"
    and h: "rs_history s = Some h" "calm j h" "journal_rows h j = es @ pe"
    and pend: "pe = [] \<or> (\<exists>op e. pe = [e] \<and> planned digest usable op \<and> entry_for L j op e \<and>
      untouched (look (abs (rs_vault s))) op)"
    and states: "list_all (\<lambda>e. je_state e \<in> {JPending, JApplied}) (es @ pe)" and ne: "es @ pe \<noteq> []"
    and flagged: "lookup_row hr_job_id j (job_rows h) = Some r" "hr_status r \<in> set (map status_value flagged_states)"
  shows "\<exists>res s'. rollback_if_safe V j s = (Inr res, s') \<and> rec_status res = ROLLED_BACK \<and>
    ok (rs_vault s') \<and> abs (rs_vault s') = a \<and>
    (\<exists>h' r'. rs_history s' = Some h' \<and> lookup_row hr_job_id j (job_rows h') = Some r' \<and>
       hr_status r' = status_value ROLLED_BACK)"
proof -
  have served: "served j (job_rows h) s" using h by (simp add: served_def)
  have "list_all executable_entry (es @ pe)"
    using entries_executable [OF es planned] pend by (auto dest: entry_for_fields(11))
  then have all: "filter (\<lambda>e. executable_entry e \<and> je_state e \<in> {JPending, JApplied}) (es @ pe) = es @ pe"
    using states unfolding filter_id_conv list_all_iff by blast
  from passes [OF es planned paths vault served pend, of "next_seq (es @ pe)"]
  obtain ap w where ap: "classify V (es @ pe) [] [] s = (Inr (ap, []), s\<lparr>rs_vault := w\<rparr>)" "ok w"
      "abs w = abs (rs_vault s)" and
    restore: "\<And>s'. ok (rs_vault s') \<Longrightarrow> abs (rs_vault s') = abs (rs_vault s) \<Longrightarrow> served j (job_rows h) s' \<Longrightarrow>
       (\<exists>restored s''. restore_loop V j (rev ap) [] (next_seq (es @ pe)) s' = (Inr (restored, None), s'') \<and>
          ok (rs_vault s'') \<and> abs (rs_vault s'') = a \<and> served j (job_rows h) s'')"
    by blast
  obtain restored s2 where s2: "restore_loop V j (rev ap) [] (next_seq (es @ pe)) (s\<lparr>rs_vault := w\<rparr>) =
      (Inr (restored, None), s2)" "ok (rs_vault s2)" "abs (rs_vault s2) = a" "served j (job_rows h) s2"
    using restore [of "s\<lparr>rs_vault := w\<rparr>"] ap served by auto
  obtain s3 where s3: "on_history (h_set_journal_state j JRolledBack) () s2 = (Inr (), s3)"
      "served j (job_rows h) s3" "rs_vault s3 = rs_vault s2"
    using set_state_runs [OF s2(4)] by blast
  obtain s4 h4 r4 where s4: "finish_recovery_record j ROLLED_BACK (lit ''recovery_rolled_back'')
        (lit ''explicit recovery rollback complete'') s3 = (Inr (), s4)" "rs_vault s4 = rs_vault s3"
      "rs_history s4 = Some h4" "lookup_row hr_job_id j (job_rows h4) = Some r4"
      "hr_status r4 = status_value ROLLED_BACK"
    using finish_runs [OF s3(2) flagged(1)] by blast
  have "on_history (h_get j) None s = (Inr (Some r), s)" "on_history (h_journal j) [] s = (Inr (es @ pe), s)"
    using h calm_get [OF h(2), of j] calm_journal [OF h(2), of j] flagged(1)
    by (simp_all add: on_history_def)
  then have "rollback_if_safe V j s = rollback_entries V j (es @ pe) s"
    using h flagged(2) by (simp add: rollback_if_safe_def seq_def reading_def)
  also have "\<dots> = (Inr ((result_of j ROLLED_BACK)\<lparr>rec_restored := restored, rec_error := Some RecoveryComplete\<rparr>), s4)"
    unfolding rollback_entries_def Let_def all using ne
    by (simp del: append_is_Nil_conv lit_Cons add: seq_def ap s2(1) s3(1) s4(1) ret_def)
  finally show ?thesis
    using s4 s3(3) s2(2,3) by (simp add: result_of_def)
qed

text \<open>The crash itself: the executor stopped after some operations, perhaps with the next row written.\<close>

lemma pending_states: "list_all (\<lambda>e. je_state e = JPending) (entries_from L j n ops)"
  by (induction ops arbitrary: n) (simp_all add: entry_of_def)

lemma pending_entry: "validate_entry (entry_of L j n op) = Inr e \<Longrightarrow> entry_for L j op (entry_of L j n op)"
  unfolding entry_for_def
  by (intro exI [of _ n] exI [of _ JPending]) (auto simp: validate_entry_Inr entry_of_def)

lemma pending_entries:
  "list_all (\<lambda>e. validate_entry e = Inr e) (entries_from L j n ops) \<Longrightarrow>
     list_all2 (entry_for L j) ops (entries_from L j n ops)"
  by (induction ops arbitrary: n) (auto intro: pending_entry)

lemma crash_recovers:
  assumes plan: "list_all (planned digest usable) (ops @ op # rest)"
    and paths: "distinct (concat (map op_paths ops))"
    and capt: "list_all (captured digest (look (abs (rs_vault s)))) ops" and ok: "ok (rs_vault s)"
    and h: "rs_history s = Some h" "calm j h" "history_wf h" "journal_rows h j = []"
    and flagged: "lookup_row hr_job_id j (job_rows h) = Some r" "hr_status r \<in> set (map status_value flagged_states)"
    and ran: "run_operations L V ops 0 [] (start_journal j m s) = (Inr (ex, None), s1)"
    and crash: "s2 = s1 \<and> ops \<noteq> [] \<or> record_operation L (length ops) op s1 = (Inr e, s2) \<and>
      untouched (look (abs (rs_vault s2))) op"
    and restart: "ok (rs_vault s3)" "abs (rs_vault s3) = abs (rs_vault s2)" "rs_history s3 = rs_history s2"
  shows "\<exists>res s4. rollback_if_safe V j s3 = (Inr res, s4) \<and> rec_status res = ROLLED_BACK \<and>
    ok (rs_vault s4) \<and> abs (rs_vault s4) = abs (rs_vault s) \<and>
    (\<exists>h' r'. rs_history s4 = Some h' \<and> lookup_row hr_job_id j (job_rows h') = Some r' \<and>
       hr_status r' = status_value ROLLED_BACK)"
proof -
  let ?s0 = "start_journal j m s" and ?es = "entries_from L j 0 ops"
  have v0: "rs_vault ?s0 = rs_vault s" by (simp add: start_journal_def)
  have plan': "list_all (planned digest usable) ops" "planned digest usable op" using plan by simp_all
  have rec0: "recording j (job_rows h) [] ?s0"
    using h by (simp add: recording_def start_journal_def)
  have rows: "recording j (job_rows h) ?es s1" and valid: "list_all (\<lambda>e. validate_entry e = Inr e) ?es"
    using run_operations_rows [OF rec0, of L V ops "[]" ex s1] ran by simp_all
  have steps: "steps ops (abs (rs_vault s)) (abs (rs_vault s1))"
    using run_operations_steps [OF plan'(1) paths _ _ ran] capt ok v0 by auto
  note es = pending_entries [OF valid]
  have v2: "rs_vault s2 = rs_vault s1"
    using crash keepsD [OF record_keeps_vault refl] by blast
  obtain pe where rows2: "recording j (job_rows h) (?es @ pe) s2" and
    pe: "pe = [] \<and> ops \<noteq> [] \<or> pe = [entry_of L j (length ops) op] \<and> entry_for L j op (entry_of L j (length ops) op) \<and>
      untouched (look (abs (rs_vault s2))) op"
  proof (cases "s2 = s1 \<and> ops \<noteq> []")
    case True
    with rows that [of "[]"] show thesis by simp
  next
    case False
    then have "record_operation L (length ?es) op s1 = (Inr e, s2)" "untouched (look (abs (rs_vault s2))) op"
      using crash by auto
    with record_operation_rows [OF rows this(1)] pending_entry [of j "length ?es" op e] that show thesis
      by auto
  qed
  obtain h2 where h2: "rs_history s2 = Some h2" "calm j h2" "job_rows h2 = job_rows h"
      "journal_rows h2 j = ?es @ pe"
    using rows2 unfolding recording_def by blast
  have "list_all (\<lambda>e. je_state e \<in> {JPending, JApplied}) (?es @ pe)"
    using pending_states [of j 0 ops] pe by (auto simp: list_all_iff entry_of_def)
  moreover have "?es @ pe \<noteq> []" using pe by (cases ops) auto
  moreover have "pe = [] \<or> (\<exists>op e. pe = [e] \<and> planned digest usable op \<and> entry_for L j op e \<and>
      untouched (look (abs (rs_vault s3))) op)"
    using pe plan'(2) restart(2) by auto
  moreover have "steps ops (abs (rs_vault s)) (abs (rs_vault s3))"
    using steps restart(2) v2 by simp
  ultimately show ?thesis
    using rollback_restores [OF es plan'(1) paths _ restart(1) _ h2(2,4), of "abs (rs_vault s)" r]
      flagged h2(1,3) restart(3) by auto
qed

text \<open>A step whose file is neither what the job wrote nor what it found.\<close>

definition changed_outside :: "(pystr \<Rightarrow> vault_error + bytes) \<Rightarrow> journal_entry \<Rightarrow> bool" where
  "changed_outside l e \<longleftrightarrow>
     (case l (je_path e) of
        Inr d \<Rightarrow> je_after_hash e \<noteq> Some (digest d) \<and> je_before_hash e \<noteq> Some (digest d)
      | Inl v \<Rightarrow> \<not> code_not_found v)"

lemma classify_exact:
  assumes "ok (rs_vault s)"
  shows "\<exists>ap' w. classify V es ap cf s =
      (Inr (ap', cf @ map je_path (filter (changed_outside (look (abs (rs_vault s)))) es)), s\<lparr>rs_vault := w\<rparr>) \<and>
    ok w \<and> abs w = abs (rs_vault s)"
  using assms
proof (induction es arbitrary: ap cf s)
  case Nil
  then show ?case by (intro exI [of _ ap] exI [of _ "rs_vault s"]) (simp add: ret_def)
next
  case (Cons e es)
  obtain w where w: "ok w" "abs w = abs (rs_vault s)" and
    hash: "\<forall>d. look (abs (rs_vault s)) (je_path e) = Inr d \<longrightarrow>
       current_hash V (je_path e) s = (Inr (Some (digest d)), s\<lparr>rs_vault := w\<rparr>)"
      "missing (look (abs (rs_vault s)) (je_path e)) \<longrightarrow> current_hash V (je_path e) s = (Inr None, s\<lparr>rs_vault := w\<rparr>)"
      "\<forall>v. look (abs (rs_vault s)) (je_path e) = Inl v \<and> \<not> code_not_found v \<longrightarrow>
       current_hash V (je_path e) s = (Inl (VaultExc v), s\<lparr>rs_vault := w\<rparr>)"
    using current_hash_runs [OF Cons.prems, of "je_path e"] by blast
  have more: "\<exists>ap' w'. classify V es ap1 cf1 (s\<lparr>rs_vault := w\<rparr>) =
      (Inr (ap', cf1 @ map je_path (filter (changed_outside (look (abs (rs_vault s)))) es)), s\<lparr>rs_vault := w'\<rparr>) \<and>
    ok w' \<and> abs w' = abs (rs_vault s)" for ap1 cf1
    using Cons.IH [where s = "s\<lparr>rs_vault := w\<rparr>" and ap = ap1 and cf = cf1] w by simp
  show ?case
  proof (cases "look (abs (rs_vault s)) (je_path e)")
    case (Inl v)
    then have "changed_outside (look (abs (rs_vault s))) e \<longleftrightarrow> \<not> code_not_found v"
      by (simp add: changed_outside_def)
    with Inl hash more [of ap "cf @ [je_path e]"] more [of ap cf] show ?thesis
      by (cases "code_not_found v"; cases "je_after_hash e") (simp_all add: try_else_def)
  next
    case (Inr d)
    then have "changed_outside (look (abs (rs_vault s))) e \<longleftrightarrow>
        je_after_hash e \<noteq> Some (digest d) \<and> je_before_hash e \<noteq> Some (digest d)"
      by (simp add: changed_outside_def)
    with Inr hash more [of "ap @ [(e, digest d)]" cf] more [of ap cf] more [of ap "cf @ [je_path e]"] show ?thesis
      by (cases "je_after_hash e = Some (digest d)"; cases "je_before_hash e = Some (digest d)")
        (simp_all add: try_else_def eq_commute [of "Some (digest d)"])
  qed
qed

lemma rollback_refuses:
  assumes ok: "ok (rs_vault s)" and h: "rs_history s = Some h" "calm j h"
    and flagged: "lookup_row hr_job_id j (job_rows h) = Some r" "hr_status r \<in> set (map status_value flagged_states)"
    and e: "e \<in> set (journal_rows h j)" "executable_entry e" "je_state e \<in> {JPending, JApplied}"
    and changed: "changed_outside (look (abs (rs_vault s))) e"
  shows "\<exists>res s'. rollback_if_safe V j s = (Inr res, s') \<and> rec_status res = CONFLICT \<and>
    je_path e \<in> set (rec_conflict_paths res) \<and> ok (rs_vault s') \<and> abs (rs_vault s') = abs (rs_vault s) \<and>
    rs_history s' = Some h"
proof -
  let ?es = "filter (\<lambda>e. executable_entry e \<and> je_state e \<in> {JPending, JApplied}) (journal_rows h j)"
  have e': "e \<in> set ?es" using e by simp
  then have "0 < length ?es" by (rule length_pos_if_in_set)
  then have ne: "?es \<noteq> []" by (simp only: length_greater_0_conv not_False_eq_True)
  let ?bad = "map je_path (filter (changed_outside (look (abs (rs_vault s)))) ?es)"
  obtain ap w where c: "classify V ?es [] [] s = (Inr (ap, ?bad), s\<lparr>rs_vault := w\<rparr>)" "ok w" "abs w = abs (rs_vault s)"
    using classify_exact [OF ok, of ?es "[]" "[]"] by auto
  have bad: "je_path e \<in> set ?bad" using e' changed by auto
  then have "?bad \<noteq> []" by (metis empty_iff empty_set)
  have "on_history (h_get j) None s = (Inr (Some r), s)"
    "on_history (h_journal j) [] s = (Inr (journal_rows h j), s)"
    using h calm_get [OF h(2), of j] calm_journal [OF h(2), of j] flagged(1)
    by (simp_all add: on_history_def)
  then have "rollback_if_safe V j s = rollback_entries V j (journal_rows h j) s"
    using h flagged(2) by (simp add: rollback_if_safe_def seq_def reading_def)
  also have "\<dots> = (Inr ((result_of j CONFLICT)\<lparr>rec_conflict_paths := ?bad, rec_error := Some ChangedExternally\<rparr>),
      s\<lparr>rs_vault := w\<rparr>)"
    unfolding rollback_entries_def Let_def if_not_P [OF ne] seq_def c(1) prod.case sum.case if_P [OF \<open>?bad \<noteq> []\<close>]
    by (simp only: ret_def)
  finally show ?thesis
    using c bad h by (simp add: result_of_def)
qed

end

end
