(* ===== verification/ActionJson.thy ===== *)
theory ActionJson imports History begin

text \<open>
  The JSON form of an action (\<^verbatim>\<open>model_dump(mode="json")\<close>), in which History stores it, and the
  strict reader (\<^verbatim>\<open>Action.model_validate\<close>): unknown keys are refused, missing keys get their
  defaults, and every field goes through its validator. \<open>fresh\<close> is the default of \<^verbatim>\<open>action_id\<close>.
  The conversions pydantic also tries on values of the wrong type (a numeral string for a number,
  other spellings of a UUID) are refused here; the dump never writes such a value.
\<close>

section \<open>Dumping\<close>

fun action_value :: "action_type \<Rightarrow> pystr" where
  "action_value ADD_TAGS = lit ''add_tags''"
| "action_value REMOVE_TAGS = lit ''remove_tags''"
| "action_value ADD_LINK = lit ''add_link''"
| "action_value CREATE_NOTE = lit ''create_note''"
| "action_value PATCH_NOTE = lit ''patch_note''"
| "action_value MOVE_NOTE = lit ''move_note''"

definition action_types :: "action_type list" where
  "action_types = [ADD_TAGS, REMOVE_TAGS, ADD_LINK, CREATE_NOTE, PATCH_NOTE, MOVE_NOTE]"

definition json_opt :: "pystr option \<Rightarrow> json" where
  "json_opt v = (case v of None \<Rightarrow> JNull | Some s \<Rightarrow> JStr s)"

definition dump_hunk :: "patch_hunk \<Rightarrow> json" where
  "dump_hunk h = JObj [(lit ''start'', JInt (h_start h)), (lit ''old_text'', JStr (h_old_text h)),
     (lit ''new_text'', JStr (h_new_text h)), (lit ''old_sha256'', json_opt (h_old_sha256 h))]"

definition dump_action :: "action \<Rightarrow> json" where
  "dump_action a = JObj
     [(lit ''action_id'', JStr (act_id a)), (lit ''action'', JStr (action_value (act_kind a))),
      (lit ''permission_level'', JInt (act_level a)), (lit ''file'', JStr (act_file a)),
      (lit ''target_file'', json_opt (act_target_file a)), (lit ''tags'', JArr (map JStr (act_tags a))),
      (lit ''link_target'', json_opt (act_link_target a)), (lit ''patch'', JArr (map dump_hunk (act_patch a))),
      (lit ''content_base64'', json_opt (act_content_base64 a)), (lit ''reason'', JStr (act_reason a)),
      (lit ''expected_sha256'', json_opt (act_expected_sha256 a))]"

section \<open>Reading\<close>

definition get_str :: "json option \<Rightarrow> action_error + pystr" where
  "get_str j = (case j of Some (JStr s) \<Rightarrow> Inr s | _ \<Rightarrow> Inl ValidationError)"

definition get_str_or :: "pystr \<Rightarrow> json option \<Rightarrow> action_error + pystr" where
  "get_str_or d j = (if j = None then Inr d else get_str j)"

definition get_opt :: "json option \<Rightarrow> action_error + pystr option" where
  "get_opt j = (case j of None \<Rightarrow> Inr None | Some JNull \<Rightarrow> Inr None | Some (JStr s) \<Rightarrow> Inr (Some s)
     | _ \<Rightarrow> Inl ValidationError)"

definition get_int_or :: "int \<Rightarrow> json option \<Rightarrow> action_error + int" where
  "get_int_or d j = (case j of None \<Rightarrow> Inr d | Some (JInt i) \<Rightarrow> Inr i | _ \<Rightarrow> Inl ValidationError)"

definition get_list :: "(json \<Rightarrow> action_error + 'a) \<Rightarrow> json option \<Rightarrow> action_error + 'a list" where
  "get_list f j = (case j of None \<Rightarrow> Inr [] | Some (JArr xs) \<Rightarrow> rmap f xs | _ \<Rightarrow> Inl ValidationError)"

definition only_keys :: "pystr list \<Rightarrow> (pystr \<times> json) list \<Rightarrow> action_error + unit" where
  "only_keys keys fs = check (set (map fst fs) \<subseteq> set keys) ValidationError"

fun is_uuid_at :: "nat \<Rightarrow> pystr \<Rightarrow> bool" where
  "is_uuid_at i [] \<longleftrightarrow> i = 36"
| "is_uuid_at i (c # s) \<longleftrightarrow>
     (if i = 8 \<or> i = 13 \<or> i = 18 \<or> i = 23 then c = 45 else is_lower_hex c) \<and> is_uuid_at (Suc i) s"

definition is_uuid :: "pystr \<Rightarrow> bool" where
  "is_uuid s = is_uuid_at 0 s"

definition load_kind :: "pystr \<Rightarrow> action_error + action_type" where
  "load_kind s = (case find (\<lambda>k. action_value k = s) action_types of
       None \<Rightarrow> Inl ValidationError | Some k \<Rightarrow> Inr k)"

definition load_hunk :: "json \<Rightarrow> action_error + patch_hunk" where
  "load_hunk j =
     (case j of
        JObj fs \<Rightarrow>
          let field = map_of fs in
          rbind (only_keys [lit ''start'', lit ''old_text'', lit ''new_text'', lit ''old_sha256''] fs) (\<lambda>_.
          rbind (case field (lit ''start'') of Some (JInt i) \<Rightarrow> Inr i | _ \<Rightarrow> Inl ValidationError) (\<lambda>start.
          rbind (get_str_or [] (field (lit ''old_text''))) (\<lambda>old_text.
          rbind (get_str_or [] (field (lit ''new_text''))) (\<lambda>new_text.
          rbind (get_opt (field (lit ''old_sha256''))) (\<lambda>old_sha256.
          Inr \<lparr>h_start = start, h_old_text = old_text, h_new_text = new_text, h_old_sha256 = old_sha256\<rparr>)))))
      | _ \<Rightarrow> Inl ValidationError)"

definition action_keys :: "pystr list" where
  "action_keys = [lit ''action_id'', lit ''action'', lit ''permission_level'', lit ''file'', lit ''target_file'',
     lit ''tags'', lit ''link_target'', lit ''patch'', lit ''content_base64'', lit ''reason'',
     lit ''expected_sha256'']"

definition raw_action :: "pystr \<Rightarrow> json \<Rightarrow> action_error + action" where
  "raw_action fresh j =
     (case j of
        JObj fs \<Rightarrow>
          let field = map_of fs in
          rbind (only_keys action_keys fs) (\<lambda>_.
          rbind (get_str_or fresh (field (lit ''action_id''))) (\<lambda>action_id.
          rbind (check (is_uuid action_id) ValidationError) (\<lambda>_.
          rbind (get_str (field (lit ''action''))) (\<lambda>value.
          rbind (load_kind value) (\<lambda>kind.
          rbind (get_int_or 1 (field (lit ''permission_level''))) (\<lambda>level.
          rbind (get_str (field (lit ''file''))) (\<lambda>file.
          rbind (get_opt (field (lit ''target_file''))) (\<lambda>target_file.
          rbind (get_list (\<lambda>t. get_str (Some t)) (field (lit ''tags''))) (\<lambda>tags.
          rbind (get_opt (field (lit ''link_target''))) (\<lambda>link_target.
          rbind (get_list load_hunk (field (lit ''patch''))) (\<lambda>patch.
          rbind (get_opt (field (lit ''content_base64''))) (\<lambda>content.
          rbind (get_str (field (lit ''reason''))) (\<lambda>reason.
          rbind (get_opt (field (lit ''expected_sha256''))) (\<lambda>expected.
          Inr \<lparr>act_id = action_id, act_kind = kind, act_level = level, act_file = file,
               act_target_file = target_file, act_tags = tags, act_link_target = link_target,
               act_patch = patch, act_content_base64 = content, act_reason = reason,
               act_expected_sha256 = expected\<rparr>))))))))))))))
      | _ \<Rightarrow> Inl ValidationError)"

definition load_action :: "pylib \<Rightarrow> pystr \<Rightarrow> json \<Rightarrow> action_error + action" where
  "load_action L fresh j = rbind (raw_action fresh j) (parse_action L)"

section \<open>Reading what was dumped\<close>

lemma get_simps [simp]:
  "get_str (Some (JStr s)) = Inr s" "get_str_or d (Some (JStr s)) = Inr s" "get_opt (Some (json_opt v)) = Inr v"
  "get_int_or n (Some (JInt i)) = Inr i" "get_list f (Some (JArr xs)) = rmap f xs"
  by (simp_all add: get_str_def get_str_or_def get_opt_def get_int_or_def get_list_def json_opt_def
      split: option.split)

lemma rmap_map_Inr: "(\<And>x. x \<in> set xs \<Longrightarrow> f (g x) = Inr x) \<Longrightarrow> rmap f (map g xs) = Inr xs"
  by (induction xs) auto

lemma load_kind_value [simp]: "load_kind (action_value k) = Inr k"
  by (cases k) (simp_all add: load_kind_def action_types_def)

lemma load_dump_hunk [simp]: "load_hunk (dump_hunk h) = Inr h"
  by (simp add: load_hunk_def dump_hunk_def only_keys_def check_def)

lemma raw_dump: "is_uuid (act_id a) \<Longrightarrow> raw_action fresh (dump_action a) = Inr a"
  by (simp add: raw_action_def dump_action_def only_keys_def action_keys_def rmap_map_Inr check_def)

text \<open>Parsing what was parsed: only a tag can change again.\<close>

lemma ascii_lower_idem [simp]: "ascii_lower (ascii_lower s) = ascii_lower s"
  by (auto simp: ascii_lower_def ascii_lower_char_def)

lemma rmap_fixed: "(\<And>x. x \<in> set xs \<Longrightarrow> f x = Inr x) \<Longrightarrow> rmap f xs = Inr xs"
  using rmap_map_Inr [of xs f "\<lambda>x. x"] by simp

lemma rmap_Inr_set: "rmap f xs = Inr ys \<Longrightarrow> y \<in> set ys \<Longrightarrow> \<exists>x \<in> set xs. f x = Inr y"
  by (induction xs arbitrary: ys) (auto simp: rbind_eq_Inr)

lemma lower_hex_digits: "list_all is_hex_digit s \<Longrightarrow> list_all is_hex_digit (ascii_lower s)"
  by (auto simp: ascii_lower_def ascii_lower_char_def is_hex_digit_def list_all_iff)

lemma lower_matches: "sha256_re_matches s \<Longrightarrow> sha256_re_matches (ascii_lower s)"
proof -
  assume s: "sha256_re_matches s"
  have len: "length (ascii_lower s) = length s" by (simp add: ascii_lower_def)
  have "drop 7 (ascii_lower s) = ascii_lower (drop 7 s)" by (simp add: ascii_lower_def drop_map)
  moreover have "starts_with (ascii_lower s) (lit ''sha256:'')" if "starts_with s (lit ''sha256:'')"
    using that by (auto simp: starts_with_def ascii_lower_def ascii_lower_char_def take_map)
  ultimately show ?thesis
    using s lower_hex_digits by (auto simp: sha256_re_matches_def len)
qed

lemma digest_again: "normalize_digest v = Inr d \<Longrightarrow> normalize_digest d = Inr d"
  using lower_matches by (auto simp: normalize_digest_def split: option.splits if_splits)

lemma hunk_again: "validate_hunk h = Inr h' \<Longrightarrow> validate_hunk h' = Inr h'"
  using digest_again by (auto simp: validate_hunk_def rbind_eq_Inr)

lemma parse_again:
  assumes parsed: "parse_action L a = Inr b" and tags: "list_all (\<lambda>t. normalize_tag t = Inr t) (act_tags b)"
  shows "parse_action L b = Inr b"
proof -
  have wf: "action_wf L b" using parse_action_wf [OF parsed] .
  have steps: "rmap validate_hunk (act_patch a) = Inr (act_patch b)"
    "validate_content (act_content_base64 a) = Inr (act_content_base64 b)"
    "normalize_digest (act_expected_sha256 a) = Inr (act_expected_sha256 b)"
    using parsed unfolding parse_action_def rbind_eq_Inr by auto
  have "rmap normalize_tag (act_tags b) = Inr (act_tags b)"
    using tags by (intro rmap_fixed) (auto simp: list_all_iff)
  then have "validate_tags L (act_tags b) = Inr (act_tags b)"
    using wf by (simp add: validate_tags_def action_wf_def check_def)
  moreover have "rmap validate_hunk (act_patch b) = Inr (act_patch b)"
    using rmap_Inr_set [OF steps(1)] hunk_again by (intro rmap_fixed) blast
  moreover have "validate_content (act_content_base64 b) = Inr (act_content_base64 b)"
    using steps(2) validate_content_Inr [OF steps(2)] by simp
  moreover have "validate_path_field (act_file b) = Inr (act_file b)"
    "validate_optional validate_path_field (act_target_file b) = Inr (act_target_file b)"
    "validate_optional validate_path_field (act_link_target b) = Inr (act_link_target b)"
    using wf by (simp_all add: action_wf_def)
  ultimately show ?thesis
    using wf digest_again [OF steps(3)]
    by (simp add: parse_action_def action_wf_def check_def
        del: validate_path_field_Inr validate_optional_path)
qed

lemma load_dump:
  assumes "parse_action L a = Inr b" "list_all (\<lambda>t. normalize_tag t = Inr t) (act_tags b)" "is_uuid (act_id b)"
  shows "load_action L fresh (dump_action b) = Inr b"
  by (simp add: load_action_def raw_dump [OF assms(3)] parse_again [OF assms(1,2)])

end
