(* ===== verification/Agents.thy ===== *)
theory Agents imports Recovery Policy Patches ActionJson begin

text \<open>
  \<^verbatim>\<open>server/agents/\<close>: controlled jobs. \<open>plan\<close> validates a request, reads the notes it
  mentions, asks the policy and records a preview; \<open>accept\<close> reads again, compares with the preview,
  asks the policy again and runs the transaction; \<open>reject\<close> and \<open>undo\<close> close a job. The workflow
  planner, which asks a language model, is a parameter: the action set it returned or its error.
  Jobs are locked one by one, so the calls on one job follow each other.

  Error texts are left out. YAML and \<^verbatim>\<open>difflib\<close> are the parameters \<open>tags_of\<close> (the tags a
  frontmatter lists) and \<open>unified_diff\<close>; the latter never enters a decision.
\<close>

section \<open>Data\<close>

datatype agent_error = InvalidAction | InvalidActionOutput | AIUnavailable | ConfirmationRequired
  | PolicyDenied "policy_rule list" | JobStateConflict | JobNotFound | HistoryLimit | TransactionFailed
  | RollbackFailed | UndoConflict "pystr list" | UndoUnavailable | BadActions action_error | Raised exc

text \<open>What the service was built with.\<close>

record agent_cfg =
  ag_lib :: pylib
  ag_policy :: engine
  ag_protected :: "pystr list"
  ag_max_journal :: nat
  ag_recovery_max_journal :: nat
  ag_default_model :: pystr
  tags_of :: "pystr \<Rightarrow> pystr list"
  unified_diff :: "pystr \<Rightarrow> bytes \<Rightarrow> bytes \<Rightarrow> pystr option"

record job_scope =
  scope_paths :: "pystr list"
  scope_max_files :: int
  scope_max_chars :: int

record job_request =
  jr_task_type :: pystr
  jr_level :: int
  jr_scope :: job_scope
  jr_actions :: "action list"
  jr_execute :: bool

record accept_request =
  ar_action_ids :: "pystr list"
  ar_confirm :: bool

record preflight_data =
  pf_operations :: "transaction_operation option list"
  pf_facts :: "action_facts list"
  pf_diffs :: "(pystr \<times> json) list list"
  pf_files_read :: "pystr list"

text \<open>The service's state: vault and history, and its cache of jobs with the policy view.\<close>

record 'w agents =
  ag_rec :: "'w rstate"
  ag_jobs :: "pystr \<Rightarrow> (history_record \<times> policy_set_result option) option"

type_synonym ('w, 'a) ag_act = "('w agents, agent_error, 'a) act"

definition on_rec :: "('w, 'a) rec_act \<Rightarrow> ('w, 'a) ag_act" where
  "on_rec m = (\<lambda>s. case m (ag_rec s) of
       (Inl e, r) \<Rightarrow> (Inl (Raised e), s\<lparr>ag_rec := r\<rparr>)
     | (Inr x, r) \<Rightarrow> (Inr x, s\<lparr>ag_rec := r\<rparr>))"

text \<open>The constructor always attaches a history service, an empty one by default.\<close>

definition make_agents :: "'w \<Rightarrow> history option \<Rightarrow> 'w agents" where
  "make_agents w h = \<lparr>ag_rec = \<lparr>rs_vault = w,
     rs_history = Some (case h of Some x \<Rightarrow> x | None \<Rightarrow> fresh_history None),
     rs_journal = \<lparr>rj_job_id = [], rj_max_bytes = 0, rj_pending = [], rj_bytes = 0\<rparr>\<rparr>, ag_jobs = (\<lambda>j. None)\<rparr>"

section \<open>Validation\<close>

definition MARKDOWN_SUFFIXES :: "pystr list" where
  "MARKDOWN_SUFFIXES = [lit ''.md'', lit ''.markdown'']"

definition is_markdown :: "pylib \<Rightarrow> pystr \<Rightarrow> bool" where
  "is_markdown L path = list_ex (ends_with (casefold L path)) MARKDOWN_SUFFIXES"

definition parent_dir :: "pystr \<Rightarrow> pystr" where
  "parent_dir path = (if SLASH \<in> set path then join_with SLASH (butlast (split_on SLASH path)) else [])"

datatype create_problem = NotMarkdown | TargetExists | OutsideScopeDirectory

definition create_target_problem ::
  "pylib \<Rightarrow> pystr list \<Rightarrow> pystr list option \<Rightarrow> pystr \<Rightarrow> create_problem option" where
  "create_target_problem L within existing_markdown target =
     (if \<not> is_markdown L target then Some NotMarkdown
      else if (case existing_markdown of None \<Rightarrow> False
               | Some paths \<Rightarrow> casefold L target \<in> set (map (casefold L) paths)) then Some TargetExists
      else if within \<noteq> [] \<and> parent_dir target \<notin> set (map parent_dir within)
      then Some OutsideScopeDirectory
      else None)"

fun unique_paths :: "pylib \<Rightarrow> pystr set \<Rightarrow> pystr list \<Rightarrow> action_error + pystr list" where
  "unique_paths L known [] = Inr []"
| "unique_paths L known (v # vs) =
     rbind (validate_path_field v) (\<lambda>path.
     rbind (check (is_markdown L path) ValidationError) (\<lambda>_.
     if casefold L path \<in> known then unique_paths L known vs
     else rbind (unique_paths L (insert (casefold L path) known) vs) (\<lambda>ps. Inr (path # ps))))"

definition validate_scope :: "pylib \<Rightarrow> job_scope \<Rightarrow> action_error + job_scope" where
  "validate_scope L sc =
     rbind (check (length (scope_paths sc) \<le> 100 \<and> 1 \<le> scope_max_files sc \<and> scope_max_files sc \<le> 50 \<and>
        1000 \<le> scope_max_chars sc \<and> scope_max_chars sc \<le> 300000) ValidationError) (\<lambda>_.
     rbind (unique_paths L {} (scope_paths sc)) (\<lambda>paths. Inr (sc\<lparr>scope_paths := paths\<rparr>)))"

definition validated :: "job_request \<Rightarrow> action_error + job_request" where
  "validated request =
     (if jr_actions request \<noteq> []
      then rbind (validate_action_set (jr_actions request)) (\<lambda>_. Inr request)
      else Inr request)"

definition workflow_actions :: "pystr \<Rightarrow> action_type list option" where
  "workflow_actions task =
     (if task = lit ''daily_organizer'' then Some [ADD_TAGS, REMOVE_TAGS, ADD_LINK, PATCH_NOTE]
      else if task = lit ''weekly_review'' then Some [ADD_TAGS, REMOVE_TAGS, ADD_LINK, PATCH_NOTE, CREATE_NOTE]
      else None)"

definition enforce_task_actions :: "pystr \<Rightarrow> action list \<Rightarrow> agent_error + unit" where
  "enforce_task_actions task actions =
     (case workflow_actions task of
        None \<Rightarrow> Inr ()
      | Some allowed \<Rightarrow> check (list_all (\<lambda>a. act_kind a \<in> set allowed) actions) InvalidActionOutput)"

definition in_scope :: "pylib \<Rightarrow> pystr list \<Rightarrow> action \<Rightarrow> bool" where
  "in_scope L paths a \<longleftrightarrow>
     (if act_kind a = CREATE_NOTE then create_target_problem L paths None (act_file a) = None
      else casefold L (act_file a) \<in> set (map (casefold L) paths) \<and>
        (\<not> some_nonempty (act_target_file a) \<or>
         casefold L (the (act_target_file a)) \<in> set (map (casefold L) paths)))"

definition assert_scope_paths :: "pylib \<Rightarrow> job_request \<Rightarrow> action list \<Rightarrow> agent_error + unit" where
  "assert_scope_paths L request actions =
     (let paths = scope_paths (jr_scope request) in
      if paths = [] then Inr () else check (list_all (in_scope L paths) actions) InvalidAction)"

definition stamp :: "int \<Rightarrow> action \<Rightarrow> action" where
  "stamp level a = (if act_level a \<noteq> level then a\<lparr>act_level := level\<rparr> else a)"

section \<open>Planned operations\<close>

definition content_bytes :: "pystr option \<Rightarrow> bytes option" where
  "content_bytes content = b64_decode (case content of None \<Rightarrow> [] | Some v \<Rightarrow> v)"

definition plan_create_operation :: "action \<Rightarrow> agent_error + transaction_operation" where
  "plan_create_operation a =
     (case act_content_base64 a of
        None \<Rightarrow> Inl InvalidAction
      | Some v \<Rightarrow>
          (case b64_decode v of
             None \<Rightarrow> Inl (Raised ValueErr)
           | Some after \<Rightarrow> Inr \<lparr>op_operation = OpCreate, op_path = act_file a, op_before_exists = False,
               op_before_bytes = None, op_before_hash = None, op_after_bytes = Some after,
               op_after_hash = None, op_target_path = None, op_source = None\<rparr>))"

definition plan_move_operation :: "pystr \<Rightarrow> pystr \<Rightarrow> bytes \<Rightarrow> pystr \<Rightarrow> transaction_operation" where
  "plan_move_operation source target before before_hash =
     \<lparr>op_operation = OpMove, op_path = target, op_before_exists = True, op_before_bytes = Some before,
      op_before_hash = Some before_hash, op_after_bytes = Some before, op_after_hash = Some before_hash,
      op_target_path = None, op_source = Some source\<rparr>"

definition update_operation :: "pystr \<Rightarrow> bytes \<Rightarrow> pystr \<Rightarrow> bytes \<Rightarrow> transaction_operation" where
  "update_operation path before before_hash after =
     \<lparr>op_operation = OpUpdate, op_path = path, op_before_exists = True, op_before_bytes = Some before,
      op_before_hash = Some before_hash, op_after_bytes = Some after, op_after_hash = None,
      op_target_path = None, op_source = None\<rparr>"

section \<open>The read-only preflight\<close>

definition try_read :: "'w vault_ops \<Rightarrow> pystr \<Rightarrow> ('w, bytes \<times> pystr option) ag_act" where
  "try_read V path =
     try_else (on_rec (on_vault (vop_read V path)))
       (\<lambda>e. ret ([], None))
       (\<lambda>(data, digest). ret (data, Some digest))"

definition protected :: "agent_cfg \<Rightarrow> pystr \<Rightarrow> bool" where
  "protected C path =
     (path \<noteq> [] \<and>
      (let lowered = casefold (ag_lib C) path in
       list_ex (\<lambda>prefix. lowered = prefix \<or> starts_with lowered (prefix @ [SLASH])) (ag_protected C)))"

definition preflight_create ::
  "action \<Rightarrow> action_facts \<Rightarrow> agent_error + action_facts \<times> transaction_operation option" where
  "preflight_create a f =
     (case content_bytes (act_content_base64 a) of
        None \<Rightarrow> Inl InvalidAction
      | Some content \<Rightarrow>
          (case utf8_decode content of
             None \<Rightarrow> Inl InvalidAction
           | Some t \<Rightarrow>
               let f' = f\<lparr>f_modified_chars := int (length t)\<rparr> in
               if f_existing f then Inr (f', None)
               else rbind (plan_create_operation a) (\<lambda>op. Inr (f', Some op))))"

text \<open>\<open>found\<close> is the digest read at the target, if there is one.\<close>

definition move_outcome ::
  "agent_cfg \<Rightarrow> action \<Rightarrow> action_facts \<Rightarrow> bytes \<Rightarrow> pystr option \<Rightarrow> pystr option \<Rightarrow>
   action_facts \<times> transaction_operation option" where
  "move_outcome C a f data digest found =
     (let target = act_target_file a;
          target_md = (some_nonempty target \<and> is_markdown (ag_lib C) (the target));
          markdown = (is_markdown (ag_lib C) (act_file a) \<and> target_md);
          exists = some_nonempty found in
      (f\<lparr>f_markdown := markdown, f_attachment := \<not> markdown, f_target_exists := exists, f_overwrite := exists\<rparr>,
       if target = None \<or> \<not> f_existing f \<or> exists \<or> \<not> target_md \<or> digest = None then None
       else Some (plan_move_operation (act_file a) (the target) data (the digest))))"

definition preflight_move ::
  "agent_cfg \<Rightarrow> 'w vault_ops \<Rightarrow> action \<Rightarrow> action_facts \<Rightarrow> bytes \<Rightarrow> pystr option \<Rightarrow>
   ('w, action_facts \<times> transaction_operation option) ag_act" where
  "preflight_move C V a f data digest =
     seq (if some_nonempty (act_target_file a) then try_read V (the (act_target_file a)) else ret ([], None))
       (\<lambda>(_, found). ret (move_outcome C a f data digest found))"

text \<open>\<^verbatim>\<open>str.encode\<close> and the patch helpers; an \<^verbatim>\<open>UnsupportedPatch\<close> is an \<^verbatim>\<open>InvalidAction\<close>.\<close>

definition patch_result :: "patch_error + 'a \<Rightarrow> agent_error + 'a" where
  "patch_result r =
     (case r of
        Inr x \<Rightarrow> Inr x
      | Inl UnsupportedPatch \<Rightarrow> Inl InvalidAction
      | Inl e \<Rightarrow> Inl (Raised ValueErr))"

definition encoded :: "patch_error + pystr \<Rightarrow> agent_error + bytes" where
  "encoded r = rbind (patch_result r) (\<lambda>t.
     case utf8_encode t of None \<Rightarrow> Inl (Raised ValueErr) | Some d \<Rightarrow> Inr d)"

definition abs_diff :: "nat \<Rightarrow> nat \<Rightarrow> int" where
  "abs_diff m n = abs (int m - int n)"

definition preflight_tags ::
  "agent_cfg \<Rightarrow> action \<Rightarrow> action_facts \<Rightarrow> pystr \<Rightarrow> agent_error + action_facts \<times> bytes" where
  "preflight_tags C a f before =
     (let fold = casefold (ag_lib C);
          current = set (map fold (tags_of C before));
          requested = set (map fold (act_tags a)) in
      rbind (if act_kind a = ADD_TAGS
             then rbind (encoded (add_tags before (act_tags a))) (\<lambda>d.
                  Inr (f\<lparr>f_duplicate_tags := requested \<inter> current \<noteq> {}\<rparr>, d))
             else rbind (encoded (remove_tags (ag_lib C) before (act_tags a))) (\<lambda>d.
                  Inr (f\<lparr>f_tags_present := requested \<subseteq> current\<rparr>, d))) (\<lambda>(f1, after).
      case utf8_decode after of
        None \<Rightarrow> Inl (Raised ValueErr)
      | Some after_text \<Rightarrow>
          Inr (f1\<lparr>f_body_change := \<not> tags_only_change before after_text,
                  f_modified_chars := abs_diff (length after_text) (length before)\<rparr>, after)))"

definition MAX_PATCH_OUTPUT :: nat where "MAX_PATCH_OUTPUT = 5000000"

definition preflight_update ::
  "agent_cfg \<Rightarrow> 'w vault_ops \<Rightarrow> action \<Rightarrow> action_facts \<Rightarrow> bytes \<Rightarrow> pystr option \<Rightarrow>
   ('w, action_facts \<times> transaction_operation option) ag_act" where
  "preflight_update C V a f data digest =
     (let kind = act_kind a; L = ag_lib C;
          link_md = (is_markdown L (act_file a) \<and>
            is_markdown L (case act_link_target a of None \<Rightarrow> [] | Some t \<Rightarrow> t));
          f1 = (if kind = ADD_LINK then f\<lparr>f_markdown := link_md, f_attachment := \<not> link_md\<rparr> else f) in
      if \<not> f_existing f1 \<or> f_attachment f1 \<or> \<not> f_markdown f1 \<or> digest = None then ret (f1, None)
      else
        (case utf8_decode data of
           None \<Rightarrow> raise InvalidAction
         | Some before \<Rightarrow>
             seq (if kind = ADD_TAGS \<or> kind = REMOVE_TAGS then lift (preflight_tags C a f1 before)
                  else if kind = ADD_LINK then
                    (case act_link_target a of
                       None \<Rightarrow> raise InvalidAction
                     | Some target \<Rightarrow>
                         seq (try_read V target) (\<lambda>(d, h).
                         lift (rbind (encoded (add_link before target)) (\<lambda>after.
                           Inr (f1\<lparr>f_link_target_exists := h \<noteq> None, f_body_change := True,
                                   f_modified_chars := abs_diff (length after) (length data)\<rparr>, after)))))
                  else
                    lift (rbind (patch_result (apply_hunks data (act_patch a) MAX_PATCH_OUTPUT)) (\<lambda>after.
                      Inr (f1\<lparr>f_body_change := True,
                              f_modified_chars := abs_diff (length after) (length data)\<rparr>, after))))
               (\<lambda>(f2, after).
             ret (f2, Some (update_operation (act_file a) data (the digest) after)))))"

definition preflight_one ::
  "agent_cfg \<Rightarrow> 'w vault_ops \<Rightarrow> action \<Rightarrow> ('w, action_facts \<times> transaction_operation option) ag_act" where
  "preflight_one C V a =
     (let path = act_file a; md = is_markdown (ag_lib C) path;
          opt = (\<lambda>v. case v of None \<Rightarrow> [] | Some s \<Rightarrow> s);
          f0 = default_facts\<lparr>f_existing := True,
            f_protected := protected C path \<or> protected C (opt (act_target_file a)) \<or>
              protected C (opt (act_link_target a)),
            f_markdown := md, f_attachment := \<not> md\<rparr> in
      seq (try_read V path) (\<lambda>(data, digest).
      let f = (if digest = None then f0\<lparr>f_existing := False\<rparr> else f0) in
      if act_kind a = CREATE_NOTE then lift (preflight_create a f)
      else if act_kind a = MOVE_NOTE then preflight_move C V a f data digest
      else preflight_update C V a f data digest))"

fun preflight_each ::
  "agent_cfg \<Rightarrow> 'w vault_ops \<Rightarrow> action list \<Rightarrow>
   ('w, (action_facts \<times> transaction_operation option) list) ag_act" where
  "preflight_each C V [] = ret []"
| "preflight_each C V (a # as) =
     seq (preflight_one C V a) (\<lambda>r. seq (preflight_each C V as) (\<lambda>rs. ret (r # rs)))"

section \<open>Diffs\<close>

definition json_size :: "bytes option \<Rightarrow> json" where
  "json_size d = JInt (case d of None \<Rightarrow> 0 | Some b \<Rightarrow> int (length b))"

definition json_hash :: "pylib \<Rightarrow> bytes option \<Rightarrow> json" where
  "json_hash L d = json_opt (map_option (sha256_bytes L) d)"

definition MAX_UNIFIED_DIFF_BYTES :: nat where "MAX_UNIFIED_DIFF_BYTES = 200000"

text \<open>\<^verbatim>\<open>build_diff\<close> for a before and an after that are both there.\<close>

definition unified_text :: "agent_cfg \<Rightarrow> pystr \<Rightarrow> bytes \<Rightarrow> bytes \<Rightarrow> pystr option" where
  "unified_text C path before after =
     (if utf8_decode before = None \<or> utf8_decode after = None then None
      else
        (case unified_diff C path before after of
           None \<Rightarrow> None
         | Some u \<Rightarrow> (case utf8_len u of
              None \<Rightarrow> None
            | Some n \<Rightarrow> if MAX_UNIFIED_DIFF_BYTES < n then None else Some u)))"

definition diff_entry ::
  "agent_cfg \<Rightarrow> action \<Rightarrow> transaction_operation option \<Rightarrow> (pystr \<times> json) list option" where
  "diff_entry C a operation =
     (let L = ag_lib C;
          before = Option.bind operation op_before_bytes;
          after = Option.bind operation op_after_bytes in
      if act_kind a = CREATE_NOTE then
        Some [(lit ''path'', JStr (act_file a)), (lit ''action_id'', JStr (act_id a)),
          (lit ''operation'', JStr (lit ''create'')), (lit ''before_hash'', JNull),
          (lit ''after_hash'', json_hash L after), (lit ''before_size'', JInt 0),
          (lit ''after_size'', json_size after), (lit ''unified_diff'', JNull),
          (lit ''status'', JStr (lit ''proposed''))]
      else if act_kind a = MOVE_NOTE then
        Some [(lit ''path'', JStr (act_file a)), (lit ''action_id'', JStr (act_id a)),
          (lit ''operation'', JStr (lit ''move'')),
          (lit ''target_file'', JStr (case act_target_file a of None \<Rightarrow> [] | Some t \<Rightarrow> t)),
          (lit ''before_hash'', json_hash L before), (lit ''after_hash'', json_hash L after),
          (lit ''before_size'', json_size before), (lit ''after_size'', json_size after),
          (lit ''unified_diff'', JNull), (lit ''status'', JStr (lit ''proposed''))]
      else
        (case before of
           None \<Rightarrow> None
         | Some b \<Rightarrow>
             let d = (case after of None \<Rightarrow> [] | Some x \<Rightarrow> x) in
             Some [(lit ''path'', JStr (act_file a)), (lit ''action_id'', JStr (act_id a)),
               (lit ''operation'', JStr (lit ''update'')), (lit ''before_hash'', json_hash L (Some b)),
               (lit ''after_hash'', json_hash L (Some d)), (lit ''before_size'', json_size (Some b)),
               (lit ''after_size'', json_size (Some d)),
               (lit ''unified_diff'', json_opt (unified_text C (act_file a) b d)),
               (lit ''status'', JStr (lit ''proposed''))]))"

definition preflight ::
  "agent_cfg \<Rightarrow> 'w vault_ops \<Rightarrow> action list \<Rightarrow> ('w, preflight_data) ag_act" where
  "preflight C V actions =
     (let files = remdups (concat (map mutated_paths actions)) in
      seq (preflight_each C V actions) (\<lambda>rs.
      ret \<lparr>pf_operations = map snd rs,
           pf_facts = map (\<lambda>(f, op). f\<lparr>f_file_count := int (length files)\<rparr>) rs,
           pf_diffs = concat (map (\<lambda>(a, f, op). case diff_entry C a op of None \<Rightarrow> [] | Some d \<Rightarrow> [d])
                        (zip actions rs)),
           pf_files_read = sort files\<rparr>))"

text \<open>The pairs are the facts of all actions with the diffs of some of them.\<close>

definition assert_no_read_failures :: "preflight_data \<Rightarrow> agent_error + unit" where
  "assert_no_read_failures pf =
     check (list_all (\<lambda>(f, d). \<not> (f_existing f \<and> \<not> f_markdown f \<and>
              map_of d (lit ''operation'') = Some (JStr (lit ''update''))))
            (zip (pf_facts pf) (pf_diffs pf))) InvalidAction"

section \<open>Records\<close>

definition hash_of :: "pystr \<Rightarrow> (pystr \<times> json) list \<Rightarrow> pystr option" where
  "hash_of field d = (case map_of d field of Some (JStr h) \<Rightarrow> Some h | _ \<Rightarrow> None)"

definition path_of :: "(pystr \<times> json) list \<Rightarrow> pystr" where
  "path_of d = (case map_of d (lit ''path'') of Some (JStr p) \<Rightarrow> p | _ \<Rightarrow> [])"

definition hash_dict :: "pystr \<Rightarrow> (pystr \<times> json) list list \<Rightarrow> (pystr \<times> pystr option) list" where
  "hash_dict field diffs = foldl (\<lambda>m d. upsert fst (path_of d, hash_of field d) m) [] diffs"

definition job_record ::
  "pystr \<Rightarrow> pystr \<Rightarrow> job_request \<Rightarrow> action list \<Rightarrow> preflight_data \<Rightarrow> job_status \<Rightarrow> int \<Rightarrow> pystr option \<Rightarrow>
   pystr option \<Rightarrow> history_record" where
  "job_record job_id now request actions pf status level model prompt_version =
     \<lparr>hr_job_id = job_id, hr_task_type = jr_task_type request, hr_model = model,
      hr_prompt_version = prompt_version, hr_permission_level = level, hr_start_time = now,
      hr_end_time = None, hr_status = status_value status, hr_error = None,
      hr_files_read = pf_files_read pf, hr_proposed_actions = map dump_action actions,
      hr_executed_actions = [], hr_diff = map JObj (pf_diffs pf),
      hr_before_hash = hash_dict (lit ''before_hash'') (pf_diffs pf),
      hr_after_hash = hash_dict (lit ''after_hash'') (pf_diffs pf), hr_created_at = now\<rparr>"

definition hist :: "'a hist_act \<Rightarrow> 'a \<Rightarrow> ('w, 'a) ag_act" where
  "hist m d = on_rec (on_history m d)"

definition cache :: "pystr \<Rightarrow> history_record \<Rightarrow> policy_set_result option \<Rightarrow> ('w, unit) ag_act" where
  "cache job_id r view = (\<lambda>s. (Inr (), s\<lparr>ag_jobs := (ag_jobs s)(job_id \<mapsto> (r, view))\<rparr>))"

definition load_job :: "pystr \<Rightarrow> ('w, history_record \<times> policy_set_result option) ag_act" where
  "load_job job_id = (\<lambda>s.
     case ag_jobs s job_id of
       Some job \<Rightarrow> (Inr job, s)
     | None \<Rightarrow>
         seq (hist (h_get job_id) None) (\<lambda>record.
         case record of
           None \<Rightarrow> raise JobNotFound
         | Some r \<Rightarrow> seq (cache job_id r None) (\<lambda>_. ret (r, None))) s)"

definition detail_view :: "pystr \<Rightarrow> ('w, job_detail \<times> policy_set_result option) ag_act" where
  "detail_view job_id = (\<lambda>s.
     case ag_jobs s job_id of
       Some (r, view) \<Rightarrow> (Inr (detail_dto r, view), s)
     | None \<Rightarrow>
         seq (hist (h_get job_id) None) (\<lambda>record.
         case record of None \<Rightarrow> raise JobNotFound | Some r \<Rightarrow> ret (detail_dto r, None)) s)"

text \<open>The message lists the reasons; the record also carries the rules.\<close>

definition record_denied ::
  "pystr \<Rightarrow> pystr \<Rightarrow> job_request \<Rightarrow> action list \<Rightarrow> preflight_data \<Rightarrow> policy_set_result \<Rightarrow> int \<Rightarrow> ('w, unit) ag_act" where
  "record_denied job_id now request actions pf result level =
     (let r = job_record job_id now request actions pf FAILED level None None in
      seq (hist (h_save r) r) (\<lambda>r1.
      seq (hist (h_finish now r1 (status_value FAILED) (Some (lit ''policy_denied'', []))) r1) (\<lambda>finished.
      cache job_id finished (Some result))))"

definition record_terminal ::
  "pystr \<Rightarrow> pystr \<Rightarrow> history_record \<Rightarrow> job_status \<Rightarrow> ('w, unit) ag_act" where
  "record_terminal job_id now r status =
     (let code = (if status \<noteq> ROLLBACK_FAILED then lit ''transaction_failed'' else lit ''rollback_failed'') in
      seq (hist (h_finish now r (status_value status) (Some (code, []))) r) (\<lambda>updated.
      cache job_id updated None))"

definition actions_from_record :: "pylib \<Rightarrow> history_record \<Rightarrow> agent_error + action list" where
  "actions_from_record L r =
     (case rmap (load_action L []) (hr_proposed_actions r) of
        Inl e \<Rightarrow> Inl InvalidAction | Inr actions \<Rightarrow> Inr actions)"

definition select_actions :: "action list \<Rightarrow> pystr list \<Rightarrow> agent_error + action list" where
  "select_actions proposed requested =
     (if requested = [] then Inr proposed
      else rbind (check (set requested \<subseteq> set (map act_id proposed)) InvalidAction) (\<lambda>_.
        Inr (filter (\<lambda>a. act_id a \<in> set requested) proposed)))"

section \<open>Executing a job\<close>

fun assert_preview_hashes ::
  "'w vault_ops \<Rightarrow> history_record \<Rightarrow> action list \<Rightarrow> ('w, unit) ag_act" where
  "assert_preview_hashes V r [] = ret ()"
| "assert_preview_hashes V r (a # as) =
     (case map_of (hr_before_hash r) (act_file a) of
        Some (Some expected) \<Rightarrow>
          try_else (on_rec (on_vault (vop_read V (act_file a))))
            (\<lambda>e. raise JobStateConflict)
            (\<lambda>(data, digest). if digest \<noteq> expected then raise JobStateConflict
               else assert_preview_hashes V r as)
      | _ \<Rightarrow> assert_preview_hashes V r as)"

definition json_get :: "pystr \<Rightarrow> json \<Rightarrow> json option" where
  "json_get k j = (case j of JObj fs \<Rightarrow> map_of fs k | _ \<Rightarrow> None)"

definition json_set :: "pystr \<Rightarrow> json \<Rightarrow> json \<Rightarrow> json" where
  "json_set k v j = (case j of JObj fs \<Rightarrow> JObj (upsert fst (k, v) fs) | _ \<Rightarrow> j)"

definition after_of :: "pylib \<Rightarrow> transaction_operation \<Rightarrow> pystr option" where
  "after_of L op = (case op_after_hash op of
     Some h \<Rightarrow> Some h | None \<Rightarrow> map_option (sha256_bytes L) (op_after_bytes op))"

definition committed_hashes ::
  "pylib \<Rightarrow> (action \<times> transaction_operation option) list \<Rightarrow> (pystr \<times> pystr option) list \<Rightarrow>
   (pystr \<times> pystr option) list" where
  "committed_hashes L pairs m = foldl (\<lambda>m (a, operation).
     case Option.bind operation (after_of L) of
       None \<Rightarrow> m | Some h \<Rightarrow> upsert fst (act_file a, Some h) m) m pairs"

definition commit_job ::
  "agent_cfg \<Rightarrow> pystr \<Rightarrow> history_record \<Rightarrow> action list \<Rightarrow> action list \<Rightarrow> preflight_data \<Rightarrow> policy_set_result \<Rightarrow>
   ('w, job_detail \<times> policy_set_result option) ag_act" where
  "commit_job C job_id r proposed selected pf result =
     (let ids = set (map act_id selected);
          remaining = filter (\<lambda>a. act_id a \<notin> ids) proposed;
          new_diffs = map (\<lambda>d. case json_get (lit ''action_id'') d of
              Some (JStr i) \<Rightarrow> if i \<in> ids then json_set (lit ''status'') (JStr (lit ''accepted'')) d else d
            | _ \<Rightarrow> d) (hr_diff r);
          status = (if remaining = [] then COMMITTED else AWAITING_CONFIRMATION);
          r1 = r\<lparr>hr_status := status_value status,
                 hr_executed_actions := hr_executed_actions r @ map dump_action selected,
                 hr_diff := new_diffs,
                 hr_after_hash := committed_hashes (ag_lib C) (zip selected (pf_operations pf)) (hr_after_hash r)\<rparr> in
      seq (hist (h_save r1) r1) (\<lambda>updated.
      seq (cache job_id updated (Some result)) (\<lambda>_.
      detail_view job_id)))"

text \<open>\<^verbatim>\<open>[operation for operation in operations if operation is not None]\<close>\<close>

fun somes :: "'a option list \<Rightarrow> 'a list" where
  "somes [] = []"
| "somes (x # xs) = (case x of None \<Rightarrow> somes xs | Some y \<Rightarrow> y # somes xs)"

definition run_job ::
  "agent_cfg \<Rightarrow> 'w vault_ops \<Rightarrow> pystr \<Rightarrow> pystr \<Rightarrow> history_record \<Rightarrow> action list \<Rightarrow> action list \<Rightarrow> preflight_data \<Rightarrow>
   policy_set_result \<Rightarrow> ('w, job_detail \<times> policy_set_result option) ag_act" where
  "run_job C V now job_id r proposed selected pf result =
     (let operations = somes (pf_operations pf);
          total = sum_list (map (\<lambda>op. case op_before_bytes op of None \<Rightarrow> 0 | Some b \<Rightarrow> length b) operations) in
      if operations = [] then raise JobStateConflict
      else if ag_max_journal C < total then raise HistoryLimit
      else
        seq (hist (h_save (r\<lparr>hr_status := status_value EXECUTING\<rparr>)) r) (\<lambda>_.
        seq (on_rec (execute (ag_lib C) V (ag_recovery_max_journal C) job_id operations)) (\<lambda>res.
        if rec_status res = COMMITTED then commit_job C job_id r proposed selected pf result
        else if rec_status res = ROLLED_BACK then
          seq (record_terminal job_id now r ROLLED_BACK) (\<lambda>_. raise TransactionFailed)
        else if rec_status res = ROLLBACK_FAILED then
          seq (record_terminal job_id now r ROLLBACK_FAILED) (\<lambda>_. raise RollbackFailed)
        else raise JobStateConflict)))"

definition execute_locked ::
  "agent_cfg \<Rightarrow> 'w vault_ops \<Rightarrow> pystr \<Rightarrow> pystr \<Rightarrow> pystr list \<Rightarrow> ('w, job_detail \<times> policy_set_result option) ag_act" where
  "execute_locked C V now job_id action_ids =
     seq (load_job job_id) (\<lambda>(r, view).
     if hr_status r \<noteq> status_value AWAITING_CONFIRMATION then raise JobStateConflict
     else
       seq (lift (actions_from_record (ag_lib C) r)) (\<lambda>proposed.
       seq (lift (select_actions proposed action_ids)) (\<lambda>selected.
       let level = hr_permission_level r in
       seq (preflight C V selected) (\<lambda>pf.
       seq (assert_preview_hashes V r selected) (\<lambda>_.
       let result = evaluate_set (ag_lib C) (ag_policy C) selected (pf_facts pf) (Some level) in
       if ps_decision result = DENY then raise JobStateConflict
       else run_job C V now job_id r proposed selected pf result)))))"

definition accept ::
  "agent_cfg \<Rightarrow> 'w vault_ops \<Rightarrow> pystr \<Rightarrow> pystr \<Rightarrow> accept_request \<Rightarrow> ('w, job_detail \<times> policy_set_result option) ag_act" where
  "accept C V now job_id body =
     (if \<not> ar_confirm body then raise ConfirmationRequired
      else execute_locked C V now job_id (ar_action_ids body))"

section \<open>Planning\<close>

text \<open>
  \<open>planner\<close> is what the workflow planner answered (model resolution included): the action set, the
  model and the prompt version, or its error.
\<close>

definition planned_actions ::
  "agent_cfg \<Rightarrow> (agent_error + action list \<times> pystr option \<times> pystr option) \<Rightarrow> job_request \<Rightarrow>
   agent_error + action list \<times> pystr option \<times> pystr option" where
  "planned_actions C planner request =
     (if jr_actions request \<noteq> []
      then
        let actions = map (stamp (jr_level request)) (jr_actions request) in
        rbind (enforce_task_actions (jr_task_type request) actions) (\<lambda>_.
        Inr (actions, Some (ag_default_model C), None))
      else if jr_task_type request = lit ''manual'' then Inl InvalidAction
      else rbind planner (\<lambda>(actions, model, prompt_version).
        Inr (map (stamp (jr_level request)) actions, model, prompt_version)))"

definition plan ::
  "agent_cfg \<Rightarrow> 'w vault_ops \<Rightarrow> (agent_error + action list \<times> pystr option \<times> pystr option) \<Rightarrow> pystr \<Rightarrow> pystr \<Rightarrow>
   job_request \<Rightarrow> ('w, job_detail \<times> policy_set_result option) ag_act" where
  "plan C V planner now job_id request =
     seq (lift (case validated request of Inl e \<Rightarrow> Inl (BadActions e) | Inr r \<Rightarrow> Inr r)) (\<lambda>_.
     seq (lift (planned_actions C planner request)) (\<lambda>(actions, model, prompt_version).
     seq (lift (assert_scope_paths (ag_lib C) request actions)) (\<lambda>_.
     seq (preflight C V actions) (\<lambda>pf.
     seq (lift (assert_no_read_failures pf)) (\<lambda>_.
     let level = jr_level request;
         result = evaluate_set (ag_lib C) (ag_policy C) actions (pf_facts pf) (Some level) in
     if ps_decision result = DENY then
       seq (record_denied job_id now request actions pf result level) (\<lambda>_. raise (PolicyDenied (ps_rules result)))
     else
       let r = job_record job_id now request actions pf AWAITING_CONFIRMATION level model prompt_version in
       seq (hist (h_save r) r) (\<lambda>r1.
       seq (cache job_id r1 (Some result)) (\<lambda>_.
       if jr_execute request \<and> ps_decision result = ALLOW
       then execute_locked C V now job_id (map act_id actions)
       else detail_view job_id)))))))"

section \<open>Closing a job\<close>

definition reject :: "pystr \<Rightarrow> pystr \<Rightarrow> ('w, job_detail \<times> policy_set_result option) ag_act" where
  "reject now job_id =
     seq (load_job job_id) (\<lambda>(r, view).
     if hr_status r \<noteq> status_value AWAITING_CONFIRMATION then raise JobStateConflict
     else if hr_executed_actions r \<noteq> [] then raise JobStateConflict
     else
       seq (hist (h_finish now r (status_value REJECTED) None) r) (\<lambda>updated.
       seq (cache job_id updated view) (\<lambda>_.
       detail_view job_id)))"

definition finish_undo :: "pystr \<Rightarrow> pystr \<Rightarrow> history_record \<Rightarrow> recovery_result \<Rightarrow> ('w, pystr list) ag_act" where
  "finish_undo now job_id r res =
     (if rec_status res = UNDONE then
        seq (hist (h_finish now r (status_value UNDONE) None) r) (\<lambda>updated.
        seq (cache job_id updated None) (\<lambda>_.
        ret (rec_restored res)))
      else if rec_status res = UNDO_UNAVAILABLE then raise UndoUnavailable
      else raise (UndoConflict (rec_conflict_paths res)))"

definition undo_job :: "'w vault_ops \<Rightarrow> pystr \<Rightarrow> pystr \<Rightarrow> bool \<Rightarrow> ('w, pystr list) ag_act" where
  "undo_job V now job_id confirm =
     (if \<not> confirm then raise ConfirmationRequired
      else
        seq (load_job job_id) (\<lambda>(r, view).
        if hr_status r = status_value UNDONE then raise UndoUnavailable
        else if hr_status r \<noteq> status_value COMMITTED then raise UndoUnavailable
        else seq (on_rec (undo V job_id)) (finish_undo now job_id r)))"

section \<open>Looking at jobs\<close>

record journal_line =
  jl_seq :: nat
  jl_operation :: journal_operation
  jl_path :: pystr
  jl_before_exists :: bool
  jl_after_exists :: bool
  jl_before_hash :: "pystr option"
  jl_after_hash :: "pystr option"
  jl_state :: journal_state

definition journal_line_of :: "journal_entry \<Rightarrow> journal_line" where
  "journal_line_of e = \<lparr>jl_seq = je_seq e, jl_operation = je_operation e, jl_path = je_path e,
     jl_before_exists = je_before_exists e, jl_after_exists = je_after_exists e,
     jl_before_hash = je_before_hash e, jl_after_hash = je_after_hash e, jl_state = je_state e\<rparr>"

definition journal_summary :: "pystr \<Rightarrow> ('w, journal_line list) ag_act" where
  "journal_summary job_id =
     try_else (hist (h_journal job_id) []) (\<lambda>e. ret []) (\<lambda>es. ret (map journal_line_of es))"

definition get_job :: "pystr \<Rightarrow> ('w, (job_detail \<times> policy_set_result option) \<times> journal_line list) ag_act" where
  "get_job job_id =
     seq (load_job job_id) (\<lambda>_.
     seq (detail_view job_id) (\<lambda>dto.
     seq (journal_summary job_id) (\<lambda>lines. ret (dto, lines))))"

definition list_jobs :: "int \<Rightarrow> int \<Rightarrow> pystr option \<Rightarrow> ('w, job_summary list \<times> nat \<times> int \<times> int) ag_act" where
  "list_jobs limit offset status =
     seq (hist (h_page limit offset status) \<lparr>pg_items = [], pg_total = 0, pg_limit = 0, pg_offset = 0\<rparr>) (\<lambda>page.
     ret (map summary_dto (pg_items page), pg_total page, pg_limit page, pg_offset page))"

end
