(* ===== verification/AgentProofs.thy ===== *)
theory AgentProofs imports Agents RecoveryProofs begin

text \<open>
  The job service against the vault contract: the preflight only looks, and every operation it plans
  is one the executor can take back.
\<close>

text \<open>The paths of an action are paths a user can have.\<close>

definition usable_action :: "(pystr \<Rightarrow> bool) \<Rightarrow> action \<Rightarrow> bool" where
  "usable_action usable a \<longleftrightarrow> act_file a \<noteq> [] \<and> usable (act_file a) \<and> length (act_file a) \<le> 4096 \<and>
     (some_nonempty (act_target_file a) \<longrightarrow> usable (the (act_target_file a)))"

section \<open>What does not touch the vault\<close>

lemma keeps_on_rec:
  assumes "keeps (\<lambda>s. rs_vault s = w) m"
  shows "keeps (\<lambda>s. rs_vault (ag_rec s) = w) (on_rec m)"
  using assms by (auto simp: keeps_def on_rec_def split: prod.splits sum.splits)

lemma hist_keeps_vault: "keeps (\<lambda>s. rs_vault (ag_rec s) = w) (hist m d)"
  unfolding hist_def by (rule keeps_on_rec [OF keeps_vault_history])

lemma cache_keeps_vault: "keeps (\<lambda>s. rs_vault (ag_rec s) = w) (cache j r v)"
  by (simp add: keeps_def cache_def)

lemma keeps_case_option: "keeps P m \<Longrightarrow> (\<And>y. keeps P (f y)) \<Longrightarrow> keeps P (case x of None \<Rightarrow> m | Some y \<Rightarrow> f y)"
  by (cases x) simp_all

lemma load_keeps_vault: "keeps (\<lambda>s. rs_vault (ag_rec s) = w) (load_job j)"
proof -
  have "keeps (\<lambda>s. rs_vault (ag_rec s) = w) (seq (hist (h_get j) None) (\<lambda>record. case record of
      None \<Rightarrow> raise JobNotFound | Some r \<Rightarrow> seq (cache j r None) (\<lambda>_. ret (r, None))))"
    by (intro keeps_seq hist_keeps_vault keeps_case_option cache_keeps_vault keeps_raise keeps_ret)
  then show ?thesis
    unfolding keeps_def load_job_def by (auto split: option.splits)
qed

lemma detail_keeps_vault: "keeps (\<lambda>s. rs_vault (ag_rec s) = w) (detail_view j)"
proof -
  have "keeps (\<lambda>s. rs_vault (ag_rec s) = w) (seq (hist (h_get j) None) (\<lambda>record. case record of
      None \<Rightarrow> raise JobNotFound | Some r \<Rightarrow> ret (detail_dto r, None)))"
    by (intro keeps_seq hist_keeps_vault keeps_case_option keeps_raise keeps_ret)
  then show ?thesis
    unfolding keeps_def detail_view_def by (auto split: option.splits)
qed

lemmas agent_keeps = keeps_seq keeps_if keeps_ret keeps_raise keeps_lift hist_keeps_vault cache_keeps_vault
  load_keeps_vault detail_keeps_vault keeps_case_option

lemma closing_keeps_vault:
  "keeps (\<lambda>s. rs_vault (ag_rec s) = w) (commit_job C j r proposed selected pf result)"
  "keeps (\<lambda>s. rs_vault (ag_rec s) = w) (record_terminal j now r status)"
  "keeps (\<lambda>s. rs_vault (ag_rec s) = w) (record_denied j now request actions pf result level)"
  "keeps (\<lambda>s. rs_vault (ag_rec s) = w) (reject now j)"
  "keeps (\<lambda>s. rs_vault (ag_rec s) = w) (finish_undo now j r res)"
  unfolding commit_job_def record_terminal_def record_denied_def reject_def finish_undo_def Let_def case_prod_beta
  by (intro agent_keeps)+

section \<open>Sets that are not denied\<close>

lemma not_denied_no_conflict:
  assumes "ps_decision (evaluate_set L E actions facts level) \<noteq> DENY"
  shows "conflicting_paths actions = []"
  using assms by (auto simp: evaluate_set_def set_denied_def Let_def split: if_splits)

lemma selected_subset: "select_actions proposed ids = Inr selected \<Longrightarrow> set selected \<subseteq> set proposed"
  by (auto simp: select_actions_def rbind_eq_Inr split: if_splits)

context transaction_vault
begin

text \<open>The vault and everything else of the service's state stay as they are.\<close>

definition viewing :: "'a \<Rightarrow> history option \<Rightarrow> (pystr \<Rightarrow> (history_record \<times> policy_set_result option) option) \<Rightarrow>
    'w agents \<Rightarrow> bool" where
  "viewing a h jobs s \<longleftrightarrow> ok (rs_vault (ag_rec s)) \<and> abs (rs_vault (ag_rec s)) = a \<and>
     rs_history (ag_rec s) = h \<and> ag_jobs s = jobs"

abbreviation seen_file :: "'a \<Rightarrow> pystr \<Rightarrow> bytes \<times> pystr option" where
  "seen_file a p \<equiv> (case look a p of Inl e \<Rightarrow> ([], None) | Inr d \<Rightarrow> (d, Some (digest d)))"

lemma try_read_hoare:
  "hoare (viewing a h jobs) (try_read V p) (\<lambda>x s. x = seen_file a p \<and> viewing a h jobs s) (\<lambda>e s. False)"
  unfolding hoare_def
proof (intro allI impI)
  fix s assume s: "viewing a h jobs s"
  then have okv: "ok (rs_vault (ag_rec s))" and absv: "abs (rs_vault (ag_rec s)) = a"
    by (simp_all add: viewing_def)
  from store_read_runs [OF okv, of p] obtain w where
    w: "vop_read V p (rs_vault (ag_rec s)) = (rbind (look a p) (\<lambda>d. Inr (d, digest d)), w)" "ok w" "abs w = a"
    unfolding absv by blast
  then show "case try_read V p s of (Inl e, s') \<Rightarrow> False
      | (Inr x, s') \<Rightarrow> x = seen_file a p \<and> viewing a h jobs s'"
    using s by (cases "look a p") (simp_all add: try_read_def try_else_def on_rec_def on_vault_def ret_def viewing_def)
qed

text \<open>What a planned operation of an action looks like.\<close>

definition planned_for :: "'a \<Rightarrow> action \<Rightarrow> transaction_operation option \<Rightarrow> bool" where
  "planned_for a act operation \<longleftrightarrow> (case operation of None \<Rightarrow> True | Some op \<Rightarrow>
     planned digest usable op \<and> captured digest (look a) op \<and> set (op_paths op) \<subseteq> set (mutated_paths act) \<and>
     distinct (op_paths op))"

lemma hoare_case_option:
  "(x = None \<Longrightarrow> hoare P m Q E) \<Longrightarrow> (\<And>y. x = Some y \<Longrightarrow> hoare P (f y) Q E) \<Longrightarrow>
     hoare P (case x of None \<Rightarrow> m | Some y \<Rightarrow> f y) Q E"
  by (cases x) simp_all

lemma update_planned:
  "usable_action usable act \<Longrightarrow> seen_file a (act_file act) = (data, Some d) \<Longrightarrow>
     planned_for a act (Some (update_operation (act_file act) data d after))"
  by (auto simp: planned_for_def planned_def update_operation_def captured_def op_origin_def op_paths_def
      mutated_paths_def usable_action_def split: sum.splits)

lemma create_planned:
  "usable_action usable act \<Longrightarrow> plan_create_operation act = Inr op \<Longrightarrow> planned_for a act (Some op)"
  by (auto simp: planned_for_def planned_def plan_create_operation_def captured_def op_paths_def
      mutated_paths_def usable_action_def split: option.splits)

lemma move_planned:
  assumes "usable_action usable act" "act_kind act = MOVE_NOTE"
    and "seen_file a (act_file act) = (data, Some d)" "act_target_file act = Some t" "t \<noteq> []"
    and "seen_file a t = (data', h)" "\<not> some_nonempty h"
  shows "planned_for a act (Some (plan_move_operation (act_file act) t data d))"
proof -
  have present: "look a (act_file act) = Inr data" "d = digest data"
    using assms(3) by (auto split: sum.splits)
  have "t \<noteq> act_file act"
    using assms(6,7) present digest_nonempty by auto
  with assms present show ?thesis
    by (auto simp: planned_for_def planned_def plan_move_operation_def captured_def op_origin_def op_paths_def
        mutated_paths_def usable_action_def)
qed

abbreviation view_rule where
  "view_rule a h jobs m Q \<equiv> hoare (viewing a h jobs) m (\<lambda>x s. Q x \<and> viewing a h jobs s) (\<lambda>e s. viewing a h jobs s)"

lemma view_seq:
  "view_rule a h jobs m R \<Longrightarrow> (\<And>x. R x \<Longrightarrow> view_rule a h jobs (f x) Q) \<Longrightarrow> view_rule a h jobs (seq m f) Q"
  by (rule hoare_seq, assumption) (auto simp: hoare_def)

lemma view_read: "view_rule a h jobs (try_read V p) (\<lambda>x. x = seen_file a p)"
  by (rule hoare_weaken [OF try_read_hoare [of a h jobs p]]) auto

lemma read_keeps_view:
  "hoare (viewing a h jobs) (try_read V p) (\<lambda>x s. viewing a h jobs s) (\<lambda>e s. viewing a h jobs s)"
  by (rule hoare_weaken [OF try_read_hoare [of a h jobs p]]) auto

lemma view_ret: "Q x \<Longrightarrow> view_rule a h jobs (ret x) Q"
  and view_raise: "view_rule a h jobs (raise e) Q"
  and view_lift: "(\<And>x. r = Inr x \<Longrightarrow> Q x) \<Longrightarrow> view_rule a h jobs (lift r) Q"
  by (auto intro!: hoare_ret hoare_raise hoare_lift)

lemma view_if:
  "(b \<Longrightarrow> view_rule a h jobs m Q) \<Longrightarrow> (\<not> b \<Longrightarrow> view_rule a h jobs n Q) \<Longrightarrow>
     view_rule a h jobs (if b then m else n) Q"
  by simp

lemmas view_rules = view_ret view_raise view_lift view_if

lemma view_weaken: "view_rule a h jobs m Q \<Longrightarrow> (\<And>x. Q x \<Longrightarrow> R x) \<Longrightarrow> view_rule a h jobs m R"
  by (erule hoare_weaken) auto

lemma view_option:
  "(x = None \<Longrightarrow> view_rule a h jobs m Q) \<Longrightarrow> (\<And>y. x = Some y \<Longrightarrow> view_rule a h jobs (f y) Q) \<Longrightarrow>
     view_rule a h jobs (case x of None \<Rightarrow> m | Some y \<Rightarrow> f y) Q"
  by (cases x) simp_all

lemma planned_for_None [simp]: "planned_for a act None"
  by (simp add: planned_for_def)

lemma move_view:
  assumes "usable_action usable act" "act_kind act = MOVE_NOTE" "seen_file a (act_file act) = (data, digest0)"
  shows "view_rule a h jobs (preflight_move C V act f data digest0) (\<lambda>x. planned_for a act (snd x))"
  unfolding preflight_move_def
proof (rule view_seq)
  show "view_rule a h jobs
     (if some_nonempty (act_target_file act) then try_read V (the (act_target_file act)) else ret ([], None))
     (\<lambda>x. some_nonempty (act_target_file act) \<longrightarrow> x = seen_file a (the (act_target_file act)))"
    by (rule view_if) (auto intro!: hoare_ret view_weaken [OF view_read])
next
  fix x :: "bytes \<times> pystr option"
  assume x: "some_nonempty (act_target_file act) \<longrightarrow> x = seen_file a (the (act_target_file act))"
  obtain d found where d: "x = (d, found)" by (cases x)
  have "planned_for a act (snd (move_outcome C act f data digest0 found))"
    using move_planned [OF assms(1,2), of a data _ _ d found] assms(3) x d
    by (auto simp: move_outcome_def Let_def some_nonempty_def split: option.splits)
  then show "view_rule a h jobs (case x of (_, found) \<Rightarrow> ret (move_outcome C act f data digest0 found))
     (\<lambda>x. planned_for a act (snd x))"
    by (simp add: d view_ret)
qed

lemma update_view:
  assumes "usable_action usable act" "act_kind act \<notin> {CREATE_NOTE, MOVE_NOTE}"
    and "seen_file a (act_file act) = (data, digest0)"
  shows "view_rule a h jobs (preflight_update C V act f data digest0) (\<lambda>x. planned_for a act (snd x))"
proof -
  have plan: "planned_for a act (Some (update_operation (act_file act) data d after))"
    if "digest0 = Some d" for d after
    using update_planned [OF assms(1), of a data d] assms(3) that by simp
  show ?thesis
    unfolding preflight_update_def Let_def
    by (intro view_if view_option view_raise view_seq [where R = "\<lambda>_. True"] view_ret
        view_lift [where Q = "\<lambda>_. True"])
      (auto simp: case_prod_beta intro!: view_ret hoare_lift read_keeps_view plan)
qed

section \<open>The preflight only looks\<close>

lemma dispatch_view:
  assumes "usable_action usable act" "seen_file a (act_file act) = (data, d)"
  shows "view_rule a h jobs
    (if act_kind act = CREATE_NOTE then lift (preflight_create act f)
     else if act_kind act = MOVE_NOTE then preflight_move C V act f data d
     else preflight_update C V act f data d) (\<lambda>x. planned_for a act (snd x))"
proof (intro view_if view_lift)
  fix y assume "preflight_create act f = Inr y"
  then show "planned_for a act (snd y)"
    using create_planned [OF assms(1)]
    by (auto simp: preflight_create_def Let_def rbind_eq_Inr split: option.splits if_splits)
qed (use move_view [OF assms(1)] update_view [OF assms(1)] assms(2) in simp_all)

lemma one_view:
  assumes "usable_action usable act"
  shows "view_rule a h jobs (preflight_one C V act) (\<lambda>x. planned_for a act (snd x))"
  unfolding preflight_one_def Let_def
proof (rule view_seq [OF view_read], goal_cases)
  case (1 x)
  then have "seen_file a (act_file act) = (fst x, snd x)" by simp
  then show ?case
    unfolding case_prod_beta by (rule dispatch_view [OF assms])
qed

lemma each_view:
  assumes "list_all (usable_action usable) acts"
  shows "view_rule a h jobs (preflight_each C V acts)
    (\<lambda>rs. list_all2 (\<lambda>act x. planned_for a act (snd x)) acts rs)"
  using assms
proof (induction acts)
  case Nil
  then show ?case by (simp add: view_ret)
next
  case (Cons act acts)
  then show ?case
    by (auto intro!: view_seq [OF one_view] view_seq [OF Cons.IH] view_ret)
qed

lemma preflight_view:
  assumes "list_all (usable_action usable) acts"
  shows "view_rule a h jobs (preflight C V acts) (\<lambda>pf. list_all2 (planned_for a) acts (pf_operations pf))"
  unfolding preflight_def Let_def
  by (rule view_seq [OF each_view [OF assms]]) (auto intro!: view_ret simp: list.rel_map)

text \<open>A set of actions without conflicts gives operations on different paths.\<close>

lemma operations_plan:
  assumes "list_all2 (planned_for a) acts ops"
  shows "list_all (planned digest usable) (somes ops) \<and> list_all (captured digest (look a)) (somes ops) \<and>
    set (concat (map op_paths (somes ops))) \<subseteq> set (concat (map mutated_paths acts))"
  using assms by (induction acts ops rule: list_all2_induct) (auto simp: planned_for_def split: option.splits)

lemma operations_distinct:
  assumes "list_all2 (planned_for a) acts ops" "distinct (concat (map mutated_paths acts))"
  shows "distinct (concat (map op_paths (somes ops)))"
  using assms
proof (induction acts ops rule: list_all2_induct)
  case (Cons act acts x ops)
  show ?case
  proof (cases x)
    case (Some op)
    then have "set (op_paths op) \<subseteq> set (mutated_paths act)" "distinct (op_paths op)"
      using Cons.hyps by (simp_all add: planned_for_def)
    moreover have "set (concat (map op_paths (somes ops))) \<subseteq> set (concat (map mutated_paths acts))"
      using operations_plan [OF Cons.hyps(2)] by blast
    moreover have "set (mutated_paths act) \<inter> set (concat (map mutated_paths acts)) = {}"
      using Cons.prems by simp
    ultimately have "set (op_paths op) \<inter> set (concat (map op_paths (somes ops))) = {}"
      by blast
    with Some \<open>distinct (op_paths op)\<close> Cons show ?thesis by simp
  next
    case None
    with Cons show ?thesis by simp
  qed
qed simp

section \<open>Executing a job\<close>

lemma run_job_safe:
  assumes run: "run_job C V now j r proposed selected pf result s = (res, s')" and L: "ag_lib C = L"
    and ok: "ok (rs_vault (ag_rec s))"
    and plan: "list_all2 (planned_for (abs (rs_vault (ag_rec s)))) selected (pf_operations pf)"
    and distinct: "distinct (concat (map mutated_paths selected))"
  shows "ok (rs_vault (ag_rec s')) \<and>
    (abs (rs_vault (ag_rec s')) = abs (rs_vault (ag_rec s)) \<and> (\<exists>e. res = Inl e) \<or>
     steps (somes (pf_operations pf)) (abs (rs_vault (ag_rec s))) (abs (rs_vault (ag_rec s'))))"
proof -
  let ?ops = "somes (pf_operations pf)" and ?v = "\<lambda>s. rs_vault (ag_rec s)"
  obtain total :: nat where total: "total =
      sum_list (map (\<lambda>op. case op_before_bytes op of None \<Rightarrow> 0 | Some b \<Rightarrow> length b) ?ops)" by blast
  show ?thesis
  proof (cases "?ops = [] \<or> ag_max_journal C < total")
    case True
    then show ?thesis
      using run ok by (auto simp: run_job_def Let_def total raise_def split: if_splits)
  next
    case False
    let ?save = "hist (h_save (r\<lparr>hr_status := status_value EXECUTING\<rparr>)) r :: ('w, history_record) ag_act"
    let ?rest = "\<lambda>res. if rec_status res = COMMITTED then commit_job C j r proposed selected pf result
        else if rec_status res = ROLLED_BACK then
          seq (record_terminal j now r ROLLED_BACK) (\<lambda>_. raise TransactionFailed)
        else if rec_status res = ROLLBACK_FAILED then
          seq (record_terminal j now r ROLLBACK_FAILED) (\<lambda>_. raise RollbackFailed)
        else raise JobStateConflict"
    have unfolded: "seq ?save (\<lambda>_. seq (on_rec (execute L V (ag_recovery_max_journal C) j ?ops)) ?rest) s = (res, s')"
      using run False unfolding run_job_def Let_def total L by simp
    obtain x s1 where save: "?save s = (x, s1)" by fastforce
    have v1: "?v s1 = ?v s" using keepsD [OF hist_keeps_vault refl save] .
    show ?thesis
    proof (cases x)
      case (Inl e)
      with unfolded save have "res = Inl e" "s' = s1" by (simp_all add: seq_def)
      with v1 ok show ?thesis by simp
    next
      case (Inr y)
      obtain q r1 where exec: "execute L V (ag_recovery_max_journal C) j ?ops (ag_rec s1) = (q, r1)" by fastforce
      have all: "ok (rs_vault r1) \<and>
        (steps ?ops (abs (?v s)) (abs (rs_vault r1)) \<and> (\<forall>z. q = Inr z \<longrightarrow> rec_status z = COMMITTED) \<or>
         abs (rs_vault r1) = abs (?v s) \<and> (\<forall>z. q = Inr z \<longrightarrow> rec_status z \<in> {CONFLICT, ROLLED_BACK}))"
        using execute_all_or_nothing [OF _ _ _ _ exec] operations_plan [OF plan] operations_distinct [OF plan distinct]
          ok v1 by simp
      show ?thesis
      proof (cases q)
        case (Inl e)
        then have "on_rec (execute L V (ag_recovery_max_journal C) j ?ops) s1 = (Inl (Raised e), s1\<lparr>ag_rec := r1\<rparr>)"
          using exec by (simp add: on_rec_def)
        then have "res = Inl (Raised e)" "s' = s1\<lparr>ag_rec := r1\<rparr>"
          using unfolded save \<open>x = Inr y\<close> by (simp_all add: seq_def)
        then show ?thesis using all by auto
      next
        case (Inr z)
        then have "on_rec (execute L V (ag_recovery_max_journal C) j ?ops) s1 = (Inr z, s1\<lparr>ag_rec := r1\<rparr>)"
          using exec by (simp add: on_rec_def)
        then have rest: "?rest z (s1\<lparr>ag_rec := r1\<rparr>) = (res, s')"
          using unfolded save \<open>x = Inr y\<close> by (simp add: seq_def)
        have "keeps (\<lambda>s. ?v s = rs_vault r1) (?rest z)"
          by (intro keeps_if keeps_seq closing_keeps_vault keeps_raise)
        from keepsD [OF this _ rest] have v': "?v s' = rs_vault r1" by simp
        have "\<exists>e. res = Inl e" if "rec_status z \<in> {CONFLICT, ROLLED_BACK}"
          using rest that by (auto simp: seq_def raise_def split: prod.splits sum.splits)
        with all Inr v' show ?thesis by auto
      qed
    qed
  qed
qed

lemma raw_read_hoare:
  "hoare (viewing a h jobs) (on_rec (on_vault (vop_read V p)))
     (\<lambda>x s. (\<exists>d. look a p = Inr d \<and> x = (d, digest d)) \<and> viewing a h jobs s) (\<lambda>e s. viewing a h jobs s)"
  unfolding hoare_def
proof (intro allI impI)
  fix s assume s: "viewing a h jobs s"
  then have okv: "ok (rs_vault (ag_rec s))" and absv: "abs (rs_vault (ag_rec s)) = a"
    by (simp_all add: viewing_def)
  from store_read_runs [OF okv, of p] obtain w where
    "vop_read V p (rs_vault (ag_rec s)) = (rbind (look a p) (\<lambda>d. Inr (d, digest d)), w)" "ok w" "abs w = a"
    unfolding absv by blast
  then show "case on_rec (on_vault (vop_read V p)) s of (Inl e, s') \<Rightarrow> viewing a h jobs s'
      | (Inr x, s') \<Rightarrow> (\<exists>d. look a p = Inr d \<and> x = (d, digest d)) \<and> viewing a h jobs s'"
    using s by (cases "look a p") (simp_all add: on_rec_def on_vault_def viewing_def)
qed

text \<open>A file whose digest is not the one of the preview.\<close>

definition stale :: "'a \<Rightarrow> history_record \<Rightarrow> action \<Rightarrow> bool" where
  "stale a r act \<longleftrightarrow> (case map_of (hr_before_hash r) (act_file act) of
     Some (Some expected) \<Rightarrow>
       (case look a (act_file act) of Inl e \<Rightarrow> True | Inr d \<Rightarrow> digest d \<noteq> expected)
   | _ \<Rightarrow> False)"

lemma view_hashes:
  "hoare (viewing a h jobs) (assert_preview_hashes V r acts)
     (\<lambda>_ s. list_all (\<lambda>act. \<not> stale a r act) acts \<and> viewing a h jobs s) (\<lambda>e s. viewing a h jobs s)"
proof (induction acts)
  case Nil
  then show ?case by (auto intro: hoare_ret)
next
  case (Cons act acts)
  have rest: "hoare (viewing a h jobs) (assert_preview_hashes V r acts)
     (\<lambda>_ s. list_all (\<lambda>act. \<not> stale a r act) (act # acts) \<and> viewing a h jobs s) (\<lambda>e s. viewing a h jobs s)"
    if "\<not> stale a r act"
    by (rule hoare_weaken [OF Cons.IH]) (use that in auto)
  show ?case
  proof (cases "map_of (hr_before_hash r) (act_file act)")
    case None
    with rest show ?thesis by (simp add: stale_def)
  next
    case (Some e)
    show ?thesis
    proof (cases e)
      case None
      with Some rest show ?thesis by (simp add: stale_def)
    next
      case (Some expected)
      have "hoare (\<lambda>s. (\<exists>d. look a (act_file act) = Inr d \<and> x = (d, digest d)) \<and> viewing a h jobs s)
          (if snd x \<noteq> expected then raise JobStateConflict else assert_preview_hashes V r acts)
          (\<lambda>_ s. list_all (\<lambda>act. \<not> stale a r act) (act # acts) \<and> viewing a h jobs s)
          (\<lambda>e s. viewing a h jobs s)" for x
        using rest \<open>map_of _ _ = Some e\<close> Some
        by (intro hoare_known hoare_if) (auto intro!: hoare_raise simp: stale_def)
      then show ?thesis
        using \<open>map_of _ _ = Some e\<close> Some
        by (auto simp: case_prod_beta intro!: hoare_else [OF raw_read_hoare] hoare_raise)
    qed
  qed
qed

text \<open>What a run may leave behind: the vault as it was, or after all operations of the
  selection, none of whose files was stale.\<close>

definition applied :: "'a \<Rightarrow> history_record \<Rightarrow> action list \<Rightarrow> 'w agents \<Rightarrow> bool" where
  "applied a r selected s \<longleftrightarrow> ok (rs_vault (ag_rec s)) \<and> list_all (\<lambda>act. \<not> stale a r act) selected \<and>
     (\<exists>ops. list_all2 (planned_for a) selected ops \<and> distinct (concat (map mutated_paths selected)) \<and>
        steps (somes ops) a (abs (rs_vault (ag_rec s))))"

definition unapplied :: "'a \<Rightarrow> 'w agents \<Rightarrow> bool" where
  "unapplied a s \<longleftrightarrow> ok (rs_vault (ag_rec s)) \<and> abs (rs_vault (ag_rec s)) = a"

lemma viewing_unapplied: "viewing a h jobs s \<Longrightarrow> unapplied a s"
  by (simp add: viewing_def unapplied_def)

abbreviation safe_rule where
  "safe_rule P a r selected m \<equiv> hoare P m (\<lambda>x. applied a r selected) (\<lambda>e s. unapplied a s \<or> applied a r selected s)"

lemma decide_safe:
  assumes L: "ag_lib C = L" and plan: "list_all2 (planned_for a) selected (pf_operations pf)"
    and fresh: "list_all (\<lambda>act. \<not> stale a r act) selected"
    and result: "result = evaluate_set L E selected facts level"
  shows "safe_rule (viewing a h jobs) a r selected
    (if ps_decision result = DENY then raise JobStateConflict
     else run_job C V now j r proposed selected pf result)"
proof (rule hoare_if)
  show "safe_rule (viewing a h jobs) a r selected (raise JobStateConflict)"
    by (rule hoare_raise) (simp add: viewing_unapplied)
next
  assume "ps_decision result \<noteq> DENY"
  then have dist: "distinct (concat (map mutated_paths selected))"
    using no_conflict_distinct not_denied_no_conflict result by blast
  show "safe_rule (viewing a h jobs) a r selected (run_job C V now j r proposed selected pf result)"
  proof (rule hoareI)
    fix s x s'
    assume s: "viewing a h jobs s" and run: "run_job C V now j r proposed selected pf result s = (Inr x, s')"
    from run_job_safe [OF run L _ _ dist] s plan dist fresh show "applied a r selected s'"
      by (auto simp: viewing_def applied_def)
  next
    fix s e s'
    assume s: "viewing a h jobs s" and run: "run_job C V now j r proposed selected pf result s = (Inl e, s')"
    from run_job_safe [OF run L _ _ dist] s plan dist fresh show "unapplied a s' \<or> applied a r selected s'"
      by (auto simp: viewing_def applied_def unapplied_def)
  qed
qed

lemma checked_safe:
  assumes L: "ag_lib C = L" and usable: "list_all (usable_action usable) selected"
  shows "safe_rule (viewing a h jobs) a r selected
    (seq (preflight C V selected) (\<lambda>pf. seq (assert_preview_hashes V r selected) (\<lambda>_.
       let result = evaluate_set L (ag_policy C) selected (pf_facts pf) (Some (hr_permission_level r)) in
       if ps_decision result = DENY then raise JobStateConflict
       else run_job C V now j r proposed selected pf result)))"
proof (rule hoare_seq [where R = "\<lambda>pf s. list_all2 (planned_for a) selected (pf_operations pf) \<and> viewing a h jobs s"])
  fix pf
  show "safe_rule (\<lambda>s. list_all2 (planned_for a) selected (pf_operations pf) \<and> viewing a h jobs s) a r selected
    (seq (assert_preview_hashes V r selected) (\<lambda>_.
       let result = evaluate_set L (ag_policy C) selected (pf_facts pf) (Some (hr_permission_level r)) in
       if ps_decision result = DENY then raise JobStateConflict
       else run_job C V now j r proposed selected pf result))"
    unfolding Let_def
    by (intro hoare_known hoare_seq [where R = "\<lambda>_ s. list_all (\<lambda>act. \<not> stale a r act) selected \<and> viewing a h jobs s"]
        decide_safe [OF L _ _ refl])
      (auto intro: hoare_weaken [OF view_hashes] simp: viewing_unapplied)
qed (auto intro: hoare_weaken [OF preflight_view [OF usable]] simp: viewing_unapplied)

text \<open>Up to the transaction nothing but the cache of jobs can change.\<close>

lemma execute_locked_safe:
  assumes run: "execute_locked C V now j ids s = (res, s')" and L: "ag_lib C = L"
    and ok: "ok (rs_vault (ag_rec s))"
    and job: "load_job j s = (Inr (r, view), s0)"
    and acts: "actions_from_record L r = Inr proposed" "list_all (usable_action usable) proposed"
  shows "unapplied (abs (rs_vault (ag_rec s))) s' \<and> (\<exists>e. res = Inl e) \<or>
     hr_status r = status_value AWAITING_CONFIRMATION \<and>
     (\<exists>selected. select_actions proposed ids = Inr selected \<and> applied (abs (rs_vault (ag_rec s))) r selected s')"
proof -
  let ?a = "abs (rs_vault (ag_rec s))"
  have v0: "rs_vault (ag_rec s0) = rs_vault (ag_rec s)" using keepsD [OF load_keeps_vault refl job] .
  then have view0: "viewing ?a (rs_history (ag_rec s0)) (ag_jobs s0) s0"
    using ok by (simp add: viewing_def)
  show ?thesis
  proof (cases "hr_status r = status_value AWAITING_CONFIRMATION")
    case False
    then have "res = Inl JobStateConflict" "s' = s0"
      using run job by (simp_all add: execute_locked_def seq_def raise_def)
    with viewing_unapplied [OF view0] show ?thesis by simp
  next
    case pending: True
    show ?thesis
    proof (cases "select_actions proposed ids")
      case (Inl e)
      then have "res = Inl e" "s' = s0"
        using run job pending acts(1) L by (simp_all add: execute_locked_def seq_def lift_def)
      with viewing_unapplied [OF view0] show ?thesis by simp
    next
      case (Inr selected)
      have usable: "list_all (usable_action usable) selected"
        using acts(2) selected_subset [OF Inr] by (auto simp: list_all_iff)
      have "seq (preflight C V selected) (\<lambda>pf. seq (assert_preview_hashes V r selected) (\<lambda>_.
          let result = evaluate_set L (ag_policy C) selected (pf_facts pf) (Some (hr_permission_level r)) in
          if ps_decision result = DENY then raise JobStateConflict
          else run_job C V now j r proposed selected pf result)) s0 = (res, s')"
        using run job pending acts(1) Inr L by (simp add: execute_locked_def seq_def lift_def Let_def)
      with hoareD_Inr [OF checked_safe [OF L usable] view0] hoareD_Inl [OF checked_safe [OF L usable] view0]
        pending Inr show ?thesis
        by (cases res) auto
    qed
  qed
qed

section \<open>Planning only looks\<close>

lemma try_read_looks: "keeps (viewing a h jobs) (try_read V p)"
  unfolding hoare_keeps by (rule read_keeps_view)

lemma one_looks: "keeps (viewing a h jobs) (preflight_one C V act)"
proof -
  have "keeps (viewing a h jobs) (preflight_move C V act f data d)" for f data d
    unfolding preflight_move_def case_prod_beta
    by (intro keeps_seq keeps_if try_read_looks keeps_ret)
  moreover have "keeps (viewing a h jobs) (preflight_update C V act f data d)" for f data d
    unfolding preflight_update_def Let_def case_prod_beta
    by (intro keeps_seq keeps_if keeps_case_option try_read_looks keeps_ret keeps_raise keeps_lift)
  ultimately show ?thesis
    unfolding preflight_one_def Let_def case_prod_beta
    by (intro keeps_seq keeps_if try_read_looks keeps_lift)
qed

lemma each_looks: "keeps (viewing a h jobs) (preflight_each C V acts)"
  by (induction acts) (auto intro!: keeps_seq one_looks)

lemma preflight_looks: "keeps (viewing a h jobs) (preflight C V acts)"
  unfolding preflight_def Let_def by (intro keeps_seq each_looks keeps_ret)

lemma looks_unapplied: "(\<And>h jobs. keeps (viewing a h jobs) m) \<Longrightarrow> keeps (unapplied a) m"
  by (auto simp: keeps_def viewing_def unapplied_def)

lemma still_unapplied: "(\<And>w. keeps (\<lambda>s. rs_vault (ag_rec s) = w) m) \<Longrightarrow> keeps (unapplied a) m"
  by (auto simp: keeps_def unapplied_def)

lemma keeps_cond: "(b \<Longrightarrow> keeps P m) \<Longrightarrow> (\<not> b \<Longrightarrow> keeps P n) \<Longrightarrow> keeps P (if b then m else n)"
  by simp

lemma plan_looks:
  assumes "\<not> jr_execute request"
  shows "keeps (unapplied a) (plan C V planner now j request)"
  unfolding plan_def Let_def case_prod_beta using assms
  by (auto intro!: keeps_seq keeps_cond looks_unapplied [OF preflight_looks] still_unapplied [OF hist_keeps_vault]
      still_unapplied [OF cache_keeps_vault] still_unapplied [OF detail_keeps_vault]
      still_unapplied [OF closing_keeps_vault(3)])

end

end
