(* ===== verification/FileTransactions.thy ===== *)
theory FileTransactions imports RecoveryCrash AgentProofs begin

text \<open>
  The file service provides the contract of the recovery code and of the job service: what they prove
  about any vault holds for files.
\<close>

interpretation file_transactions: transaction_vault "vault_ops_of L V" "vault_ok L V" w_tree
    "vault_look L V" usable_path L for L V
  by (rule transaction_vault.intro) (rule file_vault.vault_store_axioms)

end
