(* ===== verification/ScannerProofs.thy ===== *)
theory ScannerProofs imports Recovery HistoryLaws begin

text \<open>
  The startup scanner on a repository that works: marking flags every interrupted job and run, and
  nothing else; scanning changes nothing.
\<close>

definition working :: "history \<Rightarrow> bool" where
  "working h \<longleftrightarrow> (\<exists>db. hs_repository h = Some db \<and> db_faults db = [])"

definition flag_job :: "history_record \<Rightarrow> history_record" where
  "flag_job r = r\<lparr>hr_status := status_value RECOVERY_REQUIRED,
     hr_error := Some (lit ''process_interrupted'', lit ''process interrupted; explicit recovery required'')\<rparr>"

definition flag_run :: "pystr \<Rightarrow> run_row \<Rightarrow> run_row" where
  "flag_run now r = r\<lparr>rr_status := run_status_value RRecoveryRequired,
     rr_error_code := Some (lit ''process_interrupted''),
     rr_message := Some (lit ''process interrupted; explicit diagnosis required''),
     rr_finished_at := Some (truthy_or (rr_finished_at r) now)\<rparr>"

definition unfinished_job :: "history_record \<Rightarrow> bool" where
  "unfinished_job r \<longleftrightarrow> hr_status r \<in> set (map status_value unfinished_states)"

definition uncertain_run :: "run_row \<Rightarrow> bool" where
  "uncertain_run r \<longleftrightarrow> rr_status r \<in> set uncertain_run_statuses"

lemma flag_simps [simp]:
  "hr_job_id (flag_job r) = hr_job_id r" "flag_job (flag_job r) = flag_job r"
  "rr_run_id (flag_run now q) = rr_run_id q" "rr_created_at (flag_run now q) = rr_created_at q"
  by (simp_all add: flag_job_def flag_run_def)

section \<open>Single calls\<close>

lemma working_save:
  assumes "working h"
  shows "\<exists>h'. h_save r h = (Inr r, h') \<and> working h' \<and> job_rows h' = upsert hr_job_id r (job_rows h) \<and>
    run_rows h' = run_rows h \<and> journal_rows h' = journal_rows h"
  using assms by (auto simp: working_def h_save_def repo_save_def plumbing job_rows_def run_rows_def
      journal_rows_def Let_def fun_eq_iff)

lemma working_save_run:
  assumes "working h" "rr_created_at r \<noteq> None"
  shows "\<exists>h'. h_save_run r h = (Inr r, h') \<and> working h' \<and> run_rows h' = upsert rr_run_id r (run_rows h) \<and>
    job_rows h' = job_rows h \<and> journal_rows h' = journal_rows h"
  using assms by (auto simp: working_def h_save_run_def repo_save_run_def plumbing job_rows_def run_rows_def
      journal_rows_def Let_def fun_eq_iff)

lemma working_get: "working h \<Longrightarrow> h_get i h = (Inr (lookup_row hr_job_id i (job_rows h)), h)"
  by (auto simp: working_def h_get_def repo_get_def plumbing job_rows_def Let_def)

lemma working_journal: "working h \<Longrightarrow> h_journal i h = (Inr (journal_rows h i), h)"
  by (auto simp: working_def h_journal_def repo_journal_def plumbing journal_rows_def Let_def)

lemma working_unfinished: "working h \<Longrightarrow> h_unfinished_job_rows h =
    (Inr (map job_row (sort_key hr_start_time (filter unfinished_job (job_rows h)))), h)"
  unfolding unfinished_job_def
  by (auto simp: working_def h_unfinished_job_rows_def repo_job_ids_with_statuses_def plumbing job_rows_def
      jobs_in_status_def unfinished_states_def Let_def)

lemma working_uncertain: "working h \<Longrightarrow> h_runs_with_status uncertain_run_statuses h =
    (Inr (sort_key rr_started_at (filter uncertain_run (run_rows h))), h)"
  unfolding uncertain_run_def
  by (auto simp: working_def h_runs_with_status_def repo_runs_with_status_def plumbing run_rows_def
      runs_in_status_def uncertain_run_statuses_def Let_def)

lemma working_available: "working h \<Longrightarrow> available h"
  by (auto simp: working_def available_def)

section \<open>Replacing rows by key\<close>

lemma upsert_replaces:
  assumes "key x \<in> key ` set xs" "distinct (map key xs)"
  shows "upsert key x xs = map (\<lambda>y. if key y = key x then x else y) xs"
  using assms
proof (induction xs)
  case (Cons y ys)
  show ?case
  proof (cases "key y = key x")
    case True
    then have "map (\<lambda>z. if key z = key x then x else z) ys = ys"
      using Cons.prems(2) by (intro map_idI) (force simp: image_iff)
    with True show ?thesis by simp
  next
    case False
    with Cons show ?thesis by auto
  qed
qed simp

lemma lookup_row_known: "k \<in> key ` set xs \<Longrightarrow> \<exists>r. lookup_row key k xs = Some r"
  by (induction xs) (auto simp: lookup_row_def)

lemma distinct_key_unique: "distinct (map key xs) \<Longrightarrow> x \<in> set xs \<Longrightarrow> y \<in> set xs \<Longrightarrow> key x = key y \<Longrightarrow> x = y"
  by (meson distinct_map inj_onD)

section \<open>Marking\<close>

lemma mark_jobs_runs:
  assumes "working h" "distinct (map hr_job_id (job_rows h))" "fst ` set rows \<subseteq> hr_job_id ` set (job_rows h)"
  shows "\<exists>h'. mark_jobs rows n h = (Inr (n + length rows), h') \<and> working h' \<and>
    job_rows h' = map (\<lambda>r. if hr_job_id r \<in> fst ` set rows then flag_job r else r) (job_rows h) \<and>
    run_rows h' = run_rows h \<and> journal_rows h' = journal_rows h"
  using assms
proof (induction rows arbitrary: n h)
  case Nil
  then show ?case by (simp add: ret_def)
next
  case (Cons row rows)
  obtain j st en where row: "row = (j, st, en)" by (cases row)
  obtain r where r: "lookup_row hr_job_id j (job_rows h) = Some r"
    using lookup_row_known [of j hr_job_id "job_rows h"] Cons.prems(3) row by auto
  note rj = lookup_row_key [OF r]
  obtain h1 where h1: "h_save (flag_job r) h = (Inr (flag_job r), h1)" "working h1"
      "job_rows h1 = upsert hr_job_id (flag_job r) (job_rows h)"
      "run_rows h1 = run_rows h" "journal_rows h1 = journal_rows h"
    using working_save [OF Cons.prems(1), of "flag_job r"] by blast
  have "hr_job_id y = j \<Longrightarrow> y \<in> set (job_rows h) \<Longrightarrow> y = r" for y
    using distinct_key_unique [OF Cons.prems(2)] rj by metis
  then have rows1: "job_rows h1 = map (\<lambda>y. if hr_job_id y = j then flag_job y else y) (job_rows h)"
    unfolding h1(3) using rj Cons.prems(2) by (subst upsert_replaces) auto
  have same: "map hr_job_id (job_rows h1) = map hr_job_id (job_rows h)" unfolding rows1 by simp
  then have "hr_job_id ` set (job_rows h1) = hr_job_id ` set (job_rows h)" by (metis set_map)
  with same have "distinct (map hr_job_id (job_rows h1))" "fst ` set rows \<subseteq> hr_job_id ` set (job_rows h1)"
    using Cons.prems(2,3) by simp_all
  from Cons.IH [OF h1(2) this, of "Suc n"] obtain h2 where
    h2: "mark_jobs rows (Suc n) h1 = (Inr (Suc n + length rows), h2)" "working h2"
      "job_rows h2 = map (\<lambda>r. if hr_job_id r \<in> fst ` set rows then flag_job r else r) (job_rows h1)"
      "run_rows h2 = run_rows h1" "journal_rows h2 = journal_rows h1" by blast
  have "job_rows h2 = map (\<lambda>r. if hr_job_id r \<in> fst ` set (row # rows) then flag_job r else r) (job_rows h)"
    unfolding h2(3) rows1 by (simp add: comp_def row)
  with h1 h2 r row working_get [OF Cons.prems(1), of j] show ?case
    by (simp add: seq_def flag_job_def)
qed

lemma mark_runs_runs:
  assumes "working h" "distinct (map rr_run_id (run_rows h))" "distinct (map rr_run_id rs)"
    and "set rs \<subseteq> set (run_rows h)" "list_all (\<lambda>r. rr_created_at r \<noteq> None) rs"
  shows "\<exists>h'. mark_runs now rs n h = (Inr (n + length rs), h') \<and> working h' \<and>
    run_rows h' = map (\<lambda>r. if r \<in> set rs then flag_run now r else r) (run_rows h) \<and>
    job_rows h' = job_rows h \<and> journal_rows h' = journal_rows h"
  using assms
proof (induction rs arbitrary: n h)
  case Nil
  then show ?case by (simp add: ret_def)
next
  case (Cons r rs)
  obtain h1 where h1: "h_save_run (flag_run now r) h = (Inr (flag_run now r), h1)" "working h1"
      "run_rows h1 = upsert rr_run_id (flag_run now r) (run_rows h)"
      "job_rows h1 = job_rows h" "journal_rows h1 = journal_rows h"
    using working_save_run [OF Cons.prems(1), of "flag_run now r"] Cons.prems(5) by auto
  have uniq: "rr_run_id y = rr_run_id r \<Longrightarrow> y \<in> set (run_rows h) \<Longrightarrow> y = r" for y
    using distinct_key_unique [OF Cons.prems(2)] Cons.prems(4) by (meson list.set_intros(1) subsetD)
  have rows1: "run_rows h1 = map (\<lambda>y. if y = r then flag_run now r else y) (run_rows h)"
    unfolding h1(3) using Cons.prems(2,4) uniq by (subst upsert_replaces) auto
  have "r \<notin> set rs" using Cons.prems(3) by auto
  then have "set rs \<subseteq> set (run_rows h1)" using Cons.prems(4) unfolding rows1 by (auto simp: image_iff)
  moreover have "map rr_run_id (run_rows h1) = map rr_run_id (run_rows h)" unfolding rows1 by simp
  then have "distinct (map rr_run_id (run_rows h1))" using Cons.prems(2) by metis
  ultimately obtain h2 where
    h2: "mark_runs now rs (Suc n) h1 = (Inr (Suc n + length rs), h2)" "working h2"
      "run_rows h2 = map (\<lambda>r. if r \<in> set rs then flag_run now r else r) (run_rows h1)"
      "job_rows h2 = job_rows h1" "journal_rows h2 = journal_rows h1"
    using Cons.IH [OF h1(2), of "Suc n"] Cons.prems(3,5) by auto
  have "flag_run now r \<notin> set rs"
  proof
    assume "flag_run now r \<in> set rs"
    then have "rr_run_id (flag_run now r) \<in> rr_run_id ` set rs" by (rule imageI)
    with Cons.prems(3) show False by simp
  qed
  then have "run_rows h2 = map (\<lambda>q. if q \<in> set (r # rs) then flag_run now q else q) (run_rows h)"
    unfolding h2(3) rows1 by simp
  with h1 h2 show ?case
    by (simp add: seq_def flag_run_def)
qed

lemma mark_recovery_required_exact:
  assumes "working h" "history_wf h" "list_all (\<lambda>r. rr_created_at r \<noteq> None) (run_rows h)"
  shows "\<exists>h'. mark_recovery_required now h =
      (Inr (length (filter unfinished_job (job_rows h)), length (filter uncertain_run (run_rows h))), h') \<and>
    job_rows h' = map (\<lambda>r. if unfinished_job r then flag_job r else r) (job_rows h) \<and>
    run_rows h' = map (\<lambda>r. if uncertain_run r then flag_run now r else r) (run_rows h) \<and>
    journal_rows h' = journal_rows h"
proof -
  let ?jobs = "map job_row (sort_key hr_start_time (filter unfinished_job (job_rows h)))"
  let ?runs = "sort_key rr_started_at (filter uncertain_run (run_rows h))"
  have keys: "distinct (map hr_job_id (job_rows h))" "distinct (map rr_run_id (run_rows h))"
    using assms(1,2) by (auto simp: working_def history_wf_def db_wf_def job_rows_def run_rows_def)
  have ids: "fst ` set ?jobs = hr_job_id ` {r \<in> set (job_rows h). unfinished_job r}"
    by (auto simp: job_row_def image_iff)
  obtain h1 where h1: "mark_jobs ?jobs 0 h = (Inr (length ?jobs), h1)" "working h1"
      "job_rows h1 = map (\<lambda>r. if hr_job_id r \<in> fst ` set ?jobs then flag_job r else r) (job_rows h)"
      "run_rows h1 = run_rows h" "journal_rows h1 = journal_rows h"
    using mark_jobs_runs [OF assms(1) keys(1), of ?jobs 0] ids by auto
  have "job_rows h1 = map (\<lambda>r. if unfinished_job r then flag_job r else r) (job_rows h)"
    unfolding h1(3) ids using distinct_key_unique [OF keys(1)] by (intro map_cong refl) (auto simp: image_iff)
  moreover have "distinct (map rr_run_id ?runs)"
    using keys(2) by (simp add: distinct_map inj_on_def)
  then obtain h2 where h2: "mark_runs now ?runs 0 h1 = (Inr (length ?runs), h2)"
      "run_rows h2 = map (\<lambda>r. if r \<in> set ?runs then flag_run now r else r) (run_rows h1)"
      "job_rows h2 = job_rows h1" "journal_rows h2 = journal_rows h1"
    using mark_runs_runs [OF h1(2), of ?runs now 0] keys(2) h1(4) assms(3) by (auto simp: list_all_iff)
  moreover have "run_rows h2 = map (\<lambda>r. if uncertain_run r then flag_run now r else r) (run_rows h)"
    unfolding h2(2) h1(4) by (intro map_cong refl) simp
  moreover have "mark_recovery_required now h = (Inr (length ?jobs, length ?runs), h2)"
    using working_uncertain [OF h1(2)] h1(1,4) h2(1) working_available [OF assms(1)]
      working_unfinished [OF assms(1)]
    by (simp add: mark_recovery_required_def seq_def reading_def ret_def)
  ultimately show ?thesis
    using h1(5) by (intro exI [of _ h2]) simp
qed

section \<open>Scanning\<close>

lemma scan_jobs_runs:
  assumes "working h"
  shows "scan_jobs rows h = (Inr (map (\<lambda>(j, st, en). \<lparr>fj_job_id = j, fj_status = st,
     fj_uncertain = list_ex (\<lambda>e. je_state e \<in> {JPending, JApplied}) (journal_rows h j)\<rparr>) rows), h)"
  using assms
  by (induction rows) (auto simp: ret_def seq_def journal_uncertain_def try_else_def working_journal)

lemma scan_exact:
  assumes "working h"
  shows "\<exists>res. scan h = (Inr res, h) \<and> sc_scanned res \<and>
    set (map fj_job_id (sc_jobs res)) = hr_job_id ` set (filter unfinished_job (job_rows h)) \<and>
    mset (sc_runs res) = mset (filter uncertain_run (run_rows h)) \<and>
    sc_total res = length (filter unfinished_job (job_rows h)) + length (filter uncertain_run (run_rows h))"
  using assms scan_jobs_runs [OF assms] working_unfinished [OF assms] working_uncertain [OF assms]
    working_available [OF assms]
  by (simp add: scan_def seq_def reading_def ret_def job_row_def comp_def image_image)

end
