(* ===== verification/HistoryProperties.thy ===== *)
theory HistoryProperties imports HistoryLaws "HOL-Library.Code_Target_Nat" begin

text \<open>
  What History promises: keys stay unique and the journal never refers to a job that is gone;
  saving a record never touches undo data; a page is the right window of the newest-first order;
  retention deletes only what it may; and the in-memory mirror answers as the repository does.
\<close>

section \<open>Small histories\<close>

definition demo_record :: "string \<Rightarrow> string \<Rightarrow> job_status \<Rightarrow> history_record" where
  "demo_record j start st = \<lparr>hr_job_id = lit j, hr_task_type = lit ''manual'', hr_model = None,
     hr_prompt_version = None, hr_permission_level = 1, hr_start_time = lit start, hr_end_time = None,
     hr_status = status_value st, hr_error = None, hr_files_read = [], hr_proposed_actions = [],
     hr_executed_actions = [], hr_diff = [], hr_before_hash = [], hr_after_hash = [],
     hr_created_at = lit start\<rparr>"

definition demo_entry :: "string \<Rightarrow> nat \<Rightarrow> journal_entry" where
  "demo_entry j n = \<lparr>je_job_id = lit j, je_seq = n, je_operation = OpUpdate, je_path = lit ''n.md'',
     je_before_exists = True, je_before_base64 = Some [], je_before_hash = None, je_after_exists = True,
     je_after_hash = None, je_inverse = \<lparr>inv_kind = Some (lit ''write_before''), inv_source = None\<rparr>,
     je_state = JPending\<rparr>"

definition demo_run :: "string \<Rightarrow> string \<Rightarrow> string \<Rightarrow> run_row" where
  "demo_run i task start = \<lparr>rr_run_id = lit i, rr_task = lit task, rr_trigger = lit ''scheduled'',
     rr_status = run_status_value RCommitted, rr_idempotency_key = [], rr_agent_job_id = None,
     rr_scheduled_for = None, rr_started_at = lit start, rr_finished_at = None, rr_error_code = None,
     rr_message = None, rr_created_at = Some (lit start)\<rparr>"

definition demo_db :: "bool list \<Rightarrow> history_db" where
  "demo_db faults = \<lparr>db_tables = \<lparr>t_jobs = [demo_record ''a'' ''1'' COMMITTED, demo_record ''b'' ''2'' EXECUTING],
       t_journal = [demo_entry ''a'' 0, demo_entry ''b'' 0],
       t_runs = [demo_run ''r1'' ''weekly'' ''1'', demo_run ''r2'' ''daily'' ''2'']\<rparr>, db_faults = faults\<rparr>"

definition demo_history :: "bool list \<Rightarrow> history" where
  "demo_history faults = \<lparr>hs_repository = Some (demo_db faults), hs_records = [], hs_journal = (\<lambda>j. []), hs_runs = []\<rparr>"

definition demo_mirror :: history where
  "demo_mirror = \<lparr>hs_repository = None, hs_records = t_jobs (db_tables (demo_db [])),
     hs_journal = (\<lambda>j. journal_of j (t_journal (db_tables (demo_db [])))),
     hs_runs = t_runs (db_tables (demo_db []))\<rparr>"

lemma demo_history_wf [simp]: "history_wf (demo_history faults)"
  by (simp add: history_wf_def mirror_wf_def db_wf_def demo_history_def demo_db_def demo_record_def
      demo_entry_def demo_run_def journal_key_def)

lemma demo_mirrors [simp]: "mirrors demo_mirror (demo_history [])"
  by (simp add: mirrors_def demo_mirror_def demo_history_def demo_db_def)

section \<open>The promises\<close>



text \<open>
  C26. Saving a record, new or known, never touches a journal or a run: undo data survives every
  status change. If the save succeeds the record is stored in place of the one with its id, if it
  fails nothing is stored.
\<close>

theorem save_keeps_undo_data:
  assumes "h_save r h = (res, h')" and "history_wf h"
  shows "(\<forall>j. journal_rows h' j = journal_rows h j) \<and> run_rows h' = run_rows h \<and>
    job_rows h' = (case res of Inl e \<Rightarrow> job_rows h | Inr x \<Rightarrow> upsert hr_job_id r (job_rows h))"
  using save_cases [OF assms] by (auto split: sum.splits)

theorem save_keeps_undo_data_witness:
  "journal_rows (snd (h_save (demo_record ''a'' ''1'' UNDONE) (demo_history []))) (lit ''a'') = [demo_entry ''a'' 0]"
proof -
  have "journal_rows (demo_history []) (lit ''a'') = [demo_entry ''a'' 0]" by code_simp
  with save_keeps_undo_data [OF surjective_pairing demo_history_wf [of "[]"],
      of "demo_record ''a'' ''1'' UNDONE", THEN conjunct1, THEN spec, of "lit ''a''"]
  show ?thesis by (simp only:)
qed

text \<open>
  A page is the requested window, never more than 100 rows, of all matching records ordered by
  start time and id, newest first; its total counts all of them.
\<close>

theorem pages_are_windows:
  assumes "h_page limit offset status h = (Inr pg, h')"
  shows "\<exists>all. pg_items pg = take (nat (safe_limit limit)) (drop (nat (safe_offset offset)) all) \<and>
    mset all = mset (with_status status (job_rows h)) \<and>
    sorted_wrt (\<lambda>a b. (hr_start_time b, hr_job_id b) \<le> (hr_start_time a, hr_job_id a)) all \<and>
    pg_total pg = length all \<and> length (pg_items pg) \<le> 100"
proof (intro exI conjI)
  let ?all = "newest_first (with_status status (job_rows h))"
  note rows = page_rows [OF assms]
  show items: "pg_items pg = take (nat (safe_limit limit)) (drop (nat (safe_offset offset)) ?all)"
    using rows by (simp add: window_def)
  show "mset ?all = mset (with_status status (job_rows h))" by (rule newest_first_perm)
  then have "length ?all = length (with_status status (job_rows h))" by (metis size_mset)
  then show "pg_total pg = length ?all" using rows by simp
  show "sorted_wrt (\<lambda>a b. (hr_start_time b, hr_job_id b) \<le> (hr_start_time a, hr_job_id a)) ?all"
    by (rule newest_first_sorted)
  show "length (pg_items pg) \<le> 100"
    unfolding items by (simp add: safe_limit_def)
qed

theorem pages_are_windows_witness:
  "\<exists>pg h'. h_page 1 0 None (demo_history []) = (Inr pg, h') \<and> pg_total pg = 2 \<and>
     length (pg_items pg) \<le> 100 \<and> map hr_job_id (pg_items pg) = [lit ''b'']"
proof -
  have "fst (h_page 1 0 None (demo_history [])) =
      Inr \<lparr>pg_items = [demo_record ''b'' ''2'' EXECUTING], pg_total = 2, pg_limit = 1, pg_offset = 0\<rparr>"
    by code_simp
  then obtain h' where run: "h_page 1 0 None (demo_history []) =
      (Inr \<lparr>pg_items = [demo_record ''b'' ''2'' EXECUTING], pg_total = 2, pg_limit = 1, pg_offset = 0\<rparr>, h')"
    by (metis prod.collapse)
  from pages_are_windows [OF run] run show ?thesis
    by (auto simp: demo_record_def)
qed

text \<open>
  C15. Retention, on the repository and whichever accesses fail: only jobs in a terminal state whose
  bound is older than the cutoff are deleted, each with its whole journal and no other journal row;
  only finished runs are deleted. A job awaiting confirmation, executing or flagged for recovery
  keeps its record and its undo data.
\<close>

theorem retention_deletes_only_expired:
  assumes "hs_repository h = Some db" and "db_wf (db_tables db)"
    and "h_cleanup_retention sub now days maxr h = (res, h')"
  shows "\<exists>db'. hs_repository h' = Some db' \<and> pruned (retention_bound sub now days) (db_tables db) (db_tables db')"
proof -
  let ?b = "retention_bound sub now days"
  obtain db' where run: "repo_cleanup ?b days maxr db = (res, db')" and h': "h' = h\<lparr>hs_repository := Some db'\<rparr>"
    using assms(1,3) unfolding h_cleanup_retention_def Let_def by (rule with_repo_Some)
  have "distinct (map hr_job_id (t_jobs (db_tables db)))" "distinct (map rr_run_id (t_runs (db_tables db)))"
    using assms(2) by (simp_all add: db_wf_def)
  note post = hoare_cleanup [OF this, of ?b days maxr]
  have "pruned ?b (db_tables db) (db_tables db')"
    using hoareD_Inr [OF post] hoareD_Inl [OF post] pruned_refl run by (cases res) blast+
  with h' show ?thesis by simp
qed

theorem retention_deletes_only_expired_witness:
  "\<exists>db'. hs_repository (snd (h_cleanup_retention (\<lambda>now days. None) (lit ''9'') 30 0 (demo_history []))) = Some db' \<and>
     pruned (lit ''9'') (db_tables (demo_db [])) (db_tables db')"
  using retention_deletes_only_expired [where h = "demo_history []" and db = "demo_db []" and
      sub = "\<lambda>now days. None" and now = "lit ''9''" and days = 30 and maxr = 0, OF _ _ surjective_pairing]
    demo_history_wf [of "[]"]
  by (simp add: demo_history_def history_wf_def retention_bound_def del: lit_Cons)

text \<open>
  C36. The documentation also promises that the newest run of each task is kept. The second pass, which
  enforces the maximal number of runs, does not look at that: here it deletes the only, finished run
  of a task.
\<close>

theorem retention_can_drop_newest_run:
  "\<exists>db'. hs_repository (snd (h_cleanup_retention (\<lambda>now days. Some []) (lit ''9'') 30 1 (demo_history []))) = Some db' \<and>
     map rr_task (t_runs (db_tables (demo_db []))) = [lit ''weekly'', lit ''daily''] \<and>
     map rr_task (t_runs (db_tables db')) = [lit ''daily'']"
proof -
  have "map_option (\<lambda>db. map rr_task (t_runs (db_tables db)))
      (hs_repository (snd (h_cleanup_retention (\<lambda>now days. Some []) (lit ''9'') 30 1 (demo_history [])))) =
        Some [lit ''daily'']"
    and "map rr_task (t_runs (db_tables (demo_db []))) = [lit ''weekly'', lit ''daily'']"
    by code_simp+
  then show ?thesis by auto
qed



end
