(* ===== verification/RecoveryDemo.thy ===== *)
theory RecoveryDemo imports FileTransactions ScannerProofs VaultProperties HistoryProperties "HOL-Library.Code_Target_Nat" begin

text \<open>
  A small vault with one job, on which the closed instances run.
\<close>

section \<open>A small transaction\<close>

definition update_op :: transaction_operation where
  "update_op = \<lparr>op_operation = OpUpdate, op_path = lit ''n.md'', op_before_exists = True,
     op_before_bytes = Some [104, 105], op_before_hash = Some demo_hash, op_after_bytes = Some [104],
     op_after_hash = None, op_target_path = None, op_source = None\<rparr>"

definition create_op :: transaction_operation where
  "create_op = \<lparr>op_operation = OpCreate, op_path = lit ''d/x.md'', op_before_exists = False,
     op_before_bytes = None, op_before_hash = None, op_after_bytes = Some [7],
     op_after_hash = None, op_target_path = None, op_source = None\<rparr>"

definition demo_job_history :: "journal_entry list \<Rightarrow> history" where
  "demo_job_history es = \<lparr>hs_repository = Some \<lparr>db_tables = \<lparr>t_jobs = [demo_record ''j'' ''1'' EXECUTING],
       t_journal = es, t_runs = [demo_run ''r'' ''daily'' ''1'']\<rparr>, db_faults = []\<rparr>, hs_records = [], hs_journal = (\<lambda>j. []), hs_runs = []\<rparr>"

definition demo_state :: "journal_entry list \<Rightarrow> world rstate" where
  "demo_state es = \<lparr>rs_vault = demo_world, rs_history = Some (demo_job_history es),
     rs_journal = \<lparr>rj_job_id = lit ''j'', rj_max_bytes = 100, rj_pending = [], rj_bytes = 0\<rparr>\<rparr>"

abbreviation demo_ops :: "world vault_ops" where "demo_ops \<equiv> vault_ops_of demo_lib demo_vault"

lemma demo_state_simps [simp]:
  "rs_vault (demo_state es) = demo_world" "rs_history (demo_state es) = Some (demo_job_history es)"
  by (simp_all add: demo_state_def)

lemma demo_vault_ok [simp]: "vault_ok demo_lib demo_vault demo_world"
proof -
  have "demo_tree (p @ [temp_name (lit ''7-ab'')]) = None" for p
    using demo_tree_Some [of "p @ [temp_name (lit ''7-ab'')]"]
    by (cases "demo_tree (p @ [temp_name (lit ''7-ab'')])")
      (auto simp: temp_name_def Cons_eq_append_conv append_eq_Cons_conv)
  then show ?thesis by (simp add: vault_ok_def temps_free_def)
qed

lemma demo_planned [simp]: "list_all (planned (sha256_bytes demo_lib) usable_path) [update_op, create_op]"
  by code_simp

lemma demo_distinct [simp]: "distinct (concat (map op_paths [update_op, create_op]))"
  by code_simp

lemma demo_captured [simp]:
  "list_all (captured (sha256_bytes demo_lib) (vault_look demo_lib demo_vault demo_tree)) [update_op, create_op]"
  by code_simp

lemma demo_job_simps [simp]:
  "calm (lit ''j'') (demo_job_history es)" "working (demo_job_history es)"
  "lookup_row hr_job_id (lit ''j'') (job_rows (demo_job_history es)) = Some (demo_record ''j'' ''1'' EXECUTING)"
  "journal_rows (demo_job_history es) j = journal_of j es"
  by (simp_all add: calm_def working_def demo_job_history_def demo_record_def job_rows_def lookup_row_def
      journal_rows_def)

lemma demo_job_wf [simp]: "history_wf (demo_job_history [])"
  by (simp add: history_wf_def mirror_wf_def db_wf_def demo_job_history_def demo_record_def)

abbreviation committed_run :: "transaction_operation list \<Rightarrow> world rstate \<Rightarrow> bool" where
  "committed_run ops s \<equiv>
     map_sum (\<lambda>_. ()) rec_status (fst (execute demo_lib demo_ops 1000 (lit ''j'') ops s)) = Inr COMMITTED"

lemma demo_commits: "committed_run [update_op, create_op] (demo_state [])"
  by code_simp

lemma demo_executed:
  "\<exists>res s1. execute demo_lib demo_ops 1000 (lit ''j'') [update_op, create_op] (demo_state []) = (Inr res, s1) \<and>
     rec_status res = COMMITTED \<and> vault_ok demo_lib demo_vault (rs_vault s1)"
proof -
  let ?run = "execute demo_lib demo_ops 1000 (lit ''j'') [update_op, create_op] (demo_state [])"
  from demo_commits obtain x where x: "fst ?run = Inr x" "rec_status x = COMMITTED"
    by (cases "fst ?run") simp_all
  have "vault_ok demo_lib demo_vault (rs_vault (snd ?run))"
    using file_transactions.execute_all_or_nothing [of demo_lib "[update_op, create_op]" demo_vault
        "demo_state []" 1000 "lit ''j''" "fst ?run" "snd ?run", OF demo_planned demo_distinct _ _ surjective_pairing]
    by (simp del: list.pred_inject)
  with x show ?thesis by (intro exI [of _ x] exI [of _ "snd ?run"]) (simp add: prod_eq_iff)
qed

end
