(* ===== verification/RecoveryProperties.thy ===== *)
theory RecoveryProperties imports RecoveryDemo begin

text \<open>
  What the recovery code promises for the model of the file service.
\<close>

section \<open>Executing a transaction\<close>

text \<open>
  C10. A transaction is all or nothing. Whatever the history is and whichever of its accesses fail,
  when nobody else touches the vault the executor ends in one of two ways: every operation has been
  applied, every file outside the plan is as before and the answer, if there is one, is committed; or
  the vault is exactly what it was, and the answer is conflict or rolled back. A rollback never fails.
\<close>

theorem transaction_all_or_nothing:
  assumes "list_all (planned (sha256_bytes L) usable_path) ops" and "distinct (concat (map op_paths ops))"
    and "list_all (captured (sha256_bytes L) (vault_look L V (w_tree (rs_vault s)))) ops"
    and "vault_ok L V (rs_vault s)" and "execute L (vault_ops_of L V) m j ops s = (r, s')"
  shows "list_all (\<lambda>op. vault_look L V (w_tree (rs_vault s')) (op_path op) = Inr (op_new op)) ops \<and>
      same_but (set (concat (map op_paths ops))) (vault_look L V (w_tree (rs_vault s)))
        (vault_look L V (w_tree (rs_vault s'))) \<and>
      (case r of Inl e \<Rightarrow> True | Inr x \<Rightarrow> rec_status x = COMMITTED) \<or>
    w_tree (rs_vault s') = w_tree (rs_vault s) \<and>
      (case r of Inl e \<Rightarrow> True | Inr x \<Rightarrow> rec_status x \<in> {CONFLICT, ROLLED_BACK})"
  using file_transactions.execute_all_or_nothing [OF assms] file_transactions.steps_frame
    file_transactions.steps_look [OF _ assms(2)]
  by (cases r) (auto simp: list_all_iff)

theorem transaction_all_or_nothing_witness:
  "list_all (\<lambda>op. vault_look demo_lib demo_vault
       (w_tree (rs_vault (snd (execute demo_lib demo_ops 1000 (lit ''j'') [update_op, create_op] (demo_state [])))))
       (op_path op) = Inr (op_new op)) [update_op, create_op]"
proof -
  let ?run = "execute demo_lib demo_ops 1000 (lit ''j'') [update_op, create_op] (demo_state [])"
  from demo_commits obtain x where "fst ?run = Inr x" "rec_status x = COMMITTED"
    by (cases "fst ?run") simp_all
  with transaction_all_or_nothing [of demo_lib "[update_op, create_op]" demo_vault "demo_state []" 1000
      "lit ''j''" "fst ?run" "snd ?run", OF demo_planned demo_distinct _ _ surjective_pairing]
  show ?thesis by (simp del: list.pred_inject lit_Cons)
qed





text \<open>
  C13. Explicit recovery never overwrites somebody else's edit. If some step of a flagged job is
  pending or applied and its file now holds neither what the job wrote nor what it found, or cannot
  be read, the answer is conflict and names the file, and neither vault nor history is changed.
\<close>

theorem recovery_keeps_outside_edits:
  assumes "vault_ok L V (rs_vault s)" and "rs_history s = Some h" and "calm j h"
    and "lookup_row hr_job_id j (job_rows h) = Some r" and "hr_status r \<in> set (map status_value flagged_states)"
    and "e \<in> set (journal_rows h j)" and "executable_entry e" and "je_state e \<in> {JPending, JApplied}"
    and "file_transactions.changed_outside L (vault_look L V (w_tree (rs_vault s))) e"
  shows "\<exists>res s'. rollback_if_safe (vault_ops_of L V) j s = (Inr res, s') \<and> rec_status res = CONFLICT \<and>
    je_path e \<in> set (rec_conflict_paths res) \<and> w_tree (rs_vault s') = w_tree (rs_vault s) \<and>
    rs_history s' = Some h"
  using file_transactions.rollback_refuses [OF assms] by blast

definition edited_entry :: journal_entry where
  "edited_entry = (entry_of demo_lib (lit ''j'') 0 update_op)\<lparr>je_before_hash := Some (lit ''x'')\<rparr>"

theorem recovery_keeps_outside_edits_witness:
  "\<exists>res s'. rollback_if_safe demo_ops (lit ''j'') (demo_state [edited_entry]) = (Inr res, s') \<and>
     rec_status res = CONFLICT \<and> rec_conflict_paths res \<noteq> [] \<and> w_tree (rs_vault s') = demo_tree"
proof -
  have "hr_status (demo_record ''j'' ''1'' EXECUTING) \<in> set (map status_value flagged_states)"
    by (simp add: demo_record_def flagged_states_def)
  moreover have "journal_of (lit ''j'') [edited_entry] = [edited_entry]" "executable_entry edited_entry"
      "je_state edited_entry = JPending"
    by (simp_all add: journal_of_def edited_entry_def entry_of_def executable_entry_def update_op_def)
  moreover have "file_transactions.changed_outside demo_lib (vault_look demo_lib demo_vault demo_tree) edited_entry"
    by code_simp
  ultimately show ?thesis
    using recovery_keeps_outside_edits [of demo_lib demo_vault "demo_state [edited_entry]"
        "demo_job_history [edited_entry]" "lit ''j''" "demo_record ''j'' ''1'' EXECUTING" edited_entry]
    by (auto simp del: lit_Cons)
qed

section \<open>After a crash\<close>

text \<open>
  Marking after a crash is exact. On a history that works, every job in a non-terminal execution
  state and every queued or running run becomes recovery required with the fixed reason, every other
  job and run and every journal row is as before, and the counts are the numbers of flagged rows.
\<close>

theorem marking_is_exact:
  assumes "working h" and "history_wf h" and "list_all (\<lambda>r. rr_created_at r \<noteq> None) (run_rows h)"
  shows "\<exists>h'. mark_recovery_required now h =
      (Inr (length (filter unfinished_job (job_rows h)), length (filter uncertain_run (run_rows h))), h') \<and>
    job_rows h' = map (\<lambda>r. if unfinished_job r then flag_job r else r) (job_rows h) \<and>
    run_rows h' = map (\<lambda>r. if uncertain_run r then flag_run now r else r) (run_rows h) \<and>
    journal_rows h' = journal_rows h"
  by (rule mark_recovery_required_exact [OF assms])

theorem marking_is_exact_witness:
  "\<exists>h'. mark_recovery_required (lit ''9'') (demo_job_history []) = (Inr (1, 0), h') \<and>
     job_rows h' = [flag_job (demo_record ''j'' ''1'' EXECUTING)] \<and>
     run_rows h' = [demo_run ''r'' ''daily'' ''1'']"
proof -
  have "job_rows (demo_job_history []) = [demo_record ''j'' ''1'' EXECUTING]"
    "run_rows (demo_job_history []) = [demo_run ''r'' ''daily'' ''1'']"
    by (simp_all add: job_rows_def run_rows_def demo_job_history_def)
  moreover have "unfinished_job (demo_record ''j'' ''1'' EXECUTING)"
    by (simp add: unfinished_job_def demo_record_def unfinished_states_def)
  moreover have "\<not> uncertain_run (demo_run ''r'' ''daily'' ''1'')"
    by (simp add: uncertain_run_def demo_run_def uncertain_run_statuses_def)
  moreover have "rr_created_at (demo_run ''r'' ''daily'' ''1'') \<noteq> None" by (simp add: demo_run_def)
  ultimately show ?thesis
    using marking_is_exact [of "demo_job_history []" "lit ''9''"] by (auto simp del: lit_Cons)
qed

text \<open>
  C24. The scan only looks. On a history that works it leaves the history as it is and reports exactly
  the jobs in a non-terminal execution state and the queued and running runs, with their total.
\<close>

theorem scan_is_read_only:
  assumes "working h"
  shows "\<exists>res. scan h = (Inr res, h) \<and> sc_scanned res \<and>
    set (map fj_job_id (sc_jobs res)) = hr_job_id ` set (filter unfinished_job (job_rows h)) \<and>
    mset (sc_runs res) = mset (filter uncertain_run (run_rows h)) \<and>
    sc_total res = length (filter unfinished_job (job_rows h)) + length (filter uncertain_run (run_rows h))"
  by (rule scan_exact [OF assms])

theorem scan_is_read_only_witness:
  "\<exists>res. scan (demo_job_history []) = (Inr res, demo_job_history []) \<and> sc_scanned res"
  using scan_is_read_only [of "demo_job_history []"] by auto

section \<open>Undo after a conflict\<close>

definition half_undone :: "world rstate" where
  "half_undone = (demo_state [entry_of demo_lib (lit ''j'') 0 update_op, entry_of demo_lib (lit ''j'') 1 create_op])
     \<lparr>rs_vault := demo_world\<lparr>w_tree := demo_tree([lit ''v'', lit ''d'', lit ''x.md''] \<mapsto> FileN [7])\<rparr>\<rparr>"

text \<open>
  An undo that stops at an edited file has already written audit rows for the files it restored, and
  any audit row makes every later undo unavailable: the rest of the job cannot be undone any more,
  not even after the edit has been taken back.
\<close>

theorem conflicting_undo_is_final:
  "(case undo demo_ops (lit ''j'') half_undone of (r, s) \<Rightarrow>
      (map_sum (\<lambda>_. ()) (\<lambda>x. (rec_restored x, rec_status x)) r,
       map_sum (\<lambda>_. ()) rec_error (fst (undo demo_ops (lit ''j'') s)))) =
   (Inr ([lit ''d/x.md''], CONFLICT), Inr (Some AlreadyUndone))"
  by code_simp

end
