(* ===== verification/AgentProperties.thy ===== *)
theory AgentProperties imports RecoveryDemo begin

text \<open>
  What the job service promises: planning writes nothing; accepting a job applies the selected
  actions completely or not at all, and only on files that are as the preview showed them; stored
  actions are read back as they were written.
\<close>

section \<open>A small job\<close>

definition demo_note :: action where
  "demo_note = \<lparr>act_id = lit ''00000000-0000-0000-0000-000000000001'', act_kind = CREATE_NOTE, act_level = 1,
     act_file = lit ''d/x.md'', act_target_file = None, act_tags = [], act_link_target = None, act_patch = [],
     act_content_base64 = Some (lit ''aGk=''), act_reason = lit ''r'', act_expected_sha256 = None\<rparr>"

definition demo_cfg :: agent_cfg where
  "demo_cfg = \<lparr>ag_lib = demo_lib, ag_policy = default_engine, ag_protected = DEFAULT_PROTECTED_PREFIXES,
     ag_max_journal = 1000, ag_recovery_max_journal = 1000, ag_default_model = lit ''m'',
     tags_of = (\<lambda>t. []), unified_diff = (\<lambda>p a b. None)\<rparr>"

definition demo_job :: history_record where
  "demo_job = (demo_record ''j'' ''1'' AWAITING_CONFIRMATION)\<lparr>hr_proposed_actions := [dump_action demo_note]\<rparr>"

definition demo_agents :: "bool list \<Rightarrow> world agents" where
  "demo_agents faults = \<lparr>ag_rec = \<lparr>rs_vault = demo_world,
     rs_history = Some \<lparr>hs_repository = Some \<lparr>db_tables = \<lparr>t_jobs = [demo_job], t_journal = [], t_runs = []\<rparr>,
         db_faults = faults\<rparr>, hs_records = [], hs_journal = (\<lambda>j. []), hs_runs = []\<rparr>,
     rs_journal = \<lparr>rj_job_id = [], rj_max_bytes = 0, rj_pending = [], rj_bytes = 0\<rparr>\<rparr>,
     ag_jobs = [lit ''j'' \<mapsto> (demo_job, None)]\<rparr>"

abbreviation demo_accept :: "bool list \<Rightarrow> (agent_error + job_detail \<times> policy_set_result option) \<times> world agents" where
  "demo_accept faults \<equiv>
     accept demo_cfg demo_ops (lit ''9'') (lit ''j'') \<lparr>ar_action_ids = [], ar_confirm = True\<rparr> (demo_agents faults)"

lemma demo_accepts: "map_sum (\<lambda>_. ()) (\<lambda>x. dt_status (fst x)) (fst (demo_accept [])) = Inr (status_value COMMITTED)"
  by code_simp

lemma demo_loads: "load_job (lit ''j'') (demo_agents faults) = (Inr (demo_job, None), demo_agents faults)"
  by (simp add: load_job_def demo_agents_def del: lit_Cons)

lemma demo_stored: "actions_from_record demo_lib demo_job = Inr [demo_note]"
  by code_simp

lemma demo_usable: "list_all (usable_action usable_path) [demo_note]"
  by code_simp

lemma demo_agents_simps [simp]:
  "rs_vault (ag_rec (demo_agents faults)) = demo_world" "ag_lib demo_cfg = demo_lib"
  by (simp_all add: demo_agents_def demo_cfg_def)

section \<open>Accepting\<close>



text \<open>
  A stale preview is refused. If one selected file does not have the digest the preview recorded,
  or cannot be read, accepting fails and the vault is as before.
\<close>

theorem stale_accept_refused:
  assumes "vault_ok L V (rs_vault (ag_rec s))" and "ag_lib C = L"
    and "load_job j s = (Inr (r, view), s0)" and "actions_from_record L r = Inr proposed"
    and "list_all (usable_action usable_path) proposed"
    and "select_actions proposed (ar_action_ids body) = Inr selected" and "a \<in> set selected"
    and "file_transactions.stale L V (w_tree (rs_vault (ag_rec s))) r a"
    and "accept C (vault_ops_of L V) now j body s = (res, s')"
  shows "\<exists>e. res = Inl e \<and> w_tree (rs_vault (ag_rec s')) = w_tree (rs_vault (ag_rec s))"
proof (cases "ar_confirm body")
  case False
  with assms(9) show ?thesis by (auto simp: accept_def raise_def)
next
  case True
  then have run: "execute_locked C (vault_ops_of L V) now j (ar_action_ids body) s = (res, s')"
    using assms(9) by (simp add: accept_def)
  have "\<not> file_transactions.applied L V (w_tree (rs_vault (ag_rec s))) r selected s'"
    using assms(7,8) by (auto simp: file_transactions.applied_def list_all_iff)
  with file_transactions.execute_locked_safe [OF run assms(2,1,3,4,5)] assms(6) show ?thesis
    by (auto simp: file_transactions.unapplied_def)
qed

definition stale_job :: history_record where
  "stale_job = demo_job\<lparr>hr_before_hash := [(lit ''d/x.md'', Some (lit ''0''))]\<rparr>"

theorem stale_accept_refused_witness:
  "\<exists>e. fst (accept demo_cfg demo_ops (lit ''9'') (lit ''j'') \<lparr>ar_action_ids = [], ar_confirm = True\<rparr>
     ((demo_agents [])\<lparr>ag_jobs := [lit ''j'' \<mapsto> (stale_job, None)]\<rparr>)) = Inl e"
proof -
  let ?s = "(demo_agents [])\<lparr>ag_jobs := [lit ''j'' \<mapsto> (stale_job, None)]\<rparr>"
  have load: "load_job (lit ''j'') ?s = (Inr (stale_job, None), ?s)"
    by (simp add: load_job_def del: lit_Cons)
  have stored: "actions_from_record demo_lib stale_job = Inr [demo_note]"
    using demo_stored by (simp add: actions_from_record_def stale_job_def)
  have "case vault_look demo_lib demo_vault demo_tree (act_file demo_note) of Inl e \<Rightarrow> True | Inr d \<Rightarrow> False"
    "map_of (hr_before_hash stale_job) (act_file demo_note) = Some (Some (lit ''0''))"
    by code_simp+
  then have "file_transactions.stale demo_lib demo_vault demo_tree stale_job demo_note"
    by (simp add: file_transactions.stale_def split: sum.splits)
  then show ?thesis
    using stale_accept_refused [where L = demo_lib and V = demo_vault and C = demo_cfg and a = demo_note,
        OF _ _ load stored demo_usable _ _ _ surjective_pairing,
        of "\<lparr>ar_action_ids = [], ar_confirm = True\<rparr>" "[demo_note]" "lit ''9''"]
    by (auto simp: select_actions_def simp del: lit_Cons)
qed

text \<open>
  When the journal cannot be written the transaction does not start and the caller is told of a
  conflict, but the durable record already says executing, while the cached one still awaits
  confirmation.
\<close>

theorem failed_start_leaves_executing:
  "(case demo_accept [False, True] of (r, s) \<Rightarrow>
      (map_sum id (\<lambda>_. ()) r,
       map_option (map hr_status \<circ> job_rows) (rs_history (ag_rec s)),
       map_option (hr_status \<circ> fst) (ag_jobs s (lit ''j'')))) =
   (Inl JobStateConflict, Some [status_value EXECUTING], Some (status_value AWAITING_CONFIRMATION))"
  by code_simp

section \<open>Planning\<close>

definition demo_request :: job_request where
  "demo_request = \<lparr>jr_task_type = lit ''manual'', jr_level = 1,
     jr_scope = \<lparr>scope_paths = [], scope_max_files = 10, scope_max_chars = 60000\<rparr>,
     jr_actions = [demo_note], jr_execute = False\<rparr>"

text \<open>
  C18. Planning a job that is not to be executed at once leaves the vault as it is, whatever the
  request, the planner and the policy say and whatever fails.
\<close>

theorem plan_writes_nothing:
  assumes "vault_ok L V (rs_vault (ag_rec s))" and "\<not> jr_execute request"
    and "plan C (vault_ops_of L V) planner now j request s = (res, s')"
  shows "w_tree (rs_vault (ag_rec s')) = w_tree (rs_vault (ag_rec s))"
proof -
  let ?t = "w_tree (rs_vault (ag_rec s))"
  have "file_transactions.unapplied L V ?t s'"
    using assms(1)
    by (intro keepsD [OF file_transactions.plan_looks [OF assms(2)] _ assms(3)])
      (simp add: file_transactions.unapplied_def)
  then show ?thesis by (simp add: file_transactions.unapplied_def)
qed

theorem plan_writes_nothing_witness:
  "w_tree (rs_vault (ag_rec (snd (plan demo_cfg demo_ops (Inl AIUnavailable) (lit ''9'') (lit ''k'') demo_request
     (demo_agents []))))) = demo_tree"
  using plan_writes_nothing [where L = demo_lib and V = demo_vault and s = "demo_agents []" and request = demo_request,
      OF _ _ surjective_pairing]
  by (simp add: demo_request_def)

section \<open>Stored actions\<close>



text \<open>
  C35. Not every validated tag is such a fixed point: a tag that keeps a hash sign behind a space is
  shortened again when the stored action is read, so the job runs with another tag than its preview
  showed.
\<close>

theorem stored_tag_changes:
  "normalize_tag (lit ''# # x'') = Inr (lit ''# x'') \<and>
   map_sum (\<lambda>_. ()) act_tags (load_action demo_lib []
     (dump_action (demo_note\<lparr>act_kind := ADD_TAGS, act_tags := [lit ''# x'']\<rparr>))) = Inr [lit ''x'']"
  by code_simp

end
