(* ===== verification/PyNumbers.thy ===== *)
theory PyNumbers imports PyText begin

text \<open>
  \<^verbatim>\<open>str.isdigit\<close>, \<^verbatim>\<open>int(text)\<close> and \<^verbatim>\<open>str.split()\<close>. The Unicode tables behind them are the record
  \<open>digit_table\<close>.
\<close>

section \<open>Numbers and words of a text\<close>

record digit_table =
  is_digit_char :: "nat \<Rightarrow> bool"
  decimal_value :: "nat \<Rightarrow> nat option"

text \<open>A decimal digit is a digit, and below code point 128 these are the ten ASCII digits.\<close>

definition digits_ok :: "digit_table \<Rightarrow> bool" where
  "digits_ok U \<longleftrightarrow>
     (\<forall>c d. decimal_value U c = Some d \<longrightarrow> is_digit_char U c \<and> d < 10) \<and>
     (\<forall>c < 128. is_digit_char U c \<longleftrightarrow> 48 \<le> c \<and> c \<le> 57) \<and>
     (\<forall>c. 48 \<le> c \<and> c \<le> 57 \<longrightarrow> decimal_value U c = Some (c - 48))"

definition ascii_digits :: digit_table where
  "ascii_digits = \<lparr>is_digit_char = (\<lambda>c. 48 \<le> c \<and> c \<le> 57),
     decimal_value = (\<lambda>c. if 48 \<le> c \<and> c \<le> 57 then Some (c - 48) else None)\<rparr>"

lemma ascii_digits_ok: "digits_ok ascii_digits"
  by (auto simp: digits_ok_def ascii_digits_def split: if_splits)

definition isdigit :: "digit_table \<Rightarrow> pystr \<Rightarrow> bool" where
  "isdigit U s \<longleftrightarrow> s \<noteq> [] \<and> list_all (is_digit_char U) s"

text \<open>The digits of \<^verbatim>\<open>int(text)\<close>: single underscores may separate them.\<close>

fun digits_value :: "digit_table \<Rightarrow> pystr \<Rightarrow> bool \<Rightarrow> nat \<Rightarrow> nat option" where
  "digits_value U [] after_digit acc = (if after_digit then Some acc else None)"
| "digits_value U (c # s) after_digit acc =
     (if c = 95 then (if after_digit then digits_value U s False acc else None)
      else (case decimal_value U c of
              None \<Rightarrow> None
            | Some d \<Rightarrow> digits_value U s True (acc * 10 + d)))"

definition MAX_STR_DIGITS :: nat where "MAX_STR_DIGITS = 4300"

definition unsigned_int :: "digit_table \<Rightarrow> pystr \<Rightarrow> nat option" where
  "unsigned_int U s =
     (if MAX_STR_DIGITS < length (filter (\<lambda>c. c \<noteq> 95) s) then None else digits_value U s False 0)"

definition py_int :: "digit_table \<Rightarrow> pystr \<Rightarrow> int option" where
  "py_int U text =
     (let s = strip text in
      if starts_with s [45] then map_option (\<lambda>n. - int n) (unsigned_int U (drop 1 s))
      else if starts_with s [43] then map_option int (unsigned_int U (drop 1 s))
      else map_option int (unsigned_int U s))"

text \<open>\<^verbatim>\<open>str.split()\<close>: the words between runs of white space.\<close>

fun split_words :: "pystr \<Rightarrow> pystr list" where
  "split_words [] = []"
| "split_words (c # s) =
     (if is_space c then split_words s
      else if s = [] \<or> is_space (hd s) then [c] # split_words s
      else (case split_words s of [] \<Rightarrow> [[c]] | w # ws \<Rightarrow> (c # w) # ws))"

end
