(* ===== verification/Cron.thy ===== *)
theory Cron imports PyNumbers begin

text \<open>
  \<^verbatim>\<open>server/scheduler/cron.py\<close>, the validation of cron expressions in \<^verbatim>\<open>server/config.py\<close> and the
  day-of-week translation of \<^verbatim>\<open>server/scheduler/apscheduler_backend.py\<close>.

  A date is the number of days since 0001-01-01 (\<^verbatim>\<open>toordinal() - 1\<close>), an instant the number of
  microseconds since then, in UTC or as a naive wall time; dates after year 9999, where Python
  raises \<^verbatim>\<open>OverflowError\<close>, are not cut off. The IANA database behind \<^verbatim>\<open>ZoneInfo\<close> is the record
  \<open>zone\<close>: the offset in force at an instant and the offset of a naive wall time with \<^verbatim>\<open>fold=0\<close>.
  Messages are left out: every error of this component is a \<^verbatim>\<open>ValueError\<close>.
\<close>

section \<open>Parsing\<close>

definition FIELD_BOUNDS :: "(nat \<times> nat) list" where
  "FIELD_BOUNDS = [(0, 59), (0, 23), (1, 31), (1, 12), (0, 7)]"

definition SCAN_DAYS :: nat where "SCAN_DAYS = 400"

text \<open>\<^verbatim>\<open>range(low, high + 1, step)\<close> for a positive step.\<close>

definition stepped :: "nat \<Rightarrow> nat \<Rightarrow> nat \<Rightarrow> nat list" where
  "stepped low high step = filter (\<lambda>v. (v - low) mod step = 0) [low..<Suc high]"

definition STAR :: pystr where "STAR = lit ''*''"
definition STAR_SLASH :: pystr where "STAR_SLASH = lit ''*/''"

definition parse_field :: "digit_table \<Rightarrow> nat \<times> nat \<Rightarrow> pystr \<Rightarrow> nat list option" where
  "parse_field U bounds raw =
     (let (low, high) = bounds in
      if raw = STAR then Some [low..<Suc high]
      else if starts_with raw STAR_SLASH then
        (case py_int U (drop 2 raw) of
           None \<Rightarrow> None
         | Some step \<Rightarrow> if step < 1 then None else Some (stepped low high (nat step)))
      else if isdigit U raw then
        (case py_int U raw of
           None \<Rightarrow> None
         | Some n \<Rightarrow> if int low \<le> n \<and> n \<le> int high then Some [nat n] else None)
      else None)"

fun parse_fields :: "digit_table \<Rightarrow> (nat \<times> nat) list \<Rightarrow> pystr list \<Rightarrow> nat list list option" where
  "parse_fields U (b # bs) (f # fs) =
     (case parse_field U b f of
        None \<Rightarrow> None
      | Some vs \<Rightarrow> map_option (\<lambda>rest. vs # rest) (parse_fields U bs fs))"
| "parse_fields U bs fs = Some []"

definition parse_cron_expression :: "digit_table \<Rightarrow> pystr \<Rightarrow> nat list list option" where
  "parse_cron_expression U expression =
     (let fields = split_words (strip expression) in
      if length fields \<noteq> 5 then None else parse_fields U FIELD_BOUNDS fields)"

text \<open>\<^verbatim>\<open>server.config._valid_cron\<close>\<close>

definition valid_field :: "digit_table \<Rightarrow> nat \<times> nat \<Rightarrow> pystr \<Rightarrow> bool" where
  "valid_field U bounds token =
     (let (low, high) = bounds in
      if starts_with token STAR_SLASH then
        isdigit U (drop 2 token) \<and> (case py_int U (drop 2 token) of None \<Rightarrow> False | Some n \<Rightarrow> 1 \<le> n)
      else if token = STAR then True
      else isdigit U token \<and>
        (case py_int U token of None \<Rightarrow> False | Some n \<Rightarrow> int low \<le> n \<and> n \<le> int high))"

definition valid_cron :: "digit_table \<Rightarrow> pystr \<Rightarrow> pystr option" where
  "valid_cron U value =
     (let text = strip value; fields = split_words text in
      if length fields = 5 \<and> list_all2 (valid_field U) FIELD_BOUNDS fields then Some text else None)"

section \<open>Dates\<close>

definition is_leap :: "nat \<Rightarrow> bool" where
  "is_leap y \<longleftrightarrow> y mod 4 = 0 \<and> (y mod 100 \<noteq> 0 \<or> y mod 400 = 0)"

text \<open>January to November; December takes what is left.\<close>

definition month_lengths :: "bool \<Rightarrow> nat list" where
  "month_lengths leap = [31, if leap then 29 else 28, 31, 30, 31, 30, 31, 31, 30, 31, 30]"

fun locate_month :: "nat \<Rightarrow> nat list \<Rightarrow> nat \<Rightarrow> nat \<times> nat" where
  "locate_month m [] n = (m, Suc n)"
| "locate_month m (l # ls) n = (if n < l then (m, Suc n) else locate_month (Suc m) ls (n - l))"

text \<open>Year, month and day of a day number, through the cycles of 400, 100, 4 and 1 years.\<close>

definition ymd :: "nat \<Rightarrow> nat \<times> nat \<times> nat" where
  "ymd d =
     (let n400 = d div 146097; a = d mod 146097;
          n100 = a div 36524; b = a mod 36524;
          n4 = b div 1461; c = b mod 1461;
          n1 = c div 365; e = c mod 365;
          year = n400 * 400 + n100 * 100 + n4 * 4 + n1 + 1 in
      if n1 = 4 \<or> n100 = 4 then (year - 1, 12, 31)
      else (year, locate_month 1 (month_lengths (is_leap year)) e))"

definition month_day :: "int \<Rightarrow> nat \<times> nat" where
  "month_day date = snd (ymd (nat date))"

text \<open>\<^verbatim>\<open>(date.weekday() + 1) % 7\<close>: Sunday is 0.\<close>

definition dow_number :: "int \<Rightarrow> nat" where
  "dow_number date = nat ((date mod 7 + 1) mod 7)"

text \<open>
  The source compares the tuple of allowed values with a frozenset, which is never equal, so only
  the number of values decides whether a field is restricted.
\<close>

definition day_matches :: "nat \<Rightarrow> nat \<Rightarrow> nat \<Rightarrow> nat list list \<Rightarrow> bool" where
  "day_matches day_of_month month day_of_week allowed =
     (let dom_values = allowed ! 2; dow_values = allowed ! 4;
          dom_restricted = length dom_values \<noteq> 31;
          dow_restricted = length dow_values \<noteq> 8;
          dow_hit = day_of_week \<in> set dow_values \<or> day_of_week = 0 \<and> 7 \<in> set dow_values in
      if month \<notin> set (allowed ! 3) then False
      else if dom_restricted \<and> dow_restricted then day_of_month \<in> set dom_values \<or> dow_hit
      else if dom_restricted then day_of_month \<in> set dom_values
      else if dow_restricted then dow_hit
      else True)"

definition time_candidates :: "nat list list \<Rightarrow> (nat \<times> nat) list" where
  "time_candidates allowed =
     concat (map (\<lambda>hour. map (\<lambda>minute. (hour, minute)) (sort (allowed ! 0))) (sort (allowed ! 1)))"

section \<open>The next fire\<close>

definition MINUTE_US :: int where "MINUTE_US = 60000000"
definition DAY_US :: int where "DAY_US = 86400000000"

record zone =
  offset_at :: "int \<Rightarrow> int"
  offset_of_wall :: "int \<Rightarrow> int"

definition wall :: "int \<Rightarrow> nat \<times> nat \<Rightarrow> int" where
  "wall date hm = date * DAY_US + int (fst hm * 60 + snd hm) * MINUTE_US"

text \<open>Hour and minute of a wall time.\<close>

definition clock_of :: "int \<Rightarrow> nat \<times> nat" where
  "clock_of w = (nat (w mod DAY_US div (60 * MINUTE_US)), nat (w mod (60 * MINUTE_US) div MINUTE_US))"

text \<open>\<^verbatim>\<open>naive.replace(tzinfo=tz).astimezone(UTC)\<close>, and \<^verbatim>\<open>astimezone(tz)\<close>.\<close>

definition instant_of :: "zone \<Rightarrow> int \<Rightarrow> int" where
  "instant_of Z w = w - offset_of_wall Z w"

definition local_time :: "zone \<Rightarrow> int \<Rightarrow> int" where
  "local_time Z t = t + offset_at Z t"

definition wall_time_exists :: "zone \<Rightarrow> int \<Rightarrow> bool" where
  "wall_time_exists Z w \<longleftrightarrow> clock_of (local_time Z (instant_of Z w)) = clock_of w"

definition later_clock :: "nat \<times> nat \<Rightarrow> nat \<times> nat \<Rightarrow> bool" where
  "later_clock x y \<longleftrightarrow> fst y < fst x \<or> fst y = fst x \<and> snd y < snd x"

fun first_fire :: "zone \<Rightarrow> int \<Rightarrow> int \<Rightarrow> (nat \<times> nat) list \<Rightarrow> int option" where
  "first_fire Z after date [] = None"
| "first_fire Z after date (hm # rest) =
     (let w = wall date hm in
      if \<not> wall_time_exists Z w then first_fire Z after date rest
      else if instant_of Z w \<le> after then first_fire Z after date rest
      else Some (instant_of Z w))"

fun scan_days :: "zone \<Rightarrow> nat list list \<Rightarrow> int \<Rightarrow> (nat \<times> nat) list \<Rightarrow> nat \<Rightarrow> nat \<Rightarrow> int option" where
  "scan_days Z allowed after candidates 0 offset_days = None"
| "scan_days Z allowed after candidates (Suc n) offset_days =
     (let after_local = local_time Z after;
          date = after_local div DAY_US + int offset_days;
          (month, day) = month_day date in
      if \<not> day_matches day month (dow_number date) allowed
      then scan_days Z allowed after candidates n (Suc offset_days)
      else
        (case first_fire Z after date
           (if offset_days = 0
            then dropWhile (\<lambda>hm. \<not> later_clock hm (clock_of after_local)) candidates
            else candidates) of
           Some t \<Rightarrow> Some t
         | None \<Rightarrow> scan_days Z allowed after candidates n (Suc offset_days)))"

text \<open>The outer \<open>None\<close> is the \<^verbatim>\<open>ValueError\<close> of the parser.\<close>

definition next_cron_fire :: "digit_table \<Rightarrow> zone \<Rightarrow> pystr \<Rightarrow> int \<Rightarrow> int option option" where
  "next_cron_fire U Z expression after =
     map_option (\<lambda>allowed. scan_days Z allowed after (time_candidates allowed) SCAN_DAYS 0)
       (parse_cron_expression U expression)"

text \<open>Microseconds instead of the float of \<^verbatim>\<open>total_seconds()\<close>.\<close>

definition seconds_until_next_fire :: "digit_table \<Rightarrow> zone \<Rightarrow> pystr \<Rightarrow> int \<Rightarrow> int option option" where
  "seconds_until_next_fire U Z expression after =
     map_option (map_option (\<lambda>t. max 0 (t - after))) (next_cron_fire U Z expression after)"

section \<open>The day of week of the other backend\<close>

definition aps_weekdays :: "digit_table \<Rightarrow> pystr \<Rightarrow> int list option" where
  "aps_weekdays U token =
     (if starts_with token STAR_SLASH
      then Option.bind (py_int U (drop 2 token)) (\<lambda>step.
           if step = 0 then None
           else Some (if step < 0 then [] else map int (stepped 0 7 (nat step))))
      else map_option (\<lambda>v. [v]) (py_int U token))"

definition vixie_dow_to_apscheduler :: "digit_table \<Rightarrow> pystr \<Rightarrow> pystr option" where
  "vixie_dow_to_apscheduler U token =
     (if token = STAR then Some STAR
      else map_option (\<lambda>values. join_with 44 (map (\<lambda>v. [48 + nat v])
             (sort (remdups (map (\<lambda>value. (value + 6) mod 7) values)))))
             (aps_weekdays U token))"

end
