(* ===== verification/CronProofs.thy ===== *)
theory CronProofs imports Cron begin

text \<open>
  The next fire of a cron expression: the scan over days and wall times returns the earliest
  instant at which the expression matches.
\<close>

section \<open>Wall times\<close>

definition whole_minute :: "int \<Rightarrow> bool" where
  "whole_minute w \<longleftrightarrow> w mod MINUTE_US = 0"

lemma day_minutes: "DAY_US = 1440 * MINUTE_US"
  by (simp add: DAY_US_def MINUTE_US_def)

lemma minute_pos [simp]: "0 < MINUTE_US" "MINUTE_US \<noteq> 0" "0 < DAY_US"
  by (simp_all add: MINUTE_US_def DAY_US_def)

lemma whole_minuteE:
  assumes "whole_minute w"
  obtains k where "w = k * MINUTE_US"
  using assms by (auto simp: whole_minute_def elim: dvdE simp flip: dvd_eq_mod_eq_0 mult.commute)

lemma clock_of_minutes: "clock_of (k * MINUTE_US) = (nat (k mod 1440 div 60), nat (k mod 60))"
  by (simp add: clock_of_def day_minutes)

lemma minutes_split:
  fixes k :: int
  shows "k div 1440 * 1440 + (k mod 1440 div 60 * 60 + k mod 60) = k"
    "0 \<le> k mod 1440 div 60" "k mod 1440 div 60 < 24" "0 \<le> k mod 60" "k mod 60 < 60"
proof -
  have r: "k mod 1440 mod 60 = k mod 60" by (simp add: mod_mod_cancel)
  have q: "k mod 1440 div 60 * 60 + k mod 60 = k mod 1440"
    using div_mult_mod_eq [of "k mod 1440" 60] by (simp only: r)
  show "k div 1440 * 1440 + (k mod 1440 div 60 * 60 + k mod 60) = k"
    using div_mult_mod_eq [of k 1440] by (simp only: q)
  show "0 \<le> k mod 60" "k mod 60 < 60" by simp_all
  with q pos_mod_bound [of 1440 k] show "k mod 1440 div 60 < 24" by linarith
  show "0 \<le> k mod 1440 div 60" by (simp add: pos_imp_zdiv_nonneg_iff)
qed

lemma wall_minutes: "wall date hm = (date * 1440 + int (fst hm * 60 + snd hm)) * MINUTE_US"
  by (simp add: wall_def day_minutes algebra_simps)

lemma date_of_minutes: "(k * MINUTE_US) div DAY_US = k div 1440"
  by (simp add: day_minutes)

definition clock_ok :: "nat \<times> nat \<Rightarrow> bool" where
  "clock_ok hm \<longleftrightarrow> fst hm < 24 \<and> snd hm < 60"

lemma wall_parts:
  assumes "clock_ok hm"
  shows "whole_minute (wall date hm)" "wall date hm div DAY_US = date" "clock_of (wall date hm) = hm"
proof -
  obtain h m where hm: "hm = (h, m)" by (cases hm)
  have b: "h < 24" "m < 60" using assms by (auto simp: clock_ok_def hm)
  define k where "k = date * 1440 + int (h * 60 + m)"
  have w: "wall date hm = k * MINUTE_US" by (simp add: wall_minutes hm k_def)
  show "whole_minute (wall date hm)" by (simp add: w whole_minute_def)
  show "wall date hm div DAY_US = date" using b by (simp add: w date_of_minutes k_def)
  have "k mod 1440 = int (h * 60 + m)"
    using b mod_pos_pos_trivial [of "int (h * 60 + m)" 1440] unfolding k_def
    by (simp del: of_nat_add of_nat_mult add: mod_mult_self3)
  moreover have "k = (date * 24 + int h) * 60 + int m" by (simp add: k_def)
  then have "k mod 60 = int m" using b by (simp only: mod_mult_self3) simp
  ultimately have "k mod 1440 = int (h * 60 + m)" "k mod 60 = int m" .
  moreover have "(int h * 60 + int m) div 60 = int h" using b by simp
  ultimately show "clock_of (wall date hm) = hm" unfolding w clock_of_minutes by (simp add: hm)
qed

lemma wall_of_parts: "whole_minute w \<Longrightarrow> wall (w div DAY_US) (clock_of w) = w"
proof (erule whole_minuteE)
  fix k assume w: "w = k * MINUTE_US"
  show ?thesis using minutes_split [of k] by (simp add: w date_of_minutes clock_of_minutes wall_minutes)
qed

lemma clock_ok_clock_of: "whole_minute w \<Longrightarrow> clock_ok (clock_of w)"
proof (erule whole_minuteE)
  fix k assume w: "w = k * MINUTE_US"
  show ?thesis using minutes_split [of k] by (simp add: w clock_of_minutes clock_ok_def nat_less_iff)
qed

lemma wall_order:
  assumes "clock_ok x" "clock_ok y"
  shows "wall date x < wall date y \<longleftrightarrow> later_clock y x"
  using assms by (auto simp: wall_minutes clock_ok_def later_clock_def)

lemma same_clock_same_time:
  assumes "whole_minute v" "whole_minute w" "clock_of v = clock_of w" "\<bar>v - w\<bar> < DAY_US"
  shows "v = w"
proof -
  obtain j k where jk: "v = j * MINUTE_US" "w = k * MINUTE_US"
    using assms(1,2) by (auto elim!: whole_minuteE)
  have "nat (j mod 1440 div 60) = nat (k mod 1440 div 60)" "nat (j mod 60) = nat (k mod 60)"
    using assms(3) by (simp_all add: jk clock_of_minutes)
  then have "j mod 1440 div 60 = k mod 1440 div 60" "j mod 60 = k mod 60"
    using minutes_split [of j] minutes_split [of k] by (metis eq_nat_nat_iff)+
  then have "j - j div 1440 * 1440 = k - k div 1440 * 1440"
    using minutes_split(1) [of j] minutes_split(1) [of k] by linarith
  moreover have "\<bar>j - k\<bar> < 1440"
    using assms(4) by (simp add: jk day_minutes MINUTE_US_def)
  ultimately have "\<bar>j div 1440 - k div 1440\<bar> < 1" and "j - k = (j div 1440 - k div 1440) * 1440"
    by (linarith, simp add: left_diff_distrib)
  then show ?thesis by (simp add: jk)
qed

section \<open>Zones\<close>

text \<open>
  What the time zone data promises: offsets are whole minutes, a transition jumps by less than a
  day, and the instant of an existing wall time with \<^verbatim>\<open>fold=0\<close> is the first at which the clock
  shows it or a later time.
\<close>

definition zone_ok :: "zone \<Rightarrow> bool" where
  "zone_ok Z \<longleftrightarrow>
     (\<forall>t. whole_minute (offset_at Z t)) \<and> (\<forall>w. whole_minute (offset_of_wall Z w)) \<and>
     (\<forall>w. \<bar>local_time Z (instant_of Z w) - w\<bar> < DAY_US) \<and>
     (\<forall>w t. local_time Z (instant_of Z w) = w \<and> w \<le> local_time Z t \<longrightarrow> instant_of Z w \<le> t)"

lemma whole_minute_arith:
  "whole_minute a \<Longrightarrow> whole_minute b \<Longrightarrow> whole_minute (a + b)"
  "whole_minute a \<Longrightarrow> whole_minute b \<Longrightarrow> whole_minute (a - b)"
  unfolding whole_minute_def by (simp_all only: mod_eq_0_iff_dvd dvd_add dvd_diff)

lemma existing_shown:
  assumes "zone_ok Z" "whole_minute w" "wall_time_exists Z w"
  shows "local_time Z (instant_of Z w) = w"
proof (rule same_clock_same_time)
  show "whole_minute (local_time Z (instant_of Z w))"
    using assms(1,2) by (simp add: zone_ok_def local_time_def instant_of_def whole_minute_arith)
  show "\<bar>local_time Z (instant_of Z w) - w\<bar> < DAY_US"
    using assms(1) by (simp add: zone_ok_def)
qed (use assms in \<open>simp_all add: wall_time_exists_def\<close>)

lemma instant_first:
  "zone_ok Z \<Longrightarrow> whole_minute w \<Longrightarrow> wall_time_exists Z w \<Longrightarrow> w \<le> local_time Z t \<Longrightarrow> instant_of Z w \<le> t"
  using existing_shown [of Z w] unfolding zone_ok_def by blast

lemma instant_mono:
  "zone_ok Z \<Longrightarrow> whole_minute v \<Longrightarrow> wall_time_exists Z v \<Longrightarrow> whole_minute w \<Longrightarrow> wall_time_exists Z w \<Longrightarrow>
     v \<le> w \<Longrightarrow> instant_of Z v \<le> instant_of Z w"
  using instant_first [of Z v "instant_of Z w"] existing_shown [of Z w] by simp

section \<open>The parser\<close>

definition fields_ok :: "nat list list \<Rightarrow> bool" where
  "fields_ok allowed \<longleftrightarrow>
     list_all2 (\<lambda>(low, high) vs. sorted vs \<and> distinct vs \<and> vs \<noteq> [] \<and> set vs \<subseteq> {low..high}) FIELD_BOUNDS allowed"

lemma stepped_ok:
  "low \<le> high \<Longrightarrow> sorted (stepped low high step) \<and> distinct (stepped low high step) \<and>
     stepped low high step \<noteq> [] \<and> set (stepped low high step) \<subseteq> {low..high}"
  unfolding stepped_def
  by (auto simp: filter_empty_conv intro!: sorted_wrt_filter simp del: upt_Suc intro: bexI [of _ low])

lemma parse_field_ok:
  "parse_field U (low, high) raw = Some vs \<Longrightarrow> low \<le> high \<Longrightarrow>
     sorted vs \<and> distinct vs \<and> vs \<noteq> [] \<and> set vs \<subseteq> {low..high}"
  using stepped_ok [of low high]
  by (auto simp: parse_field_def simp del: upt_Suc split: if_splits option.splits)

lemma parse_fields_ok:
  "parse_fields U bs fs = Some allowed \<Longrightarrow> length fs = length bs \<Longrightarrow> list_all (\<lambda>(l, h). l \<le> h) bs \<Longrightarrow>
     list_all2 (\<lambda>(low, high) vs. sorted vs \<and> distinct vs \<and> vs \<noteq> [] \<and> set vs \<subseteq> {low..high}) bs allowed"
proof (induction U bs fs arbitrary: allowed rule: parse_fields.induct)
  case (1 U b bs f fs)
  then show ?case
    using parse_field_ok [of U "fst b" "snd b" f]
    by (auto split: option.splits prod.splits)
qed auto

lemma parse_ok: "parse_cron_expression U e = Some allowed \<Longrightarrow> fields_ok allowed"
  unfolding fields_ok_def parse_cron_expression_def Let_def
  by (rule parse_fields_ok) (auto simp: FIELD_BOUNDS_def split: if_splits)

section \<open>The candidates of a day\<close>

lemma fields_ok_values:
  assumes "fields_ok allowed"
  shows "sorted (allowed ! 0)" "distinct (allowed ! 0)" "allowed ! 0 \<noteq> []" "set (allowed ! 0) \<subseteq> {0..59}"
    "sorted (allowed ! 1)" "distinct (allowed ! 1)" "allowed ! 1 \<noteq> []" "set (allowed ! 1) \<subseteq> {0..23}"
  using list_all2_nthD [OF assms [unfolded fields_ok_def], of 0]
    list_all2_nthD [OF assms [unfolded fields_ok_def], of 1]
  by (simp_all add: FIELD_BOUNDS_def)

lemma candidates_set:
  "set (time_candidates allowed) = set (allowed ! 1) \<times> set (allowed ! 0)"
  by (auto simp: time_candidates_def)

lemma candidates_ok: "fields_ok allowed \<Longrightarrow> hm \<in> set (time_candidates allowed) \<Longrightarrow> clock_ok hm"
  using fields_ok_values(4,8) [of allowed] by (auto simp: candidates_set clock_ok_def)

lemma pairs_ascend:
  "sorted_wrt (<) hs \<Longrightarrow> sorted_wrt (<) ms \<Longrightarrow>
     sorted_wrt (\<lambda>x y. later_clock y x) (concat (map (\<lambda>h. map (\<lambda>m. (h, m)) ms) hs))"
proof (induction hs)
  case (Cons h hs)
  have "sorted_wrt (\<lambda>x y. later_clock y x) (map (\<lambda>m. (h, m)) ms)"
    using Cons.prems(2) by (simp add: sorted_wrt_map later_clock_def)
  with Cons show ?case by (auto simp: sorted_wrt_append later_clock_def)
qed simp

lemma candidates_ascend:
  "fields_ok allowed \<Longrightarrow> sorted_wrt (\<lambda>x y. later_clock y x) (time_candidates allowed)"
  unfolding time_candidates_def
  using fields_ok_values(1,2,5,6) [of allowed]
  by (intro pairs_ascend) (simp_all add: strict_sorted_iff sorted_sort_id)

section \<open>One day\<close>

lemma floor_minute:
  "clock_of (L div MINUTE_US * MINUTE_US) = clock_of L" "(L div MINUTE_US * MINUTE_US) div DAY_US = L div DAY_US"
proof -
  have d: "L div DAY_US = L div MINUTE_US div 1440" for L
    by (simp add: day_minutes mult.commute zdiv_zmult2_eq)
  have h: "L mod DAY_US div (60 * MINUTE_US) = L div MINUTE_US mod 1440 div 60" for L
  proof -
    have "L mod DAY_US = MINUTE_US * (L div MINUTE_US mod 1440) + L mod MINUTE_US"
      by (simp add: day_minutes mult.commute zmod_zmult2_eq)
    then show ?thesis by (simp add: mult.commute zdiv_zmult2_eq)
  qed
  have m: "L mod (60 * MINUTE_US) div MINUTE_US = L div MINUTE_US mod 60" for L
  proof -
    have "L mod (60 * MINUTE_US) = MINUTE_US * (L div MINUTE_US mod 60) + L mod MINUTE_US"
      by (simp add: mult.commute zmod_zmult2_eq)
    then show ?thesis by simp
  qed
  show "clock_of (L div MINUTE_US * MINUTE_US) = clock_of L" by (simp add: clock_of_def h m)
  show "(L div MINUTE_US * MINUTE_US) div DAY_US = L div DAY_US" by (simp add: d)
qed

lemma not_later_wall:
  assumes "clock_ok hm" "\<not> later_clock hm (clock_of L)"
  shows "wall (L div DAY_US) hm \<le> L"
proof -
  have whole: "whole_minute (L div MINUTE_US * MINUTE_US)" by (simp add: whole_minute_def)
  have "clock_ok (clock_of L)" using clock_ok_clock_of [OF whole] by (simp only: floor_minute)
  then have "wall (L div DAY_US) hm \<le> wall (L div DAY_US) (clock_of L)"
    using wall_order [of "clock_of L" hm "L div DAY_US"] assms by simp
  also have "\<dots> = L div MINUTE_US * MINUTE_US"
    using wall_of_parts [OF whole] by (simp only: floor_minute)
  also have "\<dots> \<le> L" using div_mult_mod_eq [of L MINUTE_US] pos_mod_sign [OF minute_pos(1), of L] by linarith
  finally show ?thesis .
qed

definition due :: "zone \<Rightarrow> int \<Rightarrow> int \<Rightarrow> nat \<times> nat \<Rightarrow> bool" where
  "due Z after date hm \<longleftrightarrow> wall_time_exists Z (wall date hm) \<and> after < instant_of Z (wall date hm)"

lemma first_fire_None: "first_fire Z after date hms = None \<longleftrightarrow> (\<forall>hm \<in> set hms. \<not> due Z after date hm)"
  by (induction hms) (auto simp: Let_def due_def)

lemma first_fire_Some:
  assumes "first_fire Z after date hms = Some t" "sorted_wrt (\<lambda>x y. later_clock y x) hms"
  shows "\<exists>hm \<in> set hms. due Z after date hm \<and> t = instant_of Z (wall date hm) \<and>
    (\<forall>x \<in> set hms. due Z after date x \<longrightarrow> x = hm \<or> later_clock x hm)"
  using assms
  by (induction hms) (auto simp: Let_def due_def split: if_splits)

text \<open>The expression fires at the wall time \<open>w\<close>.\<close>

definition day_fires :: "nat list list \<Rightarrow> int \<Rightarrow> bool" where
  "day_fires allowed date \<longleftrightarrow>
     day_matches (snd (month_day date)) (fst (month_day date)) (dow_number date) allowed"

definition fires :: "zone \<Rightarrow> nat list list \<Rightarrow> int \<Rightarrow> bool" where
  "fires Z allowed w \<longleftrightarrow> whole_minute w \<and> wall_time_exists Z w \<and> day_fires allowed (w div DAY_US) \<and>
     fst (clock_of w) \<in> set (allowed ! 1) \<and> snd (clock_of w) \<in> set (allowed ! 0)"

definition day_candidates :: "zone \<Rightarrow> nat list list \<Rightarrow> int \<Rightarrow> nat \<Rightarrow> (nat \<times> nat) list" where
  "day_candidates Z allowed after k =
     (if k = 0 then dropWhile (\<lambda>hm. \<not> later_clock hm (clock_of (local_time Z after))) (time_candidates allowed)
      else time_candidates allowed)"

lemma in_set_dropWhile_iff: "\<not> P x \<Longrightarrow> x \<in> set (dropWhile P xs) \<longleftrightarrow> x \<in> set xs"
  by (induction xs) auto

lemma day_due:
  assumes "zone_ok Z" "fields_ok allowed" "fires Z allowed w" "after < instant_of Z w"
    and "w div DAY_US = local_time Z after div DAY_US + int k"
  shows "clock_of w \<in> set (day_candidates Z allowed after k)" "due Z after (w div DAY_US) (clock_of w)"
proof -
  have w: "whole_minute w" "wall_time_exists Z w" using assms(3) by (simp_all add: fires_def)
  show "due Z after (w div DAY_US) (clock_of w)"
    using assms(4) w by (simp add: due_def wall_of_parts)
  have cand: "clock_of w \<in> set (time_candidates allowed)"
    using assms(3) by (cases "clock_of w") (simp add: fires_def candidates_set)
  have "later_clock (clock_of w) (clock_of (local_time Z after))" if "k = 0"
  proof (rule ccontr)
    assume "\<not> later_clock (clock_of w) (clock_of (local_time Z after))"
    from not_later_wall [OF clock_ok_clock_of [OF w(1)] this]
    have "w \<le> local_time Z after" using assms(5) that wall_of_parts [OF w(1)] by simp
    with instant_first [OF assms(1) w] assms(4) show False by fastforce
  qed
  with cand show "clock_of w \<in> set (day_candidates Z allowed after k)"
    by (simp add: day_candidates_def in_set_dropWhile_iff)
qed

lemma day_candidates_subset: "set (day_candidates Z allowed after k) \<subseteq> set (time_candidates allowed)"
  by (auto simp: day_candidates_def dest: set_dropWhileD)

lemma day_candidates_ascend:
  "fields_ok allowed \<Longrightarrow> sorted_wrt (\<lambda>x y. later_clock y x) (day_candidates Z allowed after k)"
  using candidates_ascend [of allowed] by (simp add: day_candidates_def sorted_wrt_dropWhile)

section \<open>The scan\<close>

lemma scan_step:
  "scan_days Z allowed after (time_candidates allowed) (Suc n) k =
     (let date = local_time Z after div DAY_US + int k in
      if \<not> day_fires allowed date then scan_days Z allowed after (time_candidates allowed) n (Suc k)
      else (case first_fire Z after date (day_candidates Z allowed after k) of
              Some t \<Rightarrow> Some t
            | None \<Rightarrow> scan_days Z allowed after (time_candidates allowed) n (Suc k)))"
  by (simp add: Let_def day_fires_def day_candidates_def split: prod.split)

declare scan_days.simps(2) [simp del]

definition pending :: "zone \<Rightarrow> nat list list \<Rightarrow> int \<Rightarrow> nat \<Rightarrow> int \<Rightarrow> bool" where
  "pending Z allowed after k w \<longleftrightarrow> fires Z allowed w \<and> after < instant_of Z w \<and>
     local_time Z after div DAY_US + int k \<le> w div DAY_US"

lemma pending_later:
  assumes "zone_ok Z" "fields_ok allowed" "pending Z allowed after k w"
    and "\<not> day_fires allowed (local_time Z after div DAY_US + int k) \<or>
      first_fire Z after (local_time Z after div DAY_US + int k) (day_candidates Z allowed after k) = None"
  shows "pending Z allowed after (Suc k) w"
proof (rule ccontr)
  assume "\<not> pending Z allowed after (Suc k) w"
  with assms(3) have now: "w div DAY_US = local_time Z after div DAY_US + int k"
    by (auto simp: pending_def)
  have w: "fires Z allowed w" "after < instant_of Z w" using assms(3) by (simp_all add: pending_def)
  from assms(4) show False
  proof
    assume "\<not> day_fires allowed (local_time Z after div DAY_US + int k)"
    with w(1) now show False by (simp add: fires_def)
  next
    assume "first_fire Z after (local_time Z after div DAY_US + int k) (day_candidates Z allowed after k) = None"
    with day_due [OF assms(1,2) w now] now show False by (simp add: first_fire_None)
  qed
qed

lemma scan_None:
  "zone_ok Z \<Longrightarrow> fields_ok allowed \<Longrightarrow>
     scan_days Z allowed after (time_candidates allowed) n k = None \<Longrightarrow> pending Z allowed after k w \<Longrightarrow>
     pending Z allowed after (k + n) w"
proof (induction n arbitrary: k)
  case (Suc n)
  have skip: "pending Z allowed after (Suc k) w"
    by (rule pending_later [OF Suc.prems(1,2,4)])
      (use Suc.prems(3) in \<open>auto simp: scan_step Let_def split: if_splits option.splits\<close>)
  have "scan_days Z allowed after (time_candidates allowed) n (Suc k) = None"
    using Suc.prems(3) by (auto simp: scan_step Let_def split: if_splits option.splits)
  from Suc.IH [OF Suc.prems(1,2) this skip] show ?case by simp
qed simp

lemma day_Some:
  assumes "zone_ok Z" "fields_ok allowed" "day_fires allowed (local_time Z after div DAY_US + int k)"
    and "first_fire Z after (local_time Z after div DAY_US + int k) (day_candidates Z allowed after k) = Some t"
  shows "\<exists>w. pending Z allowed after k w \<and> instant_of Z w = t \<and> (\<forall>v. pending Z allowed after k v \<longrightarrow> w \<le> v)"
proof -
  let ?date = "local_time Z after div DAY_US + int k"
  obtain hm where hm: "hm \<in> set (day_candidates Z allowed after k)" "due Z after ?date hm"
      "t = instant_of Z (wall ?date hm)"
      "\<forall>x \<in> set (day_candidates Z allowed after k). due Z after ?date x \<longrightarrow> x = hm \<or> later_clock x hm"
    using first_fire_Some [OF assms(4) day_candidates_ascend [OF assms(2)]] by blast
  have cand: "hm \<in> set (time_candidates allowed)" using hm(1) day_candidates_subset by blast
  note ok = candidates_ok [OF assms(2) cand]
  note parts = wall_parts [OF ok, of ?date]
  have "pending Z allowed after k (wall ?date hm)"
    using hm(2) assms(3) cand parts
    by (cases hm) (simp add: pending_def fires_def due_def candidates_set)
  moreover have "wall ?date hm \<le> v" if v: "pending Z allowed after k v" for v
  proof (cases "v div DAY_US = ?date")
    case True
    have fv: "fires Z allowed v" "after < instant_of Z v" using v by (simp_all add: pending_def)
    then have whole: "whole_minute v" by (simp add: fires_def)
    from day_due [OF assms(1,2) fv True] hm(4) True
    have "clock_of v = hm \<or> later_clock (clock_of v) hm" by auto
    then have "wall ?date hm \<le> wall ?date (clock_of v)"
      using wall_order [OF ok clock_ok_clock_of [OF whole], of ?date] by auto
    with wall_of_parts [OF whole] True show ?thesis by simp
  next
    case False
    with v have "?date < v div DAY_US" by (simp add: pending_def)
    with parts(2) show ?thesis by (metis linorder_not_le order_less_imp_le zdiv_mono1 minute_pos(3))
  qed
  ultimately show ?thesis using hm(3) by blast
qed

lemma scan_Some:
  "zone_ok Z \<Longrightarrow> fields_ok allowed \<Longrightarrow>
     scan_days Z allowed after (time_candidates allowed) n k = Some t \<Longrightarrow>
     \<exists>w. pending Z allowed after k w \<and> instant_of Z w = t \<and> (\<forall>v. pending Z allowed after k v \<longrightarrow> w \<le> v)"
proof (induction n arbitrary: k)
  case (Suc n)
  show ?case
  proof (cases "day_fires allowed (local_time Z after div DAY_US + int k) \<and>
      first_fire Z after (local_time Z after div DAY_US + int k) (day_candidates Z allowed after k) \<noteq> None")
    case True
    with Suc.prems(3) have "first_fire Z after (local_time Z after div DAY_US + int k)
        (day_candidates Z allowed after k) = Some t"
      by (auto simp: scan_step Let_def)
    with day_Some [OF Suc.prems(1,2)] True show ?thesis by blast
  next
    case False
    then have "scan_days Z allowed after (time_candidates allowed) n (Suc k) = Some t"
      using Suc.prems(3) by (auto simp: scan_step Let_def split: if_splits option.splits)
    from Suc.IH [OF Suc.prems(1,2) this] obtain w where w: "pending Z allowed after (Suc k) w"
        "instant_of Z w = t" "\<forall>v. pending Z allowed after (Suc k) v \<longrightarrow> w \<le> v" by blast
    moreover have "pending Z allowed after k w" using w(1) by (simp add: pending_def)
    moreover have "pending Z allowed after (Suc k) v" if "pending Z allowed after k v" for v
      using pending_later [OF Suc.prems(1,2) that] False by auto
    ultimately show ?thesis by blast
  qed
qed simp

lemma pending_at_first:
  assumes "zone_ok Z" "fires Z allowed w" "after < instant_of Z w"
  shows "pending Z allowed after 0 w"
proof (rule ccontr)
  assume "\<not> pending Z allowed after 0 w"
  with assms(2,3) have "w div DAY_US < local_time Z after div DAY_US" by (simp add: pending_def)
  then have "w \<le> local_time Z after" by (metis linorder_not_le order_less_imp_le zdiv_mono1 minute_pos(3))
  with instant_first [of Z w after] assms show False by (auto simp: fires_def)
qed

end
