(* ===== verification/CronBackend.thy ===== *)
theory CronBackend imports CronProofs begin

text \<open>
  \<^verbatim>\<open>server/scheduler/registry.py\<close>, \<^verbatim>\<open>models.JobDefinition\<close> and the fallback backend
  \<^verbatim>\<open>asyncio_backend.py\<close> on top of \<^verbatim>\<open>backend.py\<close>: which jobs exist, when each is due next, and
  what one \<^verbatim>\<open>tick\<close> fires. \<open>zones\<close> is the IANA database; an unknown job id is a \<^verbatim>\<open>KeyError\<close>,
  a malformed number or expression a \<^verbatim>\<open>ValueError\<close>. The thread that sleeps between ticks is not modelled,
  only the delay it computes; callbacks are logged in the order they are called.
\<close>

datatype backend_error = BadValue | UnknownJob | DuplicateJob

datatype trigger_kind = CronTrigger | IntervalTrigger

record job_definition =
  df_job_id :: pystr
  df_trigger :: trigger_kind
  df_expression :: pystr
  df_timezone :: pystr
  df_enabled :: bool

section \<open>The registry\<close>

record schedule_settings =
  st_timezone :: pystr
  st_daily_cron :: pystr
  st_weekly_cron :: pystr
  st_index_check :: bool
  st_index_hours :: nat

definition DAILY :: pystr where "DAILY = lit ''daily_organizer''"
definition WEEKLY :: pystr where "WEEKLY = lit ''weekly_review''"
definition INDEX :: pystr where "INDEX = lit ''index_consistency''"

definition DEFAULT_TASK_IDS :: "pystr list" where
  "DEFAULT_TASK_IDS = [DAILY, WEEKLY, INDEX]"

definition build_definitions :: "schedule_settings \<Rightarrow> job_definition list" where
  "build_definitions st =
     [\<lparr>df_job_id = DAILY, df_trigger = CronTrigger, df_expression = st_daily_cron st,
       df_timezone = st_timezone st, df_enabled = True\<rparr>,
      \<lparr>df_job_id = WEEKLY, df_trigger = CronTrigger, df_expression = st_weekly_cron st,
       df_timezone = st_timezone st, df_enabled = True\<rparr>] @
     (if st_index_check st
      then [\<lparr>df_job_id = INDEX, df_trigger = IntervalTrigger, df_expression = digits_of (st_index_hours st),
              df_timezone = st_timezone st, df_enabled = True\<rparr>]
      else [])"

record task_status =
  ts_id :: pystr
  ts_enabled :: bool
  ts_trigger :: trigger_kind
  ts_expression :: pystr
  ts_timezone :: pystr

definition task_status_of :: "schedule_settings \<Rightarrow> pystr \<Rightarrow> task_status" where
  "task_status_of st job_id =
     (let item = find (\<lambda>d. df_job_id d = job_id) (build_definitions st) in
      \<lparr>ts_id = job_id, ts_enabled = item \<noteq> None,
       ts_trigger = (case item of Some d \<Rightarrow> df_trigger d
                     | None \<Rightarrow> if job_id = INDEX then IntervalTrigger else CronTrigger),
       ts_expression = (case item of Some d \<Rightarrow> df_expression d
                        | None \<Rightarrow> if job_id = INDEX then digits_of (st_index_hours st)
                                   else if job_id = DAILY then st_daily_cron st else st_weekly_cron st),
       ts_timezone = st_timezone st\<rparr>)"

definition all_task_statuses :: "schedule_settings \<Rightarrow> task_status list" where
  "all_task_statuses st = map (task_status_of st) DEFAULT_TASK_IDS"

section \<open>The fallback backend\<close>

definition HOUR_US :: int where "HOUR_US = 3600000000"

text \<open>\<open>bk_jobs\<close> is the dict of definitions in insertion order; \<open>bk_calls\<close> logs the callbacks.\<close>

record backend =
  bk_running :: bool
  bk_jobs :: "job_definition list"
  bk_next :: "pystr \<Rightarrow> int option"
  bk_last_fired :: "pystr \<Rightarrow> int option"
  bk_calls :: "pystr list"

definition fresh_backend :: backend where
  "fresh_backend = \<lparr>bk_running = False, bk_jobs = [], bk_next = (\<lambda>j. None),
     bk_last_fired = (\<lambda>j. None), bk_calls = []\<rparr>"

definition zone_of :: "(pystr \<Rightarrow> zone) \<Rightarrow> pystr \<Rightarrow> zone" where
  "zone_of zones name = zones (if name = [] then lit ''UTC'' else name)"

definition compute_next ::
  "digit_table \<Rightarrow> (pystr \<Rightarrow> zone) \<Rightarrow> int \<Rightarrow> job_definition \<Rightarrow> backend_error + int" where
  "compute_next U zones now d =
     (case df_trigger d of
        IntervalTrigger \<Rightarrow>
          (case py_int U (df_expression d) of
             None \<Rightarrow> Inl BadValue
           | Some hours \<Rightarrow> Inr (now + max 1 hours * HOUR_US))
      | CronTrigger \<Rightarrow>
          (case next_cron_fire U (zone_of zones (df_timezone d)) (df_expression d) now of
             None \<Rightarrow> Inl BadValue
           | Some None \<Rightarrow> Inr (now + DAY_US)
           | Some (Some t) \<Rightarrow> Inr t))"

definition backend_add ::
  "digit_table \<Rightarrow> (pystr \<Rightarrow> zone) \<Rightarrow> int \<Rightarrow> job_definition \<Rightarrow> (backend, backend_error, unit) act" where
  "backend_add U zones now d = (\<lambda>b.
     if df_job_id d \<in> df_job_id ` set (bk_jobs b) then (Inl DuplicateJob, b)
     else
       let b1 = b\<lparr>bk_jobs := bk_jobs b @ [d]\<rparr> in
       (case compute_next U zones now d of
          Inl e \<Rightarrow> (Inl e, b1)
        | Inr t \<Rightarrow> (Inr (), b1\<lparr>bk_next := (bk_next b1)(df_job_id d \<mapsto> t)\<rparr>)))"

definition backend_remove :: "pystr \<Rightarrow> backend \<Rightarrow> backend" where
  "backend_remove job_id b =
     b\<lparr>bk_jobs := filter (\<lambda>d. df_job_id d \<noteq> job_id) (bk_jobs b),
       bk_next := (bk_next b)(job_id := None), bk_last_fired := (bk_last_fired b)(job_id := None)\<rparr>"

definition is_due :: "backend \<Rightarrow> int \<Rightarrow> job_definition \<Rightarrow> bool" where
  "is_due b now d = (case bk_next b (df_job_id d) of None \<Rightarrow> False | Some t \<Rightarrow> t \<le> now)"

text \<open>The first half of a tick, under the lock: the due jobs get their next time.\<close>

fun reschedule_due ::
  "digit_table \<Rightarrow> (pystr \<Rightarrow> zone) \<Rightarrow> int \<Rightarrow> job_definition list \<Rightarrow> pystr list \<Rightarrow>
   (backend, backend_error, pystr list) act" where
  "reschedule_due U zones now [] jobs = ret jobs"
| "reschedule_due U zones now (d # ds) jobs = (\<lambda>b.
     if is_due b now d
     then (case compute_next U zones now d of
             Inl e \<Rightarrow> (Inl e, b)
           | Inr t \<Rightarrow> reschedule_due U zones now ds (jobs @ [df_job_id d])
                       (b\<lparr>bk_next := (bk_next b)(df_job_id d \<mapsto> t)\<rparr>))
     else reschedule_due U zones now ds jobs b)"

definition fire_job :: "pystr \<Rightarrow> (backend, backend_error, unit) act" where
  "fire_job job_id = (\<lambda>b.
     if job_id \<in> df_job_id ` set (bk_jobs b) then (Inr (), b\<lparr>bk_calls := bk_calls b @ [job_id]\<rparr>)
     else (Inl UnknownJob, b))"

fun fire_each :: "int \<Rightarrow> pystr list \<Rightarrow> nat \<Rightarrow> (backend, backend_error, nat) act" where
  "fire_each now [] count = ret count"
| "fire_each now (j # js) count =
     seq (\<lambda>b. (Inr (), b\<lparr>bk_last_fired := (bk_last_fired b)(j \<mapsto> now)\<rparr>)) (\<lambda>_.
     seq (fire_job j) (\<lambda>_.
     fire_each now js (Suc count)))"

definition tick :: "digit_table \<Rightarrow> (pystr \<Rightarrow> zone) \<Rightarrow> int \<Rightarrow> (backend, backend_error, nat) act" where
  "tick U zones now = (\<lambda>b.
     seq (reschedule_due U zones now (bk_jobs b) []) (\<lambda>due_jobs. fire_each now due_jobs 0) b)"

text \<open>The pause of the thread, in microseconds: at least a tenth of a second, at most an hour.\<close>

definition loop_delay :: "backend \<Rightarrow> int \<Rightarrow> int" where
  "loop_delay b now =
     (let times = concat (map (\<lambda>d. case bk_next b (df_job_id d) of None \<Rightarrow> [] | Some t \<Rightarrow> [t]) (bk_jobs b)) in
      if times = [] then HOUR_US
      else min (max 100000 (Min (set times) - now)) HOUR_US)"

section \<open>A tick fires every due job once\<close>

lemma first_fire_after: "first_fire Z after date hms = Some t \<Longrightarrow> after < t"
  by (induction hms) (auto simp: Let_def split: if_splits)

lemma scan_days_after: "scan_days Z allowed after cs n k = Some t \<Longrightarrow> after < t"
proof (induction n arbitrary: k)
  case (Suc n)
  then show ?case
    by (auto simp: scan_days.simps(2) Let_def dest: first_fire_after split: if_splits option.splits prod.splits)
qed simp

lemma compute_next_after: "compute_next U zones now d = Inr t \<Longrightarrow> now < t"
  by (auto simp: compute_next_def next_cron_fire_def HOUR_US_def DAY_US_def dest: scan_days_after
      split: trigger_kind.splits option.splits)

lemma reschedule_due_jobs:
  assumes "reschedule_due U zones now ds js b = (Inr due_jobs, b')" "distinct (map df_job_id ds)"
  shows "due_jobs = js @ map df_job_id (filter (is_due b now) ds) \<and>
    b' = b\<lparr>bk_next := bk_next b'\<rparr> \<and>
    (\<forall>d \<in> set ds. is_due b now d \<longrightarrow> (\<exists>t. compute_next U zones now d = Inr t \<and> bk_next b' (df_job_id d) = Some t)) \<and>
    (\<forall>j. j \<notin> df_job_id ` {d \<in> set ds. is_due b now d} \<longrightarrow> bk_next b' j = bk_next b j)"
  using assms
proof (induction ds arbitrary: js b)
  case Nil
  then show ?case by (simp add: ret_def)
next
  case (Cons d ds)
  show ?case
  proof (cases "is_due b now d")
    case True
    then obtain t where t: "compute_next U zones now d = Inr t"
      "reschedule_due U zones now ds (js @ [df_job_id d]) (b\<lparr>bk_next := (bk_next b)(df_job_id d \<mapsto> t)\<rparr>)
         = (Inr due_jobs, b')"
      using Cons.prems(1) by (auto split: sum.splits)
    let ?b = "b\<lparr>bk_next := (bk_next b)(df_job_id d \<mapsto> t)\<rparr>"
    have same: "is_due ?b now x = is_due b now x" if "x \<in> set ds" for x
    proof -
      have "df_job_id x \<noteq> df_job_id d" using that Cons.prems(2) by (auto simp: image_iff)
      then show ?thesis by (simp add: is_due_def)
    qed
    then have filters: "filter (is_due ?b now) ds = filter (is_due b now) ds" by (simp cong: filter_cong)
    from same have sets: "{x \<in> set ds. is_due ?b now x} = {x \<in> set ds. is_due b now x}" by blast
    have fresh: "df_job_id d \<notin> df_job_id ` {x \<in> set ds. is_due b now x}" using Cons.prems(2) by auto
    note IH = Cons.IH [OF t(2), unfolded filters sets]
    have "distinct (map df_job_id ds)" using Cons.prems(2) by simp
    note R = IH [OF this]
    note IH1 = R [THEN conjunct1] and IH2 = R [THEN conjunct2, THEN conjunct1]
      and IH3 = R [THEN conjunct2, THEN conjunct2, THEN conjunct1]
      and IH4 = R [THEN conjunct2, THEN conjunct2, THEN conjunct2]
    have "bk_next b' (df_job_id d) = Some t" using IH4 fresh by simp
    with IH3 same t(1) have "\<forall>x \<in> set (d # ds). is_due b now x \<longrightarrow>
        (\<exists>t. compute_next U zones now x = Inr t \<and> bk_next b' (df_job_id x) = Some t)" by auto
    moreover have "\<forall>j. j \<notin> df_job_id ` {x \<in> set (d # ds). is_due b now x} \<longrightarrow> bk_next b' j = bk_next b j"
    proof (intro allI impI)
      fix j assume "j \<notin> df_job_id ` {x \<in> set (d # ds). is_due b now x}"
      then have "j \<noteq> df_job_id d" "j \<notin> df_job_id ` {x \<in> set ds. is_due b now x}"
        using True by (auto simp: image_iff)
      with IH4 show "bk_next b' j = bk_next b j" by simp
    qed
    moreover have "b' = b\<lparr>bk_next := bk_next b'\<rparr>" using IH2 by simp
    ultimately show ?thesis using IH1 True by simp
  next
    case False
    then have "reschedule_due U zones now ds js b = (Inr due_jobs, b')" using Cons.prems(1) by simp
    from Cons.IH [OF this] Cons.prems(2) False show ?thesis by auto
  qed
qed

lemma fire_each_calls:
  assumes "set js \<subseteq> df_job_id ` set (bk_jobs b)"
  shows "fire_each now js n b = (Inr (n + length js),
     b\<lparr>bk_calls := bk_calls b @ js, bk_last_fired := (\<lambda>j. if j \<in> set js then Some now else bk_last_fired b j)\<rparr>)"
  using assms
proof (induction js arbitrary: n b)
  case (Cons j js)
  let ?b = "b\<lparr>bk_last_fired := (bk_last_fired b)(j \<mapsto> now), bk_calls := bk_calls b @ [j]\<rparr>"
  have "fire_each now (j # js) n b = fire_each now js (Suc n) ?b"
    using Cons.prems by (simp add: seq_def fire_job_def)
  also have "\<dots> = (Inr (Suc n + length js), ?b\<lparr>bk_calls := bk_calls ?b @ js,
      bk_last_fired := (\<lambda>i. if i \<in> set js then Some now else bk_last_fired ?b i)\<rparr>)"
    using Cons.prems by (intro Cons.IH) simp
  finally show ?case by (simp add: fun_upd_def fun_eq_iff)
qed (simp add: ret_def)

lemma tick_exact:
  assumes "distinct (map df_job_id (bk_jobs b))" "tick U zones now b = (Inr n, b')"
  shows "bk_calls b' = bk_calls b @ map df_job_id (filter (is_due b now) (bk_jobs b))"
    and "n = length (filter (is_due b now) (bk_jobs b))"
    and "\<forall>d \<in> set (bk_jobs b). \<not> is_due b' now d" and "bk_jobs b' = bk_jobs b"
    and "\<forall>d \<in> set (bk_jobs b). \<not> is_due b now d \<longrightarrow> bk_next b' (df_job_id d) = bk_next b (df_job_id d)"
proof -
  obtain due_jobs b1 where r: "reschedule_due U zones now (bk_jobs b) [] b = (Inr due_jobs, b1)"
    and f: "fire_each now due_jobs 0 b1 = (Inr n, b')"
    using assms(2) by (auto simp: tick_def)
  note rj = reschedule_due_jobs [OF r assms(1)]
  from rj have "b1 = b\<lparr>bk_next := bk_next b1\<rparr>" by (elim conjE)
  then obtain m where "b1 = b\<lparr>bk_next := m\<rparr>" by blast
  then have b1: "bk_jobs b1 = bk_jobs b" "bk_calls b1 = bk_calls b" by simp_all
  have "set due_jobs \<subseteq> df_job_id ` set (bk_jobs b1)" using rj b1 by auto
  note fe = fire_each_calls [OF this, of now 0, unfolded f]
  have b': "bk_next b' = bk_next b1" "bk_jobs b' = bk_jobs b1" "bk_calls b' = bk_calls b1 @ due_jobs"
    and n: "n = length due_jobs"
    using fe by simp_all
  show "bk_calls b' = bk_calls b @ map df_job_id (filter (is_due b now) (bk_jobs b))"
    "n = length (filter (is_due b now) (bk_jobs b))" "bk_jobs b' = bk_jobs b"
    using b' b1 n rj by simp_all
  have unique: "df_job_id x = df_job_id y \<Longrightarrow> x \<in> set (bk_jobs b) \<Longrightarrow> y \<in> set (bk_jobs b) \<Longrightarrow> x = y" for x y
    using assms(1) by (auto simp: distinct_map dest: inj_onD)
  show "\<forall>d \<in> set (bk_jobs b). \<not> is_due b now d \<longrightarrow> bk_next b' (df_job_id d) = bk_next b (df_job_id d)"
  proof (intro ballI impI)
    fix d assume d: "d \<in> set (bk_jobs b)" "\<not> is_due b now d"
    then have "df_job_id d \<notin> df_job_id ` {x \<in> set (bk_jobs b). is_due b now x}" using unique by auto
    then show "bk_next b' (df_job_id d) = bk_next b (df_job_id d)"
      using rj [THEN conjunct2, THEN conjunct2, THEN conjunct2] b'(1) by simp
  qed
  then have waiting: "\<not> is_due b' now d" if "d \<in> set (bk_jobs b)" "\<not> is_due b now d" for d
    using that by (simp add: is_due_def)
  have "\<not> is_due b' now d" if d: "d \<in> set (bk_jobs b)" "is_due b now d" for d
  proof -
    obtain t where "compute_next U zones now d = Inr t" "bk_next b1 (df_job_id d) = Some t"
      using rj [THEN conjunct2, THEN conjunct2, THEN conjunct1] d by blast
    then show ?thesis using compute_next_after [of U zones now d t] by (simp add: is_due_def b'(1))
  qed
  with waiting show "\<forall>d \<in> set (bk_jobs b). \<not> is_due b' now d" by blast
qed

end
