(* ===== verification/CronProperties.thy ===== *)
theory CronProperties imports CronBackend "HOL-Library.Code_Target_Nat" begin

text \<open>
  What the cron component promises: validated expressions parse, the next fire is the earliest
  one, both backends read the day-of-week field alike, and a tick fires each due job once.
\<close>

section \<open>Validation and parsing agree\<close>

lemma valid_field_parses:
  assumes "valid_field U (low, high) token" "low \<le> high"
  shows "\<exists>vs. parse_field U (low, high) token = Some vs"
proof (cases "starts_with token STAR_SLASH")
  case True
  then have "token \<noteq> STAR" by (auto simp: starts_with_def STAR_SLASH_def STAR_def)
  with True assms show ?thesis
    by (auto simp: valid_field_def parse_field_def split: option.splits if_splits)
next
  case False
  with assms show ?thesis
    by (auto simp: valid_field_def parse_field_def split: option.splits if_splits)
qed

lemma valid_fields_parse:
  "list_all2 (valid_field U) bs fs \<Longrightarrow> list_all (\<lambda>(l, h). l \<le> h) bs \<Longrightarrow>
     \<exists>allowed. parse_fields U bs fs = Some allowed"
proof (induction bs fs rule: list_all2_induct)
  case (Cons b bs f fs)
  then show ?case
    using valid_field_parses [of U "fst b" "snd b" f] by (auto split: prod.splits)
qed simp

lemma strip_if_idem: "strip_if P (strip_if P s) = strip_if P s"
proof -
  have d: "dropWhile P xs = xs" if "xs = [] \<or> \<not> P (hd xs)" for xs :: pystr
    using that by (cases xs) auto
  have r: "rstrip_if P (rstrip_if P xs) = rstrip_if P xs" for xs
    using hd_dropWhile [of P "rev xs"] by (simp add: rstrip_if_def d disj_commute)
  show ?thesis
  proof (cases "rstrip_if P (dropWhile P s) = []")
    case True
    then have "strip_if P s = []" by (simp add: strip_if_def lstrip_if_def)
    moreover have "strip_if P [] = []" by (simp add: strip_if_def lstrip_if_def rstrip_if_def)
    ultimately show ?thesis by simp
  next
    case False
    obtain t where t: "dropWhile P s = rstrip_if P (dropWhile P s) @ t"
      using rstrip_if_prefix by metis
    have "dropWhile P s \<noteq> []" using False t by (metis append_is_Nil_conv rstrip_if_def dropWhile.simps(1) rev.simps(1))
    then have "\<not> P (hd (dropWhile P s))" by (rule hd_dropWhile)
    then have "\<not> P (hd (rstrip_if P (dropWhile P s)))" using t False by (metis hd_append2)
    then show ?thesis by (simp add: strip_if_def lstrip_if_def d r)
  qed
qed

text \<open>
  An expression the configuration accepts never makes the scheduler raise: the parser behind
  the next fire accepts it, and gives five non-empty ascending lists of values within the bounds of
  their fields.
\<close>

theorem valid_expressions_parse:
  assumes "valid_cron U raw = Some expression"
  shows "\<exists>allowed. parse_cron_expression U expression = Some allowed \<and>
    list_all2 (\<lambda>(low, high) vs. sorted vs \<and> distinct vs \<and> vs \<noteq> [] \<and> set vs \<subseteq> {low..high})
      FIELD_BOUNDS allowed"
proof -
  have e: "expression = strip raw" "length (split_words expression) = 5"
      "list_all2 (valid_field U) FIELD_BOUNDS (split_words expression)"
    using assms by (auto simp: valid_cron_def Let_def split: if_splits)
  have "strip expression = expression" unfolding e(1) by (rule strip_if_idem)
  moreover obtain allowed where "parse_fields U FIELD_BOUNDS (split_words expression) = Some allowed"
    using valid_fields_parse [OF e(3)] by (auto simp: FIELD_BOUNDS_def)
  ultimately have "parse_cron_expression U expression = Some allowed"
    using e(2) by (simp add: parse_cron_expression_def)
  with parse_ok [OF this] show ?thesis by (auto simp: fields_ok_def)
qed

theorem valid_expressions_parse_witness:
  "\<exists>allowed. parse_cron_expression ascii_digits (lit ''*/15 20 * * 0'') = Some allowed \<and>
    list_all2 (\<lambda>(low, high) vs. sorted vs \<and> distinct vs \<and> vs \<noteq> [] \<and> set vs \<subseteq> {low..high})
      FIELD_BOUNDS allowed"
  by (rule valid_expressions_parse [where raw = "lit '' */15 20 * * 0 ''"]) code_simp

section \<open>The next fire is the earliest\<close>


text \<open>A zone that moves its clocks one hour ahead at the start of 2026-03-29.\<close>

definition spring_zone :: zone where
  "spring_zone = (let switch = 739703 * DAY_US; hour = 60 * MINUTE_US in
     \<lparr>offset_at = (\<lambda>t. if t < switch then 0 else hour),
      offset_of_wall = (\<lambda>w. if w < switch + hour then 0 else hour)\<rparr>)"

lemma spring_zone_ok: "zone_ok spring_zone"
  by (auto simp: zone_ok_def spring_zone_def Let_def whole_minute_def MINUTE_US_def DAY_US_def
      local_time_def instant_of_def)


section \<open>An expression that never fires\<close>

lemma locate_month_bound:
  "locate_month m ls n = (m', d) \<Longrightarrow> m \<le> m' \<and> (m' < m + length ls \<longrightarrow> d \<le> ls ! (m' - m))"
proof (induction m ls n rule: locate_month.induct)
  case (2 m l ls n)
  show ?case
  proof (cases "n < l")
    case True
    with "2.prems" show ?thesis by auto
  next
    case False
    with 2 have IH: "Suc m \<le> m'" "m' < Suc m + length ls \<Longrightarrow> d \<le> ls ! (m' - Suc m)" by auto
    then have "m' - m = Suc (m' - Suc m)" by simp
    with IH show ?thesis by simp
  qed
qed simp

lemma february_short: "month_day date = (2, day) \<Longrightarrow> day \<le> 29"
proof -
  assume "month_day date = (2, day)"
  then obtain leap n where l: "locate_month 1 (month_lengths leap) n = (2, day)"
    by (simp add: month_day_def ymd_def Let_def split: if_splits)
  have "length (month_lengths leap) = 11" "month_lengths leap ! 1 \<le> 29"
    by (simp_all add: month_lengths_def)
  with locate_month_bound [OF l] show "day \<le> 29" by simp
qed

lemma scan_never: "\<forall>date. \<not> day_fires allowed date \<Longrightarrow> scan_days Z allowed after cs n k = None"
  by (induction n arbitrary: k)
    (simp_all add: scan_days.simps(2) day_fires_def Let_def case_prod_unfold)

text \<open>
  A validated expression need not ever fire: the thirtieth of February is accepted by the
  configuration, and whatever the zone and the time, the search for its next fire comes back with
  nothing.
\<close>

theorem february_30_never_fires:
  "valid_cron ascii_digits (lit ''0 0 30 2 *'') = Some (lit ''0 0 30 2 *'') \<and>
   next_cron_fire ascii_digits Z (lit ''0 0 30 2 *'') after = Some None"
proof -
  have "valid_cron ascii_digits (lit ''0 0 30 2 *'') = Some (lit ''0 0 30 2 *'')" by code_simp
  moreover have p: "parse_cron_expression ascii_digits (lit ''0 0 30 2 *'') =
      Some [[0], [0], [30], [2], [0, 1, 2, 3, 4, 5, 6, 7]]" by code_simp
  have "\<not> day_fires [[0], [0], [30], [2], [0, 1, 2, 3, 4, 5, 6, 7]] date" for date
    using february_short [of date] by (cases "month_day date") (auto simp: day_fires_def day_matches_def)
  then have "scan_days Z [[0], [0], [30], [2], [0, 1, 2, 3, 4, 5, 6, 7]] after cs n k = None" for cs n k
    by (intro scan_never) blast
  then have "next_cron_fire ascii_digits Z (lit ''0 0 30 2 *'') after = Some None"
    by (simp only: next_cron_fire_def p option.map)
  ultimately show ?thesis by blast
qed

section \<open>The two backends\<close>

text \<open>
  What APScheduler documents of a day-of-week field: \<^verbatim>\<open>*\<close> fires on every day, a list of numbers on
  each of them, Monday being 0.
\<close>

definition aps_weekday_matches :: "pystr \<Rightarrow> nat \<Rightarrow> bool" where
  "aps_weekday_matches field weekday \<longleftrightarrow> field = STAR \<or> [48 + weekday] \<in> set (split_on 44 field)"

definition cron_weekday_matches :: "nat list \<Rightarrow> nat \<Rightarrow> bool" where
  "cron_weekday_matches values weekday \<longleftrightarrow>
     (let d = (weekday + 1) mod 7 in d \<in> set values \<or> d = 0 \<and> 7 \<in> set values)"

lemma translated_day:
  assumes "v \<le> 7" "wd < 7"
  shows "int wd = (int v + 6) mod 7 \<longleftrightarrow> v = (wd + 1) mod 7 \<or> (wd + 1) mod 7 = 0 \<and> v = 7"
proof -
  have "v \<in> {0, 1, 2, 3, 4, 5, 6, 7}" "wd \<in> {0, 1, 2, 3, 4, 5, 6}" using assms by auto
  then show ?thesis by (elim insertE emptyE) simp_all
qed

lemma translated_days:
  assumes "vs \<noteq> []" "set vs \<subseteq> {0..7}" "wd < 7"
  shows "aps_weekday_matches (join_with 44 (map (\<lambda>v. [48 + nat v])
      (sort (remdups (map (\<lambda>v. (v + 6) mod 7) (map int vs)))))) wd \<longleftrightarrow> cron_weekday_matches vs wd"
proof -
  let ?ds = "sort (remdups (map (\<lambda>v. (v + 6) mod 7) (map int vs)))"
  let ?field = "join_with 44 (map (\<lambda>v. [48 + nat v]) ?ds)"
  have set_ds: "set ?ds = (\<lambda>v. (int v + 6) mod 7) ` set vs" by (simp add: image_image)
  then have ne: "?ds \<noteq> []" using assms(1) by (metis image_is_empty set_empty)
  have split: "split_on 44 ?field = map (\<lambda>v. [48 + nat v]) ?ds"
    using ne by (intro split_join) auto
  have "?field \<noteq> STAR"
  proof
    assume star: "?field = STAR"
    have "split_on 44 STAR = [STAR]" by code_simp
    then have "map (\<lambda>v. [48 + nat v]) ?ds = [STAR]" using split by (simp only: star)
    then have "STAR \<in> (\<lambda>v. [48 + nat v]) ` set ?ds" by (metis list.set_intros(1) list.set_map)
    then show False by (auto simp: STAR_def)
  qed
  then have "aps_weekday_matches ?field wd \<longleftrightarrow> (\<exists>d \<in> set ?ds. nat d = wd)"
    unfolding aps_weekday_matches_def split by auto
  also have "\<dots> \<longleftrightarrow> (\<exists>v \<in> set vs. int wd = (int v + 6) mod 7)"
  proof -
    have "nat ((int v + 6) mod 7) = wd \<longleftrightarrow> int wd = (int v + 6) mod 7" for v
      using pos_mod_sign [of 7 "int v + 6"] by linarith
    then show ?thesis unfolding set_ds by simp
  qed
  also have "\<dots> \<longleftrightarrow> (\<exists>v \<in> set vs. v = (wd + 1) mod 7 \<or> (wd + 1) mod 7 = 0 \<and> v = 7)"
  proof (rule bex_cong [OF refl])
    fix v assume "v \<in> set vs"
    with assms(2) have "v \<le> 7" by auto
    then show "int wd = (int v + 6) mod 7 \<longleftrightarrow> v = (wd + 1) mod 7 \<or> (wd + 1) mod 7 = 0 \<and> v = 7"
      by (rule translated_day [OF _ assms(3)])
  qed
  also have "\<dots> \<longleftrightarrow> cron_weekday_matches vs wd"
    by (auto simp: cron_weekday_matches_def Let_def)
  finally show ?thesis .
qed

text \<open>
  The translation of the day-of-week field for the other backend selects the same days: for every
  field the configuration accepts it succeeds, and on every weekday the translated field fires exactly
  when the parsed one does, Sunday being 0 and 7 on one side and 6 on the other.
\<close>

theorem backends_agree_on_weekdays:
  assumes "valid_field U (0, 7) token"
  shows "\<exists>field values. vixie_dow_to_apscheduler U token = Some field \<and>
    parse_field U (0, 7) token = Some values \<and>
    (\<forall>wd < 7. aps_weekday_matches field wd \<longleftrightarrow> cron_weekday_matches values wd)"
proof (cases "token = STAR")
  case True
  then show ?thesis
    by (auto simp: vixie_dow_to_apscheduler_def parse_field_def aps_weekday_matches_def
        cron_weekday_matches_def Let_def)
next
  case other: False
  obtain vs where p: "parse_field U (0, 7) token = Some vs"
    using valid_field_parses [OF assms] by auto
  have "aps_weekdays U token = Some (map int vs)"
    using p assms other
    by (auto simp: parse_field_def aps_weekdays_def valid_field_def split: if_splits option.splits)
  with other translated_days [of vs] parse_field_ok [OF p] p show ?thesis
    by (auto simp: vixie_dow_to_apscheduler_def)
qed

theorem backends_agree_on_weekdays_witness:
  "\<exists>field values. vixie_dow_to_apscheduler ascii_digits (lit ''*/3'') = Some field \<and>
    parse_field ascii_digits (0, 7) (lit ''*/3'') = Some values \<and>
    (\<forall>wd < 7. aps_weekday_matches field wd \<longleftrightarrow> cron_weekday_matches values wd)"
  by (rule backends_agree_on_weekdays) code_simp

text \<open>
  C99. When both the day of month and the day of week are restricted the backends differ: on Tuesday,
  13 October 2026, the thirteenth-or-Friday expression fires for \<^verbatim>\<open>cron.py\<close>, which the status
  page and the fallback backend use, while the weekday field handed to APScheduler, where every field
  has to match, excludes the day.
\<close>

theorem backends_differ_on_restricted_days:
  "parse_cron_expression ascii_digits (lit ''0 9 13 * 5'') = Some [[0], [9], [13], [1..<13], [5]] \<and>
   ymd 739901 = (2026, 10, 13) \<and> day_fires [[0], [9], [13], [1..<13], [5]] 739901 \<and>
   (\<exists>field. vixie_dow_to_apscheduler ascii_digits (lit ''5'') = Some field \<and>
      \<not> aps_weekday_matches field (739901 mod 7))"
proof -
  have "vixie_dow_to_apscheduler ascii_digits (lit ''5'') = Some (lit ''4'')" by code_simp
  moreover have "\<not> aps_weekday_matches (lit ''4'') (739901 mod 7)" by code_simp
  ultimately have "\<exists>field. vixie_dow_to_apscheduler ascii_digits (lit ''5'') = Some field \<and>
      \<not> aps_weekday_matches field (739901 mod 7)" by blast
  moreover have "parse_cron_expression ascii_digits (lit ''0 9 13 * 5'') = Some [[0], [9], [13], [1..<13], [5]]"
    by code_simp
  moreover have "ymd 739901 = (2026, 10, 13)" by code_simp
  moreover have "day_fires [[0], [9], [13], [1..<13], [5]] 739901" by code_simp
  ultimately show ?thesis by blast
qed

section \<open>A tick of the fallback backend\<close>

text \<open>
  A tick that returns has called exactly the jobs that were due, each once and in the order of
  their registration; afterwards nothing is due any more at that time, so repeating the tick fires
  nothing, and jobs that were not due keep their time.
\<close>

theorem tick_fires_each_due_job_once:
  assumes "distinct (map df_job_id (bk_jobs b))" "tick U zones now b = (Inr n, b')"
  shows "bk_calls b' = bk_calls b @ map df_job_id (filter (is_due b now) (bk_jobs b)) \<and>
    n = length (filter (is_due b now) (bk_jobs b)) \<and>
    tick U zones now b' = (Inr 0, b') \<and>
    (\<forall>d \<in> set (bk_jobs b). \<not> is_due b now d \<longrightarrow> bk_next b' (df_job_id d) = bk_next b (df_job_id d))"
proof -
  note exact = tick_exact [OF assms]
  have "reschedule_due U zones now ds js b' = (Inr js, b')" if "set ds \<subseteq> set (bk_jobs b)" for ds js
    using that exact(3) by (induction ds) (auto simp: ret_def)
  then have "tick U zones now b' = (Inr 0, b')"
    using exact(4) by (simp add: tick_def seq_def ret_def)
  with exact show ?thesis by blast
qed

text \<open>The registered jobs of the default schedule, daily at 23:00 and on Sundays at 20:00.\<close>

definition demo_schedule :: schedule_settings where
  "demo_schedule = \<lparr>st_timezone = lit ''UTC'', st_daily_cron = lit ''0 23 * * *'',
     st_weekly_cron = lit ''0 20 * * 0'', st_index_check = True, st_index_hours = 24\<rparr>"

definition demo_backend :: backend where
  "demo_backend = fresh_backend\<lparr>bk_jobs := build_definitions demo_schedule,
     bk_next := (\<lambda>j. if j = DAILY then Some 0 else Some (10 * DAY_US))\<rparr>"

lemma demo_tick: "\<exists>b'. tick ascii_digits (\<lambda>_. spring_zone) (739901 * DAY_US) demo_backend = (Inr 3, b')"
proof -
  have "map_sum (\<lambda>_. ()) id (fst (tick ascii_digits (\<lambda>_. spring_zone) (739901 * DAY_US) demo_backend)) = Inr 3"
    by code_simp
  then show ?thesis
    by (cases "tick ascii_digits (\<lambda>_. spring_zone) (739901 * DAY_US) demo_backend";
        cases "fst (tick ascii_digits (\<lambda>_. spring_zone) (739901 * DAY_US) demo_backend)") auto
qed

theorem tick_fires_each_due_job_once_witness:
  "\<exists>b'. bk_calls b' = [DAILY, WEEKLY, INDEX] \<and>
     tick ascii_digits (\<lambda>_. spring_zone) (739901 * DAY_US) b' = (Inr 0, b')"
proof -
  obtain b' where t: "tick ascii_digits (\<lambda>_. spring_zone) (739901 * DAY_US) demo_backend = (Inr 3, b')"
    using demo_tick by blast
  have "distinct (map df_job_id (bk_jobs demo_backend))" by code_simp
  note r = tick_fires_each_due_job_once [OF this t]
  have "bk_calls demo_backend @ map df_job_id (filter (is_due demo_backend (739901 * DAY_US))
      (bk_jobs demo_backend)) = [DAILY, WEEKLY, INDEX]" by code_simp
  with r show ?thesis by auto
qed

end
