(* ===== verification/IndexCheck.thy ===== *)
theory IndexCheck imports Agents CronBackend begin

text \<open>
  \<^verbatim>\<open>server/scheduler/index_job.py\<close>: the comparison of the vault's notes with the derived index. What
  the two services answer is the record \<open>index_inputs\<close>: the tree listing (path, whether it is a file,
  its digest), the index entries, and whether a rebuild succeeds and reports ready; \<open>None\<close> stands for
  an exception. Timing is left out.
\<close>

record index_inputs =
  ix_configured :: bool
  ix_ready :: bool
  ix_tree :: "(pystr \<times> bool \<times> pystr option) list option"
  ix_entries :: "(pystr \<times> pystr) list option"
  ix_rebuild :: "bool option"

record consistency_result =
  cn_ready :: bool
  cn_checked :: nat
  cn_mismatches :: "pystr list"
  cn_degraded :: bool
  cn_rebuilt :: bool
  cn_error :: "pystr option"

definition degraded_result :: "pystr \<Rightarrow> consistency_result" where
  "degraded_result message = \<lparr>cn_ready = False, cn_checked = 0, cn_mismatches = [], cn_degraded = True,
     cn_rebuilt = False, cn_error = Some message\<rparr>"

text \<open>Dicts in insertion order: a second entry for a path replaces the digest in place.\<close>

definition dict_of :: "(pystr \<times> pystr) list \<Rightarrow> (pystr \<times> pystr) list" where
  "dict_of entries = foldl (\<lambda>m e. upsert fst e m) [] entries"

definition vault_notes :: "pylib \<Rightarrow> (pystr \<times> bool \<times> pystr option) list \<Rightarrow> (pystr \<times> pystr) list" where
  "vault_notes L tree =
     dict_of (map (\<lambda>(path, is_file, digest). (path, case digest of None \<Rightarrow> lit ''<unhashed>'' | Some d \<Rightarrow> d))
       (filter (\<lambda>(path, is_file, digest). is_markdown L path \<and> is_file) tree))"

definition note_mismatch :: "(pystr \<times> pystr) list \<Rightarrow> pystr \<times> pystr \<Rightarrow> pystr list" where
  "note_mismatch indexed note =
     (case map_of indexed (fst note) of
        None \<Rightarrow> [lit ''missing:'' @ fst note]
      | Some d \<Rightarrow> if d \<noteq> snd note then [lit ''hash:'' @ fst note] else [])"

definition index_mismatches :: "(pystr \<times> pystr) list \<Rightarrow> (pystr \<times> pystr) list \<Rightarrow> pystr list" where
  "index_mismatches notes indexed =
     concat (map (note_mismatch indexed) notes) @
     map (\<lambda>e. lit ''stale:'' @ fst e) (filter (\<lambda>e. map_of notes (fst e) = None) indexed)"

definition check_index :: "pylib \<Rightarrow> bool \<Rightarrow> index_inputs \<Rightarrow> consistency_result" where
  "check_index L rebuild_allowed I =
     (if \<not> ix_configured I then degraded_result (lit ''index consistency needs a configured Vault and index'')
      else if \<not> ix_ready I then degraded_result (lit ''derived index is not ready'')
      else
        (case ix_tree I of
           None \<Rightarrow> degraded_result (lit ''vault listing failed'')
         | Some tree \<Rightarrow>
             let notes = vault_notes L tree in
             (case ix_entries I of
                None \<Rightarrow> degraded_result (lit ''derived index read failed'')
              | Some entries \<Rightarrow>
                  let mismatches = index_mismatches notes (dict_of entries) in
                  if mismatches \<noteq> [] \<and> rebuild_allowed then
                    (case ix_rebuild I of
                       None \<Rightarrow> (degraded_result (lit ''index rebuild failed; health/Vault unaffected''))
                         \<lparr>cn_checked := length notes, cn_mismatches := mismatches\<rparr>
                     | Some is_ready \<Rightarrow> \<lparr>cn_ready = is_ready, cn_checked = length notes,
                         cn_mismatches = mismatches, cn_degraded = False, cn_rebuilt = True, cn_error = None\<rparr>)
                  else \<lparr>cn_ready = (mismatches = []), cn_checked = length notes,
                         cn_mismatches = mismatches, cn_degraded = False, cn_rebuilt = False, cn_error = None\<rparr>)))"

text \<open>\<open>ms\<close> is the formatted duration.\<close>

definition to_message :: "pystr \<Rightarrow> consistency_result \<Rightarrow> pystr" where
  "to_message ms r =
     (let n = digits_of (length (cn_mismatches r)) in
      if some_nonempty (cn_error r) then the (cn_error r)
      else if cn_rebuilt r then lit ''index rebuilt after '' @ n @ lit '' mismatch(es)''
      else if cn_mismatches r \<noteq> [] then lit ''index inconsistent ('' @ n @ lit '' mismatch(es))''
      else lit ''index consistent ('' @ digits_of (cn_checked r) @ lit '' notes, '' @ ms @ lit '' ms)'')"

section \<open>Consistent means equal\<close>

lemma map_of_upsert: "map_of (upsert fst (k, v) m) = (map_of m)(k \<mapsto> v)"
  by (induction m) (auto simp: fun_eq_iff)

lemma map_of_dict: "map_of (dict_of entries) = map_of (rev entries)"
proof -
  have "map_of (foldl (\<lambda>m e. upsert fst e m) m entries) = map_of m ++ map_of (rev entries)" for m
    by (induction entries arbitrary: m) (auto simp: map_of_upsert)
  from this [of "[]"] show ?thesis by (simp add: dict_of_def)
qed

lemma set_upsert_keys: "set (map fst (upsert fst e m)) = insert (fst e) (set (map fst m))"
  by (induction m) (auto simp: image_iff)

lemma distinct_upsert_keys: "distinct (map fst m) \<Longrightarrow> distinct (map fst (upsert fst e m))"
proof (induction m)
  case (Cons y ys)
  show ?case
  proof (cases "fst y = fst e")
    case True
    with Cons.prems show ?thesis by simp
  next
    case False
    then have "fst y \<notin> set (map fst (upsert fst e ys))"
      using Cons.prems unfolding set_upsert_keys by simp
    with False Cons show ?thesis by simp
  qed
qed simp

lemma distinct_dict: "distinct (map fst (dict_of entries))"
proof -
  have "distinct (map fst m) \<Longrightarrow> distinct (map fst (foldl (\<lambda>m e. upsert fst e m) m entries))" for m
    by (induction entries arbitrary: m) (auto simp: distinct_upsert_keys)
  then show ?thesis by (simp add: dict_of_def)
qed

lemma no_mismatch:
  assumes "distinct (map fst notes)" "distinct (map fst indexed)"
  shows "index_mismatches notes indexed = [] \<longleftrightarrow> map_of notes = map_of indexed"
proof
  assume none: "index_mismatches notes indexed = []"
  show "map_of notes = map_of indexed"
  proof
    fix p
    show "map_of notes p = map_of indexed p"
    proof (cases "map_of notes p")
      case None
      have "p \<notin> fst ` set indexed"
      proof
        assume "p \<in> fst ` set indexed"
        then obtain d where "(p, d) \<in> set indexed" by force
        with none None show False by (force simp: index_mismatches_def filter_empty_conv)
      qed
      with None show ?thesis by (simp add: map_of_eq_None_iff [THEN iffD2])
    next
      case (Some d)
      with none have "note_mismatch indexed (p, d) = []"
        by (auto simp: index_mismatches_def dest: map_of_SomeD)
      with Some show ?thesis by (auto simp: note_mismatch_def split: option.splits if_splits)
    qed
  qed
next
  assume same: "map_of notes = map_of indexed"
  have "note_mismatch indexed e = []" if "e \<in> set notes" for e
  proof -
    have "map_of indexed (fst e) = Some (snd e)" using that assms(1) same by (metis map_of_is_SomeI prod.collapse)
    then show ?thesis by (simp add: note_mismatch_def)
  qed
  moreover have "map_of notes (fst e) \<noteq> None" if "e \<in> set indexed" for e
    using that same by (simp add: map_of_eq_None_iff)
  ultimately show "index_mismatches notes indexed = []"
    by (auto simp: index_mismatches_def filter_empty_conv)
qed

end
