(* ===== verification/Scheduler.thy ===== *)
theory Scheduler imports IndexCheck begin

text \<open>
  \<^verbatim>\<open>server/scheduler/service.py\<close>, \<^verbatim>\<open>runner.py\<close>, \<^verbatim>\<open>cleanup.py\<close>, \<^verbatim>\<open>models.py\<close> and \<^verbatim>\<open>locks.py\<close>: the
  gate in front of a run, the run itself, its final record, the watchdog, the shutdown and the explicit
  recovery. The scheduler, the job service and the recovery service share one history, as
  \<^verbatim>\<open>runtime.py\<close> wires them.

  The clock and \<^verbatim>\<open>uuid4\<close> are sequences: every reading takes the next element. Instants and durations
  are microseconds; \<open>sc_iso\<close> and \<open>sc_parse\<close> are \<^verbatim>\<open>isoformat\<close> and \<^verbatim>\<open>fromisoformat\<close>. A run is one
  call of \<open>pipeline\<close>; its only suspension point is the planner, whose answer is an argument. The
  messages of exceptions are the parameter \<open>sc_text\<close>; the response carries the row only.
\<close>

datatype sched_error = UnknownTask | SchedulerDisabled | SchedulerUnavailable | RecoveryRequired pystr
  | JobInProgress pystr | JobTimeout pystr | RecoveryNotSafe | SchedulerConfigInvalid | RunNotFound
  | BadRun | Failed exc

record sched_cfg =
  sc_enabled :: bool
  sc_timeout :: int
  sc_stale_after :: int
  sc_level2 :: bool
  sc_level2_actions :: "action_type list"
  sc_default_scope :: job_scope
  sc_has_agent :: bool
  sc_has_recovery :: bool
  sc_has_checker :: bool
  sc_auto_rebuild :: bool
  sc_agent :: agent_cfg
  sc_clock :: "nat \<Rightarrow> int"
  sc_uuid :: "nat \<Rightarrow> pystr"
  sc_iso :: "int \<Rightarrow> pystr"
  sc_parse :: "pystr \<Rightarrow> int option"
  sc_text :: "agent_error \<Rightarrow> pystr"
  sc_cleanup_enabled :: bool
  sc_cleanup_interval_hours :: int
  sc_retention_days :: int
  sc_max_runs :: int
  sc_subtract_days :: "pystr \<Rightarrow> int \<Rightarrow> pystr option"

record 'w sched =
  sd_agents :: "'w agents"
  sd_started :: bool
  sd_reconfiguring :: bool
  sd_active :: "(pystr \<times> pystr) list"
  sd_owners :: "(pystr \<times> pystr) list"
  sd_ticks :: nat
  sd_uuids :: nat
  sd_last_cleanup :: "pystr option"

type_synonym ('w, 'a) sd_act = "('w sched, sched_error, 'a) act"

definition read_clock :: "sched_cfg \<Rightarrow> ('w, int) sd_act" where
  "read_clock C = (\<lambda>s. (Inr (sc_clock C (sd_ticks s)), s\<lparr>sd_ticks := Suc (sd_ticks s)\<rparr>))"

definition now_iso :: "sched_cfg \<Rightarrow> ('w, pystr) sd_act" where
  "now_iso C = seq (read_clock C) (\<lambda>t. ret (sc_iso C t))"

definition fresh_uuid :: "sched_cfg \<Rightarrow> ('w, pystr) sd_act" where
  "fresh_uuid C = (\<lambda>s. (Inr (sc_uuid C (sd_uuids s)), s\<lparr>sd_uuids := Suc (sd_uuids s)\<rparr>))"

text \<open>Calls of the job service and, through its state, of recovery and history.\<close>

definition on_agents :: "('w, 'a) ag_act \<Rightarrow> ('w sched, agent_error, 'a) act" where
  "on_agents m = (\<lambda>s. case m (sd_agents s) of (r, a) \<Rightarrow> (r, s\<lparr>sd_agents := a\<rparr>))"

definition on_recovery :: "('w, 'a) rec_act \<Rightarrow> ('w, 'a) sd_act" where
  "on_recovery m = (\<lambda>s. case m (ag_rec (sd_agents s)) of
       (Inl e, r) \<Rightarrow> (Inl (Failed e), s\<lparr>sd_agents := (sd_agents s)\<lparr>ag_rec := r\<rparr>\<rparr>)
     | (Inr x, r) \<Rightarrow> (Inr x, s\<lparr>sd_agents := (sd_agents s)\<lparr>ag_rec := r\<rparr>\<rparr>))"

definition sd_history :: "'w sched \<Rightarrow> history option" where
  "sd_history s = rs_history (ag_rec (sd_agents s))"

definition runs_call :: "'a hist_act \<Rightarrow> 'a \<Rightarrow> ('w, 'a) sd_act" where
  "runs_call m d = on_recovery (on_history m d)"

section \<open>Task locks\<close>

definition lock_owner :: "pystr \<Rightarrow> 'w sched \<Rightarrow> pystr option" where
  "lock_owner task s = map_of (sd_owners s) task"

definition is_locked :: "pystr \<Rightarrow> 'w sched \<Rightarrow> bool" where
  "is_locked task s \<longleftrightarrow> lock_owner task s \<noteq> None"

text \<open>\<^verbatim>\<open>with locks.acquire(task, run_id): m\<close>\<close>

definition with_lock :: "pystr \<Rightarrow> pystr \<Rightarrow> ('w, 'a) sd_act \<Rightarrow> ('w, 'a) sd_act" where
  "with_lock task run_id m = (\<lambda>s.
     case lock_owner task s of
       Some owner \<Rightarrow> (Inl (JobInProgress owner), s)
     | None \<Rightarrow> finally_do m (modify (\<lambda>s. s\<lparr>sd_owners := filter (\<lambda>x. fst x \<noteq> task) (sd_owners s)\<rparr>))
                 (s\<lparr>sd_owners := sd_owners s @ [(task, run_id)]\<rparr>))"

section \<open>Run rows\<close>

definition ACTIVE_RUN_STATUSES :: "pystr list" where
  "ACTIVE_RUN_STATUSES = map run_status_value [RQueued, RRunning]"

text \<open>The field constraints of \<^verbatim>\<open>SchedulerRun\<close>; \<^verbatim>\<open>to_row\<close> keeps the fields as they are.\<close>

definition valid_run :: "run_row \<Rightarrow> bool" where
  "valid_run r \<longleftrightarrow> rr_task r \<in> set DEFAULT_TASK_IDS \<and>
     rr_trigger r \<in> {lit ''scheduled'', lit ''manual'', lit ''startup''} \<and>
     1 \<le> length (rr_idempotency_key r) \<and> length (rr_idempotency_key r) \<le> 256 \<and>
     (\<forall>j \<in> set_option (rr_agent_job_id r). length j \<le> 128) \<and>
     (\<forall>e \<in> set_option (rr_error_code r). length e \<le> 64) \<and>
     (\<forall>m \<in> set_option (rr_message r). length m \<le> 2000)"

definition to_row :: "run_row \<Rightarrow> sched_error + run_row" where
  "to_row r = (if valid_run r then Inr r else Inl BadRun)"

definition save_run :: "run_row \<Rightarrow> ('w, unit) sd_act" where
  "save_run row =
     seq (reading (\<lambda>s. sd_history s = None)) (\<lambda>none.
     if none then raise SchedulerUnavailable
     else seq (runs_call (h_save_run row) row) (\<lambda>_. ret ()))"

definition get_run :: "pystr \<Rightarrow> ('w, run_row option) sd_act" where
  "get_run run_id = runs_call (h_get_run run_id) None"

definition or_keep :: "'a option \<Rightarrow> 'a option \<Rightarrow> 'a option" where
  "or_keep new old = (case new of None \<Rightarrow> old | Some x \<Rightarrow> Some x)"

definition updated_run ::
  "run_status \<Rightarrow> pystr option \<Rightarrow> pystr option \<Rightarrow> pystr option \<Rightarrow> pystr option \<Rightarrow> run_row \<Rightarrow> run_row" where
  "updated_run status agent_job_id error_code message finished_at r =
     r\<lparr>rr_status := run_status_value status, rr_agent_job_id := or_keep agent_job_id (rr_agent_job_id r),
       rr_error_code := or_keep error_code (rr_error_code r), rr_message := or_keep message (rr_message r),
       rr_finished_at := or_keep finished_at (rr_finished_at r)\<rparr>"

definition update_status ::
  "pystr \<Rightarrow> run_status \<Rightarrow> pystr option \<Rightarrow> pystr option \<Rightarrow> pystr option \<Rightarrow> pystr option \<Rightarrow> ('w, unit) sd_act" where
  "update_status run_id status agent_job_id error_code message finished_at =
     seq (get_run run_id) (\<lambda>current.
     case current of
       None \<Rightarrow> ret ()
     | Some r \<Rightarrow> save_run (updated_run status agent_job_id error_code message finished_at r))"

definition last_run :: "pystr \<Rightarrow> ('w, run_row option) sd_act" where
  "last_run task =
     seq (runs_call (h_page_runs 1 0 (Some task)) ([], 0, 1, 0)) (\<lambda>(items, total, limit, offset).
     ret (case items of [] \<Rightarrow> None | r # rs \<Rightarrow> Some r))"

section \<open>The gate\<close>

definition SCHEDULED :: pystr where "SCHEDULED = lit ''scheduled''"
definition MANUAL :: pystr where "MANUAL = lit ''manual''"

definition run_key :: "pystr \<Rightarrow> pystr \<Rightarrow> pystr" where
  "run_key task slot = task @ lit '':'' @ slot"

definition write_skip :: "sched_cfg \<Rightarrow> pystr \<Rightarrow> pystr \<Rightarrow> pystr \<Rightarrow> pystr \<Rightarrow> pystr \<Rightarrow> ('w, unit) sd_act" where
  "write_skip C task trigger error_code message scheduled_for =
     seq (now_iso C) (\<lambda>now.
     seq (fresh_uuid C) (\<lambda>run_id.
     seq (lift (to_row \<lparr>rr_run_id = run_id, rr_task = task, rr_trigger = trigger,
            rr_status = run_status_value RSkippedDuplicate,
            rr_idempotency_key = run_key task (if scheduled_for = [] then now else scheduled_for),
            rr_agent_job_id = None, rr_scheduled_for = Some scheduled_for, rr_started_at = now,
            rr_finished_at = Some now, rr_error_code = Some error_code, rr_message = Some message,
            rr_created_at = None\<rparr>)) (\<lambda>row.
     save_run (row\<lparr>rr_created_at := Some now\<rparr>))))"

text \<open>The answer says whether a scheduled trigger is dropped; a manual one gets an exception.\<close>

definition run_gate ::
  "sched_cfg \<Rightarrow> pystr \<Rightarrow> pystr \<Rightarrow> bool \<Rightarrow> pystr \<Rightarrow> pystr \<Rightarrow> run_row option \<Rightarrow> ('w, bool) sd_act" where
  "run_gate C task trigger bypass now scheduled_for newest =
     (case newest of
        None \<Rightarrow> ret False
      | Some r \<Rightarrow>
          if rr_status r = run_status_value RRecoveryRequired then
            if trigger = MANUAL \<and> bypass then ret False
            else
              seq (write_skip C task trigger (lit ''recovery_required'')
                     (lit ''previous run needs explicit recovery'') scheduled_for) (\<lambda>_.
              if trigger = MANUAL then raise (RecoveryRequired (rr_run_id r)) else ret True)
          else if rr_status r \<in> set ACTIVE_RUN_STATUSES then
            (case sc_parse C (if rr_started_at r = [] then now else rr_started_at r) of
               None \<Rightarrow> raise (Failed ValueErr)
             | Some started \<Rightarrow>
                 seq (read_clock C) (\<lambda>t.
                 if sc_stale_after C < t - started then
                   seq (update_status (rr_run_id r) RRecoveryRequired None (Some (lit ''process_interrupted''))
                          (Some (lit ''stale run superseded at startup/trigger'')) None) (\<lambda>_.
                   ret False)
                 else
                   seq (write_skip C task trigger (lit ''duplicate_run'')
                          (lit ''the task already has an active run'') scheduled_for) (\<lambda>_.
                   if trigger = MANUAL then raise (JobInProgress (rr_run_id r)) else ret True)))
          else ret False)"

definition new_run :: "pystr \<Rightarrow> pystr \<Rightarrow> pystr \<Rightarrow> pystr \<Rightarrow> pystr \<Rightarrow> run_row" where
  "new_run run_id task trigger scheduled_for now =
     \<lparr>rr_run_id = run_id, rr_task = task, rr_trigger = trigger, rr_status = run_status_value RRunning,
      rr_idempotency_key = run_key task scheduled_for, rr_agent_job_id = None,
      rr_scheduled_for = Some scheduled_for, rr_started_at = now, rr_finished_at = None,
      rr_error_code = None, rr_message = None, rr_created_at = None\<rparr>"

definition begin_run_unlocked ::
  "sched_cfg \<Rightarrow> pystr \<Rightarrow> pystr \<Rightarrow> pystr option \<Rightarrow> bool \<Rightarrow> ('w, pystr option) sd_act" where
  "begin_run_unlocked C task trigger scheduled bypass =
     (if task \<notin> set DEFAULT_TASK_IDS then raise UnknownTask
      else if \<not> sc_enabled C then raise SchedulerDisabled
      else
        seq (reading sd_started) (\<lambda>started.
        if \<not> started then raise SchedulerUnavailable
        else
          seq (now_iso C) (\<lambda>now.
          let scheduled_for = truthy_or scheduled now in
          seq (last_run task) (\<lambda>last.
          seq (run_gate C task trigger bypass now scheduled_for last) (\<lambda>skipped.
          if skipped then ret None
          else
            seq (fresh_uuid C) (\<lambda>run_id.
            seq (lift (to_row (new_run run_id task trigger scheduled_for now))) (\<lambda>row.
            seq (save_run (row\<lparr>rr_created_at := Some now\<rparr>)) (\<lambda>_.
            seq (modify (\<lambda>s. s\<lparr>sd_active := upsert fst (run_id, task) (sd_active s)\<rparr>)) (\<lambda>_.
            ret (Some run_id))))))))))"

definition begin_run ::
  "sched_cfg \<Rightarrow> pystr \<Rightarrow> pystr \<Rightarrow> pystr option \<Rightarrow> bool \<Rightarrow> ('w, pystr option) sd_act" where
  "begin_run C task trigger scheduled bypass =
     seq (reading sd_reconfiguring) (\<lambda>reconfiguring.
     if reconfiguring then (if trigger = SCHEDULED then ret None else raise SchedulerUnavailable)
     else begin_run_unlocked C task trigger scheduled bypass)"

definition pause_for_reconfigure :: "('w, bool) sd_act" where
  "pause_for_reconfigure =
     seq (reading (\<lambda>s. sd_active s \<noteq> [] \<or> sd_owners s \<noteq> [])) (\<lambda>busy.
     if busy then ret False
     else seq (modify (\<lambda>s. s\<lparr>sd_reconfiguring := True\<rparr>)) (\<lambda>_. ret True))"

definition resume_after_reconfigure :: "('w, unit) sd_act" where
  "resume_after_reconfigure = modify (\<lambda>s. s\<lparr>sd_reconfiguring := False\<rparr>)"

section \<open>The runner\<close>

record run_outcome =
  oc_status :: run_status
  oc_job :: "pystr option"
  oc_error :: "pystr option"
  oc_message :: "pystr option"

definition failed_outcome :: "pystr option \<Rightarrow> pystr \<Rightarrow> pystr \<Rightarrow> run_outcome" where
  "failed_outcome job code message =
     \<lparr>oc_status = RFailed, oc_job = job, oc_error = Some code, oc_message = Some message\<rparr>"

text \<open>The code of an \<^verbatim>\<open>M7Error\<close>; \<open>None\<close> for any other exception.\<close>

definition m7_code :: "agent_error \<Rightarrow> pystr option" where
  "m7_code e = (case e of
       InvalidAction \<Rightarrow> Some (lit ''invalid_action'')
     | InvalidActionOutput \<Rightarrow> Some (lit ''invalid_action_output'')
     | AIUnavailable \<Rightarrow> Some (lit ''ai_unavailable'')
     | ConfirmationRequired \<Rightarrow> Some (lit ''confirmation_required'')
     | PolicyDenied rules \<Rightarrow> Some (lit ''policy_denied'')
     | JobStateConflict \<Rightarrow> Some (lit ''job_state_conflict'')
     | JobNotFound \<Rightarrow> Some (lit ''job_not_found'')
     | HistoryLimit \<Rightarrow> Some (lit ''history_limit_exceeded'')
     | agent_error.TransactionFailed \<Rightarrow> Some (lit ''transaction_failed'')
     | RollbackFailed \<Rightarrow> Some (lit ''rollback_failed'')
     | UndoConflict paths \<Rightarrow> Some (lit ''undo_conflict'')
     | UndoUnavailable \<Rightarrow> Some (lit ''undo_unavailable'')
     | BadActions a \<Rightarrow> None
     | Raised x \<Rightarrow> (case x of HistoryLimitExceeded \<Rightarrow> Some (lit ''history_limit_exceeded'') | _ \<Rightarrow> None))"

text \<open>Only a denial carries the job id in its \<^verbatim>\<open>meta\<close>.\<close>

definition plan_failure :: "sched_cfg \<Rightarrow> pystr \<Rightarrow> agent_error \<Rightarrow> run_outcome" where
  "plan_failure C job_id e =
     (case m7_code e of
        Some code \<Rightarrow> failed_outcome (case e of PolicyDenied rules \<Rightarrow> Some job_id | _ \<Rightarrow> None) code (sc_text C e)
      | None \<Rightarrow> failed_outcome None (lit ''scheduler_unavailable'')
                  (lit ''unexpected error during agent planning (details logged)''))"

definition accept_failure :: "sched_cfg \<Rightarrow> pystr \<Rightarrow> agent_error \<Rightarrow> run_outcome" where
  "accept_failure C job_id e =
     (case m7_code e of
        Some code \<Rightarrow> failed_outcome (Some job_id) code (sc_text C e)
      | None \<Rightarrow> failed_outcome (Some job_id) (lit ''transaction_failed'')
                  (lit ''unexpected error during execution (details logged)''))"

definition tag_only :: "action_type list \<Rightarrow> action_type list" where
  "tag_only actions = filter (\<lambda>a. a = ADD_TAGS \<or> a = REMOVE_TAGS) actions"

definition action_kind :: "json \<Rightarrow> pystr" where
  "action_kind j = (case json_get (lit ''action'') j of Some (JStr k) \<Rightarrow> k | _ \<Rightarrow> [])"

definition whitelist_ok :: "sched_cfg \<Rightarrow> job_detail \<Rightarrow> bool" where
  "whitelist_ok C detail =
     (let allowed = tag_only (sc_level2_actions C); kinds = map action_kind (dt_proposed_actions detail) in
      allowed \<noteq> [] \<and> kinds \<noteq> [] \<and> list_all (\<lambda>k. k \<in> set (map action_value allowed)) kinds)"

definition effective_scope :: "sched_cfg \<Rightarrow> job_scope option \<Rightarrow> job_scope" where
  "effective_scope C scope =
     (case scope of
        None \<Rightarrow> sc_default_scope C
      | Some sc \<Rightarrow> (case validate_scope (ag_lib (sc_agent C)) sc of
                      Inl e \<Rightarrow> sc_default_scope C | Inr sc' \<Rightarrow> sc'))"

definition wants_level2 :: "sched_cfg \<Rightarrow> bool option \<Rightarrow> bool" where
  "wants_level2 C auto =
     (sc_level2 C \<and> tag_only (sc_level2_actions C) \<noteq> [] \<and> (case auto of None \<Rightarrow> True | Some b \<Rightarrow> b))"

definition task_request :: "sched_cfg \<Rightarrow> pystr \<Rightarrow> job_scope option \<Rightarrow> bool option \<Rightarrow> job_request" where
  "task_request C task scope auto =
     \<lparr>jr_task_type = task, jr_level = (if wants_level2 C auto then 2 else 1),
      jr_scope = effective_scope C scope, jr_actions = [], jr_execute = False\<rparr>"

text \<open>\<^verbatim>\<open>_whitelist_ok\<close> and the decision are read off the preview; then the public \<^verbatim>\<open>accept\<close> executes.\<close>

definition auto_accept ::
  "sched_cfg \<Rightarrow> 'w vault_ops \<Rightarrow> pystr \<Rightarrow> ('w, run_outcome) sd_act" where
  "auto_accept C V job_id =
     seq (now_iso C) (\<lambda>now.
     try_else (on_agents (accept (sc_agent C) V now job_id \<lparr>ar_action_ids = [], ar_confirm = True\<rparr>))
       (\<lambda>e. ret (accept_failure C job_id e))
       (\<lambda>_. ret \<lparr>oc_status = RCommitted, oc_job = Some job_id, oc_error = None,
                 oc_message = Some (lit ''automatic Level-2 execution committed'')\<rparr>))"

definition run_agent_task ::
  "sched_cfg \<Rightarrow> 'w vault_ops \<Rightarrow> (agent_error + action list \<times> pystr option \<times> pystr option) \<Rightarrow> pystr \<Rightarrow>
   job_scope option \<Rightarrow> bool option \<Rightarrow> ('w, run_outcome) sd_act" where
  "run_agent_task C V planner task scope auto =
     (if \<not> sc_has_agent C then
        ret (failed_outcome None (lit ''scheduler_unavailable'') (lit ''agent job service is unavailable''))
      else
        seq (now_iso C) (\<lambda>now.
        seq (fresh_uuid C) (\<lambda>job_id.
        try_else (on_agents (plan (sc_agent C) V planner now job_id (task_request C task scope auto)))
          (\<lambda>e. ret (plan_failure C job_id e))
          (\<lambda>(detail, view).
             let job = dt_job_id detail in
             if \<not> wants_level2 C auto then
               ret \<lparr>oc_status = RPreviewed, oc_job = Some job, oc_error = None, oc_message = None\<rparr>
             else if map_option ps_decision view \<noteq> Some ALLOW then
               ret (failed_outcome (Some job) (lit ''policy_denied'')
                      (lit ''policy did not allow automatic execution''))
             else if \<not> whitelist_ok C detail then
               ret (failed_outcome (Some job) (lit ''policy_denied'')
                      (lit ''actions are outside the server Level-2 tag-only whitelist''))
             else auto_accept C V job))))"

definition run_index_check :: "sched_cfg \<Rightarrow> index_inputs \<Rightarrow> pystr \<Rightarrow> run_outcome" where
  "run_index_check C I duration =
     (if \<not> sc_has_checker C then
        failed_outcome None (lit ''index_check_failed'') (lit ''index consistency job is not configured'')
      else
        let r = check_index (ag_lib (sc_agent C)) (sc_auto_rebuild C) I; message = to_message duration r in
        if cn_degraded r \<or> cn_mismatches r \<noteq> [] \<and> \<not> cn_rebuilt r
        then failed_outcome None (lit ''index_check_failed'') message
        else \<lparr>oc_status = RCommitted, oc_job = None, oc_error = None, oc_message = Some message\<rparr>)"

record run_body =
  rb_confirm :: bool
  rb_auto :: "bool option"
  rb_scope :: "job_scope option"

text \<open>What the world answers during a run: the planner, the services the index check reads and the
  duration it prints.\<close>

record run_inputs =
  ri_planner :: "agent_error + action list \<times> pystr option \<times> pystr option"
  ri_index :: index_inputs
  ri_duration :: pystr

definition arun ::
  "sched_cfg \<Rightarrow> 'w vault_ops \<Rightarrow> run_inputs \<Rightarrow> pystr \<Rightarrow> run_body \<Rightarrow> ('w, run_outcome) sd_act" where
  "arun C V I task body =
     (if task = INDEX then ret (run_index_check C (ri_index I) (ri_duration I))
      else if task \<noteq> DAILY \<and> task \<noteq> WEEKLY then
        ret (failed_outcome None (lit ''unknown_task'') (lit ''unknown scheduler task: '' @ task))
      else run_agent_task C V (ri_planner I) task (rb_scope body) (rb_auto body))"

section \<open>The end of a run\<close>

definition finalize :: "sched_cfg \<Rightarrow> pystr \<Rightarrow> run_outcome \<Rightarrow> ('w, unit) sd_act" where
  "finalize C run_id outcome =
     seq (get_run run_id) (\<lambda>current.
     case current of
       None \<Rightarrow> ret ()
     | Some r \<Rightarrow>
         seq (now_iso C) (\<lambda>now.
         if rr_status r = run_status_value RTimedOut then
           update_status run_id RRecoveryRequired (oc_job outcome) (Some (lit ''job_timeout''))
             (Some (lit ''job finished after the timeout mark; verify state'')) (Some now)
         else
           update_status run_id (oc_status outcome) (oc_job outcome) (oc_error outcome) (oc_message outcome)
             (Some now)))"

definition hours_elapsed :: "sched_cfg \<Rightarrow> pystr \<Rightarrow> pystr \<Rightarrow> int option" where
  "hours_elapsed C start_iso end_iso =
     (case (sc_parse C end_iso, sc_parse C start_iso) of
        (Some e, Some b) \<Rightarrow> Some (max 0 (e - b)) | _ \<Rightarrow> None)"

text \<open>\<^verbatim>\<open>CleanupService.run_if_due\<close>; its diagnostics are not used by the scheduler.\<close>

definition run_cleanup :: "sched_cfg \<Rightarrow> pystr \<Rightarrow> ('w, unit) sd_act" where
  "run_cleanup C now = (\<lambda>s.
     (case sd_history s of
        None \<Rightarrow> ret ()
      | Some h \<Rightarrow>
          if \<not> available h then ret ()
          else
            seq (try_else (runs_call (h_cleanup_retention (sc_subtract_days C) now (sc_retention_days C)
                     (sc_max_runs C)) \<lparr>cl_deleted_jobs = 0, cl_deleted_runs = 0, cl_kept_active_runs = 0,
                       cl_retention_days = sc_retention_days C\<rparr>)
                   (\<lambda>e. ret ()) (\<lambda>_. ret ())) (\<lambda>_.
            modify (\<lambda>s. s\<lparr>sd_last_cleanup := Some now\<rparr>))) s)"

definition run_if_due :: "sched_cfg \<Rightarrow> ('w, unit) sd_act" where
  "run_if_due C =
     seq (now_iso C) (\<lambda>now.
     seq (reading sd_last_cleanup) (\<lambda>last.
     if \<not> sc_cleanup_enabled C then ret ()
     else if (case last of None \<Rightarrow> False
              | Some l \<Rightarrow> (case hours_elapsed C l now of
                             None \<Rightarrow> False | Some e \<Rightarrow> e < sc_cleanup_interval_hours C * HOUR_US)) then ret ()
     else run_cleanup C now))"

text \<open>
  An exception of \<open>finalize\<close> leaves the pipeline before the run is taken out of the active ones; one
  of the cleanup is only logged.
\<close>

definition pipeline ::
  "sched_cfg \<Rightarrow> 'w vault_ops \<Rightarrow> run_inputs \<Rightarrow> pystr \<Rightarrow> pystr \<Rightarrow> run_body \<Rightarrow> ('w, run_outcome) sd_act" where
  "pipeline C V I run_id task body =
     seq (try_except (arun C V I task body)
            (\<lambda>e. ret (failed_outcome None (lit ''scheduler_unavailable'')
               (lit ''an unexpected scheduler error occurred (details logged)'')))) (\<lambda>outcome.
     seq (finalize C run_id outcome) (\<lambda>_.
     seq (modify (\<lambda>s. s\<lparr>sd_active := filter (\<lambda>a. fst a \<noteq> run_id) (sd_active s)\<rparr>)) (\<lambda>_.
     seq (try_except (run_if_due C) (\<lambda>e. ret ())) (\<lambda>_.
     ret outcome))))"

definition mark_timed_out :: "sched_cfg \<Rightarrow> pystr \<Rightarrow> ('w, unit) sd_act" where
  "mark_timed_out C run_id =
     seq (now_iso C) (\<lambda>now.
     update_status run_id RTimedOut None (Some (lit ''job_timeout'')) (Some (lit ''exceeded the job timeout''))
       (Some now))"

section \<open>Triggers\<close>

text \<open>A scheduled trigger; its pipeline is one later step, so only the begin is done here.\<close>

definition on_trigger :: "sched_cfg \<Rightarrow> pystr \<Rightarrow> ('w, pystr option) sd_act" where
  "on_trigger C job_id =
     seq (reading sd_started) (\<lambda>started.
     if \<not> started then ret None
     else try_except (begin_run C job_id SCHEDULED None False) (\<lambda>e. ret None))"

definition manual_body :: "run_body \<Rightarrow> run_body" where
  "manual_body body = (if \<not> rb_confirm body then body\<lparr>rb_auto := Some False\<rparr> else body)"

definition response :: "pystr \<Rightarrow> ('w, run_row option) sd_act" where
  "response run_id = get_run run_id"

text \<open>The awaited manual run when the timeout does not strike.\<close>

definition run_task ::
  "sched_cfg \<Rightarrow> 'w vault_ops \<Rightarrow> run_inputs \<Rightarrow> pystr \<Rightarrow> run_body \<Rightarrow> bool \<Rightarrow> ('w, run_row option) sd_act" where
  "run_task C V I task body bypass =
     seq (begin_run C task MANUAL None bypass) (\<lambda>begun.
     case begun of
       None \<Rightarrow> ret None
     | Some run_id \<Rightarrow>
         seq (pipeline C V I run_id task (manual_body body)) (\<lambda>_. response run_id))"

text \<open>
  The same call when the wait times out: the row is marked, the waiter gets \<^verbatim>\<open>JobTimeout\<close>, and
  cancelling the future cancels the pipeline where it is suspended, so none of its later steps happen.
\<close>

definition run_task_times_out :: "sched_cfg \<Rightarrow> pystr \<Rightarrow> bool \<Rightarrow> ('w, run_row option) sd_act" where
  "run_task_times_out C task bypass =
     seq (begin_run C task MANUAL None bypass) (\<lambda>begun.
     case begun of
       None \<Rightarrow> ret None
     | Some run_id \<Rightarrow> seq (mark_timed_out C run_id) (\<lambda>_. raise (JobTimeout run_id)))"

section \<open>Watchdog and shutdown\<close>

definition watch_run :: "sched_cfg \<Rightarrow> int \<Rightarrow> run_row \<Rightarrow> ('w, unit) sd_act" where
  "watch_run C t r =
     (case sc_parse C (rr_started_at r) of
        None \<Rightarrow> raise (Failed ValueErr)
      | Some started \<Rightarrow>
          let age = t - started in
          seq (reading (\<lambda>s. rr_run_id r \<in> fst ` set (sd_active s))) (\<lambda>alive.
          if \<not> alive \<and> sc_stale_after C < age then
            update_status (rr_run_id r) RRecoveryRequired None (Some (lit ''process_interrupted''))
              (Some (lit ''abandoned running run flagged by watchdog'')) (Some (sc_iso C t))
          else if alive \<and> sc_timeout C < age then mark_timed_out C (rr_run_id r)
          else ret ()))"

fun watch_runs :: "sched_cfg \<Rightarrow> int \<Rightarrow> run_row list \<Rightarrow> ('w, unit) sd_act" where
  "watch_runs C t [] = ret ()"
| "watch_runs C t (r # rs) = seq (watch_run C t r) (\<lambda>_. watch_runs C t rs)"

definition watchdog_pass :: "sched_cfg \<Rightarrow> ('w, unit) sd_act" where
  "watchdog_pass C =
     seq (reading (\<lambda>s. sd_history s = None)) (\<lambda>none.
     if none then ret ()
     else
       seq (read_clock C) (\<lambda>t.
       seq (runs_call (h_runs_with_status ACTIVE_RUN_STATUSES) []) (watch_runs C t)))"

fun mark_leftover :: "pystr \<Rightarrow> pystr list \<Rightarrow> nat \<Rightarrow> ('w, nat) sd_act" where
  "mark_leftover now [] marked = ret marked"
| "mark_leftover now (run_id # ids) marked =
     seq (get_run run_id) (\<lambda>current.
     if (case current of None \<Rightarrow> True | Some r \<Rightarrow> rr_status r \<notin> set ACTIVE_RUN_STATUSES)
     then mark_leftover now ids marked
     else
       seq (update_status run_id RRecoveryRequired None (Some (lit ''process_interrupted''))
              (Some (lit ''scheduler shut down while the run was active'')) (Some now)) (\<lambda>_.
       mark_leftover now ids (Suc marked)))"

definition mark_interrupted_after_shutdown :: "sched_cfg \<Rightarrow> ('w, nat) sd_act" where
  "mark_interrupted_after_shutdown C =
     seq (reading (\<lambda>s. map fst (sd_active s))) (\<lambda>leftover.
     seq (modify (\<lambda>s. s\<lparr>sd_active := []\<rparr>)) (\<lambda>_.
     seq (now_iso C) (\<lambda>now.
     mark_leftover now leftover 0)))"

definition start_scheduler :: "sched_cfg \<Rightarrow> ('w, bool) sd_act" where
  "start_scheduler C =
     seq (reading sd_started) (\<lambda>started.
     if started then ret True
     else if \<not> sc_enabled C then ret False
     else seq (modify (\<lambda>s. s\<lparr>sd_started := True\<rparr>)) (\<lambda>_. ret True))"

definition stop_scheduler :: "sched_cfg \<Rightarrow> ('w, nat) sd_act" where
  "stop_scheduler C =
     seq (reading sd_started) (\<lambda>started.
     if \<not> started then ret 0
     else
       seq (modify (\<lambda>s. s\<lparr>sd_started := False\<rparr>)) (\<lambda>_.
       mark_interrupted_after_shutdown C))"

section \<open>Explicit recovery\<close>

datatype recovery_answer = Retried "run_row option" | Diagnosed "job_diagnosis option"
  | RolledBack "pystr list"

definition require_run :: "pystr \<Rightarrow> ('w, run_row) sd_act" where
  "require_run run_id =
     seq (get_run run_id) (\<lambda>r. case r of None \<Rightarrow> raise RunNotFound | Some x \<Rightarrow> ret x)"

text \<open>\<open>rec_text\<close> is the text of the recovery's own message.\<close>

definition recovery_action ::
  "sched_cfg \<Rightarrow> 'w vault_ops \<Rightarrow> run_inputs \<Rightarrow> (recovery_error \<Rightarrow> pystr) \<Rightarrow> pystr \<Rightarrow> pystr \<Rightarrow>
   ('w, recovery_answer) sd_act" where
  "recovery_action C V I rec_text run_id action =
     seq (require_run run_id) (\<lambda>r.
     if action = lit ''retry_preview'' then
       seq (run_task C V I (rr_task r) \<lparr>rb_confirm = True, rb_auto = Some False, rb_scope = None\<rparr> True) (\<lambda>x.
       ret (Retried x))
     else if action = lit ''diagnose'' then
       if some_nonempty (rr_agent_job_id r) \<and> sc_has_recovery C
       then seq (on_recovery (diagnose V (the (rr_agent_job_id r)))) (\<lambda>d. ret (Diagnosed (Some d)))
       else ret (Diagnosed None)
     else if action = lit ''rollback_if_safe'' then
       if \<not> some_nonempty (rr_agent_job_id r) \<or> \<not> sc_has_recovery C then raise RecoveryNotSafe
       else
         seq (on_recovery (rollback_if_safe V (the (rr_agent_job_id r)))) (\<lambda>res.
         if rec_status res = ROLLED_BACK then
           seq (now_iso C) (\<lambda>now.
           seq (update_status run_id RFailed None (Some (lit ''recovery_rolled_back''))
                  (Some (case rec_error res of None \<Rightarrow> lit ''explicit rollback completed'' | Some e \<Rightarrow> rec_text e))
                  (Some now)) (\<lambda>_.
           ret (RolledBack (rec_restored res))))
         else raise RecoveryNotSafe)
     else raise SchedulerConfigInvalid)"

definition list_runs :: "int \<Rightarrow> int \<Rightarrow> pystr option \<Rightarrow> ('w, run_row list \<times> nat \<times> int \<times> int) sd_act" where
  "list_runs limit offset task =
     seq (reading (\<lambda>s. sd_history s = None)) (\<lambda>none.
     if none then raise SchedulerUnavailable
     else runs_call (h_page_runs limit offset task) ([], 0, 1, 0))"

end
