(* ===== verification/JobFrame.thy ===== *)
theory JobFrame imports AgentProofs begin

text \<open>
  What the recovery code and the job service leave alone: a property of the history that no access
  to jobs and journals changes is kept by every operation built on them. The scheduler's runs, which
  live in the same history, are such a property.
\<close>

locale job_frame =
  fixes P :: "history \<Rightarrow> bool"
  assumes save_keeps: "keeps P (h_save r)"
    and get_keeps: "keeps P (h_get j)"
    and append_keeps: "keeps P (h_append_journal e)"
    and journal_keeps: "keeps P (h_journal j)"
    and state_keeps: "keeps P (h_set_journal_state j st)"
begin

abbreviation framed :: "'w rstate \<Rightarrow> bool" where
  "framed s \<equiv> pred_option P (rs_history s)"

abbreviation framed_agents :: "'w agents \<Rightarrow> bool" where
  "framed_agents s \<equiv> framed (ag_rec s)"

lemma on_history_framed: "keeps P m \<Longrightarrow> keeps framed (on_history m d)"
  by (auto simp: keeps_def on_history_def split: option.splits prod.splits sum.splits)

lemma on_vault_framed: "keeps framed (on_vault m)"
  by (auto simp: keeps_def on_vault_def split: prod.splits sum.splits)

lemma modify_framed: "(\<And>s. rs_history (f s) = rs_history s) \<Longrightarrow> keeps framed (modify f)"
  by (simp add: keeps_modify)

lemmas history_framed = on_history_framed [OF save_keeps] on_history_framed [OF get_keeps]
  on_history_framed [OF append_keeps] on_history_framed [OF journal_keeps] on_history_framed [OF state_keeps]

lemmas framed_rules = keeps_seq keeps_if keeps_ret keeps_raise keeps_lift keeps_reading keeps_try_else
  on_vault_framed history_framed

section \<open>Recovery\<close>

lemma record_framed: "keeps framed (record_operation L n op)"
  unfolding record_operation_def record_entry_def
  by (intro framed_rules modify_framed) (simp_all add: add_bytes_def add_pending_def)

lemma mark_framed: "keeps framed (mark st)"
  unfolding mark_def by (intro framed_rules)

lemma apply_framed: "keeps framed (apply_operation V op)"
  unfolding apply_operation_def
  by (auto intro!: framed_rules split: journal_operation.split option.split)

lemma absent_framed: "keeps framed (assert_absent V x p)"
  unfolding assert_absent_def by (auto intro!: framed_rules split: exc.split)

lemma undo_one_framed: "keeps framed (undo_one V op h)"
  unfolding undo_one_def
  by (auto intro!: framed_rules absent_framed split: journal_operation.split option.split)

lemma run_operations_framed: "keeps framed (run_operations L V ops n executed)"
  by (induction ops arbitrary: n executed) (auto intro!: framed_rules record_framed apply_framed)

lemma rollback_loop_framed: "keeps framed (rollback_loop V es restored)"
  by (induction V es restored rule: rollback_loop.induct) (auto intro!: framed_rules undo_one_framed simp: Let_def)

lemma rollback_framed: "keeps framed (rollback V j executed cause)"
  unfolding rollback_def case_prod_beta
  by (intro framed_rules rollback_loop_framed mark_framed) (auto split: option.split)

lemma execute_framed: "keeps framed (execute L V m j ops)"
  unfolding execute_def case_prod_beta
  by (intro framed_rules run_operations_framed modify_framed keeps_case_option rollback_framed mark_framed)
    (simp add: start_journal_def)

lemma audit_framed: "keeps framed (append_audit j n p h)"
  unfolding append_audit_def by (intro framed_rules)

lemma current_framed: "keeps framed (require_current V p h)" "keeps framed (current_hash V p)"
  unfolding require_current_def current_hash_def
  by (auto intro!: framed_rules split: exc.split)

lemma restore_one_framed: "keeps framed (restore_one V j n e)"
  unfolding restore_one_def Let_def
  by (auto intro!: framed_rules current_framed audit_framed absent_framed split: journal_operation.split)

lemma undo_loop_framed: "keeps framed (undo_loop V j es restored n)"
  by (induction es arbitrary: restored n) (auto intro!: framed_rules restore_one_framed split: exc.split)

lemma undo_framed: "keeps framed (undo V j)"
  unfolding undo_def case_prod_beta
  by (auto intro!: framed_rules undo_loop_framed split: option.split)

lemma diagnose_framed: "keeps framed (diagnose V j)"
proof -
  have "keeps framed (diagnose_steps V es)" for es
    by (induction es) (auto intro!: framed_rules current_framed)
  then show ?thesis unfolding diagnose_def by (intro framed_rules)
qed

lemma finish_recovery_framed: "keeps framed (finish_recovery_record j st c m)"
  unfolding finish_recovery_record_def by (intro framed_rules keeps_case_option)

lemma restore_entry_framed: "keeps framed (restore_entry V e h)"
  unfolding restore_entry_def
  by (auto intro!: framed_rules absent_framed split: journal_operation.split)

lemma classify_framed: "keeps framed (classify V es applied conflicts)"
  by (induction es arbitrary: applied conflicts) (auto intro!: framed_rules current_framed)

lemma restore_loop_framed: "keeps framed (restore_loop V j es restored n)"
  by (induction V j es restored n rule: restore_loop.induct)
    (auto intro!: framed_rules restore_entry_framed audit_framed simp: Let_def)

lemma rollback_entries_framed: "keeps framed (rollback_entries V j es)"
  unfolding rollback_entries_def Let_def case_prod_beta
  by (auto intro!: framed_rules finish_recovery_framed classify_framed restore_loop_framed split: option.split)

lemma rollback_if_safe_framed: "keeps framed (rollback_if_safe V j)"
  unfolding rollback_if_safe_def
  by (intro framed_rules keeps_case_option rollback_entries_framed)

section \<open>The job service\<close>

lemma on_rec_framed: "keeps framed m \<Longrightarrow> keeps framed_agents (on_rec m)"
  by (auto simp: keeps_def on_rec_def split: prod.splits sum.splits)

lemma cache_framed: "keeps framed_agents (cache j r v)"
  by (simp add: keeps_def cache_def)

lemma hist_framed: "keeps P m \<Longrightarrow> keeps framed_agents (hist m d)"
  unfolding hist_def by (intro on_rec_framed on_history_framed)

lemma finish_keeps: "keeps P (h_finish now r st e)"
  unfolding h_finish_def by (rule save_keeps)

lemmas agents_framed = keeps_seq keeps_if keeps_ret keeps_raise keeps_lift keeps_try_else keeps_case_option
  cache_framed hist_framed [OF save_keeps] hist_framed [OF get_keeps] hist_framed [OF finish_keeps]
  hist_framed [OF journal_keeps] on_rec_framed [OF on_vault_framed] on_rec_framed [OF execute_framed]

lemma load_framed: "keeps framed_agents (load_job j)"
proof -
  have "keeps framed_agents (seq (hist (h_get j) None) (\<lambda>record. case record of
      None \<Rightarrow> raise JobNotFound | Some r \<Rightarrow> seq (cache j r None) (\<lambda>_. ret (r, None))))"
    by (intro agents_framed)
  then show ?thesis unfolding keeps_def load_job_def by (auto split: option.splits)
qed

lemma detail_framed: "keeps framed_agents (detail_view j)"
proof -
  have "keeps framed_agents (seq (hist (h_get j) None) (\<lambda>record. case record of
      None \<Rightarrow> raise JobNotFound | Some r \<Rightarrow> ret (detail_dto r, None)))"
    by (intro agents_framed)
  then show ?thesis unfolding keeps_def detail_view_def by (auto split: option.splits)
qed

lemma closing_framed:
  "keeps framed_agents (commit_job C j r proposed selected pf result)"
  "keeps framed_agents (record_terminal j now r status)"
  "keeps framed_agents (record_denied j now request actions pf result level)"
  unfolding commit_job_def record_terminal_def record_denied_def Let_def
  by (intro agents_framed detail_framed)+

lemma try_read_framed: "keeps framed_agents (try_read V p)"
  unfolding try_read_def case_prod_beta by (intro agents_framed)

lemma preflight_framed: "keeps framed_agents (preflight C V acts)"
proof -
  have move: "keeps framed_agents (preflight_move C V act f data d)" for act f data d
    unfolding preflight_move_def case_prod_beta by (intro agents_framed try_read_framed)
  have update: "keeps framed_agents (preflight_update C V act f data d)" for act f data d
    unfolding preflight_update_def Let_def case_prod_beta by (intro agents_framed try_read_framed)
  have "keeps framed_agents (preflight_one C V act)" for act
    unfolding preflight_one_def Let_def case_prod_beta
    by (intro agents_framed try_read_framed move update)
  then have "keeps framed_agents (preflight_each C V acts)"
    by (induction acts) (auto intro!: agents_framed)
  then show ?thesis unfolding preflight_def Let_def by (intro agents_framed)
qed

lemma hashes_framed: "keeps framed_agents (assert_preview_hashes V r acts)"
  by (induction acts) (auto intro!: agents_framed split: option.split)

lemma run_job_framed: "keeps framed_agents (run_job C V now j r proposed selected pf result)"
  unfolding run_job_def Let_def by (intro agents_framed closing_framed)

lemma execute_locked_framed: "keeps framed_agents (execute_locked C V now j ids)"
  unfolding execute_locked_def Let_def case_prod_beta
  by (intro agents_framed load_framed preflight_framed hashes_framed run_job_framed)

lemma accept_framed: "keeps framed_agents (accept C V now j body)"
  unfolding accept_def by (intro agents_framed execute_locked_framed)

lemma plan_framed: "keeps framed_agents (plan C V planner now j request)"
  unfolding plan_def Let_def case_prod_beta
  by (intro agents_framed preflight_framed closing_framed execute_locked_framed detail_framed)

lemma reject_framed: "keeps framed_agents (reject now j)"
  unfolding reject_def Let_def case_prod_beta by (intro agents_framed load_framed detail_framed)

lemma undo_job_framed: "keeps framed_agents (undo_job V now j confirm)"
  unfolding undo_job_def finish_undo_def case_prod_beta
  by (intro agents_framed load_framed on_rec_framed undo_framed)

end

section \<open>The runs\<close>

lemma run_rows_transaction:
  "(\<And>t x t'. f t = Inr (x, t') \<Longrightarrow> t_runs t' = t_runs t) \<Longrightarrow>
     keeps (\<lambda>db. t_runs (db_tables db) = R) (transaction f)"
  by (rule keeps_transaction) metis

lemma run_rows_with_repo:
  assumes "keeps (\<lambda>db. t_runs (db_tables db) = R) m" "keeps (\<lambda>h. hs_runs h = R) n"
    "\<And>h. hs_repository (snd (n h)) = hs_repository h"
  shows "keeps (\<lambda>h. run_rows h = R) (with_repo m n)"
  using assms by (auto simp: keeps_def with_repo_def run_rows_def split: option.splits prod.splits)

interpretation runs_frame: job_frame "\<lambda>h. run_rows h = R" for R
proof
  note defs = fetch_def mirror_def keeps_def
  show "keeps (\<lambda>h. run_rows h = R) (h_save r)" for r
    unfolding h_save_def repo_save_def
    by (rule keeps_seq, intro run_rows_with_repo run_rows_transaction)
      (auto simp: ret_def mirror_def keeps_def run_rows_def split: option.split)
  show "keeps (\<lambda>h. run_rows h = R) (h_get j)" for j
    unfolding h_get_def repo_get_def fetch_def
    by (intro run_rows_with_repo run_rows_transaction) (auto simp: mirror_def keeps_def)
  show "keeps (\<lambda>h. run_rows h = R) (h_append_journal e)" for e
    unfolding h_append_journal_def repo_add_journal_def
    by (intro run_rows_with_repo run_rows_transaction) (auto simp: mirror_def keeps_def split: if_splits)
  show "keeps (\<lambda>h. run_rows h = R) (h_journal j)" for j
    unfolding h_journal_def repo_journal_def fetch_def
    by (intro run_rows_with_repo run_rows_transaction) (auto simp: mirror_def keeps_def)
  show "keeps (\<lambda>h. run_rows h = R) (h_set_journal_state j st)" for j st
    unfolding h_set_journal_state_def repo_set_journal_state_def
    by (intro run_rows_with_repo run_rows_transaction) (auto simp: mirror_def keeps_def)
qed

end
