(* ===== verification/SchedulerProofs.thy ===== *)
theory SchedulerProofs imports Scheduler JobFrame ScannerProofs begin

text \<open>
  How the table of runs develops: whatever calls are made and fail, and in whatever order the
  threads come, a row keeps its identity and is never opened again.
\<close>

section \<open>Run calls of the history\<close>

lemma save_run_rows:
  assumes "h_save_run row h = (res, h')"
  shows "run_rows h' = run_rows h \<or> run_rows h' = upsert rr_run_id row (run_rows h)"
proof (cases "hs_repository h")
  case None
  with assms show ?thesis
    by (auto simp: h_save_run_def seq_def with_repo_def ret_def mirror_def run_rows_def)
next
  case (Some db)
  obtain q db' where saved: "repo_save_run row db = (q, db')" by fastforce
  from saved have "t_runs (db_tables db') = t_runs (db_tables db) \<or>
      t_runs (db_tables db') = upsert rr_run_id row (t_runs (db_tables db))"
    unfolding repo_save_run_def
    by (cases rule: transaction_cases) (auto split: if_splits dest!: arg_cong [where f = t_runs])
  with assms saved Some show ?thesis
    by (cases q) (auto simp: h_save_run_def seq_def with_repo_def mirror_def run_rows_def)
qed

lemma get_run_rows:
  assumes "h_get_run i h = (res, h')"
  shows "run_rows h' = run_rows h \<and> (\<forall>r. res = Inr (Some r) \<longrightarrow> lookup_row rr_run_id i (run_rows h) = Some r)"
proof (cases "hs_repository h")
  case None
  with assms show ?thesis
    by (auto simp: h_get_run_def with_repo_def mirror_def run_rows_def)
next
  case (Some db)
  obtain q db' where got: "repo_get_run i db = (q, db')" by fastforce
  from got have "t_runs (db_tables db') = t_runs (db_tables db) \<and>
      (\<forall>r. q = Inr (Some r) \<longrightarrow> lookup_row rr_run_id i (t_runs (db_tables db)) = Some r)"
    unfolding repo_get_run_def fetch_def by (cases rule: transaction_cases) auto
  with assms got Some show ?thesis by (auto simp: h_get_run_def with_repo_def run_rows_def)
qed

lemma reading_keeps_runs:
  "keeps (\<lambda>h. run_rows h = R) (h_page_runs l off task)"
  "keeps (\<lambda>h. run_rows h = R) (h_runs_with_status sts)"
proof -
  have fetch: "keeps (\<lambda>db. t_runs (db_tables db) = R) (fetch f)" for f :: "tables \<Rightarrow> 'a"
    unfolding fetch_def by (rule run_rows_transaction) simp
  show "keeps (\<lambda>h. run_rows h = R) (h_page_runs l off task)"
    unfolding h_page_runs_def repo_page_runs_def case_prod_beta Let_def
    by (intro keeps_seq run_rows_with_repo fetch keeps_ret) (auto simp: mirror_def keeps_def)
  show "keeps (\<lambda>h. run_rows h = R) (h_runs_with_status sts)"
    unfolding h_runs_with_status_def repo_runs_with_status_def
    by (intro run_rows_with_repo keeps_if fetch keeps_ret) (auto simp: mirror_def keeps_def)
qed

lemma delete_each_run_subset: "set (snd (delete_each_run is n rs)) \<subseteq> set rs"
  by (induction "is" n rs rule: delete_each_run.induct) auto

lemma pop_subset:
  "set (pop_expired_runs T c K rs store) \<subseteq> set store" "set (pop_terminal_runs T rs store) \<subseteq> set store"
  by (induction rs arbitrary: store) (auto split: if_splits, (meson filter_is_subset subsetD)+)

lemma cleanup_keeps_subset:
  "keeps (\<lambda>h. set (run_rows h) \<subseteq> R) (h_cleanup_retention sub now days m)"
proof -
  have tx: "keeps (\<lambda>db. set (t_runs (db_tables db)) \<subseteq> R) (transaction f)"
    if "\<And>t x t'. f t = Inr (x, t') \<Longrightarrow> set (t_runs t') \<subseteq> set (t_runs t)" for f :: "tables \<Rightarrow> history_error + 'b \<times> tables"
    by (rule keeps_transaction) (use that in blast)
  have fetch: "keeps (\<lambda>db. set (t_runs (db_tables db)) \<subseteq> R) (fetch f)" for f :: "tables \<Rightarrow> 'c"
    unfolding fetch_def by (rule tx) simp
  have runs: "keeps (\<lambda>db. set (t_runs (db_tables db)) \<subseteq> R) (repo_delete_runs ids)" for ids
    unfolding repo_delete_runs_def
  proof (intro keeps_if keeps_ret tx)
    fix t x t' assume "(let (n, rs) = delete_each_run ids 0 (t_runs t) in Inr (n, t\<lparr>t_runs := rs\<rparr>)) = Inr (x, t')"
    then show "set (t_runs t') \<subseteq> set (t_runs t)"
      using delete_each_run_subset [of ids 0 "t_runs t"] by (auto split: prod.splits)
  qed
  have jobs: "keeps (\<lambda>db. set (t_runs (db_tables db)) \<subseteq> R) (repo_delete_jobs ids)" for ids
    unfolding repo_delete_jobs_def
  proof (intro keeps_if keeps_ret tx)
    fix t x t' assume "Inr (delete_each_job ids 0 t) = Inr (x, t' :: tables)"
    moreover have "t_runs (snd (delete_each_job is n t)) = t_runs t" for "is" n t
      by (induction "is" n t rule: delete_each_job.induct) (simp_all add: delete_job_def)
    ultimately show "set (t_runs t') \<subseteq> set (t_runs t)" by (metis Inr_inject order_refl snd_conv)
  qed
  have repo: "keeps (\<lambda>db. set (t_runs (db_tables db)) \<subseteq> R) (repo_cleanup b days m)" for b
    unfolding repo_cleanup_def Let_def repo_terminal_job_rows_def repo_terminal_run_rows_def
      repo_all_runs_sorted_def repo_run_count_def repo_oldest_terminal_runs_def
    by (intro keeps_seq keeps_if keeps_ret fetch runs jobs)
  have mem: "set (hs_runs (cleanup_memory c A B m h)) \<subseteq> set (hs_runs h)" for c A B h
    using pop_subset by (auto simp: cleanup_memory_def Let_def split: if_splits) (meson subsetD)+
  show ?thesis
    unfolding keeps_def
  proof (intro allI impI)
    fix h assume h: "set (run_rows h) \<subseteq> R"
    show "set (run_rows (snd (h_cleanup_retention sub now days m h))) \<subseteq> R"
    proof (cases "hs_repository h")
      case None
      have "snd (h_cleanup_retention sub now days m h) = cleanup_memory (retention_bound sub now days)
          (set (map status_value terminal_states)) (set (map run_status_value terminal_runs)) m h" (is "_ = ?h")
        by (simp add: h_cleanup_retention_def with_repo_def mirror_def Let_def None)
      moreover have "hs_repository ?h = None" by (simp add: cleanup_memory_def Let_def None)
      moreover have "set (hs_runs ?h) \<subseteq> set (hs_runs h)" by (rule mem)
      moreover have "set (hs_runs h) \<subseteq> R" using h None by (simp add: run_rows_def)
      ultimately show ?thesis by (simp add: run_rows_def)
    next
      case (Some db)
      with h repo show ?thesis
        by (auto simp: h_cleanup_retention_def with_repo_def run_rows_def Let_def keeps_def split: prod.splits)
          (metis snd_conv subsetD)
    qed
  qed
qed

section \<open>The fate of a row\<close>

definition same_run :: "run_row \<Rightarrow> run_row \<Rightarrow> bool" where
  "same_run r r' \<longleftrightarrow> rr_run_id r' = rr_run_id r \<and> rr_task r' = rr_task r \<and> rr_trigger r' = rr_trigger r \<and>
     rr_idempotency_key r' = rr_idempotency_key r \<and> rr_scheduled_for r' = rr_scheduled_for r \<and>
     rr_started_at r' = rr_started_at r \<and> rr_created_at r' = rr_created_at r"

definition is_active :: "run_row \<Rightarrow> bool" where
  "is_active r \<longleftrightarrow> rr_status r \<in> set ACTIVE_RUN_STATUSES"

text \<open>Rows of the later table that were there before are the same runs, and none was opened again.\<close>

definition evolved :: "run_row list \<Rightarrow> run_row list \<Rightarrow> bool" where
  "evolved R0 R \<longleftrightarrow> (\<forall>r \<in> set R0. \<forall>r' \<in> set R. rr_run_id r' = rr_run_id r \<longrightarrow>
     same_run r r' \<and> (is_active r' \<longrightarrow> is_active r))"

definition run_table :: "'w sched \<Rightarrow> run_row list" where
  "run_table s = (case sd_history s of None \<Rightarrow> [] | Some h \<Rightarrow> run_rows h)"

text \<open>The coming identifiers are not in use: what \<^verbatim>\<open>uuid4\<close> promises.\<close>

definition unused_ids :: "sched_cfg \<Rightarrow> nat \<Rightarrow> run_row list \<Rightarrow> bool" where
  "unused_ids C k R \<longleftrightarrow> (\<forall>i \<ge> k. \<forall>r \<in> set R. rr_run_id r \<noteq> sc_uuid C i)"

definition rows_ok :: "sched_cfg \<Rightarrow> run_row list \<Rightarrow> nat \<Rightarrow> run_row list \<Rightarrow> bool" where
  "rows_ok C R0 k R \<longleftrightarrow> evolved R0 R \<and> unused_ids C k (R0 @ R)"

definition tracked :: "sched_cfg \<Rightarrow> run_row list \<Rightarrow> 'w sched \<Rightarrow> bool" where
  "tracked C R0 s \<longleftrightarrow> rows_ok C R0 (sd_uuids s) (run_table s)"

definition admissible :: "sched_cfg \<Rightarrow> run_row list \<Rightarrow> nat \<Rightarrow> run_row \<Rightarrow> bool" where
  "admissible C R0 k row \<longleftrightarrow>
     (\<forall>r \<in> set R0. rr_run_id row = rr_run_id r \<longrightarrow> same_run r row \<and> (is_active row \<longrightarrow> is_active r)) \<and>
     (\<forall>i \<ge> k. rr_run_id row \<noteq> sc_uuid C i)"

lemma rows_ok_subset: "rows_ok C R0 k R \<Longrightarrow> set R' \<subseteq> set R \<Longrightarrow> rows_ok C R0 k R'"
  by (auto simp: rows_ok_def evolved_def unused_ids_def)

lemma rows_ok_later: "rows_ok C R0 k R \<Longrightarrow> rows_ok C R0 (Suc k) R"
  by (auto simp: rows_ok_def unused_ids_def)

lemma upsert_subset: "set (upsert f x xs) \<subseteq> insert x (set xs)"
  by (induction xs) auto

lemma rows_ok_upsert:
  "rows_ok C R0 k R \<Longrightarrow> admissible C R0 k row \<Longrightarrow> rows_ok C R0 k (upsert rr_run_id row R)"
  using upsert_subset [of rr_run_id row R]
  by (fastforce simp: rows_ok_def evolved_def unused_ids_def admissible_def)

lemma admissible_update:
  assumes "rows_ok C R0 k R" "r \<in> set R" "same_run r r'" "\<not> is_active r'"
  shows "admissible C R0 k r'"
proof -
  have "rr_run_id r' = rr_run_id r" using assms(3) by (simp add: same_run_def)
  with assms show ?thesis
    by (auto simp: rows_ok_def evolved_def unused_ids_def admissible_def same_run_def)
qed

section \<open>Calls of the scheduler\<close>

lemma table_simps [simp]:
  "run_table (s\<lparr>sd_ticks := n\<rparr>) = run_table s" "run_table (s\<lparr>sd_uuids := n\<rparr>) = run_table s"
  "run_table (s\<lparr>sd_active := a\<rparr>) = run_table s" "run_table (s\<lparr>sd_owners := a\<rparr>) = run_table s"
  "run_table (s\<lparr>sd_started := b\<rparr>) = run_table s" "run_table (s\<lparr>sd_reconfiguring := b\<rparr>) = run_table s"
  "run_table (s\<lparr>sd_last_cleanup := l\<rparr>) = run_table s"
  by (simp_all add: run_table_def sd_history_def)

lemma runs_call_cases:
  assumes "runs_call m d s = (res, s')"
  obtains (none) "sd_history s = None" "res = Inr d" "s' = s"
  | (some) h q h' where "sd_history s = Some h" "m h = (q, h')" "run_table s' = run_rows h'"
      "run_table s = run_rows h" "sd_uuids s' = sd_uuids s" "sd_active s' = sd_active s"
      "res = map_sum (\<lambda>e. Failed (HistoryExc e)) id q"
proof (cases "sd_history s")
  case None
  with assms show ?thesis
    by (intro none) (auto simp: runs_call_def on_recovery_def on_history_def sd_history_def)
next
  case (Some h)
  obtain q h' where m: "m h = (q, h')" by fastforce
  show ?thesis
    by (rule some [OF Some m]; cases q)
      (use assms m Some in \<open>auto simp: runs_call_def on_recovery_def on_history_def sd_history_def run_table_def\<close>)
qed

lemma keeps_runs_call:
  assumes "\<And>R. keeps (\<lambda>h. run_rows h = R) m"
  shows "keeps (tracked C R0) (runs_call m d)"
  unfolding keeps_def
proof (intro allI impI)
  fix s :: "'w sched"
  assume t: "tracked C R0 s"
  obtain res s' where r: "runs_call m d s = (res, s')" by fastforce
  then show "tracked C R0 (snd (runs_call m d s))"
  proof (cases rule: runs_call_cases)
    case (some h q h')
    then have "run_rows h' = run_rows h" using keepsD [OF assms refl] by metis
    with some t r show ?thesis by (simp add: tracked_def)
  qed (use t r in simp)
qed

lemma hoare_get_run:
  "hoare (tracked C R0) (get_run i)
     (\<lambda>x s. tracked C R0 s \<and> (\<forall>r. x = Some r \<longrightarrow> r \<in> set (run_table s))) (\<lambda>e. tracked C R0)"
proof (rule hoareI)
  fix s x s' assume t: "tracked C R0 s" and r: "get_run i s = (Inr x, s')"
  from r [unfolded get_run_def] show "tracked C R0 s' \<and> (\<forall>r. x = Some r \<longrightarrow> r \<in> set (run_table s'))"
  proof (cases rule: runs_call_cases)
    case (some h q h')
    note rows = get_run_rows [OF some(2)]
    have "q = Inr x" using some(7) by (cases q) auto
    with rows some t show ?thesis
      by (auto simp: tracked_def dest: lookup_row_key)
  qed (use t in simp)
next
  fix s e s' assume t: "tracked C R0 s" and r: "get_run i s = (Inl e, s')"
  from r [unfolded get_run_def] show "tracked C R0 s'"
  proof (cases rule: runs_call_cases)
    case (some h q h')
    with get_run_rows [OF some(2)] t show ?thesis by (simp add: tracked_def)
  qed simp
qed

lemma hoare_save_run:
  "hoare (\<lambda>s. tracked C R0 s \<and> admissible C R0 (sd_uuids s) row) (save_run row) (\<lambda>_. tracked C R0) (\<lambda>e. tracked C R0)"
proof -
  have call: "tracked C R0 s'"
    if t: "tracked C R0 s" "admissible C R0 (sd_uuids s) row" and r: "runs_call (h_save_run row) row s = (res, s')"
    for s s' :: "'w sched" and res
    using r
  proof (cases rule: runs_call_cases)
    case (some h q h')
    with save_run_rows [OF some(2)] t show ?thesis
      by (auto simp: tracked_def rows_ok_upsert)
  qed (use t in simp)
  show ?thesis
    unfolding save_run_def hoare_def
    by (auto simp: seq_def reading_def raise_def ret_def split: prod.split sum.split intro: call)
qed

lemma hoare_update:
  assumes "\<not> run_active st"
  shows "keeps (tracked C R0) (update_status i st j e m f)"
proof -
  have adm: "admissible C R0 k (updated_run st j e m f r)"
    if "rows_ok C R0 k R" "r \<in> set R" for k R r
    using that assms
    by (intro admissible_update [OF that])
      (cases st; simp add: same_run_def updated_run_def is_active_def ACTIVE_RUN_STATUSES_def run_active_def)+
  have "hoare (\<lambda>s. tracked C R0 s \<and> (\<forall>r. x = Some r \<longrightarrow> r \<in> set (run_table s)))
      (case x of None \<Rightarrow> ret () | Some r \<Rightarrow> save_run (updated_run st j e m f r))
      (\<lambda>_. tracked C R0) (\<lambda>_. tracked C R0)" for x
  proof (cases x)
    case (Some r)
    then show ?thesis
      by (auto intro!: hoare_pre [OF hoare_save_run] simp: tracked_def intro: adm)
  qed (auto intro: hoare_ret)
  then show ?thesis
    unfolding hoare_keeps update_status_def by (rule hoare_seq [OF hoare_get_run])
qed

lemma keeps_clock: "keeps (tracked C R0) (read_clock C')" "keeps (tracked C R0) (now_iso C')"
proof -
  show c: "keeps (tracked C R0) (read_clock C')" by (simp add: keeps_def read_clock_def tracked_def)
  show "keeps (tracked C R0) (now_iso C')" unfolding now_iso_def by (intro keeps_seq c keeps_ret)
qed

lemma keeps_uuid: "keeps (tracked C R0) (fresh_uuid C')"
  by (auto simp: keeps_def fresh_uuid_def tracked_def rows_ok_later)

lemma hoare_uuid:
  assumes "inj (sc_uuid C)"
  shows "hoare (tracked C R0) (fresh_uuid C)
    (\<lambda>i s. tracked C R0 s \<and> (\<forall>row. rr_run_id row = i \<longrightarrow> admissible C R0 (sd_uuids s) row)) (\<lambda>e. tracked C R0)"
proof (rule hoareI)
  fix s i s' assume t: "tracked C R0 s" and r: "fresh_uuid C s = (Inr i, s')"
  then have i: "i = sc_uuid C (sd_uuids s)" "s' = s\<lparr>sd_uuids := Suc (sd_uuids s)\<rparr>"
    by (auto simp: fresh_uuid_def)
  have "rr_run_id r \<noteq> i" if "r \<in> set R0" for r
    using t that i(1) by (simp add: tracked_def rows_ok_def unused_ids_def)
  moreover have "i \<noteq> sc_uuid C j" if "Suc (sd_uuids s) \<le> j" for j
    using assms that i(1) by (auto dest: injD)
  ultimately have "admissible C R0 (Suc (sd_uuids s)) row" if "rr_run_id row = i" for row
    using that by (simp add: admissible_def) blast
  with t i(2) show "tracked C R0 s' \<and> (\<forall>row. rr_run_id row = i \<longrightarrow> admissible C R0 (sd_uuids s') row)"
    by (simp add: tracked_def rows_ok_later)
qed (auto simp: fresh_uuid_def)

lemma hoare_new_row:
  assumes "inj (sc_uuid C)" and "\<And>i. rr_run_id (f i) = i"
    and k: "\<And>i. keeps (tracked C R0) (k i)"
  shows "keeps (tracked C R0) (seq (fresh_uuid C) (\<lambda>i. seq (lift (to_row (f i))) (\<lambda>row.
    seq (save_run (row\<lparr>rr_created_at := Some now\<rparr>)) (\<lambda>_. k i))))"
proof -
  have "hoare (\<lambda>s. tracked C R0 s \<and> (\<forall>row. rr_run_id row = i \<longrightarrow> admissible C R0 (sd_uuids s) row))
      (seq (lift (to_row (f i))) (\<lambda>row. seq (save_run (row\<lparr>rr_created_at := Some now\<rparr>)) (\<lambda>_. k i)))
      (\<lambda>_. tracked C R0) (\<lambda>_. tracked C R0)" for i
  proof (rule hoare_seq)
    show "hoare (\<lambda>s. tracked C R0 s \<and> (\<forall>row. rr_run_id row = i \<longrightarrow> admissible C R0 (sd_uuids s) row))
        (lift (to_row (f i))) (\<lambda>row s. tracked C R0 s \<and> admissible C R0 (sd_uuids s) (row\<lparr>rr_created_at := Some now\<rparr>))
        (\<lambda>_. tracked C R0)"
      by (rule hoare_lift) (auto simp: to_row_def assms(2) split: if_splits)
    show "hoare (\<lambda>s. tracked C R0 s \<and> admissible C R0 (sd_uuids s) (row\<lparr>rr_created_at := Some now\<rparr>))
        (seq (save_run (row\<lparr>rr_created_at := Some now\<rparr>)) (\<lambda>_. k i)) (\<lambda>_. tracked C R0) (\<lambda>_. tracked C R0)" for row
      by (rule hoare_seq [OF hoare_save_run]) (use k in \<open>simp add: hoare_keeps\<close>)
  qed
  then show ?thesis
    unfolding hoare_keeps by (rule hoare_seq [OF hoare_uuid [OF assms(1)]])
qed

lemma save_run_ret: "save_run row = seq (save_run row) (\<lambda>_. ret ())"
  by (auto simp: seq_def ret_def fun_eq_iff split: prod.split sum.split)

lemma keeps_write_skip: "inj (sc_uuid C) \<Longrightarrow> keeps (tracked C R0) (write_skip C task trig code msg sched)"
  unfolding write_skip_def
  by (subst save_run_ret, rule keeps_seq [OF keeps_clock(2)], rule hoare_new_row) (simp_all add: keeps_ret)

lemma keeps_modify_table:
  "(\<And>s. run_table (f s) = run_table s) \<Longrightarrow> (\<And>s. sd_uuids (f s) = sd_uuids s) \<Longrightarrow> keeps (tracked C R0) (modify f)"
  by (simp add: keeps_def modify_def tracked_def)

lemmas sched_keeps = keeps_seq keeps_if keeps_ret keeps_raise keeps_lift keeps_reading keeps_try_else keeps_try
  keeps_clock keeps_uuid keeps_case_option

lemma keeps_last_run: "keeps (tracked C R0) (last_run task)"
  unfolding last_run_def case_prod_beta
  by (intro sched_keeps keeps_runs_call reading_keeps_runs)

lemma keeps_gate: "inj (sc_uuid C) \<Longrightarrow> keeps (tracked C R0) (run_gate C task trig bypass now sched newest)"
  unfolding run_gate_def
  by (intro sched_keeps keeps_write_skip hoare_update) (simp_all add: run_active_def)

lemma keeps_begin_run:
  assumes "inj (sc_uuid C)"
  shows "keeps (tracked C R0) (begin_run C task trig sched bypass)"
proof -
  have entry: "keeps (tracked C R0) (seq (modify (\<lambda>s. s\<lparr>sd_active := upsert fst (i, task) (sd_active s)\<rparr>)) (\<lambda>_. ret (Some i)))" for i
    by (intro sched_keeps keeps_modify_table) simp_all
  have new: "keeps (tracked C R0) (seq (fresh_uuid C) (\<lambda>i. seq (lift (to_row (new_run i task trig slot now))) (\<lambda>row.
      seq (save_run (row\<lparr>rr_created_at := Some now\<rparr>)) (\<lambda>_.
      seq (modify (\<lambda>s. s\<lparr>sd_active := upsert fst (i, task) (sd_active s)\<rparr>)) (\<lambda>_. ret (Some i))))))" for slot now
    by (rule hoare_new_row [OF assms _ entry]) (simp add: new_run_def)
  show ?thesis
    unfolding begin_run_def begin_run_unlocked_def Let_def
    by (rule new keeps_last_run keeps_gate [OF assms] keeps_ret keeps_raise keeps_reading keeps_if keeps_clock keeps_seq)+
qed

section \<open>The body of a run\<close>

abbreviation runs_framed :: "run_row list \<Rightarrow> 'w rstate \<Rightarrow> bool" where
  "runs_framed R r \<equiv> pred_option (\<lambda>h. run_rows h = R) (rs_history r)"

lemma table_of_frames:
  assumes "\<And>R. runs_framed R (ag_rec a) \<Longrightarrow> runs_framed R (ag_rec a')"
  shows "set (run_table (s\<lparr>sd_agents := a'\<rparr>)) \<subseteq> set (run_table (s\<lparr>sd_agents := a\<rparr>))"
proof (cases "rs_history (ag_rec a')")
  case (Some h')
  show ?thesis
  proof (cases "rs_history (ag_rec a)")
    case None
    with assms [of "[]"] Some show ?thesis by (simp add: run_table_def sd_history_def)
  next
    case (Some h)
    with assms [of "run_rows h"] \<open>rs_history (ag_rec a') = Some h'\<close> show ?thesis
      by (simp add: run_table_def sd_history_def)
  qed
qed (simp add: run_table_def sd_history_def)

lemma keeps_on_agents:
  assumes "\<And>R. keeps (\<lambda>a. runs_framed R (ag_rec a)) m"
  shows "keeps (tracked C R0) (on_agents m)"
  unfolding keeps_def
proof (intro allI impI)
  fix s :: "'a sched"
  assume t: "tracked C R0 s"
  obtain r a where m: "m (sd_agents s) = (r, a)" by fastforce
  have "set (run_table (s\<lparr>sd_agents := a\<rparr>)) \<subseteq> set (run_table (s\<lparr>sd_agents := sd_agents s\<rparr>))"
    by (rule table_of_frames) (rule keepsD [OF assms _ m])
  then show "tracked C R0 (snd (on_agents m s))"
    using t m by (auto simp: on_agents_def tracked_def intro: rows_ok_subset)
qed

lemma keeps_on_recovery:
  assumes "\<And>R. keeps (runs_framed R) m"
  shows "keeps (tracked C R0) (on_recovery m)"
  unfolding keeps_def
proof (intro allI impI)
  fix s :: "'a sched"
  assume t: "tracked C R0 s"
  obtain q r where m: "m (ag_rec (sd_agents s)) = (q, r)" by fastforce
  have "set (run_table (s\<lparr>sd_agents := (sd_agents s)\<lparr>ag_rec := r\<rparr>\<rparr>)) \<subseteq> set (run_table (s\<lparr>sd_agents := sd_agents s\<rparr>))"
    by (rule table_of_frames) (use keepsD [OF assms _ m] in simp)
  then show "tracked C R0 (snd (on_recovery m s))"
    using t m by (cases q) (auto simp: on_recovery_def tracked_def intro: rows_ok_subset)
qed

definition closing :: "run_outcome \<Rightarrow> bool" where
  "closing oc \<longleftrightarrow> oc_status oc \<in> {RPreviewed, RCommitted, RFailed}"

abbreviation closing_rule where
  "closing_rule C R0 m \<equiv> hoare (tracked C R0) m (\<lambda>oc s. tracked C R0 s \<and> closing oc) (\<lambda>e. tracked C R0)"

lemma closing_failed [simp]: "closing (failed_outcome j c m)" "closing (plan_failure C p e)" "closing (accept_failure C q e)"
  by (auto simp: closing_def failed_outcome_def plan_failure_def accept_failure_def split: option.split)

lemma closing_records [simp]:
  "closing \<lparr>oc_status = RPreviewed, oc_job = j, oc_error = e, oc_message = m\<rparr>"
  "closing \<lparr>oc_status = RCommitted, oc_job = j, oc_error = e, oc_message = m\<rparr>"
  by (simp_all add: closing_def)

lemma closing_ret: "closing oc \<Longrightarrow> closing_rule C R0 (ret oc)"
  by (simp add: hoare_ret)

lemma closing_seq: "keeps (tracked C R0) m \<Longrightarrow> (\<And>x. closing_rule C R0 (f x)) \<Longrightarrow> closing_rule C R0 (seq m f)"
  unfolding hoare_keeps by (rule hoare_seq)

lemma closing_else:
  "keeps (tracked C R0) m \<Longrightarrow> (\<And>e. closing_rule C R0 (h e)) \<Longrightarrow> (\<And>x. closing_rule C R0 (k x)) \<Longrightarrow>
     closing_rule C R0 (try_else m h k)"
  unfolding hoare_keeps by (rule hoare_else)

lemma arun_closing: "closing_rule C R0 (arun C V I task body)"
proof -
  have accepting: "closing_rule C R0 (auto_accept C V j)" for j
    unfolding auto_accept_def
    by (intro closing_seq closing_else closing_ret keeps_clock keeps_on_agents runs_frame.accept_framed)
      simp_all
  have "closing_rule C R0 (run_agent_task C V planner task scope auto)" for planner scope auto
    unfolding run_agent_task_def Let_def case_prod_beta
    by (intro hoare_if closing_seq closing_else closing_ret accepting keeps_clock keeps_uuid keeps_on_agents
        runs_frame.plan_framed) simp_all
  moreover have "closing (run_index_check C X d)" for X d
    by (simp add: run_index_check_def Let_def)
  ultimately show ?thesis
    unfolding arun_def by (intro hoare_if closing_ret) simp_all
qed

lemma keeps_get_run: "keeps (tracked C R0) (get_run i)"
  unfolding hoare_keeps by (rule hoare_weaken [OF hoare_get_run]) auto

lemma keeps_finalize: "closing oc \<Longrightarrow> keeps (tracked C R0) (finalize C i oc)"
  unfolding finalize_def
  by (intro sched_keeps keeps_get_run hoare_update) (auto simp: closing_def run_active_def)

lemma keeps_run_if_due: "keeps (tracked C R0 :: 'w sched \<Rightarrow> bool) (run_if_due C')"
proof -
  have call: "keeps (tracked C R0 :: 'w sched \<Rightarrow> bool) (runs_call (h_cleanup_retention sub now days m) d)"
    for sub now days m d
    unfolding keeps_def
  proof (intro allI impI)
    fix s :: "'w sched"
    assume t: "tracked C R0 s"
    obtain res s' where r: "runs_call (h_cleanup_retention sub now days m) d s = (res, s')" by fastforce
    then show "tracked C R0 (snd (runs_call (h_cleanup_retention sub now days m) d s))"
    proof (cases rule: runs_call_cases)
      case (some h q h')
      have "set (run_rows h') \<subseteq> set (run_rows h)"
        by (rule keepsD [OF cleanup_keeps_subset order_refl some(2)])
      with some t r show ?thesis by (auto simp: tracked_def intro: rows_ok_subset)
    qed (use t r in simp)
  qed
  have "keeps (tracked C R0 :: 'w sched \<Rightarrow> bool) (run_cleanup C' now)" for now
  proof -
    have "keeps (tracked C R0 :: 'w sched \<Rightarrow> bool) (seq (try_else (runs_call (h_cleanup_retention (sc_subtract_days C') now
        (sc_retention_days C') (sc_max_runs C')) d) (\<lambda>e. ret ()) (\<lambda>_. ret ()))
        (\<lambda>_. modify (\<lambda>s. s\<lparr>sd_last_cleanup := Some now\<rparr>)))" for d
      by (intro sched_keeps call keeps_modify_table) simp_all
    then show ?thesis
      by (auto simp: keeps_def run_cleanup_def ret_def split: option.split)
  qed
  then show ?thesis unfolding run_if_due_def by (intro sched_keeps)
qed

lemma keeps_pipeline: "keeps (tracked C R0) (pipeline C V I i task body)"
proof -
  have body: "closing_rule C R0 (try_except (arun C V I task body) (\<lambda>e. ret (failed_outcome None c m)))" for c m
    by (rule hoare_try [OF arun_closing]) (simp add: hoare_ret)
  have rest: "hoare (\<lambda>s. tracked C R0 s \<and> closing oc) (seq (finalize C i oc) (\<lambda>_.
      seq (modify (\<lambda>s. s\<lparr>sd_active := filter (\<lambda>a. fst a \<noteq> i) (sd_active s)\<rparr>)) (\<lambda>_.
      seq (try_except (run_if_due C) (\<lambda>e. ret ())) (\<lambda>_. ret oc)))) (\<lambda>_. tracked C R0) (\<lambda>_. tracked C R0)" for oc
  proof (cases "closing oc")
    case True
    have "keeps (tracked C R0) (seq (finalize C i oc) (\<lambda>_.
        seq (modify (\<lambda>s. s\<lparr>sd_active := filter (\<lambda>a. fst a \<noteq> i) (sd_active s)\<rparr>)) (\<lambda>_.
        seq (try_except (run_if_due C) (\<lambda>e. ret ())) (\<lambda>_. ret oc))))"
      by (intro sched_keeps keeps_finalize True keeps_modify_table keeps_run_if_due) simp_all
    then show ?thesis unfolding hoare_keeps by (rule hoare_pre) simp
  qed (simp add: hoare_def)
  show ?thesis
    unfolding hoare_keeps pipeline_def by (rule hoare_seq [OF body rest])
qed

section \<open>Steps\<close>

lemma keeps_watch: "keeps (tracked C R0) (watchdog_pass C')"
proof -
  have one: "keeps (tracked C R0) (watch_run C' t r)" for t r
    unfolding watch_run_def mark_timed_out_def Let_def
    by (intro sched_keeps hoare_update) (simp_all add: run_active_def)
  have "keeps (tracked C R0) (watch_runs C' t rs)" for t rs
    by (induction rs) (auto intro!: keeps_seq one)
  then show ?thesis
    unfolding watchdog_pass_def by (intro sched_keeps keeps_runs_call reading_keeps_runs)
qed

lemma keeps_stop: "keeps (tracked C R0) (stop_scheduler C')"
proof -
  have "keeps (tracked C R0) (mark_leftover now ids n)" for now ids n
    by (induction ids arbitrary: n)
      (auto intro!: keeps_seq keeps_get_run keeps_if hoare_update simp: run_active_def)
  then show ?thesis
    unfolding stop_scheduler_def mark_interrupted_after_shutdown_def
    by (intro sched_keeps keeps_modify_table) simp_all
qed

lemma keeps_timed_out: "keeps (tracked C R0) (mark_timed_out C' i)"
  unfolding mark_timed_out_def by (intro sched_keeps hoare_update) (simp add: run_active_def)

lemma keeps_run_task: "inj (sc_uuid C) \<Longrightarrow> keeps (tracked C R0) (run_task C V I task body bypass)"
  unfolding run_task_def response_def
  by (intro sched_keeps keeps_begin_run keeps_pipeline keeps_get_run)

lemma keeps_recovery: "inj (sc_uuid C) \<Longrightarrow> keeps (tracked C R0) (recovery_action C V I tx i act)"
  unfolding recovery_action_def require_run_def
  by (intro sched_keeps keeps_get_run keeps_run_task keeps_on_recovery runs_frame.diagnose_framed
      runs_frame.rollback_if_safe_framed hoare_update) (simp_all add: run_active_def)

text \<open>
  What the threads of the server do to the scheduler: triggers, runs that go on at any later time or
  never, timeouts, the watchdog, starting and stopping, reconfiguration, explicit recovery and the
  calls of the job service.
\<close>

inductive sched_step :: "sched_cfg \<Rightarrow> 'w vault_ops \<Rightarrow> 'w sched \<Rightarrow> 'w sched \<Rightarrow> bool" for C V where
  trigger: "sched_step C V s (snd (on_trigger C job s))"
| manual: "sched_step C V s (snd (begin_run C task MANUAL slot bypass s))"
| run: "sched_step C V s (snd (pipeline C V I i task body s))"
| timeout: "sched_step C V s (snd (mark_timed_out C i s))"
| watchdog: "sched_step C V s (snd (watchdog_pass C s))"
| start: "sched_step C V s (snd (start_scheduler C s))"
| stop: "sched_step C V s (snd (stop_scheduler C s))"
| pause: "sched_step C V s (snd (pause_for_reconfigure s))"
| resume: "sched_step C V s (snd (resume_after_reconfigure s))"
| recovery: "sched_step C V s (snd (recovery_action C V I tx i act s))"
| plan: "sched_step C V s (snd (on_agents (Agents.plan (sc_agent C) V planner now j request) s))"
| accept: "sched_step C V s (snd (on_agents (Agents.accept (sc_agent C) V now j body) s))"
| reject: "sched_step C V s (snd (on_agents (Agents.reject now j) s))"
| undo: "sched_step C V s (snd (on_agents (Agents.undo_job V now j confirm) s))"

inductive_cases sched_stepE: "sched_step C V s s'"

lemma keeps_trigger: "inj (sc_uuid C) \<Longrightarrow> keeps (tracked C R0) (on_trigger C job)"
  unfolding on_trigger_def by (intro sched_keeps keeps_begin_run)

lemma keeps_switches:
  "keeps (tracked C R0) (start_scheduler C)" "keeps (tracked C R0) pause_for_reconfigure"
  "keeps (tracked C R0) resume_after_reconfigure"
  unfolding start_scheduler_def pause_for_reconfigure_def resume_after_reconfigure_def
  by (intro sched_keeps keeps_modify_table; simp)+

lemma keeps_snd: "keeps P m \<Longrightarrow> P s \<Longrightarrow> P (snd (m s))"
  by (simp add: keeps_def)

lemma keeps_step:
  assumes "inj (sc_uuid C)" "sched_step C V s s'" "tracked C R0 s"
  shows "tracked C R0 s'"
  using assms(2)
  by (cases rule: sched_step.cases)
    (simp_all add: assms(3) keeps_snd [OF keeps_trigger [OF assms(1)]] keeps_snd [OF keeps_switches(1)]
      keeps_snd [OF keeps_switches(2)] keeps_snd [OF keeps_switches(3)]
      keeps_snd [OF keeps_begin_run [OF assms(1)]] keeps_snd [OF keeps_pipeline] keeps_snd [OF keeps_timed_out]
      keeps_snd [OF keeps_watch] keeps_snd [OF keeps_stop] keeps_snd [OF keeps_recovery [OF assms(1)]]
      keeps_snd [OF keeps_on_agents [OF runs_frame.plan_framed]]
      keeps_snd [OF keeps_on_agents [OF runs_frame.accept_framed]]
      keeps_snd [OF keeps_on_agents [OF runs_frame.reject_framed]]
      keeps_snd [OF keeps_on_agents [OF runs_frame.undo_job_framed]])

lemma reachable_tracked:
  assumes "(sched_step C V)\<^sup>*\<^sup>* s s'" "inj (sc_uuid C)" "tracked C R0 s"
  shows "tracked C R0 s'"
  using assms by (induction rule: rtranclp_induct) (auto intro: keeps_step)

end
