(* ===== verification/SchedulerExact.thy ===== *)
theory SchedulerExact imports SchedulerProofs begin

text \<open>
  What the scheduler does on a history that works: each call as an equation on the table of runs.
\<close>

section \<open>A working history\<close>

definition calm_sched :: "'w sched \<Rightarrow> bool" where
  "calm_sched s \<longleftrightarrow> (\<exists>h. sd_history s = Some h \<and> working h) \<and> distinct (map rr_run_id (run_table s)) \<and>
     (\<forall>r \<in> set (run_table s). rr_created_at r \<noteq> None)"

definition set_history :: "history \<Rightarrow> 'w sched \<Rightarrow> 'w sched" where
  "set_history h s = s\<lparr>sd_agents := (sd_agents s)\<lparr>ag_rec := (ag_rec (sd_agents s))\<lparr>rs_history := Some h\<rparr>\<rparr>\<rparr>"

lemma set_history_simps [simp]:
  "sd_history (set_history h s) = Some h" "run_table (set_history h s) = run_rows h"
  "sd_active (set_history h s) = sd_active s" "sd_started (set_history h s) = sd_started s"
  "sd_ticks (set_history h s) = sd_ticks s" "sd_uuids (set_history h s) = sd_uuids s"
  "sd_reconfiguring (set_history h s) = sd_reconfiguring s" "sd_owners (set_history h s) = sd_owners s"
  by (simp_all add: set_history_def sd_history_def run_table_def)

lemma calm_simps [simp]:
  "calm_sched (s\<lparr>sd_ticks := n\<rparr>) = calm_sched s" "calm_sched (s\<lparr>sd_uuids := n\<rparr>) = calm_sched s"
  "calm_sched (s\<lparr>sd_active := a\<rparr>) = calm_sched s" "calm_sched (s\<lparr>sd_started := b\<rparr>) = calm_sched s"
  by (simp_all add: calm_sched_def sd_history_def)

lemma set_history_same: "sd_history s = Some h \<Longrightarrow> set_history h s = s"
  by (simp add: set_history_def sd_history_def)

lemma runs_call_Some:
  "sd_history s = Some h \<Longrightarrow> m h = (Inr x, h') \<Longrightarrow> runs_call m d s = (Inr x, set_history h' s)"
  by (simp add: runs_call_def on_recovery_def on_history_def sd_history_def set_history_def)

lemma working_get_run: "working h \<Longrightarrow> h_get_run i h = (Inr (lookup_row rr_run_id i (run_rows h)), h)"
  by (auto simp: working_def h_get_run_def repo_get_run_def plumbing run_rows_def Let_def)

lemma calm_get_run: "calm_sched s \<Longrightarrow> get_run i s = (Inr (lookup_row rr_run_id i (run_table s)), s)"
  by (auto simp: calm_sched_def get_run_def runs_call_Some working_get_run set_history_same run_table_def)

lemma calm_save_run:
  assumes "calm_sched s" "rr_created_at row \<noteq> None"
  obtains h where "save_run row s = (Inr (), set_history h s)" "calm_sched (set_history h s)"
    "run_rows h = upsert rr_run_id row (run_table s)"
proof -
  obtain h0 where h0: "sd_history s = Some h0" "working h0"
    using assms(1) by (auto simp: calm_sched_def)
  obtain h where h: "h_save_run row h0 = (Inr row, h)" "working h" "run_rows h = upsert rr_run_id row (run_rows h0)"
    using working_save_run [OF h0(2) assms(2)] by blast
  have rows: "run_rows h = upsert rr_run_id row (run_table s)" using h(3) h0(1) by (simp add: run_table_def)
  show ?thesis
  proof (rule that [OF _ _ rows])
    show "save_run row s = (Inr (), set_history h s)"
      using h0(1) runs_call_Some [where m = "h_save_run row", OF h0(1) h(1)]
      by (simp add: save_run_def seq_def reading_def ret_def)
    show "calm_sched (set_history h s)"
      using assms h(2) rows upsert_subset [of rr_run_id row "run_table s"]
      by (auto simp: calm_sched_def distinct_upsert)
  qed
qed

lemma calm_update:
  assumes "calm_sched s"
  obtains h where "update_status i st j e m f s = (Inr (), set_history h s)" "calm_sched (set_history h s)"
    "run_rows h = map (\<lambda>r. if rr_run_id r = i then updated_run st j e m f r else r) (run_table s)"
proof (cases "lookup_row rr_run_id i (run_table s)")
  case None
  obtain h where h: "sd_history s = Some h" using assms by (auto simp: calm_sched_def)
  have "update_status i st j e m f s = (Inr (), s)"
    using None calm_get_run [OF assms] by (simp add: update_status_def seq_def ret_def)
  moreover have "r \<in> set (run_table s) \<Longrightarrow> rr_run_id r \<noteq> i" for r
    using None lookup_row_known [of i rr_run_id "run_table s"] by auto
  then have "map (\<lambda>r. if rr_run_id r = i then updated_run st j e m f r else r) (run_table s) = run_table s"
    by (intro map_idI) simp
  ultimately show ?thesis
    using that [of h] assms h by (simp add: set_history_same run_table_def)
next
  case (Some r)
  note key = lookup_row_key [OF Some]
  let ?r = "updated_run st j e m f r"
  have "rr_created_at ?r \<noteq> None" using assms key by (auto simp: calm_sched_def updated_run_def)
  then obtain h where h: "save_run ?r s = (Inr (), set_history h s)" "calm_sched (set_history h s)"
      "run_rows h = upsert rr_run_id ?r (run_table s)"
    using calm_save_run [OF assms] by blast
  have "update_status i st j e m f s = (Inr (), set_history h s)"
    using h(1) Some calm_get_run [OF assms] by (simp add: update_status_def seq_def)
  have keys: "distinct (map rr_run_id (run_table s))" using assms by (simp add: calm_sched_def)
  have id: "rr_run_id ?r = i" using key by (simp add: updated_run_def)
  have mem: "rr_run_id ?r \<in> rr_run_id ` set (run_table s)" unfolding id using key by blast
  have uniq: "x = r" if "x \<in> set (run_table s)" "rr_run_id x = i" for x
    using distinct_key_unique [OF keys that(1)] key that(2) by simp
  have "upsert rr_run_id ?r (run_table s) =
      map (\<lambda>r. if rr_run_id r = i then updated_run st j e m f r else r) (run_table s)"
    unfolding upsert_replaces [OF mem keys] id using uniq by (intro map_cong refl) auto
  with \<open>update_status i st j e m f s = (Inr (), set_history h s)\<close> show ?thesis using that h by simp
qed

section \<open>The newest run\<close>

definition newest_run :: "pystr \<Rightarrow> run_row list \<Rightarrow> run_row option" where
  "newest_run task R = (case runs_newest_first (with_task (Some task) R) of [] \<Rightarrow> None | r # rs \<Rightarrow> Some r)"

lemma working_page: "working h \<Longrightarrow> h_page_runs 1 0 (Some task) h =
    (Inr (take 1 (runs_newest_first (with_task (Some task) (run_rows h))),
      length (with_task (Some task) (run_rows h)), 1, 0), h)"
  by (auto simp: working_def h_page_runs_def repo_page_runs_def plumbing run_rows_def Let_def window_def
      safe_limit_def safe_offset_def)

lemma calm_last_run: "calm_sched s \<Longrightarrow> last_run task s = (Inr (newest_run task (run_table s)), s)"
  by (auto simp: calm_sched_def last_run_def seq_def runs_call_Some [OF _ working_page] set_history_same
      run_table_def ret_def newest_run_def split: list.split)

lemma with_task_mem: "task \<noteq> [] \<Longrightarrow> set (with_task (Some task) R) = {r \<in> set R. rr_task r = task}"
  by (auto simp: with_task_def some_nonempty_def)

lemma newest_run_mem: "newest_run task R = Some r \<Longrightarrow> task \<noteq> [] \<Longrightarrow> r \<in> set R \<and> rr_task r = task"
proof -
  assume n: "newest_run task R = Some r" "task \<noteq> []"
  then have "r \<in> set (runs_newest_first (with_task (Some task) R))"
    by (auto simp: newest_run_def split: list.splits)
  then have "r \<in> set (with_task (Some task) R)" by (simp add: runs_newest_first_def)
  with n(2) show ?thesis by (simp add: with_task_mem)
qed

text \<open>A row that started after all others of its task is the newest.\<close>

lemma newest_run_snoc:
  assumes "task \<noteq> []" "rr_task row = task" "\<forall>r \<in> set R. rr_task r = task \<longrightarrow> rr_started_at r < rr_started_at row"
  shows "newest_run task (R @ [row]) = Some row"
proof -
  let ?key = "\<lambda>r. (rr_started_at r, rr_run_id r)"
  have "with_task (Some task) (R @ [row]) = with_task (Some task) R @ [row]"
    using assms(1,2) by (simp add: with_task_def some_nonempty_def)
  moreover have "sort_key ?key (with_task (Some task) R @ [row]) = sort_key ?key (with_task (Some task) R) @ [row]"
    using assms with_task_mem [OF assms(1), of R]
    by (subst sort_key_absorb [symmetric], intro sort_key_snoc_last) auto
  ultimately show ?thesis by (simp add: newest_run_def runs_newest_first_def)
qed

lemma upsert_fresh: "key x \<notin> key ` set xs \<Longrightarrow> upsert key x xs = xs @ [x]"
  by (induction xs) auto

section \<open>The gate\<close>

text \<open>An ISO timestamp is a short text that is not empty.\<close>

definition iso_fits :: "sched_cfg \<Rightarrow> bool" where
  "iso_fits C \<longleftrightarrow> (\<forall>t. sc_iso C t \<noteq> [] \<and> length (sc_iso C t) \<le> 200)"

text \<open>A run that keeps its task from being started at the instant \<open>t\<close>.\<close>

definition blocking :: "sched_cfg \<Rightarrow> int \<Rightarrow> run_row \<Rightarrow> bool" where
  "blocking C t r \<longleftrightarrow> rr_status r = run_status_value RRecoveryRequired \<or>
     is_active r \<and> rr_started_at r \<noteq> [] \<and>
     (\<exists>started. sc_parse C (rr_started_at r) = Some started \<and> t - started \<le> sc_stale_after C)"

definition idle :: "run_row option \<Rightarrow> bool" where
  "idle newest \<longleftrightarrow> (\<forall>r. newest = Some r \<longrightarrow>
     rr_status r \<noteq> run_status_value RRecoveryRequired \<and> \<not> is_active r)"

text \<open>The scheduler can start runs: it is on, and its coming identifiers are new.\<close>

definition ready_for :: "sched_cfg \<Rightarrow> pystr \<Rightarrow> 'w sched \<Rightarrow> bool" where
  "ready_for C task s \<longleftrightarrow> calm_sched s \<and> sc_enabled C \<and> sd_started s \<and> \<not> sd_reconfiguring s \<and>
     task \<in> set DEFAULT_TASK_IDS \<and> iso_fits C \<and> inj (sc_uuid C) \<and> unused_ids C (sd_uuids s) (run_table s)"

lemma task_facts: "task \<in> set DEFAULT_TASK_IDS \<Longrightarrow> task \<noteq> [] \<and> length task \<le> 17"
  by (auto simp: DEFAULT_TASK_IDS_def DAILY_def WEEKLY_def INDEX_def)

lemma valid_row:
  assumes "iso_fits C" "task \<in> set DEFAULT_TASK_IDS" "rr_task row = task"
    "rr_trigger row \<in> {SCHEDULED, MANUAL}" "rr_idempotency_key row = run_key task (sc_iso C t)"
    "rr_agent_job_id row = None" "\<forall>e \<in> set_option (rr_error_code row). length e \<le> 64"
    "\<forall>m \<in> set_option (rr_message row). length m \<le> 2000"
  shows "to_row row = Inr row"
proof -
  have "length (sc_iso C t) \<le> 200" using assms(1) by (simp add: iso_fits_def)
  with assms task_facts [OF assms(2)] show ?thesis
    by (auto simp: to_row_def valid_run_def run_key_def SCHEDULED_def MANUAL_def)
qed

lemma fresh_id: "unused_ids C k R \<Longrightarrow> sc_uuid C k \<notin> rr_run_id ` set R"
proof
  assume u: "unused_ids C k R" and "sc_uuid C k \<in> rr_run_id ` set R"
  then obtain r where r: "r \<in> set R" "rr_run_id r = sc_uuid C k" by auto
  from u r(1) have "rr_run_id r \<noteq> sc_uuid C k" unfolding unused_ids_def by blast
  with r(2) show False by contradiction
qed

lemma unused_append:
  "inj (sc_uuid C) \<Longrightarrow> unused_ids C k R \<Longrightarrow> rr_run_id row = sc_uuid C k \<Longrightarrow> unused_ids C (Suc k) (R @ [row])"
  by (auto simp: unused_ids_def dest: injD)

lemma calm_append_run:
  assumes "calm_sched s" "rr_created_at row \<noteq> None" "rr_run_id row \<notin> rr_run_id ` set (run_table s)"
  obtains h where "save_run row s = (Inr (), set_history h s)" "calm_sched (set_history h s)"
    "run_rows h = run_table s @ [row]"
  using calm_save_run [OF assms(1,2)] upsert_fresh [of rr_run_id row, OF assms(3)] by metis

definition skip_row :: "sched_cfg \<Rightarrow> pystr \<Rightarrow> pystr \<Rightarrow> pystr \<Rightarrow> pystr \<Rightarrow> nat \<Rightarrow> int \<Rightarrow> run_row" where
  "skip_row C task code message slot k t =
     \<lparr>rr_run_id = sc_uuid C k, rr_task = task, rr_trigger = SCHEDULED,
      rr_status = run_status_value RSkippedDuplicate, rr_idempotency_key = run_key task slot,
      rr_agent_job_id = None, rr_scheduled_for = Some slot, rr_started_at = sc_iso C t,
      rr_finished_at = Some (sc_iso C t), rr_error_code = Some code, rr_message = Some message,
      rr_created_at = Some (sc_iso C t)\<rparr>"

lemma skip_writes:
  assumes "ready_for C task s" "length code \<le> 64" "length message \<le> 2000" "slot = sc_iso C t"
  obtains h where "write_skip C task SCHEDULED code message slot s =
      (Inr (), set_history h (s\<lparr>sd_ticks := Suc (sd_ticks s), sd_uuids := Suc (sd_uuids s)\<rparr>))"
    "calm_sched (set_history h (s\<lparr>sd_ticks := Suc (sd_ticks s), sd_uuids := Suc (sd_uuids s)\<rparr>))"
    "run_rows h = run_table s @ [skip_row C task code message slot (sd_uuids s) (sc_clock C (sd_ticks s))]"
proof -
  let ?s = "s\<lparr>sd_ticks := Suc (sd_ticks s), sd_uuids := Suc (sd_uuids s)\<rparr>"
  let ?row = "skip_row C task code message slot (sd_uuids s) (sc_clock C (sd_ticks s))"
  have r: "calm_sched s" "iso_fits C" "task \<in> set DEFAULT_TASK_IDS" "unused_ids C (sd_uuids s) (run_table s)"
    using assms(1) by (simp_all add: ready_for_def)
  have slot: "slot \<noteq> []" using r(2) assms(4) by (simp add: iso_fits_def)
  have row: "to_row (?row\<lparr>rr_created_at := None\<rparr>) = Inr (?row\<lparr>rr_created_at := None\<rparr>)"
    by (rule valid_row [OF r(2,3), where t = t]) (simp_all add: skip_row_def assms)
  have fresh: "rr_run_id ?row \<notin> rr_run_id ` set (run_table ?s)"
    using fresh_id [OF r(4)] by (simp add: skip_row_def)
  have created: "rr_created_at ?row \<noteq> None" by (simp add: skip_row_def)
  obtain h where h: "save_run ?row ?s = (Inr (), set_history h ?s)" "calm_sched (set_history h ?s)"
      "run_rows h = run_table ?s @ [?row]"
    using calm_append_run [OF _ created fresh] r(1) by auto
  have "write_skip C task SCHEDULED code message slot s = save_run ?row ?s"
    using row slot by (simp add: write_skip_def now_iso_def read_clock_def fresh_uuid_def seq_def ret_def
        lift_def skip_row_def)
  with h that show ?thesis by simp
qed

definition started_row :: "sched_cfg \<Rightarrow> pystr \<Rightarrow> nat \<Rightarrow> int \<Rightarrow> run_row" where
  "started_row C task k t =
     (new_run (sc_uuid C k) task SCHEDULED (sc_iso C t) (sc_iso C t))\<lparr>rr_created_at := Some (sc_iso C t)\<rparr>"

lemma trigger_unfold:
  assumes "ready_for C task s"
  defines "t \<equiv> sc_clock C (sd_ticks s)"
  shows "on_trigger C task s = try_except (\<lambda>s1.
      (case run_gate C task SCHEDULED False (sc_iso C t) (sc_iso C t) (newest_run task (run_table s)) s1 of
         (Inl e, s2) \<Rightarrow> (Inl e, s2)
       | (Inr True, s2) \<Rightarrow> (Inr None, s2)
       | (Inr False, s2) \<Rightarrow> seq (fresh_uuid C) (\<lambda>i.
           seq (lift (to_row (new_run i task SCHEDULED (sc_iso C t) (sc_iso C t)))) (\<lambda>row.
           seq (save_run (row\<lparr>rr_created_at := Some (sc_iso C t)\<rparr>)) (\<lambda>_.
           seq (modify (\<lambda>s. s\<lparr>sd_active := upsert fst (i, task) (sd_active s)\<rparr>)) (\<lambda>_. ret (Some i))))) s2))
      (\<lambda>e. ret None) (s\<lparr>sd_ticks := Suc (sd_ticks s)\<rparr>)"
proof -
  have r: "calm_sched (s\<lparr>sd_ticks := Suc (sd_ticks s)\<rparr>)" "sd_started s" "\<not> sd_reconfiguring s" "sc_enabled C"
      "task \<in> set DEFAULT_TASK_IDS"
    using assms(1) by (simp_all add: ready_for_def)
  have last: "last_run task (s\<lparr>sd_ticks := Suc (sd_ticks s)\<rparr>) =
      (Inr (newest_run task (run_table s)), s\<lparr>sd_ticks := Suc (sd_ticks s)\<rparr>)"
    using calm_last_run [OF r(1)] by simp
  show ?thesis
    using r last
    by (auto simp: on_trigger_def begin_run_def begin_run_unlocked_def seq_def reading_def now_iso_def
        read_clock_def ret_def Let_def truthy_or_def some_nonempty_def try_except_def t_def
        split: prod.split sum.split bool.split)
qed

lemma not_active_recovery: "rr_status r = run_status_value RRecoveryRequired \<Longrightarrow> \<not> is_active r"
  by (simp add: is_active_def ACTIVE_RUN_STATUSES_def)

lemma ready_after:
  assumes "ready_for C task s" "calm_sched s'" "sd_started s' = sd_started s"
    "sd_reconfiguring s' = sd_reconfiguring s" "sd_uuids s' = Suc (sd_uuids s)"
    "run_table s' = run_table s @ [row]" "rr_run_id row = sc_uuid C (sd_uuids s)"
  shows "ready_for C task s'"
  using assms unused_append [of C "sd_uuids s" "run_table s" row] by (simp add: ready_for_def)

lemma busy_trigger:
  assumes ready: "ready_for C task s" and newest: "newest_run task (run_table s) = Some r"
    and busy: "blocking C (sc_clock C (Suc (sd_ticks s))) r"
  obtains s' row k where "on_trigger C task s = (Inr None, s')" "run_table s' = run_table s @ [row]"
    "rr_status row = run_status_value RSkippedDuplicate" "rr_task row = task"
    "rr_run_id row = sc_uuid C (sd_uuids s)" "rr_started_at row = sc_iso C (sc_clock C k)"
    "k = (if is_active r then 2 else 1) + sd_ticks s" "sd_ticks s' = Suc k"
    "sd_active s' = sd_active s" "ready_for C task s'"
proof -
  define k where "k = (if is_active r then 2 else 1) + sd_ticks s"
  define code where "code = (if is_active r then lit ''duplicate_run'' else lit ''recovery_required'')"
  define message where "message = (if is_active r then lit ''the task already has an active run''
    else lit ''previous run needs explicit recovery'')"
  let ?slot = "sc_iso C (sc_clock C (sd_ticks s))"
  let ?s = "s\<lparr>sd_ticks := k\<rparr>"
  let ?s' = "s\<lparr>sd_ticks := Suc k, sd_uuids := Suc (sd_uuids s)\<rparr>"
  have ready_k: "ready_for C task ?s" using ready by (simp add: ready_for_def)
  have lengths: "length code \<le> 64" "length message \<le> 2000" by (simp_all add: code_def message_def)
  obtain h where h: "write_skip C task SCHEDULED code message ?slot ?s = (Inr (), set_history h ?s')"
      "calm_sched (set_history h ?s')"
      "run_rows h = run_table s @ [skip_row C task code message ?slot (sd_uuids s) (sc_clock C k)]"
    using skip_writes [OF ready_k lengths refl] by auto
  have "run_gate C task SCHEDULED False ?slot ?slot (Some r) (s\<lparr>sd_ticks := Suc (sd_ticks s)\<rparr>) =
      (Inr True, set_history h ?s')"
  proof (cases "is_active r")
    case True
    then have st: "rr_status r \<noteq> run_status_value RRecoveryRequired" using not_active_recovery by blast
    obtain t0 where t0: "rr_started_at r \<noteq> []" "sc_parse C (rr_started_at r) = Some t0"
        "sc_clock C (Suc (sd_ticks s)) - t0 \<le> sc_stale_after C"
      using busy st by (auto simp: blocking_def)
    have "write_skip C task SCHEDULED (lit ''duplicate_run'') (lit ''the task already has an active run'') ?slot
        (s\<lparr>sd_ticks := Suc (Suc (sd_ticks s))\<rparr>) = (Inr (), set_history h ?s')"
      using h(1) True by (simp add: k_def code_def message_def)
    with True st t0 show ?thesis
      by (simp add: run_gate_def is_active_def seq_def read_clock_def ret_def SCHEDULED_def MANUAL_def)
  next
    case False
    then have st: "rr_status r = run_status_value RRecoveryRequired" using busy by (auto simp: blocking_def)
    have "write_skip C task SCHEDULED (lit ''recovery_required'') (lit ''previous run needs explicit recovery'') ?slot
        (s\<lparr>sd_ticks := Suc (sd_ticks s)\<rparr>) = (Inr (), set_history h ?s')"
      using h(1) False by (simp add: k_def code_def message_def)
    with st show ?thesis
      by (simp add: run_gate_def seq_def ret_def SCHEDULED_def MANUAL_def)
  qed
  then have run: "on_trigger C task s = (Inr None, set_history h ?s')"
    unfolding trigger_unfold [OF ready] newest by (simp add: try_except_def)
  show ?thesis
  proof (rule that [of "set_history h ?s'" "skip_row C task code message ?slot (sd_uuids s) (sc_clock C k)" k])
    show "ready_for C task (set_history h ?s')"
      by (rule ready_after [OF ready h(2), of "skip_row C task code message ?slot (sd_uuids s) (sc_clock C k)"])
        (simp_all add: h(3) skip_row_def)
  qed (simp_all add: run h(3) skip_row_def k_def)
qed

lemma idle_trigger:
  assumes ready: "ready_for C task s" and "idle (newest_run task (run_table s))"
  obtains s' where "on_trigger C task s = (Inr (Some (sc_uuid C (sd_uuids s))), s')"
    "run_table s' = run_table s @ [started_row C task (sd_uuids s) (sc_clock C (sd_ticks s))]"
    "sd_active s' = upsert fst (sc_uuid C (sd_uuids s), task) (sd_active s)" "ready_for C task s'"
    "sd_ticks s' = Suc (sd_ticks s)"
proof -
  let ?t = "sc_clock C (sd_ticks s)" and ?i = "sc_uuid C (sd_uuids s)"
  let ?s = "s\<lparr>sd_ticks := Suc (sd_ticks s)\<rparr>"
  let ?s1 = "s\<lparr>sd_ticks := Suc (sd_ticks s), sd_uuids := Suc (sd_uuids s)\<rparr>"
  let ?row = "started_row C task (sd_uuids s) ?t"
  have r: "calm_sched s" "iso_fits C" "task \<in> set DEFAULT_TASK_IDS" "unused_ids C (sd_uuids s) (run_table s)"
    using ready by (simp_all add: ready_for_def)
  have gate: "run_gate C task SCHEDULED False (sc_iso C ?t) (sc_iso C ?t) (newest_run task (run_table s)) ?s =
      (Inr False, ?s)"
    using assms(2) by (auto simp: run_gate_def idle_def is_active_def ret_def split: option.split)
  have row: "to_row (new_run ?i task SCHEDULED (sc_iso C ?t) (sc_iso C ?t)) =
      Inr (new_run ?i task SCHEDULED (sc_iso C ?t) (sc_iso C ?t))"
    by (rule valid_row [OF r(2,3), where t = ?t]) (simp_all add: new_run_def)
  have fresh: "rr_run_id ?row \<notin> rr_run_id ` set (run_table ?s1)"
    using fresh_id [OF r(4)] by (simp add: started_row_def new_run_def)
  have created: "rr_created_at ?row \<noteq> None" by (simp add: started_row_def)
  obtain h where h: "save_run ?row ?s1 = (Inr (), set_history h ?s1)" "calm_sched (set_history h ?s1)"
      "run_rows h = run_table ?s1 @ [?row]"
    using calm_append_run [OF _ created fresh] r(1) by auto
  let ?s' = "(set_history h ?s1)\<lparr>sd_active := upsert fst (?i, task) (sd_active s)\<rparr>"
  have "on_trigger C task s = (Inr (Some ?i), ?s')"
    unfolding trigger_unfold [OF ready] using gate row h(1)
    by (simp add: try_except_def seq_def fresh_uuid_def lift_def modify_def ret_def started_row_def)
  moreover have "ready_for C task ?s'"
    by (rule ready_after [OF ready, of _ ?row]) (use h in \<open>simp_all add: started_row_def new_run_def\<close>)
  ultimately show ?thesis using that h(3) by simp
qed

section \<open>Shutdown\<close>

definition interrupted :: "pystr \<Rightarrow> run_row \<Rightarrow> run_row" where
  "interrupted now = updated_run RRecoveryRequired None (Some (lit ''process_interrupted''))
     (Some (lit ''scheduler shut down while the run was active'')) (Some now)"

lemma interrupted_simps [simp]:
  "rr_run_id (interrupted now r) = rr_run_id r" "\<not> is_active (interrupted now r)"
  by (simp_all add: interrupted_def updated_run_def is_active_def ACTIVE_RUN_STATUSES_def)

lemma mark_leftover_runs:
  assumes "calm_sched s"
  shows "\<exists>n' h. mark_leftover now ids n s = (Inr n', set_history h s) \<and> calm_sched (set_history h s) \<and>
    run_rows h = map (\<lambda>r. if rr_run_id r \<in> set ids \<and> is_active r then interrupted now r else r) (run_table s)"
  using assms
proof (induction ids arbitrary: n s)
  case Nil
  then obtain h where "sd_history s = Some h" by (auto simp: calm_sched_def)
  with Nil show ?case
    by (intro exI [of _ n] exI [of _ h]) (simp add: ret_def set_history_same run_table_def)
next
  case (Cons i ids)
  note got = calm_get_run [OF Cons.prems, of i]
  have keys: "distinct (map rr_run_id (run_table s))" using Cons.prems by (simp add: calm_sched_def)
  show ?case
  proof (cases "case lookup_row rr_run_id i (run_table s) of None \<Rightarrow> True | Some r \<Rightarrow> \<not> is_active r")
    case True
    then have "mark_leftover now (i # ids) n s = mark_leftover now ids n s"
      using got by (simp add: seq_def is_active_def split: option.splits)
    moreover have "\<not> is_active r" if "r \<in> set (run_table s)" "rr_run_id r = i" for r
    proof -
      have "i \<in> rr_run_id ` set (run_table s)" using that by blast
      from lookup_row_known [OF this] obtain q where "lookup_row rr_run_id i (run_table s) = Some q" by blast
      with True lookup_row_key [OF this] distinct_key_unique [OF keys that(1), of q] that(2)
      show ?thesis by auto
    qed
    then have "map (\<lambda>r. if rr_run_id r \<in> set (i # ids) \<and> is_active r then interrupted now r else r) (run_table s) =
        map (\<lambda>r. if rr_run_id r \<in> set ids \<and> is_active r then interrupted now r else r) (run_table s)"
      by (intro map_cong refl) auto
    ultimately show ?thesis using Cons.IH [OF Cons.prems, of n] by (simp only:)
  next
    case False
    then obtain q where q: "lookup_row rr_run_id i (run_table s) = Some q" "is_active q"
      by (auto split: option.splits)
    obtain h where h: "update_status i RRecoveryRequired None (Some (lit ''process_interrupted''))
        (Some (lit ''scheduler shut down while the run was active'')) (Some now) s = (Inr (), set_history h s)"
        "calm_sched (set_history h s)"
        "run_rows h = map (\<lambda>r. if rr_run_id r = i then interrupted now r else r) (run_table s)"
      unfolding interrupted_def by (rule calm_update [OF Cons.prems])
    have "mark_leftover now (i # ids) n s = mark_leftover now ids (Suc n) (set_history h s)"
      using got q h(1) by (simp add: seq_def is_active_def)
    moreover obtain n' h' where h': "mark_leftover now ids (Suc n) (set_history h s) =
        (Inr n', set_history h' (set_history h s))" "calm_sched (set_history h' (set_history h s))"
        "run_rows h' = map (\<lambda>r. if rr_run_id r \<in> set ids \<and> is_active r then interrupted now r else r) (run_rows h)"
      using Cons.IH [OF h(2), of "Suc n"] by auto
    moreover have "set_history h' (set_history h s) = set_history h' s" by (simp add: set_history_def)
    moreover have "is_active r" if "r \<in> set (run_table s)" "rr_run_id r = i" for r
      using lookup_row_key [OF q(1)] q(2) distinct_key_unique [OF keys that(1), of q] that(2) by auto
    then have "run_rows h' =
        map (\<lambda>r. if rr_run_id r \<in> set (i # ids) \<and> is_active r then interrupted now r else r) (run_table s)"
      unfolding h'(3) h(3) map_map by (intro map_cong refl) auto
    ultimately show ?thesis by auto
  qed
qed

lemma stop_flags:
  assumes "calm_sched s" "sd_started s"
  obtains n s' where "stop_scheduler C s = (Inr n, s')" "sd_active s' = []" "\<not> sd_started s'"
    "run_table s' = map (\<lambda>r. if rr_run_id r \<in> fst ` set (sd_active s) \<and> is_active r
       then interrupted (sc_iso C (sc_clock C (sd_ticks s))) r else r) (run_table s)"
proof -
  let ?s = "s\<lparr>sd_started := False, sd_active := [], sd_ticks := Suc (sd_ticks s)\<rparr>"
  let ?now = "sc_iso C (sc_clock C (sd_ticks s))"
  have "calm_sched ?s" using assms(1) by simp
  from mark_leftover_runs [OF this, of ?now "map fst (sd_active s)" 0]
  obtain n h where h: "mark_leftover ?now (map fst (sd_active s)) 0 ?s = (Inr n, set_history h ?s)"
      "run_rows h = map (\<lambda>r. if rr_run_id r \<in> set (map fst (sd_active s)) \<and> is_active r
         then interrupted ?now r else r) (run_table ?s)" by blast
  have "stop_scheduler C s = (Inr n, set_history h ?s)"
    using assms(2) h(1)
    by (simp add: stop_scheduler_def mark_interrupted_after_shutdown_def seq_def reading_def modify_def
        now_iso_def read_clock_def ret_def)
  with h(2) that show ?thesis by simp
qed

section \<open>The watchdog\<close>

text \<open>
  What a pass at the instant \<open>t\<close> makes of a row, when \<open>act\<close> are the runs this process is
  executing: an abandoned run that is stale needs recovery, one that runs too long is marked.
\<close>

definition watched :: "sched_cfg \<Rightarrow> int \<Rightarrow> pystr set \<Rightarrow> run_row \<Rightarrow> run_row \<Rightarrow> bool" where
  "watched C t act r r' \<longleftrightarrow>
     (let age = t - the (sc_parse C (rr_started_at r)) in
      if \<not> is_active r then r' = r
      else if rr_run_id r \<notin> act \<and> sc_stale_after C < age then
        r' = updated_run RRecoveryRequired None (Some (lit ''process_interrupted''))
               (Some (lit ''abandoned running run flagged by watchdog'')) (Some (sc_iso C t)) r
      else if rr_run_id r \<in> act \<and> sc_timeout C < age then
        \<exists>at. r' = updated_run RTimedOut None (Some (lit ''job_timeout'')) (Some (lit ''exceeded the job timeout''))
               (Some (sc_iso C at)) r
      else r' = r)"

lemma watched_id: "watched C t act r r' \<Longrightarrow> rr_run_id r' = rr_run_id r"
  by (auto simp: watched_def Let_def updated_run_def split: if_splits)

lemma watched_idle: "\<not> is_active r \<Longrightarrow> watched C t act r r"
  by (simp add: watched_def)

lemma working_runs: "working h \<Longrightarrow> statuses \<noteq> [] \<Longrightarrow>
    h_runs_with_status statuses h = (Inr (runs_in_status statuses (run_rows h)), h)"
  by (auto simp: working_def h_runs_with_status_def repo_runs_with_status_def plumbing run_rows_def Let_def)

text \<open>The ids of the runs being executed.\<close>

definition executing :: "'w sched \<Rightarrow> pystr set" where
  "executing s = fst ` set (sd_active s)"

lemma watch_one:
  assumes "calm_sched s" "is_active r" "sc_parse C (rr_started_at r) \<noteq> None" "r \<in> set (run_table s)"
  shows "\<exists>r' n h. watched C t (executing s) r r' \<and> watch_run C t r s = (Inr (), set_history h (s\<lparr>sd_ticks := n\<rparr>)) \<and>
    calm_sched (set_history h (s\<lparr>sd_ticks := n\<rparr>)) \<and>
    run_rows h = map (\<lambda>q. if rr_run_id q = rr_run_id r then r' else q) (run_table s)"
proof -
  obtain started where st: "sc_parse C (rr_started_at r) = Some started" using assms(3) by blast
  have keys: "distinct (map rr_run_id (run_table s))" using assms(1) by (simp add: calm_sched_def)
  have same: "q = r" if "q \<in> set (run_table s)" "rr_run_id q = rr_run_id r" for q
    using distinct_key_unique [OF keys that(1) assms(4)] that(2) by simp
  obtain h0 where h0: "sd_history s = Some h0" using assms(1) by (auto simp: calm_sched_def)
  let ?R = "\<lambda>now. updated_run RRecoveryRequired None (Some (lit ''process_interrupted''))
    (Some (lit ''abandoned running run flagged by watchdog'')) (Some now)"
  let ?T = "\<lambda>now. updated_run RTimedOut None (Some (lit ''job_timeout'')) (Some (lit ''exceeded the job timeout'')) (Some now)"
  have mapped: "map (\<lambda>q. if rr_run_id q = rr_run_id r then f q else q) (run_table s) =
      map (\<lambda>q. if rr_run_id q = rr_run_id r then f r else q) (run_table s)" for f
    using same by (intro map_cong refl) auto
  consider (stale) "rr_run_id r \<notin> executing s" "sc_stale_after C < t - started"
    | (late) "rr_run_id r \<in> executing s" "sc_timeout C < t - started"
    | (fine) "rr_run_id r \<notin> executing s \<longrightarrow> \<not> sc_stale_after C < t - started"
        "rr_run_id r \<in> executing s \<longrightarrow> \<not> sc_timeout C < t - started" by blast
  then show ?thesis
  proof cases
    case stale
    obtain h where h: "update_status (rr_run_id r) RRecoveryRequired None (Some (lit ''process_interrupted''))
        (Some (lit ''abandoned running run flagged by watchdog'')) (Some (sc_iso C t)) s = (Inr (), set_history h s)"
        "calm_sched (set_history h s)"
        "run_rows h = map (\<lambda>q. if rr_run_id q = rr_run_id r then ?R (sc_iso C t) q else q) (run_table s)"
      by (rule calm_update [OF assms(1)])
    have "watch_run C t r s = (Inr (), set_history h s)"
      using stale st h(1) by (simp add: watch_run_def seq_def reading_def executing_def)
    moreover have "watched C t (executing s) r (?R (sc_iso C t) r)"
      using stale st assms(2) by (simp add: watched_def)
    ultimately show ?thesis
      using h(2,3) mapped [of "?R (sc_iso C t)"]
      by (intro exI [of _ "?R (sc_iso C t) r"] exI [of _ "sd_ticks s"] exI [of _ h]) simp
  next
    case late
    let ?s = "s\<lparr>sd_ticks := Suc (sd_ticks s)\<rparr>" and ?now = "sc_iso C (sc_clock C (sd_ticks s))"
    have "calm_sched ?s" using assms(1) by simp
    then obtain h where h: "update_status (rr_run_id r) RTimedOut None (Some (lit ''job_timeout''))
        (Some (lit ''exceeded the job timeout'')) (Some ?now) ?s = (Inr (), set_history h ?s)"
        "calm_sched (set_history h ?s)"
        "run_rows h = map (\<lambda>q. if rr_run_id q = rr_run_id r then ?T ?now q else q) (run_table ?s)"
      by (rule calm_update)
    have "watch_run C t r s = (Inr (), set_history h ?s)"
      using late st h(1) by (simp add: watch_run_def seq_def reading_def executing_def mark_timed_out_def Let_def
          now_iso_def read_clock_def ret_def)
    moreover have "watched C t (executing s) r (?T ?now r)"
      using late st assms(2) by (auto simp: watched_def)
    ultimately show ?thesis
      using h(2,3) mapped [of "?T ?now"]
      by (intro exI [of _ "?T ?now r"] exI [of _ "Suc (sd_ticks s)"] exI [of _ h]) simp
  next
    case fine
    have "watch_run C t r s = (Inr (), s)"
      using fine st
      by (cases "rr_run_id r \<in> executing s") (simp_all add: watch_run_def seq_def reading_def executing_def ret_def Let_def)
    moreover have "watched C t (executing s) r r" using fine st by (auto simp: watched_def Let_def)
    moreover have "map (\<lambda>q. if rr_run_id q = rr_run_id r then r else q) (run_table s) = run_table s"
      using same by (intro map_idI) auto
    ultimately show ?thesis
      using assms(1) h0
      by (intro exI [of _ r] exI [of _ "sd_ticks s"] exI [of _ h0]) (simp add: set_history_same run_table_def)
  qed
qed

lemma executing_simps [simp]:
  "executing (set_history h s) = executing s" "executing (s\<lparr>sd_ticks := n\<rparr>) = executing s"
  by (simp_all add: executing_def)

lemma watch_rows:
  assumes "calm_sched s" "distinct (map rr_run_id rs)"
    and "\<forall>r \<in> set rs. r \<in> set (run_table s) \<and> is_active r \<and> sc_parse C (rr_started_at r) \<noteq> None"
  shows "\<exists>n h. watch_runs C t rs s = (Inr (), set_history h (s\<lparr>sd_ticks := n\<rparr>)) \<and>
    list_all2 (\<lambda>r r'. if r \<in> set rs then watched C t (executing s) r r' else r' = r) (run_table s) (run_rows h)"
  using assms
proof (induction rs arbitrary: s)
  case Nil
  then obtain h where "sd_history s = Some h" by (auto simp: calm_sched_def)
  then show ?case
    by (intro exI [of _ "sd_ticks s"] exI [of _ h]) (simp add: ret_def set_history_same run_table_def list.rel_refl)
next
  case (Cons r rs)
  have r: "is_active r" "sc_parse C (rr_started_at r) \<noteq> None" "r \<in> set (run_table s)" using Cons.prems(3) by simp_all
  have keys: "distinct (map rr_run_id (run_table s))" using Cons.prems(1) by (simp add: calm_sched_def)
  obtain r' n h where w: "watched C t (executing s) r r'"
      "watch_run C t r s = (Inr (), set_history h (s\<lparr>sd_ticks := n\<rparr>))"
      "calm_sched (set_history h (s\<lparr>sd_ticks := n\<rparr>))"
      "run_rows h = map (\<lambda>q. if rr_run_id q = rr_run_id r then r' else q) (run_table s)"
    using watch_one [OF Cons.prems(1) r] by blast
  let ?s = "set_history h (s\<lparr>sd_ticks := n\<rparr>)"
  have other: "rr_run_id q \<noteq> rr_run_id r" if "q \<in> set rs" for q
    using Cons.prems(2) that by (metis distinct.simps(2) imageI list.map(2) list.set_map)
  have "q \<in> set (run_table ?s)" if "q \<in> set rs" for q
    using other [OF that] Cons.prems(3) that unfolding set_history_simps w(4) by (auto simp: image_iff)
  then obtain n' h' where IH: "watch_runs C t rs ?s = (Inr (), set_history h' (?s\<lparr>sd_ticks := n'\<rparr>))"
      "list_all2 (\<lambda>r r'. if r \<in> set rs then watched C t (executing ?s) r r' else r' = r) (run_table ?s) (run_rows h')"
    using Cons.IH [of ?s] w(3) Cons.prems(2,3) by auto
  have run: "watch_runs C t (r # rs) s = (Inr (), set_history h' (s\<lparr>sd_ticks := n'\<rparr>))"
    using w(2) IH(1) by (simp add: seq_def set_history_def)
  have "list_all2 (\<lambda>q q'. if q \<in> set (r # rs) then watched C t (executing s) q q' else q' = q)
      (run_table s) (run_rows h')"
    unfolding list_all2_conv_all_nth
  proof (intro conjI allI impI)
    show len: "length (run_table s) = length (run_rows h')"
      using IH(2) w(4) by (simp add: list_all2_conv_all_nth)
    fix k assume k: "k < length (run_table s)"
    let ?q = "run_table s ! k"
    have q: "?q \<in> set (run_table s)" using k by simp
    have row: "run_rows h ! k = (if rr_run_id ?q = rr_run_id r then r' else ?q)" using k by (simp add: w(4))
    have step: "if run_rows h ! k \<in> set rs then watched C t (executing s) (run_rows h ! k) (run_rows h' ! k)
        else run_rows h' ! k = run_rows h ! k"
      using list_all2_nthD [OF IH(2)] k w(4) by (simp only: set_history_simps executing_simps length_map)
    show "if ?q \<in> set (r # rs) then watched C t (executing s) ?q (run_rows h' ! k) else run_rows h' ! k = ?q"
    proof (cases "rr_run_id ?q = rr_run_id r")
      case True
      then have "?q = r" using distinct_key_unique [OF keys q r(3)] by simp
      moreover have "r' \<notin> set rs" using watched_id [OF w(1)] other by fastforce
      ultimately show ?thesis using step row w(1) by simp
    next
      case False
      then have "?q \<noteq> r" by auto
      with False step row show ?thesis by auto
    qed
  qed
  with run show ?case by blast
qed

lemma watchdog_exact:
  assumes "calm_sched s" "\<forall>r \<in> set (run_table s). is_active r \<longrightarrow> sc_parse C (rr_started_at r) \<noteq> None"
  shows "\<exists>s'. watchdog_pass C s = (Inr (), s') \<and> sd_active s' = sd_active s \<and>
    list_all2 (watched C (sc_clock C (sd_ticks s)) (executing s)) (run_table s) (run_table s')"
proof -
  let ?t = "sc_clock C (sd_ticks s)" and ?s = "s\<lparr>sd_ticks := Suc (sd_ticks s)\<rparr>"
  let ?rs = "runs_in_status ACTIVE_RUN_STATUSES (run_table s)"
  have rs: "set ?rs = {r \<in> set (run_table s). is_active r}" by (auto simp: runs_in_status_def is_active_def)
  have keys: "distinct (map rr_run_id (run_table s))" using assms(1) by (simp add: calm_sched_def)
  have "distinct (map rr_run_id ?rs)"
    using keys unfolding runs_in_status_def
    by (simp add: distinct_map inj_on_def)
  moreover have "calm_sched ?s" using assms(1) by simp
  ultimately obtain n h where w: "watch_runs C ?t ?rs ?s = (Inr (), set_history h (?s\<lparr>sd_ticks := n\<rparr>))"
      "list_all2 (\<lambda>r r'. if r \<in> set ?rs then watched C ?t (executing ?s) r r' else r' = r) (run_table ?s) (run_rows h)"
    using watch_rows [of ?s ?rs C ?t] assms(2) rs by auto
  obtain h0 where h0: "sd_history s = Some h0" "working h0" using assms(1) by (auto simp: calm_sched_def)
  have "runs_call (h_runs_with_status ACTIVE_RUN_STATUSES) [] ?s = (Inr ?rs, ?s)"
  proof -
    have "h_runs_with_status ACTIVE_RUN_STATUSES h0 = (Inr ?rs, h0)"
      using working_runs [OF h0(2)] h0(1) by (simp add: ACTIVE_RUN_STATUSES_def run_table_def)
    moreover have "sd_history ?s = Some h0" using h0(1) by (simp add: sd_history_def)
    ultimately show ?thesis using runs_call_Some set_history_same by metis
  qed
  then have "watchdog_pass C s = (Inr (), set_history h (?s\<lparr>sd_ticks := n\<rparr>))"
    using w(1) h0(1) by (simp add: watchdog_pass_def seq_def reading_def read_clock_def)
  moreover have "list_all2 (watched C ?t (executing s)) (run_table s) (run_rows h)"
    by (rule list.rel_mono_strong [OF w(2) [unfolded table_simps executing_simps]])
      (use watched_idle rs in \<open>auto split: if_splits\<close>)
  ultimately show ?thesis by auto
qed

end
