(* ===== verification/SchedulerVault.thy ===== *)
theory SchedulerVault imports Scheduler FileTransactions begin

text \<open>
  The scheduler and the vault: its own bookkeeping never touches the vault, and a run that does not
  want Level 2 only plans.
\<close>

section \<open>Bookkeeping\<close>

definition vault_is :: "('w \<Rightarrow> bool) \<Rightarrow> 'w sched \<Rightarrow> bool" where
  "vault_is P s \<longleftrightarrow> P (rs_vault (ag_rec (sd_agents s)))"

lemma vault_is_simps [simp]:
  "vault_is P (s\<lparr>sd_ticks := n\<rparr>) = vault_is P s" "vault_is P (s\<lparr>sd_uuids := n\<rparr>) = vault_is P s"
  "vault_is P (s\<lparr>sd_active := a\<rparr>) = vault_is P s" "vault_is P (s\<lparr>sd_last_cleanup := l\<rparr>) = vault_is P s"
  "vault_is P (s\<lparr>sd_agents := x\<rparr>) = P (rs_vault (ag_rec x))"
  by (simp_all add: vault_is_def)

lemma vault_is_modify: "(\<And>s. vault_is P (f s) = vault_is P s) \<Longrightarrow> keeps (vault_is P) (modify f)"
  by (simp add: keeps_def modify_def)

lemma runs_call_vault: "keeps (vault_is P) (runs_call m d)"
  unfolding keeps_def
proof (intro allI impI)
  fix s :: "'a sched"
  assume v: "vault_is P s"
  obtain q r where m: "on_history m d (ag_rec (sd_agents s)) = (q, r)" by fastforce
  have "rs_vault r = rs_vault (ag_rec (sd_agents s))"
    using keepsD [OF keeps_vault_history refl m] .
  then show "vault_is P (snd (runs_call m d s))"
    using v m by (cases q) (simp_all add: runs_call_def on_recovery_def vault_is_def)
qed

lemma on_agents_vault:
  "keeps (\<lambda>a. P (rs_vault (ag_rec a))) m \<Longrightarrow> keeps (vault_is P) (on_agents m)"
  by (auto simp: keeps_def on_agents_def vault_is_def split: prod.split)

lemma clock_vault: "keeps (vault_is P) (read_clock C)" "keeps (vault_is P) (now_iso C)"
  "keeps (vault_is P) (fresh_uuid C)"
  by (simp_all add: keeps_def read_clock_def now_iso_def fresh_uuid_def seq_def ret_def)

lemma reading_keeps: "keeps Q (reading f)"
  by (simp add: keeps_def reading_def)

lemmas vault_keeps = keeps_seq keeps_if keeps_ret keeps_raise keeps_lift keeps_try keeps_try_else
  keeps_case_option reading_keeps runs_call_vault clock_vault

lemma rows_vault:
  "keeps (vault_is P) (get_run i)" "keeps (vault_is P) (save_run row)"
  "keeps (vault_is P) (update_status i st j e m f)" "keeps (vault_is P) (write_skip C task trig code msg slot)"
  "keeps (vault_is P) (last_run task)"
  unfolding get_run_def save_run_def update_status_def write_skip_def last_run_def case_prod_beta
  by (intro vault_keeps)+

lemma gate_vault: "keeps (vault_is P) (run_gate C task trig bypass now slot newest)"
  unfolding run_gate_def by (intro vault_keeps rows_vault)

lemma begin_vault: "keeps (vault_is P) (begin_run C task trig slot bypass)"
  unfolding begin_run_def begin_run_unlocked_def Let_def
  by (intro vault_keeps rows_vault gate_vault vault_is_modify vault_is_simps)

lemma finalize_vault: "keeps (vault_is P) (finalize C i oc)"
  unfolding finalize_def by (intro vault_keeps rows_vault)

lemma cleanup_vault: "keeps (vault_is P) (run_if_due C)"
proof -
  have "keeps (vault_is P) (seq (try_else (runs_call m d) (\<lambda>e. ret ()) (\<lambda>_. ret ()))
      (\<lambda>_. modify (\<lambda>s. s\<lparr>sd_last_cleanup := Some now\<rparr>)))" for m :: "cleanup_result hist_act" and d now
    by (intro vault_keeps vault_is_modify vault_is_simps)
  then have "keeps (vault_is P) (run_cleanup C now)" for now
    by (auto simp: keeps_def run_cleanup_def ret_def split: option.split)
  then show ?thesis unfolding run_if_due_def by (intro vault_keeps)
qed

section \<open>Runs\<close>

lemma pipeline_vault:
  assumes "keeps (vault_is P) (arun C V I task body)"
  shows "keeps (vault_is P) (pipeline C V I i task body)"
  unfolding pipeline_def
  by (intro assms vault_keeps finalize_vault cleanup_vault vault_is_modify vault_is_simps)

lemma run_task_vault:
  assumes "keeps (vault_is P) (arun C V I task (manual_body body))"
  shows "keeps (vault_is P) (run_task C V I task body bypass)"
  unfolding run_task_def response_def
  by (intro vault_keeps rows_vault begin_vault pipeline_vault assms)

lemma level1_vault:
  assumes "\<not> wants_level2 C (rb_auto body)"
    and "\<And>now j request. \<not> jr_execute request \<Longrightarrow>
      keeps (\<lambda>a. P (rs_vault (ag_rec a))) (plan (sc_agent C) V (ri_planner I) now j request)"
  shows "keeps (vault_is P) (arun C V I task body)"
  unfolding arun_def run_agent_task_def Let_def case_prod_beta
  by (auto intro!: vault_keeps on_agents_vault assms simp: assms(1) task_request_def)

section \<open>Automatic execution\<close>

text \<open>The actions the planner answered with.\<close>

definition planned_by :: "run_inputs \<Rightarrow> action list" where
  "planned_by I = (case ri_planner I of Inl e \<Rightarrow> [] | Inr (acts, model, version) \<Rightarrow> acts)"

text \<open>All of them are tag edits the server allows.\<close>

definition tag_edits :: "sched_cfg \<Rightarrow> action list \<Rightarrow> bool" where
  "tag_edits C acts \<longleftrightarrow> acts \<noteq> [] \<and>
     (\<forall>a \<in> set acts. act_kind a \<in> {ADD_TAGS, REMOVE_TAGS} \<inter> set (sc_level2_actions C))"

lemma stamp_simps [simp]:
  "act_kind (stamp l a) = act_kind a" "act_file (stamp l a) = act_file a"
  "act_target_file (stamp l a) = act_target_file a"
  by (simp_all add: stamp_def)

lemma action_value_eq: "action_value k = action_value k' \<longleftrightarrow> k = k'"
  using load_kind_value [of k] load_kind_value [of k'] by (metis sum.inject(2))

lemma action_kind_dump: "action_kind (dump_action a) = action_value (act_kind a)"
  by (simp add: action_kind_def dump_action_def json_get_def)

lemma whitelist_tags:
  assumes "whitelist_ok C detail" "dt_proposed_actions detail = map dump_action (map (stamp l) acts)"
  shows "tag_edits C acts"
  using assms
  by (auto simp: whitelist_ok_def Let_def tag_edits_def tag_only_def list_all_iff action_kind_dump
      action_value_eq image_iff)

lemma load_fields:
  assumes "load_action L fresh (dump_action b) = Inr c"
  shows "act_kind c = act_kind b \<and> act_file c = act_file b \<and> act_target_file c = act_target_file b"
  using assms raw_dump [of b fresh]
  by (cases "is_uuid (act_id b)")
    (auto simp: load_action_def parse_action_def rbind_eq_Inr raw_action_def dump_action_def check_def
      split: if_splits)

lemma loaded_fields:
  assumes "rmap (load_action L fresh) (map dump_action bs) = Inr cs"
  shows "list_all2 (\<lambda>b c. act_kind c = act_kind b \<and> act_file c = act_file b \<and>
    act_target_file c = act_target_file b) bs cs"
  using assms by (induction bs arbitrary: cs) (auto simp: rbind_eq_Inr dest: load_fields)

lemma h_save_answer: "fst (h_save r h) = Inr x \<Longrightarrow> x = r"
  by (auto simp: h_save_def seq_def mirror_def split: prod.splits sum.splits)

lemma hist_save_answer: "hist (h_save r) r s = (Inr x, s') \<Longrightarrow> x = r"
proof (cases "rs_history (ag_rec s)")
  case (Some h)
  moreover assume "hist (h_save r) r s = (Inr x, s')"
  ultimately have "fst (h_save r h) = Inr x"
    by (auto simp: hist_def on_rec_def on_history_def split: prod.splits sum.splits)
  then show ?thesis by (rule h_save_answer)
qed (auto simp: hist_def on_rec_def on_history_def)

text \<open>A plan that is not executed at once puts its job into the cache.\<close>

lemma plan_caches:
  assumes run: "plan C V planner now j request s = (Inr (detail, view), s')" and "\<not> jr_execute request"
  shows "\<exists>r actions m v. planned_actions C planner request = Inr (actions, m, v) \<and>
    ag_jobs s' (dt_job_id detail) = Some (r, view) \<and> dt_proposed_actions detail = hr_proposed_actions r \<and>
    hr_proposed_actions r = map dump_action actions"
proof -
  obtain actions m v pf r s1 s2 where p: "planned_actions C planner request = Inr (actions, m, v)"
      "r = job_record j now request actions pf AWAITING_CONFIRMATION (jr_level request) m v"
      "hist (h_save r) r s1 = (Inr r, s2)"
      "\<exists>view'. seq (cache j r view') (\<lambda>_. detail_view j) s2 = (Inr (detail, view), s')"
    using run assms(2)
    by (auto simp: plan_def seq_eq_Inr lift_def Let_def raise_def seq_eq_Inl split: prod.splits if_splits sum.splits
        dest: hist_save_answer)
      (metis hist_save_answer)+
  then have "detail = detail_dto r" "ag_jobs s' j = Some (r, view)"
    by (auto simp: seq_eq_Inr cache_def detail_view_def)
  with p(1,2) show ?thesis
    by (intro exI [of _ r] exI [of _ actions] exI [of _ m] exI [of _ v]) (simp add: detail_dto_def job_record_def)
qed

text \<open>What a run may do to a vault whose files were \<open>t\<close>: edit the files the tag actions name.\<close>

definition tag_edited :: "pylib \<Rightarrow> vault_cfg \<Rightarrow> sched_cfg \<Rightarrow> bool option \<Rightarrow> tree \<Rightarrow> action list \<Rightarrow> world \<Rightarrow> bool" where
  "tag_edited L V C auto t acts w \<longleftrightarrow> w_tree w = t \<or> wants_level2 C auto \<and> tag_edits C acts \<and>
     same_but (act_file ` set acts) (vault_look L V t) (vault_look L V (w_tree w))"

lemma mutated_tags:
  assumes "list_all2 (\<lambda>b c. act_kind c = act_kind b \<and> act_file c = act_file b \<and>
      act_target_file c = act_target_file b) (map (stamp l) acts) cs" "tag_edits C acts"
  shows "set (concat (map mutated_paths cs)) = act_file ` set acts"
proof -
  have "act_kind (acts ! i) \<noteq> MOVE_NOTE" if "i < length acts" for i
    using assms(2) nth_mem [OF that] by (auto simp: tag_edits_def)
  with assms(1) have "list_all2 (\<lambda>a c. mutated_paths c = [act_file a]) acts cs"
    by (auto simp: list_all2_conv_all_nth mutated_paths_def)
  then show ?thesis by (induction acts cs rule: list_all2_induct) auto
qed

lemma usable_loaded:
  assumes "list_all2 (\<lambda>b c. act_kind c = act_kind b \<and> act_file c = act_file b \<and>
      act_target_file c = act_target_file b) (map (stamp l) acts) cs" "list_all (usable_action usable) acts"
  shows "list_all (usable_action usable) cs"
  using assms by (auto simp: list_all2_conv_all_nth list_all_length usable_action_def)

lemma accept_tags:
  assumes run: "accept C (vault_ops_of L V) now j \<lparr>ar_action_ids = [], ar_confirm = True\<rparr> s = (res, s')"
    and vault: "vault_ok L V (rs_vault (ag_rec s))" "ag_lib C = L"
    and job: "ag_jobs s j = Some (r, view)" "hr_proposed_actions r = map dump_action (map (stamp l) acts)"
    and acts: "tag_edits S acts" "list_all (usable_action usable_path) acts"
  shows "w_tree (rs_vault (ag_rec s')) = w_tree (rs_vault (ag_rec s)) \<or>
    same_but (act_file ` set acts) (vault_look L V (w_tree (rs_vault (ag_rec s))))
      (vault_look L V (w_tree (rs_vault (ag_rec s'))))"
proof -
  have load: "load_job j s = (Inr (r, view), s)" using job(1) by (simp add: load_job_def)
  have lock: "execute_locked C (vault_ops_of L V) now j [] s = (res, s')"
    using run by (simp add: accept_def)
  show ?thesis
  proof (cases "actions_from_record L r")
    case (Inl e)
    then show ?thesis
      using lock load vault(2) by (auto simp: execute_locked_def seq_def lift_def raise_def split: if_splits)
  next
    case (Inr cs)
    then have "rmap (load_action L []) (map dump_action (map (stamp l) acts)) = Inr cs"
      using job(2) by (auto simp: actions_from_record_def split: sum.splits)
    note fields = loaded_fields [OF this]
    note safe = file_transactions.execute_locked_safe [OF lock vault(2,1) load Inr usable_loaded [OF fields acts(2)]]
    show ?thesis
    proof (cases "file_transactions.unapplied L V (w_tree (rs_vault (ag_rec s))) s'")
      case False
      with safe obtain ops where ops:
          "list_all2 (file_transactions.planned_for L V (w_tree (rs_vault (ag_rec s)))) cs ops"
          "file_transactions.steps L V (somes ops) (w_tree (rs_vault (ag_rec s))) (w_tree (rs_vault (ag_rec s')))"
        unfolding file_transactions.applied_def by (auto simp: select_actions_def)
      have "set (concat (map op_paths (somes ops))) \<subseteq> act_file ` set acts"
        using file_transactions.operations_plan [OF ops(1)] mutated_tags [OF fields acts(1)] by blast
      with same_but_mono [OF file_transactions.steps_frame [OF ops(2)]] show ?thesis by blast
    qed (simp add: file_transactions.unapplied_def)
  qed
qed

lemma hoare_on_agents:
  assumes "\<And>s r a. P s \<Longrightarrow> m (sd_agents s) = (r, a) \<Longrightarrow> Q (s\<lparr>sd_agents := a\<rparr>)"
  shows "hoare P (on_agents m) (\<lambda>_. Q) (\<lambda>_. Q)"
  by (rule hoareI) (auto simp: on_agents_def split: prod.splits intro: assms)

text \<open>The job in the cache holds the planned actions.\<close>

definition job_planned :: "pylib \<Rightarrow> vault_cfg \<Rightarrow> tree \<Rightarrow> action list \<Rightarrow> int \<Rightarrow> pystr \<Rightarrow> world sched \<Rightarrow> bool" where
  "job_planned L V t acts l j s \<longleftrightarrow> vault_is (\<lambda>w. vault_ok L V w \<and> w_tree w = t) s \<and>
     (\<exists>r view. ag_jobs (sd_agents s) j = Some (r, view) \<and>
        hr_proposed_actions r = map dump_action (map (stamp l) acts))"

lemma accept_run:
  assumes L: "ag_lib (sc_agent C) = L" and acts: "tag_edits C acts" "list_all (usable_action usable_path) acts"
    and wants: "wants_level2 C auto"
  shows "hoare (job_planned L V t acts l j) (auto_accept C (vault_ops_of L V) j)
    (\<lambda>_. vault_is (tag_edited L V C auto t acts)) (\<lambda>_. vault_is (tag_edited L V C auto t acts))"
proof -
  let ?Q = "vault_is (tag_edited L V C auto t acts)"
  have clock: "hoare (job_planned L V t acts l j) (now_iso C) (\<lambda>_. job_planned L V t acts l j) (\<lambda>_. ?Q)"
    by (simp add: hoare_def now_iso_def read_clock_def seq_def ret_def job_planned_def)
  have call: "hoare (job_planned L V t acts l j) (on_agents (accept (sc_agent C) (vault_ops_of L V) now j
      \<lparr>ar_action_ids = [], ar_confirm = True\<rparr>)) (\<lambda>_. ?Q) (\<lambda>_. ?Q)" for now
  proof (rule hoare_on_agents)
    fix s res a
    assume s: "job_planned L V t acts l j s"
      and run: "accept (sc_agent C) (vault_ops_of L V) now j \<lparr>ar_action_ids = [], ar_confirm = True\<rparr> (sd_agents s) = (res, a)"
    obtain r view where job: "ag_jobs (sd_agents s) j = Some (r, view)"
        "hr_proposed_actions r = map dump_action (map (stamp l) acts)" using s by (auto simp: job_planned_def)
    have v: "vault_ok L V (rs_vault (ag_rec (sd_agents s)))" "w_tree (rs_vault (ag_rec (sd_agents s))) = t"
      using s by (simp_all add: job_planned_def vault_is_def)
    show "?Q (s\<lparr>sd_agents := a\<rparr>)"
      using accept_tags [OF run v(1) L job acts] v(2) wants acts(1) by (auto simp: tag_edited_def)
  qed
  show ?thesis
    unfolding auto_accept_def
    by (rule hoare_seq [OF clock], rule hoare_else [OF call]) (simp_all add: hoare_ret)
qed

text \<open>What planning leaves behind.\<close>

lemma plan_run:
  assumes "planned_by I = acts" "\<not> jr_execute request" "jr_actions request = []"
  shows "hoare (vault_is (\<lambda>w. vault_ok L V w \<and> w_tree w = t))
    (on_agents (plan (sc_agent C) (vault_ops_of L V) (ri_planner I) now j request))
    (\<lambda>(detail, view). job_planned L V t acts (jr_level request) (dt_job_id detail))
    (\<lambda>_. vault_is (\<lambda>w. w_tree w = t))" (is "hoare ?P ?m ?R ?E")
    and "on_agents (plan (sc_agent C) (vault_ops_of L V) (ri_planner I) now j request) s = (Inr (detail, view), s') \<Longrightarrow>
      dt_proposed_actions detail = map dump_action (map (stamp (jr_level request)) acts)"
proof -
  have planned: "map (stamp (jr_level request)) acts = actions"
    if "planned_actions C' (ri_planner I) request = Inr (actions, m, v)" for C' actions m v
    using that assms(1,3)
    by (auto simp: planned_actions_def planned_by_def rbind_eq_Inr split: if_splits prod.splits)
  have looks: "w_tree (rs_vault (ag_rec a)) = t \<and> vault_ok L V (rs_vault (ag_rec a))"
    if "?P s" "plan (sc_agent C) (vault_ops_of L V) (ri_planner I) now j request (sd_agents s) = (res, a)" for s res a
  proof -
    have "file_transactions.unapplied L V t a"
      by (rule keepsD [OF file_transactions.plan_looks [OF assms(2)] _ that(2)])
        (use that(1) in \<open>simp add: vault_is_def file_transactions.unapplied_def\<close>)
    then show ?thesis by (simp add: file_transactions.unapplied_def)
  qed
  show "hoare ?P ?m ?R ?E"
  proof (rule hoareI)
    fix s x s'
    assume s: "?P s" and "?m s = (Inr x, s')"
    then obtain detail view a where run: "x = (detail, view)" "s' = s\<lparr>sd_agents := a\<rparr>"
        "plan (sc_agent C) (vault_ops_of L V) (ri_planner I) now j request (sd_agents s) = (Inr (detail, view), a)"
      by (cases x) (auto simp: on_agents_def split: prod.splits)
    obtain r actions m v where p: "planned_actions (sc_agent C) (ri_planner I) request = Inr (actions, m, v)"
        "ag_jobs a (dt_job_id detail) = Some (r, view)" "hr_proposed_actions r = map dump_action actions"
      using plan_caches [OF run(3) assms(2)] by blast
    show "?R x s'"
      using looks [OF s run(3)] p(2,3) unfolding planned [OF p(1), symmetric]
      by (simp add: run(1,2) job_planned_def)
  next
    fix s e s'
    assume s: "?P s" and "?m s = (Inl e, s')"
    then show "?E e s'" using looks [OF s] by (auto simp: on_agents_def split: prod.splits)
  qed
  show "dt_proposed_actions detail = map dump_action (map (stamp (jr_level request)) acts)"
    if "on_agents (plan (sc_agent C) (vault_ops_of L V) (ri_planner I) now j request) s = (Inr (detail, view), s')"
  proof -
    from that obtain a where "plan (sc_agent C) (vault_ops_of L V) (ri_planner I) now j request (sd_agents s) =
        (Inr (detail, view), a)" by (auto simp: on_agents_def split: prod.splits)
    from plan_caches [OF this assms(2)] obtain actions m v where
      "planned_actions (sc_agent C) (ri_planner I) request = Inr (actions, m, v)"
      "dt_proposed_actions detail = map dump_action actions" by fastforce
    with planned show ?thesis by metis
  qed
qed

lemma arun_tags:
  assumes L: "ag_lib (sc_agent C) = L" and acts: "list_all (usable_action usable_path) (planned_by I)"
  shows "hoare (vault_is (\<lambda>w. vault_ok L V w \<and> w_tree w = t)) (arun C (vault_ops_of L V) I task body)
    (\<lambda>_. vault_is (tag_edited L V C (rb_auto body) t (planned_by I)))
    (\<lambda>_. vault_is (tag_edited L V C (rb_auto body) t (planned_by I)))"
    (is "hoare ?P _ (\<lambda>_. ?Q) (\<lambda>_. ?Q)")
proof -
  let ?request = "task_request C task (rb_scope body) (rb_auto body)"
  let ?plan = "\<lambda>now j. on_agents (plan (sc_agent C) (vault_ops_of L V) (ri_planner I) now j ?request)"
  let ?acts = "planned_by I"
  let ?edit = "map dump_action (map (stamp (jr_level ?request)) ?acts)"
  have same: "?P s \<Longrightarrow> ?Q s" "vault_is (\<lambda>w. w_tree w = t) s \<Longrightarrow> ?Q s"
    "job_planned L V t ?acts l j s \<Longrightarrow> ?Q s" for s l j
    by (simp_all add: vault_is_def tag_edited_def job_planned_def)
  have clock: "hoare ?P (now_iso C) (\<lambda>_. ?P) (\<lambda>_. ?Q)" "hoare ?P (fresh_uuid C) (\<lambda>_. ?P) (\<lambda>_. ?Q)"
    using clock_vault(2,3) [of _ C] by (auto simp: hoare_keeps intro: hoare_weaken same(1))
  have request: "\<not> jr_execute ?request" "jr_actions ?request = []" by (simp_all add: task_request_def)
  have planned: "hoare ?P (?plan now j) (\<lambda>x s. dt_proposed_actions (fst x) = ?edit \<and>
      job_planned L V t ?acts (jr_level ?request) (dt_job_id (fst x)) s) (\<lambda>_. ?Q)" for now j
  proof (rule hoareI)
    fix s x s'
    assume s: "?P s" and run: "?plan now j s = (Inr x, s')"
    obtain detail view where x: "x = (detail, view)" by fastforce
    from hoareD_Inr [OF plan_run(1) [OF refl request] s run] plan_run(2) [OF refl request run [unfolded x]]
    show "dt_proposed_actions (fst x) = ?edit \<and>
        job_planned L V t ?acts (jr_level ?request) (dt_job_id (fst x)) s'"
      by (simp add: x)
  next
    fix s e s'
    assume "?P s" "?plan now j s = (Inl e, s')"
    then show "?Q s'" by (intro same(2)) (rule hoareD_Inl [OF plan_run(1) [OF refl request]])
  qed
  have step: "hoare (\<lambda>s. dt_proposed_actions detail = ?edit \<and>
      job_planned L V t ?acts (jr_level ?request) (dt_job_id detail) s)
    (if \<not> wants_level2 C (rb_auto body) then ret oc1
     else if map_option ps_decision view \<noteq> Some ALLOW then ret oc2
     else if \<not> whitelist_ok C detail then ret oc3 else auto_accept C (vault_ops_of L V) (dt_job_id detail))
    (\<lambda>_. ?Q) (\<lambda>_. ?Q)" for detail view oc1 oc2 oc3
  proof (intro hoare_if)
    assume w: "\<not> \<not> wants_level2 C (rb_auto body)" "\<not> \<not> whitelist_ok C detail"
    show "hoare (\<lambda>s. dt_proposed_actions detail = ?edit \<and>
      job_planned L V t ?acts (jr_level ?request) (dt_job_id detail) s)
      (auto_accept C (vault_ops_of L V) (dt_job_id detail)) (\<lambda>_. ?Q) (\<lambda>_. ?Q)"
      using w by (intro hoare_known hoare_pre [OF accept_run [OF L _ acts]])
        (auto intro: whitelist_tags)
  qed (auto intro!: hoare_ret same(3))
  have "hoare ?P (run_agent_task C (vault_ops_of L V) (ri_planner I) task (rb_scope body) (rb_auto body))
      (\<lambda>_. ?Q) (\<lambda>_. ?Q)"
    unfolding run_agent_task_def Let_def case_prod_beta
    by (rule hoare_if, (rule hoare_ret, erule same(1)), rule hoare_seq [OF clock(1)], rule hoare_seq [OF clock(2)],
        rule hoare_else [OF planned], (rule hoare_ret, assumption), rule step)
  then show ?thesis
    unfolding arun_def by (intro hoare_if hoare_ret same(1))
qed

lemma pipeline_tags:
  assumes "ag_lib (sc_agent C) = L" "list_all (usable_action usable_path) (planned_by I)"
    and "vault_ok L V (rs_vault (ag_rec (sd_agents s)))"
    and "pipeline C (vault_ops_of L V) I i task body s = (res, s')"
  shows "tag_edited L V C (rb_auto body) (w_tree (rs_vault (ag_rec (sd_agents s)))) (planned_by I)
    (rs_vault (ag_rec (sd_agents s')))"
proof -
  let ?t = "w_tree (rs_vault (ag_rec (sd_agents s)))"
  let ?Q = "vault_is (tag_edited L V C (rb_auto body) ?t (planned_by I))"
  have body: "hoare (vault_is (\<lambda>w. vault_ok L V w \<and> w_tree w = ?t))
      (try_except (arun C (vault_ops_of L V) I task body) (\<lambda>e. ret (failed_outcome None c m))) (\<lambda>_. ?Q) (\<lambda>_. ?Q)" for c m
    by (rule hoare_try [OF arun_tags [OF assms(1,2)]]) (simp add: hoare_ret)
  have rest: "keeps ?Q (seq (finalize C i oc) (\<lambda>_.
      seq (modify (\<lambda>s. s\<lparr>sd_active := filter (\<lambda>a. fst a \<noteq> i) (sd_active s)\<rparr>)) (\<lambda>_.
      seq (try_except (run_if_due C) (\<lambda>e. ret ())) (\<lambda>_. ret oc))))" for oc
    by (intro vault_keeps finalize_vault cleanup_vault vault_is_modify vault_is_simps)
  have "hoare (vault_is (\<lambda>w. vault_ok L V w \<and> w_tree w = ?t)) (pipeline C (vault_ops_of L V) I i task body)
      (\<lambda>_. ?Q) (\<lambda>_. ?Q)"
    unfolding pipeline_def by (rule hoare_seq [OF body rest [unfolded hoare_keeps]])
  then have "?Q s'"
    using assms(3,4) by (cases res) (auto simp: vault_is_def hoare_def split: sum.splits prod.splits)
  then show ?thesis by (simp add: vault_is_def)
qed

end
