(* ===== verification/SchedulerProperties.thy ===== *)
theory SchedulerProperties imports SchedulerExact SchedulerVault AgentProperties begin

text \<open>
  What the scheduler promises: recorded runs are never opened again, an active run keeps its task
  from being started once, shutdown and watchdog flag what they should, and a run changes the vault
  only by tag edits it was allowed to make.
\<close>

section \<open>A small scheduler\<close>

text \<open>A clock that moves on by a second with every reading, on one morning.\<close>

definition demo_iso :: "int \<Rightarrow> pystr" where
  "demo_iso t = lit ''2026-10-13T09:00:0'' @ [48 + nat (t div 1000000)]"

definition demo_parse :: "pystr \<Rightarrow> int option" where
  "demo_parse s = (if length s = 19 then Some ((int (last s) - 48) * 1000000) else None)"

definition demo_scheduler :: sched_cfg where
  "demo_scheduler = \<lparr>sc_enabled = True, sc_timeout = 600000000, sc_stale_after = 3600000000, sc_level2 = True,
     sc_level2_actions = [ADD_TAGS], sc_default_scope = \<lparr>scope_paths = [], scope_max_files = 10, scope_max_chars = 60000\<rparr>,
     sc_has_agent = True, sc_has_recovery = True, sc_has_checker = True, sc_auto_rebuild = False,
     sc_agent = demo_cfg, sc_clock = (\<lambda>k. int k * 1000000), sc_uuid = (\<lambda>k. replicate (Suc k) 97),
     sc_iso = demo_iso, sc_parse = demo_parse, sc_text = (\<lambda>e. []), sc_cleanup_enabled = False,
     sc_cleanup_interval_hours = 24, sc_retention_days = 30, sc_max_runs = 100, sc_subtract_days = (\<lambda>t d. None)\<rparr>"

definition demo_active_run :: run_row where
  "demo_active_run = \<lparr>rr_run_id = lit ''r'', rr_task = DAILY, rr_trigger = SCHEDULED,
     rr_status = run_status_value RRunning, rr_idempotency_key = lit ''k'', rr_agent_job_id = None,
     rr_scheduled_for = None, rr_started_at = demo_iso 0, rr_finished_at = None, rr_error_code = None,
     rr_message = None, rr_created_at = Some (demo_iso 0)\<rparr>"

definition demo_sched :: "run_row list \<Rightarrow> world sched" where
  "demo_sched R = \<lparr>sd_agents = \<lparr>ag_rec = \<lparr>rs_vault = demo_world,
       rs_history = Some \<lparr>hs_repository = Some \<lparr>db_tables = \<lparr>t_jobs = [], t_journal = [], t_runs = R\<rparr>,
         db_faults = []\<rparr>, hs_records = [], hs_journal = (\<lambda>j. []), hs_runs = []\<rparr>,
       rs_journal = \<lparr>rj_job_id = [], rj_max_bytes = 0, rj_pending = [], rj_bytes = 0\<rparr>\<rparr>, ag_jobs = (\<lambda>j. None)\<rparr>,
     sd_started = True, sd_reconfiguring = False, sd_active = [(lit ''r'', DAILY)], sd_owners = [],
     sd_ticks = 1, sd_uuids = 0, sd_last_cleanup = None\<rparr>"

lemma demo_sched_simps [simp]:
  "run_table (demo_sched R) = R" "sd_ticks (demo_sched R) = 1" "sd_uuids (demo_sched R) = 0"
  "sd_started (demo_sched R)" "\<not> sd_reconfiguring (demo_sched R)"
  "sd_active (demo_sched R) = [(lit ''r'', DAILY)]" "rs_vault (ag_rec (sd_agents (demo_sched R))) = demo_world"
  by (simp_all add: demo_sched_def run_table_def sd_history_def run_rows_def)

lemma demo_calm: "distinct (map rr_run_id R) \<Longrightarrow> \<forall>r \<in> set R. rr_created_at r \<noteq> None \<Longrightarrow> calm_sched (demo_sched R)"
  by (simp add: calm_sched_def working_def) (simp add: demo_sched_def sd_history_def)

lemma demo_uuids: "inj (sc_uuid demo_scheduler)"
  by (rule injI) (simp add: demo_scheduler_def replicate_eq_replicate)

lemma demo_unused: "unused_ids demo_scheduler 0 [demo_active_run]"
  by (auto simp: unused_ids_def demo_scheduler_def demo_active_run_def)

lemma demo_fits: "iso_fits demo_scheduler"
  by (simp add: iso_fits_def demo_scheduler_def demo_iso_def)

lemma demo_ready: "ready_for demo_scheduler DAILY (demo_sched [demo_active_run])"
proof -
  have "sc_enabled demo_scheduler" "DAILY \<in> set DEFAULT_TASK_IDS" by code_simp+
  moreover have "calm_sched (demo_sched [demo_active_run])"
    by (rule demo_calm) (simp_all add: demo_active_run_def)
  ultimately show ?thesis
    by (simp add: ready_for_def demo_fits demo_uuids demo_unused)
qed

section \<open>Runs only close\<close>

text \<open>
  C20. A recorded run is never opened again. Whatever the server does to the scheduler, in any order and
  with any failures (triggers, manual runs, runs that finish late, timeouts, the watchdog, stopping,
  explicit recovery, the calls of the job service), a row that is still in the table describes the
  same run as before, and it is active only if it was.
\<close>

theorem runs_only_close:
  assumes "(sched_step C V)\<^sup>*\<^sup>* s s'" and "inj (sc_uuid C)"
    and "distinct (map rr_run_id (run_table s))" and "unused_ids C (sd_uuids s) (run_table s)"
  shows "evolved (run_table s) (run_table s')"
proof -
  have "evolved (run_table s) (run_table s)"
    using distinct_key_unique [OF assms(3)] by (auto simp: evolved_def same_run_def)
  then have "tracked C (run_table s) s"
    using assms(4) by (auto simp: tracked_def rows_ok_def unused_ids_def)
  from reachable_tracked [OF assms(1,2) this] show ?thesis by (simp add: tracked_def rows_ok_def)
qed

theorem runs_only_close_witness:
  "evolved [demo_active_run] (run_table (snd (stop_scheduler demo_scheduler
     (snd (on_trigger demo_scheduler DAILY (demo_sched [demo_active_run]))))))"
proof -
  have "(sched_step demo_scheduler demo_ops)\<^sup>*\<^sup>* (demo_sched [demo_active_run]) (snd (stop_scheduler demo_scheduler
     (snd (on_trigger demo_scheduler DAILY (demo_sched [demo_active_run])))))"
    by (rule rtranclp.rtrancl_into_rtrancl, rule r_into_rtranclp, rule sched_step.trigger, rule sched_step.stop)
  from runs_only_close [OF this demo_uuids] demo_unused show ?thesis by simp
qed

section \<open>Overlapping runs\<close>

text \<open>
  C21. An active run keeps only one trigger away. The first trigger during a run that is neither stale nor
  finished is recorded as skipped and starts nothing. But the skipped row is then the newest row of the
  task, and the gate looks at the newest row only: the second trigger starts another run of the same
  task while the first is still active.
\<close>

theorem second_trigger_overlaps:
  assumes "ready_for C task s" and "newest_run task (run_table s) = Some r" and "is_active r"
    and "blocking C (sc_clock C (Suc (sd_ticks s))) r"
    and "\<forall>q \<in> set (run_table s). rr_task q = task \<longrightarrow> rr_started_at q < sc_iso C (sc_clock C (Suc (Suc (sd_ticks s))))"
  shows "\<exists>s1 s2 skipped r2. on_trigger C task s = (Inr None, s1) \<and> run_table s1 = run_table s @ [skipped] \<and>
    rr_status skipped = run_status_value RSkippedDuplicate \<and> sd_active s1 = sd_active s \<and>
    on_trigger C task s1 = (Inr (Some (rr_run_id r2)), s2) \<and> {r, r2} \<subseteq> set (run_table s2) \<and>
    rr_run_id r2 \<notin> rr_run_id ` set (run_table s) \<and> rr_task r2 = rr_task r \<and> is_active r2"
proof -
  obtain s1 row k where one: "on_trigger C task s = (Inr None, s1)" "run_table s1 = run_table s @ [row]"
      "rr_status row = run_status_value RSkippedDuplicate" "rr_task row = task"
      "rr_started_at row = sc_iso C (sc_clock C k)" "k = (if is_active r then 2 else 1) + sd_ticks s"
      "sd_active s1 = sd_active s" "ready_for C task s1"
    by (rule busy_trigger [OF assms(1,2,4)])
  have task: "task \<in> set DEFAULT_TASK_IDS" using assms(1) by (simp add: ready_for_def)
  have t: "task \<noteq> []" using task_facts [OF task] by simp
  have "newest_run task (run_table s1) = Some row"
    unfolding one(2) by (rule newest_run_snoc [OF t one(4)]) (use assms(3,5) one(5,6) in simp)
  moreover have "\<not> is_active row" "rr_status row \<noteq> run_status_value RRecoveryRequired"
    using one(3) by (auto simp: is_active_def ACTIVE_RUN_STATUSES_def)
  ultimately have "idle (newest_run task (run_table s1))" by (simp add: idle_def)
  then obtain s2 where two: "on_trigger C task s1 = (Inr (Some (sc_uuid C (sd_uuids s1))), s2)"
      "run_table s2 = run_table s1 @ [started_row C task (sd_uuids s1) (sc_clock C (sd_ticks s1))]"
    by (rule idle_trigger [OF one(8)])
  let ?r2 = "started_row C task (sd_uuids s1) (sc_clock C (sd_ticks s1))"
  have "unused_ids C (sd_uuids s1) (run_table s1)" using one(8) by (simp add: ready_for_def)
  then have "rr_run_id ?r2 \<notin> rr_run_id ` set (run_table s)"
    using fresh_id one(2) by (fastforce simp: started_row_def new_run_def)
  moreover have "rr_task ?r2 = rr_task r" "is_active ?r2"
    using newest_run_mem [OF assms(2) t] by (simp_all add: started_row_def new_run_def is_active_def ACTIVE_RUN_STATUSES_def)
  moreover have "{r, ?r2} \<subseteq> set (run_table s2)"
    using newest_run_mem [OF assms(2) t] one(2) two(2) by simp
  moreover have "rr_run_id ?r2 = sc_uuid C (sd_uuids s1)" by (simp add: started_row_def new_run_def)
  ultimately show ?thesis using one(1,2,3,7) two(1) by (metis (full_types))
qed

text \<open>The daily run is still going on; a scheduled trigger comes twice.\<close>

theorem second_trigger_overlaps_witness:
  "\<exists>s1 s2 i r2. on_trigger demo_scheduler DAILY (demo_sched [demo_active_run]) = (Inr None, s1) \<and>
     on_trigger demo_scheduler DAILY s1 = (Inr (Some i), s2) \<and>
     {demo_active_run, r2} \<subseteq> set (run_table s2) \<and> rr_run_id r2 \<noteq> rr_run_id demo_active_run \<and> is_active r2"
proof -
  have "newest_run DAILY [demo_active_run] = Some demo_active_run" by code_simp
  moreover have "is_active demo_active_run" by code_simp
  moreover have "sc_parse demo_scheduler (rr_started_at demo_active_run) = Some 0"
    "rr_started_at demo_active_run \<noteq> []" "sc_clock demo_scheduler 2 \<le> sc_stale_after demo_scheduler" by code_simp+
  then have "blocking demo_scheduler (sc_clock demo_scheduler (Suc (sd_ticks (demo_sched [demo_active_run]))))
      demo_active_run"
    using \<open>is_active demo_active_run\<close> by (simp add: blocking_def numeral_2_eq_2)
  moreover have "rr_started_at demo_active_run < sc_iso demo_scheduler (sc_clock demo_scheduler 3)" by code_simp
  ultimately show ?thesis
    using second_trigger_overlaps [OF demo_ready, of demo_active_run] by (auto simp: numeral_3_eq_3)
qed

section \<open>Shutdown and watchdog\<close>

text \<open>
  Stopping the scheduler leaves no run it was executing active: every such row that is still active is
  marked as needing recovery, with the reason and the time, all other rows are exactly as before, and
  nothing is registered as running any more.
\<close>

theorem stop_flags_active_runs:
  assumes "calm_sched s" and "sd_started s"
  shows "\<exists>n s'. stop_scheduler C s = (Inr n, s') \<and> sd_active s' = [] \<and> \<not> sd_started s' \<and>
    run_table s' = map (\<lambda>r. if rr_run_id r \<in> fst ` set (sd_active s) \<and> is_active r
      then interrupted (sc_iso C (sc_clock C (sd_ticks s))) r else r) (run_table s)"
  by (rule stop_flags [OF assms]) blast

theorem stop_flags_active_runs_witness:
  "\<exists>n s'. stop_scheduler demo_scheduler (demo_sched [demo_active_run]) = (Inr n, s') \<and>
     run_table s' = [interrupted (demo_iso 1000000) demo_active_run]"
proof -
  have active: "is_active demo_active_run" by code_simp
  have id: "rr_run_id demo_active_run = lit ''r''" by (simp add: demo_active_run_def)
  have iso: "sc_iso demo_scheduler (sc_clock demo_scheduler 1) = demo_iso 1000000" by (simp add: demo_scheduler_def)
  have "calm_sched (demo_sched [demo_active_run])" by (rule demo_calm) (simp_all add: demo_active_run_def)
  then have "\<exists>n s'. stop_scheduler demo_scheduler (demo_sched [demo_active_run]) = (Inr n, s') \<and>
      run_table s' = [interrupted (sc_iso demo_scheduler (sc_clock demo_scheduler 1)) demo_active_run]"
    using stop_flags_active_runs [of "demo_sched [demo_active_run]" demo_scheduler] active id
    by (auto simp del: lit_Cons)
  then show ?thesis by (simp only: iso)
qed

text \<open>
  A pass of the watchdog decides about every row: a row that is not active stays as it is; an active row
  of a run that this process is not executing and that is stale needs recovery; one of a run that is
  being executed for longer than the job timeout is marked as timed out; all others stay as they are.
\<close>

theorem watchdog_decides_each_run:
  assumes "calm_sched s" and "\<forall>r \<in> set (run_table s). is_active r \<longrightarrow> sc_parse C (rr_started_at r) \<noteq> None"
  shows "\<exists>s'. watchdog_pass C s = (Inr (), s') \<and> sd_active s' = sd_active s \<and>
    list_all2 (watched C (sc_clock C (sd_ticks s)) (executing s)) (run_table s) (run_table s')"
  by (rule watchdog_exact [OF assms])

theorem watchdog_decides_each_run_witness:
  "\<exists>s'. watchdog_pass demo_scheduler (demo_sched [demo_active_run]) = (Inr (), s') \<and>
     list_all2 (watched demo_scheduler 1000000 {lit ''r''}) [demo_active_run] (run_table s')"
proof -
  have "sc_parse demo_scheduler (rr_started_at demo_active_run) = Some 0" by code_simp
  moreover have "sc_clock demo_scheduler 1 = 1000000" by (simp add: demo_scheduler_def)
  moreover have "calm_sched (demo_sched [demo_active_run])" by (rule demo_calm) (simp_all add: demo_active_run_def)
  ultimately show ?thesis
    using watchdog_decides_each_run [of "demo_sched [demo_active_run]" demo_scheduler]
    by (auto simp: executing_def simp del: lit_Cons)
qed

section \<open>Runs and the vault\<close>

text \<open>
  C22. A manual request without confirmation never changes a file. Whatever the server configuration, the
  planner, the policy and the history do, and even when the request asks for automatic execution, the
  vault is the same after the run.
\<close>

theorem unconfirmed_runs_write_nothing:
  assumes "vault_ok L V (rs_vault (ag_rec (sd_agents s)))" and "\<not> rb_confirm body"
    and "run_task C (vault_ops_of L V) I task body bypass s = (res, s')"
  shows "w_tree (rs_vault (ag_rec (sd_agents s'))) = w_tree (rs_vault (ag_rec (sd_agents s)))"
proof -
  let ?P = "\<lambda>w. vault_ok L V w \<and> w_tree w = w_tree (rs_vault (ag_rec (sd_agents s)))"
  have "\<not> wants_level2 C (rb_auto (manual_body body))"
    using assms(2) by (simp add: wants_level2_def manual_body_def)
  moreover have "keeps (\<lambda>a. ?P (rs_vault (ag_rec a))) (plan (sc_agent C) (vault_ops_of L V) (ri_planner I) now j request)"
    if "\<not> jr_execute request" for now j request
  proof -
    have "file_transactions.unapplied L V (w_tree (rs_vault (ag_rec (sd_agents s)))) = (\<lambda>a. ?P (rs_vault (ag_rec a)))"
      by (simp add: fun_eq_iff file_transactions.unapplied_def)
    then show ?thesis using file_transactions.plan_looks [OF that] by metis
  qed
  ultimately have "keeps (vault_is ?P) (run_task C (vault_ops_of L V) I task body bypass)"
    by (intro run_task_vault level1_vault)
  from keepsD [OF this _ assms(3)] assms(1) show ?thesis by (simp add: vault_is_def)
qed

definition demo_inputs :: run_inputs where
  "demo_inputs = \<lparr>ri_planner = Inr ([demo_note\<lparr>act_kind := ADD_TAGS, act_file := lit ''n.md'', act_tags := [lit ''x''],
       act_content_base64 := None\<rparr>], None, None),
     ri_index = \<lparr>ix_configured = True, ix_ready = True, ix_tree = Some [], ix_entries = Some [], ix_rebuild = None\<rparr>,
     ri_duration = []\<rparr>"

theorem unconfirmed_runs_write_nothing_witness:
  "w_tree (rs_vault (ag_rec (sd_agents (snd (run_task demo_scheduler demo_ops demo_inputs DAILY
     \<lparr>rb_confirm = False, rb_auto = Some True, rb_scope = None\<rparr> False (demo_sched [])))))) = demo_tree"
  using unconfirmed_runs_write_nothing [of demo_lib demo_vault "demo_sched []"
      "\<lparr>rb_confirm = False, rb_auto = Some True, rb_scope = None\<rparr>", OF _ _ surjective_pairing]
  by simp

text \<open>
  C23. Automatic execution edits tags and nothing else. After a run, scheduled or manual, either the vault is
  the same, or the server and the request wanted Level 2, every action the planner proposed is a tag
  edit on the server's list, and no file has changed that these actions do not name.
\<close>

theorem automatic_runs_edit_tagged_files:
  assumes "ag_lib (sc_agent C) = L" and "list_all (usable_action usable_path) (planned_by I)"
    and "vault_ok L V (rs_vault (ag_rec (sd_agents s)))"
    and "pipeline C (vault_ops_of L V) I i task body s = (res, s')"
  shows "w_tree (rs_vault (ag_rec (sd_agents s'))) = w_tree (rs_vault (ag_rec (sd_agents s))) \<or>
    wants_level2 C (rb_auto body) \<and> tag_edits C (planned_by I) \<and>
    same_but (act_file ` set (planned_by I)) (vault_look L V (w_tree (rs_vault (ag_rec (sd_agents s)))))
      (vault_look L V (w_tree (rs_vault (ag_rec (sd_agents s')))))"
  using pipeline_tags [OF assms] by (simp add: tag_edited_def)

theorem automatic_runs_edit_tagged_files_witness:
  "same_but {lit ''n.md''} (vault_look demo_lib demo_vault demo_tree)
     (vault_look demo_lib demo_vault (w_tree (rs_vault (ag_rec (sd_agents (snd (pipeline demo_scheduler demo_ops
        demo_inputs (lit ''r'') DAILY \<lparr>rb_confirm = True, rb_auto = None, rb_scope = None\<rparr> (demo_sched [])))))))) \<and>
   wants_level2 demo_scheduler None"
proof -
  have acts: "list_all (usable_action usable_path) (planned_by demo_inputs)" "wants_level2 demo_scheduler None"
    "act_file ` set (planned_by demo_inputs) = {lit ''n.md''}" by code_simp+
  have "ag_lib (sc_agent demo_scheduler) = demo_lib" by (simp add: demo_scheduler_def)
  from automatic_runs_edit_tagged_files [OF this acts(1) _ surjective_pairing, of demo_vault "demo_sched []"
      "lit ''r''" DAILY "\<lparr>rb_confirm = True, rb_auto = None, rb_scope = None\<rparr>"] acts(2,3)
  show ?thesis by (auto simp: same_but_def simp del: lit_Cons)
qed

end
