(* ===== verification/Graph.thy ===== *)
theory Graph imports Complex_Main Utf8 "HOL-Library.List_Lexorder" "HOL-Library.Product_Lexorder" begin

text \<open>
  \<^verbatim>\<open>server/graph/service.py\<close> and \<^verbatim>\<open>schemas.py\<close>: the read-only graph of notes and tags, computed from one
  snapshot of the derived index. The rows of the snapshot and the answers of the vector store are
  arguments. Python's sets are HOL
  sets; where the code sorts a set by a key that may tie, the tied elements come in the order of their
  paths here, and the final sort of every list makes that choice irrelevant. All texts were read from
  SQLite, so they can be encoded. The time stamp and the error texts are left out.
\<close>

section \<open>Rows and responses\<close>

record note_row =
  nt_path :: pystr
  nt_title :: pystr
  nt_basename :: pystr

record tag_row =
  tg_note :: pystr
  tg_tag :: pystr
  tg_folded :: pystr

record link_row =
  lk_source :: pystr
  lk_seq :: nat
  lk_kind :: pystr
  lk_raw :: pystr
  lk_section :: "pystr option"
  lk_block :: "pystr option"
  lk_context :: "pystr option"
  lk_resolved :: "pystr option"
  lk_broken :: bool
  lk_ambiguous :: bool
  lk_candidates :: "pystr list"

record graph_snapshot =
  sn_notes :: "note_row list"
  sn_tags :: "tag_row list"
  sn_links :: "link_row list"

record graph_node =
  gn_id :: pystr
  gn_type :: pystr
  gn_label :: pystr
  gn_path :: "pystr option"
  gn_title :: "pystr option"
  gn_tag :: "pystr option"
  gn_folded :: "pystr option"

record graph_edge =
  ge_id :: pystr
  ge_source :: pystr
  ge_target :: pystr
  ge_type :: pystr
  ge_score :: "rat option"
  ge_directed :: bool
  ge_raw :: "pystr option"
  ge_resolved :: "pystr option"
  ge_section :: "pystr option"
  ge_block :: "pystr option"
  ge_broken :: bool
  ge_ambiguous :: bool
  ge_candidates :: "pystr list"
  ge_context :: "pystr option"

record graph_response =
  gr_scope :: pystr
  gr_root :: "pystr option"
  gr_nodes :: "graph_node list"
  gr_edges :: "graph_edge list"
  gr_limit :: int
  gr_offset :: int
  gr_next_offset :: "int option"
  gr_total_nodes :: nat
  gr_total_edges :: nat
  gr_truncated :: bool
  gr_semantic :: pystr
  gr_covered :: nat

record graph_settings =
  gs_default_limit :: int
  gs_max_limit :: int
  gs_max_depth :: int
  gs_max_edges :: nat

datatype graph_error = IndexNotReady | InvalidGraphRequest | NoSuchNode pystr

section \<open>Identifiers\<close>

definition upper_hex :: "nat \<Rightarrow> nat" where
  "upper_hex d = (if d < 10 then 48 + d else 55 + d)"

definition pct_byte :: "nat \<Rightarrow> pystr" where
  "pct_byte b = [37, upper_hex (b div 16), upper_hex (b mod 16)]"

definition pct :: "pystr \<Rightarrow> pystr" where
  "pct v = concat (map pct_byte (case utf8_enc v of None \<Rightarrow> [] | Some bs \<Rightarrow> bs))"

definition note_id :: "pystr \<Rightarrow> pystr" where
  "note_id path = lit ''note:'' @ pct path"

definition tag_id :: "pystr \<Rightarrow> pystr" where
  "tag_id folded = lit ''tag:'' @ pct folded"

definition link_edge_id :: "pystr \<Rightarrow> nat \<Rightarrow> pystr" where
  "link_edge_id source_path i = lit ''link:'' @ pct source_path @ lit ''#'' @ digits_of i"

definition tag_edge_id :: "pystr \<Rightarrow> pystr \<Rightarrow> pystr" where
  "tag_edge_id note_path folded = lit ''tag:'' @ pct note_path @ lit ''#'' @ pct folded"

section \<open>Maps over a snapshot\<close>

text \<open>A dictionary keeps the last value of a key.\<close>

definition note_titles :: "graph_snapshot \<Rightarrow> pystr \<Rightarrow> pystr option" where
  "note_titles S = map_of (rev (map (\<lambda>n. (nt_path n, nt_title n)) (sn_notes S)))"

definition note_basenames :: "graph_snapshot \<Rightarrow> pystr \<Rightarrow> pystr option" where
  "note_basenames S = map_of (rev (map (\<lambda>n. (nt_path n, nt_basename n)) (sn_notes S)))"

definition note_tags :: "graph_snapshot \<Rightarrow> pystr \<Rightarrow> pystr list" where
  "note_tags S path = map tg_folded (filter (\<lambda>t. tg_note t = path) (sn_tags S))"

text \<open>\<^verbatim>\<open>min(displays, key=_tag_display)\<close>: the first of the smallest.\<close>

fun min_by :: "('a \<Rightarrow> 'b::linorder) \<Rightarrow> 'a \<Rightarrow> 'a list \<Rightarrow> 'a" where
  "min_by k x [] = x"
| "min_by k x (y # ys) = min_by k (if k y < k x then y else x) ys"

definition tag_display :: "pylib \<Rightarrow> graph_snapshot \<Rightarrow> pystr \<Rightarrow> pystr option" where
  "tag_display L S folded =
     (case map tg_tag (filter (\<lambda>t. tg_folded t = folded) (sn_tags S)) of
        [] \<Rightarrow> None
      | d # ds \<Rightarrow> Some (min_by (\<lambda>t. (casefold L t, t)) d ds))"

definition note_has_tag :: "graph_snapshot \<Rightarrow> pystr \<Rightarrow> pystr \<Rightarrow> bool" where
  "note_has_tag S path folded \<longleftrightarrow> folded \<in> set (note_tags S path)"

text \<open>A row that carries a step from a note to another note of the snapshot.\<close>

definition link_step :: "pystr set \<Rightarrow> link_row \<Rightarrow> (pystr \<times> pystr) option" where
  "link_step notes row =
     (if lk_kind row = lit ''web'' then None
      else
        (case lk_resolved row of
           None \<Rightarrow> None
         | Some target \<Rightarrow>
             if lk_source row = target \<or> lk_source row \<notin> notes \<or> target \<notin> notes then None
             else Some (lk_source row, target)))"

definition forward :: "graph_snapshot \<Rightarrow> pystr set \<Rightarrow> pystr \<Rightarrow> pystr set" where
  "forward S notes n =
     set (map snd (filter (\<lambda>e. fst e = n) (List.map_filter (link_step notes) (sn_links S))))"

definition backward :: "graph_snapshot \<Rightarrow> pystr set \<Rightarrow> pystr \<Rightarrow> pystr set" where
  "backward S notes n =
     set (map fst (filter (\<lambda>e. snd e = n) (List.map_filter (link_step notes) (sn_links S))))"

section \<open>Nodes and edges of a scope\<close>

definition or_else :: "pystr \<Rightarrow> pystr \<Rightarrow> pystr" where
  "or_else a b = (if a = [] then b else a)"

definition note_node :: "graph_snapshot \<Rightarrow> pystr \<Rightarrow> graph_node" where
  "note_node S path =
     (let title = (case note_titles S path of None \<Rightarrow> [] | Some t \<Rightarrow> t);
          basename = (case note_basenames S path of None \<Rightarrow> [] | Some b \<Rightarrow> b) in
      \<lparr>gn_id = note_id path, gn_type = lit ''note'', gn_label = or_else title (or_else basename path),
       gn_path = Some path, gn_title = (if title = [] then None else Some title), gn_tag = None,
       gn_folded = None\<rparr>)"

definition tag_node :: "pylib \<Rightarrow> graph_snapshot \<Rightarrow> pystr \<Rightarrow> graph_node" where
  "tag_node L S folded =
     (let display = (case tag_display L S folded of None \<Rightarrow> folded | Some d \<Rightarrow> d) in
      \<lparr>gn_id = tag_id folded, gn_type = lit ''tag'', gn_label = display, gn_path = None, gn_title = None,
       gn_tag = Some display, gn_folded = Some folded\<rparr>)"

definition tag_edge :: "pystr \<Rightarrow> pystr \<Rightarrow> graph_edge" where
  "tag_edge path folded =
     \<lparr>ge_id = tag_edge_id path folded, ge_source = note_id path, ge_target = tag_id folded,
      ge_type = lit ''tag'', ge_score = None, ge_directed = True, ge_raw = None, ge_resolved = None,
      ge_section = None, ge_block = None, ge_broken = False, ge_ambiguous = False, ge_candidates = [],
      ge_context = None\<rparr>"

definition link_edge :: "link_row \<Rightarrow> pystr option \<Rightarrow> bool \<Rightarrow> bool \<Rightarrow> pystr list \<Rightarrow> graph_edge" where
  "link_edge row resolved broken ambiguous candidates =
     \<lparr>ge_id = link_edge_id (lk_source row) (lk_seq row), ge_source = note_id (lk_source row),
      ge_target = (case resolved of None \<Rightarrow> [] | Some target \<Rightarrow> note_id target), ge_type = lit ''link'',
      ge_score = None, ge_directed = True, ge_raw = Some (lk_raw row), ge_resolved = resolved,
      ge_section = lk_section row, ge_block = lk_block row, ge_broken = broken, ge_ambiguous = ambiguous,
      ge_candidates = candidates, ge_context = lk_context row\<rparr>"

definition edges_of_row :: "pystr set \<Rightarrow> bool \<Rightarrow> link_row \<Rightarrow> graph_edge list" where
  "edges_of_row note_paths include_broken row =
     (if lk_source row \<notin> note_paths \<or> lk_kind row = lit ''web'' then []
      else if lk_resolved row \<in> Some ` note_paths then
        [link_edge row (lk_resolved row) False (lk_ambiguous row)
           (if lk_ambiguous row then lk_candidates row else [])]
      else if lk_broken row then
        (if include_broken then [link_edge row None True False []] else [])
      else if lk_ambiguous row then
        (if include_broken then [link_edge row None False True (lk_candidates row)] else [])
      else [])"

definition edge_key :: "graph_edge \<Rightarrow> pystr \<times> pystr \<times> pystr \<times> pystr" where
  "edge_key e = (ge_type e, ge_source e, ge_target e, ge_id e)"

text \<open>\<^verbatim>\<open>sorted(paths, key=str.casefold)\<close>\<close>

definition by_casefold :: "pylib \<Rightarrow> pystr set \<Rightarrow> pystr list" where
  "by_casefold L paths = sort_key (casefold L) (sorted_list_of_set paths)"

definition scope_tags :: "graph_snapshot \<Rightarrow> pystr set \<Rightarrow> pystr option \<Rightarrow> pystr set" where
  "scope_tags S note_paths folded_filter =
     (let tags = (\<Union>path \<in> note_paths. set (note_tags S path)) in
      case folded_filter of None \<Rightarrow> tags | Some folded \<Rightarrow> tags \<inter> {folded})"

definition scope_nodes :: "pylib \<Rightarrow> graph_snapshot \<Rightarrow> pystr set \<Rightarrow> pystr option \<Rightarrow> graph_node list" where
  "scope_nodes L S note_paths folded_filter =
     sort_key (\<lambda>n. (gn_type n, gn_id n))
       (map (note_node S) (by_casefold L note_paths) @
        map (tag_node L S) (by_casefold L (scope_tags S note_paths folded_filter)))"

definition scope_edges ::
  "pylib \<Rightarrow> graph_snapshot \<Rightarrow> pystr set \<Rightarrow> pystr option \<Rightarrow> bool \<Rightarrow> graph_edge list" where
  "scope_edges L S note_paths folded_filter include_broken =
     sort_key edge_key
       (concat (map (\<lambda>path. map (tag_edge path)
            (filter (\<lambda>folded. folded \<in> scope_tags S note_paths folded_filter) (note_tags S path)))
          (by_casefold L note_paths)) @
        concat (map (edges_of_row note_paths include_broken) (sn_links S)))"

section \<open>Pages\<close>

definition page_response ::
  "pystr \<Rightarrow> pystr option \<Rightarrow> graph_node list \<Rightarrow> graph_edge list \<Rightarrow> int \<Rightarrow> int \<Rightarrow> nat \<Rightarrow> graph_response" where
  "page_response scope centre nodes edges0 limit offset max_edges =
     (let edges = sort_key edge_key edges0;
          page_nodes = take (nat limit) (drop (nat offset) nodes);
          next_offset = (if offset + limit < int (length nodes) then Some (offset + limit) else None);
          page_ids = set (map gn_id page_nodes);
          page_edges = filter (\<lambda>e. ge_source e \<in> page_ids \<and> (ge_target e = [] \<or> ge_target e \<in> page_ids)) edges in
      \<lparr>gr_scope = scope, gr_root = centre, gr_nodes = page_nodes, gr_edges = take max_edges page_edges,
       gr_limit = limit, gr_offset = offset, gr_next_offset = next_offset,
       gr_total_nodes = length nodes, gr_total_edges = length edges,
       gr_truncated = (next_offset \<noteq> None \<or> max_edges < length page_edges),
       gr_semantic = lit ''unavailable'', gr_covered = 0\<rparr>)"

section \<open>Validation\<close>

definition validated_limit :: "graph_settings \<Rightarrow> int option \<Rightarrow> graph_error + int" where
  "validated_limit G v =
     (let limit = (case v of None \<Rightarrow> gs_default_limit G | Some x \<Rightarrow> x) in
      if limit < 1 \<or> gs_max_limit G < limit then Inl InvalidGraphRequest else Inr limit)"

definition validated_offset :: "int \<Rightarrow> graph_error + int" where
  "validated_offset v = (if v < 0 then Inl InvalidGraphRequest else Inr v)"

definition validated_depth :: "graph_settings \<Rightarrow> int \<Rightarrow> graph_error + int" where
  "validated_depth G v = (if v < 0 \<or> gs_max_depth G < v then Inl InvalidGraphRequest else Inr v)"

definition BOTH :: pystr where "BOTH = lit ''both''"
definition OUTGOING :: pystr where "OUTGOING = lit ''outgoing''"
definition INCOMING :: pystr where "INCOMING = lit ''incoming''"

definition validated_direction :: "pystr \<Rightarrow> graph_error + pystr" where
  "validated_direction v =
     (if v \<notin> {BOTH, OUTGOING, INCOMING} then Inl InvalidGraphRequest else Inr v)"

definition validated_input_text :: "pystr \<Rightarrow> graph_error + pystr" where
  "validated_input_text v =
     (if v = [] then Inl InvalidGraphRequest
      else if 2048 < length v then Inl InvalidGraphRequest
      else if list_ex (\<lambda>c. c < 32 \<or> c = 127) v then Inl InvalidGraphRequest
      else Inr v)"

definition validated_tag_filter :: "pylib \<Rightarrow> pystr option \<Rightarrow> graph_error + pystr option" where
  "validated_tag_filter L v =
     (case v of
        None \<Rightarrow> Inr None
      | Some tag \<Rightarrow> rbind (validated_input_text tag) (\<lambda>t. Inr (Some (casefold L t))))"

section \<open>Similar notes\<close>

text \<open>
  The embedding provider, what the vector store answers (\<open>None\<close> where a call raises), and the float
  arithmetic of \<^verbatim>\<open>math\<close>: the unit centroid of some vectors (none when the mean is zero), the product of two
  centroids, and \<^verbatim>\<open>round(_, 6)\<close>. A float is a rational number, a packed vector its bytes.
\<close>

record semantic_provider =
  pv_degraded :: bool
  pv_class :: pystr
  pv_model :: pystr
  pv_dimension :: nat

record vector_state =
  vs_status :: pystr
  vs_chunks :: nat
  vs_provider :: pystr
  vs_model :: pystr
  vs_dimension :: nat
  vs_version :: pystr

record vector_row =
  vr_path :: pystr
  vr_sha256 :: pystr
  vr_model :: pystr
  vr_version :: pystr
  vr_dimension :: nat
  vr_chunk_count :: nat
  vr_embedded :: nat
  vr_vector :: bytes

record float_lib =
  fl_centroid :: "nat \<Rightarrow> bytes list \<Rightarrow> rat list option"
  fl_sumprod :: "rat list \<Rightarrow> rat list \<Rightarrow> rat"
  fl_round :: "rat \<Rightarrow> rat"

type_synonym neighbour_map = "(pystr \<times> (pystr \<times> rat) list) list"

record semantic_store =
  ss_provider :: "semantic_provider option"
  ss_version :: pystr
  ss_state :: "vector_state option"
  ss_fingerprints :: "pystr set \<Rightarrow> (pystr \<times> pystr) list option"
  ss_cached :: "pystr set \<Rightarrow> neighbour_map option"
  ss_compatible :: "pystr \<Rightarrow> nat \<Rightarrow> pystr \<Rightarrow> bool"
  ss_rows :: "pystr list \<Rightarrow> vector_row list option"
  ss_moved :: bool

definition row_vectors :: "vector_row \<Rightarrow> bytes list" where
  "row_vectors row =
     (if 0 < vr_dimension row \<and> 0 < vr_embedded row \<and>
         length (vr_vector row) = vr_embedded row * vr_dimension row * 4
      then map (\<lambda>i. take (vr_dimension row * 4) (drop (i * vr_dimension row * 4) (vr_vector row)))
             [0..<vr_embedded row]
      else [])"

definition row_valid :: "pystr \<Rightarrow> nat \<Rightarrow> pystr \<Rightarrow> vector_row \<Rightarrow> bool" where
  "row_valid model dimension version row \<longleftrightarrow>
     vr_model row = model \<and> vr_version row = version \<and> vr_dimension row = dimension \<and>
     row_vectors row \<noteq> [] \<and> vr_chunk_count row = vr_embedded row"

text \<open>The vectors of a path whose rows are all valid and as the index has the note.\<close>

definition path_vectors ::
  "pystr \<Rightarrow> nat \<Rightarrow> pystr \<Rightarrow> (pystr \<times> pystr) list \<Rightarrow> vector_row list \<Rightarrow> pystr \<Rightarrow> bytes list" where
  "path_vectors model dimension version entries rows path =
     (let mine = filter (\<lambda>r. vr_path r = path) rows; vectors = concat (map row_vectors mine) in
      if mine \<noteq> [] \<and> list_all (row_valid model dimension version) mine \<and>
         map_of entries path = Some (vr_sha256 (last mine)) \<and> vr_embedded (last mine) = length vectors
      then vectors else [])"

definition centroids_of ::
  "float_lib \<Rightarrow> nat \<Rightarrow> (pystr \<Rightarrow> bytes list) \<Rightarrow> pystr list \<Rightarrow> (pystr \<times> rat list) list" where
  "centroids_of F dimension vectors paths =
     List.map_filter (\<lambda>p. if vectors p = [] then None
                          else map_option (Pair p) (fl_centroid F dimension (vectors p))) paths"

text \<open>The float literal \<^verbatim>\<open>0.84\<close>.\<close>

definition similar_from :: rat where
  "similar_from = Fract 7566047373982433 9007199254740992"

definition pair_score :: "float_lib \<Rightarrow> pystr \<times> rat list \<Rightarrow> pystr \<times> rat list \<Rightarrow> rat" where
  "pair_score F x y =
     (if fst x < fst y then fl_sumprod F (snd x) (snd y) else fl_sumprod F (snd y) (snd x))"

definition top_neighbours :: "float_lib \<Rightarrow> (pystr \<times> rat list) list \<Rightarrow> neighbour_map" where
  "top_neighbours F centroids =
     map (\<lambda>x. (fst x, take 3 (sort_key (\<lambda>item. (- snd item, fst item))
            (map (\<lambda>y. (fst y, pair_score F x y))
              (filter (\<lambda>y. fst y \<noteq> fst x \<and> similar_from \<le> pair_score F x y) centroids))))) centroids"

definition semantic_edge :: "float_lib \<Rightarrow> pystr \<Rightarrow> pystr \<Rightarrow> rat \<Rightarrow> graph_edge" where
  "semantic_edge F source target score =
     \<lparr>ge_id = lit ''semantic:'' @ pct (min source target) @ lit ''#'' @ pct (max source target),
      ge_source = note_id source, ge_target = note_id target, ge_type = lit ''semantic'',
      ge_score = Some (fl_round F score), ge_directed = False, ge_raw = None, ge_resolved = None,
      ge_section = None, ge_block = None, ge_broken = False, ge_ambiguous = False, ge_candidates = [],
      ge_context = None\<rparr>"

definition semantic_edges :: "float_lib \<Rightarrow> neighbour_map \<Rightarrow> graph_edge list" where
  "semantic_edges F neighbours =
     concat (map (\<lambda>(source, candidates).
       map (\<lambda>(target, score). semantic_edge F source target score)
         (filter (\<lambda>(target, score). source < target \<and>
            source \<in> set (map fst (case map_of neighbours target of None \<Rightarrow> [] | Some c \<Rightarrow> c))) candidates))
       neighbours)"

text \<open>The neighbours of every covered note, or why there are none.\<close>

definition semantic_neighbours ::
  "pylib \<Rightarrow> float_lib \<Rightarrow> semantic_store \<Rightarrow> semantic_provider \<Rightarrow> pystr set \<Rightarrow> pystr + neighbour_map" where
  "semantic_neighbours L F M provider paths =
     (case ss_state M of
        None \<Rightarrow> Inl (lit ''degraded'')
      | Some state \<Rightarrow>
          let dimension = (if pv_dimension provider \<noteq> 0 then pv_dimension provider else vs_dimension state);
              model = pv_model provider; version = ss_version M in
          if vs_status state \<notin> {lit ''ready'', lit ''pending'', lit ''failed''} \<or> vs_chunks state = 0 \<or>
             model = [] \<or> dimension = 0 \<or> vs_provider state \<noteq> pv_class provider \<or>
             vs_model state \<noteq> model \<or> vs_dimension state \<noteq> dimension \<or> vs_version state \<noteq> version
          then Inl (lit ''outdated'')
          else
            (case ss_fingerprints M paths of
               None \<Rightarrow> Inl (lit ''degraded'')
             | Some entries \<Rightarrow>
                 if entries = [] then Inl (lit ''outdated'')
                 else if \<not> paths \<subseteq> set (map fst entries) then Inl (lit ''degraded'')
                 else
                   (case ss_cached M paths of
                      Some neighbours \<Rightarrow> Inr neighbours
                    | None \<Rightarrow>
                        if \<not> ss_compatible M model dimension version then Inl (lit ''outdated'')
                        else
                          (case ss_rows M (sorted_list_of_set paths) of
                             None \<Rightarrow> Inl (lit ''degraded'')
                           | Some rows \<Rightarrow>
                               if ss_moved M then Inl (lit ''outdated'')
                               else
                                 let ordered = sorted_list_of_set (set (map vr_path rows)) in
                                 Inr (top_neighbours F
                                   (centroids_of F dimension
                                     (path_vectors model dimension version entries rows) ordered))))))"

definition semantic_projection ::
  "pylib \<Rightarrow> float_lib \<Rightarrow> semantic_store \<Rightarrow> pystr set \<Rightarrow> bool \<Rightarrow> graph_edge list \<times> pystr \<times> nat" where
  "semantic_projection L F M paths inc =
     (case ss_provider M of
        None \<Rightarrow> ([], lit ''unavailable'', 0)
      | Some provider \<Rightarrow>
          if \<not> inc then ([], lit ''unavailable'', 0)
          else if 500 < card paths then ([], lit ''limited'', 0)
          else if pv_degraded provider \<or> find_sub (str_lower L (pv_class provider)) (lit ''hash'') 0 \<noteq> None
          then ([], lit ''degraded'', 0)
          else
            (case semantic_neighbours L F M provider paths of
               Inl status \<Rightarrow> ([], status, 0)
             | Inr neighbours \<Rightarrow> (semantic_edges F neighbours, lit ''ready'', length neighbours)))"

section \<open>The service\<close>

record graph_index =
  gi_ready :: bool
  gi_note_exists :: "pystr \<Rightarrow> bool"
  gi_snapshot :: "graph_error + graph_snapshot"

record graph_query =
  gq_limit :: "int option"
  gq_offset :: int
  gq_tag :: "pystr option"
  gq_include_broken :: bool
  gq_include_semantic :: bool

definition visible_edges :: "graph_node list \<Rightarrow> graph_edge list \<Rightarrow> graph_edge list" where
  "visible_edges nodes semantic =
     (let node_ids = set (map gn_id nodes) in
      filter (\<lambda>e. ge_source e \<in> node_ids \<and> ge_target e \<in> node_ids) semantic)"

definition note_paths_of :: "graph_snapshot \<Rightarrow> pystr set" where
  "note_paths_of S = set (map nt_path (sn_notes S))"

definition global_graph ::
  "pylib \<Rightarrow> float_lib \<Rightarrow> graph_settings \<Rightarrow> semantic_store \<Rightarrow> graph_index \<Rightarrow> graph_query \<Rightarrow> graph_error + graph_response" where
  "global_graph L F G M X q =
     rbind (check (gi_ready X) IndexNotReady) (\<lambda>_.
     rbind (validated_limit G (gq_limit q)) (\<lambda>limit.
     rbind (validated_offset (gq_offset q)) (\<lambda>offset.
     rbind (validated_tag_filter L (gq_tag q)) (\<lambda>folded.
     rbind (gi_snapshot X) (\<lambda>S.
     let all_notes = note_paths_of S;
         note_paths = (case folded of None \<Rightarrow> all_notes | Some f \<Rightarrow> {p \<in> all_notes. note_has_tag S p f});
         nodes = scope_nodes L S note_paths folded;
         edges = scope_edges L S note_paths folded (gq_include_broken q);
         (semantic, status, covered) = semantic_projection L F M note_paths (gq_include_semantic q) in
     Inr ((page_response (lit ''global'') None nodes (edges @ visible_edges nodes semantic) limit offset
             (gs_max_edges G))\<lparr>gr_semantic := status, gr_covered := covered\<rparr>))))))"

text \<open>One level of the search, and at most \<open>n\<close> levels.\<close>

definition neighbours_of :: "graph_snapshot \<Rightarrow> pystr set \<Rightarrow> pystr \<Rightarrow> pystr \<Rightarrow> pystr set" where
  "neighbours_of S notes direction node =
     (if direction \<in> {BOTH, OUTGOING} then forward S notes node else {}) \<union>
     (if direction \<in> {BOTH, INCOMING} then backward S notes node else {})"

fun expand :: "(pystr \<Rightarrow> pystr set) \<Rightarrow> nat \<Rightarrow> pystr set \<Rightarrow> pystr set \<Rightarrow> pystr set" where
  "expand nbs 0 visited frontier = visited"
| "expand nbs (Suc n) visited frontier =
     (if frontier = {} then visited
      else
        let neighbours = (\<Union>node \<in> frontier. nbs node) - visited in
        expand nbs n (visited \<union> neighbours) neighbours)"

definition local_graph ::
  "pylib \<Rightarrow> float_lib \<Rightarrow> graph_settings \<Rightarrow> semantic_store \<Rightarrow> graph_index \<Rightarrow> pystr \<Rightarrow> int \<Rightarrow> pystr \<Rightarrow> graph_query \<Rightarrow>
   graph_error + graph_response" where
  "local_graph L F G M X note_path depth direction q =
     rbind (check (gi_ready X) IndexNotReady) (\<lambda>_.
     rbind (validated_input_text note_path) (\<lambda>path.
     rbind (validated_depth G depth) (\<lambda>bound_depth.
     rbind (validated_direction direction) (\<lambda>bound_direction.
     rbind (validated_limit G (gq_limit q)) (\<lambda>limit.
     rbind (validated_offset (gq_offset q)) (\<lambda>offset.
     rbind (validated_tag_filter L (gq_tag q)) (\<lambda>folded.
     rbind (check (gi_note_exists X path) (NoSuchNode path)) (\<lambda>_.
     rbind (gi_snapshot X) (\<lambda>S.
     rbind (check (path \<in> note_paths_of S) (NoSuchNode path)) (\<lambda>_.
     let all_notes = note_paths_of S;
         reached = expand (neighbours_of S all_notes bound_direction) (nat bound_depth) {path} {path};
         matching = (\<lambda>V. case folded of None \<Rightarrow> V | Some f \<Rightarrow> {p \<in> V. p = path \<or> note_has_tag S p f});
         candidates = insert path (set (take 499 (sorted_list_of_set (all_notes - {path}))));
         (semantic, status0, covered) = semantic_projection L F M candidates (gq_include_semantic q);
         status = (if 500 < card all_notes \<and> gq_include_semantic q then lit ''limited'' else status0);
         root_id = note_id path;
         semantic_ids = set (map (\<lambda>e. if ge_source e = root_id then ge_target e else ge_source e)
           (filter (\<lambda>e. ge_source e = root_id \<or> ge_target e = root_id) semantic));
         visited = matching (matching reached \<union> {p \<in> all_notes. note_id p \<in> semantic_ids});
         nodes = scope_nodes L S visited folded;
         edges = scope_edges L S visited folded (gq_include_broken q) in
     Inr ((page_response (lit ''local'') (Some path) nodes (edges @ visible_edges nodes semantic) limit offset
             (gs_max_edges G))\<lparr>gr_semantic := status, gr_covered := covered\<rparr>)))))))))))"

definition tag_graph ::
  "pylib \<Rightarrow> float_lib \<Rightarrow> graph_settings \<Rightarrow> semantic_store \<Rightarrow> graph_index \<Rightarrow> pystr \<Rightarrow> graph_query \<Rightarrow> graph_error + graph_response" where
  "tag_graph L F G M X tag q =
     rbind (check (gi_ready X) IndexNotReady) (\<lambda>_.
     rbind (validated_input_text tag) (\<lambda>t.
     rbind (validated_limit G (gq_limit q)) (\<lambda>limit.
     rbind (validated_offset (gq_offset q)) (\<lambda>offset.
     rbind (gi_snapshot X) (\<lambda>S.
     let folded = casefold L t in
     rbind (check (folded \<in> set (map tg_folded (sn_tags S))) (NoSuchNode tag)) (\<lambda>_.
     let note_paths = {p \<in> set (map tg_note (sn_tags S)). note_has_tag S p folded};
         nodes = scope_nodes L S note_paths (Some folded);
         edges = scope_edges L S note_paths (Some folded) (gq_include_broken q);
         (semantic, status, covered) = semantic_projection L F M note_paths (gq_include_semantic q) in
     Inr ((page_response (lit ''tag'') None nodes (edges @ visible_edges nodes semantic) limit offset
             (gs_max_edges G))\<lparr>gr_semantic := status, gr_covered := covered\<rparr>)))))))"

end
