(* ===== verification/GraphProperties.thy ===== *)
theory GraphProperties imports Graph "HOL-Library.Code_Target_Nat" begin

text \<open>
  What the graph promises: identifiers tell the notes apart, the local graph is the ball of the requested
  radius around its note, and a page is a window of the nodes with edges between its own nodes only.
\<close>

section \<open>Identifiers\<close>

definition encodable :: "pystr \<Rightarrow> bool" where
  "encodable s \<longleftrightarrow> utf8_enc s \<noteq> None"

lemma upper_hex_inject: "c < 16 \<Longrightarrow> d < 16 \<Longrightarrow> upper_hex c = upper_hex d \<longleftrightarrow> c = d"
  by (auto simp: upper_hex_def split: if_splits)

lemma pct_byte_inject:
  assumes "b < 256" "c < 256" "pct_byte b = pct_byte c"
  shows "b = c"
proof -
  have "b div 16 < 16" "c div 16 < 16" using assms(1,2) by (simp_all add: less_mult_imp_div_less)
  with assms(3) have "b div 16 = c div 16" "b mod 16 = c mod 16"
    by (simp_all add: pct_byte_def upper_hex_inject)
  then show ?thesis by (metis div_mult_mod_eq)
qed

lemma pct_bytes_inject:
  "list_all (\<lambda>b. b < 256) bs \<Longrightarrow> list_all (\<lambda>b. b < 256) cs \<Longrightarrow>
     concat (map pct_byte bs) = concat (map pct_byte cs) \<Longrightarrow> bs = cs"
proof (induction bs arbitrary: cs)
  case (Cons b bs)
  then obtain c cs' where cs: "cs = c # cs'" by (cases cs) (auto simp: pct_byte_def)
  have "length (pct_byte b) = length (pct_byte c)" by (simp add: pct_byte_def)
  with Cons.prems(3) have "pct_byte b = pct_byte c" "concat (map pct_byte bs) = concat (map pct_byte cs')"
    by (simp_all add: cs)
  with Cons cs pct_byte_inject show ?case by auto
qed (auto simp: pct_byte_def split: list.splits)

lemma pct_inject:
  assumes "encodable v" "encodable w" "pct v = pct w"
  shows "v = w"
proof -
  obtain bs cs where e: "utf8_enc v = Some bs" "utf8_enc w = Some cs" using assms(1,2) by (auto simp: encodable_def)
  with assms(3) have "bs = cs"
    using pct_bytes_inject [OF utf8_enc_bytes [OF e(1)] utf8_enc_bytes [OF e(2)]] by (simp add: pct_def)
  with e show ?thesis using utf8_dec_enc by (metis option.inject)
qed

lemma pct_no_hash: "35 \<notin> set (pct v)"
  by (auto simp: pct_def pct_byte_def upper_hex_def split: option.splits)

lemma note_id_inject: "encodable v \<Longrightarrow> encodable w \<Longrightarrow> note_id v = note_id w \<longleftrightarrow> v = w"
  using pct_inject by (auto simp: note_id_def)

lemma tag_id_inject: "encodable v \<Longrightarrow> encodable w \<Longrightarrow> tag_id v = tag_id w \<longleftrightarrow> v = w"
  using pct_inject by (auto simp: tag_id_def)

lemma note_id_not_tag_id: "note_id v \<noteq> tag_id w"
  by (simp add: note_id_def tag_id_def)

lemma note_id_not_Nil [simp]: "note_id v \<noteq> []" "tag_id v \<noteq> []"
  by (simp_all add: note_id_def tag_id_def)

section \<open>Nodes of a scope\<close>

lemma set_by_casefold [simp]: "finite A \<Longrightarrow> set (by_casefold L A) = A"
  by (simp add: by_casefold_def)

lemma distinct_by_casefold [simp]: "distinct (by_casefold L A)"
  by (simp add: by_casefold_def)

lemma node_ids [simp]: "gn_id (note_node S p) = note_id p" "gn_id (tag_node L S f) = tag_id f"
  by (simp_all add: note_node_def tag_node_def Let_def)

lemma finite_scope_tags: "finite P \<Longrightarrow> finite (scope_tags S P f)"
  by (auto simp: scope_tags_def Let_def split: option.split)

lemma scope_node_ids:
  "finite P \<Longrightarrow> gn_id ` set (scope_nodes L S P f) = note_id ` P \<union> tag_id ` scope_tags S P f"
  by (simp add: scope_nodes_def finite_scope_tags image_Un image_image)

lemma scope_nodes_distinct:
  assumes "finite P" "\<forall>p \<in> P. encodable p" "\<forall>t \<in> scope_tags S P f. encodable t"
  shows "distinct (map gn_id (scope_nodes L S P f))"
proof -
  let ?ns = "map (note_node S) (by_casefold L P)" and ?ts = "map (tag_node L S) (by_casefold L (scope_tags S P f))"
  have "distinct (map gn_id (?ns @ ?ts))"
    using assms note_id_not_tag_id
    by (auto simp: distinct_map inj_on_def note_id_inject tag_id_inject finite_scope_tags)
  then have "distinct (?ns @ ?ts)" "inj_on gn_id (set (?ns @ ?ts))" by (simp_all only: distinct_map)
  then show ?thesis by (simp only: scope_nodes_def distinct_map distinct_sort set_sort simp_thms)
qed

section \<open>The local search\<close>

lemma expand_iterates:
  "F \<subseteq> V \<Longrightarrow> \<forall>x \<in> V - F. nbs x \<subseteq> V \<Longrightarrow> expand nbs n V F = ((\<lambda>W. W \<union> (\<Union>x \<in> W. nbs x)) ^^ n) V"
proof (induction n arbitrary: V F)
  case (Suc n)
  let ?step = "\<lambda>W. W \<union> (\<Union>x \<in> W. nbs x)" and ?N = "(\<Union>x \<in> F. nbs x) - V"
  have step: "?step V = V \<union> ?N" using Suc.prems by auto
  show ?case
  proof (cases "F = {}")
    case True
    then have "?step V = V" using step by simp
    moreover have "(?step ^^ k) V = V" for k by (induction k) (simp_all add: calculation)
    ultimately show ?thesis using True by simp
  next
    case False
    then have "expand nbs (Suc n) V F = expand nbs n (V \<union> ?N) ?N" by (simp add: Let_def)
    also have "\<dots> = (?step ^^ n) (V \<union> ?N)" using Suc.prems by (intro Suc.IH) auto
    finally show ?thesis by (simp only: step [symmetric] funpow_Suc_right o_apply)
  qed
qed simp

lemma ex_le_Suc': "(\<exists>k \<le> Suc n. P k) \<longleftrightarrow> (\<exists>k \<le> n. P k) \<or> (\<exists>k \<le> n. P (Suc k))"
  by (metis Suc_le_mono le_SucI not0_implies_Suc zero_le)

lemma iterate_relpow:
  "m \<in> ((\<lambda>W. W \<union> (\<Union>x \<in> W. nbs x)) ^^ n) V \<longleftrightarrow> (\<exists>p \<in> V. \<exists>k \<le> n. (p, m) \<in> {(x, y). y \<in> nbs x} ^^ k)"
proof (induction n arbitrary: m)
  case (Suc n)
  let ?R = "{(x, y). y \<in> nbs x}"
  have "m \<in> ((\<lambda>W. W \<union> (\<Union>x \<in> W. nbs x)) ^^ Suc n) V \<longleftrightarrow>
      (\<exists>p \<in> V. \<exists>k \<le> n. (p, m) \<in> ?R ^^ k) \<or> (\<exists>x. (\<exists>p \<in> V. \<exists>k \<le> n. (p, x) \<in> ?R ^^ k) \<and> m \<in> nbs x)"
    by (simp add: Suc.IH [symmetric]) blast
  also have "\<dots> \<longleftrightarrow> (\<exists>p \<in> V. \<exists>k \<le> n. (p, m) \<in> ?R ^^ k) \<or> (\<exists>p \<in> V. \<exists>k \<le> n. (p, m) \<in> ?R ^^ Suc k)"
    by (simp add: relcomp_unfold) blast
  also have "\<dots> \<longleftrightarrow> (\<exists>p \<in> V. \<exists>k \<le> Suc n. (p, m) \<in> ?R ^^ k)"
    by (simp only: ex_le_Suc' [of n]) blast
  finally show ?case .
qed simp

lemma expand_ball:
  "expand nbs n {p} {p} = {m. \<exists>k \<le> n. (p, m) \<in> {(x, y). y \<in> nbs x} ^^ k}"
proof -
  have "expand nbs n {p} {p} = ((\<lambda>W. W \<union> (\<Union>x \<in> W. nbs x)) ^^ n) {p}" by (rule expand_iterates) auto
  then show ?thesis
    by (intro set_eqI) (simp only: iterate_relpow bex_simps mem_Collect_eq, simp)
qed

lemma page_fields [simp]:
  "gr_nodes (page_response scope centre nodes edges limit offset m) = take (nat limit) (drop (nat offset) nodes)"
  "gr_next_offset (page_response scope centre nodes edges limit offset m) =
     (if offset + limit < int (length nodes) then Some (offset + limit) else None)"
  "gr_limit (page_response scope centre nodes edges limit offset m) = limit"
  "gr_offset (page_response scope centre nodes edges limit offset m) = offset"
  "gr_total_nodes (page_response scope centre nodes edges limit offset m) = length nodes"
  by (simp_all add: page_response_def Let_def)

lemma semantic_off: "semantic_projection L F M paths False = ([], lit ''unavailable'', 0)"
  by (simp add: semantic_projection_def split: option.split)

section \<open>Edges of a page\<close>

definition edge_ok :: "graph_edge \<Rightarrow> bool" where
  "edge_ok e \<longleftrightarrow> (ge_target e = [] \<longrightarrow> ge_broken e \<or> ge_ambiguous e)"

lemma edge_fields [simp]:
  "ge_target (tag_edge p f) = tag_id f"
  "ge_target (semantic_edge F a b c) = note_id b"
  "ge_target (link_edge row resolved broken amb cands) = (case resolved of None \<Rightarrow> [] | Some t \<Rightarrow> note_id t)"
  "ge_broken (link_edge row resolved broken amb cands) = broken"
  "ge_ambiguous (link_edge row resolved broken amb cands) = amb"
  by (simp_all add: tag_edge_def semantic_edge_def link_edge_def)

lemma row_edge_ok:
  "e \<in> set (edges_of_row P inc row) \<Longrightarrow> edge_ok e \<and> (ge_target e = [] \<longrightarrow> inc)"
  by (auto simp: edges_of_row_def edge_ok_def split: if_splits)

lemma scope_edge_ok:
  "e \<in> set (scope_edges L S P f inc) \<Longrightarrow> edge_ok e \<and> (ge_target e = [] \<longrightarrow> inc)"
  by (auto simp: scope_edges_def edge_ok_def dest: row_edge_ok)

lemma semantic_edge_ok:
  "e \<in> set (fst (semantic_projection L F M P inc)) \<Longrightarrow> edge_ok e \<and> ge_target e \<noteq> []"
  by (auto simp: semantic_projection_def semantic_edges_def edge_ok_def split: option.splits if_splits sum.splits)

lemma page_edges:
  "e \<in> set (gr_edges (page_response scope centre nodes edges limit offset m)) \<Longrightarrow>
     e \<in> set edges \<and>
     ge_source e \<in> gn_id ` set (gr_nodes (page_response scope centre nodes edges limit offset m)) \<and>
     (ge_target e = [] \<or>
      ge_target e \<in> gn_id ` set (gr_nodes (page_response scope centre nodes edges limit offset m)))"
  by (auto simp: page_response_def Let_def dest!: in_set_takeD)

lemma page_bounds:
  "length (gr_edges (page_response scope centre nodes edges limit offset m)) \<le> m"
  "length (gr_nodes (page_response scope centre nodes edges limit offset m)) \<le> nat limit"
  by (simp_all add: page_response_def Let_def)

text \<open>What a response of the service is: one page over the nodes of some notes.\<close>

definition page_safe :: "graph_settings \<Rightarrow> bool \<Rightarrow> graph_response \<Rightarrow> bool" where
  "page_safe G inc r \<longleftrightarrow>
     (let ids = gn_id ` set (gr_nodes r) in
      (\<forall>e \<in> set (gr_edges r). ge_source e \<in> ids \<and>
         (ge_target e \<in> ids \<or> ge_target e = [] \<and> inc \<and> (ge_broken e \<or> ge_ambiguous e))) \<and>
      length (gr_nodes r) \<le> nat (gr_limit r) \<and> gr_limit r \<le> gs_max_limit G \<and>
      length (gr_edges r) \<le> gs_max_edges G)"

lemma page_safeI:
  assumes "limit \<le> gs_max_limit G" "sem = fst (semantic_projection L F M P sim)"
  shows "page_safe G inc ((page_response scope centre nodes
           (scope_edges L S Q f inc @ visible_edges nodes sem) limit offset (gs_max_edges G))
             \<lparr>gr_semantic := st, gr_covered := co\<rparr>)"
proof -
  let ?r = "page_response scope centre nodes (scope_edges L S Q f inc @ visible_edges nodes sem) limit offset (gs_max_edges G)"
  have ok: "edge_ok e \<and> (ge_target e = [] \<longrightarrow> inc)" if "e \<in> set (gr_edges ?r)" for e
    using page_edges [OF that] scope_edge_ok [of e L S Q f inc] semantic_edge_ok [of e L F M P sim] assms(2)
    by (auto simp: visible_edges_def Let_def)
  have "ge_source e \<in> gn_id ` set (gr_nodes ?r) \<and>
      (ge_target e \<in> gn_id ` set (gr_nodes ?r) \<or> ge_target e = [] \<and> inc \<and> (ge_broken e \<or> ge_ambiguous e))"
    if "e \<in> set (gr_edges ?r)" for e
    using page_edges [OF that] ok [OF that] unfolding edge_ok_def by blast
  then show ?thesis
    using page_bounds [of scope centre nodes "scope_edges L S Q f inc @ visible_edges nodes sem" limit offset "gs_max_edges G"] assms(1)
    by (simp add: page_safe_def Let_def)
qed

lemma validated_limit_Inr: "validated_limit G v = Inr l \<Longrightarrow> 0 < l \<and> l \<le> gs_max_limit G"
  by (auto simp: validated_limit_def Let_def split: if_splits)

lemma take_pages:
  "concat (map (\<lambda>k. take l (drop (k * l) xs)) [0..<n]) = take (n * l) xs"
  by (induction n) (simp_all add: take_add [symmetric] add.commute)

lemma check_Inr: "check b e = Inr u \<longleftrightarrow> b"
  by (simp add: check_def)

section \<open>An example\<close>

definition demo_link :: "string \<Rightarrow> nat \<Rightarrow> string \<Rightarrow> link_row" where
  "demo_link source i target =
     \<lparr>lk_source = lit source, lk_seq = i, lk_kind = lit ''wikilink'', lk_raw = lit target, lk_section = None,
      lk_block = None, lk_context = None, lk_resolved = Some (lit target), lk_broken = False,
      lk_ambiguous = False, lk_candidates = []\<rparr>"

definition demo_snapshot :: graph_snapshot where
  "demo_snapshot =
     \<lparr>sn_notes = map (\<lambda>p. \<lparr>nt_path = lit p, nt_title = lit p, nt_basename = lit p\<rparr>) [''a.md'', ''b.md'', ''c.md''],
      sn_tags = [\<lparr>tg_note = lit ''b.md'', tg_tag = lit ''T'', tg_folded = lit ''t''\<rparr>],
      sn_links = [demo_link ''a.md'' 0 ''b.md'', demo_link ''b.md'' 0 ''c.md'']\<rparr>"

definition demo_settings :: graph_settings where
  "demo_settings = \<lparr>gs_default_limit = 100, gs_max_limit = 500, gs_max_depth = 3, gs_max_edges = 1000\<rparr>"

definition demo_floats :: float_lib where
  "demo_floats = \<lparr>fl_centroid = (\<lambda>_ _. None), fl_sumprod = (\<lambda>_ _. 0), fl_round = (\<lambda>x. x)\<rparr>"

definition no_store :: semantic_store where
  "no_store = \<lparr>ss_provider = None, ss_version = [], ss_state = None, ss_fingerprints = (\<lambda>_. None),
     ss_cached = (\<lambda>_. None), ss_compatible = (\<lambda>_ _ _. False), ss_rows = (\<lambda>_. None), ss_moved = False\<rparr>"

definition demo_index :: graph_index where
  "demo_index = \<lparr>gi_ready = True, gi_note_exists = (\<lambda>p. p = lit ''a.md''), gi_snapshot = Inr demo_snapshot\<rparr>"

definition demo_query :: graph_query where
  "demo_query = \<lparr>gq_limit = None, gq_offset = 0, gq_tag = None, gq_include_broken = True, gq_include_semantic = False\<rparr>"

definition demo_response :: "graph_error + graph_response" where
  "demo_response =
     local_graph demo_lib demo_floats demo_settings no_store demo_index (lit ''a.md'') 1 OUTGOING demo_query"

definition demo_page :: graph_response where
  "demo_page = (case demo_response of Inr r \<Rightarrow> r | Inl _ \<Rightarrow> page_response [] None [] [] 0 0 0)"

lemma demo_response_paths:
  "(case demo_response of Inr r \<Rightarrow> map gn_path (gr_nodes r) | Inl _ \<Rightarrow> []) = [Some (lit ''a.md''), Some (lit ''b.md''), None]"
  by code_simp

lemma demo_page:
  "demo_response = Inr demo_page"
  "map gn_path (gr_nodes demo_page) = [Some (lit ''a.md''), Some (lit ''b.md''), None]"
  unfolding demo_page_def
  by (rule conjunct1 [OF sum_case_Cons [OF demo_response_paths]])
    (rule conjunct2 [OF sum_case_Cons [OF demo_response_paths]])

lemmas response_defs = rbind_eq_Inr check_Inr case_prod_unfold Let_def

lemma global_page: "global_graph L F G M X q = Inr r \<Longrightarrow> page_safe G (gq_include_broken q) r"
  unfolding global_graph_def response_defs
  by (auto dest!: validated_limit_Inr intro!: page_safeI [OF _ refl])

lemma local_page: "local_graph L F G M X p depth direction q = Inr r \<Longrightarrow> page_safe G (gq_include_broken q) r"
  unfolding local_graph_def response_defs
  by (elim exE conjE, drule validated_limit_Inr, hypsubst?, simp only: sum.inject(2), hypsubst)
    (rule page_safeI [OF _ refl], simp)

lemma tag_page: "tag_graph L F G M X p q = Inr r \<Longrightarrow> page_safe G (gq_include_broken q) r"
  unfolding tag_graph_def response_defs
  by (auto dest!: validated_limit_Inr intro!: page_safeI [OF _ refl])

section \<open>Properties\<close>

text \<open>
  C29. The local graph of a note, asked for without a tag and without similar notes, shows the notes at
  most \<open>depth\<close> resolved links away from it in the chosen direction: the level-by-level search of the code
  reaches what some path of at most that many links reaches, and nothing else.
\<close>

theorem local_graph_is_the_ball:
  assumes "local_graph L F G M X p depth direction q = Inr r" "gi_snapshot X = Inr S"
    "gq_tag q = None" "gq_include_semantic q = False"
  shows "gr_nodes r =
           take (nat (gr_limit r)) (drop (nat (gr_offset r))
             (scope_nodes L S
               {m. \<exists>k \<le> nat depth. (p, m) \<in> {(x, y). y \<in> neighbours_of S (note_paths_of S) direction x} ^^ k} None))"
  using assms
  by (auto simp: local_graph_def rbind_eq_Inr semantic_off expand_ball validated_tag_filter_def Let_def
      validated_input_text_def validated_depth_def validated_direction_def split: if_splits)

lemma local_graph_is_the_ball_witness:
  "gr_nodes demo_page =
     take (nat (gr_limit demo_page)) (drop (nat (gr_offset demo_page))
       (scope_nodes demo_lib demo_snapshot
         {m. \<exists>k \<le> 1. (lit ''a.md'', m) \<in> {(x, y). y \<in> neighbours_of demo_snapshot (note_paths_of demo_snapshot) OUTGOING x} ^^ k} None)) \<and>
   map gn_path (gr_nodes demo_page) = [Some (lit ''a.md''), Some (lit ''b.md''), None]"
  using local_graph_is_the_ball [OF demo_page(1) [unfolded demo_response_def], of demo_snapshot] demo_page(2)
  by (simp add: demo_index_def demo_query_def)

text \<open>
  C30. A response of any of the three scopes is a safe page: every edge starts at a node of the page, and
  ends at one, unless it is a broken or ambiguous link that the caller asked to see; nodes and edges stay
  within the configured limits.
\<close>

theorem pages_have_no_missing_nodes:
  assumes "Inr r \<in> {global_graph L F G M X q, local_graph L F G M X p depth direction q, tag_graph L F G M X p q}"
  shows "page_safe G (gq_include_broken q) r"
  using assms global_page local_page tag_page by (auto dest: sym)

lemma pages_have_no_missing_nodes_witness:
  "page_safe demo_settings (gq_include_broken demo_query) demo_page"
proof -
  have "Inr demo_page = local_graph demo_lib demo_floats demo_settings no_store demo_index (lit ''a.md'') 1 OUTGOING demo_query"
    using demo_page(1) by (simp only: demo_response_def)
  then show ?thesis
    by (intro pages_have_no_missing_nodes [of demo_page demo_lib demo_floats demo_settings no_store demo_index
        demo_query "lit ''a.md''" 1 OUTGOING]) (rule insertI2, simp only: insert_iff simp_thms)
qed

text \<open>
  Paging loses and repeats nothing: the pages at the offsets zero, one limit, two limits and so on
  carry, one after the other, exactly the sorted nodes of the scope, and each page names the offset of the
  next one as long as a node is left.
\<close>

theorem pages_cover_the_nodes:
  assumes "0 < l" "length nodes \<le> n * l"
  shows "concat (map (\<lambda>k. gr_nodes (page_response scope centre nodes edges (int l) (int (k * l)) m)) [0..<n]) = nodes \<and>
    (\<forall>k. gr_next_offset (page_response scope centre nodes edges (int l) (int (k * l)) m) =
           (if Suc k * l < length nodes then Some (int (Suc k * l)) else None))"
  using assms by (auto simp: take_pages simp flip: of_nat_add of_nat_mult)

lemma pages_cover_the_nodes_witness:
  "concat (map (\<lambda>k. gr_nodes (page_response [] None (gr_nodes demo_page) [] (int 1) (int (k * 1)) 5)) [0..<3]) =
     gr_nodes demo_page"
proof -
  have "length (gr_nodes demo_page) = 3" using arg_cong [OF demo_page(2), of length] by simp
  then show ?thesis using pages_cover_the_nodes [of 1 "gr_nodes demo_page" 3] by simp
qed

end
