(* ===== verification/Chunking.thy ===== *)
theory Chunking imports Utf8 begin

text \<open>
  \<^verbatim>\<open>server/rag/chunking/markdown.py\<close>: a note is cut into blocks (headings, fenced code, tables, text),
  the blocks are grouped into chunks by estimated tokens, oversized text is split at sentences. The
  regular expressions are written out as what they accept of one line; a line has a line feed only at its
  end. The kinds list and text are one here, since the code only asks for quotes. The metadata of the
  frontmatter (YAML) and the modification time are not part of a chunk here.
\<close>

section \<open>Token estimate\<close>

definition is_cjk :: "nat \<Rightarrow> bool" where
  "is_cjk c \<longleftrightarrow> 12352 \<le> c \<and> c \<le> 12543 \<or> 13312 \<le> c \<and> c \<le> 19903 \<or> 19968 \<le> c \<and> c \<le> 40959 \<or>
     44032 \<le> c \<and> c \<le> 55215 \<or> 63744 \<le> c \<and> c \<le> 64255 \<or> 131072 \<le> c \<and> c \<le> 195103"

definition word_char :: "nat \<Rightarrow> bool" where
  "word_char c \<longleftrightarrow> 48 \<le> c \<and> c \<le> 57 \<or> 65 \<le> c \<and> c \<le> 90 \<or> 97 \<le> c \<and> c \<le> 122 \<or> c \<in> {95, 45, 39}"

fun count_tokens :: "pystr \<Rightarrow> nat \<Rightarrow> nat \<Rightarrow> nat" where
  "count_tokens [] tokens latin_run = (if 0 < latin_run then tokens + 1 else tokens)"
| "count_tokens (c # s) tokens latin_run =
     (if c < 128 then
        if word_char c then count_tokens s tokens (latin_run + 1)
        else if 0 < latin_run then count_tokens s (tokens + 1) 0
        else count_tokens s tokens latin_run
      else
        let tokens = (if 0 < latin_run then tokens + 1 else tokens) in
        if is_cjk c then count_tokens s (tokens + 1) 0
        else if is_space c then count_tokens s tokens 0
        else count_tokens s (tokens + 1) 0)"

definition estimate_tokens :: "pystr \<Rightarrow> nat" where
  "estimate_tokens s = count_tokens s 0 0"

section \<open>Lines\<close>

definition indent_char :: "nat \<Rightarrow> bool" where
  "indent_char c \<longleftrightarrow> c = 32 \<or> c = 9"

definition line_body :: "pystr \<Rightarrow> pystr" where
  "line_body line = (if line \<noteq> [] \<and> last line = 10 then butlast line else line)"

text \<open>What follows an indentation of at most three blanks.\<close>

definition unindented :: "pystr \<Rightarrow> pystr option" where
  "unindented line =
     (let b = line_body line in
      if length (takeWhile indent_char b) \<le> 3 then Some (dropWhile indent_char b) else None)"

text \<open>\<open>_FENCE_RE\<close>: the fence character, how often it stands there, and the rest of the line.\<close>

definition fence_of :: "pystr \<Rightarrow> (nat \<times> nat \<times> pystr) option" where
  "fence_of line =
     (case unindented line of
        None \<Rightarrow> None
      | Some [] \<Rightarrow> None
      | Some (c # r) \<Rightarrow>
          let n = length (takeWhile ((=) c) (c # r)) in
          if c \<in> {96, 126} \<and> 3 \<le> n then Some (c, n, drop n (c # r)) else None)"

text \<open>\<open>_HEADING_RE\<close>: the level and the stripped title.\<close>

definition heading_of :: "pystr \<Rightarrow> (nat \<times> pystr) option" where
  "heading_of line =
     (case unindented line of
        None \<Rightarrow> None
      | Some r \<Rightarrow>
          let n = length (takeWhile ((=) 35) r); rest = drop n r in
          if 1 \<le> n \<and> n \<le> 6 \<and> (rest = [] \<or> indent_char (hd rest)) then Some (n, strip rest) else None)"

definition table_row :: "pystr \<Rightarrow> bool" where
  "table_row line =
     (case unindented line of
        None \<Rightarrow> False
      | Some r \<Rightarrow> let t = rstrip_if indent_char r in 2 \<le> length t \<and> hd t = 124 \<and> last t = 124)"

definition quote_line :: "pystr \<Rightarrow> bool" where
  "quote_line line = (case unindented line of Some (c # r) \<Rightarrow> c = 62 | _ \<Rightarrow> False)"

section \<open>Blocks\<close>

datatype segment_kind = HeadingSegment | CodeSegment | TableSegment | TextSegment

record chunk_segment =
  sg_kind :: segment_kind
  sg_text :: pystr
  sg_start :: nat
  sg_end :: nat
  sg_heading :: "pystr option"
  sg_path :: pystr
  sg_level :: nat

definition breadcrumb :: "(nat \<times> pystr) list \<Rightarrow> pystr" where
  "breadcrumb stack =
     (case filter (\<lambda>t. t \<noteq> []) (map snd stack) of
        [] \<Rightarrow> []
      | t # ts \<Rightarrow> t @ concat (map (\<lambda>x. lit '' > '' @ x) ts))"

text \<open>A block below the headings of the stack, whose last entry is the innermost one.\<close>

definition block_at :: "segment_kind \<Rightarrow> pystr \<Rightarrow> nat \<Rightarrow> nat \<Rightarrow> (nat \<times> pystr) list \<Rightarrow> chunk_segment" where
  "block_at kind full start stop stack =
     \<lparr>sg_kind = kind, sg_text = slice full start stop, sg_start = start, sg_end = stop,
      sg_heading = (if stack = [] then None else Some (snd (last stack))),
      sg_path = breadcrumb stack, sg_level = (if stack = [] then 0 else fst (last stack))\<rparr>"

definition flush_text ::
  "pystr \<Rightarrow> (nat \<times> pystr) list \<Rightarrow> (bool \<times> nat \<times> nat) list \<Rightarrow> chunk_segment list \<Rightarrow> chunk_segment list" where
  "flush_text full stack pending segments =
     (if pending = [] then segments
      else
        let start = fst (snd (hd pending)); stop = snd (snd (last pending)) in
        if strip (slice full start stop) = [] then segments
        else segments @ [block_at TextSegment full start stop stack])"

text \<open>The lines after a code block, and where it ends.\<close>

fun fence_end :: "nat \<Rightarrow> nat \<Rightarrow> pystr list \<Rightarrow> nat \<Rightarrow> pystr list \<times> nat" where
  "fence_end fence_char depth [] off = ([], off)"
| "fence_end fence_char depth (candidate # ls) off =
     (case fence_of candidate of
        Some (c, n, info) \<Rightarrow>
          if c = fence_char \<and> depth \<le> n \<and> strip info = [] then (ls, off + length candidate)
          else fence_end fence_char depth ls (off + length candidate)
      | None \<Rightarrow> fence_end fence_char depth ls (off + length candidate))"

fun table_end :: "pystr list \<Rightarrow> nat \<Rightarrow> pystr list \<times> nat" where
  "table_end [] off = ([], off)"
| "table_end (line # ls) off =
     (if table_row line \<or> strip line = [] \<and> ls \<noteq> [] \<and> table_row (hd ls)
      then table_end ls (off + length line) else (line # ls, off))"

fun skip_front :: "nat \<Rightarrow> pystr list \<Rightarrow> nat \<Rightarrow> pystr list \<times> nat" where
  "skip_front body_start [] off = ([], off)"
| "skip_front body_start (line # ls) off =
     (if off < body_start then skip_front body_start ls (off + length line) else (line # ls, off))"

fun front_end :: "pystr list \<Rightarrow> nat \<Rightarrow> nat" where
  "front_end [] off = 0"
| "front_end (line # ls) off =
     (if strip line = lit ''---'' then off + length line else front_end ls (off + length line))"

definition body_offset :: "pystr \<Rightarrow> nat" where
  "body_offset full =
     (if \<not> starts_with full (lit ''---'') then 0
      else
        (case splitlines_keep full of
           [] \<Rightarrow> 0
         | l # ls \<Rightarrow> if strip l \<noteq> lit ''---'' then 0 else front_end ls (length l)))"

definition pop_headings :: "nat \<Rightarrow> (nat \<times> pystr) list \<Rightarrow> (nat \<times> pystr) list" where
  "pop_headings level stack = rev (dropWhile (\<lambda>h. level \<le> fst h) (rev stack))"

definition heading_at :: "pystr \<Rightarrow> nat \<Rightarrow> nat \<Rightarrow> pystr \<Rightarrow> (nat \<times> pystr) list \<Rightarrow> chunk_segment" where
  "heading_at line start level title stack =
     \<lparr>sg_kind = HeadingSegment, sg_text = line, sg_start = start, sg_end = start + length line,
      sg_heading = (if title = [] then None else Some title), sg_path = breadcrumb stack, sg_level = level\<rparr>"

text \<open>The loop over the lines; \<open>None\<close> would be a loop that does not end.\<close>

partial_function (option) scan_lines ::
  "pystr \<Rightarrow> pystr list \<Rightarrow> nat \<Rightarrow> (nat \<times> pystr) list \<Rightarrow> (bool \<times> nat \<times> nat) list \<Rightarrow> chunk_segment list \<Rightarrow>
   chunk_segment list option" where
  "scan_lines full lines offset stack pending segments =
     (if lines = [] then Some (flush_text full stack pending segments)
      else
        let line = hd lines; rest = tl lines; line_end = offset + length line;
            flushed = flush_text full stack pending segments in
        if fence_of line \<noteq> None then
          let (c, n, info) = the (fence_of line); (rest', stop) = fence_end c n rest line_end in
          scan_lines full rest' stop stack [] (flushed @ [block_at CodeSegment full offset stop stack])
        else if heading_of line \<noteq> None then
          let (level, title) = the (heading_of line); stack' = pop_headings level stack @ [(level, title)] in
          scan_lines full rest line_end stack' [] (flushed @ [heading_at line offset level title stack'])
        else if table_row line then
          let (rest', stop) = table_end lines offset in
          scan_lines full rest' stop stack [] (flushed @ [block_at TableSegment full offset stop stack])
        else if strip line = [] then scan_lines full rest line_end stack [] flushed
        else
          let quote = quote_line line;
              (pending', segments') = (if pending \<noteq> [] \<and> quote \<and> \<not> fst (last pending) then ([], flushed)
                                       else (pending, segments));
              start = (if pending' = [] then offset else fst (snd (last pending'))) in
          scan_lines full rest line_end stack (pending' @ [(quote, start, line_end)]) segments')"

definition segments_of :: "pystr \<Rightarrow> chunk_segment list option" where
  "segments_of full =
     (let (lines, offset) = skip_front (body_offset full) (splitlines_keep full) 0 in
      scan_lines full lines offset [] [] [])"

section \<open>Groups\<close>

record chunk_cfg =
  ck_target :: nat
  ck_max :: nat

text \<open>The constructor.\<close>

definition make_chunker :: "int \<Rightarrow> int \<Rightarrow> chunk_cfg" where
  "make_chunker target_tokens max_tokens =
     (let target = nat (max 1 target_tokens) in \<lparr>ck_target = target, ck_max = max target (nat max_tokens)\<rparr>)"

definition starts_new_section :: "chunk_segment list \<Rightarrow> nat \<Rightarrow> bool" where
  "starts_new_section grp level \<longleftrightarrow>
     \<not> list_ex (\<lambda>s. sg_kind s = HeadingSegment \<and> 0 < sg_level s \<and> sg_level s \<le> level) grp"

text \<open>Where the sentence expression splits: after the character \<open>c\<close>, with \<open>s\<close> to follow.\<close>

definition sentence_ends :: "nat \<Rightarrow> pystr \<Rightarrow> bool" where
  "sentence_ends c s \<longleftrightarrow> c \<in> {12290, 65281, 65311, 65307, 33, 63, 59} \<or>
     c = 46 \<and> s \<noteq> [] \<and> is_space (hd s) \<or> c = 10"

fun split_sentences :: "pystr \<Rightarrow> pystr \<Rightarrow> pystr list" where
  "split_sentences cur [] = (if cur = [] then [] else [cur])"
| "split_sentences cur (c # s) =
     (if sentence_ends c s then (cur @ [c]) # split_sentences [] s else split_sentences (cur @ [c]) s)"

function chop_every :: "nat \<Rightarrow> pystr \<Rightarrow> pystr list" where
  "chop_every n s = (if s = [] \<or> n = 0 then [] else take n s # chop_every n (drop n s))"
  by pat_completeness auto
termination by (relation "measure (\<lambda>(n, s). length s)") auto

definition sentence_pieces :: "pystr \<Rightarrow> pystr list" where
  "sentence_pieces s =
     (let pieces = split_sentences [] s in
      if length pieces \<le> 1 \<and> 1 < length s then chop_every 400 s else pieces)"

fun split_pieces ::
  "chunk_cfg \<Rightarrow> chunk_segment \<Rightarrow> pystr list \<Rightarrow> nat \<Rightarrow> chunk_segment list \<Rightarrow> nat \<Rightarrow> chunk_segment list list" where
  "split_pieces K segment [] start current tokens = (if current = [] then [] else [current])"
| "split_pieces K segment (piece # pieces) start current tokens =
     (let piece_tokens = estimate_tokens piece;
          full = (current \<noteq> [] \<and> ck_target K < tokens + piece_tokens);
          current1 = (if full then [] else current);
          tokens1 = (if full then 0 else tokens) + piece_tokens;
          stop = start + length piece;
          current2 = current1 @ [segment\<lparr>sg_text := piece, sg_start := start, sg_end := stop\<rparr>] in
      (if full then [current] else []) @
      (if ck_max K \<le> tokens1 then current2 # split_pieces K segment pieces stop [] 0
       else split_pieces K segment pieces stop current2 tokens1))"

definition split_segment :: "chunk_cfg \<Rightarrow> chunk_segment \<Rightarrow> chunk_segment list list" where
  "split_segment K segment =
     (if sg_kind segment \<in> {CodeSegment, TableSegment} then [[segment]]
      else split_pieces K segment (sentence_pieces (sg_text segment)) (sg_start segment) [] 0)"

fun group_segments ::
  "chunk_cfg \<Rightarrow> chunk_segment list \<Rightarrow> chunk_segment list list \<Rightarrow> chunk_segment list \<Rightarrow> nat \<Rightarrow>
   chunk_segment list list" where
  "group_segments K [] groups current tokens = (if current = [] then groups else groups @ [current])"
| "group_segments K (segment # rest) groups current tokens =
     (let n = estimate_tokens (sg_text segment) in
      if ck_max K < n then
        group_segments K rest
          ((if current = [] then groups else groups @ [current]) @ split_segment K segment) [] 0
      else
        let closes = (sg_kind segment = HeadingSegment \<and> current \<noteq> [] \<and>
                      starts_new_section current (sg_level segment) \<and> ck_target K \<le> tokens);
            (groups1, current1, tokens1) = (if closes then (groups @ [current], [], 0) else (groups, current, tokens));
            (groups2, current2, tokens2) =
              (if current1 \<noteq> [] \<and> ck_max K < tokens1 + n then (groups1 @ [current1], [], 0)
               else (groups1, current1, tokens1));
            current3 = current2 @ [segment]; tokens3 = tokens2 + n in
        if ck_target K \<le> tokens3 \<and> sg_kind segment \<in> {CodeSegment, TableSegment}
        then group_segments K rest (groups2 @ [current3]) [] 0
        else group_segments K rest groups2 current3 tokens3)"

section \<open>Chunks\<close>

record rag_chunk =
  rc_chunk_id :: pystr
  rc_doc :: pystr
  rc_content :: pystr
  rc_hash :: pystr
  rc_heading :: "pystr option"
  rc_heading_path :: "pystr option"
  rc_section_path :: "pystr option"
  rc_start :: nat
  rc_end :: nat
  rc_start_line :: nat
  rc_end_line :: nat
  rc_index :: nat
  rc_tokens :: nat

text \<open>A note was decoded from UTF-8, so its parts can be encoded.\<close>

definition encoded :: "pystr \<Rightarrow> bytes" where
  "encoded s = (case utf8_encode s of None \<Rightarrow> [] | Some b \<Rightarrow> b)"

definition content_hash :: "pylib \<Rightarrow> pystr \<Rightarrow> pystr" where
  "content_hash L content = hexdigest L (encoded content)"

definition chunk_id_of :: "pylib \<Rightarrow> pystr \<Rightarrow> pystr \<Rightarrow> pystr" where
  "chunk_id_of L path content = take 24 (hexdigest L (encoded (path @ [0] @ content_hash L content)))"

fun min_level :: "chunk_segment \<Rightarrow> chunk_segment list \<Rightarrow> chunk_segment" where
  "min_level s [] = s"
| "min_level s (t # ts) = min_level (if sg_level t < sg_level s then t else s) ts"

definition owner_heading :: "chunk_segment list \<Rightarrow> chunk_segment" where
  "owner_heading grp =
     (case filter (\<lambda>s. sg_kind s = HeadingSegment) grp of [] \<Rightarrow> last grp | h # hs \<Rightarrow> min_level h hs)"

definition line_of :: "pystr \<Rightarrow> nat \<Rightarrow> nat" where
  "line_of full offset = count_list (take offset full) 10 + 1"

fun last_line_back :: "pystr \<Rightarrow> nat \<Rightarrow> nat" where
  "last_line_back full 0 = 0"
| "last_line_back full (Suc i) =
     (if full ! Suc i \<in> {10, 13} then last_line_back full i else Suc i)"

definition last_line_offset :: "pystr \<Rightarrow> nat \<Rightarrow> nat" where
  "last_line_offset full end_offset = (if end_offset = 0 then 0 else last_line_back full (end_offset - 1))"

definition nonempty :: "pystr \<Rightarrow> pystr option" where
  "nonempty s = (if s = [] then None else Some s)"

definition make_chunk :: "pylib \<Rightarrow> pystr \<Rightarrow> pystr \<Rightarrow> nat \<Rightarrow> chunk_segment list \<Rightarrow> rag_chunk" where
  "make_chunk L path full i grp =
     (let start = sg_start (hd grp); stop = sg_end (last grp); content = slice full start stop;
          owner = owner_heading grp in
      \<lparr>rc_chunk_id = chunk_id_of L path content, rc_doc = path, rc_content = content,
       rc_hash = content_hash L content, rc_heading = sg_heading owner,
       rc_heading_path = nonempty (sg_path owner), rc_section_path = nonempty (sg_path (last grp)),
       rc_start = start, rc_end = stop, rc_start_line = line_of full start,
       rc_end_line = line_of full (last_line_offset full stop), rc_index = i,
       rc_tokens = estimate_tokens content\<rparr>)"

fun make_chunks :: "pylib \<Rightarrow> pystr \<Rightarrow> pystr \<Rightarrow> chunk_segment list list \<Rightarrow> rag_chunk list \<Rightarrow> rag_chunk list" where
  "make_chunks L path full [] chunks = chunks"
| "make_chunks L path full (grp # groups) chunks =
     (if strip (slice full (sg_start (hd grp)) (sg_end (last grp))) = []
      then make_chunks L path full groups chunks
      else make_chunks L path full groups (chunks @ [make_chunk L path full (length chunks) grp]))"

definition chunk_document :: "pylib \<Rightarrow> chunk_cfg \<Rightarrow> pystr \<Rightarrow> pystr \<Rightarrow> rag_chunk list option" where
  "chunk_document L K path full =
     (if strip full = [] then Some []
      else
        map_option (\<lambda>segments. make_chunks L path full (group_segments K segments [] [] 0) [])
          (segments_of full))"

end
