(* ===== verification/ChunkProofs.thy ===== *)
theory ChunkProofs imports Chunking begin

text \<open>
  Laws of the chunker: its scan consumes the lines, the blocks of a note and then its groups lie one after
  the other in the note with nothing but white space between them, and code and tables stay whole.
\<close>

section \<open>The scan consumes its lines\<close>

lemma fence_end_concat:
  "fence_end c d ls off = (ls', off') \<Longrightarrow> \<exists>pre. ls = pre @ ls' \<and> off' = off + length (concat pre)"
proof (induction c d ls off rule: fence_end.induct)
  case (2 c d l ls off)
  show ?case
  proof (cases "\<exists>n info. fence_of l = Some (c, n, info) \<and> d \<le> n \<and> strip info = []")
    case True
    with 2(3) have "ls' = ls" "off' = off + length l" by auto
    then show ?thesis by (intro exI [of _ "[l]"]) simp
  next
    case False
    then have "fence_end c d ls (off + length l) = (ls', off')"
      using 2(3) by (auto split: option.splits if_splits)
    then have "\<exists>pre. ls = pre @ ls' \<and> off' = off + length l + length (concat pre)"
    proof (cases "fence_of l")
      case None
      then show ?thesis using "2.IH"(1) \<open>fence_end c d ls (off + length l) = (ls', off')\<close> by blast
    next
      case (Some t)
      then show ?thesis
        using "2.IH"(2) False \<open>fence_end c d ls (off + length l) = (ls', off')\<close> by (cases t) auto
    qed
    then obtain pre where "ls = pre @ ls'" "off' = off + length l + length (concat pre)" by blast
    then show ?thesis by (intro exI [of _ "l # pre"]) simp
  qed
qed simp

lemma table_end_concat:
  "table_end ls off = (ls', off') \<Longrightarrow> \<exists>pre. ls = pre @ ls' \<and> off' = off + length (concat pre)"
proof (induction ls off rule: table_end.induct)
  case (2 l ls off)
  show ?case
  proof (cases "table_row l \<or> strip l = [] \<and> ls \<noteq> [] \<and> table_row (hd ls)")
    case True
    with 2 obtain pre where "ls = pre @ ls'" "off' = off + length l + length (concat pre)" by auto
    then show ?thesis by (intro exI [of _ "l # pre"]) simp
  next
    case False
    with 2(2) show ?thesis by auto
  qed
qed simp

lemma table_end_first:
  assumes "table_row l" "table_end (l # ls) off = (ls', off')"
  shows "\<exists>pre. ls = pre @ ls' \<and> off' = off + length (concat (l # pre))"
proof -
  from assms have "table_end ls (off + length l) = (ls', off')" by simp
  from table_end_concat [OF this] show ?thesis by auto
qed

lemma skip_front_concat:
  "skip_front b ls off = (ls', off') \<Longrightarrow> \<exists>pre. ls = pre @ ls' \<and> off' = off + length (concat pre)"
proof (induction b ls off rule: skip_front.induct)
  case (2 b l ls off)
  show ?case
  proof (cases "off < b")
    case True
    with 2 obtain pre where "ls = pre @ ls'" "off' = off + length l + length (concat pre)" by auto
    then show ?thesis by (intro exI [of _ "l # pre"]) simp
  next
    case False
    with 2(2) show ?thesis by auto
  qed
qed simp

text \<open>What the loop does with its first line: the state it goes on with.\<close>

definition scan_step ::
  "pystr \<Rightarrow> pystr \<Rightarrow> pystr list \<Rightarrow> nat \<Rightarrow> (nat \<times> pystr) list \<Rightarrow> (bool \<times> nat \<times> nat) list \<Rightarrow> chunk_segment list \<Rightarrow>
   pystr list \<times> nat \<times> (nat \<times> pystr) list \<times> (bool \<times> nat \<times> nat) list \<times> chunk_segment list" where
  "scan_step full line rest offset stack pending segments =
     (let line_end = offset + length line; flushed = flush_text full stack pending segments in
      case fence_of line of
        Some (c, n, info) \<Rightarrow>
          let (rest', stop) = fence_end c n rest line_end in
          (rest', stop, stack, [], flushed @ [block_at CodeSegment full offset stop stack])
      | None \<Rightarrow>
        case heading_of line of
          Some (level, title) \<Rightarrow>
            let stack' = pop_headings level stack @ [(level, title)] in
            (rest, line_end, stack', [], flushed @ [heading_at line offset level title stack'])
        | None \<Rightarrow>
          if table_row line then
            let (rest', stop) = table_end (line # rest) offset in
            (rest', stop, stack, [], flushed @ [block_at TableSegment full offset stop stack])
          else if strip line = [] then (rest, line_end, stack, [], flushed)
          else
            let quote = quote_line line;
                (pending', segments') = (if pending \<noteq> [] \<and> quote \<and> \<not> fst (last pending) then ([], flushed)
                                         else (pending, segments));
                start = (if pending' = [] then offset else fst (snd (last pending'))) in
            (rest, line_end, stack, pending' @ [(quote, start, line_end)], segments'))"

lemma scan_lines_Nil: "scan_lines full [] offset stack pending segments = Some (flush_text full stack pending segments)"
  by (subst scan_lines.simps) simp

lemma scan_lines_Cons:
  "scan_lines full (line # rest) offset stack pending segments =
     (let (rest', offset', stack', pending', segments') = scan_step full line rest offset stack pending segments in
      scan_lines full rest' offset' stack' pending' segments')"
  by (subst scan_lines.simps)
    (auto simp: scan_step_def Let_def split: option.split prod.split)

lemma scan_step_consumes:
  assumes "scan_step full line rest offset stack pending segments = (rest', offset', s)"
  shows "\<exists>pre. rest = pre @ rest' \<and> offset' = offset + length (concat (line # pre))"
proof -
  consider (code) c n info where "fence_of line = Some (c, n, info)" | (table) "fence_of line = None" "heading_of line = None" "table_row line"
    | (line) "rest' = rest" "offset' = offset + length line"
    using assms by (auto simp: scan_step_def Let_def split: option.splits if_splits prod.splits)
  then show ?thesis
  proof cases
    case code
    then have "fence_end c n rest (offset + length line) = (rest', offset')"
      using assms by (auto simp: scan_step_def Let_def split: prod.splits)
    then show ?thesis using fence_end_concat by fastforce
  next
    case table
    then have "table_end (line # rest) offset = (rest', offset')"
      using assms by (auto simp: scan_step_def Let_def split: prod.splits)
    with table_end_first table(3) show ?thesis by blast
  qed auto
qed

lemma scan_lines_total: "\<exists>segs. scan_lines full lines offset stack pending segments = Some segs"
proof (induction lines arbitrary: offset stack pending segments rule: measure_induct_rule [where f = length])
  case (less lines)
  show ?case
  proof (cases lines)
    case Nil
    then show ?thesis by (simp add: scan_lines_Nil)
  next
    case (Cons line rest)
    obtain rest' offset' s where step: "scan_step full line rest offset stack pending segments = (rest', offset', s)"
      by (metis prod_cases3)
    with scan_step_consumes have "length rest' < length lines" unfolding Cons by fastforce
    with less step show ?thesis by (auto simp: Cons scan_lines_Cons split: prod.split)
  qed
qed

section \<open>Blocks in order\<close>

text \<open>The blocks lie in \<open>[a, b)\<close> one after the other, and only white space is left out.\<close>

fun covers :: "pystr \<Rightarrow> nat \<Rightarrow> chunk_segment list \<Rightarrow> nat \<Rightarrow> bool" where
  "covers full a [] b \<longleftrightarrow> a \<le> b \<and> list_all is_space (slice full a b)"
| "covers full a (s # ss) b \<longleftrightarrow>
     a \<le> sg_start s \<and> list_all is_space (slice full a (sg_start s)) \<and> sg_start s \<le> sg_end s \<and>
     sg_text s = slice full (sg_start s) (sg_end s) \<and> covers full (sg_end s) ss b"

lemma slice_empty [simp]: "slice full a a = []"
  by (simp add: slice_def)

lemma list_all_slice_trans:
  assumes "a \<le> b" "b \<le> c"
  shows "list_all P (slice full a c) \<longleftrightarrow> list_all P (slice full a b) \<and> list_all P (slice full b c)"
proof -
  have "slice full a c = slice full a b @ slice full b c" by (rule slice_append_slice [OF assms, symmetric])
  then show ?thesis by simp
qed

lemma covers_le: "covers full a ss b \<Longrightarrow> a \<le> b"
  by (induction ss arbitrary: a) fastforce+

lemma covers_gap_left: "a' \<le> a \<Longrightarrow> list_all is_space (slice full a' a) \<Longrightarrow> covers full a ss b \<Longrightarrow> covers full a' ss b"
  by (cases ss) (auto intro: list_all_slice_trans [THEN iffD2])

lemma covers_append:
  "covers full a (xs @ ys) b \<longleftrightarrow> (\<exists>p. covers full a xs p \<and> covers full p ys b)"
proof (induction xs arbitrary: a)
  case Nil
  show ?case
  proof
    assume "covers full a ([] @ ys) b"
    then show "\<exists>p. covers full a [] p \<and> covers full p ys b" by (intro exI [of _ a]) simp
  qed (auto intro: covers_gap_left)
qed auto

lemma covers_snoc:
  "covers full a ss p \<Longrightarrow> p \<le> q \<Longrightarrow> sg_start s = p \<Longrightarrow> sg_end s = q \<Longrightarrow> sg_text s = slice full p q \<Longrightarrow>
     covers full a (ss @ [s]) q"
  by (auto simp: covers_append intro!: exI [of _ p])

lemma covers_gap: "covers full a ss p \<Longrightarrow> p \<le> q \<Longrightarrow> list_all is_space (slice full p q) \<Longrightarrow> covers full a ss q"
  using covers_append [of full a ss "[]" q] by auto

text \<open>The pending lines of a paragraph: they all start where the paragraph does.\<close>

definition pending_at :: "(bool \<times> nat \<times> nat) list \<Rightarrow> nat \<Rightarrow> nat \<Rightarrow> bool" where
  "pending_at pending p off \<longleftrightarrow> p \<le> off \<and>
     (if pending = [] then p = off
      else fst (snd (hd pending)) = p \<and> fst (snd (last pending)) = p \<and> snd (snd (last pending)) = off)"

lemma block_at_fields [simp]:
  "sg_start (block_at k full i j st) = i" "sg_end (block_at k full i j st) = j"
  "sg_text (block_at k full i j st) = slice full i j" "sg_kind (block_at k full i j st) = k"
  by (simp_all add: block_at_def)

lemma heading_at_fields [simp]:
  "sg_start (heading_at line i level t st) = i" "sg_end (heading_at line i level t st) = i + length line"
  "sg_text (heading_at line i level t st) = line" "sg_kind (heading_at line i level t st) = HeadingSegment"
  by (simp_all add: heading_at_def)

lemma flush_covers:
  assumes "covers full a segments p" "pending_at pending p off"
  shows "covers full a (flush_text full stack pending segments) off"
  using assms
  by (auto simp: flush_text_def pending_at_def Let_def strip_if_empty intro: covers_gap
      intro!: covers_snoc [where p = p] split: if_splits)

lemma slice_line:
  assumes "line @ t = drop off full"
  shows "slice full off (off + length line) = line"
  using assms by (simp add: slice_def flip: assms)

text \<open>The state between two lines.\<close>

definition scan_inv ::
  "pystr \<Rightarrow> nat \<Rightarrow> pystr list \<Rightarrow> nat \<Rightarrow> (bool \<times> nat \<times> nat) list \<Rightarrow> chunk_segment list \<Rightarrow> bool" where
  "scan_inv full a lines off pending segments \<longleftrightarrow>
     concat lines = drop off full \<and> off \<le> length full \<and>
     (\<exists>p. covers full a segments p \<and> pending_at pending p off)"

lemma pending_at_Nil [simp]: "pending_at [] p off \<longleftrightarrow> p = off"
  by (auto simp: pending_at_def)

lemma scan_step_inv:
  assumes inv: "scan_inv full a (line # rest) off pending segments"
    and step: "scan_step full line rest off stack pending segments = (rest', off', stack', pending', segments')"
  shows "scan_inv full a rest' off' pending' segments'"
proof -
  obtain pre where pre: "rest = pre @ rest'" "off' = off + length (concat (line # pre))"
    using scan_step_consumes [OF step] by blast
  from inv have lines: "line @ concat rest = drop off full" "off \<le> length full" by (simp_all add: scan_inv_def)
  obtain p where p: "covers full a segments p" "pending_at pending p off" using inv by (auto simp: scan_inv_def)
  have flushed: "covers full a (flush_text full stack pending segments) off" using p by (rule flush_covers)
  have "drop off' full = drop (length (concat (line # pre))) (drop off full)"
    using pre(2) by (simp add: add.commute)
  then have rest': "concat rest' = drop off' full" using lines(1) pre(1) by (simp flip: lines(1))
  have "length (concat (line # pre)) \<le> length (drop off full)" using pre(1) by (simp flip: lines(1))
  then have len: "off' \<le> length full" "off \<le> off'" using lines(2) pre(2) by auto
  have body: "slice full off (off + length line) = line" using lines(1) by (rule slice_line)
  have "\<exists>p. covers full a segments' p \<and> pending_at pending' p off'"
  proof (cases "pending' = []")
    case True
    have "covers full a segments' off'"
      using True step flushed len(2) body
      by (auto simp: scan_step_def Let_def strip_if_empty intro: covers_gap intro!: covers_snoc [where p = off]
          split: option.splits if_splits prod.splits)
    with True show ?thesis by simp
  next
    case False
    with step have eqs: "fence_of line = None" "heading_of line = None" "\<not> table_row line" "strip line \<noteq> []" "off' = off + length line"
      by (auto simp: scan_step_def Let_def split: option.splits if_splits prod.splits)
    show ?thesis
    proof (cases "pending \<noteq> [] \<and> quote_line line \<and> \<not> fst (last pending)")
      case True
      with step eqs have "pending' = [(quote_line line, off, off')]" "segments' = flush_text full stack pending segments"
        by (auto simp: scan_step_def Let_def)
      with flushed len show ?thesis by (intro exI [of _ off]) (simp add: pending_at_def)
    next
      case no: False
      with step eqs have "segments' = segments"
        "pending' = pending @ [(quote_line line, if pending = [] then off else fst (snd (last pending)), off')]"
        by (auto simp: scan_step_def Let_def split: if_splits)
      with p len show ?thesis by (intro exI [of _ p]) (auto simp: pending_at_def split: if_splits)
    qed
  qed
  with rest' len show ?thesis by (simp add: scan_inv_def)
qed

lemma scan_lines_covers:
  "scan_inv full a lines off pending segments \<Longrightarrow> scan_lines full lines off stack pending segments = Some segs \<Longrightarrow>
     covers full a segs (length full)"
proof (induction lines arbitrary: off stack pending segments rule: measure_induct_rule [where f = length])
  case (less lines)
  show ?case
  proof (cases lines)
    case Nil
    with less.prems(1) have "off = length full" by (simp add: scan_inv_def)
    with less.prems show ?thesis by (auto simp: Nil scan_lines_Nil scan_inv_def intro: flush_covers)
  next
    case (Cons line rest)
    obtain rest' off' stack' pending' segments' where
      step: "scan_step full line rest off stack pending segments = (rest', off', stack', pending', segments')"
      by (metis prod_cases5)
    then have "length rest' < length lines" using scan_step_consumes [OF step] unfolding Cons by auto
    then show ?thesis
      using less.IH scan_step_inv [OF _ step, of a] less.prems step by (simp add: Cons scan_lines_Cons)
  qed
qed

section \<open>Sentences\<close>

declare chop_every.simps [simp del]

lemma concat_split_sentences: "concat (split_sentences cur s) = cur @ s"
  by (induction cur s rule: split_sentences.induct) auto

lemma concat_chop_every: "0 < n \<Longrightarrow> concat (chop_every n s) = s"
proof (induction n s rule: chop_every.induct)
  case (1 n s)
  then show ?case by (simp add: chop_every.simps [of n s])
qed

lemma concat_sentence_pieces [simp]: "concat (sentence_pieces s) = s"
  by (simp add: sentence_pieces_def Let_def concat_split_sentences concat_chop_every)

lemma sentence_pieces_not_Nil: "s \<noteq> [] \<Longrightarrow> sentence_pieces s \<noteq> []"
  by (metis concat.simps(1) concat_sentence_pieces)

fun pieces_at :: "chunk_segment \<Rightarrow> pystr list \<Rightarrow> nat \<Rightarrow> chunk_segment list" where
  "pieces_at segment [] start = []"
| "pieces_at segment (piece # pieces) start =
     segment\<lparr>sg_text := piece, sg_start := start, sg_end := start + length piece\<rparr> #
     pieces_at segment pieces (start + length piece)"

lemma concat_split_pieces: "concat (split_pieces K segment pieces start current tokens) = current @ pieces_at segment pieces start"
  by (induction pieces arbitrary: start current tokens) (simp_all add: Let_def)

lemma split_pieces_nonempty: "g \<in> set (split_pieces K segment pieces start current tokens) \<Longrightarrow> g \<noteq> []"
  by (induction pieces arbitrary: start current tokens) (auto simp: Let_def split: if_splits)

lemma pieces_at_covers:
  "slice full start stop = concat pieces \<Longrightarrow> start \<le> stop \<Longrightarrow> stop \<le> length full \<Longrightarrow>
     covers full start (pieces_at segment pieces start) stop"
proof (induction pieces arbitrary: start)
  case (Cons piece pieces)
  have "length (slice full start stop) = stop - start" using Cons.prems(2,3) by (simp add: length_slice)
  then have le: "start + length piece \<le> stop" unfolding Cons.prems(1) using Cons.prems(2) by simp
  have "slice full start (start + length piece) @ slice full (start + length piece) stop = piece @ concat pieces"
    using Cons.prems le by (simp add: slice_append_slice)
  moreover have "length (slice full start (start + length piece)) = length piece"
    using Cons.prems le by (simp add: length_slice)
  ultimately have "slice full start (start + length piece) = piece" "slice full (start + length piece) stop = concat pieces"
    by (simp_all add: append_eq_append_conv)
  with Cons.IH [of "start + length piece"] le Cons.prems show ?case by simp
qed simp

lemma concat_split_segment:
  "concat (split_segment K segment) =
     (if sg_kind segment \<in> {CodeSegment, TableSegment} then [segment]
      else pieces_at segment (sentence_pieces (sg_text segment)) (sg_start segment))"
  by (simp add: split_segment_def concat_split_pieces)

lemma split_segment_covers:
  assumes "covers full a [segment] b" "b \<le> length full"
  shows "covers full a (concat (split_segment K segment)) b"
proof (cases "sg_kind segment \<in> {CodeSegment, TableSegment}")
  case True
  with assms show ?thesis by (simp add: concat_split_segment)
next
  case False
  have "covers full (sg_start segment) (pieces_at segment (sentence_pieces (sg_text segment)) (sg_start segment)) (sg_end segment)"
    using assms by (intro pieces_at_covers) auto
  with False assms covers_gap show ?thesis
    by (auto simp: concat_split_segment intro: covers_gap_left)
qed

section \<open>Groups\<close>

lemma split_segment_nonempty: "g \<in> set (split_segment K segment) \<Longrightarrow> g \<noteq> []"
  by (auto simp: split_segment_def dest: split_pieces_nonempty split: if_splits)

text \<open>What the loop does with one block: a split, or the block joins the current group or a fresh one.\<close>

lemma group_segments_step:
  obtains (split) "ck_max K < estimate_tokens (sg_text segment)"
    "group_segments K (segment # rest) groups current tokens =
       group_segments K rest ((if current = [] then groups else groups @ [current]) @ split_segment K segment) [] 0"
  | (join) groups1 current1 tokens1 where
    "estimate_tokens (sg_text segment) \<le> ck_max K"
    "(groups1, current1, tokens1) = (groups, current, tokens) \<or>
     current \<noteq> [] \<and> (groups1, current1, tokens1) = (groups @ [current], [], 0)"
    "current1 = [] \<or> tokens1 + estimate_tokens (sg_text segment) \<le> ck_max K"
    "group_segments K (segment # rest) groups current tokens =
       group_segments K rest groups1 (current1 @ [segment]) (tokens1 + estimate_tokens (sg_text segment)) \<or>
     group_segments K (segment # rest) groups current tokens =
       group_segments K rest (groups1 @ [current1 @ [segment]]) [] 0"
proof (cases "ck_max K < estimate_tokens (sg_text segment)")
  case True
  then show thesis by (intro split) (simp_all add: Let_def)
next
  case False
  let ?n = "estimate_tokens (sg_text segment)"
  define closes where "closes \<longleftrightarrow> sg_kind segment = HeadingSegment \<and> current \<noteq> [] \<and>
      starts_new_section current (sg_level segment) \<and> ck_target K \<le> tokens"
  define fresh where "fresh \<longleftrightarrow> closes \<or> current \<noteq> [] \<and> ck_max K < tokens + ?n"
  show thesis
  proof (rule join [of "if fresh then groups @ [current] else groups" "if fresh then [] else current" "if fresh then 0 else tokens"])
    show "group_segments K (segment # rest) groups current tokens =
        group_segments K rest (if fresh then groups @ [current] else groups)
          ((if fresh then [] else current) @ [segment]) ((if fresh then 0 else tokens) + ?n) \<or>
      group_segments K (segment # rest) groups current tokens =
        group_segments K rest ((if fresh then groups @ [current] else groups) @ [(if fresh then [] else current) @ [segment]]) [] 0"
      using False unfolding fresh_def by (cases closes) (simp_all add: Let_def closes_def [symmetric])
  qed (use False in \<open>auto simp: fresh_def closes_def\<close>)
qed

declare group_segments.simps(2) [simp del]

lemma group_segments_nonempty:
  "[] \<notin> set groups \<Longrightarrow> [] \<notin> set (group_segments K segments groups current tokens)"
proof (induction segments arbitrary: groups current tokens)
  case (Cons segment segments)
  show ?case
  proof (cases rule: group_segments_step [of K segment segments groups current tokens])
    case split
    have "[] \<notin> set ((if current = [] then groups else groups @ [current]) @ split_segment K segment)"
      using Cons.prems split_segment_nonempty by auto
    from Cons.IH [OF this] show ?thesis unfolding split(2) .
  next
    case (join groups1 current1 tokens1)
    then have "[] \<notin> set groups1" using Cons.prems by auto
    then show ?thesis using join(4) Cons.IH by auto
  qed
qed simp

lemma group_segments_covers:
  "covers full a (concat groups @ current @ segments) b \<Longrightarrow> b \<le> length full \<Longrightarrow>
     covers full a (concat (group_segments K segments groups current tokens)) b"
proof (induction segments arbitrary: groups current tokens)
  case (Cons segment rest)
  show ?case
  proof (cases rule: group_segments_step [of K segment rest groups current tokens])
    case split
    have "covers full a ((concat groups @ current) @ [segment] @ rest) b" using Cons.prems(1) by simp
    then obtain p q where pq: "covers full a (concat groups @ current) p" "covers full p [segment] q" "covers full q rest b"
      unfolding covers_append by blast
    then have "covers full p (concat (split_segment K segment)) q"
      using Cons.prems(2) covers_le by (intro split_segment_covers) (auto dest: covers_le)
    with pq have "covers full a ((concat groups @ current) @ concat (split_segment K segment) @ rest) b"
      unfolding covers_append by blast
    then have "covers full a (concat ((if current = [] then groups else groups @ [current]) @ split_segment K segment) @ [] @ rest) b"
      by (cases "current = []") simp_all
    from Cons.IH [OF this Cons.prems(2)] show ?thesis unfolding split(2) .
  next
    case (join groups1 current1 tokens1)
    then have "concat groups1 @ current1 = concat groups @ current" by auto
    then have "covers full a ((concat groups1 @ current1) @ segment # rest) b" using Cons.prems(1) by simp
    with join(4) Cons.IH [of groups1 "current1 @ [segment]"] Cons.IH [of "groups1 @ [current1 @ [segment]]" "[]"] Cons.prems(2)
    show ?thesis by auto
  qed
qed (simp; metis append_Nil2)

lemma group_segments_keep:
  "sg_kind s \<in> {CodeSegment, TableSegment} \<Longrightarrow> s \<in> set (concat groups @ current @ segments) \<Longrightarrow>
     s \<in> set (concat (group_segments K segments groups current tokens))"
proof (induction segments arbitrary: groups current tokens)
  case (Cons segment rest)
  show ?case
  proof (cases rule: group_segments_step [of K segment rest groups current tokens])
    case split
    have "s \<in> set (concat ((if current = [] then groups else groups @ [current]) @ split_segment K segment) @ [] @ rest)"
      using Cons.prems by (cases "s = segment") (auto simp: concat_split_segment simp flip: set_concat)
    from Cons.IH [OF Cons.prems(1) this] show ?thesis unfolding split(2) .
  next
    case (join groups1 current1 tokens1)
    then have "concat groups1 @ current1 = concat groups @ current" by auto
    then have "s \<in> set ((concat groups1 @ current1) @ segment # rest)" using Cons.prems(2) by simp
    with join(4) Cons.IH [of groups1 "current1 @ [segment]"] Cons.IH [of "groups1 @ [current1 @ [segment]]" "[]"] Cons.prems(1)
    show ?thesis by auto
  qed
qed auto

section \<open>Tokens\<close>

definition group_tokens :: "chunk_segment list \<Rightarrow> nat" where
  "group_tokens g = sum_list (map (\<lambda>s. estimate_tokens (sg_text s)) g)"

lemma group_tokens_simps [simp]:
  "group_tokens [] = 0" "group_tokens (s # g) = estimate_tokens (sg_text s) + group_tokens g"
  "group_tokens (g @ h) = group_tokens g + group_tokens h"
  by (simp_all add: group_tokens_def)

text \<open>Within the maximum, or a single block that may exceed it.\<close>

definition tight :: "chunk_cfg \<Rightarrow> (chunk_segment \<Rightarrow> bool) \<Rightarrow> chunk_segment list \<Rightarrow> bool" where
  "tight K P g \<longleftrightarrow> group_tokens g \<le> ck_max K \<or> (\<exists>s. g = [s] \<and> P s)"

lemma split_pieces_tight:
  "ck_target K \<le> ck_max K \<Longrightarrow> tokens = group_tokens current \<Longrightarrow> tokens \<le> ck_max K \<Longrightarrow>
     \<forall>s \<in> set (pieces_at segment pieces start). P s \<Longrightarrow>
     g \<in> set (split_pieces K segment pieces start current tokens) \<Longrightarrow> tight K P g"
proof (induction pieces arbitrary: start current tokens)
  case Nil
  then show ?case by (auto simp: tight_def split: if_splits)
next
  case (Cons piece pieces)
  let ?s = "segment\<lparr>sg_text := piece, sg_start := start, sg_end := start + length piece\<rparr>"
  define full where "full \<longleftrightarrow> current \<noteq> [] \<and> ck_target K < tokens + estimate_tokens piece"
  define c where "c = (if full then [] else current) @ [?s]"
  define t where "t = (if full then 0 else tokens) + estimate_tokens piece"
  have t: "t = group_tokens c" using Cons.prems(2) by (simp add: c_def t_def)
  have "tight K P c"
  proof (cases "\<not> full \<and> current \<noteq> []")
    case True
    then have "group_tokens current + estimate_tokens piece \<le> ck_target K" "\<not> full"
      using Cons.prems(2) by (auto simp: full_def)
    with Cons.prems(1) show ?thesis by (simp add: tight_def c_def)
  next
    case False
    then have "c = [?s]" by (auto simp: c_def)
    moreover have "P ?s" using Cons.prems(4) by simp
    ultimately show ?thesis by (simp add: tight_def)
  qed
  moreover have "tight K P current" using Cons.prems(2,3) by (simp add: tight_def)
  moreover have rest: "\<forall>s \<in> set (pieces_at segment pieces (start + length piece)). P s" using Cons.prems(4) by simp
  moreover have "g = current \<or> g = c \<or>
      g \<in> set (split_pieces K segment pieces (start + length piece) [] 0) \<or>
      t \<le> ck_max K \<and> g \<in> set (split_pieces K segment pieces (start + length piece) c t)"
    using Cons.prems(5) by (auto simp: Let_def full_def [symmetric] c_def t_def split: if_splits)
  ultimately show ?case
    using Cons.IH [OF Cons.prems(1) _ _ rest, of 0 "[]"] Cons.IH [OF Cons.prems(1) t _ rest] by auto
qed

lemma split_segment_tight:
  assumes "ck_target K \<le> ck_max K" "\<forall>s \<in> set (concat (split_segment K segment)). P s" "g \<in> set (split_segment K segment)"
  shows "tight K P g"
proof (cases "sg_kind segment \<in> {CodeSegment, TableSegment}")
  case True
  with assms show ?thesis by (simp add: split_segment_def tight_def)
next
  case False
  with assms(2) have "\<forall>s \<in> set (pieces_at segment (sentence_pieces (sg_text segment)) (sg_start segment)). P s"
    by (simp only: concat_split_segment if_False)
  moreover from False assms(3) have "g \<in> set (split_pieces K segment (sentence_pieces (sg_text segment)) (sg_start segment) [] 0)"
    by (simp only: split_segment_def if_False)
  ultimately show ?thesis using split_pieces_tight [OF assms(1), of 0 "[]"] by simp
qed

lemma group_segments_tight:
  "ck_target K \<le> ck_max K \<Longrightarrow> \<forall>s \<in> set segments. \<forall>x \<in> set (concat (split_segment K s)). P x \<Longrightarrow>
     \<forall>g \<in> set groups. tight K P g \<Longrightarrow> tokens = group_tokens current \<Longrightarrow> tokens \<le> ck_max K \<Longrightarrow>
     \<forall>g \<in> set (group_segments K segments groups current tokens). tight K P g"
proof (induction segments arbitrary: groups current tokens)
  case Nil
  then show ?case by (auto simp: tight_def)
next
  case (Cons segment rest)
  have rest: "\<forall>s \<in> set rest. \<forall>x \<in> set (concat (split_segment K s)). P x" using Cons.prems(2) by simp
  have current: "tight K P current" using Cons.prems(4,5) by (simp add: tight_def)
  show ?case
  proof (cases rule: group_segments_step [of K segment rest groups current tokens])
    case split
    have "\<forall>x \<in> set (concat (split_segment K segment)). P x" using Cons.prems(2) by (meson list.set_intros(1))
    from split_segment_tight [OF Cons.prems(1) this] have "\<forall>g \<in> set (split_segment K segment). tight K P g" by blast
    then have "\<forall>g \<in> set ((if current = [] then groups else groups @ [current]) @ split_segment K segment). tight K P g"
      using current Cons.prems(3) by auto
    from Cons.IH [OF Cons.prems(1) rest this, of 0 "[]"] show ?thesis unfolding split(2) by simp
  next
    case (join groups1 current1 tokens1)
    then have g: "\<forall>h \<in> set groups1. tight K P h" "tokens1 = group_tokens current1" using Cons.prems current by auto
    have c: "group_tokens (current1 @ [segment]) \<le> ck_max K" using join(1,3) g(2) by auto
    have "\<forall>h \<in> set (group_segments K rest groups1 (current1 @ [segment]) (tokens1 + estimate_tokens (sg_text segment))). tight K P h"
      using g c by (intro Cons.IH Cons.prems(1) rest) simp_all
    moreover have "\<forall>h \<in> set (group_segments K rest (groups1 @ [current1 @ [segment]]) [] 0). tight K P h"
      using g c by (intro Cons.IH Cons.prems(1) rest) (auto simp: tight_def)
    ultimately show ?thesis using join(4) by metis
  qed
qed

text \<open>The estimate of a text is at most what its parts add up to, and white space counts nothing.\<close>

fun tokens_of :: "pystr \<Rightarrow> bool \<Rightarrow> nat" where
  "tokens_of [] latin = of_bool latin"
| "tokens_of (c # s) latin =
     (if c < 128 \<and> word_char c then tokens_of s True
      else of_bool latin + of_bool (128 \<le> c \<and> (is_cjk c \<or> \<not> is_space c)) + tokens_of s False)"

lemma count_tokens_of: "count_tokens s t r = t + tokens_of s (0 < r)"
  by (induction s arbitrary: t r) (simp_all add: Let_def)

lemma estimate_tokens_of: "estimate_tokens s = tokens_of s False"
  by (simp add: estimate_tokens_def count_tokens_of)

lemma tokens_of_latin: "tokens_of s latin \<le> of_bool latin + tokens_of s False"
  by (cases s) auto

lemma tokens_of_append: "tokens_of (s @ t) latin \<le> tokens_of s latin + tokens_of t False"
  using tokens_of_latin [of t True] by (induction s arbitrary: latin) auto

lemma estimate_append: "estimate_tokens (s @ t) \<le> estimate_tokens s + estimate_tokens t"
  by (simp add: estimate_tokens_of tokens_of_append)

lemma space_counts_nothing: "is_space c \<Longrightarrow> \<not> word_char c \<and> \<not> is_cjk c"
  by (auto simp: is_space_def word_char_def is_cjk_def)

lemma estimate_space: "list_all is_space s \<Longrightarrow> estimate_tokens s = 0"
  by (induction s) (auto simp: estimate_tokens_of space_counts_nothing)

lemma covers_tokens:
  "covers full a g b \<Longrightarrow> estimate_tokens (slice full a b) \<le> group_tokens g"
proof (induction g arbitrary: a)
  case Nil
  then show ?case by (simp add: estimate_space)
next
  case (Cons s g)
  then have le: "a \<le> sg_start s" "sg_start s \<le> sg_end s" "sg_end s \<le> b" by (auto dest: covers_le)
  have "slice full a b = slice full a (sg_start s) @ slice full (sg_start s) (sg_end s) @ slice full (sg_end s) b"
    using le by (simp add: slice_append_slice)
  then have "estimate_tokens (slice full a b) \<le>
      estimate_tokens (slice full a (sg_start s)) + (estimate_tokens (sg_text s) + estimate_tokens (slice full (sg_end s) b))"
    using Cons.prems by (simp only: covers.simps) (meson add_left_mono estimate_append le_trans)
  with Cons show ?case by (simp add: estimate_space) (meson add_left_mono le_trans)
qed

section \<open>Chunks\<close>

lemma covers_group:
  "covers full a g b \<Longrightarrow> g \<noteq> [] \<Longrightarrow>
     a \<le> sg_start (hd g) \<and> list_all is_space (slice full a (sg_start (hd g))) \<and>
     sg_start (hd g) \<le> sg_end (last g) \<and> covers full (sg_start (hd g)) g (sg_end (last g)) \<and>
     sg_end (last g) \<le> b \<and> list_all is_space (slice full (sg_end (last g)) b)"
proof (induction g arbitrary: a)
  case (Cons s g)
  show ?case
  proof (cases "g = []")
    case True
    with Cons.prems show ?thesis by simp
  next
    case False
    from Cons.prems have s: "a \<le> sg_start s" "list_all is_space (slice full a (sg_start s))" "sg_start s \<le> sg_end s"
      "sg_text s = slice full (sg_start s) (sg_end s)" "covers full (sg_end s) g b" by simp_all
    from Cons.IH [OF s(5) False] have g: "sg_end s \<le> sg_start (hd g)" "list_all is_space (slice full (sg_end s) (sg_start (hd g)))"
      "sg_start (hd g) \<le> sg_end (last g)" "covers full (sg_start (hd g)) g (sg_end (last g))"
      "sg_end (last g) \<le> b" "list_all is_space (slice full (sg_end (last g)) b)" by simp_all
    have "covers full (sg_end s) g (sg_end (last g))" using g by (intro covers_gap_left [OF _ _ g(4)])
    with s g False show ?thesis by simp
  qed
qed simp

lemma covers_span:
  "covers full a g b \<Longrightarrow> s \<in> set g \<Longrightarrow> a \<le> sg_start s \<and> sg_start s \<le> sg_end s \<and> sg_end s \<le> b \<and>
     sg_text s = slice full (sg_start s) (sg_end s)"
  by (induction g arbitrary: a) (auto dest: covers_le, fastforce+)

text \<open>A chunk as one block of its note.\<close>

definition as_block :: "rag_chunk \<Rightarrow> chunk_segment" where
  "as_block c = \<lparr>sg_kind = TextSegment, sg_text = rc_content c, sg_start = rc_start c, sg_end = rc_end c,
     sg_heading = rc_heading c, sg_path = [], sg_level = 0\<rparr>"

lemma as_block_fields [simp]:
  "sg_text (as_block c) = rc_content c" "sg_start (as_block c) = rc_start c" "sg_end (as_block c) = rc_end c"
  by (simp_all add: as_block_def)

lemma make_chunk_fields [simp]:
  "rc_start (make_chunk L path full i g) = sg_start (hd g)" "rc_end (make_chunk L path full i g) = sg_end (last g)"
  "rc_content (make_chunk L path full i g) = slice full (sg_start (hd g)) (sg_end (last g))"
  "rc_index (make_chunk L path full i g) = i"
  "rc_tokens (make_chunk L path full i g) = estimate_tokens (slice full (sg_start (hd g)) (sg_end (last g)))"
  by (simp_all add: make_chunk_def Let_def)

lemma make_chunks_covers:
  "covers full a (map as_block chunks) p \<Longrightarrow> covers full p (concat groups) b \<Longrightarrow> [] \<notin> set groups \<Longrightarrow>
     covers full a (map as_block (make_chunks L path full groups chunks)) b"
proof (induction groups arbitrary: chunks p)
  case Nil
  then show ?case by (auto intro: covers_gap)
next
  case (Cons g groups)
  from Cons.prems(2) obtain q where q: "covers full p g q" "covers full q (concat groups) b"
    by (auto simp: covers_append)
  have "g \<noteq> []" using Cons.prems(3) by auto
  note g = covers_group [OF q(1) this]
  then have gap: "list_all is_space (slice full p (sg_start (hd g)))" "list_all is_space (slice full (sg_end (last g)) q)" by simp_all
  show ?case
  proof (cases "strip (slice full (sg_start (hd g)) (sg_end (last g))) = []")
    case True
    then have "list_all is_space (slice full p q)"
      using g by (simp add: strip_if_empty list_all_slice_trans [of p "sg_start (hd g)" q]
          list_all_slice_trans [of "sg_start (hd g)" "sg_end (last g)" q])
    moreover have "p \<le> q" using q(1) by (rule covers_le)
    ultimately have "covers full a (map as_block chunks) q" using Cons.prems(1) covers_gap by blast
    with True Cons.IH [OF _ q(2)] Cons.prems(3) show ?thesis by simp
  next
    case False
    let ?c = "make_chunk L path full (length chunks) g"
    have "covers full p [as_block ?c] q" using g by simp
    then have "covers full a (map as_block (chunks @ [?c])) q"
      using Cons.prems(1) by (auto simp: covers_append)
    with False Cons.IH [OF _ q(2)] Cons.prems(3) show ?thesis by simp
  qed
qed

lemma make_chunks_members:
  "set (make_chunks L path full groups chunks) \<subseteq>
     set chunks \<union> {make_chunk L path full i g | i g. g \<in> set groups \<and> strip (slice full (sg_start (hd g)) (sg_end (last g))) \<noteq> []}"
proof (induction groups arbitrary: chunks)
  case (Cons g groups)
  from Cons.IH [of chunks] Cons.IH [of "chunks @ [make_chunk L path full (length chunks) g]"]
  show ?case by (simp split: if_split) blast
qed simp

lemma make_chunks_keeps: "set chunks \<subseteq> set (make_chunks L path full groups chunks)"
proof (induction groups arbitrary: chunks)
  case (Cons g groups)
  from Cons.IH [of chunks] Cons.IH [of "chunks @ [make_chunk L path full (length chunks) g]"] show ?case by simp
qed simp

lemma make_chunks_has:
  "g \<in> set groups \<Longrightarrow> strip (slice full (sg_start (hd g)) (sg_end (last g))) \<noteq> [] \<Longrightarrow>
     \<exists>i. make_chunk L path full i g \<in> set (make_chunks L path full groups chunks)"
proof (induction groups arbitrary: chunks)
  case (Cons h groups)
  then show ?case
    using make_chunks_keeps [of "chunks @ [make_chunk L path full (length chunks) h]" L path full groups] by auto
qed simp

lemma make_chunks_index:
  "map rc_index chunks = [0..<length chunks] \<Longrightarrow>
     map rc_index (make_chunks L path full groups chunks) = [0..<length (make_chunks L path full groups chunks)]"
  by (induction groups arbitrary: chunks) simp_all

end
