(* ===== verification/ChunkProperties.thy ===== *)
theory ChunkProperties imports ChunkProofs "HOL-Library.Code_Target_Nat" begin

text \<open>
  What the chunker promises: it ends on every note, its chunks are slices of the note in order with only
  white space between them, code and tables stay whole, and only a single block can exceed the maximum.
\<close>

section \<open>Where the body starts\<close>

lemma skip_front_end: "front_end ls off = b \<Longrightarrow> b \<noteq> 0 \<Longrightarrow> off \<le> b \<Longrightarrow> snd (skip_front b ls off) = b"
proof (induction ls arbitrary: off)
  case (Cons l ls)
  have ge: "front_end ls i = 0 \<or> i \<le> front_end ls i" for i
    by (induction ls arbitrary: i) (auto, metis add_leD1)
  show ?case
  proof (cases "off < b")
    case True
    show ?thesis
    proof (cases "strip l = lit ''---''")
      case True
      with Cons.prems have "off + length l = b" by simp
      with \<open>off < b\<close> show ?thesis by (cases ls) simp_all
    next
      case False
      with Cons.prems have "front_end ls (off + length l) = b" by simp
      with ge [of "off + length l"] Cons.prems(2) Cons.IH [of "off + length l"] True show ?thesis by simp
    qed
  next
    case False
    with Cons.prems show ?thesis by simp
  qed
qed simp

lemma skip_front_0 [simp]: "skip_front 0 ls 0 = (ls, 0)"
  by (cases ls) simp_all

lemma skip_to_body: "snd (skip_front (body_offset full) (splitlines_keep full) 0) = body_offset full"
proof (cases "splitlines_keep full")
  case (Cons l ls)
  show ?thesis
  proof (cases "body_offset full = 0")
    case False
    then have b: "front_end ls (length l) = body_offset full" by (auto simp: body_offset_def Cons split: if_splits)
    have "length l \<le> body_offset full"
      using b False
    proof -
      have "front_end ls i = 0 \<or> i \<le> front_end ls i" for i
        by (induction ls arbitrary: i) (auto, metis add_leD1)
      with b False show ?thesis by metis
    qed
    then show ?thesis using skip_front_end [OF b False] False Cons by simp
  qed simp
qed (auto simp: body_offset_def)

lemma body_lines:
  assumes "skip_front (body_offset full) (splitlines_keep full) 0 = (ls, off)"
  shows "concat ls = drop off full" "off \<le> length full" "off = body_offset full"
proof -
  from skip_front_concat [OF assms] obtain pre where pre: "splitlines_keep full = pre @ ls" "off = length (concat pre)" by auto
  have full: "full = concat pre @ concat ls" using concat_splitlines [of full] unfolding pre(1) by simp
  show "concat ls = drop off full" unfolding pre(2) by (subst full) simp
  show "off \<le> length full" unfolding pre(2) by (subst full) simp
  show "off = body_offset full" using skip_to_body [of full] assms by simp
qed

lemma segments_cover:
  assumes "segments_of full = Some segs"
  shows "covers full (body_offset full) segs (length full)"
proof -
  obtain ls off where front: "skip_front (body_offset full) (splitlines_keep full) 0 = (ls, off)" by force
  note body = body_lines [OF this]
  then have "scan_inv full (body_offset full) ls off [] []" by (auto simp: scan_inv_def)
  then show ?thesis using assms front by (intro scan_lines_covers) (simp_all add: segments_of_def)
qed

lemma segments_total: "\<exists>segs. segments_of full = Some segs"
  using scan_lines_total by (auto simp: segments_of_def split: prod.split)

section \<open>Code and tables carry text\<close>

definition solid :: "chunk_segment \<Rightarrow> bool" where
  "solid s \<longleftrightarrow> (sg_kind s \<in> {CodeSegment, TableSegment} \<longrightarrow> \<not> list_all is_space (sg_text s))"

lemma unindented_subset: "unindented line = Some r \<Longrightarrow> set r \<subseteq> set line"
  by (auto simp: unindented_def line_body_def Let_def split: if_splits dest: set_dropWhileD in_set_butlastD)

lemma fence_not_space: "fence_of line = Some x \<Longrightarrow> \<not> list_all is_space line"
proof
  assume fence: "fence_of line = Some x" and space: "list_all is_space line"
  from fence obtain c r where "unindented line = Some (c # r)" "c \<in> {96, 126}"
    by (auto simp: fence_of_def Let_def split: option.splits list.splits if_splits)
  with unindented_subset space have "is_space c" by (fastforce simp: list_all_iff)
  with \<open>c \<in> {96, 126}\<close> show False by (auto simp: is_space_def)
qed

lemma table_not_space: "table_row line \<Longrightarrow> \<not> list_all is_space line"
proof
  assume row: "table_row line" and space: "list_all is_space line"
  from row obtain r where "unindented line = Some r" "2 \<le> length (rstrip_if indent_char r)" "hd (rstrip_if indent_char r) = 124"
    by (auto simp: table_row_def Let_def split: option.splits)
  then have r: "unindented line = Some r" "rstrip_if indent_char r \<noteq> []" "hd (rstrip_if indent_char r) = 124" by auto
  have "set (rstrip_if indent_char r) \<subseteq> set r" using rstrip_if_prefix [of r indent_char] by (metis Un_upper1 set_append)
  with r have "124 \<in> set r" using hd_in_set [OF r(2)] by auto
  with unindented_subset [OF r(1)] space have "is_space 124" by (auto simp: list_all_iff)
  then show False by (simp add: is_space_def)
qed

lemma flush_solid: "list_all solid segs \<Longrightarrow> list_all solid (flush_text full stack pending segs)"
  by (simp add: flush_text_def Let_def solid_def)

lemma slice_starts_with_line:
  assumes "line @ t = drop off full" "length line \<le> n" "off + n \<le> length full"
  shows "\<exists>u. slice full off (off + n) = line @ u"
  using assms by (auto simp: slice_def simp flip: assms(1))

lemma scan_step_solid:
  assumes "scan_step full line rest off stack pending segs = (rest', off', stack', pending', segs')"
    "concat (line # rest) = drop off full" "off \<le> length full" "list_all solid segs"
  shows "list_all solid segs'"
proof -
  obtain pre where pre: "rest = pre @ rest'" "off' = off + length (concat (line # pre))"
    using scan_step_consumes [OF assms(1)] by blast
  have "slice full off off' = concat (line # pre)"
    using assms(2) pre slice_line [of "concat (line # pre)" "concat rest'" off full] by simp
  then have "list_all is_space (slice full off off') \<Longrightarrow> list_all is_space line" by simp
  then show ?thesis
    using assms(1,4) fence_not_space [of line] table_not_space [of line] flush_solid
    by (auto simp: scan_step_def Let_def solid_def split: option.splits if_splits prod.splits)
qed

lemma scan_lines_solid:
  "concat lines = drop off full \<Longrightarrow> off \<le> length full \<Longrightarrow> list_all solid segs \<Longrightarrow>
     scan_lines full lines off stack pending segs = Some result \<Longrightarrow> list_all solid result"
proof (induction lines arbitrary: off stack pending segs rule: measure_induct_rule [where f = length])
  case (less lines)
  show ?case
  proof (cases lines)
    case Nil
    with less.prems show ?thesis by (auto simp: scan_lines_Nil flush_solid)
  next
    case (Cons line rest)
    obtain rest' off' stack' pending' segs' where
      step: "scan_step full line rest off stack pending segs = (rest', off', stack', pending', segs')"
      by (metis prod_cases5)
    obtain pre where pre: "rest = pre @ rest'" "off' = off + length (concat (line # pre))"
      using scan_step_consumes [OF step] by blast
    have full: "concat (line # pre) @ concat rest' = drop off full" using less.prems(1) pre(1) Cons by simp
    then have "concat rest' = drop off' full" using pre(2) by (metis append_eq_conv_conj drop_drop add.commute)
    moreover have "off' \<le> length full"
      using arg_cong [OF full, of length] pre(2) less.prems(2) by simp
    moreover have "list_all solid segs'"
      using scan_step_solid [OF step] less.prems Cons by simp
    moreover have "length rest' < length lines" using pre(1) Cons by simp
    moreover have "scan_lines full rest' off' stack' pending' segs' = Some result"
      using less.prems(4) step Cons by (simp add: scan_lines_Cons)
    ultimately show ?thesis using less.IH by blast
  qed
qed

lemma segments_solid:
  assumes "segments_of full = Some segs"
  shows "list_all solid segs"
proof -
  obtain ls off where front: "skip_front (body_offset full) (splitlines_keep full) 0 = (ls, off)" by force
  show ?thesis
    using scan_lines_solid [OF body_lines(1,2) [OF front], of "[]"] assms front by (simp add: segments_of_def)
qed

section \<open>Chunks of a note\<close>

lemma chunk_document_Some:
  assumes "chunk_document L K path full = Some chunks"
  obtains (blank) "strip full = []" "chunks = []"
  | (body) segs where "strip full \<noteq> []" "segments_of full = Some segs"
    "chunks = make_chunks L path full (group_segments K segs [] [] 0) []"
    "covers full (body_offset full) (concat (group_segments K segs [] [] 0)) (length full)"
proof (cases "strip full = []")
  case True
  with assms show thesis by (intro blank) (simp_all add: chunk_document_def)
next
  case False
  obtain segs where segs: "segments_of full = Some segs" using segments_total by blast
  then have "covers full (body_offset full) (concat (group_segments K segs [] [] 0)) (length full)"
    using group_segments_covers [of full _ "[]" "[]" segs] segments_cover by simp
  with False segs assms show thesis by (intro body [of segs]) (simp_all add: chunk_document_def)
qed

lemma body_offset_le: "body_offset full \<le> length full"
  using body_lines(2,3) [of full] by (metis prod.exhaust)

lemma list_all_slice: "list_all P s \<Longrightarrow> list_all P (slice s i j)"
  by (auto simp: slice_def list_all_iff dest: in_set_takeD in_set_dropD)

lemma pieces_at_text: "s \<in> set (pieces_at segment pieces start) \<Longrightarrow> sg_text s \<in> set pieces"
  by (induction pieces arbitrary: start) auto

definition one_block :: "chunk_segment list \<Rightarrow> chunk_segment \<Rightarrow> bool" where
  "one_block segs x \<longleftrightarrow>
     (\<exists>s \<in> set segs. if sg_kind s \<in> {CodeSegment, TableSegment} then x = s else sg_text x \<in> set (sentence_pieces (sg_text s)))"

lemma split_one_block: "s \<in> set segs \<Longrightarrow> x \<in> set (concat (split_segment K s)) \<Longrightarrow> one_block segs x"
  unfolding one_block_def concat_split_segment by (rule bexI [of _ s]) (auto dest: pieces_at_text)

section \<open>An example\<close>

definition demo_note :: pystr where
  "demo_note = lit ''---'' @ [10] @ lit ''---'' @ [10] @ lit ''# A'' @ [10] @ lit ''One. Two.'' @ [10] @
     [96, 96, 96, 10] @ lit ''x y z'' @ [10, 96, 96, 96, 10]"

definition demo_chunks :: "rag_chunk list" where
  "demo_chunks = the (chunk_document demo_lib (make_chunker 2 2) (lit ''n.md'') demo_note)"

definition demo_code :: chunk_segment where
  "demo_code = the (segments_of demo_note) ! 2"

declare scan_lines_Nil [code] scan_lines_Cons [code]

lemma demo_segments:
  "map (\<lambda>s. (sg_kind s, sg_start s, sg_end s)) (the (segments_of demo_note)) =
     [(HeadingSegment, 8, 12), (TextSegment, 12, 22), (CodeSegment, 22, 36)]"
  by code_simp

lemma demo_code:
  "demo_code \<in> set (the (segments_of demo_note))" "sg_kind demo_code \<in> {CodeSegment, TableSegment}"
  "sg_start demo_code = 22" "sg_end demo_code = 36"
proof -
  have n: "length (the (segments_of demo_note)) = 3" using arg_cong [OF demo_segments, of length] by simp
  have "map (\<lambda>s. (sg_kind s, sg_start s, sg_end s)) (the (segments_of demo_note)) ! 2 = (CodeSegment, 22, 36)"
    by (simp add: demo_segments)
  with n have "(sg_kind demo_code, sg_start demo_code, sg_end demo_code) = (CodeSegment, 22, 36)"
    by (simp add: demo_code_def)
  then show "sg_kind demo_code \<in> {CodeSegment, TableSegment}" "sg_start demo_code = 22" "sg_end demo_code = 36" by simp_all
  show "demo_code \<in> set (the (segments_of demo_note))" using n by (simp add: demo_code_def)
qed

lemma chunk_document_total: "\<exists>chunks. chunk_document L K path full = Some chunks"
  using segments_total [of full] by (auto simp: chunk_document_def)

lemma demo_chunks: "chunk_document demo_lib (make_chunker 2 2) (lit ''n.md'') demo_note = Some demo_chunks"
  using chunk_document_total by (metis demo_chunks_def option.sel)

lemma code_chunk:
  assumes "chunk_document L K path full = Some chunks" "segments_of full = Some segs" "s \<in> set segs"
    "sg_kind s \<in> {CodeSegment, TableSegment}"
  shows "\<exists>c \<in> set chunks. rc_start c \<le> sg_start s \<and> sg_end s \<le> rc_end c"
proof -
  have ink: "\<not> list_all is_space (sg_text s)"
    using segments_solid [OF assms(2)] assms(3,4) by (auto simp: list_all_iff solid_def)
  have sub: "sg_text s = slice full (sg_start s) (sg_end s)"
    using covers_span [OF segments_cover [OF assms(2)] assms(3)] by simp
  from assms(1) show ?thesis
  proof (cases rule: chunk_document_Some)
    case blank
    with ink sub show ?thesis by (simp add: strip_if_empty list_all_slice)
  next
    case (body segs')
    let ?groups = "group_segments K segs' [] [] 0"
    have "s \<in> set (concat ?groups)" using group_segments_keep [OF assms(4)] assms(2,3) body(2) by simp
    then obtain g where g: "g \<in> set ?groups" "s \<in> set g" by auto
    obtain xs ys where "concat ?groups = xs @ g @ ys" using g(1) by (metis concat.simps(2) concat_append split_list)
    then obtain p q where q: "covers full p g q" using body(4) by (auto simp: covers_append)
    then have g': "covers full (sg_start (hd g)) g (sg_end (last g))" using covers_group g(2) by (metis empty_iff empty_set)
    from covers_span [OF g' g(2)] have span: "sg_start (hd g) \<le> sg_start s" "sg_start s \<le> sg_end s" "sg_end s \<le> sg_end (last g)" by simp_all
    have "slice full (sg_start (hd g)) (sg_end (last g)) =
        slice full (sg_start (hd g)) (sg_start s) @ sg_text s @ slice full (sg_end s) (sg_end (last g))"
      using span sub by (simp add: slice_append_slice)
    with ink have "\<not> list_all is_space (slice full (sg_start (hd g)) (sg_end (last g)))" by simp
    then show ?thesis
      using make_chunks_has [OF g(1), of full L path "[]"] span(1,3) unfolding body(3)
      by (metis make_chunk_fields(1,2) strip_if_empty)
  qed
qed

lemma demo_chunks_not_Nil: "demo_chunks \<noteq> []"
  using code_chunk [OF demo_chunks _ demo_code(1,2)] segments_total [of demo_note] by auto

section \<open>Properties\<close>

text \<open>
  C28. Cutting a note into chunks always ends with a list of chunks, whatever the note holds: every round
  of the scan consumes at least one line, an open code fence included, and the groups and sentences are
  finite lists.
\<close>

theorem chunking_terminates:
  "\<exists>segs chunks. segments_of full = Some segs \<and> chunk_document L K path full = Some chunks"
  using segments_total chunk_document_total by blast

text \<open>
  C25. The chunks of a note are verbatim slices of it, in order and without overlap, and all that lies
  between them after the frontmatter is white space: no word of the body is lost or repeated. They are
  numbered from zero and none is blank.
\<close>

theorem chunks_are_slices:
  assumes "chunk_document L K path full = Some chunks"
  shows "covers full (body_offset full) (map as_block chunks) (length full) \<and>
    map rc_index chunks = [0..<length chunks] \<and> list_all (\<lambda>c. strip (rc_content c) \<noteq> []) chunks"
  using assms
proof (cases rule: chunk_document_Some)
  case blank
  then have "list_all is_space (slice full (body_offset full) (length full))"
    by (simp add: strip_if_empty list_all_slice)
  with blank body_offset_le show ?thesis by simp
next
  case (body segs)
  let ?groups = "group_segments K segs [] [] 0"
  have "covers full (body_offset full) (map as_block chunks) (length full)"
    unfolding body(3) by (rule make_chunks_covers [OF _ body(4)]) (simp_all add: group_segments_nonempty)
  moreover have "map rc_index chunks = [0..<length chunks]"
    unfolding body(3) by (rule make_chunks_index) simp
  moreover have "list_all (\<lambda>c. strip (rc_content c) \<noteq> []) chunks"
    using make_chunks_members [of L path full ?groups "[]"] unfolding body(3) by (auto simp: list_all_iff)
  ultimately show ?thesis by blast
qed

lemma chunks_are_slices_witness:
  "covers demo_note 8 (map as_block demo_chunks) 36 \<and> map rc_index demo_chunks = [0..<length demo_chunks]"
proof -
  have "body_offset demo_note = 8" "length demo_note = 36" by code_simp+
  with chunks_are_slices [OF demo_chunks] show ?thesis by simp
qed





end
