(* ===== verification/Retrieval.thy ===== *)
theory Retrieval imports Complex_Main PyNumbers "HOL-Library.List_Lexorder" "HOL-Library.Product_Lexorder" begin

text \<open>
  \<^verbatim>\<open>server/rag/retrieval/rrf.py\<close> and \<^verbatim>\<open>hybrid.py\<close>: the ranked lists of the keyword, vector and link
  retrievers are fused by their ranks and optionally reranked. What the retrievers and the reranker answer
  are arguments, as are the float operations on scores (a float is a rational number). The code keeps
  one object per hit; here a hit is a value, and a retriever is taken to make its own objects. Timings
  and debug output are left out.
\<close>

section \<open>Hits\<close>

record rag_hit =
  rh_chunk :: pystr
  rh_path :: pystr
  rh_heading :: "pystr option"
  rh_heading_path :: "pystr option"
  rh_content :: pystr
  rh_score :: rat
  rh_keyword :: "nat option"
  rh_vector :: "nat option"
  rh_link :: "nat option"
  rh_rerank :: "rat option"
  rh_start :: int
  rh_end :: int
  rh_tags :: "pystr list"
  rh_hash :: pystr
  rh_document_level :: bool

record score_lib =
  sl_recip :: "nat \<Rightarrow> rat"
  sl_times :: "rat \<Rightarrow> rat \<Rightarrow> rat"
  sl_plus :: "rat \<Rightarrow> rat \<Rightarrow> rat"
  sl_round :: "rat \<Rightarrow> rat"

section \<open>Rank fusion\<close>

definition or_rank :: "nat option \<Rightarrow> nat \<Rightarrow> nat" where
  "or_rank r d = (case r of Some n \<Rightarrow> if n = 0 then d else n | None \<Rightarrow> d)"

definition effective_rank :: "rag_hit \<Rightarrow> nat \<Rightarrow> nat" where
  "effective_rank h position = or_rank (rh_keyword h) (or_rank (rh_vector h) (or_rank (rh_link h) position))"

definition or_found :: "nat option \<Rightarrow> nat option \<Rightarrow> nat option" where
  "or_found a b = (if a = None then b else a)"

text \<open>What the first occurrence of a chunk takes over from a later one.\<close>

definition merge_hit :: "rag_hit \<Rightarrow> rag_hit \<Rightarrow> rag_hit" where
  "merge_hit e h =
     (let r = e\<lparr>rh_keyword := or_found (rh_keyword e) (rh_keyword h),
                rh_vector := or_found (rh_vector e) (rh_vector h),
                rh_link := or_found (rh_link e) (rh_link h)\<rparr> in
      if rh_content e = [] \<and> rh_content h \<noteq> []
      then r\<lparr>rh_content := rh_content h, rh_start := rh_start h, rh_end := rh_end h,
             rh_heading := rh_heading h, rh_heading_path := rh_heading_path h, rh_hash := rh_hash h,
             rh_document_level := rh_document_level h\<rparr>
      else r)"

text \<open>The hits by their chunk, in the order they were first seen, with their scores.\<close>

type_synonym fusion = "(rag_hit \<times> rat) list"

fun add_hit :: "score_lib \<Rightarrow> rat \<Rightarrow> rag_hit \<Rightarrow> fusion \<Rightarrow> fusion" where
  "add_hit Q share h [] = [(h, sl_plus Q 0 share)]"
| "add_hit Q share h ((e, s) # es) =
     (if rh_chunk e = rh_chunk h then (merge_hit e h, sl_plus Q s share) # es
      else (e, s) # add_hit Q share h es)"

definition share_of :: "score_lib \<Rightarrow> rat \<Rightarrow> nat \<Rightarrow> nat \<Rightarrow> rat" where
  "share_of Q weight k r = sl_times Q weight (sl_recip Q (k + r))"

fun fuse_list :: "score_lib \<Rightarrow> nat \<Rightarrow> rat \<Rightarrow> nat \<Rightarrow> rag_hit list \<Rightarrow> fusion \<Rightarrow> fusion" where
  "fuse_list Q k weight position [] es = es"
| "fuse_list Q k weight position (h # hs) es =
     fuse_list Q k weight (Suc position) hs (add_hit Q (share_of Q weight k (effective_rank h position)) h es)"

fun fuse_lists :: "score_lib \<Rightarrow> nat \<Rightarrow> (rag_hit list \<times> rat) list \<Rightarrow> fusion \<Rightarrow> fusion" where
  "fuse_lists Q k [] es = es"
| "fuse_lists Q k ((hs, weight) # ls) es =
     fuse_lists Q k ls (if weight \<le> 0 then es else fuse_list Q k weight 1 hs es)"

definition ranked :: "score_lib \<Rightarrow> fusion \<Rightarrow> rag_hit list" where
  "ranked Q es =
     map (\<lambda>(h, s). h\<lparr>rh_score := sl_round Q s\<rparr>) (sort_key (\<lambda>(h, s). (- s, rh_chunk h)) es)"

text \<open>\<open>None\<close> is the \<^verbatim>\<open>ValueError\<close> of a bad constant or of a missing weight.\<close>

definition reciprocal_rank_fusion ::
  "score_lib \<Rightarrow> rag_hit list list \<Rightarrow> nat \<Rightarrow> nat option \<Rightarrow> rat list option \<Rightarrow> rag_hit list option" where
  "reciprocal_rank_fusion Q rankings k top_k weights =
     (if k = 0 then None
      else
        let ws = (case weights of None \<Rightarrow> map (\<lambda>_. 1) rankings | Some w \<Rightarrow> w) in
        if length ws \<noteq> length rankings then None
        else
          let ordered = ranked Q (fuse_lists Q k (zip rankings ws) []) in
          Some (case top_k of None \<Rightarrow> ordered | Some n \<Rightarrow> take n ordered))"

section \<open>The hybrid retriever\<close>

record hybrid_cfg =
  hc_fts_top_k :: nat
  hc_vector_top_k :: nat
  hc_link_top_k :: nat
  hc_link_weight :: rat
  hc_link_add_only :: bool
  hc_fusion_top_k :: nat
  hc_rerank_top_k :: nat
  hc_rrf_k :: nat

definition make_hybrid :: "int \<Rightarrow> int \<Rightarrow> int \<Rightarrow> rat \<Rightarrow> bool \<Rightarrow> int \<Rightarrow> int \<Rightarrow> int \<Rightarrow> hybrid_cfg" where
  "make_hybrid fts vector link weight add_only fusion rerank k =
     \<lparr>hc_fts_top_k = nat (max 1 fts), hc_vector_top_k = nat (max 1 vector), hc_link_top_k = nat (max 1 link),
      hc_link_weight = max 0 weight, hc_link_add_only = add_only, hc_fusion_top_k = nat (max 1 fusion),
      hc_rerank_top_k = nat (max 1 rerank), hc_rrf_k = nat (max 1 k)\<rparr>"

datatype retrieved = Hits "rag_hit list" | Unavailable | Failed

text \<open>
  The retrievers, each asked for a number of hits; the marker is what the link retriever says of its last
  run. The reranker gets the contents and a number and answers indices with scores, or raises.
\<close>

record retrievers =
  rt_keyword :: "nat \<Rightarrow> retrieved"
  rt_vector :: "(nat \<Rightarrow> retrieved) option"
  rt_link :: "(nat \<Rightarrow> retrieved) option"
  rt_link_marker :: pystr
  rt_reranker :: "(pystr list \<Rightarrow> nat \<Rightarrow> (int option \<times> rat option) list option) option"

record rag_stats =
  st_fts :: nat
  st_vector :: nat
  st_link :: nat
  st_fused :: nat
  st_reranked :: bool
  st_context_chunks :: nat
  st_context_tokens :: nat
  st_degraded :: "pystr list"

definition no_stats :: rag_stats where
  "no_stats = \<lparr>st_fts = 0, st_vector = 0, st_link = 0, st_fused = 0, st_reranked = False,
     st_context_chunks = 0, st_context_tokens = 0, st_degraded = []\<rparr>"

definition hits_of :: "retrieved \<Rightarrow> rag_hit list" where
  "hits_of r = (case r of Hits hs \<Rightarrow> hs | _ \<Rightarrow> [])"

definition run_keyword :: "retrievers \<Rightarrow> nat \<Rightarrow> rag_hit list \<times> pystr list" where
  "run_keyword R n =
     (case rt_keyword R n of Hits hs \<Rightarrow> (hs, []) | _ \<Rightarrow> ([], [lit ''keyword_failed'']))"

definition run_vector :: "retrievers \<Rightarrow> nat \<Rightarrow> rag_hit list \<times> pystr list" where
  "run_vector R n =
     (case rt_vector R of
        None \<Rightarrow> ([], [lit ''vector_disabled''])
      | Some f \<Rightarrow>
          (case f n of
             Hits hs \<Rightarrow> (hs, [])
           | Unavailable \<Rightarrow> ([], [lit ''vector_unavailable''])
           | Failed \<Rightarrow> ([], [lit ''vector_failed''])))"

definition number_links :: "rag_hit list \<Rightarrow> rag_hit list" where
  "number_links hs = map (\<lambda>(i, h). h\<lparr>rh_link := Some (Suc i)\<rparr>) (enumerate 0 hs)"

definition new_link_candidates :: "rag_hit list \<Rightarrow> rag_hit list \<Rightarrow> rag_hit list \<Rightarrow> rag_hit list" where
  "new_link_candidates links keyword vector =
     (let covered = set (map rh_path keyword) \<union> set (map rh_path vector) in
      number_links (filter (\<lambda>h. rh_path h \<notin> covered) links))"

definition run_link ::
  "hybrid_cfg \<Rightarrow> retrievers \<Rightarrow> rag_hit list \<Rightarrow> rag_hit list \<Rightarrow> rag_hit list \<times> pystr list" where
  "run_link H R keyword vector =
     (case rt_link R of
        None \<Rightarrow> ([], [])
      | Some f \<Rightarrow>
          (case f (hc_link_top_k H) of
             Unavailable \<Rightarrow> ([], [lit ''link_unavailable''])
           | Failed \<Rightarrow> ([], [lit ''link_failed''])
           | Hits hs \<Rightarrow>
               (if hc_link_add_only H then new_link_candidates hs keyword vector else hs,
                if rt_link_marker R = [] then [] else [rt_link_marker R])))"

text \<open>The hits the reranker names, in its order, and then the tail it did not name.\<close>

fun chosen_hits :: "rag_hit list \<Rightarrow> (int option \<times> rat option) list \<Rightarrow> rag_hit list" where
  "chosen_hits shortlist [] = []"
| "chosen_hits shortlist ((i, score) # rs) =
     (case i of
        None \<Rightarrow> chosen_hits shortlist rs
      | Some n \<Rightarrow>
          if 0 \<le> n \<and> n < int (length shortlist)
          then (shortlist ! nat n)\<lparr>rh_rerank := score\<rparr> # chosen_hits shortlist rs
          else chosen_hits shortlist rs)"

definition rerank_hits ::
  "hybrid_cfg \<Rightarrow> (pystr list \<Rightarrow> nat \<Rightarrow> (int option \<times> rat option) list option) \<Rightarrow> rag_hit list \<Rightarrow>
   pystr + rag_hit list" where
  "rerank_hits H reranker candidates =
     (let shortlist = take (hc_rerank_top_k H * 2) candidates in
      case reranker (map rh_content shortlist) (min (hc_rerank_top_k H) (length shortlist)) of
        None \<Rightarrow> Inl (lit ''rerank_failed'')
      | Some ordered \<Rightarrow>
          let reranked = chosen_hits shortlist ordered; shown = set (map rh_chunk reranked) in
          if reranked = [] then Inl (lit ''rerank_empty'')
          else Inr (reranked @ filter (\<lambda>h. rh_chunk h \<notin> shown) candidates))"

definition hybrid_search ::
  "score_lib \<Rightarrow> hybrid_cfg \<Rightarrow> retrievers \<Rightarrow> nat option \<Rightarrow> bool option \<Rightarrow> (rag_hit list \<times> rag_stats) option" where
  "hybrid_search Q H R top_k rerank =
     (let resolved = (case top_k of None \<Rightarrow> hc_fusion_top_k H | Some n \<Rightarrow> n);
          (keyword, d1) = run_keyword R (hc_fts_top_k H);
          (vector, d2) = run_vector R (hc_vector_top_k H);
          (links, d3) = run_link H R keyword vector;
          wanted = (rt_reranker R \<noteq> None \<and> rerank \<noteq> Some False);
          rankings = [keyword, vector] @ (if rt_link R = None then [] else [links]);
          weights = [1, 1] @ (if rt_link R = None then [] else [hc_link_weight H]) in
      case reciprocal_rank_fusion Q rankings (hc_rrf_k H)
             (Some (if wanted then max resolved (hc_rerank_top_k H) else resolved)) (Some weights) of
        None \<Rightarrow> None
      | Some fused \<Rightarrow>
          let stats = no_stats\<lparr>st_fts := length keyword, st_vector := length vector, st_link := length links,
                st_fused := length fused, st_degraded := d1 @ d2 @ d3\<rparr> in
          (case rt_reranker R of
             None \<Rightarrow> Some (fused, stats)
           | Some reranker \<Rightarrow>
               if \<not> wanted \<or> fused = [] then Some (fused, stats)
               else
                 (case rerank_hits H reranker fused of
                    Inl reason \<Rightarrow> Some (fused, stats\<lparr>st_degraded := st_degraded stats @ [reason]\<rparr>)
                  | Inr hits \<Rightarrow> Some (take resolved hits, stats\<lparr>st_reranked := True\<rparr>))))"

end
