(* ===== verification/Grounding.thy ===== *)
theory Grounding imports Retrieval Chunking begin

text \<open>
  \<^verbatim>\<open>server/rag/context/builder.py\<close>, \<^verbatim>\<open>citations.py\<close> and the question path of \<^verbatim>\<open>service.py\<close>: retrieved
  hits become an evidence pack within a token budget, a language model answers from the rendered pack, and
  the answer is checked against the pack. The model and the JSON parser are arguments. Timings, logging and
  the date of a response are left out.
\<close>

section \<open>The context builder\<close>

record context_budget =
  cb_max_chunks :: int
  cb_max_tokens :: int
  cb_max_per_document :: int
  cb_merge_adjacent :: bool
  cb_merge_gap :: int

record evidence =
  ev_path :: pystr
  ev_heading :: "pystr option"
  ev_heading_path :: "pystr option"
  ev_content :: pystr
  ev_start :: int
  ev_end :: int
  ev_ids :: "pystr list"
  ev_hashes :: "pystr list"
  ev_score :: rat
  ev_tags :: "pystr list"

definition ev_chunk_id :: "evidence \<Rightarrow> pystr" where
  "ev_chunk_id c = (case ev_ids c of [] \<Rightarrow> [] | i # is \<Rightarrow> i)"

definition ev_content_hash :: "evidence \<Rightarrow> pystr" where
  "ev_content_hash c = (case ev_hashes c of [] \<Rightarrow> [] | h # hs \<Rightarrow> h)"

text \<open>The hits that are neither the same chunk nor the same text as an earlier one.\<close>

fun dedupe_hits :: "pystr set \<Rightarrow> pystr set \<Rightarrow> rag_hit list \<Rightarrow> rag_hit list" where
  "dedupe_hits ids texts [] = []"
| "dedupe_hits ids texts (h # hs) =
     (let key = strip (if rh_hash h = [] then rh_content h else rh_hash h) in
      if rh_chunk h \<noteq> [] \<and> rh_chunk h \<in> ids then dedupe_hits ids texts hs
      else if key \<noteq> [] \<and> key \<in> texts then dedupe_hits ids texts hs
      else h # dedupe_hits (if rh_chunk h = [] then ids else insert (rh_chunk h) ids)
                 (if key = [] then texts else insert key texts) hs)"

definition evidence_of :: "rag_hit \<Rightarrow> evidence" where
  "evidence_of h =
     \<lparr>ev_path = rh_path h, ev_heading = rh_heading h, ev_heading_path = rh_heading_path h,
      ev_content = rh_content h, ev_start = rh_start h, ev_end = rh_end h,
      ev_ids = (if rh_chunk h = [] then [] else [rh_chunk h]),
      ev_hashes = (if rh_hash h = [] then [] else [rh_hash h]), ev_score = rh_score h, ev_tags = rh_tags h\<rparr>"

definition or_text :: "pystr option \<Rightarrow> pystr option \<Rightarrow> pystr option" where
  "or_text a b = (if a = None \<or> a = Some [] then b else a)"

definition join_evidence :: "evidence \<Rightarrow> evidence \<Rightarrow> evidence" where
  "join_evidence l r =
     \<lparr>ev_path = ev_path l, ev_heading = or_text (ev_heading l) (ev_heading r),
      ev_heading_path = or_text (ev_heading_path l) (ev_heading_path r),
      ev_content = ev_content l @ (if ends_with (ev_content l) [10] then [] else [10]) @ ev_content r,
      ev_start = min (ev_start l) (ev_start r), ev_end = max (ev_end l) (ev_end r),
      ev_ids = ev_ids l @ ev_ids r, ev_hashes = ev_hashes l @ ev_hashes r,
      ev_score = max (ev_score l) (ev_score r), ev_tags = (if ev_tags l = [] then ev_tags r else ev_tags l)\<rparr>"

text \<open>A block remembers its place among the candidates as long as nothing was joined to it.\<close>

type_synonym placed = "nat option \<times> evidence"

fun join_adjacent :: "int \<Rightarrow> placed \<Rightarrow> placed list \<Rightarrow> placed list" where
  "join_adjacent gap current [] = [current]"
| "join_adjacent gap current (c # cs) =
     (if ev_start (snd c) - ev_end (snd current) \<le> gap
      then join_adjacent gap (None, join_evidence (snd current) (snd c)) cs
      else current # join_adjacent gap c cs)"

definition merge_group :: "int \<Rightarrow> placed list \<Rightarrow> placed list" where
  "merge_group gap cs =
     (case sort_key (\<lambda>c. (ev_start (snd c), ev_end (snd c))) cs of
        [] \<Rightarrow> []
      | c # rest \<Rightarrow> join_adjacent gap c rest)"

definition first_seen :: "'a list \<Rightarrow> 'a list" where
  "first_seen xs = rev (remdups (rev xs))"

definition merged_position :: "evidence list \<Rightarrow> placed \<Rightarrow> nat" where
  "merged_position ordered m =
     (case fst m of
        Some i \<Rightarrow> i
      | None \<Rightarrow>
          (case filter (\<lambda>(i, c). set (ev_ids c) \<inter> set (ev_ids (snd m)) \<noteq> {}) (enumerate 0 ordered) of
             [] \<Rightarrow> length ordered
           | (i, c) # rest \<Rightarrow> i))"

definition accumulate :: "context_budget \<Rightarrow> rag_hit list \<Rightarrow> evidence list" where
  "accumulate B hits =
     (let ordered = map evidence_of (dedupe_hits {} {} hits) in
      if \<not> cb_merge_adjacent B then ordered
      else
        let placed = map (\<lambda>(i, c). (Some i, c)) (enumerate 0 ordered);
            groups = map (\<lambda>p. filter (\<lambda>c. ev_path (snd c) = p) placed) (first_seen (map ev_path ordered));
            merged = concat (map (merge_group (cb_merge_gap B)) groups) in
        map snd (sort_key (merged_position ordered) merged))"

record selection =
  sl_chosen :: "evidence list"
  sl_spent :: "pystr \<Rightarrow> int"
  sl_used :: int
  sl_truncated :: bool

fun select_evidence :: "int \<Rightarrow> int \<Rightarrow> int \<Rightarrow> evidence list \<Rightarrow> selection \<Rightarrow> selection" where
  "select_evidence limit_chunks limit_tokens cap [] z = z"
| "select_evidence limit_chunks limit_tokens cap (c # cs) z =
     (if max 0 limit_chunks \<le> int (length (sl_chosen z)) then z\<lparr>sl_truncated := True\<rparr>
      else
        let tokens = int (estimate_tokens (ev_content c)); spent = sl_spent z (ev_path c) in
        if spent \<noteq> 0 \<and> cap < spent + tokens
        then select_evidence limit_chunks limit_tokens cap cs (z\<lparr>sl_truncated := True\<rparr>)
        else if limit_tokens < sl_used z + tokens \<and> sl_chosen z \<noteq> [] then z\<lparr>sl_truncated := True\<rparr>
        else if spent = 0 \<and> cap < tokens
        then select_evidence limit_chunks limit_tokens cap cs
               (z\<lparr>sl_chosen := sl_chosen z @ [c], sl_spent := (sl_spent z)(ev_path c := cap + 1),
                  sl_used := sl_used z + tokens, sl_truncated := True\<rparr>)
        else select_evidence limit_chunks limit_tokens cap cs
               (z\<lparr>sl_chosen := sl_chosen z @ [c], sl_spent := (sl_spent z)(ev_path c := spent + tokens),
                  sl_used := sl_used z + tokens\<rparr>))"

record source_evidence =
  so_id :: pystr
  so_path :: pystr
  so_heading :: "pystr option"
  so_heading_path :: "pystr option"
  so_start :: int
  so_end :: int
  so_content :: pystr
  so_hash :: pystr
  so_chunk :: pystr

record evidence_pack =
  pk_query :: pystr
  pk_sources :: "source_evidence list"
  pk_tokens :: int
  pk_candidates :: nat
  pk_truncated :: bool

definition cite_id :: "nat \<Rightarrow> pystr" where
  "cite_id n = 83 # digits_of n"

definition source_of :: "nat \<Rightarrow> evidence \<Rightarrow> source_evidence" where
  "source_of i c =
     \<lparr>so_id = cite_id i, so_path = ev_path c, so_heading = ev_heading c, so_heading_path = ev_heading_path c,
      so_start = ev_start c, so_end = ev_end c, so_content = ev_content c, so_hash = ev_content_hash c,
      so_chunk = ev_chunk_id c\<rparr>"

definition or_limit :: "int option \<Rightarrow> int \<Rightarrow> int" where
  "or_limit v d = (case v of None \<Rightarrow> d | Some n \<Rightarrow> if n = 0 then d else n)"

definition build_pack ::
  "context_budget \<Rightarrow> pystr \<Rightarrow> rag_hit list \<Rightarrow> nat option \<Rightarrow> int option \<Rightarrow> int option \<Rightarrow> evidence_pack" where
  "build_pack B query hits candidate_count max_chunks max_tokens =
     (let z = select_evidence (or_limit max_chunks (cb_max_chunks B)) (or_limit max_tokens (cb_max_tokens B))
                (cb_max_per_document B) (accumulate B hits)
                \<lparr>sl_chosen = [], sl_spent = (\<lambda>_. 0), sl_used = 0, sl_truncated = False\<rparr> in
      \<lparr>pk_query = query, pk_sources = map (\<lambda>(i, c). source_of i c) (enumerate 1 (sl_chosen z)),
       pk_tokens = sl_used z,
       pk_candidates = (case candidate_count of Some n \<Rightarrow> n | None \<Rightarrow> length hits),
       pk_truncated = sl_truncated z\<rparr>)"

section \<open>The rendered pack\<close>

fun join_text :: "pystr \<Rightarrow> pystr list \<Rightarrow> pystr" where
  "join_text separator [] = []"
| "join_text separator [s] = s"
| "join_text separator (s # t # ts) = s @ separator @ join_text separator (t # ts)"

definition int_text :: "int \<Rightarrow> pystr" where
  "int_text n = (if n < 0 then 45 # digits_of (nat (- n)) else digits_of (nat n))"

definition text_or :: "pystr option \<Rightarrow> pystr \<Rightarrow> pystr" where
  "text_or a d = (case a of None \<Rightarrow> d | Some s \<Rightarrow> if s = [] then d else s)"

definition render_source :: "source_evidence \<Rightarrow> pystr" where
  "render_source s =
     (let heading = text_or (so_heading_path s) (text_or (so_heading s) []) in
      join_text [10]
        ([lit ''['' @ so_id s @ lit '']'', lit ''path: '' @ so_path s] @
         (if heading = [] then [] else [lit ''heading: '' @ heading]) @
         [lit ''lines: '' @ int_text (so_start s) @ lit ''-'' @ int_text (so_end s)]) @
      [10] @ lit ''content:'' @ [10] @ rstrip_if ((=) 10) (so_content s))"

definition render_evidence_pack :: "evidence_pack \<Rightarrow> pystr" where
  "render_evidence_pack P = join_text [10, 10] (map render_source (pk_sources P))"

section \<open>Citations\<close>

text \<open>The expression for one marker: a bracket, an S, one to three digits, a bracket, white space between.\<close>

definition decimal :: "digit_table \<Rightarrow> nat \<Rightarrow> bool" where
  "decimal U c \<longleftrightarrow> decimal_value U c \<noteq> None"

definition number_of :: "digit_table \<Rightarrow> pystr \<Rightarrow> nat" where
  "number_of U ds = foldl (\<lambda>n c. 10 * n + the (decimal_value U c)) 0 ds"

definition marker_at :: "digit_table \<Rightarrow> pystr \<Rightarrow> (nat \<times> pystr) option" where
  "marker_at U s =
     (if s = [] \<or> hd s \<noteq> 91 then None
      else
        let r = dropWhile is_space (tl s) in
        if r = [] \<or> hd r \<notin> {83, 115} then None
        else
          let t = dropWhile is_space (tl r); ds = takeWhile (decimal U) t;
              e = dropWhile is_space (drop (length ds) t) in
          if ds = [] \<or> 3 < length ds \<or> e = [] \<or> hd e \<noteq> 93 then None else Some (number_of U ds, tl e))"

lemma length_dropWhile_le': "length (dropWhile P s) \<le> length s"
  by (rule length_dropWhile_le)

lemma marker_at_shorter: "marker_at U s = Some (n, r) \<Longrightarrow> length r < length s"
proof -
  assume m: "marker_at U s = Some (n, r)"
  then obtain a where s: "s \<noteq> []" "a = dropWhile is_space (tl s)" "a \<noteq> []"
    "r = tl (dropWhile is_space (drop (length (takeWhile (decimal U) (dropWhile is_space (tl a)))) (dropWhile is_space (tl a))))"
    by (auto simp: marker_at_def Let_def split: if_splits)
  have "length r \<le> length a" unfolding s(4)
    by (metis diff_le_self dropWhile_eq_drop length_drop length_tl le_trans)
  also have "length a \<le> length (tl s)" unfolding s(2) by (rule length_dropWhile_le)
  also have "\<dots> < length s" using s(1) by simp
  finally show ?thesis .
qed

datatype piece = Plain nat | Cite nat

function pieces_of :: "digit_table \<Rightarrow> pystr \<Rightarrow> piece list" where
  "pieces_of U s =
     (if s = [] then []
      else
        (case marker_at U s of
           Some (n, r) \<Rightarrow> Cite n # pieces_of U r
         | None \<Rightarrow> Plain (hd s) # pieces_of U (tl s)))"
  by pat_completeness auto
termination by (relation "measure (\<lambda>(U, s). length s)") (auto dest: marker_at_shorter)

declare pieces_of.simps [simp del]

definition cited :: "piece list \<Rightarrow> pystr list" where
  "cited ps = List.map_filter (\<lambda>p. case p of Cite n \<Rightarrow> Some (cite_id n) | Plain c \<Rightarrow> None) ps"

definition extract_citations :: "digit_table \<Rightarrow> pystr \<Rightarrow> pystr list" where
  "extract_citations U answer = first_seen (cited (pieces_of U answer))"

record citation_report =
  cr_valid :: "pystr list"
  cr_invalid :: "pystr list"
  cr_resolved :: "pystr list"

definition allowed_sources :: "evidence_pack \<Rightarrow> pystr \<Rightarrow> source_evidence option" where
  "allowed_sources P = map_of (rev (map (\<lambda>s. (so_id s, s)) (pk_sources P)))"

definition keep_piece :: "evidence_pack \<Rightarrow> piece \<Rightarrow> pystr" where
  "keep_piece P p =
     (case p of
        Plain c \<Rightarrow> [c]
      | Cite n \<Rightarrow> if allowed_sources P (cite_id n) = None then [] else lit ''['' @ cite_id n @ lit '']'')"

definition blank_char :: "nat \<Rightarrow> bool" where
  "blank_char c \<longleftrightarrow> c = 32 \<or> c = 9"

text \<open>Runs of two and more blanks become one space; blanks before punctuation go.\<close>

fun squeeze :: "pystr \<Rightarrow> pystr" where
  "squeeze (c # d # s) =
     (if blank_char c \<and> blank_char d
      then (if s \<noteq> [] \<and> blank_char (hd s) then squeeze (d # s) else 32 # squeeze s)
      else c # squeeze (d # s))"
| "squeeze s = s"

definition punctuation :: "nat list" where
  "punctuation = [12290, 65292, 12289, 65307, 65306, 65281, 65311, 46, 44, 59, 58, 33, 63]"

fun tighten :: "pystr \<Rightarrow> pystr" where
  "tighten [] = []"
| "tighten (c # s) =
     (if blank_char c \<and> (let r = dropWhile blank_char s in r \<noteq> [] \<and> hd r \<in> set punctuation)
      then tighten s else c # tighten s)"

definition validate_citations ::
  "digit_table \<Rightarrow> pystr \<Rightarrow> evidence_pack \<Rightarrow> pystr \<times> citation_report \<times> source_evidence list" where
  "validate_citations U answer P =
     (let ps = pieces_of U answer; ids = first_seen (cited ps);
          valid = filter (\<lambda>i. allowed_sources P i \<noteq> None) ids;
          invalid = filter (\<lambda>i. allowed_sources P i = None) ids;
          replaced = concat (map (keep_piece P) ps);
          sanitized = (if invalid = [] then replaced else tighten (squeeze replaced)) in
      (strip sanitized, \<lparr>cr_valid = valid, cr_invalid = invalid, cr_resolved = valid\<rparr>,
       List.map_filter (allowed_sources P) valid))"

definition is_supported :: "digit_table \<Rightarrow> pystr \<Rightarrow> evidence_pack \<Rightarrow> bool" where
  "is_supported U answer P = (cr_resolved (fst (snd (validate_citations U answer P))) \<noteq> [])"

definition NOT_ENOUGH_EVIDENCE :: pystr where
  "NOT_ENOUGH_EVIDENCE =
     [26681, 25454, 24403, 21069, 30693, 35782, 24211, 20869, 23481, 65292, 27809, 26377, 25214, 21040, 36275, 22815,
      35777, 25454, 22238, 31572, 36825, 20010, 38382, 39064, 12290]"

definition ensure_grounded_answer ::
  "digit_table \<Rightarrow> pystr \<Rightarrow> evidence_pack \<Rightarrow> bool \<Rightarrow> pystr \<times> citation_report \<times> source_evidence list \<times> bool" where
  "ensure_grounded_answer U answer P require_citation =
     (let (sanitized, report, used) = validate_citations U answer P; grounded = (used \<noteq> []) in
      if pk_sources P = [] then (NOT_ENOUGH_EVIDENCE, report, [], False)
      else if require_citation \<and> \<not> grounded then (NOT_ENOUGH_EVIDENCE, report, [], False)
      else (sanitized, report, used, grounded))"

end
