(* ===== verification/RagService.thy ===== *)
theory RagService imports Grounding begin

text \<open>
  \<^verbatim>\<open>server/rag/service.py\<close>: one question from the request to the answer. The outcome of the retriever, the
  chat model and the JSON parser are arguments; the model sees the user prompt, its system prompt is a
  file. Errors: \<open>RagInvalidRequest\<close> is answered as status 400, \<open>RagValueError\<close> is not caught by the code.
\<close>

section \<open>The query\<close>

datatype rag_error = RagInvalidRequest | RagValueError

definition query_control :: "nat \<Rightarrow> bool" where
  "query_control c \<longleftrightarrow> c \<le> 8 \<or> c = 11 \<or> c = 12 \<or> 14 \<le> c \<and> c \<le> 31 \<or> c = 127"

definition validate_query :: "pystr \<Rightarrow> rag_error + unit" where
  "validate_query q =
     (if strip q = [] then Inl RagInvalidRequest
      else if 256 < length q then Inl RagInvalidRequest
      else if list_ex query_control q then Inl RagInvalidRequest
      else if list_ex (\<lambda>term. 64 < length term) (split_words q) then Inl RagInvalidRequest
      else Inr ())"

section \<open>The language of the answer\<close>

definition fence3 :: pystr where "fence3 = [96, 96, 96]"

text \<open>What follows a code span or an address at the start of a text.\<close>

definition noise_at :: "pystr \<Rightarrow> pystr option" where
  "noise_at s =
     (let fenced = (if starts_with s fence3 then find_sub s fence3 3 else None);
          quoted = (if starts_with s [96] then find_sub s [96] 1 else None);
          url = (if starts_with s (lit ''http://'') then Some 7
                 else if starts_with s (lit ''https://'') then Some 8 else None) in
      case fenced of Some i \<Rightarrow> Some (drop (i + 3) s)
      | None \<Rightarrow>
          (case quoted of Some i \<Rightarrow> Some (drop (i + 1) s)
           | None \<Rightarrow>
               (case url of
                  Some k \<Rightarrow>
                    let word = takeWhile (\<lambda>c. \<not> is_space c) (drop k s) in
                    if word = [] then None else Some (drop (k + length word) s)
                | None \<Rightarrow> None)))"

lemma noise_at_shorter: "noise_at s = Some r \<Longrightarrow> length r < length s"
  by (cases s) (auto simp: noise_at_def Let_def starts_with_def fence3_def split: option.splits if_splits)

function strip_noise :: "pystr \<Rightarrow> pystr" where
  "strip_noise s =
     (if s = [] then []
      else (case noise_at s of Some r \<Rightarrow> 32 # strip_noise r | None \<Rightarrow> hd s # strip_noise (tl s)))"
  by pat_completeness auto
termination by (relation "measure length") (auto dest: noise_at_shorter)

declare strip_noise.simps [simp del]

definition han_char :: "nat \<Rightarrow> bool" where
  "han_char c \<longleftrightarrow> 13312 \<le> c \<and> c \<le> 19903 \<or> 19968 \<le> c \<and> c \<le> 40959 \<or> 63744 \<le> c \<and> c \<le> 64255"

definition latin_char :: "nat \<Rightarrow> bool" where
  "latin_char c \<longleftrightarrow> 65 \<le> c \<and> c \<le> 90 \<or> 97 \<le> c \<and> c \<le> 122"

definition language_counts :: "pystr \<Rightarrow> nat \<times> nat" where
  "language_counts s = (let c = strip_noise s in (length (filter han_char c), length (filter latin_char c)))"

definition response_language_instruction :: "pystr \<Rightarrow> evidence_pack \<Rightarrow> pystr" where
  "response_language_instruction query P =
     (let (cjk, latin) = language_counts (join_text [10] (map so_content (pk_sources P)));
          (query_cjk, query_latin) = language_counts query in
      if 4 \<le> cjk \<and> latin \<le> cjk * 2 then
        lit ''Simplified Chinese ('' @ [31616, 20307, 20013, 25991] @
        lit ''); write all explanatory prose in Chinese and do not translate the Chinese evidence into English.''
      else if 8 \<le> latin \<and> cjk * 2 \<le> latin then lit ''English; write all explanatory prose in English.''
      else if query_latin < query_cjk then
        lit ''Chinese (prefer Simplified Chinese); keep all explanatory prose in Chinese.''
      else if query_cjk < query_latin then lit ''English; keep all explanatory prose in English.''
      else lit ''the dominant natural language of the evidence; if the evidence is mostly Chinese, use Simplified Chinese'')"

section \<open>The generated answer\<close>

text \<open>What the parser is given: the text, or what stands between the first two fences.\<close>

definition payload_text :: "pystr \<Rightarrow> pystr" where
  "payload_text raw =
     (let s = strip raw in
      if starts_with s fence3 then
        let inner = (case find_sub s fence3 3 of None \<Rightarrow> s | Some i \<Rightarrow> slice s 3 i) in
        (case find_sub inner [10] 0 of None \<Rightarrow> inner | Some i \<Rightarrow> drop (i + 1) inner)
      else s)"

definition user_prompt :: "pystr \<Rightarrow> evidence_pack \<Rightarrow> pystr" where
  "user_prompt query P =
     lit ''Output language requirement: '' @ response_language_instruction query P @ [10, 10] @
     lit ''Question: '' @ query @ [10, 10] @ lit ''Evidence:'' @ [10] @ render_evidence_pack P @ [10, 10] @
     lit ''Answer using only the evidence above.''"

text \<open>
  The model gets the user prompt and answers a text with its name, or fails; the parser answers the
  \<^verbatim>\<open>answer\<close> and the \<^verbatim>\<open>used_sources\<close> of an accepted payload.
\<close>

record chat_model =
  cm_generate :: "(pystr \<Rightarrow> (pystr \<times> pystr) option) option"
  cm_payload :: "pystr \<Rightarrow> (pystr \<times> pystr list) option"

fun add_used :: "digit_table \<Rightarrow> pystr list \<Rightarrow> pystr \<Rightarrow> pystr list \<Rightarrow> rag_error + pystr" where
  "add_used U present combined [] = Inr combined"
| "add_used U present combined (token # tokens) =
     (let digits = filter (is_digit_char U) token in
      if digits = [] then add_used U present combined tokens
      else
        (case unsigned_int U digits of
           None \<Rightarrow> Inl RagValueError
         | Some n \<Rightarrow>
             if cite_id n \<in> set present then add_used U present combined tokens
             else add_used U (cite_id n # present) (combined @ lit '' ['' @ cite_id n @ lit '']'') tokens))"

definition generate_answer ::
  "digit_table \<Rightarrow> chat_model \<Rightarrow> pystr \<Rightarrow> evidence_pack \<Rightarrow> rag_error + (pystr option \<times> pystr \<times> pystr list)" where
  "generate_answer U M query P =
     (case cm_generate M of
        None \<Rightarrow> Inr (None, [], [lit ''generation_unavailable''])
      | Some generate \<Rightarrow>
          (case generate (user_prompt query P) of
             None \<Rightarrow> Inr (None, [], [lit ''generation_failed''])
           | Some (raw, model) \<Rightarrow>
               (case cm_payload M (payload_text raw) of
                  None \<Rightarrow>
                    Inr (if strip raw = [] then None else Some (strip raw), model, [lit ''generation_unstructured''])
                | Some (answer, used) \<Rightarrow>
                    rbind (add_used U (extract_citations U answer) answer used)
                      (\<lambda>combined. Inr (Some combined, model, [])))))"

section \<open>The response\<close>

definition short_excerpt :: "nat \<Rightarrow> pystr \<Rightarrow> pystr" where
  "short_excerpt limit content =
     (let s = join_text [32] (split_words content) in
      if length s \<le> limit then s else rstrip_if is_space (take limit s) @ [8230])"

record rag_source =
  ws_id :: pystr
  ws_path :: pystr
  ws_heading :: "pystr option"
  ws_heading_path :: "pystr option"
  ws_start :: int
  ws_end :: int
  ws_excerpt :: pystr
  ws_score :: "rat option"

definition source_to_wire :: "source_evidence \<Rightarrow> rat option \<Rightarrow> rag_source" where
  "source_to_wire s score =
     \<lparr>ws_id = so_id s, ws_path = so_path s, ws_heading = so_heading s, ws_heading_path = so_heading_path s,
      ws_start = max 1 (so_start s), ws_end = max 1 (so_end s), ws_excerpt = short_excerpt 400 (so_content s),
      ws_score = score\<rparr>"

definition evidence_fallback :: "evidence_pack \<Rightarrow> pystr" where
  "evidence_fallback P =
     join_text [10]
       ([26080, 27861, 35843, 29992, 29983, 25104, 27169, 22411, 65292, 19979, 38754, 26159, 30693, 35782, 24211, 20013,
         26816, 32034, 21040, 30340, 30456, 20851, 29255, 27573, 65306] #
        map (\<lambda>s.
          let heading = text_or (so_heading_path s) (text_or (so_heading s) []);
              label = so_path s @ (if heading = [] then [] else [32, 8250, 32] @ heading) in
          lit ''- ['' @ so_id s @ lit ''] '' @ label @ [65288] @ int_text (so_start s) @ lit ''-'' @
          int_text (so_end s) @ [32, 34892, 65289]) (pk_sources P))"

definition RAG_DISABLED_ANSWER :: pystr where
  "RAG_DISABLED_ANSWER =
     [30693, 35782, 24211, 26816, 32034, 65288, 82, 65, 71, 65289, 24050, 22312, 35774, 32622, 20013, 20851, 38381, 65292,
      22240, 27492, 27809, 26377, 26816, 32034, 20320, 30340, 31508, 35760, 12290]"

definition INDEX_UNAVAILABLE_ANSWER :: pystr where
  "INDEX_UNAVAILABLE_ANSWER =
     [30693, 35782, 24211, 32034, 24341, 23578, 26410, 24314, 31435, 25110, 19981, 21487, 29992, 65292, 22240, 27492,
      26080, 27861, 22522, 20110, 20320, 30340, 31508, 35760, 22238, 31572, 12290]"

record rag_response =
  qr_answer :: pystr
  qr_sources :: "rag_source list"
  qr_paths :: "pystr list"
  qr_grounded :: bool
  qr_stats :: rag_stats
  qr_degraded :: "pystr list"
  qr_model :: pystr
  qr_invalid :: "pystr list"

datatype retrieval = Found "rag_hit list" rag_stats | RetrieverDown | StoreDown | EmbeddingDown

definition retrieve :: "retrieval \<Rightarrow> rag_hit list \<times> rag_stats" where
  "retrieve outcome =
     (case outcome of
        Found hits stats \<Rightarrow> (hits, stats)
      | RetrieverDown \<Rightarrow> ([], no_stats\<lparr>st_degraded := [lit ''retrieval_unavailable'']\<rparr>)
      | StoreDown \<Rightarrow> ([], no_stats\<lparr>st_degraded := [lit ''index_unavailable'']\<rparr>)
      | EmbeddingDown \<Rightarrow> ([], no_stats\<lparr>st_degraded := [lit ''vector_unavailable'']\<rparr>))"

definition hit_score :: "rag_hit list \<Rightarrow> pystr \<Rightarrow> rat option" where
  "hit_score hits = map_of (rev (map (\<lambda>h. (rh_chunk h, rh_score h)) (filter (\<lambda>h. rh_chunk h \<noteq> []) hits)))"

definition rag_query ::
  "digit_table \<Rightarrow> chat_model \<Rightarrow> context_budget \<Rightarrow> bool \<Rightarrow> bool \<Rightarrow> pystr \<Rightarrow> retrieval \<Rightarrow> rag_error + rag_response" where
  "rag_query U M B enabled require_citation query outcome =
     rbind (validate_query query) (\<lambda>_.
     if \<not> enabled then
       Inr \<lparr>qr_answer = RAG_DISABLED_ANSWER, qr_sources = [], qr_paths = [], qr_grounded = False,
         qr_stats = no_stats\<lparr>st_degraded := [lit ''rag_disabled'']\<rparr>, qr_degraded = [lit ''rag_disabled''],
         qr_model = [], qr_invalid = []\<rparr>
     else
       let (hits, stats0) = retrieve outcome;
           P = build_pack B query hits (Some (st_fused stats0)) None None;
           stats = stats0\<lparr>st_context_chunks := length (pk_sources P), st_context_tokens := nat (pk_tokens P)\<rparr> in
       if pk_sources P = [] then
         Inr \<lparr>qr_answer = (if lit ''index_unavailable'' \<in> set (st_degraded stats) then INDEX_UNAVAILABLE_ANSWER
                           else NOT_ENOUGH_EVIDENCE),
           qr_sources = [], qr_paths = [], qr_grounded = False, qr_stats = stats,
           qr_degraded = st_degraded stats, qr_model = [], qr_invalid = []\<rparr>
       else
         rbind (generate_answer U M query P) (\<lambda>(answer, model, degraded).
         let (shown, sources, invalid, ungrounded) =
               (case answer of
                  Some a \<Rightarrow>
                    (let (a', report, used, grounded) = ensure_grounded_answer U a P require_citation in
                     (a', map (\<lambda>s. source_to_wire s (hit_score hits (so_chunk s))) used, cr_invalid report,
                      if grounded then [] else [lit ''answer_not_grounded'']))
                | None \<Rightarrow> (evidence_fallback P, map (\<lambda>s. source_to_wire s None) (pk_sources P), [], [])) in
         let final = stats\<lparr>st_degraded := st_degraded stats @ degraded @ ungrounded\<rparr> in
         Inr \<lparr>qr_answer = shown, qr_sources = sources, qr_paths = first_seen (map so_path (pk_sources P)),
           qr_grounded = True, qr_stats = final, qr_degraded = sorted_list_of_set (set (st_degraded final)),
           qr_model = model, qr_invalid = invalid\<rparr>))"

end
