(* ===== verification/RagProperties.thy ===== *)
theory RagProperties imports RagService "HOL-Library.Code_Target_Nat" begin

text \<open>
  What retrieval and answers promise: the fusion ranks every chunk once, the evidence stays within its
  budget and is made of retrieved text only, and an answer cites nothing but that evidence.
\<close>

section \<open>Rank fusion\<close>

lemma merge_hit_chunk [simp]: "rh_chunk (merge_hit e h) = rh_chunk e"
  by (simp add: merge_hit_def Let_def)

lemma add_hit_chunks:
  "(\<lambda>e. rh_chunk (fst e)) ` set (add_hit Q share h es) = insert (rh_chunk h) ((\<lambda>e. rh_chunk (fst e)) ` set es)"
proof (induction es)
  case (Cons e es)
  then show ?case by (cases e; cases "rh_chunk (fst e) = rh_chunk h") (simp_all add: insert_commute)
qed simp

lemma add_hit_distinct:
  "distinct (map (\<lambda>e. rh_chunk (fst e)) es) \<Longrightarrow> distinct (map (\<lambda>e. rh_chunk (fst e)) (add_hit Q share h es))"
proof (induction es)
  case (Cons e es)
  obtain r s where e: "e = (r, s)" by force
  show ?case
  proof (cases "rh_chunk r = rh_chunk h")
    case True
    with Cons.prems show ?thesis by (simp add: e)
  next
    case False
    have "rh_chunk r \<notin> (\<lambda>e. rh_chunk (fst e)) ` set (add_hit Q share h es)"
      using Cons.prems False by (auto simp: e add_hit_chunks)
    with False Cons show ?thesis by (simp add: e)
  qed
qed simp

lemma fuse_list_chunks:
  "(\<lambda>e. rh_chunk (fst e)) ` set (fuse_list Q k weight i hs es) = rh_chunk ` set hs \<union> (\<lambda>e. rh_chunk (fst e)) ` set es"
  by (induction hs arbitrary: i es) (auto simp: add_hit_chunks)

lemma fuse_list_distinct:
  "distinct (map (\<lambda>e. rh_chunk (fst e)) es) \<Longrightarrow> distinct (map (\<lambda>e. rh_chunk (fst e)) (fuse_list Q k weight i hs es))"
  by (induction hs arbitrary: i es) (simp_all add: add_hit_distinct)

lemma fuse_lists_chunks:
  "(\<lambda>e. rh_chunk (fst e)) ` set (fuse_lists Q k ls es) =
     (\<Union>(hs, weight) \<in> set ls. if 0 < weight then rh_chunk ` set hs else {}) \<union> (\<lambda>e. rh_chunk (fst e)) ` set es"
proof (induction ls arbitrary: es)
  case (Cons l ls)
  then show ?case by (cases l) (auto simp: fuse_list_chunks not_less)
qed simp

lemma fuse_lists_distinct:
  "distinct (map (\<lambda>e. rh_chunk (fst e)) es) \<Longrightarrow> distinct (map (\<lambda>e. rh_chunk (fst e)) (fuse_lists Q k ls es))"
proof (induction ls arbitrary: es)
  case (Cons l ls)
  then show ?case by (cases l) (simp add: fuse_list_distinct del: One_nat_def)
qed simp

lemma ranked_chunks: "rh_chunk ` set (ranked Q es) = (\<lambda>e. rh_chunk (fst e)) ` set es"
  by (auto simp: ranked_def image_image case_prod_unfold)

lemma ranked_distinct: "distinct (map (\<lambda>e. rh_chunk (fst e)) es) \<Longrightarrow> distinct (map rh_chunk (ranked Q es))"
proof -
  assume d: "distinct (map (\<lambda>e. rh_chunk (fst e)) es)"
  let ?s = "sort_key (\<lambda>(h, s). (- s, rh_chunk h)) es"
  have "distinct ?s" "inj_on (\<lambda>e. rh_chunk (fst e)) (set ?s)" using d by (simp_all add: distinct_map)
  then have "distinct (map (\<lambda>e. rh_chunk (fst e)) ?s)" by (simp only: distinct_map simp_thms)
  moreover have "map rh_chunk (ranked Q es) = map (\<lambda>e. rh_chunk (fst e)) ?s"
    by (simp add: ranked_def case_prod_unfold)
  ultimately show ?thesis by simp
qed

lemma ranked_scores:
  assumes "mono (sl_round Q)"
  shows "sorted_wrt (\<ge>) (map rh_score (ranked Q es))"
proof -
  let ?k = "\<lambda>(h, s). (- s, rh_chunk h)" and ?s = "sort_key (\<lambda>(h, s). (- s, rh_chunk h)) es"
  have "sorted (map ?k ?s)" by (rule sorted_sort_key)
  then have "sorted_wrt (\<lambda>x y. snd y \<le> snd x) ?s"
    by (rule sorted_wrt_mono_rel [rotated, OF sorted_map [THEN iffD1]])
      (auto simp: less_eq_prod_def case_prod_unfold)
  then have "sorted_wrt (\<lambda>x y. sl_round Q (snd x) \<ge> sl_round Q (snd y)) ?s"
    using assms by (auto elim!: sorted_wrt_mono_rel [rotated] dest: monoD)
  then show ?thesis by (simp add: ranked_def sorted_wrt_map case_prod_unfold)
qed

section \<open>Where evidence comes from\<close>

text \<open>Texts put together, with a line feed where one is missing.\<close>

definition glue :: "pystr list \<Rightarrow> pystr" where
  "glue ts = foldl (\<lambda>l r. l @ (if ends_with l [10] then [] else [10]) @ r) (hd ts) (tl ts)"

lemma glue_single [simp]: "glue [t] = t"
  by (simp add: glue_def)

lemma glue_snoc: "ts \<noteq> [] \<Longrightarrow> glue (ts @ [t]) = glue ts @ (if ends_with (glue ts) [10] then [] else [10]) @ t"
  by (simp add: glue_def)

text \<open>A passage of a note that is made of retrieved hits of that note and spans exactly their lines.\<close>

definition backed :: "rag_hit list \<Rightarrow> pystr \<Rightarrow> int \<Rightarrow> int \<Rightarrow> pystr \<Rightarrow> bool" where
  "backed hits path start stop content \<longleftrightarrow>
     (\<exists>hs. hs \<noteq> [] \<and> set hs \<subseteq> set hits \<and> (\<forall>h \<in> set hs. rh_path h = path) \<and>
        start = Min (rh_start ` set hs) \<and> stop = Max (rh_end ` set hs) \<and> content = glue (map rh_content hs))"

definition ev_backed :: "rag_hit list \<Rightarrow> evidence \<Rightarrow> bool" where
  "ev_backed hits c = backed hits (ev_path c) (ev_start c) (ev_end c) (ev_content c)"

lemma dedupe_subset: "set (dedupe_hits ids texts hits) \<subseteq> set hits"
  by (induction hits arbitrary: ids texts) (auto simp: Let_def)

lemma evidence_of_fields [simp]:
  "ev_path (evidence_of h) = rh_path h" "ev_start (evidence_of h) = rh_start h"
  "ev_end (evidence_of h) = rh_end h" "ev_content (evidence_of h) = rh_content h"
  by (simp_all add: evidence_of_def)

lemma evidence_of_backed: "h \<in> set hits \<Longrightarrow> ev_backed hits (evidence_of h)"
  unfolding ev_backed_def backed_def by (rule exI [of _ "[h]"]) simp

lemma join_backed:
  assumes "ev_backed hits l" "h \<in> set hits" "rh_path h = ev_path l"
  shows "ev_backed hits (join_evidence l (evidence_of h))"
proof -
  from assms(1) obtain hs where hs: "hs \<noteq> []" "set hs \<subseteq> set hits" "\<forall>h \<in> set hs. rh_path h = ev_path l"
    "ev_start l = Min (rh_start ` set hs)" "ev_end l = Max (rh_end ` set hs)" "ev_content l = glue (map rh_content hs)"
    by (auto simp: ev_backed_def backed_def)
  show ?thesis
    unfolding ev_backed_def backed_def
  proof (intro exI [of _ "hs @ [h]"] conjI)
    show "ev_content (join_evidence l (evidence_of h)) = glue (map rh_content (hs @ [h]))"
      using hs(1,6) by (simp add: join_evidence_def glue_snoc)
  qed (use hs assms in \<open>auto simp: join_evidence_def min.commute max.commute\<close>)
qed

lemma join_adjacent_backed:
  "ev_backed hits (snd current) \<Longrightarrow> ev_path (snd current) = p \<Longrightarrow>
     \<forall>c \<in> set cs. \<exists>h \<in> set hits. snd c = evidence_of h \<and> rh_path h = p \<Longrightarrow>
     \<forall>c \<in> set (join_adjacent gap current cs). ev_backed hits (snd c)"
proof (induction cs arbitrary: current)
  case (Cons c cs)
  from Cons.prems(3) obtain h where h: "h \<in> set hits" "snd c = evidence_of h" "rh_path h = p" by auto
  have "\<forall>c \<in> set (join_adjacent gap (None, join_evidence (snd current) (snd c)) cs). ev_backed hits (snd c)"
  proof (intro Cons.IH)
    show "ev_backed hits (snd (None, join_evidence (snd current) (snd c)))"
      using join_backed [OF Cons.prems(1) h(1)] Cons.prems(2) h(2,3) by simp
  qed (use Cons.prems in \<open>auto simp: join_evidence_def\<close>)
  moreover have "\<forall>c' \<in> set (join_adjacent gap c cs). ev_backed hits (snd c')"
    using Cons.prems h evidence_of_backed by (intro Cons.IH) auto
  ultimately show ?case using Cons.prems(1) by auto
qed simp

lemma merge_group_backed:
  assumes "\<forall>c \<in> set cs. \<exists>h \<in> set hits. snd c = evidence_of h \<and> rh_path h = p"
  shows "\<forall>c \<in> set (merge_group gap cs). ev_backed hits (snd c)"
proof (cases "sort_key (\<lambda>c. (ev_start (snd c), ev_end (snd c))) cs")
  case Nil
  then show ?thesis by (simp add: merge_group_def)
next
  case (Cons c rest)
  have eq: "set (c # rest) = set cs" using Cons by (metis set_sort)
  have all: "\<forall>c' \<in> set (c # rest). \<exists>h \<in> set hits. snd c' = evidence_of h \<and> rh_path h = p"
    using assms unfolding eq by simp
  then obtain h where "h \<in> set hits" "snd c = evidence_of h" "rh_path h = p" by auto
  with all have "\<forall>c' \<in> set (join_adjacent gap c rest). ev_backed hits (snd c')"
    by (intro join_adjacent_backed) (auto simp: evidence_of_backed)
  then show ?thesis by (simp add: merge_group_def Cons)
qed

lemma accumulate_backed: "c \<in> set (accumulate B hits) \<Longrightarrow> ev_backed hits c"
proof -
  assume c: "c \<in> set (accumulate B hits)"
  let ?ordered = "map evidence_of (dedupe_hits {} {} hits)"
  let ?placed = "map (\<lambda>(i, c). (Some i, c)) (enumerate 0 ?ordered)"
  have ordered: "\<forall>c \<in> set ?ordered. \<exists>h \<in> set hits. c = evidence_of h" using dedupe_subset by fastforce
  have "snd ` set ?placed = set ?ordered"
    by (metis (no_types, lifting) image_set map_map comp_def case_prod_unfold map_snd_enumerate snd_conv map_eq_conv)
  then have placed: "\<forall>c \<in> set ?placed. \<exists>h \<in> set hits. snd c = evidence_of h" using ordered by (metis imageI)
  have "\<forall>m \<in> set (merge_group gap (filter (\<lambda>c. ev_path (snd c) = p) ?placed)). ev_backed hits (snd m)" for gap p
    using placed by (intro merge_group_backed [where p = p]) fastforce
  with c ordered show ?thesis
    by (auto simp: accumulate_def Let_def evidence_of_backed split: if_splits)
qed

lemma select_subset:
  "set (sl_chosen (select_evidence n t cap cs z)) \<subseteq> set (sl_chosen z) \<union> set cs"
proof (induction cs arbitrary: z)
  case (Cons c cs)
  show ?case
    by (auto simp: Let_def dest!: subsetD [OF Cons.IH])
qed simp

lemma source_of_fields [simp]:
  "so_path (source_of i c) = ev_path c" "so_start (source_of i c) = ev_start c" "so_end (source_of i c) = ev_end c"
  "so_content (source_of i c) = ev_content c" "so_id (source_of i c) = cite_id i"
  by (simp_all add: source_of_def)

lemma pack_backed:
  assumes "s \<in> set (pk_sources (build_pack B q hits n mc mt))"
  shows "backed hits (so_path s) (so_start s) (so_end s) (so_content s)"
proof -
  define z where "z = select_evidence (or_limit mc (cb_max_chunks B)) (or_limit mt (cb_max_tokens B))
      (cb_max_per_document B) (accumulate B hits) \<lparr>sl_chosen = [], sl_spent = (\<lambda>_. 0), sl_used = 0, sl_truncated = False\<rparr>"
  have z: "pk_sources (build_pack B q hits n mc mt) = map (\<lambda>(i, c). source_of i c) (enumerate 1 (sl_chosen z))"
    by (simp add: build_pack_def Let_def z_def)
  have sub: "set (sl_chosen z) \<subseteq> set (accumulate B hits)"
    unfolding z_def by (rule subset_trans [OF select_subset]) simp
  from assms z obtain i c where c: "s = source_of i c" "c \<in> set (sl_chosen z)"
    by (auto simp: set_zip enumerate_eq_zip in_set_conv_nth)
  then show ?thesis using accumulate_backed [of c B hits] sub by (auto simp: ev_backed_def)
qed

section \<open>The budget\<close>

definition cost :: "evidence \<Rightarrow> int" where
  "cost c = int (estimate_tokens (ev_content c))"

definition spent_on :: "pystr \<Rightarrow> evidence list \<Rightarrow> int" where
  "spent_on p cs = sum_list (map cost (filter (\<lambda>c. ev_path c = p) cs))"

lemma cost_nonneg: "0 \<le> cost c"
  by (simp add: cost_def)

lemma spent_on_snoc [simp]: "spent_on p (cs @ [c]) = spent_on p cs + (if ev_path c = p then cost c else 0)"
  by (simp add: spent_on_def)

text \<open>A note has spent what its blocks cost, or it was closed by a first block over its share.\<close>

definition in_budget :: "int \<Rightarrow> int \<Rightarrow> int \<Rightarrow> selection \<Rightarrow> bool" where
  "in_budget n limit cap z \<longleftrightarrow>
     int (length (sl_chosen z)) \<le> max 0 n \<and>
     sl_used z = sum_list (map cost (sl_chosen z)) \<and> (sl_used z \<le> limit \<or> length (sl_chosen z) \<le> 1) \<and>
     (\<forall>p. spent_on p (sl_chosen z) = sl_spent z p \<and> sl_spent z p \<le> cap \<or>
          sl_spent z p = cap + 1 \<and> (\<exists>c \<in> set (sl_chosen z). ev_path c = p \<and> spent_on p (sl_chosen z) = cost c))"

lemma in_budget_truncated [simp]: "in_budget n limit cap (z\<lparr>sl_truncated := b\<rparr>) = in_budget n limit cap z"
  by (simp add: in_budget_def)

lemma in_budget_add:
  assumes w: "in_budget n limit cap z" and "0 \<le> cap"
    and room: "int (length (sl_chosen z)) < max 0 n"
    and used: "sl_used z + cost c \<le> limit \<or> sl_chosen z = []"
    and new: "sl_spent z (ev_path c) = 0 \<and> cap < cost c \<and> v = cap + 1 \<or>
              sl_spent z (ev_path c) + cost c \<le> cap \<and> v = sl_spent z (ev_path c) + cost c"
  shows "in_budget n limit cap (z\<lparr>sl_chosen := sl_chosen z @ [c], sl_spent := (sl_spent z)(ev_path c := v),
           sl_used := sl_used z + cost c\<rparr>)"
proof -
  have old: "spent_on p (sl_chosen z) = sl_spent z p \<and> sl_spent z p \<le> cap \<or>
      sl_spent z p = cap + 1 \<and> (\<exists>c \<in> set (sl_chosen z). ev_path c = p \<and> spent_on p (sl_chosen z) = cost c)" for p
    using w by (simp add: in_budget_def)
  have same: "spent_on (ev_path c) (sl_chosen z) = sl_spent z (ev_path c)"
    using old [of "ev_path c"] new \<open>0 \<le> cap\<close> cost_nonneg [of c] by auto
  have "spent_on p (sl_chosen z @ [c]) = ((sl_spent z)(ev_path c := v)) p \<and> ((sl_spent z)(ev_path c := v)) p \<le> cap \<or>
      ((sl_spent z)(ev_path c := v)) p = cap + 1 \<and>
      (\<exists>d \<in> set (sl_chosen z @ [c]). ev_path d = p \<and> spent_on p (sl_chosen z @ [c]) = cost d)" for p
  proof (cases "p = ev_path c")
    case True
    with same new show ?thesis by auto
  next
    case False
    with old [of p] show ?thesis by auto
  qed
  then show ?thesis using w room used by (auto simp: in_budget_def)
qed

lemma select_in_budget:
  "in_budget n limit cap z \<Longrightarrow> 0 \<le> cap \<Longrightarrow> in_budget n limit cap (select_evidence n limit cap cs z)"
proof (induction cs arbitrary: z)
  case (Cons c cs)
  define spent where "spent = sl_spent z (ev_path c)"
  consider (stop) "select_evidence n limit cap (c # cs) z = z\<lparr>sl_truncated := True\<rparr>"
    | (skip) "select_evidence n limit cap (c # cs) z = select_evidence n limit cap cs (z\<lparr>sl_truncated := True\<rparr>)"
    | (over) "int (length (sl_chosen z)) < max 0 n" "sl_used z + cost c \<le> limit \<or> sl_chosen z = []" "spent = 0" "cap < cost c"
      "select_evidence n limit cap (c # cs) z = select_evidence n limit cap cs
         (z\<lparr>sl_chosen := sl_chosen z @ [c], sl_spent := (sl_spent z)(ev_path c := cap + 1),
            sl_used := sl_used z + cost c, sl_truncated := True\<rparr>)"
    | (take) "int (length (sl_chosen z)) < max 0 n" "sl_used z + cost c \<le> limit \<or> sl_chosen z = []" "spent + cost c \<le> cap"
      "select_evidence n limit cap (c # cs) z = select_evidence n limit cap cs
         (z\<lparr>sl_chosen := sl_chosen z @ [c], sl_spent := (sl_spent z)(ev_path c := spent + cost c),
            sl_used := sl_used z + cost c\<rparr>)"
  proof (cases "max 0 n \<le> int (length (sl_chosen z))")
    case True
    then show ?thesis by (intro stop) simp
  next
    case chunks: False
    show ?thesis
    proof (cases "spent \<noteq> 0 \<and> cap < spent + cost c")
      case True
      with chunks show ?thesis by (intro skip) (simp add: Let_def spent_def cost_def)
    next
      case share: False
      show ?thesis
      proof (cases "limit < sl_used z + cost c \<and> sl_chosen z \<noteq> []")
        case True
        with chunks share show ?thesis by (intro stop) (auto simp: Let_def spent_def cost_def)
      next
        case room: False
        show ?thesis
        proof (cases "spent = 0 \<and> cap < cost c")
          case True
          with chunks share room show ?thesis by (intro over) (auto simp: Let_def spent_def cost_def)
        next
          case False
          with chunks share room show ?thesis by (intro take) (auto simp: Let_def spent_def cost_def)
        qed
      qed
    qed
  qed
  then show ?case
  proof cases
    case over
    then have "in_budget n limit cap (z\<lparr>sl_chosen := sl_chosen z @ [c], sl_spent := (sl_spent z)(ev_path c := cap + 1),
        sl_used := sl_used z + cost c\<rparr>)"
      using Cons.prems by (intro in_budget_add) (auto simp: spent_def)
    with over(5) Cons.IH Cons.prems(2) show ?thesis by simp
  next
    case take
    then have "in_budget n limit cap (z\<lparr>sl_chosen := sl_chosen z @ [c], sl_spent := (sl_spent z)(ev_path c := spent + cost c),
        sl_used := sl_used z + cost c\<rparr>)"
      using Cons.prems by (intro in_budget_add) (auto simp: spent_def)
    with take(4) Cons.IH Cons.prems(2) show ?thesis by simp
  qed (use Cons in simp_all)
qed simp

section \<open>Markers\<close>

text \<open>A text in which every bracket opens the plain marker of an allowed number.\<close>

definition marker :: "nat \<Rightarrow> pystr" where
  "marker n = 91 # cite_id n @ [93]"

inductive clean :: "(nat \<Rightarrow> bool) \<Rightarrow> pystr \<Rightarrow> bool" for ok where
  clean_Nil: "clean ok []"
| clean_char: "c \<noteq> 91 \<Longrightarrow> clean ok s \<Longrightarrow> clean ok (c # s)"
| clean_marker: "ok n \<Longrightarrow> n < 1000 \<Longrightarrow> clean ok s \<Longrightarrow> clean ok (marker n @ s)"

lemma digits_of_range: "c \<in> set (digits_of n) \<Longrightarrow> 48 \<le> c \<and> c \<le> 57"
  using digits_of_digits [of n] by (auto simp: list_all_iff)

lemma digits_of_short: "n < 1000 \<Longrightarrow> length (digits_of n) \<le> 3"
  by (simp add: digits_of_last [of n] digits_of_last [of "n div 10"] digits_of_last [of "n div 10 div 10"])

lemma number_of_digits:
  assumes "digits_ok U"
  shows "number_of U (digits_of n) = n"
proof (induction n rule: digits_of.induct)
  case (1 n)
  have "48 \<le> 48 + n mod 10" "48 + n mod 10 \<le> 57" using mod_less_divisor [of 10 n] by linarith+
  then have "decimal_value U (48 + n mod 10) = Some (n mod 10)"
    using assms unfolding digits_ok_def by (metis add_diff_cancel_left')
  then show ?case using 1 by (cases "n < 10") (simp_all add: number_of_def digits_of_last [of n])
qed

lemma digit_chars:
  assumes "digits_ok U"
  shows "48 \<le> c \<and> c \<le> 57 \<Longrightarrow> decimal U c" "decimal U 93 \<longleftrightarrow> False"
proof -
  show "48 \<le> c \<and> c \<le> 57 \<Longrightarrow> decimal U c" using assms by (simp add: digits_ok_def decimal_def)
  have "\<not> is_digit_char U 93" using assms by (simp add: digits_ok_def)
  moreover have "decimal_value U 93 = Some d \<Longrightarrow> is_digit_char U 93" for d
    using assms unfolding digits_ok_def by blast
  ultimately show "decimal U 93 \<longleftrightarrow> False" unfolding decimal_def by (cases "decimal_value U 93") blast+
qed

lemma not_space: "\<not> is_space 83" "\<not> is_space 93" "\<not> is_space 91" "48 \<le> c \<and> c \<le> 57 \<Longrightarrow> \<not> is_space c"
  by (auto simp: is_space_def)

lemma marker_at_marker:
  assumes "digits_ok U" "n < 1000"
  shows "marker_at U (marker n @ s) = Some (n, s)"
proof -
  obtain d ds where d: "digits_of n = d # ds" using digits_of_not_Nil by (meson list.exhaust)
  then have "\<not> is_space d" using digits_of_range [of d n] not_space(4) by simp
  moreover have "takeWhile (decimal U) (digits_of n @ 93 # s) = digits_of n"
    using digits_of_range [of _ n] digit_chars [OF assms(1)] by (simp add: takeWhile_append)
  moreover have "dropWhile is_space (digits_of n @ 93 # s) = digits_of n @ 93 # s"
    using calculation(1) by (simp add: d)
  ultimately show ?thesis
    using digits_of_short [OF assms(2)]
    by (simp add: marker_at_def marker_def cite_id_def Let_def not_space number_of_digits [OF assms(1)] not_less)
qed

lemma pieces_of_Nil [simp]: "pieces_of U [] = []"
  by (simp add: pieces_of.simps)

lemma pieces_of_marker: "digits_ok U \<Longrightarrow> n < 1000 \<Longrightarrow> pieces_of U (marker n @ s) = Cite n # pieces_of U s"
  by (subst pieces_of.simps) (simp add: marker_at_marker, simp add: marker_def)

lemma pieces_of_char: "c \<noteq> 91 \<Longrightarrow> pieces_of U (c # s) = Plain c # pieces_of U s"
  by (subst pieces_of.simps) (simp add: marker_at_def)

lemma cited_simps [simp]:
  "cited [] = []" "cited (Plain c # ps) = cited ps" "cited (Cite n # ps) = cite_id n # cited ps"
  by (simp_all add: cited_def List.map_filter_simps)

lemma set_first_seen [simp]: "set (first_seen xs) = set xs"
  by (simp add: first_seen_def)

lemma clean_cites:
  "clean ok s \<Longrightarrow> digits_ok U \<Longrightarrow> set (extract_citations U s) \<subseteq> cite_id ` {n. ok n}"
  by (induction rule: clean.induct) (auto simp: extract_citations_def pieces_of_marker pieces_of_char)

inductive_cases clean_ConsE: "clean ok (c # s)"

lemma clean_tl: "clean ok (c # s) \<Longrightarrow> c \<noteq> 91 \<Longrightarrow> clean ok s"
  by (erule clean_ConsE) (auto simp: marker_def)

lemma marker_not_blank: "c \<in> set (marker n) \<Longrightarrow> \<not> blank_char c"
  using digits_of_range [of c n] by (auto simp: marker_def cite_id_def blank_char_def)

lemma squeeze_char: "\<not> blank_char c \<Longrightarrow> squeeze (c # s) = c # squeeze s"
  by (cases s) simp_all

lemma squeeze_word: "\<forall>c \<in> set xs. \<not> blank_char c \<Longrightarrow> squeeze (xs @ s) = xs @ squeeze s"
  by (induction xs) (simp_all add: squeeze_char)

lemma squeeze_one: "s = [] \<or> \<not> blank_char (hd s) \<Longrightarrow> squeeze (c # s) = c # squeeze s"
  by (cases s) simp_all

lemma clean_squeeze: "clean ok s \<Longrightarrow> clean ok (squeeze s)"
proof (induction rule: clean.induct)
  case (clean_char c s)
  show ?case
  proof (cases "blank_char c \<and> s \<noteq> [] \<and> blank_char (hd s)")
    case False
    then have "squeeze (c # s) = c # squeeze s" using squeeze_char squeeze_one by metis
    with clean_char show ?thesis by (simp add: clean.clean_char)
  next
    case True
    then obtain d t where s: "s = d # t" "blank_char d" by (cases s) auto
    show ?thesis
    proof (cases "t \<noteq> [] \<and> blank_char (hd t)")
      case True
      with \<open>blank_char c \<and> s \<noteq> [] \<and> blank_char (hd s)\<close> s clean_char show ?thesis by simp
    next
      case False
      then have "squeeze s = d # squeeze t" unfolding s by (intro squeeze_one) auto
      moreover have "d \<noteq> 91" using s(2) by (auto simp: blank_char_def)
      ultimately have "clean ok (squeeze t)" using clean_char.IH clean_tl by metis
      moreover have "squeeze (c # s) = 32 # squeeze t" using True False s by auto
      ultimately show ?thesis by (simp add: clean.clean_char)
    qed
  qed
next
  case (clean_marker n s)
  have "squeeze (marker n @ s) = marker n @ squeeze s" using marker_not_blank by (intro squeeze_word) auto
  with clean_marker show ?case by (simp add: clean.clean_marker)
qed (simp add: clean_Nil)

lemma tighten_word: "\<forall>c \<in> set xs. \<not> blank_char c \<Longrightarrow> tighten (xs @ s) = xs @ tighten s"
  by (induction xs) simp_all

lemma clean_tighten: "clean ok s \<Longrightarrow> clean ok (tighten s)"
proof (induction rule: clean.induct)
  case (clean_marker n s)
  have "tighten (marker n @ s) = marker n @ tighten s" using marker_not_blank by (intro tighten_word) auto
  with clean_marker show ?case by (simp add: clean.clean_marker)
qed (simp_all add: clean_Nil clean_char)

lemma rstrip_if_word: "xs \<noteq> [] \<Longrightarrow> \<not> P (last xs) \<Longrightarrow> rstrip_if P (xs @ s) = xs @ rstrip_if P s"
proof -
  assume xs: "xs \<noteq> []" "\<not> P (last xs)"
  then have "dropWhile P (rev xs) = rev xs" by (cases xs rule: rev_cases) simp_all
  then show ?thesis by (simp add: rstrip_if_def dropWhile_append dropWhile_eq_Nil_conv)
qed

lemma rstrip_if_Cons: "rstrip_if P (c # s) = (if P c \<and> rstrip_if P s = [] then [] else c # rstrip_if P s)"
  by (auto simp: rstrip_if_def dropWhile_append)

lemma clean_rstrip: "clean ok s \<Longrightarrow> clean ok (rstrip_if is_space s)"
proof (induction rule: clean.induct)
  case (clean_marker n s)
  have "rstrip_if is_space (marker n @ s) = marker n @ rstrip_if is_space s"
    by (rule rstrip_if_word) (simp_all add: marker_def not_space)
  with clean_marker show ?case by (simp add: clean.clean_marker)
qed (auto simp: rstrip_if_Cons intro: clean.intros, simp add: rstrip_if_def clean_Nil)

lemma clean_lstrip: "clean ok s \<Longrightarrow> clean ok (lstrip_if is_space s)"
proof (induction rule: clean.induct)
  case (clean_marker n s)
  have "lstrip_if is_space (marker n @ s) = marker n @ s" by (simp add: lstrip_if_def marker_def not_space)
  with clean_marker show ?case by (simp add: clean.clean_marker)
qed (simp_all add: lstrip_if_def clean_Nil clean_char)

lemma clean_strip: "clean ok s \<Longrightarrow> clean ok (strip s)"
  by (simp add: strip_if_def clean_lstrip clean_rstrip)

section \<open>Checked answers\<close>

lemma number_of_bound:
  assumes "digits_ok U" "\<forall>c \<in> set ds. decimal U c"
  shows "number_of U ds < 10 ^ length ds"
  using assms(2)
proof (induction ds rule: rev_induct)
  case (snoc c ds)
  then obtain d where d: "decimal_value U c = Some d" by (auto simp: decimal_def)
  have "d < 10" using assms(1) d unfolding digits_ok_def by blast
  moreover have "number_of U ds < 10 ^ length ds" using snoc by simp
  ultimately show ?case by (simp add: number_of_def d)
qed (simp add: number_of_def)

lemma marker_at_bound:
  assumes "digits_ok U" "marker_at U s = Some (n, r)"
  shows "n < 1000"
proof -
  from assms(2) obtain t where n: "n = number_of U (takeWhile (decimal U) t)" "length (takeWhile (decimal U) t) \<le> 3"
    by (auto simp: marker_at_def Let_def not_less split: if_splits)
  have "number_of U (takeWhile (decimal U) t) < 10 ^ length (takeWhile (decimal U) t)"
    by (rule number_of_bound [OF assms(1)]) (auto dest: set_takeWhileD)
  also have "\<dots> \<le> 10 ^ 3" using n(2) by (intro power_increasing) simp_all
  finally show ?thesis using n(1) by simp
qed

lemma pieces_bound: "digits_ok U \<Longrightarrow> Cite n \<in> set (pieces_of U s) \<Longrightarrow> n < 1000"
proof (induction U s rule: pieces_of.induct)
  case (1 U s)
  then show ?case
    by (subst (asm) (3) pieces_of.simps) (auto dest: marker_at_bound split: if_splits option.splits)
qed

lemma keep_piece_simps:
  "keep_piece P (Plain c) = [c]"
  "keep_piece P (Cite n) = (if allowed_sources P (cite_id n) = None then [] else marker n)"
  by (simp_all add: keep_piece_def marker_def)

lemma clean_pieces:
  "\<forall>c. Plain c \<in> set ps \<longrightarrow> c \<noteq> 91 \<Longrightarrow> \<forall>n. Cite n \<in> set ps \<longrightarrow> n < 1000 \<Longrightarrow>
     \<forall>n. Cite n \<in> set ps \<longrightarrow> allowed_sources P (cite_id n) \<noteq> None \<longrightarrow> ok n \<Longrightarrow>
     clean ok (concat (map (keep_piece P) ps))"
proof (induction ps)
  case (Cons p ps)
  then have rest: "clean ok (concat (map (keep_piece P) ps))" by simp
  show ?case
  proof (cases p)
    case (Plain c)
    with Cons.prems(1) rest show ?thesis by (simp add: keep_piece_simps clean_char)
  next
    case (Cite n)
    with Cons.prems(2,3) rest show ?thesis by (simp add: keep_piece_simps clean_marker)
  qed
qed (simp add: clean_Nil)

lemma allowed_sources_Some: "allowed_sources P i = Some s \<Longrightarrow> s \<in> set (pk_sources P) \<and> so_id s = i"
  by (auto simp: allowed_sources_def dest!: map_of_SomeD)

lemma set_map_filter': "set (List.map_filter f xs) = {y. \<exists>x \<in> set xs. f x = Some y}"
  by (force simp: List.map_filter_def)

lemma cited_pieces: "set (cited ps) = cite_id ` {n. Cite n \<in> set ps}"
  by (induction ps) (auto simp: image_iff split: piece.split, (case_tac a; auto)+)

text \<open>The brackets of the answer belong to its markers.\<close>

definition only_markers :: "digit_table \<Rightarrow> pystr \<Rightarrow> bool" where
  "only_markers U answer = list_all (\<lambda>p. p \<noteq> Plain 91) (pieces_of U answer)"

lemma validated_cites:
  assumes "digits_ok U" "only_markers U answer"
  shows "set (extract_citations U (fst (validate_citations U answer P))) \<subseteq>
           so_id ` set (snd (snd (validate_citations U answer P)))"
proof -
  let ?ps = "pieces_of U answer"
  let ?ok = "\<lambda>n. Cite n \<in> set ?ps \<and> allowed_sources P (cite_id n) \<noteq> None"
  have "clean ?ok (concat (map (keep_piece P) ?ps))"
    using assms pieces_bound by (intro clean_pieces) (auto simp: only_markers_def list_all_iff)
  then have "clean ?ok (fst (validate_citations U answer P))"
    by (simp add: validate_citations_def Let_def clean_strip clean_tighten clean_squeeze)
  then have "set (extract_citations U (fst (validate_citations U answer P))) \<subseteq> cite_id ` {n. ?ok n}"
    by (rule clean_cites) (rule assms)
  also have "\<dots> \<subseteq> so_id ` set (snd (snd (validate_citations U answer P)))"
  proof
    fix i assume "i \<in> cite_id ` {n. ?ok n}"
    then obtain n s where n: "i = cite_id n" "Cite n \<in> set ?ps" "allowed_sources P (cite_id n) = Some s" by auto
    then have "s \<in> set (snd (snd (validate_citations U answer P)))"
      by (auto simp: validate_citations_def Let_def set_map_filter' cited_pieces intro!: bexI [of _ "cite_id n"])
    moreover have "so_id s = i" using n allowed_sources_Some by simp
    ultimately show "i \<in> so_id ` set (snd (snd (validate_citations U answer P)))" by blast
  qed
  finally show ?thesis .
qed

lemma validated_sources: "set (snd (snd (validate_citations U answer P))) \<subseteq> set (pk_sources P)"
  using allowed_sources_Some by (auto simp: validate_citations_def Let_def set_map_filter')

section \<open>The response\<close>

definition wire_backed :: "rag_hit list \<Rightarrow> rag_source \<Rightarrow> bool" where
  "wire_backed hits w \<longleftrightarrow>
     (\<exists>start stop content. backed hits (ws_path w) start stop content \<and> ws_start w = max 1 start \<and>
        ws_end w = max 1 stop \<and> ws_excerpt w = short_excerpt 400 content)"

lemma wire_of_pack: "s \<in> set (pk_sources (build_pack B q hits n mc mt)) \<Longrightarrow> wire_backed hits (source_to_wire s score)"
  using pack_backed unfolding wire_backed_def source_to_wire_def by fastforce

lemma grounded_sources:
  "ensure_grounded_answer U a P req = (a', report, used, grounded) \<Longrightarrow>
     set used \<subseteq> set (pk_sources P) \<and> grounded = (used \<noteq> []) \<and> (req \<and> \<not> grounded \<longrightarrow> a' = NOT_ENOUGH_EVIDENCE)"
  using validated_sources [of U a P]
  by (auto simp: ensure_grounded_answer_def Let_def split: prod.splits if_splits)

lemma response_sources:
  assumes "rag_query U M B enabled require_citation query outcome = Inr r" "w \<in> set (qr_sources r)"
    "retrieve outcome = (hits, stats)"
  shows "\<exists>s \<in> set (pk_sources (build_pack B query hits (Some (st_fused stats)) None None)). \<exists>score. w = source_to_wire s score"
proof -
  define P where "P = build_pack B query hits (Some (st_fused stats)) None None"
  note unfold = rag_query_def rbind_eq_Inr Let_def P_def [symmetric] case_prod_unfold assms(3)
  show ?thesis
  proof (cases "enabled \<and> pk_sources P \<noteq> []")
    case False
    then have "qr_sources r = []" using assms(1) by (auto simp: unfold split: if_splits)
    with assms(2) show ?thesis by simp
  next
    case True
    then obtain answer model degraded where gen: "generate_answer U M query P = Inr (answer, model, degraded)"
      using assms(1) by (auto simp: unfold)
    show ?thesis
    proof (cases answer)
      case None
      then have "qr_sources r = map (\<lambda>s. source_to_wire s None) (pk_sources P)"
        using assms(1) True gen by (auto simp: unfold)
      with assms(2) show ?thesis unfolding P_def by auto
    next
      case (Some a)
      obtain shown report used grounded where e: "ensure_grounded_answer U a P require_citation = (shown, report, used, grounded)"
        by (metis prod.collapse)
      then have "qr_sources r = map (\<lambda>s. source_to_wire s (hit_score hits (so_chunk s))) used"
        using assms(1) True gen Some by (auto simp: unfold)
      with assms(2) grounded_sources [OF e] show ?thesis unfolding P_def by auto
    qed
  qed
qed

section \<open>An example\<close>

definition demo_hit :: "string \<Rightarrow> int \<Rightarrow> string \<Rightarrow> rag_hit" where
  "demo_hit chunk line content =
     \<lparr>rh_chunk = lit chunk, rh_path = lit ''n.md'', rh_heading = None, rh_heading_path = None, rh_content = lit content,
      rh_score = 0, rh_keyword = None, rh_vector = None, rh_link = None, rh_rerank = None, rh_start = line,
      rh_end = line, rh_tags = [], rh_hash = lit chunk, rh_document_level = False\<rparr>"

definition demo_hits :: "rag_hit list" where
  "demo_hits = [demo_hit ''c1'' 9 ''beta'', demo_hit ''c2'' 1 ''alpha'']"

definition demo_budget :: context_budget where
  "demo_budget = \<lparr>cb_max_chunks = 6, cb_max_tokens = 4000, cb_max_per_document = 1800, cb_merge_adjacent = True, cb_merge_gap = 5\<rparr>"

definition demo_model :: chat_model where
  "demo_model = \<lparr>cm_generate = Some (\<lambda>prompt. Some (lit ''Beta [S1], and more [S7].'', lit ''m'')), cm_payload = (\<lambda>s. None)\<rparr>"

definition demo_answer :: "rag_error + rag_response" where
  "demo_answer = rag_query ascii_digits demo_model demo_budget True True (lit ''beta'') (Found demo_hits no_stats)"

definition demo_reply :: rag_response where
  "demo_reply = (case demo_answer of Inr r \<Rightarrow> r | Inl e \<Rightarrow> undefined)"

lemma demo_answer_facts:
  "(case demo_answer of Inr r \<Rightarrow> [(qr_answer r, map ws_id (qr_sources r), qr_invalid r)] | Inl e \<Rightarrow> []) =
   [(lit ''Beta [S1], and more.'', [lit ''S1''], [lit ''S7''])]"
  by code_simp

lemma demo_reply:
  "demo_answer = Inr demo_reply"
  "(qr_answer demo_reply, map ws_id (qr_sources demo_reply), qr_invalid demo_reply) =
     (lit ''Beta [S1], and more.'', [lit ''S1''], [lit ''S7''])"
proof -
  note facts = sum_case_Cons [OF demo_answer_facts, of undefined, folded demo_reply_def]
  then show "demo_answer = Inr demo_reply" by (rule conjunct1)
  from facts show "(qr_answer demo_reply, map ws_id (qr_sources demo_reply), qr_invalid demo_reply) =
     (lit ''Beta [S1], and more.'', [lit ''S1''], [lit ''S7''])"
    by (simp only: list.inject simp_thms)
qed

definition demo_pack :: evidence_pack where
  "demo_pack = build_pack demo_budget (lit ''beta'') demo_hits (Some 0) None None"

definition exact_scores :: score_lib where
  "exact_scores = \<lparr>sl_recip = (\<lambda>n. 1 / of_nat n), sl_times = (*), sl_plus = (+), sl_round = (\<lambda>x. x)\<rparr>"

text \<open>A marker around a marker: taking the inner one out forges another one.\<close>

lemma removed_marker_forges_another:
  "fst (validate_citations ascii_digits (lit ''See [S[S99]98].'') demo_pack) = lit ''See [S98].''"
  "extract_citations ascii_digits (fst (validate_citations ascii_digits (lit ''See [S[S99]98].'') demo_pack)) = [lit ''S98'']"
  "map so_id (pk_sources demo_pack) = [lit ''S1'', lit ''S2'']"
  by code_simp+

section \<open>Properties\<close>

text \<open>
  Rank fusion lists every chunk that some ranking with a positive weight has, once, with the scores
  falling from the first to the last; asking for the best few is a prefix of that list.
\<close>

theorem fusion_ranks_every_chunk_once:
  assumes "reciprocal_rank_fusion Q rankings k None (Some ws) = Some hits" "mono (sl_round Q)"
  shows "distinct (map rh_chunk hits) \<and>
    rh_chunk ` set hits = (\<Union>(hs, w) \<in> set (zip rankings ws). if 0 < w then rh_chunk ` set hs else {}) \<and>
    sorted_wrt (\<ge>) (map rh_score hits) \<and>
    reciprocal_rank_fusion Q rankings k (Some n) (Some ws) = Some (take n hits)"
proof -
  have hits: "hits = ranked Q (fuse_lists Q k (zip rankings ws) [])" "k \<noteq> 0" "length ws = length rankings"
    using assms(1) by (auto simp: reciprocal_rank_fusion_def Let_def split: if_splits)
  then show ?thesis
    using ranked_scores [OF assms(2)] ranked_distinct [OF fuse_lists_distinct]
    by (simp add: ranked_chunks fuse_lists_chunks reciprocal_rank_fusion_def)
qed

lemma fusion_ranks_every_chunk_once_witness:
  "\<exists>hits. reciprocal_rank_fusion exact_scores [demo_hits, rev demo_hits] 60 None (Some [1, 1]) = Some hits \<and>
     distinct (map rh_chunk hits) \<and> rh_chunk ` set hits = {lit ''c1'', lit ''c2''} \<and> sorted_wrt (\<ge>) (map rh_score hits)"
proof -
  obtain hits where hits: "reciprocal_rank_fusion exact_scores [demo_hits, rev demo_hits] 60 None (Some [1, 1]) = Some hits"
    by (simp add: reciprocal_rank_fusion_def)
  have "mono (sl_round exact_scores)" by (simp add: exact_scores_def mono_def)
  from fusion_ranks_every_chunk_once [OF hits this] hits show ?thesis
    by (auto simp: demo_hits_def demo_hit_def)
qed

text \<open>
  C33. The evidence stays within its budget: at most the allowed number of blocks, at most the allowed
  tokens unless one block alone exceeds them, and no note takes more than its share unless a single
  block of it does.
\<close>

theorem evidence_within_budget:
  assumes "0 \<le> cb_max_per_document B" "P = build_pack B q hits n None None"
  shows "int (length (pk_sources P)) \<le> max 0 (cb_max_chunks B) \<and>
    pk_tokens P = (\<Sum>s\<leftarrow>pk_sources P. int (estimate_tokens (so_content s))) \<and>
    (pk_tokens P \<le> cb_max_tokens B \<or> length (pk_sources P) \<le> 1) \<and>
    (let spent = (\<Sum>s\<leftarrow>filter (\<lambda>s. so_path s = p) (pk_sources P). int (estimate_tokens (so_content s))) in
     spent \<le> cb_max_per_document B \<or> spent \<in> (\<lambda>s. int (estimate_tokens (so_content s))) ` set (pk_sources P))"
proof -
  let ?start = "\<lparr>sl_chosen = [], sl_spent = (\<lambda>_. 0), sl_used = 0, sl_truncated = False\<rparr>"
  define z where "z = select_evidence (cb_max_chunks B) (cb_max_tokens B) (cb_max_per_document B) (accumulate B hits) ?start"
  have "in_budget (cb_max_chunks B) (cb_max_tokens B) (cb_max_per_document B) ?start"
    using assms(1) by (simp add: in_budget_def spent_on_def)
  from select_in_budget [OF this assms(1)] have z: "in_budget (cb_max_chunks B) (cb_max_tokens B) (cb_max_per_document B) z"
    unfolding z_def .
  have P: "pk_sources P = map (\<lambda>(i, c). source_of i c) (enumerate 1 (sl_chosen z))" "pk_tokens P = sl_used z"
    by (simp_all add: assms(2) build_pack_def Let_def z_def or_limit_def)
  have cost: "map (\<lambda>s. int (estimate_tokens (so_content s))) (map (\<lambda>(i, c). source_of i c) (enumerate j cs)) = map cost cs" for j cs
    by (induction cs arbitrary: j) (simp_all add: cost_def)
  have part: "map (\<lambda>s. int (estimate_tokens (so_content s)))
      (filter (\<lambda>s. so_path s = p) (map (\<lambda>(i, c). source_of i c) (enumerate j cs))) =
      map cost (filter (\<lambda>c. ev_path c = p) cs)" for j cs
    by (induction cs arbitrary: j) (simp_all add: cost_def)
  let ?tokens = "\<lambda>s. int (estimate_tokens (so_content s))"
  have l1: "map ?tokens (pk_sources P) = map cost (sl_chosen z)" unfolding P(1) by (rule cost)
  have l2: "map ?tokens (filter (\<lambda>s. so_path s = p) (pk_sources P)) = map cost (filter (\<lambda>c. ev_path c = p) (sl_chosen z))"
    unfolding P(1) by (rule part)
  have l3: "?tokens ` set (pk_sources P) = cost ` set (sl_chosen z)" using l1 by (metis set_map)
  have l4: "length (pk_sources P) = length (sl_chosen z)" using arg_cong [OF l1, of length] by simp
  have "spent_on p (sl_chosen z) \<le> cb_max_per_document B \<or> spent_on p (sl_chosen z) \<in> cost ` set (sl_chosen z)"
    using z unfolding in_budget_def by (metis imageI)
  then show ?thesis
    using z unfolding l1 l2 l3 l4 P(2) Let_def in_budget_def spent_on_def by metis
qed

lemma demo_budget_fields:
  "cb_max_chunks demo_budget = 6" "cb_max_tokens demo_budget = 4000" "cb_max_per_document demo_budget = 1800"
  by (simp_all add: demo_budget_def)

lemma evidence_within_budget_witness:
  "int (length (pk_sources demo_pack)) \<le> 6 \<and> (pk_tokens demo_pack \<le> 4000 \<or> length (pk_sources demo_pack) \<le> 1)"
proof -
  have "0 \<le> cb_max_per_document demo_budget" by (simp add: demo_budget_fields)
  note budget = evidence_within_budget [OF this demo_pack_def, of "[]", unfolded demo_budget_fields]
  show ?thesis using conjunct1 [OF budget] conjunct1 [OF conjunct2 [OF conjunct2 [OF budget]]] by simp
qed

text \<open>
  C32. Whatever the language model writes, every source of a response was retrieved: it is made of hits of
  that note, glued in order, with exactly the lines they span.
\<close>

theorem response_sources_were_retrieved:
  assumes "rag_query U M B enabled require_citation query outcome = Inr r" "w \<in> set (qr_sources r)"
  shows "\<exists>hits stats. outcome = Found hits stats \<and> wire_backed hits w"
proof -
  obtain hits stats where rt: "retrieve outcome = (hits, stats)" by force
  from response_sources [OF assms rt] wire_of_pack have backed: "wire_backed hits w" by blast
  then have "hits \<noteq> []" by (auto simp: wire_backed_def backed_def)
  with rt backed show ?thesis by (auto simp: retrieve_def split: retrieval.splits)
qed

lemma response_sources_were_retrieved_witness:
  "wire_backed demo_hits (hd (qr_sources demo_reply))"
proof -
  have "qr_sources demo_reply \<noteq> []" using demo_reply(2) by auto
  then show ?thesis
    using response_sources_were_retrieved [OF demo_reply(1) [unfolded demo_answer_def]] by fastforce
qed



end
