(* ===== verification/Markdown.thy ===== *)
theory Markdown imports Utf8 begin

text \<open>
  \<^verbatim>\<open>server/markdown/\<close>: the scanner of wikilinks (\<^verbatim>\<open>wikilinks.py\<close>) and the reader of frontmatter
  (\<^verbatim>\<open>frontmatter.py\<close>). The regular expressions are written out as what they accept. YAML and \<^verbatim>\<open>str()\<close> of
  a value that is not a text are the record \<open>yaml_lib\<close>. Diagnostic messages are determined by their kind
  and left out.
\<close>

section \<open>Code regions\<close>

text \<open>\<open>_FENCE_RE\<close> on a line without its indentation: the fence character and how often it stands there.\<close>

definition fence_marker :: "pystr \<Rightarrow> (nat \<times> nat) option" where
  "fence_marker stripped =
     (case stripped of
        [] \<Rightarrow> None
      | c # _ \<Rightarrow>
          let n = length (takeWhile ((=) c) stripped) in
          if (c = 96 \<or> c = 126) \<and> 3 \<le> n then Some (c, n) else None)"

text \<open>The inline code spans of a line, from \<open>cursor\<close> on.\<close>

lemma find_sub_bounds: "find_sub s p i = Some j \<Longrightarrow> i \<le> j \<and> j + length p \<le> length s"
  using find_sub_Some by blast

function inline_spans :: "pystr \<Rightarrow> nat \<Rightarrow> nat \<Rightarrow> (nat \<times> nat) list" where
  "inline_spans line offset cursor =
     (case find_sub line [96] cursor of
        None \<Rightarrow> []
      | Some tick \<Rightarrow>
          let run_len = length (takeWhile ((=) 96) (drop tick line)); run_end = tick + run_len in
          (case find_sub line (replicate run_len 96) run_end of
             None \<Rightarrow> []
           | Some closer \<Rightarrow>
               (offset + tick, offset + closer + run_len) # inline_spans line offset (closer + run_len)))"
  by pat_completeness auto

lemma tick_run:
  assumes "find_sub line [96] cursor = Some tick"
  shows "0 < length (takeWhile ((=) 96) (drop tick line))"
proof -
  from find_sub_Some [OF assms] have "starts_with (drop tick line) [96]" by blast
  then obtain r where "drop tick line = 96 # r" by (auto simp: starts_with_append)
  then show ?thesis by simp
qed

termination inline_spans
proof (relation "measure (\<lambda>(line, _, cursor). length line - cursor)", simp, clarsimp)
  fix line :: pystr and cursor tick closer :: nat
  assume t: "find_sub line [96] cursor = Some tick"
    and c: "find_sub line (replicate (length (takeWhile ((=) 96) (drop tick line))) 96)
              (tick + length (takeWhile ((=) 96) (drop tick line))) = Some closer"
  show "length line - (closer + length (takeWhile ((=) 96) (drop tick line))) < length line - cursor"
    using find_sub_bounds [OF t] find_sub_bounds [OF c] tick_run [OF t] unfolding length_replicate by linarith
qed

declare inline_spans.simps [simp del]

text \<open>The open fence: its character, its length and where it started.\<close>

type_synonym open_fence = "(nat \<times> nat \<times> nat) option"

definition next_fence :: "pystr \<Rightarrow> nat \<Rightarrow> open_fence \<Rightarrow> open_fence \<times> (nat \<times> nat) list" where
  "next_fence line offset fence =
     (case fence_marker (lstrip_if is_space line) of
        None \<Rightarrow> (fence, [])
      | Some (c, n) \<Rightarrow>
          (case fence of
             None \<Rightarrow> (Some (c, n, offset), [])
           | Some (c', n', start) \<Rightarrow>
               if c = c' \<and> n' \<le> n then (None, [(start, offset + length line)]) else (fence, [])))"

fun line_ranges :: "pystr list \<Rightarrow> nat \<Rightarrow> open_fence \<Rightarrow> (nat \<times> nat) list" where
  "line_ranges [] offset fence =
     (case fence of None \<Rightarrow> [] | Some (_, _, start) \<Rightarrow> [(start, offset)])"
| "line_ranges (line # lines) offset fence =
     (let (fence', closed) = next_fence line offset fence in
      closed @ (if fence' = None then inline_spans line offset 0 else []) @
      line_ranges lines (offset + length line) fence')"

definition code_ranges :: "pystr \<Rightarrow> (nat \<times> nat) list" where
  "code_ranges s = line_ranges (splitlines_keep s) 0 None"

definition is_inside :: "nat \<Rightarrow> (nat \<times> nat) list \<Rightarrow> bool" where
  "is_inside position ranges \<longleftrightarrow> list_ex (\<lambda>(a, b). a \<le> position \<and> position < b) ranges"

section \<open>Links\<close>

datatype ref_kind = Wikilink | Embed | Web

record wiki_ref =
  wr_target :: pystr
  wr_raw :: pystr
  wr_kind :: ref_kind
  wr_display :: "pystr option"
  wr_section :: "pystr option"
  wr_block :: "pystr option"
  wr_context :: "pystr option"
  wr_resolved :: "pystr option"
  wr_broken :: bool
  wr_ambiguous :: bool
  wr_candidates :: "pystr list"

definition CONTEXT_WINDOW :: nat where "CONTEXT_WINDOW = 200"

text \<open>\<open>_LINK_RE.search\<close>: where the next opener starts and where it ends.\<close>

fun find_link :: "pystr \<Rightarrow> nat \<Rightarrow> (nat \<times> nat) option" where
  "find_link [] i = None"
| "find_link (c # s) i =
     (if starts_with (c # s) [33, 91, 91] then Some (i, i + 3)
      else if starts_with (c # s) [91, 91] then Some (i, i + 2)
      else find_link s (Suc i))"

text \<open>The line around a position: from after the line feed before it to the next one.\<close>

definition line_around :: "pystr \<Rightarrow> nat \<Rightarrow> pystr" where
  "line_around s position =
     rev (takeWhile (\<lambda>c. c \<noteq> 10) (rev (take position s))) @ takeWhile (\<lambda>c. c \<noteq> 10) (drop position s)"

definition line_context :: "pystr \<Rightarrow> nat \<Rightarrow> pystr option" where
  "line_context s position =
     (let line = strip (line_around s position);
          line = (if CONTEXT_WINDOW < length line
                  then rstrip_if is_space (take CONTEXT_WINDOW line) @ [8230] else line) in
      if line = [] then None else Some line)"

text \<open>\<^verbatim>\<open>s.partition(sep)\<close>, when the separator is there.\<close>

definition partition_at :: "nat \<Rightarrow> pystr \<Rightarrow> pystr \<times> pystr" where
  "partition_at sep s = (takeWhile (\<lambda>c. c \<noteq> sep) s, drop 1 (dropWhile (\<lambda>c. c \<noteq> sep) s))"

definition strip_nonempty :: "pystr option \<Rightarrow> pystr option" where
  "strip_nonempty v = (case v of None \<Rightarrow> None | Some s \<Rightarrow> if s = [] then None else Some (strip s))"

definition parse_inner :: "pystr \<Rightarrow> pystr \<times> pystr option \<times> pystr option \<times> pystr option" where
  "parse_inner inner =
     (let (inner, alias) =
            (if 124 \<in> set inner then let (a, b) = partition_at 124 inner in (a, Some b) else (inner, None));
          (inner, section, block) =
            (if 35 \<in> set inner then let (a, b) = partition_at 35 inner in (a, Some b, None)
             else if 94 \<in> set inner then let (a, b) = partition_at 94 inner in (a, None, Some b)
             else (inner, None, None)) in
      (strip inner, strip_nonempty section, strip_nonempty block,
       case alias of None \<Rightarrow> None | Some a \<Rightarrow> if strip a = [] then None else Some (strip a)))"

text \<open>\<open>_URL_SCHEME_RE\<close>\<close>

definition ascii_letter :: "nat \<Rightarrow> bool" where
  "ascii_letter c \<longleftrightarrow> 65 \<le> c \<and> c \<le> 90 \<or> 97 \<le> c \<and> c \<le> 122"

definition scheme_char :: "nat \<Rightarrow> bool" where
  "scheme_char c \<longleftrightarrow> ascii_letter c \<or> 48 \<le> c \<and> c \<le> 57 \<or> c = 43 \<or> c = 46 \<or> c = 45"

definition has_url_scheme :: "pystr \<Rightarrow> bool" where
  "has_url_scheme target \<longleftrightarrow>
     (case target of [] \<Rightarrow> False
      | c # r \<Rightarrow> ascii_letter c \<and> starts_with (dropWhile scheme_char r) [58, 47, 47])"

definition link_ref :: "pystr \<Rightarrow> nat \<Rightarrow> nat \<Rightarrow> nat \<Rightarrow> wiki_ref" where
  "link_ref s start position close =
     (let raw = slice s start (close + 2);
          (target, section, block, display) = parse_inner (strip (slice s position close));
          web = has_url_scheme target in
      \<lparr>wr_target = target, wr_raw = raw,
       wr_kind = (if web then Web else if starts_with raw [33] then Embed else Wikilink),
       wr_display = display, wr_section = (if web then None else section),
       wr_block = (if web then None else block), wr_context = line_context s start,
       wr_resolved = None, wr_broken = False, wr_ambiguous = False, wr_candidates = []\<rparr>)"

lemma find_link_bounds:
  "find_link s i = Some (start, stop) \<Longrightarrow> i \<le> start \<and> start + 2 \<le> stop \<and> stop \<le> start + 3 \<and> stop \<le> i + length s"
proof (induction s i rule: find_link.induct)
  case (2 c s i)
  then show ?case
    using starts_with_length [of "c # s" "[33, 91, 91]"] starts_with_length [of "c # s" "[91, 91]"]
    by (auto split: if_splits)
qed simp

function scan_links :: "(nat \<times> nat) list \<Rightarrow> pystr \<Rightarrow> nat \<Rightarrow> wiki_ref list" where
  "scan_links ranges s position =
     (case find_link (drop position s) position of
        None \<Rightarrow> []
      | Some (start, inner_start) \<Rightarrow>
          if is_inside start ranges then scan_links ranges s inner_start
          else
            (case find_sub s [93, 93] inner_start of
               None \<Rightarrow> []
             | Some close \<Rightarrow>
                 if strip (slice s inner_start close) = [] then scan_links ranges s (close + 2)
                 else link_ref s start inner_start close # scan_links ranges s (close + 2)))"
  by pat_completeness auto

lemma find_link_less:
  assumes "find_link (drop position s) position = Some (start, stop)"
  shows "position < stop \<and> stop \<le> length s"
proof -
  have "drop position s \<noteq> []" using assms by auto
  then show ?thesis using find_link_bounds [OF assms] by auto
qed

termination scan_links
  by (relation "measure (\<lambda>(_, s, position). length s - position)")
    (auto dest!: find_link_less find_sub_bounds)

declare scan_links.simps [simp del]

definition parse_wikilinks :: "pystr \<Rightarrow> wiki_ref list" where
  "parse_wikilinks s = (if s = [] then [] else scan_links (code_ranges s) s 0)"

definition is_markdown_suffix :: "pylib \<Rightarrow> pystr \<Rightarrow> bool" where
  "is_markdown_suffix L path \<longleftrightarrow>
     ends_with (casefold L path) (lit ''.md'') \<or> ends_with (casefold L path) (lit ''.markdown'')"

section \<open>YAML values\<close>

text \<open>What \<^verbatim>\<open>yaml.safe_load\<close> can yield. \<open>YOther\<close> is a set or a \<^verbatim>\<open>bytes\<close> value.\<close>

datatype yvalue =
    YNull
  | YBool bool
  | YInt int
  | YFloat pystr
  | YStr pystr
  | YDate pystr
  | YOther pystr
  | YList "yvalue list"
  | YDict "(yvalue \<times> yvalue) list"

datatype yaml_result = YamlError "nat option" | YamlCrash | YamlValue yvalue

text \<open>
  \<open>safe_load\<close> answers a value, a \<^verbatim>\<open>YAMLError\<close> with the line of its mark, or another exception;
  \<open>py_str\<close> is \<^verbatim>\<open>str(value)\<close>. The argument of \<open>YDate\<close> is its \<^verbatim>\<open>isoformat()\<close>.
\<close>

record yaml_lib =
  safe_load :: "pystr \<Rightarrow> yaml_result"
  py_str :: "yvalue \<Rightarrow> pystr"

definition text_of :: "yaml_lib \<Rightarrow> yvalue \<Rightarrow> pystr" where
  "text_of Y v = (case v of YStr s \<Rightarrow> s | _ \<Rightarrow> py_str Y v)"

text \<open>A dictionary display: a later value of a key replaces the earlier one in its place.\<close>

fun dict_put :: "yvalue \<Rightarrow> yvalue \<Rightarrow> (yvalue \<times> yvalue) list \<Rightarrow> (yvalue \<times> yvalue) list" where
  "dict_put k v [] = [(k, v)]"
| "dict_put k v ((k', v') # m) = (if k' = k then (k, v) # m else (k', v') # dict_put k v m)"

fun coerce_json_safe :: "yaml_lib \<Rightarrow> yvalue \<Rightarrow> yvalue" where
  "coerce_json_safe Y (YDict entries) =
     YDict (foldl (\<lambda>m (k, v). dict_put k v m) []
              (map (\<lambda>(k, v). (YStr (text_of Y k), coerce_json_safe Y v)) entries))"
| "coerce_json_safe Y (YList vs) = YList (map (coerce_json_safe Y) vs)"
| "coerce_json_safe Y (YDate d) = YStr d"
| "coerce_json_safe Y v = v"

section \<open>Tags\<close>

text \<open>\<^verbatim>\<open>re.split(r"[\s,]+", s)\<close> without its empty pieces, which the loop skips.\<close>

fun tag_tokens :: "(nat \<Rightarrow> bool) \<Rightarrow> pystr \<Rightarrow> pystr list" where
  "tag_tokens P [] = []"
| "tag_tokens P (c # s) =
     (if P c then tag_tokens P s
      else if s = [] \<or> P (hd s) then [c] # tag_tokens P s
      else (case tag_tokens P s of [] \<Rightarrow> [[c]] | w # ws \<Rightarrow> (c # w) # ws))"

definition tag_sep :: "nat \<Rightarrow> bool" where
  "tag_sep c \<longleftrightarrow> is_space c \<or> c = 44"

definition clean_tag :: "pystr \<Rightarrow> pystr" where
  "clean_tag token = strip (if starts_with token [35] then drop 1 token else token)"

text \<open>The loop over the tokens: \<open>known\<close> holds the case-folded tags of \<open>result\<close>.\<close>

fun add_tokens :: "pylib \<Rightarrow> pystr list \<Rightarrow> pystr list \<Rightarrow> pystr list \<Rightarrow> pystr list" where
  "add_tokens L [] known result = result"
| "add_tokens L (token # tokens) known result =
     (let cleaned = clean_tag token in
      if cleaned = [] \<or> casefold L cleaned \<in> set known then add_tokens L tokens known result
      else add_tokens L tokens (casefold L cleaned # known) (result @ [cleaned]))"

definition raw_tag_parts :: "yvalue option \<Rightarrow> yvalue list" where
  "raw_tag_parts value =
     (case value of
        None \<Rightarrow> [] | Some YNull \<Rightarrow> [] | Some (YList vs) \<Rightarrow> vs | Some v \<Rightarrow> [v])"

definition split_tags :: "pylib \<Rightarrow> yaml_lib \<Rightarrow> yvalue option \<Rightarrow> pystr list" where
  "split_tags L Y value =
     add_tokens L (concat (map (\<lambda>part. tag_tokens tag_sep (strip (text_of Y part))) (raw_tag_parts value))) [] []"

section \<open>Frontmatter\<close>

text \<open>\<open>_LINE_SPLIT_RE.split\<close>: CR LF, CR and LF end a line.\<close>

fun split_newlines :: "pystr \<Rightarrow> pystr list" where
  "split_newlines [] = [[]]"
| "split_newlines (c # s) =
     (if c = 13 \<and> s \<noteq> [] \<and> hd s = 10 then [] # split_newlines (tl s)
      else if c = 13 \<or> c = 10 then [] # split_newlines s
      else (case split_newlines s of [] \<Rightarrow> [[c]] | w # ws \<Rightarrow> (c # w) # ws))"

text \<open>\<open>_SECTION_RE\<close> and \<open>_DELIMITER_LINE\<close> on a line without its end.\<close>

definition is_opener :: "pystr \<Rightarrow> bool" where
  "is_opener line \<longleftrightarrow> strip_if (\<lambda>c. c = 32 \<or> c = 9) line = [45, 45, 45]"

definition is_delimiter :: "pystr \<Rightarrow> bool" where
  "is_delimiter line \<longleftrightarrow> starts_with line [45, 45, 45] \<and> list_all is_space (drop 3 line)"

definition without_bom :: "pystr \<Rightarrow> pystr" where
  "without_bom s = (if starts_with s [65279] then drop 1 s else s)"

datatype fm_status = FmNone | FmOk | FmParseError | FmUnreadable

datatype fm_kind = Unterminated | BadYaml | NonDict | Undecodable

record frontmatter_result =
  fm_status :: fm_status
  fm_properties :: "(yvalue \<times> yvalue) list"
  fm_tags :: "pystr list"
  fm_tags_folded :: "pystr list"
  fm_error :: "(fm_kind \<times> nat option) option"

definition no_frontmatter :: frontmatter_result where
  "no_frontmatter = \<lparr>fm_status = FmNone, fm_properties = [], fm_tags = [], fm_tags_folded = [],
     fm_error = None\<rparr>"

definition frontmatter_error :: "fm_kind \<Rightarrow> nat option \<Rightarrow> frontmatter_result" where
  "frontmatter_error kind line =
     no_frontmatter\<lparr>fm_status := FmParseError, fm_error := Some (kind, line)\<rparr>"

text \<open>The lines between the opener and the first delimiter, and the lines after it.\<close>

fun frontmatter_block :: "pystr list \<Rightarrow> (pystr list \<times> pystr list) option" where
  "frontmatter_block [] = None"
| "frontmatter_block (line # lines) =
     (if is_delimiter line then Some ([], lines)
      else map_option (\<lambda>(block, rest). (line # block, rest)) (frontmatter_block lines))"

definition parse_frontmatter :: "pylib \<Rightarrow> yaml_lib \<Rightarrow> pystr \<Rightarrow> frontmatter_result" where
  "parse_frontmatter L Y s =
     (case split_newlines (without_bom s) of
        [] \<Rightarrow> no_frontmatter
      | first # lines \<Rightarrow>
          if \<not> is_opener first then no_frontmatter
          else
            (case frontmatter_block lines of
               None \<Rightarrow> frontmatter_error Unterminated (Some 1)
             | Some (block, _) \<Rightarrow>
                 (case safe_load Y (join_with 10 block) of
                    YamlError line \<Rightarrow> frontmatter_error BadYaml (map_option (\<lambda>n. n + 2) line)
                  | YamlCrash \<Rightarrow> frontmatter_error BadYaml None
                  | YamlValue v \<Rightarrow>
                      (case coerce_json_safe Y v of
                         YDict properties \<Rightarrow>
                           let tags = split_tags L Y (map_of properties (YStr (lit ''tags''))) in
                           \<lparr>fm_status = FmOk, fm_properties = properties, fm_tags = tags,
                            fm_tags_folded = map (casefold L) tags, fm_error = None\<rparr>
                       | _ \<Rightarrow> frontmatter_error NonDict (Some (length block + 2))))))"

definition strip_frontmatter :: "pystr \<Rightarrow> pystr" where
  "strip_frontmatter s =
     (case split_newlines (without_bom s) of
        [] \<Rightarrow> s
      | first # lines \<Rightarrow>
          if \<not> is_opener first then s
          else (case frontmatter_block lines of None \<Rightarrow> s | Some (_, rest) \<Rightarrow> join_with 10 rest))"

section \<open>Titles\<close>

text \<open>
  The heading pattern on one line: at most three blanks, one \<^verbatim>\<open>#\<close>, blanks, and something that is not a
  line feed. The value is what follows \<^verbatim>\<open>#\<close> and the blanks. When only blanks follow, the pattern gives
  one of them to its last group; the title is empty then.
\<close>

definition heading_title :: "pystr \<Rightarrow> pystr option" where
  "heading_title line =
     (let blank = (\<lambda>c. c = 32 \<or> c = 9); r = dropWhile blank line in
      if length (takeWhile blank line) \<le> 3 \<and> r \<noteq> [] \<and> hd r = 35 \<and> tl r \<noteq> [] \<and> blank (hd (tl r))
      then Some (strip (dropWhile blank (tl r))) else None)"

text \<open>\<^verbatim>\<open>str.splitlines()\<close>: the lines without their ends.\<close>

definition line_content :: "pystr \<Rightarrow> pystr" where
  "line_content line = rstrip_if is_linebreak line"

fun first_title :: "pystr list \<Rightarrow> pystr option" where
  "first_title [] = None"
| "first_title (line # lines) =
     (case heading_title line of
        Some (c # cs) \<Rightarrow> Some (c # cs)
      | _ \<Rightarrow> first_title lines)"

definition derive_title :: "pystr \<Rightarrow> pystr \<Rightarrow> pystr" where
  "derive_title s fallback =
     (case first_title (map line_content (splitlines_keep s)) of None \<Rightarrow> fallback | Some t \<Rightarrow> t)"

text \<open>\<^verbatim>\<open>path.rsplit("/", 1)[-1]\<close> and \<^verbatim>\<open>name.rpartition(".")\<close>\<close>

definition base_name :: "pystr \<Rightarrow> pystr" where
  "base_name path = last (split_on 47 path)"

definition strip_extension :: "pystr \<Rightarrow> pystr" where
  "strip_extension name =
     (let extension = last (split_on 46 name); stem = join_with 46 (butlast (split_on 46 name)) in
      if 46 \<in> set name \<and> stem \<noteq> [] \<and> extension \<noteq> [] then stem else name)"

definition basename_no_extension :: "pystr \<Rightarrow> pystr" where
  "basename_no_extension path = strip_extension (base_name path)"

end
