(* ===== verification/NoteIndex.thy ===== *)
theory NoteIndex imports Markdown Graph begin

text \<open>
  \<^verbatim>\<open>server/index/service.py\<close>: the derived index over the notes of a vault, with the tables of
  \<^verbatim>\<open>index/schema.py\<close>. A table is the list of its rows in the order of insertion; primary keys and the
  cascade from \<^verbatim>\<open>notes\<close> to its child tables are written out, and a transaction that raises leaves the
  database as it was. The database itself works; what can go wrong is a primary key that is taken, a text
  SQLite cannot store and a value \<^verbatim>\<open>json.dumps\<close> refuses. What the vault answers during one operation
  is the record \<open>vault_view\<close>. A property is stored as its value instead of its JSON text. Message texts
  and durations are left out.
\<close>

section \<open>Tables\<close>

record note_rec = note_row +
  nt_rowid :: nat
  nt_sha :: pystr
  nt_text :: pystr
  nt_truncated :: bool
  nt_status :: fm_status
  nt_diagnostic :: "pystr option"
  nt_error :: "(fm_kind \<times> nat option) option"
  nt_search :: pystr

record tag_rec = tag_row +
  tg_seq :: nat

record link_rec = link_row +
  lk_target :: pystr
  lk_display :: "pystr option"

record fts_row =
  ft_rowid :: nat
  ft_path :: pystr
  ft_title :: pystr
  ft_basename :: pystr
  ft_tags :: pystr
  ft_body :: pystr

record index_db =
  db_notes :: "note_rec list"
  db_tags :: "tag_rec list"
  db_props :: "(pystr \<times> pystr \<times> yvalue) list"
  db_links :: "link_rec list"
  db_backs :: "(pystr \<times> pystr \<times> pystr option) list"
  db_fts :: "fts_row list"

definition empty_db :: index_db where
  "empty_db = \<lparr>db_notes = [], db_tags = [], db_props = [], db_links = [], db_backs = [], db_fts = []\<rparr>"

datatype index_error = IndexUnavailable | KeyTaken | Unstorable | NoConnection

definition sql_text :: "pystr \<Rightarrow> bool" where
  "sql_text s \<longleftrightarrow> utf8_enc s \<noteq> None"

definition sql_opt :: "pystr option \<Rightarrow> bool" where
  "sql_opt v \<longleftrightarrow> (case v of None \<Rightarrow> True | Some s \<Rightarrow> sql_text s)"

text \<open>What \<^verbatim>\<open>json.dumps\<close> accepts and SQLite can store as text.\<close>

fun json_storable :: "yvalue \<Rightarrow> bool" where
  "json_storable (YOther _) = False"
| "json_storable (YDate _) = False"
| "json_storable (YStr s) = sql_text s"
| "json_storable (YList vs) = list_all json_storable vs"
| "json_storable (YDict entries) = list_all (\<lambda>(k, v). json_storable k \<and> json_storable v) entries"
| "json_storable v = True"

definition insert_unique :: "('a \<Rightarrow> 'k) \<Rightarrow> 'a list \<Rightarrow> 'a \<Rightarrow> index_error + 'a list" where
  "insert_unique key rows x = (if key x \<in> key ` set rows then Inl KeyTaken else Inr (rows @ [x]))"

fun insert_all :: "('a \<Rightarrow> 'k) \<Rightarrow> 'a list \<Rightarrow> 'a list \<Rightarrow> index_error + 'a list" where
  "insert_all key rows [] = Inr rows"
| "insert_all key rows (x # xs) = rbind (insert_unique key rows x) (\<lambda>rows. insert_all key rows xs)"

definition insert_or_ignore :: "('a \<Rightarrow> 'k) \<Rightarrow> 'a list \<Rightarrow> 'a \<Rightarrow> 'a list" where
  "insert_or_ignore key rows x = (if key x \<in> key ` set rows then rows else rows @ [x])"

section \<open>Entries\<close>

record index_env =
  ie_lib :: pylib
  ie_yaml :: yaml_lib
  ie_cap :: nat

record note_entry =
  en_path :: pystr
  en_sha :: pystr
  en_title :: pystr
  en_basename :: pystr
  en_text :: pystr
  en_truncated :: bool
  en_tags :: "pystr list"
  en_tags_folded :: "pystr list"
  en_properties :: "(yvalue \<times> yvalue) list"
  en_status :: fm_status
  en_error :: "(fm_kind \<times> nat option) option"
  en_outgoing :: "wiki_ref list"
  en_search :: pystr
  en_diagnostic :: "pystr option"

type_synonym name_map = "pystr \<Rightarrow> pystr list"

definition markdown_file :: "pylib \<Rightarrow> pystr \<Rightarrow> bool" where
  "markdown_file L path \<longleftrightarrow>
     ends_with (casefold L path) (lit ''.md'') \<or> ends_with (casefold L path) (lit ''.markdown'')"

definition full_key :: "pylib \<Rightarrow> pystr \<Rightarrow> pystr" where
  "full_key L path = casefold L (base_name path)"

definition noext_key :: "pylib \<Rightarrow> pystr \<Rightarrow> pystr" where
  "noext_key L path = casefold L (strip_extension (base_name path))"

text \<open>The basename maps of a list of files.\<close>

definition full_map :: "pylib \<Rightarrow> pystr list \<Rightarrow> name_map" where
  "full_map L files = (\<lambda>key. filter (\<lambda>path. full_key L path = key) files)"

definition noext_map :: "pylib \<Rightarrow> pystr list \<Rightarrow> name_map" where
  "noext_map L files = (\<lambda>key. filter (\<lambda>path. markdown_file L path \<and> noext_key L path = key) files)"

definition suffix_variants :: "pylib \<Rightarrow> pystr \<Rightarrow> pystr set" where
  "suffix_variants L name =
     {casefold L name, casefold L name @ lit ''.md'', casefold L name @ lit ''.markdown''}"

definition link_candidates :: "pylib \<Rightarrow> name_map \<Rightarrow> name_map \<Rightarrow> pystr \<Rightarrow> pystr set" where
  "link_candidates L full noext target =
     (if 47 \<in> set target then
        {path \<in> (\<Union>key \<in> suffix_variants L (base_name target). set (full key)).
           casefold L path \<in> suffix_variants L target}
      else set (full (casefold L target)) \<union> set (noext (casefold L (strip_extension target))))"

definition resolve_ref :: "pylib \<Rightarrow> name_map \<Rightarrow> name_map \<Rightarrow> pystr \<Rightarrow> wiki_ref \<Rightarrow> wiki_ref" where
  "resolve_ref L full noext source_path r =
     (if wr_kind r = Web then r
      else
        (let target = strip (wr_target r) in
         if target = [] then
           if wr_section r \<noteq> None \<or> wr_block r \<noteq> None
           then r\<lparr>wr_resolved := Some source_path, wr_broken := False, wr_ambiguous := False\<rparr>
           else r\<lparr>wr_broken := True\<rparr>
         else
           (case by_casefold L (link_candidates L full noext target) of
              [] \<Rightarrow> r\<lparr>wr_broken := True, wr_candidates := []\<rparr>
            | first # others \<Rightarrow>
                r\<lparr>wr_resolved := Some first, wr_broken := False, wr_ambiguous := (others \<noteq> []),
                  wr_candidates := (if others \<noteq> [] then first # others else [])\<rparr>)))"

definition NOT_UTF8 :: pystr where "NOT_UTF8 = lit ''File is not valid UTF-8''"

definition unreadable_entry :: "pystr \<Rightarrow> pystr \<Rightarrow> note_entry" where
  "unreadable_entry path digest =
     \<lparr>en_path = path, en_sha = digest, en_title = basename_no_extension path,
      en_basename = strip_extension (base_name path), en_text = [], en_truncated = False, en_tags = [],
      en_tags_folded = [], en_properties = [], en_status = FmUnreadable, en_error = None,
      en_outgoing = [], en_search = [], en_diagnostic = Some NOT_UTF8\<rparr>"

definition entry_from_text ::
  "index_env \<Rightarrow> name_map \<Rightarrow> name_map \<Rightarrow> pystr \<Rightarrow> pystr \<Rightarrow> pystr \<Rightarrow> note_entry" where
  "entry_from_text E full noext path digest content =
     (let L = ie_lib E; stem = strip_extension (base_name path);
          fm = parse_frontmatter L (ie_yaml E) content;
          whole = strip_frontmatter content;
          truncated = ie_cap E < length whole;
          body = (if truncated then take (ie_cap E) whole else whole);
          title = derive_title body stem in
      \<lparr>en_path = path, en_sha = digest, en_title = title, en_basename = stem, en_text = body,
       en_truncated = truncated, en_tags = fm_tags fm, en_tags_folded = fm_tags_folded fm,
       en_properties = fm_properties fm, en_status = fm_status fm, en_error = fm_error fm,
       en_outgoing = map (resolve_ref L full noext path) (parse_wikilinks content),
       en_search = casefold L (join_with 32 [stem, title, join_with 32 (fm_tags_folded fm), body]),
       en_diagnostic = None\<rparr>)"

definition build_entry ::
  "index_env \<Rightarrow> name_map \<Rightarrow> name_map \<Rightarrow> pystr \<Rightarrow> bytes \<times> pystr \<Rightarrow> note_entry" where
  "build_entry E full noext path data =
     (case utf8_decode (fst data) of
        None \<Rightarrow> unreadable_entry path (snd data)
      | Some content \<Rightarrow> entry_from_text E full noext path (snd data) content)"

section \<open>Writing rows\<close>

definition next_rowid :: "note_rec list \<Rightarrow> nat" where
  "next_rowid notes = (if notes = [] then 1 else Max (nt_rowid ` set notes) + 1)"

definition note_of :: "nat \<Rightarrow> note_entry \<Rightarrow> note_rec" where
  "note_of rowid e =
     \<lparr>nt_path = en_path e, nt_title = en_title e, nt_basename = en_basename e, nt_rowid = rowid,
      nt_sha = en_sha e, nt_text = en_text e, nt_truncated = en_truncated e, nt_status = en_status e,
      nt_diagnostic = en_diagnostic e, nt_error = en_error e, nt_search = en_search e\<rparr>"

definition folded_tags :: "pylib \<Rightarrow> note_entry \<Rightarrow> pystr list" where
  "folded_tags L e = (if en_tags_folded e = [] then map (casefold L) (en_tags e) else en_tags_folded e)"

definition tag_recs :: "pylib \<Rightarrow> note_entry \<Rightarrow> tag_rec list" where
  "tag_recs L e =
     map (\<lambda>(i, tag, folded). \<lparr>tg_note = en_path e, tg_tag = tag, tg_folded = folded, tg_seq = i\<rparr>)
       (List.enumerate 0 (zip (en_tags e) (folded_tags L e)))"

text \<open>\<^verbatim>\<open>sorted(properties.items())\<close>; the keys are texts.\<close>

definition key_text :: "yvalue \<Rightarrow> pystr" where
  "key_text k = (case k of YStr s \<Rightarrow> s | _ \<Rightarrow> [])"

definition prop_recs :: "note_entry \<Rightarrow> (pystr \<times> pystr \<times> yvalue) list" where
  "prop_recs e = map (\<lambda>(k, v). (en_path e, key_text k, v)) (sort_key (\<lambda>(k, v). key_text k) (en_properties e))"

fun kind_text :: "ref_kind \<Rightarrow> pystr" where
  "kind_text Wikilink = lit ''wikilink''"
| "kind_text Embed = lit ''embed''"
| "kind_text Web = lit ''web''"

definition link_of :: "pystr \<Rightarrow> nat \<Rightarrow> wiki_ref \<Rightarrow> link_rec" where
  "link_of path i r =
     \<lparr>lk_source = path, lk_seq = i, lk_kind = kind_text (wr_kind r), lk_raw = wr_raw r,
      lk_section = wr_section r, lk_block = wr_block r, lk_context = wr_context r,
      lk_resolved = wr_resolved r, lk_broken = wr_broken r, lk_ambiguous = wr_ambiguous r,
      lk_candidates = wr_candidates r, lk_target = wr_target r, lk_display = wr_display r\<rparr>"

definition link_recs :: "note_entry \<Rightarrow> link_rec list" where
  "link_recs e = map (\<lambda>(i, r). link_of (en_path e) i r) (List.enumerate 0 (en_outgoing e))"

definition fts_of :: "pylib \<Rightarrow> nat \<Rightarrow> note_entry \<Rightarrow> fts_row" where
  "fts_of L rowid e =
     \<lparr>ft_rowid = rowid, ft_path = en_path e, ft_title = en_title e, ft_basename = en_basename e,
      ft_tags = join_with 32 (folded_tags L e), ft_body = en_text e\<rparr>"

text \<open>What is stored of a reference.\<close>

definition ref_storable :: "wiki_ref \<Rightarrow> bool" where
  "ref_storable r \<longleftrightarrow> sql_text (wr_target r) \<and> sql_text (wr_raw r) \<and> sql_opt (wr_display r) \<and>
     sql_opt (wr_section r) \<and> sql_opt (wr_block r) \<and> sql_opt (wr_context r) \<and>
     sql_opt (wr_resolved r) \<and> list_all sql_text (wr_candidates r)"

text \<open>Whether every value bound in the statements for an entry can be bound.\<close>

definition entry_storable :: "pylib \<Rightarrow> note_entry \<Rightarrow> bool" where
  "entry_storable L e \<longleftrightarrow>
     list_all sql_text ([en_path e, en_sha e, en_title e, en_basename e, en_text e, en_search e] @
       en_tags e @ folded_tags L e) \<and>
     list_all (\<lambda>(k, v). sql_text (key_text k) \<and> json_storable v) (en_properties e) \<and>
     list_all ref_storable (en_outgoing e)"

definition tag_key :: "tag_rec \<Rightarrow> pystr \<times> pystr" where
  "tag_key t = (tg_note t, tg_folded t)"

definition prop_key :: "pystr \<times> pystr \<times> yvalue \<Rightarrow> pystr \<times> pystr" where
  "prop_key p = (fst p, fst (snd p))"

definition link_key :: "link_rec \<Rightarrow> pystr \<times> nat" where
  "link_key l = (lk_source l, lk_seq l)"

definition back_key :: "pystr \<times> pystr \<times> pystr option \<Rightarrow> pystr \<times> pystr" where
  "back_key b = (fst b, fst (snd b))"

definition insert_note_row :: "pylib \<Rightarrow> bool \<Rightarrow> note_entry \<Rightarrow> index_db \<Rightarrow> index_error + index_db" where
  "insert_note_row L fts e db =
     (let rowid = next_rowid (db_notes db) in
      rbind (check (entry_storable L e) Unstorable) (\<lambda>_.
      rbind (insert_unique nt_path (db_notes db) (note_of rowid e)) (\<lambda>notes.
      rbind (insert_all tag_key (db_tags db) (tag_recs L e)) (\<lambda>tags.
      rbind (insert_all prop_key (db_props db) (prop_recs e)) (\<lambda>props.
      rbind (insert_all link_key (db_links db) (link_recs e)) (\<lambda>links.
        Inr (db\<lparr>db_notes := notes, db_tags := tags, db_props := props, db_links := links,
                db_fts := (if fts then db_fts db @ [fts_of L rowid e] else db_fts db)\<rparr>)))))))"

text \<open>Deleting note rows takes their tags, properties, links and the backlinks they are the source of.\<close>

definition delete_notes :: "(note_rec \<Rightarrow> bool) \<Rightarrow> index_db \<Rightarrow> index_db" where
  "delete_notes P db =
     (let gone = nt_path ` set (filter P (db_notes db)) in
      db\<lparr>db_notes := filter (\<lambda>n. \<not> P n) (db_notes db),
         db_tags := filter (\<lambda>t. tg_note t \<notin> gone) (db_tags db),
         db_props := filter (\<lambda>p. fst p \<notin> gone) (db_props db),
         db_links := filter (\<lambda>l. lk_source l \<notin> gone) (db_links db),
         db_backs := filter (\<lambda>b. fst (snd b) \<notin> gone) (db_backs db)\<rparr>)"

definition delete_note_rows :: "bool \<Rightarrow> pystr \<Rightarrow> index_db \<Rightarrow> index_db" where
  "delete_note_rows fts path db =
     (let db' = (if fts then
                   (case find (\<lambda>n. nt_path n = path) (db_notes db) of
                      None \<Rightarrow> db
                    | Some n \<Rightarrow> db\<lparr>db_fts := filter (\<lambda>f. ft_rowid f \<noteq> nt_rowid n) (db_fts db)\<rparr>)
                 else db) in
      delete_notes (\<lambda>n. nt_path n = path) db')"

definition contributes_back :: "link_rec \<Rightarrow> bool" where
  "contributes_back l \<longleftrightarrow> lk_resolved l \<noteq> None \<and> lk_resolved l \<noteq> Some (lk_source l)"

definition add_backlinks :: "(link_rec \<Rightarrow> bool) \<Rightarrow> index_db \<Rightarrow> index_db" where
  "add_backlinks P db =
     db\<lparr>db_backs := foldl (insert_or_ignore back_key) (db_backs db)
          (map (\<lambda>l. (the (lk_resolved l), lk_source l, lk_context l))
             (filter (\<lambda>l. P l \<and> contributes_back l) (db_links db)))\<rparr>"

definition sync_outgoing_backlinks :: "pystr \<Rightarrow> index_db \<Rightarrow> index_db" where
  "sync_outgoing_backlinks path = add_backlinks (\<lambda>l. lk_source l = path)"

section \<open>The service\<close>

datatype build_state = IxIdle | IxReady | IxUnavailable

datatype vault_event = VCreate pystr | VModify pystr | VDelete pystr | VMove pystr pystr

record vault_view =
  vv_tree :: "(pystr \<times> bool) list option"
  vv_read :: "pystr \<Rightarrow> (bytes \<times> pystr) option"

record index_state =
  xs_db :: "index_db option"
  xs_fts :: bool
  xs_full :: name_map
  xs_noext :: name_map
  xs_state :: build_state
  xs_skipped :: nat
  xs_failed :: nat
  xs_built_at :: "nat option"
  xs_pending :: "(pystr \<times> vault_event \<times> nat) list"
  xs_timers :: "(pystr \<times> nat) list"

type_synonym 'a ix_act = "(index_state, index_error, 'a) act"

definition fresh_index :: index_state where
  "fresh_index = \<lparr>xs_db = None, xs_fts = False, xs_full = (\<lambda>_. []), xs_noext = (\<lambda>_. []),
     xs_state = IxIdle, xs_skipped = 0, xs_failed = 0, xs_built_at = None, xs_pending = [],
     xs_timers = []\<rparr>"

definition set_unavailable :: "index_state \<Rightarrow> index_state" where
  "set_unavailable s = s\<lparr>xs_state := IxUnavailable, xs_built_at := None\<rparr>"

text \<open>
  \<open>opened\<close> is what opening the file gives: nothing when it fails, else the rows it holds and whether FTS5
  is there. Only an earlier failure sets a build error, so an unavailable index returns to idle.
\<close>

definition open_database :: "(index_db \<times> bool) option \<Rightarrow> index_state \<Rightarrow> bool \<times> index_state" where
  "open_database opened s =
     (if xs_db s \<noteq> None then (True, s)
      else
        (case opened of
           None \<Rightarrow> (False, set_unavailable s)
         | Some (db, fts) \<Rightarrow>
             (True, s\<lparr>xs_db := Some db, xs_fts := fts,
                      xs_state := (if xs_state s = IxUnavailable then IxIdle else xs_state s)\<rparr>)))"

definition close_index :: "index_state \<Rightarrow> index_state" where
  "close_index s = s\<lparr>xs_db := None, xs_fts := False\<rparr>"

definition clear_index :: "index_state \<Rightarrow> index_state" where
  "clear_index s =
     s\<lparr>xs_state := IxIdle, xs_built_at := None, xs_skipped := 0, xs_failed := 0\<rparr>"

definition assert_ready :: "index_state \<Rightarrow> index_error + unit" where
  "assert_ready s = check (xs_state s = IxReady \<and> xs_db s \<noteq> None) IndexUnavailable"

section \<open>Full rebuild\<close>

definition tree_files :: "pylib \<Rightarrow> (pystr \<times> bool) list \<Rightarrow> pystr list" where
  "tree_files L tree = sort_key (casefold L) (map fst (filter (\<lambda>(path, is_file). is_file \<and> path \<noteq> lit ''.'') tree))"

text \<open>The loop over the files: the database, and how many notes were skipped, failed and written.\<close>

fun rebuild_rows ::
  "index_env \<Rightarrow> bool \<Rightarrow> vault_view \<Rightarrow> name_map \<Rightarrow> name_map \<Rightarrow> pystr list \<Rightarrow> index_db \<Rightarrow> nat \<times> nat \<times> nat \<Rightarrow>
     index_error + index_db \<times> nat \<times> nat \<times> nat" where
  "rebuild_rows E fts V full noext [] db counts = Inr (db, counts)"
| "rebuild_rows E fts V full noext (path # files) db (skipped, failed, written) =
     (if \<not> markdown_file (ie_lib E) path then rebuild_rows E fts V full noext files db (skipped, failed, written)
      else
        (case vv_read V path of
           None \<Rightarrow> rebuild_rows E fts V full noext files db (skipped + 1, failed, written)
         | Some data \<Rightarrow>
             let e = build_entry E full noext path data;
                 bad = (en_status e = FmUnreadable \<or> en_diagnostic e \<noteq> None) in
             rbind (insert_note_row (ie_lib E) fts e db) (\<lambda>db.
               rebuild_rows E fts V full noext files db
                 (skipped, if bad then failed + 1 else failed, written + 1))))"

record rebuild_response =
  rb_indexed :: nat
  rb_skipped :: nat
  rb_failed :: nat

definition wipe :: "bool \<Rightarrow> index_db \<Rightarrow> index_db" where
  "wipe fts db = (let db = delete_notes (\<lambda>_. True) db in if fts then db\<lparr>db_fts := []\<rparr> else db)"

definition rebuild ::
  "index_env \<Rightarrow> vault_view \<Rightarrow> (index_db \<times> bool) option \<Rightarrow> nat \<Rightarrow> rebuild_response ix_act" where
  "rebuild E V opened now = (\<lambda>s.
     case open_database opened s of
       (False, s) \<Rightarrow> (Inl IndexUnavailable, set_unavailable s)
     | (True, s) \<Rightarrow>
         (case vv_tree V of
            None \<Rightarrow> (Inl IndexUnavailable, set_unavailable s)
          | Some tree \<Rightarrow>
              let L = ie_lib E; files = tree_files L tree;
                  full = full_map L files; noext = noext_map L files;
                  s = s\<lparr>xs_full := full, xs_noext := noext\<rparr> in
              (case rebuild_rows E (xs_fts s) V full noext files (wipe (xs_fts s) (the (xs_db s))) (0, 0, 0) of
                 Inl err \<Rightarrow> (Inl err, s)
               | Inr (db, skipped, failed, written) \<Rightarrow>
                   (Inr \<lparr>rb_indexed = written - failed, rb_skipped = skipped, rb_failed = failed\<rparr>,
                    s\<lparr>xs_db := Some (add_backlinks (\<lambda>_. True) db), xs_skipped := skipped,
                      xs_failed := failed, xs_built_at := Some now, xs_state := IxReady\<rparr>))))"

text \<open>
  The reuse of a complete index at startup: the set of paths, the row count of the full text table and
  every digest must agree with the vault.
\<close>

definition index_matches :: "pylib \<Rightarrow> vault_view \<Rightarrow> bool \<Rightarrow> index_db \<Rightarrow> pystr list \<Rightarrow> bool" where
  "index_matches L V fts db files \<longleftrightarrow>
     (let paths = filter (markdown_file L) files in
      nt_path ` set (db_notes db) = set paths \<and>
      (fts \<longrightarrow> length (db_fts db) = card (set paths)) \<and>
      list_all (\<lambda>path. case vv_read V path of None \<Rightarrow> False
        | Some data \<Rightarrow> list_ex (\<lambda>n. nt_path n = path \<and> nt_sha n = snd data) (db_notes db)) paths)"

definition undecodable :: "vault_view \<Rightarrow> pystr \<Rightarrow> bool" where
  "undecodable V path = (case vv_read V path of None \<Rightarrow> False | Some data \<Rightarrow> utf8_decode (fst data) = None)"

definition refresh ::
  "index_env \<Rightarrow> vault_view \<Rightarrow> (index_db \<times> bool) option \<Rightarrow> nat \<Rightarrow> rebuild_response ix_act" where
  "refresh E V opened now = (\<lambda>s.
     case open_database opened s of
       (False, s) \<Rightarrow> rebuild E V opened now s
     | (True, s) \<Rightarrow>
         (case (vv_tree V, xs_db s) of
            (Some tree, Some db) \<Rightarrow>
              let L = ie_lib E; files = tree_files L tree in
              if \<not> index_matches L V (xs_fts s) db files then rebuild E V opened now s
              else
                let failed = card (set (filter (\<lambda>p. markdown_file L p \<and> undecodable V p) files)) in
                (Inr \<lparr>rb_indexed = length (db_notes db) - failed, rb_skipped = 0, rb_failed = failed\<rparr>,
                 s\<lparr>xs_full := full_map L files, xs_noext := noext_map L files, xs_skipped := 0,
                   xs_failed := failed, xs_built_at := Some now, xs_state := IxReady\<rparr>)
          | _ \<Rightarrow> rebuild E V opened now s))"

section \<open>Incremental updates\<close>

definition refresh_name :: "pylib \<Rightarrow> pystr \<Rightarrow> pystr \<Rightarrow> name_map \<Rightarrow> name_map" where
  "refresh_name L key path m = m(key := sort_key (casefold L) (filter (\<lambda>p. p \<noteq> path) (m key) @ [path]))"

definition refresh_basenames :: "pylib \<Rightarrow> pystr \<Rightarrow> index_state \<Rightarrow> index_state" where
  "refresh_basenames L path s =
     s\<lparr>xs_full := refresh_name L (full_key L path) path (xs_full s),
       xs_noext := (if markdown_file L path then refresh_name L (noext_key L path) path (xs_noext s)
                    else xs_noext s)\<rparr>"

definition forget_basenames :: "pylib \<Rightarrow> pystr \<Rightarrow> index_state \<Rightarrow> index_state" where
  "forget_basenames L path s =
     s\<lparr>xs_full := (xs_full s)(full_key L path := filter (\<lambda>p. p \<noteq> path) (xs_full s (full_key L path))),
       xs_noext := (if markdown_file L path
          then (xs_noext s)(noext_key L path := filter (\<lambda>p. p \<noteq> path) (xs_noext s (noext_key L path)))
          else xs_noext s)\<rparr>"

definition stored_sha :: "pystr \<Rightarrow> index_db \<Rightarrow> pystr option" where
  "stored_sha path db = map_option nt_sha (find (\<lambda>n. nt_path n = path) (db_notes db))"

text \<open>A taken key is an SQLite error, which is logged; the other exceptions reach the caller.\<close>

definition apply_create :: "index_env \<Rightarrow> vault_view \<Rightarrow> pystr \<Rightarrow> unit ix_act" where
  "apply_create E V path = (\<lambda>s.
     let L = ie_lib E in
     if path = [] then (Inr (), s)
     else if \<not> markdown_file L path then (Inr (), refresh_basenames L path s)
     else
       (case vv_read V path of
          None \<Rightarrow> (Inr (), s)
        | Some data \<Rightarrow>
            (case xs_db s of
               None \<Rightarrow> (Inl NoConnection, s)
             | Some db \<Rightarrow>
                 if \<not> sql_text path then (Inl Unstorable, s)
                 else if stored_sha path db = Some (snd data) then (Inr (), s)
                 else
                   let s = refresh_basenames L path s;
                       e = build_entry E (xs_full s) (xs_noext s) path data in
                   (case insert_note_row L (xs_fts s) e (delete_note_rows (xs_fts s) path db) of
                      Inl KeyTaken \<Rightarrow> (Inr (), s)
                    | Inl err \<Rightarrow> (Inl err, s)
                    | Inr db \<Rightarrow> (Inr (), s\<lparr>xs_db := Some (sync_outgoing_backlinks path db)\<rparr>)))))"

definition apply_delete :: "index_env \<Rightarrow> pystr \<Rightarrow> unit ix_act" where
  "apply_delete E path = (\<lambda>s.
     if path = [] then (Inr (), s)
     else
       (case xs_db s of
          None \<Rightarrow> (Inl NoConnection, s)
        | Some db \<Rightarrow>
            if \<not> sql_text path then (Inl Unstorable, s)
            else
              (Inr (), forget_basenames (ie_lib E) path
                 (s\<lparr>xs_db := Some (if stored_sha path db = None then db
                                   else delete_note_rows (xs_fts s) path db)\<rparr>))))"

definition file_exists :: "vault_view \<Rightarrow> pystr \<Rightarrow> bool" where
  "file_exists V path \<longleftrightarrow> vv_read V path \<noteq> None"

definition apply_current :: "index_env \<Rightarrow> vault_view \<Rightarrow> vault_view \<Rightarrow> pystr \<Rightarrow> unit ix_act" where
  "apply_current E V V' path =
     (if file_exists V path then apply_create E V' path else apply_delete E path)"

definition drop_key :: "'k \<Rightarrow> ('k \<times> 'v) list \<Rightarrow> ('k \<times> 'v) list" where
  "drop_key k m = filter (\<lambda>e. fst e \<noteq> k) m"

fun put_key :: "'k \<Rightarrow> 'v \<Rightarrow> ('k \<times> 'v) list \<Rightarrow> ('k \<times> 'v) list" where
  "put_key k v [] = [(k, v)]"
| "put_key k v ((k', v') # m) = (if k' = k then (k, v) # m else (k', v') # put_key k v m)"

definition event_path :: "vault_event \<Rightarrow> pystr" where
  "event_path e = (case e of VCreate p \<Rightarrow> p | VModify p \<Rightarrow> p | VDelete p \<Rightarrow> p | VMove old new \<Rightarrow> old)"

text \<open>Exceptions end the handling of an event; what it did until then stays.\<close>

definition handle_event :: "index_env \<Rightarrow> vault_view \<Rightarrow> nat \<Rightarrow> vault_event \<Rightarrow> index_state \<Rightarrow> index_state" where
  "handle_event E V now event s =
     (if xs_db s = None then s
      else
        (case event of
           VMove old new \<Rightarrow> snd (seq (apply_delete E old) (\<lambda>_. apply_create E V new) s)
         | _ \<Rightarrow>
             let path = event_path event in
             if path = [] then s
             else s\<lparr>xs_pending := put_key path (event, now) (xs_pending s),
                    xs_timers := drop_key path (xs_timers s) @ [(path, now)]\<rparr>))"

text \<open>A timer fires: \<open>V\<close> is the vault when it asks for the file, \<open>V'\<close> when it reads it again.\<close>

definition flush_event ::
  "index_env \<Rightarrow> vault_view \<Rightarrow> vault_view \<Rightarrow> pystr \<Rightarrow> nat \<Rightarrow> index_state \<Rightarrow> index_state" where
  "flush_event E V V' path timestamp s =
     (if xs_db s = None then s
      else
        (case map_of (xs_pending s) path of
           None \<Rightarrow> s
         | Some (_, t) \<Rightarrow>
             if t \<noteq> timestamp then s
             else snd (apply_current E V V' path
                    (s\<lparr>xs_pending := drop_key path (xs_pending s), xs_timers := drop_key path (xs_timers s)\<rparr>))))"

fun flush_paths :: "index_env \<Rightarrow> vault_view \<Rightarrow> vault_view \<Rightarrow> pystr list \<Rightarrow> unit ix_act" where
  "flush_paths E V V' [] = ret ()"
| "flush_paths E V V' (path # paths) =
     seq (\<lambda>s. apply_current E V V' path (s\<lparr>xs_pending := drop_key path (xs_pending s)\<rparr>))
       (\<lambda>_. flush_paths E V V' paths)"

definition flush_events :: "index_env \<Rightarrow> vault_view \<Rightarrow> vault_view \<Rightarrow> unit ix_act" where
  "flush_events E V V' = (\<lambda>s.
     flush_paths E V V' (map fst (xs_pending s)) (s\<lparr>xs_timers := []\<rparr>))"

end
