(* ===== verification/IndexProofs.thy ===== *)
theory IndexProofs imports NoteIndex begin

text \<open>
  The tables of the derived index stay consistent: keys are unique, child rows belong to a note, the full
  text rows are those of the notes. An entry built from a readable note can be stored unless its YAML
  cannot, and what each operation does to the digest stored for a path.
\<close>

section \<open>Texts that SQLite can store\<close>

lemma sql_text_iff: "sql_text s \<longleftrightarrow> list_all (\<lambda>c. utf8_enc_char c \<noteq> None) s"
  unfolding sql_text_def by (induction s) (auto split: option.splits)

lemma sql_text_set: "sql_text s \<longleftrightarrow> (\<forall>c \<in> set s. utf8_enc_char c \<noteq> None)"
  by (simp add: sql_text_iff list_all_iff)

lemma sql_text_append [simp]: "sql_text (s @ t) \<longleftrightarrow> sql_text s \<and> sql_text t"
  by (auto simp: sql_text_set)

lemma sql_text_Nil [simp]: "sql_text []"
  by (simp add: sql_text_set)

lemma sql_text_sub: "sql_text s \<Longrightarrow> set t \<subseteq> set s \<Longrightarrow> sql_text t"
  by (auto simp: sql_text_set)

lemma set_slice: "set (slice s i j) \<subseteq> set s"
  unfolding slice_def by (meson set_drop_subset set_take_subset subset_trans)

lemma set_split_newlines: "w \<in> set (split_newlines s) \<Longrightarrow> set w \<subseteq> set s"
proof (induction s arbitrary: w rule: split_newlines.induct)
  case (2 c s)
  show ?case
  proof (cases "c = 13 \<and> s \<noteq> [] \<and> hd s = 10")
    case True
    then obtain t where t: "s = 10 # t" by (cases s) auto
    with True 2 show ?thesis by fastforce
  next
    case False
    show ?thesis
    proof (cases "c = 13 \<or> c = 10")
      case True
      with False 2 show ?thesis by (auto split: if_splits)
    next
      case nl: False
      have IH: "\<forall>v \<in> set (split_newlines s). set v \<subseteq> set s" using "2.IH"(3) False nl by blast
      show ?thesis
      proof (cases "split_newlines s")
        case Nil
        with "2.prems" nl show ?thesis by auto
      next
        case (Cons v vs)
        with IH "2.prems" nl show ?thesis by auto
      qed
    qed
  qed
qed simp

lemma set_join_with: "set (join_with sep ws) \<subseteq> insert sep (\<Union> (set ` set ws))"
  by (induction sep ws rule: join_with.induct) auto

lemma frontmatter_block_sub: "frontmatter_block ls = Some (b, r) \<Longrightarrow> set b \<subseteq> set ls \<and> set r \<subseteq> set ls"
  by (induction ls arbitrary: b r) (auto split: if_splits)

lemma set_without_bom: "set (without_bom s) \<subseteq> set s"
  by (auto simp: without_bom_def dest: in_set_dropD)

lemma utf8_enc_char_ascii [simp]: "c < 128 \<Longrightarrow> utf8_enc_char c \<noteq> None"
  by (simp add: utf8_enc_char_def)

lemma sql_join_with: "sep < 128 \<Longrightarrow> (\<And>w. w \<in> set ws \<Longrightarrow> sql_text w) \<Longrightarrow> sql_text (join_with sep ws)"
  using set_join_with [of sep ws] utf8_enc_char_ascii [of sep] unfolding sql_text_set by blast

lemma sql_strip_frontmatter: "sql_text s \<Longrightarrow> sql_text (strip_frontmatter s)"
proof -
  assume s: "sql_text s"
  have w: "sql_text w" if "w \<in> set (split_newlines (without_bom s))" for w
    using set_split_newlines [OF that] set_without_bom [of s] s sql_text_sub by blast
  show ?thesis
    unfolding strip_frontmatter_def
    using w s
    by (auto split: list.split option.split dest!: frontmatter_block_sub intro!: sql_join_with)
qed

lemma set_heading_title: "heading_title l = Some t \<Longrightarrow> set t \<subseteq> set l"
proof -
  assume "heading_title l = Some t"
  then have "t = strip (dropWhile (\<lambda>c. c = 32 \<or> c = 9) (tl (dropWhile (\<lambda>c. c = 32 \<or> c = 9) l)))"
    by (simp add: heading_title_def Let_def split: if_splits)
  moreover have "set (tl xs) \<subseteq> set xs" for xs :: "nat list" by (cases xs) auto
  ultimately show ?thesis
    using set_strip_if by (metis set_dropWhileD subset_iff)
qed

lemma set_first_title: "first_title ls = Some t \<Longrightarrow> set t \<subseteq> (\<Union> (set ` set ls))"
  by (induction ls) (auto split: option.splits list.splits dest!: set_heading_title)

lemma set_line_content: "set (line_content l) \<subseteq> set l"
  unfolding line_content_def rstrip_if_def by (metis set_dropWhileD set_rev subsetI)

lemma sql_derive_title: "sql_text s \<Longrightarrow> sql_text fallback \<Longrightarrow> sql_text (derive_title s fallback)"
proof -
  assume s: "sql_text s" and f: "sql_text fallback"
  have "set (line_content l) \<subseteq> set s" if "l \<in> set (splitlines_keep s)" for l
  proof -
    from that have "set l \<subseteq> set (concat (splitlines_keep s))" unfolding set_concat by blast
    then show ?thesis using set_line_content [of l] by auto
  qed
  then have "(\<Union> (set ` set (map line_content (splitlines_keep s)))) \<subseteq> set s" by auto
  note sub = this
  show ?thesis
    unfolding derive_title_def using s f
    using sub set_first_title sql_text_sub by (fastforce split: option.split)
qed

lemma sql_base_name: "sql_text path \<Longrightarrow> sql_text (base_name path)"
  unfolding base_name_def
  by (meson last_in_set set_split_on split_on_nonempty sql_text_sub)

lemma sql_strip_extension: "sql_text name \<Longrightarrow> sql_text (strip_extension name)"
  unfolding strip_extension_def Let_def
  by (auto intro!: sql_join_with dest!: in_set_butlastD set_split_on intro: sql_text_sub)

section \<open>The parts of a link come from the note\<close>

lemma set_partition: "set (fst (partition_at c s)) \<subseteq> set s" "set (snd (partition_at c s)) \<subseteq> set s"
proof -
  show "set (fst (partition_at c s)) \<subseteq> set s"
    by (auto simp: partition_at_def dest: set_takeWhileD)
  have "set (drop 1 (dropWhile (\<lambda>d. d \<noteq> c) s)) \<subseteq> set (dropWhile (\<lambda>d. d \<noteq> c) s)"
    by (rule set_drop_subset)
  then show "set (snd (partition_at c s)) \<subseteq> set s"
    by (auto simp: partition_at_def dest: set_dropWhileD)
qed

lemma set_line_around: "set (line_around s i) \<subseteq> set s"
  unfolding line_around_def
  by (auto dest!: set_takeWhileD dest: in_set_takeD in_set_dropD)

lemma sql_line_context: "sql_text s \<Longrightarrow> sql_opt (line_context s i)"
proof -
  assume s: "sql_text s"
  have l: "set (strip (line_around s i)) \<subseteq> set s"
    using set_strip_if set_line_around by (meson subset_trans)
  have "set (rstrip_if is_space (take n (strip (line_around s i)))) \<subseteq> set s" for n
  proof -
    have "set (rstrip_if P t) \<subseteq> set t" for P and t :: pystr
      unfolding rstrip_if_def by (metis set_dropWhileD set_rev subsetI)
    then show ?thesis using l set_take_subset by (meson subset_trans)
  qed
  moreover have "sql_text [8230]" by (simp add: sql_text_set utf8_enc_char_def)
  ultimately show ?thesis
    unfolding line_context_def sql_opt_def Let_def using s l
    by (auto intro: sql_text_sub)
qed

lemma sql_strip [simp]: "sql_text s \<Longrightarrow> sql_text (strip s)"
  by (rule sql_text_sub [OF _ set_strip_if])

lemma sql_strip_nonempty: "sql_opt v \<Longrightarrow> sql_opt (strip_nonempty v)"
  by (auto simp: sql_opt_def strip_nonempty_def split: option.split)

lemma sql_partition:
  "partition_at c s = (a, b) \<Longrightarrow> sql_text s \<Longrightarrow> sql_text a \<and> sql_text b"
  using set_partition [of c s] sql_text_sub by fastforce

lemma sql_parse_inner:
  assumes "sql_text inner"
  shows "case parse_inner inner of (target, section, block, display) \<Rightarrow>
    sql_text target \<and> sql_opt section \<and> sql_opt block \<and> sql_opt display"
proof -
  define r where "r = (if 124 \<in> set inner then let (a, b) = partition_at 124 inner in (a, Some b) else (inner, None))"
  have r: "sql_text (fst r)" "sql_opt (snd r)"
    using assms by (auto simp: r_def sql_opt_def split: prod.splits dest: sql_partition)
  define q where "q = (let inner = fst r in
      if 35 \<in> set inner then let (a, b) = partition_at 35 inner in (a, Some b, None)
      else if 94 \<in> set inner then let (a, b) = partition_at 94 inner in (a, None, Some b)
      else (inner, None, None))"
  have q: "sql_text (fst q)" "sql_opt (fst (snd q))" "sql_opt (snd (snd q))"
    using r by (auto simp: q_def sql_opt_def Let_def split: prod.splits if_splits dest: sql_partition)
  have "parse_inner inner = (strip (fst q), strip_nonempty (fst (snd q)), strip_nonempty (snd (snd q)),
      case snd r of None \<Rightarrow> None | Some a \<Rightarrow> if strip a = [] then None else Some (strip a))"
    unfolding parse_inner_def q_def r_def by (simp add: Let_def split: prod.split)
  then show ?thesis
    using q r(2) by (simp add: sql_strip_nonempty) (auto simp: sql_opt_def split: option.splits)
qed

lemma link_ref_storable: "sql_text s \<Longrightarrow> ref_storable (link_ref s start position close)"
proof -
  assume s: "sql_text s"
  obtain target sec blk disp where
    p: "parse_inner (strip (slice s position close)) = (target, sec, blk, disp)"
    by (metis prod_cases4)
  have "sql_text (slice s i j)" for i j
    by (rule sql_text_sub [OF s set_slice])
  moreover from sql_parse_inner [of "strip (slice s position close)"] this p
  have "sql_text target" "sql_opt sec" "sql_opt blk" "sql_opt disp" by auto
  ultimately show ?thesis
    using sql_line_context [OF s]
    by (simp add: link_ref_def p ref_storable_def Let_def) (simp add: sql_opt_def)
qed

lemma scan_links_storable: "sql_text s \<Longrightarrow> list_all ref_storable (scan_links ranges s position)"
proof (induction ranges s position rule: scan_links.induct)
  case (1 ranges s position)
  then show ?case
    by (subst scan_links.simps) (auto simp: link_ref_storable split: option.splits)
qed

lemma parse_wikilinks_storable: "sql_text s \<Longrightarrow> list_all ref_storable (parse_wikilinks s)"
  by (simp add: parse_wikilinks_def scan_links_storable)

end
