(* ===== verification/IndexTables.thy ===== *)
theory IndexTables imports IndexProofs begin

text \<open>
  The invariant of the index tables and its preservation by every statement the service executes: unique
  keys, child rows that belong to a note, a full text row for each note. With it no insertion of a built
  entry meets a taken key.
\<close>

section \<open>Entries have unique keys\<close>

lemma dict_put_keys: "fst ` set (dict_put k v m) = insert k (fst ` set m)"
  by (induction k v m rule: dict_put.induct) auto

lemma dict_put_distinct: "distinct (map fst m) \<Longrightarrow> distinct (map fst (dict_put k v m))"
proof (induction k v m rule: dict_put.induct)
  case (2 k v k' v' m)
  then show ?case using dict_put_keys [of k v m] by (auto simp flip: set_map)
qed simp

lemma fold_dict_put:
  assumes "distinct (map fst m)" "\<forall>k \<in> fst ` set m. \<exists>s. k = YStr s"
  shows "distinct (map fst (foldl (\<lambda>m (k, v). dict_put k v m) m (map (\<lambda>(k, v). (YStr (f k), g v)) es))) \<and>
    (\<forall>k \<in> fst ` set (foldl (\<lambda>m (k, v). dict_put k v m) m (map (\<lambda>(k, v). (YStr (f k), g v)) es)).
       \<exists>s. k = YStr s)"
  using assms
proof (induction es arbitrary: m)
  case (Cons e es)
  obtain k v where e: "e = (k, v)" by (cases e)
  have d: "distinct (map fst (dict_put (YStr (f k)) (g v) m))"
    using Cons.prems(1) by (rule dict_put_distinct)
  have s: "\<forall>k' \<in> fst ` set (dict_put (YStr (f k)) (g v) m). \<exists>s. k' = YStr s"
    using Cons.prems(2) unfolding dict_put_keys by blast
  show ?case
    unfolding e list.map foldl_Cons prod.case by (rule Cons.IH [OF d s])
qed (simp only: list.map foldl_Nil simp_thms)

lemma coerced_keys:
  assumes "coerce_json_safe Y v = YDict m"
  shows "distinct (map fst m)" "\<forall>k \<in> fst ` set m. \<exists>s. k = YStr s"
proof -
  from assms obtain es where v: "v = YDict es" by (cases v) auto
  have m: "m = foldl (\<lambda>m (k, v). dict_put k v m) [] (map (\<lambda>(k, v). (YStr (text_of Y k), coerce_json_safe Y v)) es)"
    using assms unfolding v by simp
  show "distinct (map fst m)" "\<forall>k \<in> fst ` set m. \<exists>s. k = YStr s"
    using fold_dict_put [of "[]" "text_of Y" "coerce_json_safe Y" es] unfolding m by simp_all
qed

lemma distinct_key_texts:
  "distinct (map fst m) \<Longrightarrow> \<forall>k \<in> fst ` set m. \<exists>s. k = YStr s \<Longrightarrow> distinct (map (\<lambda>(k, v). key_text k) m)"
proof (induction m)
  case (Cons e m)
  obtain s where s: "fst e = YStr s" using Cons.prems(2) by auto
  have "key_text (fst e) \<notin> (\<lambda>(k, v). key_text k) ` set m"
  proof
    assume "key_text (fst e) \<in> (\<lambda>(k, v). key_text k) ` set m"
    then obtain k v where kv: "(k, v) \<in> set m" "key_text k = s" using s by (auto simp: key_text_def)
    then obtain s' where "k = YStr s'" using Cons.prems(2) by force
    with kv s have "fst e = k" by (simp add: key_text_def)
    moreover have "k \<in> fst ` set m" using kv(1) by force
    ultimately show False using Cons.prems(1) by simp
  qed
  with Cons show ?case by (auto simp: case_prod_beta)
qed simp

lemma add_tokens_distinct:
  "set known = casefold L ` set result \<Longrightarrow> distinct (map (casefold L) result) \<Longrightarrow>
     distinct (map (casefold L) (add_tokens L tokens known result))"
  by (induction L tokens known result rule: add_tokens.induct) (auto simp: Let_def)

lemma split_tags_distinct: "distinct (map (casefold L) (split_tags L Y v))"
  unfolding split_tags_def by (rule add_tokens_distinct) simp_all

lemma parse_frontmatter_distinct:
  "distinct (fm_tags_folded (parse_frontmatter L Y s))"
  "fm_tags_folded (parse_frontmatter L Y s) = map (casefold L) (fm_tags (parse_frontmatter L Y s))"
  "distinct (map (\<lambda>(k, v). key_text k) (fm_properties (parse_frontmatter L Y s)))"
proof -
  have e: "fm_tags_folded (frontmatter_error k l) = []" "fm_tags (frontmatter_error k l) = []"
    "fm_properties (frontmatter_error k l) = []" for k l
    by (simp_all add: frontmatter_error_def no_frontmatter_def)
  have n: "fm_tags_folded no_frontmatter = []" "fm_tags no_frontmatter = []" "fm_properties no_frontmatter = []"
    by (simp_all add: no_frontmatter_def)
  show "distinct (fm_tags_folded (parse_frontmatter L Y s))"
    "fm_tags_folded (parse_frontmatter L Y s) = map (casefold L) (fm_tags (parse_frontmatter L Y s))"
    unfolding parse_frontmatter_def Let_def
    by (auto simp: e n split_tags_distinct split: list.split option.split yaml_result.split yvalue.split)
  show "distinct (map (\<lambda>(k, v). key_text k) (fm_properties (parse_frontmatter L Y s)))"
    unfolding parse_frontmatter_def Let_def
    by (auto simp: e n split: list.split option.split yaml_result.split yvalue.split
        intro!: distinct_key_texts dest: coerced_keys)
qed

definition entry_keys_ok :: "pylib \<Rightarrow> note_entry \<Rightarrow> bool" where
  "entry_keys_ok L e \<longleftrightarrow>
     distinct (folded_tags L e) \<and> distinct (map (\<lambda>(k, v). key_text k) (en_properties e))"

lemma build_entry_keys_ok: "entry_keys_ok (ie_lib E) (build_entry E full noext path data)"
  unfolding entry_keys_ok_def build_entry_def
  using parse_frontmatter_distinct
  by (auto simp: entry_from_text_def unreadable_entry_def folded_tags_def Let_def split: option.split)

lemma en_path_build [simp]: "en_path (build_entry E full noext path data) = path"
  and en_sha_build [simp]: "en_sha (build_entry E full noext path data) = snd data"
  by (simp_all add: build_entry_def entry_from_text_def unreadable_entry_def Let_def split: option.split)

section \<open>The invariant\<close>

definition db_ok :: "bool \<Rightarrow> index_db \<Rightarrow> bool" where
  "db_ok fts db \<longleftrightarrow>
     distinct (map nt_path (db_notes db)) \<and> distinct (map nt_rowid (db_notes db)) \<and>
     distinct (map tag_key (db_tags db)) \<and> distinct (map prop_key (db_props db)) \<and>
     distinct (map link_key (db_links db)) \<and> distinct (map back_key (db_backs db)) \<and>
     tg_note ` set (db_tags db) \<subseteq> nt_path ` set (db_notes db) \<and>
     fst ` set (db_props db) \<subseteq> nt_path ` set (db_notes db) \<and>
     lk_source ` set (db_links db) \<subseteq> nt_path ` set (db_notes db) \<and>
     (\<lambda>b. fst (snd b)) ` set (db_backs db) \<subseteq> nt_path ` set (db_notes db) \<and>
     (fts \<longrightarrow> map (\<lambda>f. (ft_rowid f, ft_path f)) (db_fts db) = map (\<lambda>n. (nt_rowid n, nt_path n)) (db_notes db))"

lemma insert_all_fresh:
  "distinct (map key xs) \<Longrightarrow> key ` set xs \<inter> key ` set rows = {} \<Longrightarrow> insert_all key rows xs = Inr (rows @ xs)"
proof (induction xs arbitrary: rows)
  case (Cons x xs)
  then have "insert_unique key rows x = Inr (rows @ [x])" by (auto simp: insert_unique_def)
  moreover have "insert_all key (rows @ [x]) xs = Inr ((rows @ [x]) @ xs)"
    using Cons by (intro Cons.IH) auto
  ultimately show ?case by simp
qed simp

lemma next_rowid_fresh: "next_rowid notes \<notin> nt_rowid ` set notes"
proof (cases "notes = []")
  case False
  have "Max (nt_rowid ` set notes) + 1 \<notin> nt_rowid ` set notes"
  proof
    assume "Max (nt_rowid ` set notes) + 1 \<in> nt_rowid ` set notes"
    then have "Max (nt_rowid ` set notes) + 1 \<le> Max (nt_rowid ` set notes)"
      by (intro Max_ge) simp_all
    then show False by simp
  qed
  with False show ?thesis by (simp add: next_rowid_def)
qed (simp add: next_rowid_def)

lemma distinct_map_snd_zip: "distinct ys \<Longrightarrow> distinct (map snd (zip xs ys))"
proof (induction xs ys rule: list_induct2')
  case (4 x xs y ys)
  then show ?case by (auto dest: set_zip_rightD)
qed simp_all

lemma tag_recs_keys:
  assumes "distinct (folded_tags L e)"
  shows "distinct (map tag_key (tag_recs L e))" "t \<in> set (tag_recs L e) \<Longrightarrow> tg_note t = en_path e"
proof -
  have "map tag_key (tag_recs L e) = map (Pair (en_path e)) (map snd (zip (en_tags e) (folded_tags L e)))"
    unfolding tag_recs_def tag_key_def
    by (rule nth_equalityI) (auto simp: nth_enumerate_eq case_prod_beta)
  then show "distinct (map tag_key (tag_recs L e))"
    using distinct_map_snd_zip [OF assms, of "en_tags e"] by (simp add: distinct_map inj_on_def)
  show "t \<in> set (tag_recs L e) \<Longrightarrow> tg_note t = en_path e"
    by (auto simp: tag_recs_def)
qed

lemma prop_recs_keys:
  assumes "distinct (map (\<lambda>(k, v). key_text k) (en_properties e))"
  shows "distinct (map prop_key (prop_recs e))" "p \<in> set (prop_recs e) \<Longrightarrow> fst p = en_path e"
proof -
  let ?k = "\<lambda>(k, v :: yvalue). key_text k"
  have m: "map prop_key (prop_recs e) = map (Pair (en_path e)) (map ?k (sort_key ?k (en_properties e)))"
    unfolding prop_recs_def map_map by (rule map_cong) (auto simp: prop_key_def)
  have "distinct (map ?k (sort_key ?k (en_properties e)))"
    using assms unfolding distinct_map distinct_sort set_sort by blast
  then show "distinct (map prop_key (prop_recs e))"
    unfolding m by (subst distinct_map) (simp add: inj_on_def)
  show "p \<in> set (prop_recs e) \<Longrightarrow> fst p = en_path e"
    by (auto simp: prop_recs_def)
qed

lemma link_recs_keys:
  "distinct (map link_key (link_recs e))" "l \<in> set (link_recs e) \<Longrightarrow> lk_source l = en_path e"
proof -
  have "map link_key (link_recs e) = map (\<lambda>i. (en_path e, i)) [0..<length (en_outgoing e)]"
    unfolding link_recs_def
    by (rule nth_equalityI) (auto simp: nth_enumerate_eq link_key_def link_of_def)
  then show "distinct (map link_key (link_recs e))" by (simp add: distinct_map inj_on_def)
  show "l \<in> set (link_recs e) \<Longrightarrow> lk_source l = en_path e"
    by (auto simp: link_recs_def link_of_def)
qed

section \<open>Insertion\<close>

definition with_entry :: "pylib \<Rightarrow> bool \<Rightarrow> note_entry \<Rightarrow> index_db \<Rightarrow> index_db" where
  "with_entry L fts e db =
     (let rowid = next_rowid (db_notes db) in
      db\<lparr>db_notes := db_notes db @ [note_of rowid e], db_tags := db_tags db @ tag_recs L e,
         db_props := db_props db @ prop_recs e, db_links := db_links db @ link_recs e,
         db_fts := (if fts then db_fts db @ [fts_of L rowid e] else db_fts db)\<rparr>)"

lemma nt_path_note_of [simp]: "nt_path (note_of r e) = en_path e"
  and nt_rowid_note_of [simp]: "nt_rowid (note_of r e) = r"
  and nt_sha_note_of [simp]: "nt_sha (note_of r e) = en_sha e"
  by (simp_all add: note_of_def)

lemma db_okD:
  assumes "db_ok fts db"
  shows "distinct (map nt_path (db_notes db))" "distinct (map nt_rowid (db_notes db))"
    "distinct (map tag_key (db_tags db))" "distinct (map prop_key (db_props db))"
    "distinct (map link_key (db_links db))" "distinct (map back_key (db_backs db))"
    "t \<in> set (db_tags db) \<Longrightarrow> tg_note t \<in> nt_path ` set (db_notes db)"
    "p \<in> set (db_props db) \<Longrightarrow> fst p \<in> nt_path ` set (db_notes db)"
    "l \<in> set (db_links db) \<Longrightarrow> lk_source l \<in> nt_path ` set (db_notes db)"
    "b \<in> set (db_backs db) \<Longrightarrow> fst (snd b) \<in> nt_path ` set (db_notes db)"
    "fts \<Longrightarrow> map (\<lambda>f. (ft_rowid f, ft_path f)) (db_fts db) = map (\<lambda>n. (nt_rowid n, nt_path n)) (db_notes db)"
  using assms by (simp_all add: db_ok_def image_subset_iff)

lemma key_disjoint:
  "(\<And>x. x \<in> set xs \<Longrightarrow> fst (key x) = p) \<Longrightarrow> (\<And>y. y \<in> set ys \<Longrightarrow> fst (key y) \<noteq> p) \<Longrightarrow>
     key ` set xs \<inter> key ` set ys = {}"
  by (metis (no_types, lifting) disjoint_iff imageE)

lemma entry_keysD:
  assumes "entry_keys_ok L e"
  shows "distinct (folded_tags L e)" "distinct (map (\<lambda>(k, v). key_text k) (en_properties e))"
  using assms by (simp_all add: entry_keys_ok_def)

lemma fresh_children:
  assumes ok: "db_ok fts db" and new: "en_path e \<notin> nt_path ` set (db_notes db)"
    and keys: "entry_keys_ok L e"
  shows "tag_key ` set (tag_recs L e) \<inter> tag_key ` set (db_tags db) = {}"
    "prop_key ` set (prop_recs e) \<inter> prop_key ` set (db_props db) = {}"
    "link_key ` set (link_recs e) \<inter> link_key ` set (db_links db) = {}"
proof -
  note k = entry_keysD [OF keys] and d = db_okD [OF ok]
  show "tag_key ` set (tag_recs L e) \<inter> tag_key ` set (db_tags db) = {}"
    by (rule key_disjoint [where p = "en_path e"])
      (simp add: tag_key_def tag_recs_keys(2) [OF k(1)], metis tag_key_def d(7) new fst_conv)
  show "prop_key ` set (prop_recs e) \<inter> prop_key ` set (db_props db) = {}"
    by (rule key_disjoint [where p = "en_path e"])
      (simp add: prop_key_def prop_recs_keys(2) [OF k(2)], metis prop_key_def d(8) new fst_conv)
  show "link_key ` set (link_recs e) \<inter> link_key ` set (db_links db) = {}"
    by (rule key_disjoint [where p = "en_path e"])
      (simp add: link_key_def link_recs_keys(2), metis link_key_def d(9) new fst_conv)
qed

lemma insert_note_row_ok:
  assumes ok: "db_ok fts db" and new: "en_path e \<notin> nt_path ` set (db_notes db)"
    and keys: "entry_keys_ok L e"
  shows "insert_note_row L fts e db = (if entry_storable L e then Inr (with_entry L fts e db) else Inl Unstorable)"
proof -
  note f = fresh_children [OF ok new keys] and k = entry_keysD [OF keys]
  have "insert_unique nt_path (db_notes db) (note_of r e) = Inr (db_notes db @ [note_of r e])" for r
    using new by (simp add: insert_unique_def)
  moreover note insert_all_fresh [OF tag_recs_keys(1) [OF k(1)] f(1)]
    insert_all_fresh [OF prop_recs_keys(1) [OF k(2)] f(2)] insert_all_fresh [OF link_recs_keys(1) f(3)]
  ultimately show ?thesis
    by (simp add: insert_note_row_def with_entry_def Let_def check_def)
qed

lemma with_entry_ok:
  assumes ok: "db_ok fts db" and new: "en_path e \<notin> nt_path ` set (db_notes db)"
    and keys: "entry_keys_ok L e"
  shows "db_ok fts (with_entry L fts e db)"
proof -
  note f = fresh_children [OF ok new keys] and k = entry_keysD [OF keys] and d = db_okD [OF ok]
  let ?r = "next_rowid (db_notes db)"
  have r: "?r \<notin> nt_rowid ` set (db_notes db)" by (rule next_rowid_fresh)
  show ?thesis
    unfolding db_ok_def
  proof (intro conjI)
    show "distinct (map nt_path (db_notes (with_entry L fts e db)))"
      using d(1) new by (auto simp: with_entry_def Let_def)
    show "distinct (map nt_rowid (db_notes (with_entry L fts e db)))"
      using d(2) r by (auto simp: with_entry_def Let_def)
    show "distinct (map tag_key (db_tags (with_entry L fts e db)))"
      using d(3) f(1) tag_recs_keys(1) [OF k(1)] by (simp add: with_entry_def Let_def Int_commute)
    show "distinct (map prop_key (db_props (with_entry L fts e db)))"
      using d(4) f(2) prop_recs_keys(1) [OF k(2)] by (simp add: with_entry_def Let_def Int_commute)
    show "distinct (map link_key (db_links (with_entry L fts e db)))"
      using d(5) f(3) link_recs_keys(1) by (simp add: with_entry_def Let_def Int_commute)
    show "distinct (map back_key (db_backs (with_entry L fts e db)))"
      using d(6) by (simp add: with_entry_def Let_def)
    show "tg_note ` set (db_tags (with_entry L fts e db)) \<subseteq> nt_path ` set (db_notes (with_entry L fts e db))"
      using d(7) tag_recs_keys(2) [OF k(1)] by (auto simp: with_entry_def Let_def)
    show "fst ` set (db_props (with_entry L fts e db)) \<subseteq> nt_path ` set (db_notes (with_entry L fts e db))"
      using d(8) prop_recs_keys(2) [OF k(2)] by (auto simp: with_entry_def Let_def)
    show "lk_source ` set (db_links (with_entry L fts e db)) \<subseteq> nt_path ` set (db_notes (with_entry L fts e db))"
      using d(9) link_recs_keys(2) by (auto simp: with_entry_def Let_def)
    show "(\<lambda>b. fst (snd b)) ` set (db_backs (with_entry L fts e db)) \<subseteq> nt_path ` set (db_notes (with_entry L fts e db))"
      using d(10) by (auto simp: with_entry_def Let_def)
    show "fts \<longrightarrow> map (\<lambda>f. (ft_rowid f, ft_path f)) (db_fts (with_entry L fts e db)) =
        map (\<lambda>n. (nt_rowid n, nt_path n)) (db_notes (with_entry L fts e db))"
      using d(11) by (simp add: with_entry_def Let_def fts_of_def)
  qed
qed

section \<open>Deletion and backlinks\<close>

lemma delete_notes_ok:
  assumes ok: "db_ok False db"
  shows "db_ok False (delete_notes P db)"
proof -
  note d = db_okD [OF ok]
  have gone: "p \<in> nt_path ` set (filter (\<lambda>n. \<not> P n) (db_notes db))"
    if "p \<in> nt_path ` set (db_notes db)" "p \<notin> nt_path ` set (filter P (db_notes db))" for p
    using that by auto
  show ?thesis
    unfolding db_ok_def
  proof (intro conjI)
    show "distinct (map nt_path (db_notes (delete_notes P db)))"
      "distinct (map nt_rowid (db_notes (delete_notes P db)))"
      "distinct (map tag_key (db_tags (delete_notes P db)))"
      "distinct (map prop_key (db_props (delete_notes P db)))"
      "distinct (map link_key (db_links (delete_notes P db)))"
      "distinct (map back_key (db_backs (delete_notes P db)))"
      using d(1-6) by (simp_all add: delete_notes_def Let_def distinct_map_filter)
    show "tg_note ` set (db_tags (delete_notes P db)) \<subseteq> nt_path ` set (db_notes (delete_notes P db))"
      using d(7) gone by (simp add: delete_notes_def Let_def image_subset_iff)
    show "fst ` set (db_props (delete_notes P db)) \<subseteq> nt_path ` set (db_notes (delete_notes P db))"
      using d(8) gone by (simp add: delete_notes_def Let_def image_subset_iff)
    show "lk_source ` set (db_links (delete_notes P db)) \<subseteq> nt_path ` set (db_notes (delete_notes P db))"
      using d(9) gone by (simp add: delete_notes_def Let_def image_subset_iff)
    show "(\<lambda>b. fst (snd b)) ` set (db_backs (delete_notes P db)) \<subseteq> nt_path ` set (db_notes (delete_notes P db))"
      using d(10) gone by (simp add: delete_notes_def Let_def image_subset_iff)
  qed simp
qed

lemma filter_pairs:
  assumes "map f xs = map g ys" "distinct (map (fst \<circ> g) ys)" "distinct (map (snd \<circ> g) ys)" "y \<in> set ys"
  shows "map f (filter (\<lambda>x. fst (f x) \<noteq> fst (g y)) xs) = map g (filter (\<lambda>z. snd (g z) \<noteq> snd (g y)) ys)"
proof -
  have "map f (filter (\<lambda>x. fst (f x) \<noteq> fst (g y)) xs) = filter (\<lambda>z. fst z \<noteq> fst (g y)) (map f xs)"
    by (simp add: filter_map comp_def)
  also have "\<dots> = map g (filter (\<lambda>z. fst (g z) \<noteq> fst (g y)) ys)"
    unfolding assms(1) by (simp add: filter_map comp_def)
  also have "filter (\<lambda>z. fst (g z) \<noteq> fst (g y)) ys = filter (\<lambda>z. snd (g z) \<noteq> snd (g y)) ys"
  proof (rule filter_cong [OF refl])
    fix z assume "z \<in> set ys"
    then show "(fst (g z) \<noteq> fst (g y)) = (snd (g z) \<noteq> snd (g y))"
      using assms(2-4) by (metis (no_types, lifting) comp_apply distinct_map inj_onD)
  qed
  finally show ?thesis .
qed

lemma db_ok_weaken: "db_ok fts db \<Longrightarrow> db_ok False db"
  by (simp add: db_ok_def)

lemma db_ok_False_fts: "db_ok False (db\<lparr>db_fts := x\<rparr>) \<longleftrightarrow> db_ok False db"
  by (simp add: db_ok_def)

lemma delete_notes_simps [simp]:
  "db_notes (delete_notes P db) = filter (\<lambda>n. \<not> P n) (db_notes db)"
  "db_fts (delete_notes P db) = db_fts db"
  by (simp_all add: delete_notes_def Let_def)

lemma db_ok_split:
  "db_ok fts db \<longleftrightarrow> db_ok False db \<and>
     (fts \<longrightarrow> map (\<lambda>f. (ft_rowid f, ft_path f)) (db_fts db) = map (\<lambda>n. (nt_rowid n, nt_path n)) (db_notes db))"
  by (auto simp: db_ok_def)

lemma delete_note_rows_ok:
  assumes ok: "db_ok fts db"
  shows "db_ok fts (delete_note_rows fts path db)"
proof -
  define db' where "db' = (if fts then
      (case find (\<lambda>n. nt_path n = path) (db_notes db) of
         None \<Rightarrow> db | Some n \<Rightarrow> db\<lparr>db_fts := filter (\<lambda>f. ft_rowid f \<noteq> nt_rowid n) (db_fts db)\<rparr>)
      else db)"
  have d: "delete_note_rows fts path db = delete_notes (\<lambda>n. nt_path n = path) db'"
    by (simp add: delete_note_rows_def db'_def Let_def)
  have same: "db_notes db' = db_notes db"
    by (simp add: db'_def split: option.split)
  have "db_ok False db'"
    using db_ok_weaken [OF ok] by (simp add: db'_def db_ok_False_fts split: option.split)
  then have base: "db_ok False (delete_notes (\<lambda>n. nt_path n = path) db')" by (rule delete_notes_ok)
  have "map (\<lambda>f. (ft_rowid f, ft_path f)) (db_fts db') =
      map (\<lambda>n. (nt_rowid n, nt_path n)) (filter (\<lambda>n. nt_path n \<noteq> path) (db_notes db))" if fts
  proof (cases "find (\<lambda>n. nt_path n = path) (db_notes db)")
    case None
    then have "filter (\<lambda>n. nt_path n \<noteq> path) (db_notes db) = db_notes db"
      by (auto simp: find_None_iff filter_id_conv)
    with None ok that show ?thesis by (simp add: db'_def db_ok_def)
  next
    case (Some n)
    then have n: "n \<in> set (db_notes db)" "nt_path n = path" by (auto simp: find_Some_iff)
    have "map (\<lambda>f. (ft_rowid f, ft_path f)) (filter (\<lambda>f. fst (ft_rowid f, ft_path f) \<noteq> fst (nt_rowid n, nt_path n)) (db_fts db)) =
        map (\<lambda>n. (nt_rowid n, nt_path n)) (filter (\<lambda>z. snd (nt_rowid z, nt_path z) \<noteq> snd (nt_rowid n, nt_path n)) (db_notes db))"
      by (rule filter_pairs [where g = "\<lambda>n. (nt_rowid n, nt_path n)"])
        (use db_okD [OF ok] that n(1) in \<open>simp_all add: comp_def\<close>)
    with Some that n(2) show ?thesis by (simp add: db'_def)
  qed
  then show ?thesis
    unfolding d db_ok_split [of fts] using base by (simp add: same)
qed

lemma delete_note_rows_notes [simp]:
  "db_notes (delete_note_rows fts path db) = filter (\<lambda>n. nt_path n \<noteq> path) (db_notes db)"
  by (simp add: delete_note_rows_def Let_def split: option.split)

lemma insert_or_ignore_distinct:
  "distinct (map key rows) \<Longrightarrow> distinct (map key (foldl (insert_or_ignore key) rows xs))"
  by (induction xs arbitrary: rows) (auto simp: insert_or_ignore_def)

lemma insert_or_ignore_set: "set (foldl (insert_or_ignore key) rows xs) \<subseteq> set rows \<union> set xs"
proof (induction xs arbitrary: rows)
  case (Cons x xs)
  have "set (insert_or_ignore key rows x) \<subseteq> insert x (set rows)" by (auto simp: insert_or_ignore_def)
  with Cons.IH [of "insert_or_ignore key rows x"] show ?case by auto
qed simp

lemma add_backlinks_simps [simp]:
  "db_notes (add_backlinks P db) = db_notes db" "db_tags (add_backlinks P db) = db_tags db"
  "db_props (add_backlinks P db) = db_props db" "db_links (add_backlinks P db) = db_links db"
  "db_fts (add_backlinks P db) = db_fts db"
  by (simp_all add: add_backlinks_def)

lemma db_ok_backs:
  "db_ok fts db \<Longrightarrow> distinct (map back_key X) \<Longrightarrow>
     (\<lambda>b. fst (snd b)) ` set X \<subseteq> nt_path ` set (db_notes db) \<Longrightarrow> db_ok fts (db\<lparr>db_backs := X\<rparr>)"
  by (simp add: db_ok_def)

lemma add_backlinks_ok:
  assumes ok: "db_ok fts db"
  shows "db_ok fts (add_backlinks P db)"
proof -
  have "distinct (map back_key (db_backs (add_backlinks P db)))"
    using ok by (simp add: add_backlinks_def insert_or_ignore_distinct db_ok_def)
  moreover have "(\<lambda>b. fst (snd b)) ` set (db_backs (add_backlinks P db)) \<subseteq> nt_path ` set (db_notes db)"
  proof -
    let ?new = "map (\<lambda>l. (the (lk_resolved l), lk_source l, lk_context l))
        (filter (\<lambda>l. P l \<and> contributes_back l) (db_links db))"
    have "set (db_backs (add_backlinks P db)) \<subseteq> set (db_backs db) \<union> set ?new"
      unfolding add_backlinks_def using insert_or_ignore_set [of back_key "db_backs db" ?new] by simp
    moreover have "fst (snd b) \<in> nt_path ` set (db_notes db)" if "b \<in> set ?new" for b
      using that db_okD(9) [OF ok] by auto
    ultimately show ?thesis using db_okD(10) [OF ok] by blast
  qed
  ultimately show ?thesis
    unfolding add_backlinks_def by (intro db_ok_backs [OF ok]) simp_all
qed

lemma sync_backlinks_ok: "db_ok fts db \<Longrightarrow> db_ok fts (sync_outgoing_backlinks path db)"
  and sync_backlinks_notes [simp]: "db_notes (sync_outgoing_backlinks path db) = db_notes db"
  by (simp_all add: sync_outgoing_backlinks_def add_backlinks_ok)

lemma wipe_empties: "db_ok fts db \<Longrightarrow> wipe fts db = (if fts then empty_db else empty_db\<lparr>db_fts := db_fts db\<rparr>)"
proof -
  assume "db_ok fts db"
  then have "filter (\<lambda>t. tg_note t \<notin> nt_path ` set (db_notes db)) (db_tags db) = []"
    "filter (\<lambda>p. fst p \<notin> nt_path ` set (db_notes db)) (db_props db) = []"
    "filter (\<lambda>l. lk_source l \<notin> nt_path ` set (db_notes db)) (db_links db) = []"
    "filter (\<lambda>b. fst (snd b) \<notin> nt_path ` set (db_notes db)) (db_backs db) = []"
    by (auto simp: db_ok_def filter_empty_conv)
  then show ?thesis
    by (simp add: wipe_def delete_notes_def empty_db_def Let_def)
qed

lemma wipe_ok: "db_ok fts db \<Longrightarrow> db_ok fts (wipe fts db)"
  by (simp add: wipe_empties) (simp add: db_ok_def empty_db_def)

section \<open>The digest stored for a path\<close>

lemma find_map_of: "map_option g (find (\<lambda>x. f x = k) xs) = map_of (map (\<lambda>x. (f x, g x)) xs) k"
  by (induction xs) auto

lemma stored_sha_cong: "db_notes db = db_notes db' \<Longrightarrow> stored_sha path db = stored_sha path db'"
  by (simp add: stored_sha_def)

lemma find_append: "find P (xs @ ys) = (case find P xs of None \<Rightarrow> find P ys | Some x \<Rightarrow> Some x)"
  by (induction xs) auto

lemma find_filter_other: "(\<And>x. P x \<Longrightarrow> Q x) \<Longrightarrow> find P (filter Q xs) = find P xs"
  by (induction xs) auto

lemma stored_sha_delete [simp]:
  "stored_sha q (delete_note_rows fts path db) = (if q = path then None else stored_sha q db)"
proof (cases "q = path")
  case True
  have "find (\<lambda>n. nt_path n = path) (filter (\<lambda>n. nt_path n \<noteq> path) (db_notes db)) = None"
    by (auto simp: find_None_iff)
  with True show ?thesis by (simp add: stored_sha_def)
next
  case False
  then show ?thesis by (simp add: stored_sha_def find_filter_other)
qed

lemma stored_sha_None: "stored_sha q db = None \<longleftrightarrow> q \<notin> nt_path ` set (db_notes db)"
  by (auto simp: stored_sha_def find_None_iff)

lemma stored_sha_with_entry:
  "en_path e \<notin> nt_path ` set (db_notes db) \<Longrightarrow>
     stored_sha q (with_entry L fts e db) = (if q = en_path e then Some (en_sha e) else stored_sha q db)"
proof -
  assume "en_path e \<notin> nt_path ` set (db_notes db)"
  then have "find (\<lambda>n. nt_path n = en_path e) (db_notes db) = None"
    by (simp add: find_None_iff) (metis image_eqI)
  then show ?thesis
    by (auto simp: stored_sha_def with_entry_def find_append Let_def split: option.split)
qed

lemma stored_sha_sync [simp]: "stored_sha q (sync_outgoing_backlinks path db) = stored_sha q db"
  and stored_sha_backlinks [simp]: "stored_sha q (add_backlinks P db) = stored_sha q db"
  by (simp_all add: stored_sha_def)

end
