(* ===== verification/IndexWatch.thy ===== *)
theory IndexWatch imports IndexTables begin

text \<open>
  The index beside a vault that changes: what each operation stores for a path, and the step relation of
  changes, their notifications and the index. The invariant says that a note the index has not caught up
  with is still buffered or still to be reported.
\<close>

section \<open>What can be stored\<close>

text \<open>
  The tables keep texts storable, and YAML yields values that SQLite and \<^verbatim>\<open>json\<close> accept.
\<close>

definition index_env_ok :: "index_env \<Rightarrow> bool" where
  "index_env_ok E \<longleftrightarrow>
     pylib_ok (ie_lib E) \<and> (\<forall>s. sql_text s \<longrightarrow> sql_text (casefold (ie_lib E) s)) \<and>
     (\<forall>s. sql_text s \<longrightarrow>
        list_all sql_text (fm_tags (parse_frontmatter (ie_lib E) (ie_yaml E) s)) \<and>
        list_all (\<lambda>(k, v). sql_text (key_text k) \<and> json_storable v)
          (fm_properties (parse_frontmatter (ie_lib E) (ie_yaml E) s)))"

definition names_ok :: "name_map \<Rightarrow> bool" where
  "names_ok m \<longleftrightarrow> (\<forall>key. list_all sql_text (m key))"

lemma by_casefold_set: "finite A \<Longrightarrow> set (by_casefold L A) = A"
  by (simp add: by_casefold_def)

lemma finite_suffix_variants [simp]: "finite (suffix_variants L t)"
  by (simp add: suffix_variants_def)

lemma finite_candidates [simp]: "finite (link_candidates L full noext target)"
  by (simp add: link_candidates_def)

lemma candidates_names:
  "c \<in> link_candidates L full noext target \<Longrightarrow> \<exists>key. c \<in> set (full key) \<or> c \<in> set (noext key)"
  by (auto simp: link_candidates_def split: if_splits)

lemma resolve_ref_storable:
  assumes "ref_storable r" "names_ok full" "names_ok noext" "sql_text source_path"
  shows "ref_storable (resolve_ref L full noext source_path r)"
proof -
  have c: "sql_text c" if "c \<in> set (by_casefold L (link_candidates L full noext t))" for c t
  proof -
    from that have "c \<in> link_candidates L full noext t" by (simp add: by_casefold_set)
    then obtain key where "c \<in> set (full key) \<or> c \<in> set (noext key)"
      using candidates_names by blast
    then show ?thesis using assms(2,3) unfolding names_ok_def list_all_iff by blast
  qed
  show ?thesis
  proof (cases "by_casefold L (link_candidates L full noext (strip (wr_target r)))")
    case Nil
    then show ?thesis using assms(1,4) by (simp add: resolve_ref_def ref_storable_def Let_def sql_opt_def)
  next
    case (Cons a as)
    then have "sql_text a" "list_all sql_text as"
      using c [where t = "strip (wr_target r)"] by (auto simp: list_all_iff)
    with Cons show ?thesis using assms(1,4) by (simp add: resolve_ref_def ref_storable_def Let_def sql_opt_def)
  qed
qed

lemma sql_ascii: "is_ascii s \<Longrightarrow> sql_text s"
  by (simp add: sql_text_def utf8_enc_ascii)

lemma sql_take [simp]: "sql_text s \<Longrightarrow> sql_text (take n s)"
  by (rule sql_text_sub [OF _ set_take_subset])

lemma entry_from_text_storable:
  assumes env: "index_env_ok E" and path: "sql_text path" and digest: "sql_text digest"
    and content: "sql_text content" and names: "names_ok full" "names_ok noext"
  shows "entry_storable (ie_lib E) (entry_from_text E full noext path digest content)"
proof -
  let ?L = "ie_lib E" and ?fm = "parse_frontmatter (ie_lib E) (ie_yaml E) content"
  have fold: "sql_text s \<Longrightarrow> sql_text (casefold ?L s)" for s
    using env by (simp add: index_env_ok_def)
  have tags: "list_all sql_text (fm_tags ?fm)"
    and props: "list_all (\<lambda>(k, v). sql_text (key_text k) \<and> json_storable v) (fm_properties ?fm)"
    using env content by (simp_all add: index_env_ok_def)
  have folded: "list_all sql_text (fm_tags_folded ?fm)"
    using tags by (simp add: parse_frontmatter_distinct(2) list_all_iff fold)
  have stem: "sql_text (strip_extension (base_name path))"
    using path by (simp add: sql_base_name sql_strip_extension)
  define body where "body = (if ie_cap E < length (strip_frontmatter content)
      then take (ie_cap E) (strip_frontmatter content) else strip_frontmatter content)"
  have body: "sql_text body"
    using sql_strip_frontmatter [OF content] by (simp add: body_def)
  define e where "e = entry_from_text E full noext path digest content"
  have en_title: "en_title e = derive_title body (strip_extension (base_name path))"
    by (simp add: e_def entry_from_text_def Let_def body_def)
  have title: "sql_text (en_title e)"
    unfolding en_title by (rule sql_derive_title [OF body stem])
  have "sql_text (join_with 32 (fm_tags_folded ?fm))"
    using folded by (intro sql_join_with) (simp_all add: list_all_iff)
  then have "sql_text (join_with 32 [strip_extension (base_name path), en_title e,
      join_with 32 (fm_tags_folded ?fm), body])"
    using title stem body by (intro sql_join_with) auto
  moreover have "en_search e = casefold ?L (join_with 32 [strip_extension (base_name path), en_title e,
      join_with 32 (fm_tags_folded ?fm), body])"
    unfolding en_title by (simp only: e_def entry_from_text_def Let_def body_def note_entry.simps)
  ultimately have search: "sql_text (en_search e)" by (simp only: fold)
  have refs: "list_all ref_storable (en_outgoing e)"
    using parse_wikilinks_storable [OF content] resolve_ref_storable [OF _ names path]
    by (simp add: e_def entry_from_text_def Let_def list_all_iff)
  have rest: "en_path e = path" "en_sha e = digest" "en_basename e = strip_extension (base_name path)"
    "en_text e = body"
    "en_tags e = fm_tags ?fm" "en_tags_folded e = fm_tags_folded ?fm" "en_properties e = fm_properties ?fm"
    by (simp_all add: e_def entry_from_text_def Let_def body_def)
  have "list_all sql_text (folded_tags ?L e)"
    using folded tags fold by (simp add: folded_tags_def rest list_all_iff)
  then show ?thesis
    using title search refs path digest stem body tags props
    unfolding e_def [symmetric] entry_storable_def by (simp add: rest)
qed

lemma sql_NOT_UTF8: "sql_text NOT_UTF8"
  by (simp add: NOT_UTF8_def sql_text_set utf8_enc_char_def)

lemma build_entry_storable:
  assumes env: "index_env_ok E" and path: "sql_text path" and digest: "sql_text (snd data)"
    and names: "names_ok full" "names_ok noext"
  shows "entry_storable (ie_lib E) (build_entry E full noext path data)"
proof (cases "utf8_decode (fst data)")
  case None
  then show ?thesis
    using path digest
    by (simp add: build_entry_def unreadable_entry_def entry_storable_def folded_tags_def
        basename_no_extension_def sql_base_name sql_strip_extension)
next
  case (Some content)
  then have "sql_text content"
    unfolding utf8_decode_def sql_text_def using utf8_enc_dec by blast
  then show ?thesis
    using entry_from_text_storable [OF env path digest _ names] Some by (simp add: build_entry_def)
qed

section \<open>Rows after each operation\<close>

definition live :: "index_state \<Rightarrow> index_db \<Rightarrow> bool" where
  "live s db \<longleftrightarrow> xs_db s = Some db \<and> db_ok (xs_fts s) db \<and> names_ok (xs_full s) \<and> names_ok (xs_noext s)"

definition view_sound :: "pylib \<Rightarrow> vault_view \<Rightarrow> bool" where
  "view_sound L V \<longleftrightarrow> (\<forall>p d. vv_read V p = Some d \<longrightarrow> snd d = hexdigest L (fst d))"

lemma digest_storable: "index_env_ok E \<Longrightarrow> view_sound (ie_lib E) V \<Longrightarrow> vv_read V p = Some d \<Longrightarrow> sql_text (snd d)"
proof -
  assume "index_env_ok E" "view_sound (ie_lib E) V" "vv_read V p = Some d"
  then have "snd d = hexdigest (ie_lib E) (fst d)" "list_all is_lower_hex (hexdigest (ie_lib E) (fst d))"
    by (auto simp: index_env_ok_def view_sound_def pylib_ok_def)
  then show ?thesis by (simp add: sql_ascii is_ascii_hex)
qed

lemma names_ok_refresh:
  "names_ok m \<Longrightarrow> sql_text path \<Longrightarrow> names_ok (refresh_name L key path m)"
  by (auto simp: names_ok_def refresh_name_def list_all_iff)

lemma live_refresh_basenames:
  "live s db \<Longrightarrow> sql_text path \<Longrightarrow> live (refresh_basenames L path s) db"
  by (simp add: live_def refresh_basenames_def names_ok_refresh)

lemma live_forget_basenames: "live s db \<Longrightarrow> live (forget_basenames L path s) db"
  by (auto simp: live_def forget_basenames_def names_ok_def list_all_iff)

lemma refresh_basenames_simps [simp]:
  "xs_db (refresh_basenames L p s) = xs_db s" "xs_fts (refresh_basenames L p s) = xs_fts s"
  "xs_pending (refresh_basenames L p s) = xs_pending s" "xs_timers (refresh_basenames L p s) = xs_timers s"
  by (simp_all add: refresh_basenames_def)

lemma forget_basenames_simps [simp]:
  "xs_db (forget_basenames L p s) = xs_db s" "xs_fts (forget_basenames L p s) = xs_fts s"
  "xs_pending (forget_basenames L p s) = xs_pending s" "xs_timers (forget_basenames L p s) = xs_timers s"
  by (simp_all add: forget_basenames_def)

text \<open>\<open>same_buffers s s'\<close>: an operation on one path leaves the buffers alone.\<close>

definition same_buffers :: "index_state \<Rightarrow> index_state \<Rightarrow> bool" where
  "same_buffers s s' \<longleftrightarrow> xs_pending s' = xs_pending s \<and> xs_timers s' = xs_timers s \<and> xs_fts s' = xs_fts s"

lemma same_buffers_refl [simp]: "same_buffers s s"
  by (simp add: same_buffers_def)

lemma apply_create_writes:
  assumes env: "index_env_ok E" and V: "view_sound (ie_lib E) V" and path: "sql_text path" "path \<noteq> []"
    and s: "live s db" and md: "markdown_file (ie_lib E) path" and read: "vv_read V path = Some data"
    and changed: "stored_sha path db \<noteq> Some (snd data)"
  defines "s1 \<equiv> refresh_basenames (ie_lib E) path s"
  defines "db1 \<equiv> delete_note_rows (xs_fts s1) path db"
  defines "e \<equiv> build_entry E (xs_full s1) (xs_noext s1) path data"
  shows "apply_create E V path s =
      (Inr (), s1\<lparr>xs_db := Some (sync_outgoing_backlinks path (with_entry (ie_lib E) (xs_fts s1) e db1))\<rparr>)"
    and "db_ok (xs_fts s1) db1" and "path \<notin> nt_path ` set (db_notes db1)" and "live s1 db"
proof -
  show s1: "live s1 db" unfolding s1_def by (rule live_refresh_basenames [OF s path(1)])
  show ok1: "db_ok (xs_fts s1) db1"
    unfolding db1_def using s1 by (intro delete_note_rows_ok) (simp add: live_def)
  show "path \<notin> nt_path ` set (db_notes db1)" by (auto simp: db1_def)
  then have new: "en_path e \<notin> nt_path ` set (db_notes db1)" by (simp add: e_def)
  have keys: "entry_keys_ok (ie_lib E) e" unfolding e_def by (rule build_entry_keys_ok)
  have st: "entry_storable (ie_lib E) e"
    unfolding e_def using s1 digest_storable [OF env V read]
    by (intro build_entry_storable [OF env path(1)]) (simp_all add: live_def)
  show "apply_create E V path s =
      (Inr (), s1\<lparr>xs_db := Some (sync_outgoing_backlinks path (with_entry (ie_lib E) (xs_fts s1) e db1))\<rparr>)"
    using read md path s changed insert_note_row_ok [OF ok1 new keys] st
    by (simp add: apply_create_def Let_def live_def e_def db1_def s1_def)
qed

lemma apply_create_live:
  assumes env: "index_env_ok E" and V: "view_sound (ie_lib E) V" and path: "sql_text path" "path \<noteq> []"
    and s: "live s db"
  shows "\<exists>s' db'. apply_create E V path s = (Inr (), s') \<and> live s' db' \<and> same_buffers s s' \<and>
    (\<forall>q. stored_sha q db' =
       (if q = path \<and> markdown_file (ie_lib E) path \<and> vv_read V path \<noteq> None
        then map_option snd (vv_read V path) else stored_sha q db))"
proof (cases "markdown_file (ie_lib E) path")
  case False
  then show ?thesis
    using path live_refresh_basenames [OF s path(1)]
    by (auto simp: apply_create_def same_buffers_def Let_def)
next
  case md: True
  show ?thesis
  proof (cases "vv_read V path")
    case None
    with md path s show ?thesis by (intro exI [of _ s] exI [of _ db]) (simp add: apply_create_def Let_def)
  next
    case (Some data)
    show ?thesis
    proof (cases "stored_sha path db = Some (snd data)")
      case True
      with Some md path s show ?thesis
        by (intro exI [of _ s] exI [of _ db]) (auto simp: apply_create_def Let_def live_def)
    next
      case False
      define s1 where "s1 = refresh_basenames (ie_lib E) path s"
      define db1 where "db1 = delete_note_rows (xs_fts s1) path db"
      define e where "e = build_entry E (xs_full s1) (xs_noext s1) path data"
      note w = apply_create_writes [OF env V path s md Some False, folded s1_def, folded db1_def e_def]
      have new: "en_path e \<notin> nt_path ` set (db_notes db1)" using w(3) by (simp add: e_def)
      define db2 where "db2 = sync_outgoing_backlinks path (with_entry (ie_lib E) (xs_fts s1) e db1)"
      have run: "apply_create E V path s = (Inr (), s1\<lparr>xs_db := Some db2\<rparr>)" using w(1) by (simp add: db2_def)
      have ok2: "db_ok (xs_fts s1) db2"
        unfolding db2_def e_def
        by (intro sync_backlinks_ok with_entry_ok [OF w(2)]) (use w(3) in \<open>simp_all add: build_entry_keys_ok\<close>)
      have s1: "live s1 db" by (rule w(4))
      have "stored_sha q db2 = (if q = path then Some (snd data) else stored_sha q db)" for q
        unfolding db2_def stored_sha_sync stored_sha_with_entry [OF new] by (simp add: e_def db1_def)
      then show ?thesis
        using Some md run ok2 s1
        by (intro exI [of _ "s1\<lparr>xs_db := Some db2\<rparr>"] exI [of _ db2]) (simp add: live_def same_buffers_def s1_def)
    qed
  qed
qed

lemma apply_delete_live:
  assumes path: "sql_text path" "path \<noteq> []" and s: "live s db"
  shows "\<exists>s' db'. apply_delete E path s = (Inr (), s') \<and> live s' db' \<and> same_buffers s s' \<and>
    (\<forall>q. stored_sha q db' = (if q = path then None else stored_sha q db))"
proof -
  define db' where "db' = (if stored_sha path db = None then db else delete_note_rows (xs_fts s) path db)"
  have "db_ok (xs_fts s) db'"
    using s delete_note_rows_ok by (simp add: db'_def live_def)
  then have l: "live (s\<lparr>xs_db := Some db'\<rparr>) db'" using s by (simp add: live_def)
  have "stored_sha q db' = (if q = path then None else stored_sha q db)" for q
    by (simp add: db'_def)
  moreover have "apply_delete E path s = (Inr (), forget_basenames (ie_lib E) path (s\<lparr>xs_db := Some db'\<rparr>))"
    using path s by (simp add: apply_delete_def live_def db'_def)
  ultimately show ?thesis
    using live_forget_basenames [OF l]
    by (intro exI [of _ "forget_basenames (ie_lib E) path (s\<lparr>xs_db := Some db'\<rparr>)"] exI [of _ db'])
      (simp add: same_buffers_def)
qed

text \<open>The digest a flush leaves for a path: read once to see whether the file is there, once for its bytes.\<close>

definition flushed_sha :: "vault_view \<Rightarrow> vault_view \<Rightarrow> pystr \<Rightarrow> pystr option \<Rightarrow> pystr option" where
  "flushed_sha V V' path old =
     (if vv_read V path = None then None
      else case vv_read V' path of None \<Rightarrow> old | Some d \<Rightarrow> Some (snd d))"

lemma apply_current_live:
  assumes env: "index_env_ok E" and V: "view_sound (ie_lib E) V'" and path: "sql_text path" "path \<noteq> []"
    and s: "live s db"
  shows "\<exists>s' db'. apply_current E V V' path s = (Inr (), s') \<and> live s' db' \<and> same_buffers s s' \<and>
    (\<forall>q. q \<noteq> path \<longrightarrow> stored_sha q db' = stored_sha q db) \<and>
    (markdown_file (ie_lib E) path \<longrightarrow> stored_sha path db' = flushed_sha V V' path (stored_sha path db))"
proof (cases "vv_read V path")
  case None
  then have run: "apply_current E V V' path = apply_delete E path"
    by (simp add: apply_current_def file_exists_def)
  obtain s' db' where "apply_delete E path s = (Inr (), s')" "live s' db'" "same_buffers s s'"
    "\<forall>q. stored_sha q db' = (if q = path then None else stored_sha q db)"
    using apply_delete_live [OF path s, of E] by blast
  with None show ?thesis
    unfolding run by (intro exI [of _ s'] exI [of _ db']) (simp add: flushed_sha_def)
next
  case (Some d)
  then have "apply_current E V V' path = apply_create E V' path"
    by (simp add: apply_current_def file_exists_def)
  note run = this
  obtain s' db' where "apply_create E V' path s = (Inr (), s')" "live s' db'" "same_buffers s s'"
    "\<forall>q. stored_sha q db' = (if q = path \<and> markdown_file (ie_lib E) path \<and> vv_read V' path \<noteq> None
        then map_option snd (vv_read V' path) else stored_sha q db)"
    using apply_create_live [OF env V path s] by blast
  with Some show ?thesis
    unfolding run by (intro exI [of _ s'] exI [of _ db']) (simp add: flushed_sha_def split: option.split)
qed

lemma live_pending [simp]:
  "live (s\<lparr>xs_pending := x\<rparr>) db \<longleftrightarrow> live s db" "live (s\<lparr>xs_timers := y\<rparr>) db \<longleftrightarrow> live s db"
  "live (s\<lparr>xs_pending := x, xs_timers := y\<rparr>) db \<longleftrightarrow> live s db"
  by (simp_all add: live_def)

lemma drop_key_keys: "set (map fst (drop_key k m)) = set (map fst m) - {k}"
  by (auto simp: drop_key_def)

lemma put_key_keys: "set (map fst (put_key k v m)) = insert k (set (map fst m))"
  by (induction k v m rule: put_key.induct) auto

lemma flush_paths_live:
  assumes env: "index_env_ok E" and V: "view_sound (ie_lib E) V'"
    and paths: "\<forall>p \<in> set paths. sql_text p \<and> p \<noteq> []" "distinct paths" and s: "live s db"
  shows "\<exists>s' db'. flush_paths E V V' paths s = (Inr (), s') \<and> live s' db' \<and>
    xs_pending s' = filter (\<lambda>e. fst e \<notin> set paths) (xs_pending s) \<and>
    (\<forall>q. q \<notin> set paths \<longrightarrow> stored_sha q db' = stored_sha q db) \<and>
    (\<forall>q \<in> set paths. markdown_file (ie_lib E) q \<longrightarrow> stored_sha q db' = flushed_sha V V' q (stored_sha q db))"
  using paths s
proof (induction paths arbitrary: s db)
  case Nil
  then show ?case by (auto simp: ret_def)
next
  case (Cons path paths)
  let ?s = "s\<lparr>xs_pending := drop_key path (xs_pending s)\<rparr>"
  have "live ?s db" using Cons.prems(3) by simp
  then obtain s1 db1 where 1: "apply_current E V V' path ?s = (Inr (), s1)" "live s1 db1" "same_buffers ?s s1"
    "\<forall>q. q \<noteq> path \<longrightarrow> stored_sha q db1 = stored_sha q db"
    "markdown_file (ie_lib E) path \<longrightarrow> stored_sha path db1 = flushed_sha V V' path (stored_sha path db)"
    using apply_current_live [OF env V, of path ?s db V] Cons.prems(1) by auto
  obtain s2 db2 where 2: "flush_paths E V V' paths s1 = (Inr (), s2)" "live s2 db2"
    "xs_pending s2 = filter (\<lambda>e. fst e \<notin> set paths) (xs_pending s1)"
    "\<forall>q. q \<notin> set paths \<longrightarrow> stored_sha q db2 = stored_sha q db1"
    "\<forall>q \<in> set paths. markdown_file (ie_lib E) q \<longrightarrow> stored_sha q db2 = flushed_sha V V' q (stored_sha q db1)"
    using Cons.IH [of s1 db1] Cons.prems 1(2) by auto
  have "flush_paths E V V' (path # paths) s = (Inr (), s2)"
    using 1(1) 2(1) by (simp add: seq_def)
  moreover have "xs_pending s2 = filter (\<lambda>e. fst e \<notin> set (path # paths)) (xs_pending s)"
    using 2(3) 1(3) by (auto simp: same_buffers_def drop_key_def intro: filter_cong)
  moreover have "\<forall>q \<in> set (path # paths). markdown_file (ie_lib E) q \<longrightarrow>
      stored_sha q db2 = flushed_sha V V' q (stored_sha q db)"
    using 2(4,5) 1(4,5) Cons.prems(2) by auto
  ultimately show ?case using 2(2,4) 1(4) by auto
qed

end
