(* ===== verification/IndexSystem.thy ===== *)
theory IndexSystem imports IndexWatch begin

text \<open>
  A full rebuild, and the vault, the notifications and the index as one transition system. A change of a
  file puts a notification at the end of the queue; the index takes notifications from its front, in any
  interleaving with timers, flushes and rebuilds. A file that an operation reads may have changed since
  the state it starts in, but then its notification is in the queue: \<open>view_fits\<close>.
\<close>

section \<open>Rebuild\<close>

lemma fm_status_readable: "fm_status (parse_frontmatter L Y s) \<noteq> FmUnreadable"
  unfolding parse_frontmatter_def Let_def
  by (auto simp: frontmatter_error_def no_frontmatter_def
      split: list.split option.split yaml_result.split yvalue.split)

lemma bad_entry_iff:
  "en_status (build_entry E full noext path data) = FmUnreadable \<or>
   en_diagnostic (build_entry E full noext path data) \<noteq> None \<longleftrightarrow> utf8_decode (fst data) = None"
  by (auto simp: build_entry_def unreadable_entry_def entry_from_text_def Let_def fm_status_readable
      split: option.split)

definition unread_notes :: "pylib \<Rightarrow> vault_view \<Rightarrow> pystr list \<Rightarrow> pystr list" where
  "unread_notes L V files = filter (\<lambda>p. markdown_file L p \<and> vv_read V p = None) files"

definition read_notes :: "pylib \<Rightarrow> vault_view \<Rightarrow> pystr list \<Rightarrow> pystr list" where
  "read_notes L V files = filter (\<lambda>p. markdown_file L p \<and> vv_read V p \<noteq> None) files"

definition bad_notes :: "pylib \<Rightarrow> vault_view \<Rightarrow> pystr list \<Rightarrow> pystr list" where
  "bad_notes L V files = filter (\<lambda>p. markdown_file L p \<and> undecodable V p) files"

lemma rebuild_rows_live:
  assumes env: "index_env_ok E" and V: "view_sound (ie_lib E) V"
    and names: "names_ok full" "names_ok noext"
    and files: "list_all sql_text files" "distinct files"
    and db: "db_ok fts db" "\<forall>p \<in> set files. p \<notin> nt_path ` set (db_notes db)"
  shows "\<exists>db'. rebuild_rows E fts V full noext files db (skipped, failed, written) =
      Inr (db', skipped + length (unread_notes (ie_lib E) V files),
           failed + length (bad_notes (ie_lib E) V files),
           written + length (read_notes (ie_lib E) V files)) \<and>
    db_ok fts db' \<and>
    (\<forall>q. stored_sha q db' = (if q \<in> set (read_notes (ie_lib E) V files)
       then map_option snd (vv_read V q) else stored_sha q db))"
  using files db
proof (induction files arbitrary: db skipped failed written)
  case Nil
  then show ?case by (simp add: unread_notes_def bad_notes_def read_notes_def)
next
  case (Cons path files)
  let ?L = "ie_lib E"
  have files: "list_all sql_text files" "distinct files" using Cons.prems by simp_all
  show ?case
  proof (cases "markdown_file ?L path")
    case False
    then show ?thesis
      using Cons.IH [OF files Cons.prems(3), of skipped failed written] Cons.prems(4)
      by (simp add: unread_notes_def bad_notes_def read_notes_def)
  next
    case md: True
    show ?thesis
    proof (cases "vv_read V path")
      case None
      with md show ?thesis
        using Cons.IH [OF files Cons.prems(3), of "skipped + 1" failed written] Cons.prems(4)
        by (simp add: unread_notes_def bad_notes_def read_notes_def undecodable_def)
    next
      case (Some data)
      define e where "e = build_entry E full noext path data"
      have new: "en_path e \<notin> nt_path ` set (db_notes db)" using Cons.prems(4) by (simp add: e_def)
      have keys: "entry_keys_ok ?L e" unfolding e_def by (rule build_entry_keys_ok)
      have st: "entry_storable ?L e"
        unfolding e_def using Cons.prems(1) digest_storable [OF env V Some]
        by (intro build_entry_storable [OF env _ _ names]) simp_all
      define db1 where "db1 = with_entry ?L fts e db"
      have ins: "insert_note_row ?L fts e db = Inr db1"
        using insert_note_row_ok [OF Cons.prems(3) new keys] st by (simp add: db1_def)
      have ok1: "db_ok fts db1" unfolding db1_def by (rule with_entry_ok [OF Cons.prems(3) new keys])
      have sha1: "stored_sha q db1 = (if q = path then Some (snd data) else stored_sha q db)" for q
        unfolding db1_def stored_sha_with_entry [OF new] by (simp add: e_def)
      have fresh: "\<forall>p \<in> set files. p \<notin> nt_path ` set (db_notes db1)"
      proof
        fix p assume "p \<in> set files"
        then have "p \<noteq> path" "stored_sha p db = None"
          using Cons.prems(2,4) by (auto simp: stored_sha_None)
        then show "p \<notin> nt_path ` set (db_notes db1)"
          using sha1 [of p] by (simp flip: stored_sha_None)
      qed
      define failed' where "failed' = (if undecodable V path then failed + 1 else failed)"
      obtain db' where IH: "rebuild_rows E fts V full noext files db1 (skipped, failed', written + 1) =
            Inr (db', skipped + length (unread_notes ?L V files), failed' + length (bad_notes ?L V files),
              written + 1 + length (read_notes ?L V files))" "db_ok fts db'"
          "\<forall>q. stored_sha q db' = (if q \<in> set (read_notes ?L V files)
             then map_option snd (vv_read V q) else stored_sha q db1)"
        using Cons.IH [OF files ok1 fresh, of skipped failed' "written + 1"] by blast
      have bad: "(if en_status e = FmUnreadable \<or> en_diagnostic e \<noteq> None then failed + 1 else failed) = failed'"
        using bad_entry_iff [of E full noext path data] Some
        by (auto simp: e_def failed'_def undecodable_def)
      have "rebuild_rows E fts V full noext (path # files) db (skipped, failed, written) =
          rebuild_rows E fts V full noext files db1 (skipped, failed', written + 1)"
        using md Some ins bad by (simp add: e_def [symmetric] Let_def)
      moreover have "length (unread_notes ?L V (path # files)) = length (unread_notes ?L V files)"
        "failed + length (bad_notes ?L V (path # files)) = failed' + length (bad_notes ?L V files)"
        "length (read_notes ?L V (path # files)) = Suc (length (read_notes ?L V files))"
        using md Some by (simp_all add: unread_notes_def bad_notes_def read_notes_def failed'_def)
      moreover have "stored_sha q db' = (if q \<in> set (read_notes ?L V (path # files))
          then map_option snd (vv_read V q) else stored_sha q db)" for q
        using IH(3) sha1 [of q] md Some by (auto simp: read_notes_def)
      ultimately show ?thesis using IH(1,2) by (intro exI [of _ db']) simp
    qed
  qed
qed

definition tree_sound :: "(pystr \<times> bool) list \<Rightarrow> bool" where
  "tree_sound tree \<longleftrightarrow> distinct (map fst tree) \<and> list_all (\<lambda>(p, _). sql_text p) tree"

lemma tree_files_sound:
  assumes "tree_sound tree"
  shows "list_all sql_text (tree_files L tree)" "distinct (tree_files L tree)"
    "set (tree_files L tree) = {p. (p, True) \<in> set tree \<and> p \<noteq> lit ''.''}"
proof -
  show s: "set (tree_files L tree) = {p. (p, True) \<in> set tree \<and> p \<noteq> lit ''.''}"
    by (force simp: tree_files_def)
  show "list_all sql_text (tree_files L tree)"
    using assms unfolding list_all_iff s by (auto simp: tree_sound_def list_all_iff)
  show "distinct (tree_files L tree)"
    using assms unfolding tree_files_def distinct_sort tree_sound_def by (auto intro: distinct_map_filter)
qed

lemma names_ok_maps:
  "list_all sql_text files \<Longrightarrow> names_ok (full_map L files)"
  "list_all sql_text files \<Longrightarrow> names_ok (noext_map L files)"
  by (auto simp: names_ok_def full_map_def noext_map_def list_all_iff)

lemma stored_sha_wipe: "db_ok fts db \<Longrightarrow> stored_sha q (wipe fts db) = None"
  by (simp add: wipe_empties stored_sha_def empty_db_def)

definition ready_state :: "nat \<Rightarrow> nat \<Rightarrow> nat \<Rightarrow> index_state \<Rightarrow> bool" where
  "ready_state now skipped failed s \<longleftrightarrow> xs_state s = IxReady \<and> xs_built_at s = Some now \<and>
     xs_skipped s = skipped \<and> xs_failed s = failed"

lemma rebuild_live:
  assumes env: "index_env_ok E" and V: "view_sound (ie_lib E) V" and s: "live s db"
    and tree: "vv_tree V = Some tree" "tree_sound tree"
  defines "files \<equiv> tree_files (ie_lib E) tree"
  shows "\<exists>s' db'. rebuild E V opened now s =
      (Inr \<lparr>rb_indexed = length (read_notes (ie_lib E) V files) - length (bad_notes (ie_lib E) V files),
            rb_skipped = length (unread_notes (ie_lib E) V files),
            rb_failed = length (bad_notes (ie_lib E) V files)\<rparr>, s') \<and>
    live s' db' \<and> same_buffers s s' \<and>
    ready_state now (length (unread_notes (ie_lib E) V files)) (length (bad_notes (ie_lib E) V files)) s' \<and>
    (\<forall>q. stored_sha q db' = (if q \<in> set (read_notes (ie_lib E) V files) then map_option snd (vv_read V q) else None))"
proof -
  let ?L = "ie_lib E"
  have f: "list_all sql_text files" "distinct files"
    using tree_files_sound [OF tree(2)] by (simp_all add: files_def)
  have n: "names_ok (full_map ?L files)" "names_ok (noext_map ?L files)"
    using names_ok_maps [OF f(1)] by simp_all
  have ok: "db_ok (xs_fts s) db" and db: "xs_db s = Some db" using s by (simp_all add: live_def)
  have "\<forall>p \<in> set files. p \<notin> nt_path ` set (db_notes (wipe (xs_fts s) db))"
    using stored_sha_wipe [OF ok] by (simp flip: stored_sha_None)
  from rebuild_rows_live [OF env V n f wipe_ok [OF ok] this, of 0 0 0] obtain db' where
    r: "rebuild_rows E (xs_fts s) V (full_map ?L files) (noext_map ?L files) files (wipe (xs_fts s) db) (0, 0, 0) =
        Inr (db', length (unread_notes ?L V files), length (bad_notes ?L V files), length (read_notes ?L V files))"
      "db_ok (xs_fts s) db'"
      "\<forall>q. stored_sha q db' = (if q \<in> set (read_notes ?L V files) then map_option snd (vv_read V q)
         else stored_sha q (wipe (xs_fts s) db))"
    by auto
  define s' where "s' = s\<lparr>xs_full := full_map ?L files, xs_noext := noext_map ?L files,
      xs_db := Some (add_backlinks (\<lambda>_. True) db'), xs_skipped := length (unread_notes ?L V files),
      xs_failed := length (bad_notes ?L V files), xs_built_at := Some now, xs_state := IxReady\<rparr>"
  have "rebuild E V opened now s =
      (Inr \<lparr>rb_indexed = length (read_notes ?L V files) - length (bad_notes ?L V files),
            rb_skipped = length (unread_notes ?L V files), rb_failed = length (bad_notes ?L V files)\<rparr>, s')"
    using r(1) tree(1) db
    by (simp add: rebuild_def open_database_def s'_def files_def [symmetric] Let_def)
  moreover have "live s' (add_backlinks (\<lambda>_. True) db')"
    using n add_backlinks_ok [OF r(2)] by (simp add: live_def s'_def)
  moreover have "same_buffers s s'" by (simp add: same_buffers_def s'_def)
  ultimately show ?thesis
    using r(3) stored_sha_wipe [OF ok] by (auto simp: ready_state_def s'_def)
qed

text \<open>When the listing fails, the rows stay as they are.\<close>

lemma rebuild_no_tree:
  "live s db \<Longrightarrow> vv_tree V = None \<Longrightarrow> rebuild E V opened now s = (Inl IndexUnavailable, set_unavailable s)"
  by (simp add: rebuild_def open_database_def live_def)

lemma index_matches_sha:
  assumes m: "index_matches L V fts db files" and d: "distinct (map nt_path (db_notes db))"
  shows "stored_sha q db = (if q \<in> set files \<and> markdown_file L q then map_option snd (vv_read V q) else None)"
    and "q \<in> set files \<Longrightarrow> markdown_file L q \<Longrightarrow> vv_read V q \<noteq> None"
proof -
  have names: "nt_path ` set (db_notes db) = {p \<in> set files. markdown_file L p}"
    and each: "\<And>p. p \<in> set files \<Longrightarrow> markdown_file L p \<Longrightarrow> \<exists>data. vv_read V p = Some data \<and>
        (\<exists>n \<in> set (db_notes db). nt_path n = p \<and> nt_sha n = snd data)"
    using m by (auto simp: index_matches_def Let_def list_all_iff list_ex_iff split: option.splits)
  show "q \<in> set files \<Longrightarrow> markdown_file L q \<Longrightarrow> vv_read V q \<noteq> None" using each by blast
  show "stored_sha q db = (if q \<in> set files \<and> markdown_file L q then map_option snd (vv_read V q) else None)"
  proof (cases "q \<in> set files \<and> markdown_file L q")
    case False
    then show ?thesis by (auto simp: stored_sha_None names)
  next
    case True
    then obtain data n where n: "vv_read V q = Some data" "n \<in> set (db_notes db)" "nt_path n = q"
        "nt_sha n = snd data"
      using each by blast
    have "map_of (map (\<lambda>n. (nt_path n, nt_sha n)) (db_notes db)) q = Some (nt_sha n)"
      using n(2,3) d by (intro map_of_is_SomeI) (auto simp: comp_def)
    with True n show ?thesis by (simp add: stored_sha_def find_map_of)
  qed
qed

lemma refresh_live:
  assumes env: "index_env_ok E" and V: "view_sound (ie_lib E) V" and s: "live s db"
    and tree: "vv_tree V = Some tree" "tree_sound tree"
  defines "files \<equiv> tree_files (ie_lib E) tree"
  shows "\<exists>r s' db'. refresh E V opened now s = (Inr r, s') \<and> live s' db' \<and> same_buffers s s' \<and>
    xs_state s' = IxReady \<and>
    (\<forall>q. stored_sha q db' = (if q \<in> set (read_notes (ie_lib E) V files) then map_option snd (vv_read V q) else None))"
proof (cases "index_matches (ie_lib E) V (xs_fts s) db files")
  case False
  then have "refresh E V opened now s = rebuild E V opened now s"
    using s tree(1) by (simp add: refresh_def open_database_def live_def files_def Let_def)
  then show ?thesis
    using rebuild_live [OF env V s tree, of opened now] unfolding ready_state_def files_def by metis
next
  case True
  let ?L = "ie_lib E"
  have f: "list_all sql_text files" "distinct files"
    using tree_files_sound [OF tree(2)] by (simp_all add: files_def)
  have db: "xs_db s = Some db" "db_ok (xs_fts s) db" using s by (simp_all add: live_def)
  define s' where "s' = s\<lparr>xs_full := full_map ?L files, xs_noext := noext_map ?L files, xs_skipped := 0,
      xs_failed := card (set (filter (\<lambda>p. markdown_file ?L p \<and> undecodable V p) files)),
      xs_built_at := Some now, xs_state := IxReady\<rparr>"
  obtain r where "refresh E V opened now s = (Inr r, s')"
    using True db tree(1)
    by (simp add: refresh_def open_database_def s'_def files_def Let_def)
  moreover have "live s' db"
    using db names_ok_maps [OF f(1)] by (simp add: live_def s'_def)
  moreover have "stored_sha q db = (if q \<in> set (read_notes ?L V files) then map_option snd (vv_read V q) else None)" for q
    using index_matches_sha [OF True db_okD(1) [OF db(2)], of q] by (auto simp: read_notes_def)
  moreover have "same_buffers s s'" "xs_state s' = IxReady" by (simp_all add: same_buffers_def s'_def)
  ultimately show ?thesis by (intro exI [of _ r] exI [of _ s'] exI [of _ db]) simp
qed

section \<open>The system\<close>

record index_sys =
  sy_disk :: "pystr \<Rightarrow> bytes option"
  sy_index :: index_state
  sy_queue :: "vault_event list"

fun event_paths :: "vault_event \<Rightarrow> pystr set" where
  "event_paths (VCreate p) = {p}"
| "event_paths (VModify p) = {p}"
| "event_paths (VDelete p) = {p}"
| "event_paths (VMove old new) = {old, new}"

definition mentioned :: "vault_event list \<Rightarrow> pystr set" where
  "mentioned queue = (\<Union>e \<in> set queue. event_paths e)"

definition disk_sha :: "pylib \<Rightarrow> index_sys \<Rightarrow> pystr \<Rightarrow> pystr option" where
  "disk_sha L Y p = map_option (hexdigest L) (sy_disk Y p)"

definition view_fits :: "pylib \<Rightarrow> vault_view \<Rightarrow> index_sys \<Rightarrow> bool" where
  "view_fits L V Y \<longleftrightarrow> view_sound L V \<and>
     (\<forall>p. map_option fst (vv_read V p) = sy_disk Y p \<or> p \<in> mentioned (sy_queue Y))"

definition tree_fits :: "vault_view \<Rightarrow> index_sys \<Rightarrow> bool" where
  "tree_fits V Y \<longleftrightarrow>
     (\<forall>tree. vv_tree V = Some tree \<longrightarrow> tree_sound tree \<and>
        (\<forall>p. ((p, True) \<in> set tree \<longleftrightarrow> sy_disk Y p \<noteq> None) \<or> p \<in> mentioned (sy_queue Y)))"

definition path_ok :: "pystr \<Rightarrow> bool" where
  "path_ok p \<longleftrightarrow> p \<noteq> [] \<and> sql_text p"

inductive index_step :: "index_env \<Rightarrow> index_sys \<Rightarrow> index_sys \<Rightarrow> bool" for E :: index_env where
  touch: "path_ok p \<Longrightarrow> e \<in> {VCreate p, VModify p, VDelete p} \<Longrightarrow>
    index_step E Y (Y\<lparr>sy_disk := (sy_disk Y)(p := content), sy_queue := sy_queue Y @ [e]\<rparr>)"
| rename: "path_ok old \<Longrightarrow> path_ok new \<Longrightarrow> old \<noteq> new \<Longrightarrow> sy_disk Y old = Some content \<Longrightarrow>
    index_step E Y (Y\<lparr>sy_disk := (sy_disk Y)(old := None, new := Some content),
      sy_queue := sy_queue Y @ [VMove old new]\<rparr>)"
| deliver: "sy_queue Y = e # queue \<Longrightarrow> view_fits (ie_lib E) V (Y\<lparr>sy_queue := queue\<rparr>) \<Longrightarrow>
    index_step E Y (Y\<lparr>sy_index := handle_event E V now e (sy_index Y), sy_queue := queue\<rparr>)"
| timer: "view_fits (ie_lib E) V Y \<Longrightarrow> view_fits (ie_lib E) V' Y \<Longrightarrow>
    index_step E Y (Y\<lparr>sy_index := flush_event E V V' p timestamp (sy_index Y)\<rparr>)"
| flush: "view_fits (ie_lib E) V Y \<Longrightarrow> view_fits (ie_lib E) V' Y \<Longrightarrow>
    index_step E Y (Y\<lparr>sy_index := snd (flush_events E V V' (sy_index Y))\<rparr>)"
| rebuild: "view_fits (ie_lib E) V Y \<Longrightarrow> tree_fits V Y \<Longrightarrow>
    index_step E Y (Y\<lparr>sy_index := snd (rebuild E V opened now (sy_index Y))\<rparr>)"
| refresh: "view_fits (ie_lib E) V Y \<Longrightarrow> tree_fits V Y \<Longrightarrow>
    index_step E Y (Y\<lparr>sy_index := snd (refresh E V opened now (sy_index Y))\<rparr>)"

text \<open>The service starts with whatever consistent rows an earlier run left in the file.\<close>

inductive index_reach :: "index_env \<Rightarrow> index_sys \<Rightarrow> bool" for E :: index_env where
  start: "db_ok fts db \<Longrightarrow> view_fits (ie_lib E) V Y \<Longrightarrow> tree_fits V Y \<Longrightarrow> vv_tree V \<noteq> None \<Longrightarrow>
    \<forall>e \<in> set (sy_queue Y). \<exists>p. path_ok p \<and> e \<in> {VCreate p, VModify p, VDelete p} \<Longrightarrow>
    index_reach E (Y\<lparr>sy_index := snd (refresh E V (Some (db, fts)) now fresh_index)\<rparr>)"
| step: "index_reach E Y \<Longrightarrow> index_step E Y Z \<Longrightarrow> index_reach E Z"

end
