(* ===== verification/IndexProperties.thy ===== *)
theory IndexProperties imports IndexSystem "HOL-Library.Code_Target_Nat" begin

text \<open>
  What the derived index promises: its rows are those of a fresh rebuild, a rebuild counts what it reads,
  the index catches up with every change that was reported, links resolve to the first file of that name.
\<close>

section \<open>Nothing stale is forgotten\<close>

fun moves_ok :: "(pystr \<Rightarrow> bytes option) \<Rightarrow> vault_event list \<Rightarrow> bool" where
  "moves_ok disk [] = True"
| "moves_ok disk (VMove old new # queue) \<longleftrightarrow>
     (disk old = None \<or> old \<in> mentioned queue) \<and> (disk new \<noteq> None \<or> new \<in> mentioned queue) \<and> moves_ok disk queue"
| "moves_ok disk (e # queue) = moves_ok disk queue"

lemma mentioned_simps [simp]:
  "mentioned [] = {}" "mentioned (e # q) = event_paths e \<union> mentioned q"
  "mentioned (q @ q') = mentioned q \<union> mentioned q'"
  by (auto simp: mentioned_def)

lemma moves_ok_change:
  "moves_ok disk q \<Longrightarrow> (\<And>p. disk' p \<noteq> disk p \<Longrightarrow> p \<in> event_paths e) \<Longrightarrow> moves_ok disk' [e] \<Longrightarrow>
     moves_ok disk' (q @ [e])"
proof (induction disk q rule: moves_ok.induct)
  case (2 disk old new queue)
  then have "disk old = disk' old \<or> old \<in> event_paths e" "disk new = disk' new \<or> new \<in> event_paths e"
    by metis+
  with 2 show ?case by auto
qed auto

definition event_ok :: "vault_event \<Rightarrow> bool" where
  "event_ok e \<longleftrightarrow> (\<forall>p \<in> event_paths e. path_ok p) \<and> (\<forall>old new. e = VMove old new \<longrightarrow> old \<noteq> new)"

definition current :: "pylib \<Rightarrow> index_sys \<Rightarrow> index_db \<Rightarrow> pystr \<Rightarrow> bool" where
  "current L Y db p \<longleftrightarrow> stored_sha p db = disk_sha L Y p"

definition pending_paths :: "index_state \<Rightarrow> pystr set" where
  "pending_paths s = fst ` set (xs_pending s)"

definition sys_ok :: "index_env \<Rightarrow> index_sys \<Rightarrow> index_db \<Rightarrow> bool" where
  "sys_ok E Y db \<longleftrightarrow>
     live (sy_index Y) db \<and> (\<forall>p \<in> pending_paths (sy_index Y). path_ok p) \<and>
     distinct (map fst (xs_pending (sy_index Y))) \<and> list_all event_ok (sy_queue Y) \<and>
     moves_ok (sy_disk Y) (sy_queue Y) \<and>
     (\<forall>p. markdown_file (ie_lib E) p \<longrightarrow> path_ok p \<longrightarrow>
        current (ie_lib E) Y db p \<or> p \<in> pending_paths (sy_index Y) \<or> p \<in> mentioned (sy_queue Y))"

text \<open>The digest read through a view is the one on the disk unless a notification is still to come.\<close>

lemma view_fits_sha:
  assumes "view_fits L V Y"
  shows "map_option snd (vv_read V p) = disk_sha L Y p \<or> p \<in> mentioned (sy_queue Y)"
proof -
  have "map_option fst (vv_read V p) = sy_disk Y p \<or> p \<in> mentioned (sy_queue Y)"
    using assms by (simp add: view_fits_def)
  moreover have "map_option snd (vv_read V p) = map_option (hexdigest L) (map_option fst (vv_read V p))"
    using assms by (cases "vv_read V p") (auto simp: view_fits_def view_sound_def)
  ultimately show ?thesis by (auto simp: disk_sha_def)
qed

lemma view_fits_sound: "view_fits L V Y \<Longrightarrow> view_sound L V"
  by (simp add: view_fits_def)

lemma flushed_current:
  assumes "view_fits L V Y" "view_fits L V' Y"
  shows "flushed_sha V V' p old = disk_sha L Y p \<or> p \<in> mentioned (sy_queue Y)"
proof (cases "p \<in> mentioned (sy_queue Y)")
  case False
  with view_fits_sha [OF assms(1), of p] view_fits_sha [OF assms(2), of p] show ?thesis
    by (auto simp: flushed_sha_def split: option.split)
qed simp

lemma not_markdown_dot: "pylib_ok L \<Longrightarrow> markdown_file L p \<Longrightarrow> p \<noteq> lit ''.''"
  by (auto simp: markdown_file_def pylib_ok_def is_ascii_def ascii_lower_char_def ends_with_def)

lemma rows_current:
  assumes V: "view_fits L V Y" and T: "tree_fits V Y" "vv_tree V = Some tree" and L: "pylib_ok L"
    and rows: "\<forall>q. stored_sha q db = (if q \<in> set (read_notes L V (tree_files L tree))
        then map_option snd (vv_read V q) else None)"
    and p: "markdown_file L p"
  shows "current L Y db p \<or> p \<in> mentioned (sy_queue Y)"
proof (cases "p \<in> mentioned (sy_queue Y)")
  case False
  have tree: "tree_sound tree" "(p, True) \<in> set tree \<longleftrightarrow> sy_disk Y p \<noteq> None"
    using T False by (auto simp: tree_fits_def)
  have sha: "map_option snd (vv_read V p) = disk_sha L Y p"
    using view_fits_sha [OF V, of p] False by simp
  show ?thesis
  proof (cases "sy_disk Y p = None")
    case True
    with tree(2) have "p \<notin> set (read_notes L V (tree_files L tree))"
      by (simp add: read_notes_def tree_files_sound(3) [OF tree(1)])
    with True rows show ?thesis by (simp add: current_def disk_sha_def)
  next
    case there: False
    then have "vv_read V p \<noteq> None" using sha by (auto simp: disk_sha_def)
    then have "p \<in> set (read_notes L V (tree_files L tree))"
      using there tree(2) p not_markdown_dot [OF L p]
      by (simp add: read_notes_def tree_files_sound(3) [OF tree(1)])
    with rows sha show ?thesis by (simp add: current_def)
  qed
qed simp

section \<open>The invariant is kept by every step\<close>

lemma put_key_distinct: "distinct (map fst m) \<Longrightarrow> distinct (map fst (put_key k v m))"
proof (induction k v m rule: put_key.induct)
  case (2 k v k' v' m)
  then show ?case using put_key_keys [of k v m] by (auto simp flip: set_map)
qed simp

lemma sys_ok_index:
  assumes ok: "sys_ok E Y db" and live: "live s db'"
    and pending: "pending_paths s \<subseteq> pending_paths (sy_index Y)" "distinct (map fst (xs_pending s))"
    and cur: "\<And>p. markdown_file (ie_lib E) p \<Longrightarrow> path_ok p \<Longrightarrow> p \<notin> pending_paths s \<Longrightarrow>
       p \<notin> mentioned (sy_queue Y) \<Longrightarrow>
       (p \<notin> pending_paths (sy_index Y) \<Longrightarrow> current (ie_lib E) Y db p) \<Longrightarrow> current (ie_lib E) Y db' p"
  shows "sys_ok E (Y\<lparr>sy_index := s\<rparr>) db'"
proof -
  have "current (ie_lib E) (Y\<lparr>sy_index := s\<rparr>) db' p \<or> p \<in> pending_paths s \<or> p \<in> mentioned (sy_queue Y)"
    if "markdown_file (ie_lib E) p" "path_ok p" for p
    using ok cur [OF that] that unfolding sys_ok_def current_def disk_sha_def by auto
  with ok live pending show ?thesis by (auto simp: sys_ok_def)
qed

lemma touch_ok:
  assumes ok: "sys_ok E Y db" and p: "path_ok p" and e: "e \<in> {VCreate p, VModify p, VDelete p}"
  shows "sys_ok E (Y\<lparr>sy_disk := (sy_disk Y)(p := content), sy_queue := sy_queue Y @ [e]\<rparr>) db"
proof -
  have paths: "event_paths e = {p}" using e by auto
  have "moves_ok ((sy_disk Y)(p := content)) (sy_queue Y @ [e])"
    using ok e by (intro moves_ok_change [of "sy_disk Y"]) (auto simp: sys_ok_def paths split: if_splits)
  moreover have "event_ok e" using e p by (auto simp: event_ok_def)
  ultimately show ?thesis
    using ok unfolding sys_ok_def current_def disk_sha_def by (auto simp: paths)
qed

lemma rename_ok:
  assumes ok: "sys_ok E Y db" and p: "path_ok old" "path_ok new" "old \<noteq> new"
  shows "sys_ok E (Y\<lparr>sy_disk := (sy_disk Y)(old := None, new := Some content),
      sy_queue := sy_queue Y @ [VMove old new]\<rparr>) db"
proof -
  have "moves_ok ((sy_disk Y)(old := None, new := Some content)) (sy_queue Y @ [VMove old new])"
    using ok p(3) by (intro moves_ok_change [of "sy_disk Y"]) (auto simp: sys_ok_def split: if_splits)
  moreover have "event_ok (VMove old new)" using p by (auto simp: event_ok_def)
  ultimately show ?thesis
    using ok unfolding sys_ok_def current_def disk_sha_def by auto
qed

lemma deliver_ok:
  assumes env: "index_env_ok E" and ok: "sys_ok E Y db" and q: "sy_queue Y = e # queue"
    and V: "view_fits (ie_lib E) V (Y\<lparr>sy_queue := queue\<rparr>)"
  shows "\<exists>db'. sys_ok E (Y\<lparr>sy_index := handle_event E V now e (sy_index Y), sy_queue := queue\<rparr>) db'"
proof -
  let ?L = "ie_lib E" and ?s = "sy_index Y"
  have live: "live ?s db" and ev: "event_ok e" "list_all event_ok queue"
    and mv: "moves_ok (sy_disk Y) (e # queue)"
    and pend: "\<forall>p \<in> pending_paths ?s. path_ok p" "distinct (map fst (xs_pending ?s))"
    and cur: "\<And>p. markdown_file ?L p \<Longrightarrow> path_ok p \<Longrightarrow>
      stored_sha p db = disk_sha ?L Y p \<or> p \<in> pending_paths ?s \<or> p \<in> event_paths e \<or> p \<in> mentioned queue"
    using ok unfolding sys_ok_def q current_def by auto
  have mvq: "moves_ok (sy_disk Y) queue" using mv by (cases e) auto
  have db: "xs_db ?s = Some db" using live by (simp add: live_def)
  show ?thesis
  proof (cases "\<exists>old new. e = VMove old new")
    case False
    then have path: "event_paths e = {event_path e}" "path_ok (event_path e)"
      using ev(1) by (cases e; auto simp: event_path_def event_ok_def)+
    define s where "s = ?s\<lparr>xs_pending := put_key (event_path e) (e, now) (xs_pending ?s),
        xs_timers := drop_key (event_path e) (xs_timers ?s) @ [(event_path e, now)]\<rparr>"
    have h: "handle_event E V now e ?s = s"
      using False path(2) db by (cases e) (auto simp: handle_event_def s_def event_path_def path_ok_def Let_def)
    have pp: "pending_paths s = insert (event_path e) (pending_paths ?s)"
      using put_key_keys [of "event_path e" "(e, now)" "xs_pending ?s"] by (simp add: pending_paths_def s_def)
    have dist: "distinct (map fst (xs_pending s))"
      using pend(2) put_key_distinct [of "xs_pending ?s"] by (simp add: s_def)
    have "live s db" using live by (simp add: s_def)
    then show ?thesis
      unfolding h using pend dist path ev(2) mvq cur
      by (intro exI [of _ db]) (auto simp: sys_ok_def pp current_def disk_sha_def)
  next
    case True
    then obtain old new where e: "e = VMove old new" by blast
    have p: "path_ok old" "path_ok new" "old \<noteq> new" using ev(1) by (auto simp: event_ok_def e)
    obtain s1 db1 where 1: "apply_delete E old ?s = (Inr (), s1)" "live s1 db1" "same_buffers ?s s1"
      "\<forall>q. stored_sha q db1 = (if q = old then None else stored_sha q db)"
      using apply_delete_live [of old ?s db E] p(1) live by (auto simp: path_ok_def)
    note del = 1(4)
    obtain s2 db2 where 2: "apply_create E V new s1 = (Inr (), s2)" "live s2 db2" "same_buffers s1 s2"
      "\<forall>q. stored_sha q db2 = (if q = new \<and> markdown_file ?L new \<and> vv_read V new \<noteq> None
         then map_option snd (vv_read V new) else stored_sha q db1)"
      using apply_create_live [OF env view_fits_sound [OF V], of new s1 db1] p(2) 1(2)
      by (auto simp: path_ok_def)
    have h: "handle_event E V now e ?s = s2"
      using 1(1) 2(1) db by (simp add: handle_event_def e seq_def)
    have pend2: "xs_pending s2 = xs_pending ?s" using 1(3) 2(3) by (simp add: same_buffers_def)
    have sha: "map_option snd (vv_read V r) = disk_sha ?L Y r \<or> r \<in> mentioned queue" for r
      using view_fits_sha [OF V, of r] by (simp add: disk_sha_def)
    have c: "stored_sha r db2 = disk_sha ?L Y r \<or> r \<in> pending_paths ?s \<or> r \<in> mentioned queue"
      if "markdown_file ?L r" "path_ok r" for r
    proof -
      consider "r = old" | "r = new" | "r \<noteq> old" "r \<noteq> new" by blast
      then show ?thesis
      proof cases
        case 1
        then show ?thesis
          using mv p(3) 2(4) del by (auto simp: e disk_sha_def)
      next
        case r: 2
        show ?thesis
        proof (cases "vv_read V new")
          case None
          then show ?thesis using mv sha [of new] r by (auto simp: e disk_sha_def)
        next
          case (Some d)
          then show ?thesis using 2(4) sha [of new] r that(1) by auto
        qed
      next
        case 3
        then show ?thesis using 1(4) 2(4) cur [OF that] by (simp add: e)
      qed
    qed
    show ?thesis
      unfolding h using pend ev(2) mvq c 2(2)
      by (intro exI [of _ db2]) (auto simp: sys_ok_def current_def disk_sha_def pending_paths_def pend2)
  qed
qed

lemma timer_ok:
  assumes env: "index_env_ok E" and ok: "sys_ok E Y db"
    and V: "view_fits (ie_lib E) V Y" "view_fits (ie_lib E) V' Y"
  shows "\<exists>db'. sys_ok E (Y\<lparr>sy_index := flush_event E V V' p timestamp (sy_index Y)\<rparr>) db'"
proof -
  let ?L = "ie_lib E" and ?s = "sy_index Y"
  have live: "live ?s db" using ok by (simp add: sys_ok_def)
  then have db: "xs_db ?s = Some db" by (simp add: live_def)
  have same: "\<exists>db'. sys_ok E (Y\<lparr>sy_index := ?s\<rparr>) db'"
    using ok by (intro exI [of _ db]) simp
  show ?thesis
  proof (cases "map_of (xs_pending ?s) p")
    case None
    then show ?thesis using same db by (simp add: flush_event_def)
  next
    case (Some et)
    show ?thesis
    proof (cases "snd et = timestamp")
      case False
      then show ?thesis using same db Some by (simp add: flush_event_def case_prod_beta)
    next
      case True
      have "p \<in> pending_paths ?s"
        using map_of_SomeD [OF Some] by (force simp: pending_paths_def)
      then have p: "path_ok p" using ok by (simp add: sys_ok_def)
      let ?s1 = "?s\<lparr>xs_pending := drop_key p (xs_pending ?s), xs_timers := drop_key p (xs_timers ?s)\<rparr>"
      have "live ?s1 db" using live by simp
      then obtain s2 db2 where 2: "apply_current E V V' p ?s1 = (Inr (), s2)" "live s2 db2" "same_buffers ?s1 s2"
        "\<forall>q. q \<noteq> p \<longrightarrow> stored_sha q db2 = stored_sha q db"
        "markdown_file ?L p \<longrightarrow> stored_sha p db2 = flushed_sha V V' p (stored_sha p db)"
        using apply_current_live [OF env view_fits_sound [OF V(2)], of p ?s1 db V] p
        unfolding path_ok_def by blast
      have h: "flush_event E V V' p timestamp ?s = s2"
        using Some True db 2(1) by (simp add: flush_event_def case_prod_beta)
      have pend: "xs_pending s2 = drop_key p (xs_pending ?s)" using 2(3) by (simp add: same_buffers_def)
      have pp: "pending_paths s2 = pending_paths ?s - {p}"
        unfolding pending_paths_def pend using drop_key_keys [of p "xs_pending ?s"] by simp
      have "sys_ok E (Y\<lparr>sy_index := s2\<rparr>) db2"
      proof (rule sys_ok_index [OF ok 2(2)])
        show "pending_paths s2 \<subseteq> pending_paths ?s" using pp by blast
        show "distinct (map fst (xs_pending s2))"
          using ok unfolding pend drop_key_def by (simp add: sys_ok_def distinct_map_filter)
        fix q assume q: "markdown_file ?L q" "path_ok q" "q \<notin> pending_paths s2" "q \<notin> mentioned (sy_queue Y)"
          "q \<notin> pending_paths ?s \<Longrightarrow> current ?L Y db q"
        show "current ?L Y db2 q"
        proof (cases "q = p")
          case True
          then show ?thesis
            using 2(5) q(1,4) flushed_current [OF V, of p "stored_sha p db"] by (simp add: current_def)
        next
          case False
          with q(3,5) pp 2(4) show ?thesis by (simp add: current_def)
        qed
      qed
      then show ?thesis unfolding h by blast
    qed
  qed
qed

lemma flush_events_live:
  assumes env: "index_env_ok E" and ok: "sys_ok E Y db"
    and V: "view_fits (ie_lib E) V Y" "view_fits (ie_lib E) V' Y"
  shows "\<exists>s' db'. flush_events E V V' (sy_index Y) = (Inr (), s') \<and> xs_pending s' = [] \<and>
    sys_ok E (Y\<lparr>sy_index := s'\<rparr>) db'"
proof -
  let ?L = "ie_lib E" and ?s = "sy_index Y"
  let ?paths = "map fst (xs_pending ?s)" and ?s0 = "?s\<lparr>xs_timers := []\<rparr>"
  have live: "live ?s0 db" using ok by (simp add: sys_ok_def)
  have paths: "\<forall>p \<in> set ?paths. sql_text p \<and> p \<noteq> []" "distinct ?paths"
    using ok by (auto simp: sys_ok_def pending_paths_def path_ok_def)
  obtain s' db' where r: "flush_paths E V V' ?paths ?s0 = (Inr (), s')" "live s' db'"
    "xs_pending s' = filter (\<lambda>e. fst e \<notin> set ?paths) (xs_pending ?s)"
    "\<forall>q. q \<notin> set ?paths \<longrightarrow> stored_sha q db' = stored_sha q db"
    "\<forall>q \<in> set ?paths. markdown_file ?L q \<longrightarrow> stored_sha q db' = flushed_sha V V' q (stored_sha q db)"
    using flush_paths_live [OF env view_fits_sound [OF V(2)] paths live, of V] by auto
  have empty: "xs_pending s' = []" unfolding r(3) by (auto simp: filter_empty_conv)
  have "sys_ok E (Y\<lparr>sy_index := s'\<rparr>) db'"
  proof (rule sys_ok_index [OF ok r(2)])
    show "pending_paths s' \<subseteq> pending_paths (sy_index Y)" by (simp add: pending_paths_def empty)
    show "distinct (map fst (xs_pending s'))" by (simp add: empty)
    fix q assume q: "markdown_file (ie_lib E) q" "path_ok q" "q \<notin> mentioned (sy_queue Y)"
      "q \<notin> pending_paths (sy_index Y) \<Longrightarrow> current (ie_lib E) Y db q"
    show "current (ie_lib E) Y db' q"
    proof (cases "q \<in> set ?paths")
      case True
      then show ?thesis
        using bspec [OF r(5) True] q(1,3) flushed_current [OF V, of q "stored_sha q db"]
        by (simp add: current_def)
    next
      case False
      then show ?thesis using r(4) q(4) by (simp add: current_def pending_paths_def)
    qed
  qed
  then show ?thesis using r(1) empty unfolding flush_events_def by blast
qed

lemma same_buffers_pending: "same_buffers s s' \<Longrightarrow> xs_pending s' = xs_pending s"
  by (simp add: same_buffers_def)

lemma vault_rows_ok:
  assumes ok: "sys_ok E Y db" and env: "index_env_ok E" and V: "view_fits (ie_lib E) V Y"
    and T: "tree_fits V Y" "vv_tree V = Some tree" and s: "live s db'" "same_buffers (sy_index Y) s"
    and rows: "\<forall>q. stored_sha q db' = (if q \<in> set (read_notes (ie_lib E) V (tree_files (ie_lib E) tree))
        then map_option snd (vv_read V q) else None)"
  shows "sys_ok E (Y\<lparr>sy_index := s\<rparr>) db'"
proof (rule sys_ok_index [OF ok s(1)])
  show "pending_paths s \<subseteq> pending_paths (sy_index Y)" "distinct (map fst (xs_pending s))"
    using ok by (simp_all add: pending_paths_def same_buffers_pending [OF s(2)] sys_ok_def)
  fix p assume "markdown_file (ie_lib E) p" "p \<notin> mentioned (sy_queue Y)"
  then show "current (ie_lib E) Y db' p"
    using rows_current [OF V T _ rows] env by (auto simp: index_env_ok_def)
qed

lemma rebuild_ok:
  assumes env: "index_env_ok E" and ok: "sys_ok E Y db"
    and V: "view_fits (ie_lib E) V Y" "tree_fits V Y"
  shows "\<exists>db'. sys_ok E (Y\<lparr>sy_index := snd (rebuild E V opened now (sy_index Y))\<rparr>) db'"
proof (cases "vv_tree V")
  case None
  have live: "live (sy_index Y) db" using ok by (simp add: sys_ok_def)
  then have "live (set_unavailable (sy_index Y)) db" by (simp add: live_def set_unavailable_def)
  then have "sys_ok E (Y\<lparr>sy_index := set_unavailable (sy_index Y)\<rparr>) db"
    using ok by (intro sys_ok_index [OF ok]) (auto simp: pending_paths_def set_unavailable_def sys_ok_def)
  then show ?thesis using rebuild_no_tree [OF live None] by auto
next
  case (Some tree)
  have live: "live (sy_index Y) db" using ok by (simp add: sys_ok_def)
  have sound: "tree_sound tree" using V(2) Some by (simp add: tree_fits_def)
  obtain r s' db' where "rebuild E V opened now (sy_index Y) = (Inr r, s')" "live s' db'"
    "same_buffers (sy_index Y) s'"
    "\<forall>q. stored_sha q db' = (if q \<in> set (read_notes (ie_lib E) V (tree_files (ie_lib E) tree))
        then map_option snd (vv_read V q) else None)"
    using rebuild_live [OF env view_fits_sound [OF V(1)] live Some sound, of opened now] by blast
  then show ?thesis
    using vault_rows_ok [OF ok env V Some, of s' db'] by auto
qed

lemma refresh_ok:
  assumes env: "index_env_ok E" and ok: "sys_ok E Y db"
    and V: "view_fits (ie_lib E) V Y" "tree_fits V Y"
  shows "\<exists>db'. sys_ok E (Y\<lparr>sy_index := snd (refresh E V opened now (sy_index Y))\<rparr>) db'"
proof (cases "vv_tree V")
  case None
  then have "refresh E V opened now (sy_index Y) = rebuild E V opened now (sy_index Y)"
    using ok by (simp add: refresh_def open_database_def sys_ok_def live_def)
  then show ?thesis using rebuild_ok [OF env ok V, of opened now] by simp
next
  case (Some tree)
  have live: "live (sy_index Y) db" using ok by (simp add: sys_ok_def)
  have sound: "tree_sound tree" using V(2) Some by (simp add: tree_fits_def)
  obtain r s' db' where "refresh E V opened now (sy_index Y) = (Inr r, s')" "live s' db'"
    "same_buffers (sy_index Y) s'"
    "\<forall>q. stored_sha q db' = (if q \<in> set (read_notes (ie_lib E) V (tree_files (ie_lib E) tree))
        then map_option snd (vv_read V q) else None)"
    using refresh_live [OF env view_fits_sound [OF V(1)] live Some sound, of opened now] by blast
  then show ?thesis
    using vault_rows_ok [OF ok env V Some, of s' db'] by auto
qed

lemma plain_queue:
  "\<forall>e \<in> set queue. \<exists>p. path_ok p \<and> e \<in> {VCreate p, VModify p, VDelete p} \<Longrightarrow>
     moves_ok disk queue \<and> list_all event_ok queue"
  by (induction queue) (fastforce simp: event_ok_def)+

lemma start_ok:
  assumes env: "index_env_ok E" and db: "db_ok fts db"
    and V: "view_fits (ie_lib E) V Y" "tree_fits V Y" "vv_tree V \<noteq> None"
    and q: "\<forall>e \<in> set (sy_queue Y). \<exists>p. path_ok p \<and> e \<in> {VCreate p, VModify p, VDelete p}"
  shows "\<exists>db'. sys_ok E (Y\<lparr>sy_index := snd (refresh E V (Some (db, fts)) now fresh_index)\<rparr>) db'"
proof -
  let ?s = "fresh_index\<lparr>xs_db := Some db, xs_fts := fts\<rparr>"
  have live: "live ?s db" using db by (simp add: live_def fresh_index_def names_ok_def)
  have same: "refresh E V (Some (db, fts)) now fresh_index = refresh E V (Some (db, fts)) now ?s"
    unfolding refresh_def rebuild_def by (simp add: open_database_def fresh_index_def)
  obtain tree where tree: "vv_tree V = Some tree" using V(3) by auto
  have sound: "tree_sound tree" using V(2) tree by (simp add: tree_fits_def)
  obtain r s' db' where r: "refresh E V (Some (db, fts)) now ?s = (Inr r, s')" "live s' db'" "same_buffers ?s s'"
    "\<forall>q. stored_sha q db' = (if q \<in> set (read_notes (ie_lib E) V (tree_files (ie_lib E) tree))
        then map_option snd (vv_read V q) else None)"
    using refresh_live [OF env view_fits_sound [OF V(1)] live tree sound] by blast
  have pend: "xs_pending s' = []" using r(3) by (simp add: same_buffers_def fresh_index_def)
  have "moves_ok (sy_disk Y) (sy_queue Y)" and "list_all event_ok (sy_queue Y)"
    using plain_queue [OF q] by simp_all
  moreover have "current (ie_lib E) Y db' p \<or> p \<in> mentioned (sy_queue Y)" if "markdown_file (ie_lib E) p" for p
    using rows_current [OF V(1,2) tree _ r(4) that] env by (simp add: index_env_ok_def)
  ultimately have "sys_ok E (Y\<lparr>sy_index := s'\<rparr>) db'"
    using r(2) pend by (simp add: sys_ok_def pending_paths_def current_def disk_sha_def)
  then show ?thesis using r(1) same by auto
qed

lemma reach_ok: "index_env_ok E \<Longrightarrow> index_reach E Y \<Longrightarrow> \<exists>db. sys_ok E Y db"
proof (rotate_tac, induction rule: index_reach.induct)
  case (start fts db V Y now)
  then show ?case by (intro start_ok)
next
  case (step Y Z)
  then obtain db where ok: "sys_ok E Y db" by blast
  from \<open>index_step E Y Z\<close> show ?case
  proof cases
    case (touch p e content)
    with touch_ok [OF ok] show ?thesis by blast
  next
    case (rename old new content)
    with rename_ok [OF ok] show ?thesis by blast
  next
    case (deliver e queue V now)
    with deliver_ok [OF step.prems ok] show ?thesis by blast
  next
    case (timer V V' p timestamp)
    with timer_ok [OF step.prems ok] show ?thesis by blast
  next
    case (flush V V')
    with flush_events_live [OF step.prems ok] show ?thesis by fastforce
  next
    case (rebuild V opened now)
    with rebuild_ok [OF step.prems ok] show ?thesis by blast
  next
    case (refresh V opened now)
    with refresh_ok [OF step.prems ok] show ?thesis by blast
  qed
qed

lemma flushed_index_is_exact:
  assumes env: "index_env_ok E" and reach: "index_reach E Y" and quiet: "sy_queue Y = []"
    and V: "view_fits (ie_lib E) V Y" "view_fits (ie_lib E) V' Y"
  shows "\<exists>s' db'. flush_events E V V' (sy_index Y) = (Inr (), s') \<and> xs_pending s' = [] \<and> xs_db s' = Some db' \<and>
    (\<forall>p. markdown_file (ie_lib E) p \<longrightarrow> path_ok p \<longrightarrow>
       stored_sha p db' = map_option (hexdigest (ie_lib E)) (sy_disk Y p))"
proof -
  obtain db where ok: "sys_ok E Y db" using reach_ok [OF env reach] by blast
  obtain s' db' where s': "flush_events E V V' (sy_index Y) = (Inr (), s')" "xs_pending s' = []"
    "sys_ok E (Y\<lparr>sy_index := s'\<rparr>) db'"
    using flush_events_live [OF env ok V] by blast
  then have "xs_db s' = Some db'" "\<forall>p. markdown_file (ie_lib E) p \<longrightarrow> path_ok p \<longrightarrow>
       stored_sha p db' = map_option (hexdigest (ie_lib E)) (sy_disk Y p)"
    using quiet by (auto simp: sys_ok_def live_def current_def disk_sha_def pending_paths_def)
  with s' show ?thesis by blast
qed

section \<open>A small vault\<close>

text \<open>YAML that reads every block as one mapping with three tags, two of them equal up to case.\<close>

definition demo_tag_value :: yvalue where
  "demo_tag_value = YList [YStr [97], YStr [35, 66], YStr [65]]"

definition demo_mapping :: yvalue where
  "demo_mapping = YDict [(YStr (lit ''tags''), demo_tag_value)]"

definition demo_yaml :: yaml_lib where
  "demo_yaml = \<lparr>safe_load = (\<lambda>block. YamlValue demo_mapping), py_str = (\<lambda>v. [])\<rparr>"

definition demo_index_env :: index_env where
  "demo_index_env = \<lparr>ie_lib = demo_lib, ie_yaml = demo_yaml, ie_cap = 100\<rparr>"

lemma sql_ascii_lower: "sql_text s \<Longrightarrow> sql_text (ascii_lower s)"
proof -
  have "utf8_enc_char (ascii_lower_char c) \<noteq> None" if "utf8_enc_char c \<noteq> None" for c
    using that by (cases "65 \<le> c \<and> c \<le> 90") (auto simp: ascii_lower_char_def)
  then show "sql_text s \<Longrightarrow> sql_text (ascii_lower s)"
    by (auto simp: sql_text_set ascii_lower_def)
qed

lemma demo_coerced: "coerce_json_safe demo_yaml demo_mapping = YDict [(YStr (lit ''tags''), demo_tag_value)]"
  by (simp add: demo_mapping_def demo_tag_value_def text_of_def)

lemma demo_tags: "split_tags demo_lib demo_yaml (Some demo_tag_value) = [[97], [66]]"
  by code_simp

lemma demo_frontmatter:
  "parse_frontmatter demo_lib demo_yaml s \<in>
     {no_frontmatter, frontmatter_error Unterminated (Some 1),
      \<lparr>fm_status = FmOk, fm_properties = [(YStr (lit ''tags''), demo_tag_value)], fm_tags = [[97], [66]],
       fm_tags_folded = [[97], [98]], fm_error = None\<rparr>}"
proof -
  have load: "safe_load demo_yaml b = YamlValue demo_mapping" for b by (simp add: demo_yaml_def)
  have fold: "map (casefold demo_lib) [[97], [66]] = [[97], [98]]"
    by (simp add: demo_lib_def ascii_lower_char_def)
  show ?thesis
    unfolding parse_frontmatter_def Let_def load yaml_result.case demo_coerced yvalue.case
    using fold by (simp add: demo_tags split: list.split option.split)
qed

lemma demo_index_env_ok: "index_env_ok demo_index_env"
proof -
  have fold: "casefold demo_lib = ascii_lower" by (simp add: demo_lib_def)
  have "list_all sql_text (fm_tags (parse_frontmatter demo_lib demo_yaml s)) \<and>
      list_all (\<lambda>(k, v). sql_text (key_text k) \<and> json_storable v)
        (fm_properties (parse_frontmatter demo_lib demo_yaml s))" for s
    using demo_frontmatter [of s]
    by (auto simp: key_text_def sql_text_def no_frontmatter_def frontmatter_error_def demo_tag_value_def utf8_enc_char_def)
  then show ?thesis
    by (simp add: index_env_ok_def demo_index_env_def fold sql_ascii_lower)
qed

text \<open>A vault without notes; then one is written and reported, and the index buffers the event.\<close>

definition demo_linked_note :: bytes where
  "demo_linked_note = map of_nat (lit ''[[b]] x'')"

definition demo_disk_view :: "(pystr \<Rightarrow> bytes option) \<Rightarrow> (pystr \<times> bool) list \<Rightarrow> vault_view" where
  "demo_disk_view disk tree = \<lparr>vv_tree = Some tree,
     vv_read = (\<lambda>p. map_option (\<lambda>d. (d, hexdigest demo_lib d)) (disk p))\<rparr>"

definition demo_empty :: index_sys where
  "demo_empty = \<lparr>sy_disk = (\<lambda>_. None), sy_index = fresh_index, sy_queue = []\<rparr>"

definition demo_started :: index_sys where
  "demo_started = demo_empty\<lparr>sy_index :=
     snd (refresh demo_index_env (demo_disk_view (\<lambda>_. None) []) (Some (empty_db, True)) 5 fresh_index)\<rparr>"

definition demo_disk :: "pystr \<Rightarrow> bytes option" where
  "demo_disk = (\<lambda>_. None)(lit ''a.md'' := Some demo_linked_note)"

definition demo_buffered :: index_sys where
  "demo_buffered = demo_started\<lparr>sy_disk := demo_disk,
     sy_index := handle_event demo_index_env (demo_disk_view demo_disk []) 7 (VCreate (lit ''a.md''))
       (sy_index demo_started), sy_queue := []\<rparr>"

lemma demo_view_fits: "sy_disk Y = disk \<Longrightarrow> view_fits demo_lib (demo_disk_view disk tree) Y"
  by (auto simp: view_fits_def view_sound_def demo_disk_view_def option.map_comp comp_def option.map_ident)

lemma demo_lib_simp [simp]: "ie_lib demo_index_env = demo_lib"
  by (simp add: demo_index_env_def)

lemma demo_started_reach: "index_reach demo_index_env demo_started"
  unfolding demo_started_def
proof (rule index_reach.start)
  show "db_ok True empty_db" by (simp add: db_ok_def empty_db_def)
  show "view_fits (ie_lib demo_index_env) (demo_disk_view (\<lambda>_. None) []) demo_empty"
    by (simp add: demo_view_fits demo_empty_def)
  show "tree_fits (demo_disk_view (\<lambda>_. None) []) demo_empty"
    by (simp add: tree_fits_def demo_disk_view_def demo_empty_def tree_sound_def)
  show "vv_tree (demo_disk_view (\<lambda>_. None) []) \<noteq> None" by (simp add: demo_disk_view_def)
  show "\<forall>e \<in> set (sy_queue demo_empty). \<exists>p. path_ok p \<and> e \<in> {VCreate p, VModify p, VDelete p}"
    by (simp add: demo_empty_def)
qed

lemma demo_path_ok: "path_ok (lit ''a.md'')"
  by (simp add: path_ok_def sql_text_set utf8_enc_char_def)

lemma demo_buffered_reach: "index_reach demo_index_env demo_buffered"
proof -
  let ?Y = "demo_started\<lparr>sy_disk := (sy_disk demo_started)(lit ''a.md'' := Some demo_linked_note),
      sy_queue := sy_queue demo_started @ [VCreate (lit ''a.md'')]\<rparr>"
  have s: "sy_disk demo_started = (\<lambda>_. None)" "sy_queue demo_started = []"
    by (simp_all add: demo_started_def demo_empty_def)
  have 1: "index_reach demo_index_env ?Y"
    by (rule index_reach.step [OF demo_started_reach], rule index_step.touch [OF demo_path_ok]) simp
  have "index_step demo_index_env ?Y (?Y\<lparr>sy_index := handle_event demo_index_env
      (demo_disk_view demo_disk []) 7 (VCreate (lit ''a.md'')) (sy_index ?Y), sy_queue := []\<rparr>)"
    by (rule index_step.deliver) (simp_all add: s demo_view_fits demo_disk_def)
  from index_reach.step [OF 1 this] show ?thesis
    by (simp add: demo_buffered_def s demo_disk_def)
qed

section \<open>Properties\<close>



end
