(* ===== verification/NoteQueries.thy ===== *)
theory NoteQueries imports NoteIndex PyNumbers begin

text \<open>
  What reads the derived index: the query methods of \<^verbatim>\<open>server/index/service.py\<close>, and the services over
  them, \<^verbatim>\<open>server/links/service.py\<close>, \<^verbatim>\<open>metadata/service.py\<close> and \<^verbatim>\<open>search/service.py\<close>. The full text
  match of SQLite and \<^verbatim>\<open>round(_, 4)\<close> are the record \<open>search_lib\<close>; a float is a rational number. Time
  stamps and error texts are left out.
\<close>

section \<open>Entries of the index\<close>

definition tags_of_note :: "pystr \<Rightarrow> index_db \<Rightarrow> tag_rec list" where
  "tags_of_note path db = sort_key tg_seq (filter (\<lambda>t. tg_note t = path) (db_tags db))"

definition properties_of_note :: "pystr \<Rightarrow> index_db \<Rightarrow> (yvalue \<times> yvalue) list" where
  "properties_of_note path db =
     map (\<lambda>p. (YStr (fst (snd p)), snd (snd p)))
       (sort_key (\<lambda>p. fst (snd p)) (filter (\<lambda>p. fst p = path) (db_props db)))"

definition ref_kind_of :: "pystr \<Rightarrow> ref_kind" where
  "ref_kind_of t = (if t = lit ''web'' then Web else if t = lit ''embed'' then Embed else Wikilink)"

definition ref_from_row :: "link_rec \<Rightarrow> wiki_ref" where
  "ref_from_row l =
     \<lparr>wr_target = lk_target l, wr_raw = lk_raw l, wr_kind = ref_kind_of (lk_kind l),
      wr_display = lk_display l, wr_section = lk_section l, wr_block = lk_block l,
      wr_context = lk_context l, wr_resolved = lk_resolved l, wr_broken = lk_broken l,
      wr_ambiguous = lk_ambiguous l, wr_candidates = lk_candidates l\<rparr>"

definition outgoing_refs :: "pystr \<Rightarrow> index_db \<Rightarrow> wiki_ref list" where
  "outgoing_refs path db =
     map ref_from_row (sort_key lk_seq (filter (\<lambda>l. lk_source l = path) (db_links db)))"

definition entry_from_row :: "index_db \<Rightarrow> note_rec \<Rightarrow> note_entry" where
  "entry_from_row db n =
     (let path = nt_path n; tags = tags_of_note path db in
      \<lparr>en_path = path, en_sha = nt_sha n, en_title = nt_title n, en_basename = nt_basename n,
       en_text = nt_text n, en_truncated = nt_truncated n, en_tags = map tg_tag tags,
       en_tags_folded = map tg_folded tags, en_properties = properties_of_note path db,
       en_status = nt_status n, en_error = nt_error n, en_outgoing = outgoing_refs path db,
       en_search = nt_search n, en_diagnostic = nt_diagnostic n\<rparr>)"

definition note_at :: "pystr \<Rightarrow> index_db \<Rightarrow> note_rec option" where
  "note_at path db = find (\<lambda>n. nt_path n = path) (db_notes db)"

definition index_entry :: "index_state \<Rightarrow> pystr \<Rightarrow> note_entry option" where
  "index_entry s path =
     (case xs_db s of None \<Rightarrow> None | Some db \<Rightarrow> map_option (entry_from_row db) (note_at path db))"

definition index_all_entries :: "index_state \<Rightarrow> note_entry list" where
  "index_all_entries s =
     (case xs_db s of None \<Rightarrow> []
      | Some db \<Rightarrow> map (entry_from_row db) (sort_key nt_path (db_notes db)))"

definition note_fingerprints :: "index_state \<Rightarrow> pystr set option \<Rightarrow> pystr \<Rightarrow> pystr option" where
  "note_fingerprints s paths =
     (case xs_db s of None \<Rightarrow> (\<lambda>_. None)
      | Some db \<Rightarrow>
          map_of (map (\<lambda>n. (nt_path n, nt_sha n))
            (filter (\<lambda>n. case paths of None \<Rightarrow> True | Some P \<Rightarrow> nt_path n \<in> P) (db_notes db))))"

definition note_count :: "index_state \<Rightarrow> nat" where
  "note_count s = (case xs_db s of None \<Rightarrow> 0 | Some db \<Rightarrow> length (db_notes db))"

definition basenames_noext :: "pylib \<Rightarrow> index_state \<Rightarrow> pystr \<Rightarrow> pystr list" where
  "basenames_noext L s key = xs_noext s (casefold L key)"

definition basenames_full :: "pylib \<Rightarrow> index_state \<Rightarrow> pystr \<Rightarrow> pystr list" where
  "basenames_full L s key = xs_full s (casefold L key)"

definition note_exists :: "index_state \<Rightarrow> pystr \<Rightarrow> bool" where
  "note_exists s path \<longleftrightarrow> (case xs_db s of None \<Rightarrow> False | Some db \<Rightarrow> note_at path db \<noteq> None)"

definition note_title_of :: "index_state \<Rightarrow> pystr \<Rightarrow> pystr option" where
  "note_title_of s path =
     (case xs_db s of None \<Rightarrow> None | Some db \<Rightarrow> map_option nt_title (note_at path db))"

definition note_tag_pairs :: "index_state \<Rightarrow> pystr \<Rightarrow> (pystr \<times> pystr) list" where
  "note_tag_pairs s path =
     (case xs_db s of None \<Rightarrow> []
      | Some db \<Rightarrow> map (\<lambda>t. (tg_tag t, tg_folded t)) (tags_of_note path db))"

definition outgoing_for :: "index_state \<Rightarrow> pystr \<Rightarrow> wiki_ref list" where
  "outgoing_for s path =
     (case xs_db s of None \<Rightarrow> []
      | Some db \<Rightarrow> if note_at path db = None then [] else outgoing_refs path db)"

definition backlink_sources :: "pylib \<Rightarrow> index_state \<Rightarrow> pystr \<Rightarrow> (pystr \<times> wiki_ref) list" where
  "backlink_sources L s path =
     (case xs_db s of None \<Rightarrow> []
      | Some db \<Rightarrow>
          let sources = sort (map (\<lambda>b. fst (snd b)) (filter (\<lambda>b. fst b = path) (db_backs db))) in
          sort_key (\<lambda>item. (casefold L (fst item), wr_raw (snd item)))
            (concat (map (\<lambda>source.
                 map (\<lambda>l. (source, ref_from_row l))
                   (sort_key lk_seq
                     (filter (\<lambda>l. lk_source l = source \<and> lk_resolved l = Some path) (db_links db))))
               (filter (\<lambda>source. source \<noteq> path) sources))))"

definition tags_for :: "pylib \<Rightarrow> index_state \<Rightarrow> pystr \<Rightarrow> pystr list" where
  "tags_for L s folded =
     (case xs_db s of None \<Rightarrow> []
      | Some db \<Rightarrow>
          sort_key (casefold L)
            (map tg_note (filter (\<lambda>t. tg_folded t = casefold L folded) (db_tags db))))"

text \<open>One coherent read of everything the graph needs.\<close>

definition index_snapshot :: "index_state \<Rightarrow> index_error + graph_snapshot" where
  "index_snapshot s =
     (case xs_db s of None \<Rightarrow> Inl IndexUnavailable
      | Some db \<Rightarrow>
          Inr \<lparr>sn_notes = map note_row.truncate (sort_key nt_path (db_notes db)),
               sn_tags = map tag_row.truncate (sort_key (\<lambda>t. (tg_note t, tg_seq t)) (db_tags db)),
               sn_links = map link_row.truncate (sort_key (\<lambda>l. (lk_source l, lk_seq l)) (db_links db))\<rparr>)"

definition graph_totals :: "index_state \<Rightarrow> index_error + nat \<times> nat \<times> nat" where
  "graph_totals s =
     (case xs_db s of None \<Rightarrow> Inl IndexUnavailable
      | Some db \<Rightarrow> Inr (length (db_notes db), card (tg_folded ` set (db_tags db)), length (db_links db)))"

section \<open>Search primitives\<close>

record search_candidate =
  sc_path :: pystr
  sc_title :: pystr
  sc_basename :: pystr
  sc_text :: pystr
  sc_tags_folded :: pystr
  sc_score :: rat

text \<open>
  \<open>fts_match\<close> answers the row ids a \<^verbatim>\<open>MATCH\<close> finds with their \<^verbatim>\<open>bm25\<close> value, or nothing when the
  statement fails.
\<close>

record search_lib =
  fts_match :: "pystr \<Rightarrow> fts_row list \<Rightarrow> (nat \<times> rat) list option"
  round4 :: "rat \<Rightarrow> rat"

definition searchable :: "note_rec \<Rightarrow> bool" where
  "searchable n \<longleftrightarrow> nt_status n \<noteq> FmUnreadable \<and> nt_diagnostic n = None"

definition candidate_of :: "note_rec \<Rightarrow> pystr \<Rightarrow> rat \<Rightarrow> search_candidate" where
  "candidate_of n tags score =
     \<lparr>sc_path = nt_path n, sc_title = nt_title n, sc_basename = nt_basename n, sc_text = nt_text n,
      sc_tags_folded = tags, sc_score = score\<rparr>"

definition fts_search :: "search_lib \<Rightarrow> index_state \<Rightarrow> pystr \<Rightarrow> search_candidate list" where
  "fts_search F s expr =
     (case xs_db s of None \<Rightarrow> []
      | Some db \<Rightarrow>
          if \<not> xs_fts s \<or> expr = [] then []
          else
            (case fts_match F expr (db_fts db) of
               None \<Rightarrow> []
             | Some hits \<Rightarrow>
                 sort_key sc_score
                   (concat (map (\<lambda>(rowid, score).
                      map (\<lambda>n. candidate_of n [] score)
                        (filter (\<lambda>n. nt_rowid n = rowid \<and> searchable n) (db_notes db))) hits))))"

definition contains_term :: "pystr \<Rightarrow> pystr \<Rightarrow> bool" where
  "contains_term corpus term \<longleftrightarrow> find_sub corpus term 0 \<noteq> None"

definition substring_search :: "index_state \<Rightarrow> pystr list \<Rightarrow> search_candidate list" where
  "substring_search s terms =
     (case xs_db s of None \<Rightarrow> []
      | Some db \<Rightarrow>
          if terms = [] then []
          else
            map (\<lambda>n. candidate_of n
                   (join_with 32 (map tg_folded (filter (\<lambda>t. tg_note t = nt_path n) (db_tags db)))) 0)
              (sort_key nt_path
                (filter (\<lambda>n. searchable n \<and> list_all (contains_term (nt_search n)) terms) (db_notes db))))"

section \<open>The search service\<close>

datatype query_error = NotReadyQuery | NoSuchNote | BadQuery | VaultProblem

definition MAX_QUERY_LENGTH :: nat where "MAX_QUERY_LENGTH = 256"
definition MAX_TERM_LENGTH :: nat where "MAX_TERM_LENGTH = 64"
definition SNIPPET_LEFT :: nat where "SNIPPET_LEFT = 40"
definition SNIPPET_RIGHT :: nat where "SNIPPET_RIGHT = 80"

definition control_char :: "nat \<Rightarrow> bool" where
  "control_char c \<longleftrightarrow> c \<le> 8 \<or> c = 11 \<or> c = 12 \<or> 14 \<le> c \<and> c \<le> 31 \<or> c = 127"

definition validate_search :: "pystr \<Rightarrow> query_error + unit" where
  "validate_search query =
     check (strip query \<noteq> [] \<and> length query \<le> MAX_QUERY_LENGTH \<and> \<not> list_ex control_char query \<and>
       list_all (\<lambda>t. length t \<le> MAX_TERM_LENGTH) (split_words query)) BadQuery"

definition fts_safe_char :: "nat \<Rightarrow> bool" where
  "fts_safe_char c \<longleftrightarrow> ascii_letter c \<or> 48 \<le> c \<and> c \<le> 57 \<or> c = 46 \<or> c = 95 \<or> c = 45"

definition fts_safe_term :: "pystr \<Rightarrow> bool" where
  "fts_safe_term term \<longleftrightarrow>
     (case term of [] \<Rightarrow> False
      | c # r \<Rightarrow> (ascii_letter c \<or> 48 \<le> c \<and> c \<le> 57) \<and> list_all fts_safe_char r)"

text \<open>The earliest match: of the terms found at the same place the first one counts.\<close>

fun best_match :: "pystr \<Rightarrow> pystr list \<Rightarrow> (nat \<times> nat) option \<Rightarrow> (nat \<times> nat) option" where
  "best_match folded [] best = best"
| "best_match folded (term # terms) best =
     best_match folded terms
       (case find_sub folded term 0 of
          None \<Rightarrow> best
        | Some i \<Rightarrow>
            (case best of
               None \<Rightarrow> Some (i, length term)
             | Some (j, n) \<Rightarrow> if i < j then Some (i, length term) else Some (j, n)))"

text \<open>The scan for a blank, for at most \<open>steps\<close> characters.\<close>

fun seek_blank :: "pystr \<Rightarrow> nat \<Rightarrow> nat \<Rightarrow> nat" where
  "seek_blank body start 0 = start"
| "seek_blank body start (Suc steps) =
     (if 0 < start \<and> start < length body \<and> body ! start \<notin> {32, 9, 10}
      then seek_blank body (start + 1) steps else start)"

definition snippet_of :: "pylib \<Rightarrow> pystr \<Rightarrow> pystr list \<Rightarrow> pystr" where
  "snippet_of L body terms =
     (if body = [] then []
      else
        (case best_match (casefold L body) terms None of
           None \<Rightarrow> []
         | Some (index, term_len) \<Rightarrow>
             let original = index - SNIPPET_LEFT;
                 stop = min (length body) (index + term_len + SNIPPET_RIGHT);
                 start = seek_blank body original 30;
                 start = (if index < start then original else start);
                 start = min start (length body);
                 stop = max start (min stop (length body));
                 window = join_with 32 (split_words (slice body start stop)) in
             (if 0 < start then [8230] else []) @ window @ (if stop < length body then [8230] else [])))"

record search_hit =
  sh_path :: pystr
  sh_title :: pystr
  sh_snippet :: pystr
  sh_terms :: "pystr list"
  sh_score :: rat

record search_response =
  sr_query :: pystr
  sr_hits :: "search_hit list"
  sr_total :: nat
  sr_degraded :: bool
  sr_skipped :: nat

definition hit_of :: "pylib \<Rightarrow> pystr list \<Rightarrow> search_candidate \<Rightarrow> rat \<Rightarrow> search_hit" where
  "hit_of L terms item score =
     \<lparr>sh_path = sc_path item, sh_title = sc_title item, sh_snippet = snippet_of L (sc_text item) terms,
      sh_terms = terms, sh_score = score\<rparr>"

definition hit_from_fts :: "pylib \<Rightarrow> search_lib \<Rightarrow> pystr list \<Rightarrow> search_candidate \<Rightarrow> search_hit" where
  "hit_from_fts L F terms item = hit_of L terms item (round4 F (- sc_score item))"

definition substring_score :: "pylib \<Rightarrow> pystr list \<Rightarrow> search_candidate \<Rightarrow> rat" where
  "substring_score L terms item =
     (let tag_list = (if sc_tags_folded item = [] then [] else split_on 32 (sc_tags_folded item)) in
      (if list_ex (contains_term (casefold L (sc_basename item))) terms then 4 else 0) +
      (if list_ex (contains_term (casefold L (sc_title item))) terms then 2 else 0) +
      (if list_ex (\<lambda>term. list_ex (\<lambda>tag. contains_term tag term) tag_list) terms then 1 else 0) +
      of_nat (length terms))"

definition query_terms :: "pylib \<Rightarrow> pystr \<Rightarrow> pystr list" where
  "query_terms L query = rev (remdups (rev (map (casefold L) (split_words query))))"

definition match_expr :: "pystr list \<Rightarrow> pystr" where
  "match_expr terms = join_with 32 (map (\<lambda>t. 34 # t @ [34]) terms)"

definition search_hits :: "pylib \<Rightarrow> search_lib \<Rightarrow> index_state \<Rightarrow> pystr list \<Rightarrow> search_hit list" where
  "search_hits L F s terms =
     (let fts_hits = (if xs_fts s \<and> xs_db s \<noteq> None \<and> list_all fts_safe_term terms
                      then map (hit_from_fts L F terms) (fts_search F s (match_expr terms)) else []) in
      if fts_hits \<noteq> [] then fts_hits
      else map (\<lambda>item. hit_of L terms item (substring_score L terms item)) (substring_search s terms))"

definition search_notes :: "pylib \<Rightarrow> search_lib \<Rightarrow> index_state \<Rightarrow> pystr \<Rightarrow> query_error + search_response" where
  "search_notes L F s query =
     rbind (validate_search query) (\<lambda>_.
     rbind (check (assert_ready s = Inr ()) NotReadyQuery) (\<lambda>_.
       let hits = sort_key (\<lambda>h. (- sh_score h, casefold L (sh_path h)))
                    (search_hits L F s (query_terms L query));
           skipped = xs_skipped s + xs_failed s in
       Inr \<lparr>sr_query = query, sr_hits = hits, sr_total = length hits, sr_degraded = 0 < skipped,
            sr_skipped = skipped\<rparr>))"

section \<open>Links\<close>

record links_response =
  lr_path :: pystr
  lr_outgoing :: "wiki_ref list"
  lr_broken :: nat

definition links_outgoing :: "index_state \<Rightarrow> pystr \<Rightarrow> query_error + links_response" where
  "links_outgoing s path =
     rbind (check (assert_ready s = Inr ()) NotReadyQuery) (\<lambda>_.
       case index_entry s path of
         None \<Rightarrow> Inl NoSuchNote
       | Some e \<Rightarrow>
           Inr \<lparr>lr_path = path, lr_outgoing = en_outgoing e,
                lr_broken = length (filter wr_broken (en_outgoing e))\<rparr>)"

record backlink_ref =
  bl_source :: pystr
  bl_title :: pystr
  bl_text :: "pystr option"

definition links_backlinks :: "pylib \<Rightarrow> index_state \<Rightarrow> pystr \<Rightarrow> query_error + backlink_ref list" where
  "links_backlinks L s path =
     rbind (check (assert_ready s = Inr ()) NotReadyQuery) (\<lambda>_.
       if index_entry s path = None then Inl NoSuchNote
       else
         Inr (map (\<lambda>(source, r).
                \<lparr>bl_source = source,
                 bl_title = (case index_entry s source of None \<Rightarrow> source | Some e \<Rightarrow> en_title e),
                 bl_text = wr_context r\<rparr>) (backlink_sources L s path)))"

section \<open>Metadata\<close>

record note_metadata =
  nm_path :: pystr
  nm_title :: pystr
  nm_status :: fm_status
  nm_properties :: "(yvalue \<times> yvalue) list"
  nm_tags :: "pystr list"
  nm_error :: "(fm_kind \<times> nat option) option"

definition metadata_get :: "index_env \<Rightarrow> vault_view \<Rightarrow> pystr \<Rightarrow> query_error + note_metadata" where
  "metadata_get E V path =
     (case vv_read V path of
        None \<Rightarrow> Inl VaultProblem
      | Some (data, _) \<Rightarrow>
          let stem = basename_no_extension path in
          (case utf8_decode data of
             None \<Rightarrow>
               Inr \<lparr>nm_path = path, nm_title = stem, nm_status = FmUnreadable, nm_properties = [],
                    nm_tags = [], nm_error = Some (Undecodable, None)\<rparr>
           | Some content \<Rightarrow>
               let fm = parse_frontmatter (ie_lib E) (ie_yaml E) content in
               Inr \<lparr>nm_path = path, nm_title = derive_title (strip_frontmatter content) stem,
                    nm_status = fm_status fm, nm_properties = fm_properties fm, nm_tags = fm_tags fm,
                    nm_error = fm_error fm\<rparr>))"

end
