(* ===== verification/NoteProperties.thy ===== *)
theory NoteProperties imports IndexProperties NoteQueries Patches "HOL-Library.Code_Target_Nat" begin

text \<open>
  Notes, links and entries: what the scanner of links returns, which file a link resolves to, that the
  index answers with the entry it was given, that a rebuild does not depend on what was there before, and
  what stops one.
\<close>

section \<open>Links are slices of the note\<close>

lemma find_link_opener:
  "find_link s i = Some (start, stop) \<Longrightarrow>
     starts_with (drop (start - i) s) [91, 91] \<or> starts_with (drop (start - i) s) [33, 91, 91]"
proof (induction s i rule: find_link.induct)
  case (2 c s i)
  show ?case
  proof (cases "starts_with (c # s) [33, 91, 91] \<or> starts_with (c # s) [91, 91]")
    case True
    with 2 show ?thesis by (auto split: if_splits)
  next
    case False
    with "2.prems" have f: "find_link s (Suc i) = Some (start, stop)" by simp
    then have "Suc i \<le> start" using find_link_bounds by blast
    with "2.IH" f False show ?thesis by (auto simp: Suc_diff_le dest: le_Suc_ex)
  qed
qed simp

definition link_span :: "pystr \<Rightarrow> (nat \<times> nat) list \<Rightarrow> nat \<times> nat \<Rightarrow> bool" where
  "link_span s ranges ab \<longleftrightarrow>
     (case ab of (a, b) \<Rightarrow>
        a < b \<and> b \<le> length s \<and> \<not> is_inside a ranges \<and> slice s (b - 2) b = [93, 93] \<and>
        (starts_with (drop a s) [91, 91] \<or> starts_with (drop a s) [33, 91, 91]))"

lemma scan_links_spans:
  "\<exists>spans. map wr_raw (scan_links ranges s position) = map (\<lambda>(a, b). slice s a b) spans \<and>
     sorted_wrt (\<lambda>x y. snd x \<le> fst y) spans \<and> list_all (link_span s ranges) spans \<and>
     list_all (\<lambda>x. position \<le> fst x) spans"
proof (induction ranges s position rule: scan_links.induct)
  case (1 ranges s position)
  show ?case
  proof (cases "find_link (drop position s) position")
    case None
    then show ?thesis by (subst scan_links.simps) (auto intro: exI [of _ "[]"])
  next
    case (Some sp)
    obtain start stop where sp: "sp = (start, stop)" by (cases sp)
    note f = Some [unfolded sp]
    have b: "position \<le> start" "start + 2 \<le> stop" "position < stop" "stop \<le> length s"
      using find_link_bounds [OF f] find_link_less [OF f] by auto
    have opener: "starts_with (drop start s) [91, 91] \<or> starts_with (drop start s) [33, 91, 91]"
      using find_link_opener [OF f] b(1) by simp
    have weaken: "list_all (\<lambda>x. position \<le> fst x) spans" if "list_all (\<lambda>x. p \<le> fst x) spans" "position \<le> p"
      for p and spans :: "(nat \<times> nat) list"
      using that by (auto simp: list_all_iff)
    show ?thesis
    proof (cases "is_inside start ranges")
      case True
      then show ?thesis
        using 1(1) [OF f refl True] weaken b by (subst scan_links.simps) (fastforce simp: f)
    next
      case outside: False
      show ?thesis
      proof (cases "find_sub s [93, 93] stop")
        case None
        then show ?thesis
          by (subst scan_links.simps) (auto simp: f outside intro: exI [of _ "[]"])
      next
        case (Some close)
        have c: "stop \<le> close" "close + 2 \<le> length s" "starts_with (drop close s) [93, 93]"
          using find_sub_Some [OF Some] by auto
        show ?thesis
        proof (cases "strip (slice s stop close) = []")
          case True
          then show ?thesis
            using 1(2) [OF f refl outside Some True] weaken b c
            by (subst scan_links.simps) (fastforce simp: f outside Some)
        next
          case False
          obtain spans where IH: "map wr_raw (scan_links ranges s (close + 2)) = map (\<lambda>(a, b). slice s a b) spans"
              "sorted_wrt (\<lambda>x y. snd x \<le> fst y) spans" "list_all (link_span s ranges) spans"
              "list_all (\<lambda>x. close + 2 \<le> fst x) spans"
            using 1(3) [OF f refl outside Some False] by blast
          have close: "slice s close (close + 2) = [93, 93]"
            using c(3) by (simp add: slice_def starts_with_def numeral_2_eq_2)
          have "link_span s ranges (start, close + 2)"
            using b c outside opener close by (simp add: link_span_def)
          moreover have "wr_raw (link_ref s start stop close) = slice s start (close + 2)"
            by (simp add: link_ref_def Let_def split: prod.split)
          ultimately show ?thesis
            using IH False b c
            by (subst scan_links.simps, intro exI [of _ "(start, close + 2) # spans"])
              (auto simp: f outside Some list_all_iff)
        qed
      qed
    qed
  qed
qed

text \<open>
  Every reference of a note is a verbatim slice of it from an opener to the next \<^verbatim>\<open>]]\<close>, the slices
  are in the order of the note and do not overlap, and none of them starts inside code.
\<close>

theorem links_are_slices:
  "\<exists>spans. map wr_raw (parse_wikilinks s) = map (\<lambda>(a, b). slice s a b) spans \<and>
     sorted_wrt (\<lambda>x y. snd x \<le> fst y) spans \<and> list_all (link_span s (code_ranges s)) spans"
  using scan_links_spans [of "code_ranges s" s 0]
  by (cases "s = []") (auto simp: parse_wikilinks_def intro: exI [of _ "[]"])

section \<open>The file a link names\<close>

definition link_matches :: "pylib \<Rightarrow> pystr list \<Rightarrow> pystr \<Rightarrow> pystr set" where
  "link_matches L files target =
     {p \<in> set files.
        if 47 \<in> set target
        then full_key L p \<in> suffix_variants L (base_name target) \<and> casefold L p \<in> suffix_variants L target
        else full_key L p = casefold L target \<or>
          markdown_file L p \<and> noext_key L p = casefold L (strip_extension target)}"

lemma candidates_are_matches:
  "link_candidates L (full_map L files) (noext_map L files) target = link_matches L files target"
  by (auto simp: link_candidates_def link_matches_def full_map_def noext_map_def)

lemma finite_matches: "finite (link_matches L files target)"
  by (simp add: link_matches_def)

lemma by_casefold_least:
  assumes "by_casefold L A = p # ps" "finite A"
  shows "p \<in> A" "\<forall>q \<in> A. casefold L p \<le> casefold L q" "ps \<noteq> [] \<longleftrightarrow> 1 < card A"
proof -
  have s: "set (p # ps) = A" using assms by_casefold_set by metis
  then show "p \<in> A" by auto
  have "sorted (map (casefold L) (p # ps))"
    using sorted_sort_key [of "casefold L"] assms(1) unfolding by_casefold_def by metis
  then show "\<forall>q \<in> A. casefold L p \<le> casefold L q" using s by auto
  have "length (by_casefold L A) = card A" using assms(2) by (simp add: by_casefold_def)
  then show "ps \<noteq> [] \<longleftrightarrow> 1 < card A" using assms(1) by (cases ps) auto
qed

lemma resolve_ref_cases:
  fixes L :: pylib and files :: "pystr list" and source :: pystr and r :: wiki_ref
  assumes "wr_kind r \<noteq> Web" "strip (wr_target r) \<noteq> []"
  defines "M \<equiv> link_matches L files (strip (wr_target r))"
  defines "r' \<equiv> resolve_ref L (full_map L files) (noext_map L files) source r"
  shows "(wr_broken r' \<longleftrightarrow> M = {}) \<and>
    (M \<noteq> {} \<longrightarrow> (\<exists>p \<in> M. wr_resolved r' = Some p \<and> (\<forall>q \<in> M. casefold L p \<le> casefold L q)) \<and>
       (wr_ambiguous r' \<longleftrightarrow> 1 < card M) \<and> set (wr_candidates r') = (if 1 < card M then M else {}))"
proof -
  have fin: "finite M" by (simp add: M_def finite_matches)
  show ?thesis
  proof (cases "by_casefold L M")
    case Nil
    then have "M = {}" using by_casefold_set [OF fin, of L] by simp
    with Nil assms(1,2) show ?thesis
      by (simp add: r'_def resolve_ref_def candidates_are_matches M_def Let_def)
  next
    case (Cons p ps)
    note least = by_casefold_least [OF Cons fin]
    have "set (p # ps) = M" using by_casefold_set [OF fin, of L] Cons by simp
    moreover have "r' = r\<lparr>wr_resolved := Some p, wr_broken := False, wr_ambiguous := (ps \<noteq> []),
        wr_candidates := (if ps \<noteq> [] then p # ps else [])\<rparr>"
      using Cons assms(1,2) by (simp add: r'_def resolve_ref_def candidates_are_matches M_def Let_def)
    ultimately show ?thesis using least by auto
  qed
qed

text \<open>
  C37. A link that is not a URL is broken exactly when no file of the vault has its name; otherwise it
  resolves to a file of that name that comes first by case-folded path, and it is ambiguous exactly when
  there are several, which are then its candidates.
\<close>

theorem link_resolves_to_first_match:
  assumes "wr_kind r \<noteq> Web" and "strip (wr_target r) \<noteq> []"
  shows "(wr_broken (resolve_ref L (full_map L files) (noext_map L files) source r) \<longleftrightarrow>
            link_matches L files (strip (wr_target r)) = {}) \<and>
    (link_matches L files (strip (wr_target r)) \<noteq> {} \<longrightarrow>
       (\<exists>p \<in> link_matches L files (strip (wr_target r)).
          wr_resolved (resolve_ref L (full_map L files) (noext_map L files) source r) = Some p \<and>
          (\<forall>q \<in> link_matches L files (strip (wr_target r)). casefold L p \<le> casefold L q)) \<and>
       (wr_ambiguous (resolve_ref L (full_map L files) (noext_map L files) source r) \<longleftrightarrow>
          1 < card (link_matches L files (strip (wr_target r)))) \<and>
       set (wr_candidates (resolve_ref L (full_map L files) (noext_map L files) source r)) =
         (if 1 < card (link_matches L files (strip (wr_target r)))
          then link_matches L files (strip (wr_target r)) else {}))"
  by (rule resolve_ref_cases [OF assms])

text \<open>The root note \<^verbatim>\<open>b.md\<close>, written as its path, resolves to \<^verbatim>\<open>a/b.md\<close>, which comes first.\<close>

definition demo_ref :: wiki_ref where
  "demo_ref = link_ref (lit ''[[b.md]]'') 0 2 6"

lemma link_resolves_to_first_match_witness:
  "wr_broken (resolve_ref demo_lib (full_map demo_lib [lit ''b.md'', lit ''a/b.md''])
      (noext_map demo_lib [lit ''b.md'', lit ''a/b.md'']) [] demo_ref) = False \<and>
   wr_resolved (resolve_ref demo_lib (full_map demo_lib [lit ''b.md'', lit ''a/b.md''])
      (noext_map demo_lib [lit ''b.md'', lit ''a/b.md'']) [] demo_ref) = Some (lit ''a/b.md'')"
proof -
  let ?files = "[lit ''b.md'', lit ''a/b.md'']"
  have k: "wr_kind demo_ref \<noteq> Web" and t: "strip (wr_target demo_ref) = lit ''b.md''"
    by code_simp+
  have m: "p \<in> link_matches demo_lib ?files (lit ''b.md'')" if "p \<in> set ?files" for p
  proof -
    have "list_all (\<lambda>p. full_key demo_lib p = casefold demo_lib (lit ''b.md'')) ?files" by code_simp
    then show ?thesis using that by (auto simp: link_matches_def)
  qed
  have less: "casefold demo_lib (lit ''a/b.md'') < casefold demo_lib (lit ''b.md'')" by code_simp
  obtain p where p: "p \<in> link_matches demo_lib ?files (lit ''b.md'')"
      "wr_resolved (resolve_ref demo_lib (full_map demo_lib ?files) (noext_map demo_lib ?files) [] demo_ref) = Some p"
      "\<forall>q \<in> link_matches demo_lib ?files (lit ''b.md''). casefold demo_lib p \<le> casefold demo_lib q"
      "\<not> wr_broken (resolve_ref demo_lib (full_map demo_lib ?files) (noext_map demo_lib ?files) [] demo_ref)"
    using link_resolves_to_first_match [of demo_ref demo_lib ?files "[]"] k t m [of "lit ''b.md''"]
    by (metis emptyE list.set_intros(1) lit_Cons list.distinct(1))
  have "p \<in> set ?files" using p(1) by (simp add: link_matches_def)
  moreover have "p \<noteq> lit ''b.md''"
  proof
    assume "p = lit ''b.md''"
    then show False using p(3) m [of "lit ''a/b.md''"] less by (metis leD list.set_intros(1,2))
  qed
  ultimately show ?thesis using p(2,4) by auto
qed

section \<open>Rows read back as entries\<close>

lemma ref_kind_text: "ref_kind_of (kind_text k) = k"
  by (cases k) (simp_all add: ref_kind_of_def)

lemma ref_from_link_of: "ref_from_row (link_of path i r) = r"
  by (cases r) (simp add: ref_from_row_def link_of_def ref_kind_text)

lemma sort_key_enumerate:
  assumes "\<And>i x. f (g (i, x)) = i"
  shows "sort_key f (map g (List.enumerate n xs)) = map g (List.enumerate n xs)"
proof (rule sort_key_id_if_sorted)
  have "f (g x) = fst x" for x using assms [of "fst x" "snd x"] by simp
  then have "map f (map g (List.enumerate n xs)) = map fst (List.enumerate n xs)" by (simp add: comp_def)
  then show "sorted (map f (map g (List.enumerate n xs)))" by simp
qed

definition sorted_properties :: "note_entry \<Rightarrow> note_entry" where
  "sorted_properties e = e\<lparr>en_properties := sort_key (\<lambda>(k, v). key_text k) (en_properties e)\<rparr>"

definition entry_shaped :: "pylib \<Rightarrow> note_entry \<Rightarrow> bool" where
  "entry_shaped L e \<longleftrightarrow> entry_keys_ok L e \<and> en_tags_folded e = map (casefold L) (en_tags e) \<and>
     (\<forall>k \<in> fst ` set (en_properties e). \<exists>s. k = YStr s)"

lemma properties_text_keys: "\<forall>k \<in> fst ` set (fm_properties (parse_frontmatter L Y s)). \<exists>t. k = YStr t"
proof -
  have e: "fm_properties (frontmatter_error k l) = []" "fm_properties no_frontmatter = []" for k l
    by (simp_all add: frontmatter_error_def no_frontmatter_def)
  show ?thesis
    unfolding parse_frontmatter_def Let_def
    using coerced_keys(2) by (auto simp: e split: list.split option.split yaml_result.split yvalue.split) blast?
qed

lemma build_entry_shaped: "entry_shaped (ie_lib E) (build_entry E full noext path data)"
proof -
  have "en_tags_folded (build_entry E full noext path data) =
      map (casefold (ie_lib E)) (en_tags (build_entry E full noext path data))"
    by (auto simp: build_entry_def unreadable_entry_def entry_from_text_def Let_def
        parse_frontmatter_distinct(2) split: option.split)
  moreover have "\<forall>k \<in> fst ` set (en_properties (build_entry E full noext path data)). \<exists>s. k = YStr s"
    using properties_text_keys
    by (auto simp: build_entry_def unreadable_entry_def entry_from_text_def Let_def split: option.split) 
  ultimately show ?thesis by (simp add: entry_shaped_def build_entry_keys_ok)
qed

lemma filter_new:
  "(\<And>x. x \<in> set xs \<Longrightarrow> \<not> P x) \<Longrightarrow> (\<And>y. y \<in> set ys \<Longrightarrow> P y) \<Longrightarrow> filter P (xs @ ys) = ys"
  by (simp add: filter_empty_conv filter_id_conv)

lemma props_read_back:
  assumes strs: "\<forall>k \<in> fst ` set (en_properties e). \<exists>s. k = YStr s"
  shows "map (\<lambda>p. (YStr (fst (snd p)), snd (snd p))) (sort_key (\<lambda>p. fst (snd p)) (prop_recs e)) =
    sort_key (\<lambda>(k, v). key_text k) (en_properties e)"
proof -
  let ?kt = "\<lambda>(k, v :: yvalue). key_text k" and ?ps = "sort_key (\<lambda>(k, v). key_text k) (en_properties e)"
  have m: "map (\<lambda>p. fst (snd p)) (prop_recs e) = map ?kt ?ps"
    unfolding prop_recs_def map_map by (rule map_cong) (auto simp: comp_def)
  have "sort_key (\<lambda>p. fst (snd p)) (prop_recs e) = prop_recs e"
    by (rule sort_key_id_if_sorted) (simp add: m)
  moreover have "map (\<lambda>p. (YStr (fst (snd p)), snd (snd p))) (prop_recs e) = ?ps"
    unfolding prop_recs_def map_map
    by (rule map_idI) (use strs in \<open>force simp: key_text_def\<close>)
  ultimately show ?thesis by simp
qed

lemma entry_from_new_row:
  assumes ok: "db_ok fts db" and new: "en_path e \<notin> nt_path ` set (db_notes db)" and shape: "entry_shaped L e"
  defines "db' \<equiv> with_entry L fts e db"
  shows "map_option (entry_from_row db') (note_at (en_path e) db') = Some (sorted_properties e)"
proof -
  note d = db_okD [OF ok]
  have keys: "entry_keys_ok L e" and folded: "en_tags_folded e = map (casefold L) (en_tags e)"
    and strs: "\<forall>k \<in> fst ` set (en_properties e). \<exists>s. k = YStr s"
    using shape by (simp_all add: entry_shaped_def)
  note k = entry_keysD [OF keys]
  have ft: "folded_tags L e = en_tags_folded e"
    by (cases "en_tags e") (simp_all add: folded_tags_def folded)
  have at: "note_at (en_path e) db' = Some (note_of (next_rowid (db_notes db)) e)"
  proof -
    have "find (\<lambda>n. nt_path n = en_path e) (db_notes db) = None"
      using new by (simp add: find_None_iff) (metis image_eqI)
    then show ?thesis by (simp add: note_at_def db'_def with_entry_def Let_def find_append)
  qed
  have tables: "db_tags db' = db_tags db @ tag_recs L e" "db_props db' = db_props db @ prop_recs e"
      "db_links db' = db_links db @ link_recs e"
    by (simp_all add: db'_def with_entry_def Let_def)
  have "filter (\<lambda>t. tg_note t = en_path e) (db_tags db') = tag_recs L e"
    unfolding tables
    by (rule filter_new) (metis d(7) new, simp add: tag_recs_keys(2) [OF k(1)])
  then have tags: "tags_of_note (en_path e) db' = tag_recs L e"
    unfolding tags_of_note_def tag_recs_def by (simp only:) (rule sort_key_enumerate, simp add: case_prod_beta)
  have "map tg_tag (tag_recs L e) = en_tags e" "map tg_folded (tag_recs L e) = en_tags_folded e"
    by (rule nth_equalityI; simp add: tag_recs_def ft folded nth_enumerate_eq case_prod_beta)+
  moreover have "filter (\<lambda>l. lk_source l = en_path e) (db_links db') = link_recs e"
    unfolding tables
    by (rule filter_new) (metis d(9) new, simp add: link_recs_keys(2))
  then have "outgoing_refs (en_path e) db' = map ref_from_row (link_recs e)"
    unfolding outgoing_refs_def link_recs_def
    by (simp only:) (subst sort_key_enumerate, simp_all add: link_of_def)
  then have "outgoing_refs (en_path e) db' = en_outgoing e"
    by (simp add: link_recs_def comp_def case_prod_beta ref_from_link_of)
  moreover have "filter (\<lambda>p. fst p = en_path e) (db_props db') = prop_recs e"
    unfolding tables
    by (rule filter_new) (metis d(8) new, simp add: prop_recs_keys(2) [OF k(2)])
  then have "properties_of_note (en_path e) db' = sort_key (\<lambda>(k, v). key_text k) (en_properties e)"
    by (simp only: properties_of_note_def props_read_back [OF strs])
  ultimately show ?thesis
    unfolding at by (simp add: entry_from_row_def tags sorted_properties_def note_of_def Let_def)
qed

lemma entry_from_row_sync:
  "entry_from_row (sync_outgoing_backlinks path db) = entry_from_row db"
  "note_at p (sync_outgoing_backlinks path db) = note_at p db"
  by (simp_all add: fun_eq_iff entry_from_row_def tags_of_note_def properties_of_note_def outgoing_refs_def note_at_def
      sync_outgoing_backlinks_def Let_def)

lemma refresh_basenames_names:
  "xs_full (refresh_basenames L p s\<lparr>xs_db := d\<rparr>) = xs_full (refresh_basenames L p s)"
  "xs_noext (refresh_basenames L p s\<lparr>xs_db := d\<rparr>) = xs_noext (refresh_basenames L p s)"
  "xs_db (refresh_basenames L p s\<lparr>xs_db := d\<rparr>) = d"
  by simp_all


definition demo_live :: index_state where
  "demo_live = fresh_index\<lparr>xs_db := Some empty_db, xs_fts := True\<rparr>"

lemma demo_live: "live demo_live empty_db"
  by (simp add: live_def demo_live_def fresh_index_def names_ok_def db_ok_def empty_db_def)

lemma wr_target_resolve: "wr_target (resolve_ref L f g p r) = wr_target r"
  by (simp add: resolve_ref_def Let_def split: list.split)

lemma demo_content:
  "utf8_decode demo_linked_note = Some (lit ''[[b]] x'')" "strip_frontmatter (lit ''[[b]] x'') = lit ''[[b]] x''"
  "derive_title (lit ''[[b]] x'') (lit ''a'') = lit ''a''" "strip_extension (base_name (lit ''a.md'')) = lit ''a''"
  "map wr_target (parse_wikilinks (lit ''[[b]] x'')) = [lit ''b'']"
  by code_simp+


section \<open>Rebuilds\<close>

lemma rebuild_from_empty:
  assumes "live s db" "xs_fts s" "vv_tree V = Some tree"
  shows "rebuild E V opened now s =
    (let L = ie_lib E; files = tree_files L tree; full = full_map L files; noext = noext_map L files;
         s = s\<lparr>xs_full := full, xs_noext := noext\<rparr> in
     case rebuild_rows E True V full noext files empty_db (0, 0, 0) of
       Inl err \<Rightarrow> (Inl err, s)
     | Inr (db, skipped, failed, written) \<Rightarrow>
         (Inr \<lparr>rb_indexed = written - failed, rb_skipped = skipped, rb_failed = failed\<rparr>,
          s\<lparr>xs_db := Some (add_backlinks (\<lambda>_. True) db), xs_skipped := skipped, xs_failed := failed,
            xs_built_at := Some now, xs_state := IxReady\<rparr>))"
  using assms wipe_empties [of True db]
  by (simp add: rebuild_def open_database_def live_def Let_def)


definition demo_stale :: index_state where
  "demo_stale = demo_live\<lparr>xs_db := Some (with_entry demo_lib True
     (unreadable_entry (lit ''old.md'') (lit ''00'')) empty_db)\<rparr>"

lemma demo_stale: "live demo_stale (with_entry demo_lib True (unreadable_entry (lit ''old.md'') (lit ''00'')) empty_db)"
proof -
  have "db_ok True (with_entry demo_lib True (unreadable_entry (lit ''old.md'') (lit ''00'')) empty_db)"
    using demo_live by (intro with_entry_ok)
      (simp_all add: live_def demo_live_def empty_db_def entry_keys_ok_def unreadable_entry_def folded_tags_def)
  then show ?thesis using demo_live by (simp add: demo_stale_def live_def demo_live_def)
qed


lemma insert_unstorable: "\<not> entry_storable L e \<Longrightarrow> insert_note_row L fts e db = Inl Unstorable"
  by (simp add: insert_note_row_def Let_def)

lemma rebuild_rows_unstorable:
  assumes "path \<in> set files" "markdown_file (ie_lib E) path" "vv_read V path = Some data"
    and "\<not> entry_storable (ie_lib E) (build_entry E full noext path data)"
  shows "\<exists>err. rebuild_rows E fts V full noext files db counts = Inl err"
  using assms(1)
proof (induction files arbitrary: db counts)
  case (Cons p files)
  obtain skipped failed written where c: "counts = (skipped, failed, written)" by (metis prod_cases3)
  show ?case
  proof (cases "p = path")
    case True
    with assms(2-4) show ?thesis by (simp add: c insert_unstorable Let_def)
  next
    case False
    then have IH: "\<exists>err. rebuild_rows E fts V full noext files db' counts' = Inl err" for db' counts'
      using Cons by simp
    show ?thesis
    proof (cases "vv_read V p")
      case None
      then show ?thesis using IH by (simp add: c)
    next
      case (Some d)
      then show ?thesis
        using IH by (cases "insert_note_row (ie_lib E) fts (build_entry E full noext p d) db")
          (simp_all add: c Let_def)
    qed
  qed
qed simp

text \<open>
  C38. One note can stop the whole index: when the frontmatter of a readable note holds a value that
  \<^verbatim>\<open>json.dumps\<close> refuses or SQLite cannot store, a rebuild raises and is rolled back, so no note of the
  vault is indexed.
\<close>

theorem unstorable_frontmatter_stops_rebuild:
  assumes "live s db" and "xs_fts s" and "vv_tree V = Some tree" and "path \<in> set (tree_files (ie_lib E) tree)"
    and "markdown_file (ie_lib E) path" and "vv_read V path = Some data" and "utf8_decode (fst data) = Some content"
    and "(k, v) \<in> set (fm_properties (parse_frontmatter (ie_lib E) (ie_yaml E) content))" and "\<not> json_storable v"
  shows "(\<exists>err. fst (rebuild E V opened now s) = Inl err) \<and> xs_db (snd (rebuild E V opened now s)) = Some db"
proof -
  have "\<not> entry_storable (ie_lib E) (build_entry E full noext path data)" for full noext
    using assms(7-9) by (auto simp: build_entry_def entry_from_text_def entry_storable_def Let_def list_all_iff)
  from rebuild_rows_unstorable [OF assms(4-6) this] show ?thesis
    unfolding rebuild_from_empty [OF assms(1-3)] Let_def
    using assms(1) by (auto simp: live_def split: sum.split prod.split) (metis old.sum.exhaust sum.simps(4))?
qed

text \<open>\<^verbatim>\<open>!!set\<close> is a standard tag that \<^verbatim>\<open>safe_load\<close> accepts.\<close>

definition set_yaml :: yaml_lib where
  "set_yaml = \<lparr>safe_load = (\<lambda>block. YamlValue (YDict [(YStr (lit ''k''), YOther (lit ''set()''))])), py_str = (\<lambda>v. [])\<rparr>"

definition set_env :: index_env where
  "set_env = \<lparr>ie_lib = demo_lib, ie_yaml = set_yaml, ie_cap = 100\<rparr>"

definition set_note :: pystr where
  "set_note = lit ''---'' @ [10] @ lit ''k: !!set {}'' @ [10] @ lit ''---''"

definition set_bytes :: bytes where
  "set_bytes = map of_nat set_note"

definition set_view :: vault_view where
  "set_view = demo_disk_view ((\<lambda>_. Some demo_linked_note)(lit ''b.md'' := Some set_bytes))
     [(lit ''a.md'', True), (lit ''b.md'', True)]"

lemma unstorable_frontmatter_stops_rebuild_witness:
  "(\<exists>err. fst (rebuild set_env set_view None 5 demo_live) = Inl err) \<and>
   xs_db (snd (rebuild set_env set_view None 5 demo_live)) = Some empty_db"
proof -
  have tree: "vv_tree set_view = Some [(lit ''a.md'', True), (lit ''b.md'', True)]"
    by (simp add: set_view_def demo_disk_view_def)
  have "lit ''b.md'' \<in> set (tree_files (ie_lib set_env) [(lit ''a.md'', True), (lit ''b.md'', True)])"
    by (simp add: tree_files_def)
  moreover have "markdown_file (ie_lib set_env) (lit ''b.md'')"
    by (simp add: set_env_def markdown_file_def demo_lib_def ascii_lower_char_def ends_with_def)
  moreover have "vv_read set_view (lit ''b.md'') = Some (set_bytes, hexdigest demo_lib set_bytes)"
    by (simp add: set_view_def demo_disk_view_def)
  moreover have "utf8_decode (fst (set_bytes, hexdigest demo_lib set_bytes)) = Some set_note"
    unfolding fst_conv by code_simp
  moreover have "(YStr (lit ''k''), YOther (lit ''set()'')) \<in>
      set (fm_properties (parse_frontmatter (ie_lib set_env) (ie_yaml set_env) set_note))"
    by code_simp
  ultimately show ?thesis
    using unstorable_frontmatter_stops_rebuild [OF demo_live _ tree, of "lit ''b.md''" set_env] by (simp add: demo_live_def)
qed

section \<open>Links the actions write\<close>

text \<open>
  A link that an action appends can be lost: the action only looks for backtick fences, so in a note
  that ends inside a tilde fence the new link is code for the scanner.
\<close>

theorem link_after_tilde_fence_is_lost:
  "add_link (lit ''~~~'' @ [10] @ lit ''x'') (lit ''b.md'') =
     Inr (lit ''~~~'' @ [10] @ lit ''x'' @ [10, 10] @ lit ''[[b.md]]'' @ [10]) \<and>
   parse_wikilinks (lit ''~~~'' @ [10] @ lit ''x'' @ [10, 10] @ lit ''[[b.md]]'' @ [10]) = []"
  by code_simp

section \<open>Snippets\<close>

text \<open>A library whose case folding makes two letters of the sharp s, as Unicode does.\<close>

definition sharp_lib :: pylib where
  "sharp_lib = demo_lib\<lparr>casefold := \<lambda>s. concat (map (\<lambda>c. if c = 223 then [115, 115] else [ascii_lower_char c]) s)\<rparr>"

lemma snippet_uses_folded_offsets:
  "snippet_of sharp_lib (replicate 100 223 @ [32] @ lit ''needle'') [lit ''needle''] = [8230] \<and>
   contains_term (casefold sharp_lib (replicate 100 223 @ [32] @ lit ''needle'')) (lit ''needle'')"
  by code_simp

end
