(* ===== verification/Watcher.thy ===== *)
theory Watcher imports NoteIndex AtomicWrite "HOL-Library.Code_Target_Nat" begin

text \<open>
  \<^verbatim>\<open>server/vault/events.py\<close> and \<^verbatim>\<open>watcher.py\<close>: how notifications of the operating system become events of
  notes. The state is \<open>VaultWatcher\<close> with its buffer \<^verbatim>\<open>_pending\<close> in the order of the Python dictionary;
  times are milliseconds of the monotonic clock. What \<^verbatim>\<open>Path.resolve\<close> answers is the argument \<open>resolver\<close>,
  \<open>None\<close> when it raises; the observer of the watchdog package is the argument of the start. The callback
  changes a state of its own, and its exceptions are caught. The wall clock stamp of an event is left out.
\<close>

section \<open>Events\<close>

record watch_event =
  we_event :: vault_event
  we_directory :: bool

text \<open>\<^verbatim>\<open>VaultEvent.key\<close>.\<close>

fun watch_key :: "vault_event \<Rightarrow> pystr list" where
  "watch_key (VCreate p) = [lit ''create'', p]"
| "watch_key (VModify p) = [lit ''modify'', p]"
| "watch_key (VDelete p) = [lit ''delete'', p]"
| "watch_key (VMove old new) = [lit ''move'', old, new]"

fun named_paths :: "vault_event \<Rightarrow> pystr list" where
  "named_paths (VCreate p) = [p]"
| "named_paths (VModify p) = [p]"
| "named_paths (VDelete p) = [p]"
| "named_paths (VMove old new) = [old, new]"

datatype watch_status = WatchDisabled | WatchStopped | WatchRunning | WatchUnavailable

record watcher =
  wa_root :: fpath
  wa_debounce :: nat
  wa_enabled :: bool
  wa_pending :: "(pystr list \<times> nat \<times> watch_event) list"
  wa_stop :: bool
  wa_worker :: bool
  wa_observer :: bool
  wa_status :: watch_status
  wa_diagnostic :: "pystr option"

definition new_watcher :: "fpath \<Rightarrow> int \<Rightarrow> bool \<Rightarrow> watcher" where
  "new_watcher base debounce_ms enabled =
     \<lparr>wa_root = base, wa_debounce = nat debounce_ms, wa_enabled = enabled, wa_pending = [], wa_stop = False,
      wa_worker = False, wa_observer = False,
      wa_status = (if enabled then WatchStopped else WatchDisabled), wa_diagnostic = None\<rparr>"

section \<open>Start and stop\<close>

datatype observer_start = ObserverMissing | ObserverFails | ObserverStarts

definition start_watcher :: "observer_start \<Rightarrow> watcher \<Rightarrow> watcher" where
  "start_watcher observer w =
     (if \<not> wa_enabled w then w\<lparr>wa_status := WatchDisabled\<rparr>
      else if wa_status w = WatchRunning then w
      else case observer of
        ObserverMissing \<Rightarrow>
          w\<lparr>wa_status := WatchUnavailable, wa_diagnostic := Some (lit ''watchdog is not installed'')\<rparr>
      | ObserverFails \<Rightarrow>
          w\<lparr>wa_status := WatchUnavailable, wa_diagnostic := Some (lit ''watcher could not be started''),
            wa_observer := False\<rparr>
      | ObserverStarts \<Rightarrow>
          w\<lparr>wa_observer := True, wa_stop := False, wa_worker := True, wa_status := WatchRunning,
            wa_diagnostic := None\<rparr>)"

text \<open>The stop in two parts, between which the worker takes its last round.\<close>

definition request_stop :: "watcher \<Rightarrow> watcher" where
  "request_stop w = w\<lparr>wa_stop := True\<rparr>"

definition finish_stop :: "watcher \<Rightarrow> watcher" where
  "finish_stop w =
     w\<lparr>wa_observer := False, wa_worker := False,
       wa_status := (if wa_enabled w \<and> wa_status w \<noteq> WatchUnavailable then WatchStopped else wa_status w)\<rparr>"

section \<open>From the path of a notification to the path of a note\<close>

text \<open>\<^verbatim>\<open>Path(raw_path)\<close>, when it is absolute; \<^verbatim>\<open>relative_to\<close> raises for the others and for a double slash.\<close>

definition os_path :: "pystr \<Rightarrow> fpath option" where
  "os_path raw =
     (if starts_with raw (lit ''/'') \<and> \<not> (starts_with raw (lit ''//'') \<and> \<not> starts_with raw (lit ''///''))
      then Some (filter (\<lambda>c. c \<noteq> [] \<and> c \<noteq> lit ''.'') (split_on SLASH raw)) else None)"

definition normalize_os_path :: "(fpath \<Rightarrow> fpath option) \<Rightarrow> fpath \<Rightarrow> pystr \<Rightarrow> pystr option" where
  "normalize_os_path resolver base raw =
     (if raw = [] then None
      else case os_path raw of
        None \<Rightarrow> None
      | Some path \<Rightarrow>
          if Option.bind (resolver path) (relative_to base) = None then None
          else case relative_to base path of
            None \<Rightarrow> None
          | Some parts \<Rightarrow>
              let display = display_path base (base @ parts) in
              if is_reserved_derived_path display then None
              else if list_ex is_hidden_name (split_on SLASH display) then None
              else (case validate_relative_path (Str display) False of
                Inl _ \<Rightarrow> None
              | Inr _ \<Rightarrow> Some display))"

section \<open>The buffer\<close>

definition queue_event :: "nat \<Rightarrow> watch_event \<Rightarrow> watcher \<Rightarrow> watcher" where
  "queue_event now e w =
     w\<lparr>wa_pending := put_key (watch_key (we_event e)) (now + wa_debounce w, e) (wa_pending w)\<rparr>"

definition emit_path ::
  "(pystr \<Rightarrow> vault_event) \<Rightarrow> (fpath \<Rightarrow> fpath option) \<Rightarrow> nat \<Rightarrow> pystr \<Rightarrow> bool \<Rightarrow> watcher \<Rightarrow> watcher" where
  "emit_path kind resolver now raw is_directory w =
     (case normalize_os_path resolver (wa_root w) raw of
        None \<Rightarrow> w
      | Some path \<Rightarrow> queue_event now \<lparr>we_event = kind path, we_directory = is_directory\<rparr> w)"

definition emit_created :: "(fpath \<Rightarrow> fpath option) \<Rightarrow> nat \<Rightarrow> pystr \<Rightarrow> bool \<Rightarrow> watcher \<Rightarrow> watcher" where
  "emit_created = emit_path VCreate"

definition emit_modified :: "(fpath \<Rightarrow> fpath option) \<Rightarrow> nat \<Rightarrow> pystr \<Rightarrow> bool \<Rightarrow> watcher \<Rightarrow> watcher" where
  "emit_modified = emit_path VModify"

definition emit_deleted :: "(fpath \<Rightarrow> fpath option) \<Rightarrow> nat \<Rightarrow> pystr \<Rightarrow> bool \<Rightarrow> watcher \<Rightarrow> watcher" where
  "emit_deleted = emit_path VDelete"

definition emit_moved ::
  "(fpath \<Rightarrow> fpath option) \<Rightarrow> nat \<Rightarrow> pystr \<Rightarrow> pystr \<Rightarrow> bool \<Rightarrow> watcher \<Rightarrow> watcher" where
  "emit_moved resolver now raw_old raw_new is_directory w =
     (case (normalize_os_path resolver (wa_root w) raw_old, normalize_os_path resolver (wa_root w) raw_new) of
        (Some old, Some new) \<Rightarrow> queue_event now \<lparr>we_event = VMove old new, we_directory = is_directory\<rparr> w
      | _ \<Rightarrow> w)"

section \<open>Dispatch\<close>

definition pending_events :: "(pystr list \<times> nat \<times> watch_event) list \<Rightarrow> watch_event list" where
  "pending_events m = map (\<lambda>(k, d, e). e) m"

text \<open>
  One round of \<^verbatim>\<open>_dispatch_loop\<close> under the lock: the events to dispatch and whether the worker ends.
\<close>

definition dispatch_round :: "nat \<Rightarrow> watcher \<Rightarrow> (watch_event list \<times> bool) \<times> watcher" where
  "dispatch_round now w =
     (if wa_stop w then ((pending_events (wa_pending w), True), w\<lparr>wa_pending := []\<rparr>)
      else
        let due = pending_events (filter (\<lambda>(k, d, e). d \<le> now) (wa_pending w)) in
        ((due, False), w\<lparr>wa_pending := fold (\<lambda>e. drop_key (watch_key (we_event e))) due (wa_pending w)\<rparr>))"

text \<open>How long a round without due events waits: for ever, or until the first deadline, at least 1 ms.\<close>

definition wait_time :: "nat \<Rightarrow> watcher \<Rightarrow> nat option" where
  "wait_time now w =
     (case map (\<lambda>(k, d, e). d) (wa_pending w) of
        [] \<Rightarrow> None
      | d # ds \<Rightarrow> Some (max 1 (fold min ds d - now)))"

definition dispatch :: "(watch_event \<Rightarrow> 's \<Rightarrow> (pystr + unit) \<times> 's) option \<Rightarrow> watch_event list \<Rightarrow> 's \<Rightarrow> 's" where
  "dispatch callback events s =
     (case callback of None \<Rightarrow> s | Some f \<Rightarrow> fold (\<lambda>e s. snd (f e s)) events s)"

text \<open>The callback does not notify the watcher, so the second turn of the loop finds nothing.\<close>

definition flush_watcher ::
  "(watch_event \<Rightarrow> 's \<Rightarrow> (pystr + unit) \<times> 's) option \<Rightarrow> watcher \<Rightarrow> 's \<Rightarrow> watcher \<times> 's" where
  "flush_watcher callback w s =
     (w\<lparr>wa_pending := []\<rparr>, dispatch callback (pending_events (wa_pending w)) s)"

end
