(* ===== verification/WatcherProperties.thy ===== *)
theory WatcherProperties imports Watcher IndexProperties begin

text \<open>
  What the watcher passes on: only paths a note can have, every notified change once it is quiet, and nothing
  of the rename that ends an atomic update.
\<close>

section \<open>Paths\<close>

definition watched_path :: "pystr \<Rightarrow> bool" where
  "watched_path p \<longleftrightarrow> safe_path p \<and> \<not> is_reserved_derived_path p \<and> \<not> list_ex is_hidden_name (split_on SLASH p)"

lemma normalized_watched: "normalize_os_path resolver base raw = Some p \<Longrightarrow> watched_path p"
  by (auto simp: normalize_os_path_def watched_path_def Let_def validate_relative_path_Inr
      split: option.splits if_splits sum.splits)

lemma parts_clean: "os_path raw = Some path \<Longrightarrow> c \<in> set path \<Longrightarrow> SLASH \<notin> set c \<and> c \<noteq> []"
  by (auto simp: os_path_def dest: split_on_no_sep split: if_splits)

lemma prefix_append [simp]: "relative_to base (base @ parts) = Some parts"
  by (simp add: relative_to_def)

lemma hidden_dropped:
  assumes path: "os_path raw = Some (base @ parts)" and hidden: "list_ex is_hidden_name parts"
  shows "normalize_os_path resolver base raw = None"
proof -
  have "parts \<noteq> []" using hidden by auto
  moreover have "SLASH \<notin> set c" if "c \<in> set parts" for c
    using parts_clean [OF path, of c] that by simp
  ultimately have "split_on SLASH (display_path base (base @ parts)) = parts"
    by (simp add: display_path_def relative_display_def split_join)
  then show ?thesis
    using hidden by (simp add: normalize_os_path_def path Let_def)
qed

section \<open>The watcher beside the observer, its worker and its owner\<close>

record watch_sys =
  ws_watcher :: watcher
  ws_now :: nat
  ws_log :: "watch_event list"

text \<open>The callback that remembers every event it is given.\<close>

definition remember :: "watch_event \<Rightarrow> watch_event list \<Rightarrow> (pystr + unit) \<times> watch_event list" where
  "remember e s = (Inr (), s @ [e])"

lemma fold_remember: "fold (\<lambda>e s. snd (remember e s)) es s = s @ es"
  by (induction es arbitrary: s) (simp_all add: remember_def)

lemma dispatch_remember [simp]: "dispatch (Some remember) es s = s @ es"
  by (simp add: dispatch_def fold_remember)

inductive emitted :: "nat \<Rightarrow> watcher \<Rightarrow> watcher \<Rightarrow> bool" for now :: nat where
  "emitted now w (emit_created resolver now raw is_directory w)"
| "emitted now w (emit_modified resolver now raw is_directory w)"
| "emitted now w (emit_deleted resolver now raw is_directory w)"
| "emitted now w (emit_moved resolver now raw raw' is_directory w)"

inductive watch_step :: "watch_sys \<Rightarrow> watch_sys \<Rightarrow> bool" where
  emit: "ws_now Y \<le> now \<Longrightarrow> emitted now (ws_watcher Y) w \<Longrightarrow>
    watch_step Y (Y\<lparr>ws_watcher := w, ws_now := now\<rparr>)"
| round: "ws_now Y \<le> now \<Longrightarrow> wa_worker (ws_watcher Y) \<Longrightarrow>
    dispatch_round now (ws_watcher Y) = ((events, ends), w) \<Longrightarrow>
    watch_step Y (Y\<lparr>ws_watcher := w, ws_now := now, ws_log := dispatch (Some remember) events (ws_log Y)\<rparr>)"
| flush: "flush_watcher (Some remember) (ws_watcher Y) (ws_log Y) = (w, heard) \<Longrightarrow>
    watch_step Y (Y\<lparr>ws_watcher := w, ws_log := heard\<rparr>)"
| start: "watch_step Y (Y\<lparr>ws_watcher := start_watcher observer (ws_watcher Y)\<rparr>)"
| request: "watch_step Y (Y\<lparr>ws_watcher := request_stop (ws_watcher Y)\<rparr>)"
| finish: "watch_step Y (Y\<lparr>ws_watcher := finish_stop (ws_watcher Y)\<rparr>)"

inductive watch_reach :: "watch_sys \<Rightarrow> bool" where
  init: "watch_reach \<lparr>ws_watcher = new_watcher base debounce_ms enabled, ws_now = now, ws_log = []\<rparr>"
| step: "watch_reach Y \<Longrightarrow> watch_step Y Z \<Longrightarrow> watch_reach Z"

inductive_cases emitted_elims: "emitted now w w'"

section \<open>The buffer\<close>

definition pending_ok :: "nat \<Rightarrow> nat \<Rightarrow> (pystr list \<times> nat \<times> watch_event) list \<Rightarrow> bool" where
  "pending_ok debounce now m \<longleftrightarrow> distinct (map fst m) \<and>
     (\<forall>(k, d, e) \<in> set m. k = watch_key (we_event e) \<and> d \<le> now + debounce \<and>
        list_all watched_path (named_paths (we_event e)))"

lemma set_put_key: "x \<in> set (put_key k v m) \<Longrightarrow> x = (k, v) \<or> x \<in> set m"
  by (induction k v m rule: put_key.induct) (auto split: if_splits)

lemma put_key_in: "(k, v) \<in> set (put_key k v m)"
  by (induction k v m rule: put_key.induct) auto

lemma put_key_other: "x \<in> set m \<Longrightarrow> fst x \<noteq> k \<Longrightarrow> x \<in> set (put_key k v m)"
  by (induction k v m rule: put_key.induct) auto

lemma drop_keys_eq:
  "fold (\<lambda>e. drop_key (f e)) es m = filter (\<lambda>x. fst x \<notin> f ` set es) m"
  by (induction es arbitrary: m) (auto simp: drop_key_def intro!: filter_cong)

text \<open>An event has the key it is stored under, so taking out the keys of the due events takes out those.\<close>

lemma round_pending:
  assumes ok: "pending_ok b t m"
  shows "fold (\<lambda>e. drop_key (watch_key (we_event e))) (pending_events (filter (\<lambda>(k, d, e). d \<le> now) m)) m =
    filter (\<lambda>(k, d, e). now < d) m"
proof -
  have "fst x \<in> (\<lambda>e. watch_key (we_event e)) ` set (pending_events (filter (\<lambda>(k, d, e). d \<le> now) m)) \<longleftrightarrow>
      fst (snd x) \<le> now" if "x \<in> set m" for x
  proof
    assume "fst (snd x) \<le> now"
    then have "x \<in> set (filter (\<lambda>(k, d, e). d \<le> now) m)" using that by auto
    moreover have "fst x = watch_key (we_event (snd (snd x)))"
      using ok that by (auto simp: pending_ok_def)
    ultimately show "fst x \<in> (\<lambda>e. watch_key (we_event e)) ` set (pending_events (filter (\<lambda>(k, d, e). d \<le> now) m))"
      by (force simp: pending_events_def)
  next
    assume "fst x \<in> (\<lambda>e. watch_key (we_event e)) ` set (pending_events (filter (\<lambda>(k, d, e). d \<le> now) m))"
    then obtain y where y: "y \<in> set m" "fst (snd y) \<le> now" "fst x = watch_key (we_event (snd (snd y)))"
      by (auto simp: pending_events_def)
    then have "fst x = fst y" using ok by (auto simp: pending_ok_def)
    with y(1) that ok have "x = y" by (auto simp: pending_ok_def distinct_map dest: inj_onD)
    with y(2) show "fst (snd x) \<le> now" by simp
  qed
  then show ?thesis
    unfolding drop_keys_eq by (intro filter_cong refl) (auto simp: not_le)
qed

lemma queue_keeps:
  assumes "pending_ok b t m" "t \<le> now" "list_all watched_path (named_paths (we_event e))"
  shows "pending_ok b now (put_key (watch_key (we_event e)) (now + b, e) m)"
proof -
  have old: "k = watch_key (we_event e') \<and> d \<le> now + b \<and> list_all watched_path (named_paths (we_event e'))"
    if "(k, d, e') \<in> set m" for k d e'
    using assms(1,2) that by (fastforce simp: pending_ok_def)
  show ?thesis
    using assms(1,3) put_key_distinct [of m] old
    by (auto simp: pending_ok_def dest!: set_put_key)
qed

lemma pending_ok_later: "pending_ok b t m \<Longrightarrow> t \<le> now \<Longrightarrow> pending_ok b now m"
  by (fastforce simp: pending_ok_def)

lemma pending_ok_filter: "pending_ok b t m \<Longrightarrow> pending_ok b t (filter P m)"
  by (auto simp: pending_ok_def distinct_map inj_on_def)

lemma pending_ok_Nil [simp]: "pending_ok b t []"
  by (simp add: pending_ok_def)

text \<open>An emission queues one event of watched paths, or nothing.\<close>

lemma emitted_cases:
  assumes "emitted now w w'"
  shows "w' = w \<or> (\<exists>e. w' = queue_event now e w \<and> list_all watched_path (named_paths (we_event e)))"
  using assms
proof cases
  case (4 resolver raw raw' is_directory)
  then show ?thesis
    by (fastforce simp: emit_moved_def dest: normalized_watched split: option.splits)
qed (fastforce simp: emit_created_def emit_modified_def emit_deleted_def emit_path_def
    dest: normalized_watched split: option.splits)+

section \<open>Invariant\<close>

definition watch_ok :: "watch_sys \<Rightarrow> bool" where
  "watch_ok Y \<longleftrightarrow> pending_ok (wa_debounce (ws_watcher Y)) (ws_now Y) (wa_pending (ws_watcher Y)) \<and>
     list_all (\<lambda>e. list_all watched_path (named_paths (we_event e))) (ws_log Y)"

lemma pending_events_watched:
  "pending_ok b t m \<Longrightarrow> set m' \<subseteq> set m \<Longrightarrow>
     list_all (\<lambda>e. list_all watched_path (named_paths (we_event e))) (pending_events m')"
  by (fastforce simp: pending_ok_def pending_events_def list_all_iff)

lemma start_fields [simp]:
  "wa_pending (start_watcher observer w) = wa_pending w" "wa_debounce (start_watcher observer w) = wa_debounce w"
  "wa_root (start_watcher observer w) = wa_root w"
  by (auto simp: start_watcher_def split: observer_start.split)

lemma stop_fields [simp]:
  "wa_pending (request_stop w) = wa_pending w" "wa_debounce (request_stop w) = wa_debounce w"
  "wa_pending (finish_stop w) = wa_pending w" "wa_debounce (finish_stop w) = wa_debounce w"
  by (simp_all add: request_stop_def finish_stop_def)

lemma queue_fields [simp]:
  "wa_pending (queue_event now e w) = put_key (watch_key (we_event e)) (now + wa_debounce w, e) (wa_pending w)"
  "wa_debounce (queue_event now e w) = wa_debounce w" "wa_stop (queue_event now e w) = wa_stop w"
  by (simp_all add: queue_event_def)

lemma round_eq:
  assumes "pending_ok b t (wa_pending w)"
  shows "dispatch_round now w =
    (if wa_stop w then ((pending_events (wa_pending w), True), w\<lparr>wa_pending := []\<rparr>)
     else ((pending_events (filter (\<lambda>(k, d, e). d \<le> now) (wa_pending w)), False),
           w\<lparr>wa_pending := filter (\<lambda>(k, d, e). now < d) (wa_pending w)\<rparr>))"
  by (simp add: dispatch_round_def round_pending [OF assms])

lemma watch_step_ok:
  assumes "watch_step Y Z" "watch_ok Y"
  shows "watch_ok Z"
  using assms
proof cases
  case (emit now w)
  then show ?thesis
    using assms(2) emitted_cases [OF emit(3)] by (auto simp: watch_ok_def queue_keeps pending_ok_later)
next
  case (round now events ends w)
  have p: "pending_ok (wa_debounce (ws_watcher Y)) (ws_now Y) (wa_pending (ws_watcher Y))"
    using assms(2) by (simp add: watch_ok_def)
  have "set (filter P (wa_pending (ws_watcher Y))) \<subseteq> set (wa_pending (ws_watcher Y))" for P by auto
  note w = pending_events_watched [OF p subset_refl] pending_events_watched [OF p this]
  show ?thesis
    using round assms(2) round_eq [OF p] w pending_ok_filter [OF pending_ok_later [OF p round(2)]]
    by (auto simp: watch_ok_def split: if_splits)
next
  case (flush w heard)
  then show ?thesis
    using assms(2) pending_events_watched [OF _ subset_refl] by (auto simp: watch_ok_def flush_watcher_def)
qed (auto simp: watch_ok_def)

lemma watch_reach_ok: "watch_reach Y \<Longrightarrow> watch_ok Y"
proof (induction rule: watch_reach.induct)
  case (step Y Z)
  then show ?case by (blast intro: watch_step_ok)
qed (simp add: watch_ok_def new_watcher_def)

section \<open>Every change is passed on\<close>

text \<open>After an emission the event waits in the buffer until the callback has heard it.\<close>

definition awaits :: "nat \<Rightarrow> vault_event \<Rightarrow> watch_sys \<Rightarrow> bool" where
  "awaits n v Y \<longleftrightarrow> n \<le> length (ws_log Y) \<and>
     (v \<in> we_event ` set (drop n (ws_log Y)) \<or> (\<exists>d e. (watch_key v, d, e) \<in> set (wa_pending (ws_watcher Y))))"

lemma key_injective: "watch_key v = watch_key v' \<Longrightarrow> v = v'"
  by (cases v; cases v') auto

lemma keyed_event: "pending_ok b t m \<Longrightarrow> (watch_key v, d, e) \<in> set m \<Longrightarrow> we_event e = v"
  using key_injective by (fastforce simp: pending_ok_def)

lemma emitted_keeps_keys: "emitted now w w' \<Longrightarrow> (k, d, e) \<in> set (wa_pending w) \<Longrightarrow> \<exists>d e. (k, d, e) \<in> set (wa_pending w')"
proof -
  assume "emitted now w w'" and m: "(k, d, e) \<in> set (wa_pending w)"
  then consider "w' = w" | e' where "w' = queue_event now e' w" using emitted_cases by blast
  then show "\<exists>d e. (k, d, e) \<in> set (wa_pending w')"
  proof cases
    case 2
    show ?thesis
    proof (cases "k = watch_key (we_event e')")
      case True
      then have "(k, now + wa_debounce w, e') \<in> set (wa_pending w')" using 2 by (simp add: put_key_in)
      then show ?thesis by blast
    next
      case False
      then have "(k, d, e) \<in> set (wa_pending w')" using 2 put_key_other [OF m] by simp
      then show ?thesis by blast
    qed
  qed (use m in blast)
qed

lemma due_in: "(k, d, e) \<in> set m \<Longrightarrow> P (k, d, e) \<Longrightarrow> e \<in> set (pending_events (filter P m))"
  by (force simp: pending_events_def)

lemma round_keeps_or_hears:
  assumes ok: "pending_ok b t (wa_pending w)" and r: "dispatch_round now w = ((events, ends), w')"
    and m: "(k, d, e) \<in> set (wa_pending w)"
  shows "e \<in> set events \<or> (k, d, e) \<in> set (wa_pending w')"
  using r m due_in [OF m, of "\<lambda>_. True"] due_in [OF m, of "\<lambda>(k, d, e). d \<le> now"]
  by (auto simp: round_eq [OF ok] not_le split: if_splits)

lemma watch_step_awaits:
  assumes "watch_step Y Z" "watch_ok Y" "awaits n v Y"
  shows "awaits n v Z"
proof -
  have ok: "pending_ok (wa_debounce (ws_watcher Y)) (ws_now Y) (wa_pending (ws_watcher Y))"
    using assms(2) by (simp add: watch_ok_def)
  have n: "n \<le> length (ws_log Y)" using assms(3) by (simp add: awaits_def)
  show ?thesis
  proof (cases "v \<in> we_event ` set (drop n (ws_log Y))")
    case True
    from assms(1) show ?thesis
      by cases (use True n in \<open>auto simp: awaits_def flush_watcher_def\<close>)
  next
    case False
    then obtain d e where m: "(watch_key v, d, e) \<in> set (wa_pending (ws_watcher Y))"
      using assms(3) by (auto simp: awaits_def)
    have e: "we_event e = v" by (rule keyed_event [OF ok m])
    from assms(1) show ?thesis
    proof cases
      case (emit now w)
      then show ?thesis using n emitted_keeps_keys [OF emit(3) m] by (auto simp: awaits_def)
    next
      case (round now events ends w)
      then show ?thesis using n e round_keeps_or_hears [OF ok round(4) m] by (auto simp: awaits_def)
    next
      case (flush w heard)
      then show ?thesis using n e due_in [OF m, of "\<lambda>_. True"] by (auto simp: awaits_def flush_watcher_def)
    qed (use n m in \<open>auto simp: awaits_def\<close>)
  qed
qed

lemma watch_steps_await:
  assumes "rtranclp watch_step Y Z" "watch_ok Y" "awaits n v Y"
  shows "watch_ok Z \<and> awaits n v Z"
  using assms by (induction rule: rtranclp_induct) (auto intro: watch_step_ok watch_step_awaits)

lemma last_round_hears:
  assumes "watch_ok Z" "awaits n v Z" "ws_now Z + wa_debounce (ws_watcher Z) \<le> now"
  shows "v \<in> we_event ` (set (drop n (ws_log Z)) \<union> set (fst (fst (dispatch_round now (ws_watcher Z)))))"
proof (cases "v \<in> we_event ` set (drop n (ws_log Z))")
  case False
  have ok: "pending_ok (wa_debounce (ws_watcher Z)) (ws_now Z) (wa_pending (ws_watcher Z))"
    using assms(1) by (simp add: watch_ok_def)
  obtain d e where m: "(watch_key v, d, e) \<in> set (wa_pending (ws_watcher Z))"
    using False assms(2) by (auto simp: awaits_def)
  have "d \<le> now" using ok m assms(3) by (fastforce simp: pending_ok_def)
  then have "e \<in> set (fst (fst (dispatch_round now (ws_watcher Z))))"
    using due_in [OF m, of "\<lambda>_. True"] due_in [OF m, of "\<lambda>(k, d, e). d \<le> now"] by (auto simp: round_eq [OF ok])
  then show ?thesis using keyed_event [OF ok m] by blast
qed blast

section \<open>Properties\<close>

lemma quiet_time:
  assumes "watch_ok Y" "ws_now Y \<le> now" "\<not> wa_stop (ws_watcher Y)" "u < now + wa_debounce (ws_watcher Y)"
  shows "we_event e \<notin> we_event ` set (fst (fst (dispatch_round u (queue_event now e (ws_watcher Y)))))"
proof
  let ?w = "queue_event now e (ws_watcher Y)" and ?D = "now + wa_debounce (ws_watcher Y)"
  assume heard: "we_event e \<in> we_event ` set (fst (fst (dispatch_round u ?w)))"
  have ok: "pending_ok (wa_debounce (ws_watcher Y)) (ws_now Y) (wa_pending (ws_watcher Y))"
    using assms(1) by (simp add: watch_ok_def)
  have dist: "distinct (map fst (wa_pending ?w))"
    using ok by (simp add: pending_ok_def put_key_distinct)
  have "fst (fst (dispatch_round u ?w)) = pending_events (filter (\<lambda>(k, d, e). d \<le> u) (wa_pending ?w))"
    using assms(3) by (simp add: dispatch_round_def Let_def)
  then obtain k d e' where m: "(k, d, e') \<in> set (wa_pending ?w)" "d \<le> u" "we_event e' = we_event e"
    using heard by (force simp: pending_events_def)
  have "k = watch_key (we_event e)"
    using m(1,3) ok by (auto simp: pending_ok_def dest!: set_put_key)
  moreover have "(watch_key (we_event e), ?D, e) \<in> set (wa_pending ?w)" by (simp add: put_key_in)
  ultimately have "d = ?D" using eq_key_imp_eq_value [OF dist] m(1) by blast
  with m(2) assms(4) show False by simp
qed

lemma notified_path_heard:
  assumes reach: "watch_reach Y" and path: "normalize_os_path resolver (wa_root (ws_watcher Y)) raw = Some p"
    and kind: "kind \<in> {VCreate, VModify, VDelete}" and now: "ws_now Y \<le> now"
    and steps: "rtranclp watch_step
      (Y\<lparr>ws_watcher := emit_path kind resolver now raw is_directory (ws_watcher Y), ws_now := now\<rparr>) Z"
    and late: "ws_now Z + wa_debounce (ws_watcher Z) \<le> t"
  shows "watched_path p \<and>
    kind p \<in> we_event ` (set (drop (length (ws_log Y)) (ws_log Z)) \<union>
                         set (fst (fst (dispatch_round t (ws_watcher Z))))) \<and>
    (\<not> wa_stop (ws_watcher Y) \<longrightarrow> (\<forall>u < now + wa_debounce (ws_watcher Y).
       kind p \<notin> we_event ` set (fst (fst (dispatch_round u
         (emit_path kind resolver now raw is_directory (ws_watcher Y)))))))"
proof -
  let ?e = "\<lparr>we_event = kind p, we_directory = is_directory\<rparr>"
  let ?Y = "Y\<lparr>ws_watcher := emit_path kind resolver now raw is_directory (ws_watcher Y), ws_now := now\<rparr>"
  have ok: "watch_ok Y" by (rule watch_reach_ok [OF reach])
  have q: "emit_path kind resolver now raw is_directory (ws_watcher Y) = queue_event now ?e (ws_watcher Y)"
    by (simp add: emit_path_def path)
  have "emitted now (ws_watcher Y) (emit_path kind resolver now raw is_directory (ws_watcher Y))"
    using kind emitted.intros(1-3) [of now "ws_watcher Y" resolver raw is_directory]
    by (auto simp: emit_created_def emit_modified_def emit_deleted_def)
  then have "watch_step Y ?Y" using now by (rule watch_step.emit [rotated])
  then have "watch_ok ?Y" using ok watch_step_ok by blast
  moreover have "awaits (length (ws_log Y)) (kind p) ?Y"
  proof -
    have "(watch_key (kind p), now + wa_debounce (ws_watcher Y), ?e) \<in> set (wa_pending (ws_watcher ?Y))"
      by (simp add: q put_key_in)
    then show ?thesis unfolding awaits_def by auto
  qed
  ultimately have Z: "watch_ok Z \<and> awaits (length (ws_log Y)) (kind p) Z"
    by (rule watch_steps_await [OF steps])
  show ?thesis
    using normalized_watched [OF path] last_round_hears [OF _ _ late] Z quiet_time [OF ok now, of _ ?e]
    by (simp add: q)
qed


text \<open>A new watcher over \<^verbatim>\<open>/v\<close>, and the note \<^verbatim>\<open>a.md\<close> is created.\<close>

definition demo_watch :: watch_sys where
  "demo_watch = \<lparr>ws_watcher = new_watcher [lit ''v''] 200 True, ws_now = 10, ws_log = []\<rparr>"


text \<open>
  C40. An atomic update of a note goes unnoticed: the rename of the temporary file over the note is notified
  as a move from a hidden name, and the watcher drops it, as it drops every other notification of the
  temporary file; so nothing tells the index that the note has new content.
\<close>

theorem atomic_replacement_is_dropped:
  assumes "os_path raw = Some (wa_root w @ dirs @ [temp_name token])"
  shows "emit_moved resolver now raw raw' is_directory w = w \<and> emit_created resolver now raw is_directory w = w \<and>
    emit_modified resolver now raw is_directory w = w \<and> emit_deleted resolver now raw is_directory w = w"
proof -
  have "list_ex is_hidden_name (dirs @ [temp_name token])"
    by (simp add: is_hidden_name_def temp_name_def starts_with_def)
  then have "normalize_os_path resolver (wa_root w) raw = None" by (rule hidden_dropped [OF assms])
  then show ?thesis
    by (simp add: emit_moved_def emit_created_def emit_modified_def emit_deleted_def emit_path_def split: option.split)
qed

lemma atomic_replacement_is_dropped_witness:
  "emit_moved Some 20 (lit ''/v/.localnote-tmp-1'') (lit ''/v/a.md'') False (ws_watcher demo_watch) =
     ws_watcher demo_watch \<and>
   emit_modified Some 20 (lit ''/v/a.md'') False (ws_watcher demo_watch) \<noteq> ws_watcher demo_watch"
proof -
  have raw: "os_path (lit ''/v/.localnote-tmp-1'') =
      Some (wa_root (ws_watcher demo_watch) @ [] @ [temp_name (lit ''1'')])" by code_simp
  have "wa_pending (emit_modified Some 20 (lit ''/v/a.md'') False (ws_watcher demo_watch)) \<noteq> []"
    "wa_pending (ws_watcher demo_watch) = []" by code_simp+
  then have "emit_modified Some 20 (lit ''/v/a.md'') False (ws_watcher demo_watch) \<noteq> ws_watcher demo_watch" by metis
  then show ?thesis using atomic_replacement_is_dropped [OF raw] by blast
qed

text \<open>
  The buffer is a dictionary: a repeated event keeps the place of the first one. The second creation of a
  note is passed on before the move that took the first one away.
\<close>

lemma late_create_overtakes_move:
  "map we_event (pending_events (wa_pending
     (emit_created Some 2 (lit ''/v/a.md'') False
       (emit_moved Some 1 (lit ''/v/a.md'') (lit ''/v/b.md'') False
         (emit_created Some 0 (lit ''/v/a.md'') False (new_watcher [lit ''v''] 200 True)))))) =
   [VCreate (lit ''a.md''), VMove (lit ''a.md'') (lit ''b.md'')]"
  by code_simp

text \<open>A worker that waits as long as it decides to finds an event that is due.\<close>

lemma fold_min_le: "\<exists>d' \<in> set (d # ds). fold min ds d = (d' :: nat)"
proof (induction ds arbitrary: d)
  case (Cons a ds)
  from Cons.IH [of "min a d"] show ?case by (auto simp: min_def split: if_splits)
qed simp

lemma wait_reaches_first_deadline:
  assumes "wait_time now w = Some pause" "\<not> wa_stop w" "now + pause \<le> later"
  shows "fst (fst (dispatch_round later w)) \<noteq> []"
proof -
  obtain d ds where ds: "map (\<lambda>(k, d, e). d) (wa_pending w) = d # ds" "pause = max 1 (fold min ds d - now)"
    using assms(1) by (auto simp: wait_time_def split: list.splits)
  obtain k e where m: "(k, fold min ds d, e) \<in> set (wa_pending w)"
    using fold_min_le [of d ds] ds(1) by (smt (verit) case_prod_beta imageE list.set_map prod.collapse)
  have "fold min ds d \<le> later" using ds(2) assms(3) by simp
  then show ?thesis
    using due_in [OF m, of "\<lambda>(k, d, e). d \<le> later"] assms(2) by (auto simp: dispatch_round_def Let_def)
qed

end
