(* ===== verification/Spec2Isabelle.thy ===== *)
theory Spec2Isabelle
  imports VaultProperties ActionProperties RecoveryProperties AgentProperties CronProperties SchedulerProperties
    GraphProperties ChunkProperties RagProperties IndexProperties NoteProperties WatcherProperties
begin

text \<open>
  A model of the LocalBook server (\<^verbatim>\<open>src/server\<close>), a local note-taking server that lets a language
  model propose edits to a vault of Markdown files and applies them under control.

  \<^bold>\<open>The parts and how they interact.\<close> The vault service is the only code that touches notes. A job of the
  agent service carries actions a model proposed: they are parsed and validated (actions), turned into
  edits of notes (patches), judged by the policy engine, shown as a preview, and, once accepted,
  executed as one transaction that is journalled in the history and rolled back when an operation fails.
  A committed job can be undone from its journal; after a crash the scanner marks interrupted jobs and
  runs, and explicit recovery restores the vault. The scheduler starts jobs at cron times or on request,
  records each run in the history, and may execute tag edits without a user when the server allows it.
  Beside this the server answers from derived data: the watcher turns notifications of the operating system
  into events, the index follows them with rows of notes, tags, properties and links, search, metadata and
  the graph read those rows, and the answer to a question cites chunks of notes found by retrieval.

  \<^bold>\<open>Theories and sources.\<close>

  \<^item> \<^theory_text>\<open>Prelude\<close>, \<^theory_text>\<open>PyText\<close>, \<^theory_text>\<open>PyNumbers\<close>, \<^theory_text>\<open>Utf8\<close>: Python values and
    numbers, the \<open>act\<close> monad (a state passed on, exceptions as \<open>Inl\<close>), triples \<open>hoare\<close> and invariants \<open>keeps\<close> over it, the methods of \<^verbatim>\<open>str\<close>, strict UTF-8.
  \<^item> \<^theory_text>\<open>VaultErrors\<close>, \<^theory_text>\<open>PathLexical\<close>, \<^theory_text>\<open>OsModel\<close>, \<^theory_text>\<open>PathSafety\<close>, \<^theory_text>\<open>AtomicWrite\<close>, \<^theory_text>\<open>VaultService\<close>:
    \<^verbatim>\<open>vault/errors.py\<close>, \<^verbatim>\<open>schemas.py\<close>, \<^verbatim>\<open>path_safety.py\<close>, \<^verbatim>\<open>atomic_write.py\<close> and \<^verbatim>\<open>service.py\<close> over a
    model of the system calls they make. \<^theory_text>\<open>VaultContract\<close> states what the other parts rely on as the
    locale \<open>vault_store\<close> and interprets it on this model.
  \<^item> \<^theory_text>\<open>Actions\<close>, \<^theory_text>\<open>ActionJson\<close>, \<^theory_text>\<open>Patches\<close>, \<^theory_text>\<open>Policy\<close>: \<^verbatim>\<open>actions/\<close> and \<^verbatim>\<open>policies/\<close>.
  \<^item> \<^theory_text>\<open>History\<close>, \<^theory_text>\<open>HistoryService\<close>, \<^theory_text>\<open>HistoryLaws\<close>: \<^verbatim>\<open>history/\<close>, with the contract \<open>journal_store\<close> and
    the simulation between the database and its mirror in memory.
  \<^item> \<^theory_text>\<open>Recovery\<close>, \<^theory_text>\<open>RecoveryProofs\<close>, \<^theory_text>\<open>RecoveryUndo\<close>, \<^theory_text>\<open>RecoveryCrash\<close>, \<^theory_text>\<open>ScannerProofs\<close>: \<^verbatim>\<open>recovery/\<close>, proved
    inside the two contracts; \<^theory_text>\<open>FileTransactions\<close> puts them on the file service.
  \<^item> \<^theory_text>\<open>Agents\<close>, \<^theory_text>\<open>AgentProofs\<close>, \<^theory_text>\<open>JobFrame\<close>: \<^verbatim>\<open>agents/\<close>. The locale \<open>job_frame\<close> collects what jobs and
    journals leave alone; the scheduler's table of runs is an instance.
  \<^item> \<^theory_text>\<open>Cron\<close>, \<^theory_text>\<open>CronProofs\<close>, \<^theory_text>\<open>CronBackend\<close>, \<^theory_text>\<open>IndexCheck\<close>: \<^verbatim>\<open>scheduler/cron.py\<close>, \<^verbatim>\<open>registry.py\<close>,
    \<^verbatim>\<open>asyncio_backend.py\<close>, the weekday translation of \<^verbatim>\<open>apscheduler_backend.py\<close>, the cron validation of
    \<^verbatim>\<open>config.py\<close>, and \<^verbatim>\<open>index_job.py\<close>.
  \<^item> \<^theory_text>\<open>Scheduler\<close>, \<^theory_text>\<open>SchedulerProofs\<close>, \<^theory_text>\<open>SchedulerExact\<close>, \<^theory_text>\<open>SchedulerVault\<close>: \<^verbatim>\<open>scheduler/service.py\<close>,
    \<^verbatim>\<open>runner.py\<close>, \<^verbatim>\<open>cleanup.py\<close>, \<^verbatim>\<open>locks.py\<close> and \<^verbatim>\<open>models.py\<close>; the step relation \<open>sched_step\<close>, exact
    equations on a history that works, and what runs do to the vault.
  \<^item> \<^theory_text>\<open>Graph\<close>: \<^verbatim>\<open>graph/\<close>, the pages of notes, tags and links computed from one snapshot of the index.
  \<^item> \<^theory_text>\<open>Chunking\<close>, \<^theory_text>\<open>ChunkProofs\<close>: \<^verbatim>\<open>rag/chunking/markdown.py\<close>, how a note is cut for retrieval.
  \<^item> \<^theory_text>\<open>Retrieval\<close>, \<^theory_text>\<open>Grounding\<close>, \<^theory_text>\<open>RagService\<close>: \<^verbatim>\<open>rag/retrieval/rrf.py\<close> and \<^verbatim>\<open>hybrid.py\<close>,
    \<^verbatim>\<open>rag/context/builder.py\<close>, \<^verbatim>\<open>rag/citations.py\<close> and the question path of \<^verbatim>\<open>rag/service.py\<close>.
  \<^item> \<^theory_text>\<open>Markdown\<close>: \<^verbatim>\<open>markdown/wikilinks.py\<close> and \<^verbatim>\<open>frontmatter.py\<close>, links outside code and the head of a note.
  \<^item> \<^theory_text>\<open>NoteIndex\<close>: \<^verbatim>\<open>index/service.py\<close> on the tables of \<^verbatim>\<open>index/schema.py\<close> as lists of rows: rebuild,
    refresh, events and their buffer. \<^theory_text>\<open>NoteQueries\<close>: its queries, \<^verbatim>\<open>search/\<close>, \<^verbatim>\<open>links/\<close> and
    \<^verbatim>\<open>metadata/\<close>. \<^theory_text>\<open>IndexProofs\<close>, \<^theory_text>\<open>IndexTables\<close>, \<^theory_text>\<open>IndexWatch\<close>, \<^theory_text>\<open>IndexSystem\<close>: what can be stored, the
    invariant of the tables, what each event does to a path, and the step relation \<open>index_step\<close> of changes,
    notifications, timers and rebuilds.
  \<^item> \<^theory_text>\<open>Watcher\<close>: \<^verbatim>\<open>vault/events.py\<close> and \<^verbatim>\<open>watcher.py\<close>, the buffer between the observer and its consumers.
  \<^item> The theories named \<open>...Properties\<close> hold the properties and their closed instances, \<^theory_text>\<open>RecoveryDemo\<close> the
    small vault these run on.

  \<^bold>\<open>What the lemmas show.\<close> Vault: the exact result and tree of each operation in an undisturbed run, that an
  update is never torn and never overwrites what it did not read, under any interference and any injected
  error. Actions and policy: what can be parsed, what can ever be allowed, what an edit can do to a note.
  History: keys and journal stay consistent, retention deletes only what it may, mirror and database agree.
  Recovery: all or nothing, undo as an inverse, restoring after a crash, refusing when somebody else edited.
  Jobs: accepting applies the previewed selection completely or not at all. Scheduler: the next fire is the
  earliest one, runs are never opened again, shutdown and watchdog flag what they should, and a run
  changes nothing but files named by tag edits it was allowed to make. Graph: the local graph is the ball
  around a note, no page has an edge to a missing node. Chunks: ordered verbatim slices with only white space
  between them, code and tables whole, over the token bound only when one block or sentence is, and cutting
  ends on every note. Answers: they cite only sources of their evidence, which was retrieved, within its
  budget. Index: after the last notification a flush leaves exactly the digests of the files, an entry reads
  back as it was built, a rebuild forgets what was there, a link resolves to the first match by folded path.
  Watcher: what is notified is heard, but for a rename from a hidden name.

  \<^bold>\<open>Parameters\<close> stand for code that is not in the repository: \<open>pylib\<close> (SHA-256, lower case
  and case folding), \<open>digit_table\<close>, \<open>zone\<close> (the IANA database), \<open>tags_of\<close> (YAML), \<open>unified_diff\<close> (difflib), the
  planner's answer (a language model), \<open>yaml_lib\<close> (PyYAML), \<open>search_lib\<close> (the match of the full text table and
  rounding), \<open>float_lib\<close> and \<open>score_lib\<close> (floating point), the rows of the vector store, what the retrievers
  and the reranker answer, the chat model with its JSON payload, what opening the database gives, what the
  vault answers during one operation of the index (\<open>vault_view\<close>), what \<^verbatim>\<open>Path.resolve\<close> answers; clock,
  \<^verbatim>\<open>uuid4\<close> and ISO timestamps are functions. Faults are inputs:
  \<open>w_env\<close> lists what happens before each system call, \<open>db_faults\<close> which database accesses fail.

  \<^bold>\<open>Bounds.\<close> The scan for the next fire has the source's own bound of 400 days as its fuel; loops over lists
  are structural; no definition has a fuel of its own beyond what the code has. The line scanner of the
  chunker is a partial function that is proved to return on every note, the scanners of links and inline code
  are functions with a termination proof.

  \<^bold>\<open>Not modelled.\<close> HTTP routes, configuration and wiring (\<^verbatim>\<open>api/\<close>, \<^verbatim>\<open>config.py\<close> beyond cron,
  \<^verbatim>\<open>runtime.py\<close>, \<^verbatim>\<open>vault/lifecycle.py\<close>), which only call the services above; the opening and migration of
  the database file (\<^verbatim>\<open>index/db.py\<close>), the SQL of the retrievers, of the reader and of the vector store;
  prompts and calls to language models, embedding and transcription services (\<^verbatim>\<open>ai/\<close>,
  \<^verbatim>\<open>rag/embeddings\<close>, \<^verbatim>\<open>transcription/\<close>); conversions by external tools (\<^verbatim>\<open>documents/\<close>, \<^verbatim>\<open>export/\<close>);
  the trash, which moves and removes directory trees; the version store, which runs \<^verbatim>\<open>git\<close>; network
  discovery; the observer of the watchdog package and the threads, whose interleavings appear as steps.
  The index is proved against notifications in the order of the changes; the watcher keeps that order except
  for an event that is repeated while it waits (\<open>late_create_overtakes_move\<close>), and reports no rename from a
  hidden name. Message texts that no
  decision depends on are left out throughout.
\<close>

end
